(* ===== verification/Go_Prelude.thy ===== *)
theory Go_Prelude
  imports Main "HOL-Library.Sublist" "HOL-Library.Multiset" "HOL-Library.AList"
begin

text \<open>
  The vocabulary shared by every component: Go values and strings.

  A Go string is a sequence of bytes, so it is a \<^typ>\<open>string\<close> (a list of 8-bit characters).
  The functions below are the ones of package \<^verbatim>\<open>strings\<close> and \<^verbatim>\<open>strconv\<close> that the program calls.
  Case mapping is the ASCII one; white space is the full list of UTF-8 encoded Unicode spaces
  that \<^verbatim>\<open>strings.TrimSpace\<close> and \<^verbatim>\<open>strings.Fields\<close> know. A Go \<^verbatim>\<open>error\<close> result is a sum
  (\<^verbatim>\<open>Inl\<close> the error); a Go map is a partial function, or an association list where the order of
  an iteration over it can be observed.
\<close>

named_theorems go_eval "equations that evaluate the string library on concrete input"

section \<open>Results\<close>

definition is_err :: "'e + 'a \<Rightarrow> bool" where
  "is_err r = (case r of Inl _ \<Rightarrow> True | Inr _ \<Rightarrow> False)"

lemma is_err_simps [simp]: "is_err (Inl e)" "\<not> is_err (Inr x)"
  by (simp_all add: is_err_def)

fun bind_err :: "'e + 'a \<Rightarrow> ('a \<Rightarrow> 'e + 'b) \<Rightarrow> 'e + 'b" where
  "bind_err (Inl e) f = Inl e"
| "bind_err (Inr x) f = f x"

lemma bind_err_Inr: "bind_err r f = Inr y \<longleftrightarrow> (\<exists>x. r = Inr x \<and> f x = Inr y)"
  by (cases r) auto

lemma bind_err_Inl: "bind_err r f = Inl e \<longleftrightarrow> r = Inl e \<or> (\<exists>x. r = Inr x \<and> f x = Inl e)"
  by (cases r) auto

text \<open>\<^verbatim>\<open>append(m[k], v)\<close> on a map of slices: a missing key reads as the empty slice.\<close>

definition slice_at :: "('k \<rightharpoonup> 'v list) \<Rightarrow> 'k \<Rightarrow> 'v list" where
  "slice_at m k = (case m k of None \<Rightarrow> [] | Some vs \<Rightarrow> vs)"

definition append_at :: "('k \<rightharpoonup> 'v list) \<Rightarrow> 'k \<Rightarrow> 'v \<Rightarrow> ('k \<rightharpoonup> 'v list)" where
  "append_at m k v = m(k \<mapsto> slice_at m k @ [v])"

lemma slice_at_append_at [simp]:
  "slice_at (append_at m k v) k' = (if k' = k then slice_at m k @ [v] else slice_at m k')"
  by (simp add: append_at_def slice_at_def)

lemma slice_at_empty [simp]: "slice_at Map.empty k = []"
  by (simp add: slice_at_def)

text \<open>
  The choices the Go runtime makes: the order in which a \<^verbatim>\<open>range\<close> over a map visits the keys, the
  order in which goroutines finish. A model takes such a choice as a function on lists that only
  permutes them, and its theorems hold for every such function.
\<close>

definition permuting :: "('a list \<Rightarrow> 'a list) \<Rightarrow> bool" where
  "permuting f = (\<forall>xs. mset (f xs) = mset xs)"

lemma permuting_set [simp]: "permuting f \<Longrightarrow> set (f xs) = set xs"
  by (metis permuting_def set_mset_mset)

lemma permuting_distinct [simp]: "permuting f \<Longrightarrow> distinct (f xs) = distinct xs"
  by (metis permuting_def mset_eq_imp_distinct_iff)

lemma permuting_length [simp]: "permuting f \<Longrightarrow> length (f xs) = length xs"
  by (metis permuting_def size_mset)

lemma permuting_id [simp]: "permuting (\<lambda>xs. xs)" "permuting id"
  by (simp_all add: permuting_def)

lemma permuting_rev [simp]: "permuting rev"
  by (simp add: permuting_def)

lemma find_append:
  "find P (xs @ ys) = (case find P xs of None \<Rightarrow> find P ys | Some x \<Rightarrow> Some x)"
  by (induction xs) auto

section \<open>Dynamic values\<close>

text \<open>
  The values a \<^verbatim>\<open>map[string]any\<close> carries: one constructor per dynamic type the program switches on,
  and \<open>VOther\<close> for every other dynamic type. Numbers that are not integral carry their
  truncation toward zero, which is all the program reads of them.
\<close>

datatype goval =
    VNil
  | VBool bool
  | VInt int
  | VInt64 int
  | VFloat64 int
  | VFloat32 int
  | VString string
  | VStrings "string list"
  | VSlice "goval list"
  | VMap "(string \<times> goval) list"
  | VOther

type_synonym gomap = "(string \<times> goval) list"

definition get_key :: "gomap \<Rightarrow> string \<Rightarrow> goval option" where
  "get_key m k = map_of m k"

text \<open>Writing the entries of one map into another.\<close>

definition put_key :: "string \<Rightarrow> goval \<Rightarrow> gomap \<Rightarrow> gomap" where
  "put_key k v m = AList.update k v m"

definition put_all :: "gomap \<Rightarrow> gomap \<Rightarrow> gomap" where
  "put_all m kvs = fold (\<lambda>(k, v). put_key k v) kvs m"

lemma get_put_key [simp]: "get_key (put_key k v m) k' = (if k' = k then Some v else get_key m k')"
  by (simp add: get_key_def put_key_def update_conv)

lemma get_put_all:
  "distinct (map fst kvs) \<Longrightarrow>
   get_key (put_all m kvs) k = (case get_key kvs k of None \<Rightarrow> get_key m k | Some v \<Rightarrow> Some v)"
  unfolding put_all_def
  by (induction kvs arbitrary: m)
     (auto simp: get_key_def map_of_eq_None_iff put_key_def update_conv split: option.splits
       dest: map_of_SomeD intro: rev_image_eqI)

text \<open>The type assertions \<^verbatim>\<open>x.(T)\<close> in their two-result form.\<close>

fun as_string :: "goval option \<Rightarrow> string option" where
  "as_string (Some (VString s)) = Some s"
| "as_string _ = None"

fun as_bool :: "goval option \<Rightarrow> bool option" where
  "as_bool (Some (VBool b)) = Some b"
| "as_bool _ = None"

fun as_map :: "goval option \<Rightarrow> gomap option" where
  "as_map (Some (VMap m)) = Some m"
| "as_map _ = None"

fun as_slice :: "goval option \<Rightarrow> goval list option" where
  "as_slice (Some (VSlice vs)) = Some vs"
| "as_slice _ = None"

definition or_zero :: "'a \<Rightarrow> 'a option \<Rightarrow> 'a" where
  "or_zero z v = (case v of None \<Rightarrow> z | Some x \<Rightarrow> x)"

lemma or_zero_simps [simp]: "or_zero z None = z" "or_zero z (Some x) = x"
  by (simp_all add: or_zero_def)

section \<open>Strings\<close>

abbreviation newline :: char where "newline \<equiv> CHR 0x0A"
abbreviation tab :: char where "tab \<equiv> CHR 0x09"
abbreviation NL :: string where "NL \<equiv> [newline]"

definition has_prefix :: "string \<Rightarrow> string \<Rightarrow> bool" where
  "has_prefix s p = prefix p s"

definition has_suffix :: "string \<Rightarrow> string \<Rightarrow> bool" where
  "has_suffix s p = suffix p s"

definition cut_prefix :: "string \<Rightarrow> string \<Rightarrow> string option" where
  "cut_prefix s p = (if has_prefix s p then Some (drop (length p) s) else None)"

definition trim_prefix :: "string \<Rightarrow> string \<Rightarrow> string" where
  "trim_prefix s p = (if has_prefix s p then drop (length p) s else s)"

definition trim_suffix :: "string \<Rightarrow> string \<Rightarrow> string" where
  "trim_suffix s p = (if has_suffix s p then take (length s - length p) s else s)"

lemma has_prefix_append [simp]: "has_prefix (p @ s) p"
  by (simp add: has_prefix_def)

lemma has_prefixE: "has_prefix s p \<Longrightarrow> (\<And>r. s = p @ r \<Longrightarrow> P) \<Longrightarrow> P"
  by (auto simp: has_prefix_def prefix_def)

lemma has_suffixE: "has_suffix s p \<Longrightarrow> (\<And>r. s = r @ p \<Longrightarrow> P) \<Longrightarrow> P"
  by (auto simp: has_suffix_def suffix_def)

lemma trim_prefix_append [simp]: "trim_prefix (p @ s) p = s"
  by (simp add: trim_prefix_def)

lemma trim_suffix_append [simp]: "trim_suffix (s @ p) p = s"
  by (simp add: trim_suffix_def has_suffix_def suffix_def)

text \<open>\<^verbatim>\<open>strings.Index\<close>, with \<open>None\<close> for -1; \<^verbatim>\<open>strings.Contains\<close>.\<close>

fun index_of :: "string \<Rightarrow> string \<Rightarrow> nat option" where
  "index_of [] sub = (if sub = [] then Some 0 else None)"
| "index_of (c # cs) sub =
     (if prefix sub (c # cs) then Some 0 else map_option Suc (index_of cs sub))"

definition str_contains :: "string \<Rightarrow> string \<Rightarrow> bool" where
  "str_contains s sub = (index_of s sub \<noteq> None)"

lemma index_of_SomeD:
  "index_of s sub = Some i \<Longrightarrow> i \<le> length s \<and> prefix sub (drop i s)"
  by (induction s arbitrary: i) (auto split: if_splits)

lemma index_of_Some_split:
  assumes "index_of s sub = Some i"
  shows "s = take i s @ sub @ drop (i + length sub) s"
proof -
  from assms have "prefix sub (drop i s)" by (simp add: index_of_SomeD)
  then obtain r where "drop i s = sub @ r" by (auto simp: prefix_def)
  moreover from this have "drop (i + length sub) s = r"
    by (metis append_eq_conv_conj drop_drop add.commute)
  ultimately show ?thesis by (metis append_take_drop_id)
qed

lemma index_of_first:
  "index_of s sub = Some i \<Longrightarrow> j < i \<Longrightarrow> \<not> prefix sub (drop j s)"
proof (induction s arbitrary: i j)
  case Nil
  then show ?case by (auto split: if_splits)
next
  case (Cons c s)
  show ?case
  proof (cases j)
    case 0
    with Cons.prems show ?thesis by (auto split: if_splits)
  next
    case (Suc j')
    with Cons.prems show ?thesis using Cons.IH by (auto split: if_splits)
  qed
qed

lemma index_of_None_iff: "index_of s sub = None \<longleftrightarrow> \<not> sublist sub s"
  by (induction s) (auto simp: sublist_Cons_right)

lemma str_contains_iff: "str_contains s sub \<longleftrightarrow> sublist sub s"
  using index_of_None_iff [of s sub] by (auto simp: str_contains_def)

lemma str_contains_append [simp]: "str_contains (a @ sub @ b) sub"
  by (simp add: str_contains_iff)

text \<open>\<^verbatim>\<open>strings.Split\<close> for a separator of one byte, and for a longer one.\<close>

fun split_char :: "char \<Rightarrow> string \<Rightarrow> string list" where
  "split_char c [] = [[]]"
| "split_char c (x # xs) =
     (if x = c then [] # split_char c xs
      else (case split_char c xs of [] \<Rightarrow> [[x]] | l # ls \<Rightarrow> (x # l) # ls))"

abbreviation split_lines :: "string \<Rightarrow> string list" where
  "split_lines \<equiv> split_char newline"

function split_on :: "string \<Rightarrow> string \<Rightarrow> string list" where
  "split_on sep s =
     (if sep = [] then map (\<lambda>c. [c]) s
      else (case index_of s sep of
              None \<Rightarrow> [s]
            | Some i \<Rightarrow> take i s # split_on sep (drop (i + length sep) s)))"
  by pat_completeness auto
termination
proof (relation "measure (\<lambda>(sep, s). length s)", goal_cases)
  case 1
  then show ?case by simp
next
  case (2 sep s i)
  then have "length s = i + length sep + length (drop (i + length sep) s)"
    using index_of_Some_split [of s sep i] index_of_SomeD [of s sep i]
    by (metis add.assoc length_append length_take min.absorb2)
  moreover from 2 have "0 < length sep" by simp
  ultimately have "length (drop (i + length sep) s) < length s" by linarith
  then show ?case by simp
qed

declare split_on.simps [simp del]

text \<open>\<^verbatim>\<open>strings.Join\<close>.\<close>

fun join :: "string \<Rightarrow> string list \<Rightarrow> string" where
  "join sep [] = []"
| "join sep [x] = x"
| "join sep (x # y # ys) = x @ sep @ join sep (y # ys)"

lemma split_char_ne [simp]: "split_char c s \<noteq> []"
  by (cases s) (auto split: list.splits)

lemma join_Cons_ne: "xs \<noteq> [] \<Longrightarrow> join sep (x # xs) = x @ sep @ join sep xs"
  by (cases xs) auto

lemma join_split_char: "join [c] (split_char c s) = s"
proof (induction s)
  case Nil
  then show ?case by simp
next
  case (Cons x s)
  obtain l ls where s: "split_char c s = l # ls"
    by (cases "split_char c s") auto
  with Cons show ?case by (cases ls) (auto simp: join_Cons_ne)
qed

lemma split_char_no_sep: "l \<in> set (split_char c s) \<Longrightarrow> c \<notin> set l"
  by (induction s arbitrary: l) (auto split: if_splits list.splits)

lemma split_char_plain: "c \<notin> set l \<Longrightarrow> split_char c l = [l]"
  by (induction l) auto

lemma split_char_append_sep: "c \<notin> set l \<Longrightarrow> split_char c (l @ c # s) = l # split_char c s"
  by (induction l) auto

lemma split_char_join:
  "ls \<noteq> [] \<Longrightarrow> \<forall>l \<in> set ls. c \<notin> set l \<Longrightarrow> split_char c (join [c] ls) = ls"
  by (induction "[c]" ls rule: join.induct)
     (auto simp: split_char_plain split_char_append_sep)

lemma length_split_char: "length (split_char c s) = Suc (count_list s c)"
  by (induction s) (auto split: list.splits)

text \<open>\<^verbatim>\<open>strings.Count\<close>, \<^verbatim>\<open>strings.ReplaceAll\<close> and \<^verbatim>\<open>strings.Replace(.., 1)\<close> for a non-empty pattern.\<close>

definition str_count :: "string \<Rightarrow> string \<Rightarrow> nat" where
  "str_count s sub = length (split_on sub s) - 1"

definition replace_all :: "string \<Rightarrow> string \<Rightarrow> string \<Rightarrow> string" where
  "replace_all s old new = join new (split_on old s)"

definition replace_first :: "string \<Rightarrow> string \<Rightarrow> string \<Rightarrow> string" where
  "replace_first s old new =
     (case index_of s old of
        None \<Rightarrow> s
      | Some i \<Rightarrow> take i s @ new @ drop (i + length old) s)"

lemma split_on_ne: "sep \<noteq> [] \<Longrightarrow> split_on sep s \<noteq> []"
  by (subst split_on.simps) (auto split: option.splits)

lemma split_on_None: "sep \<noteq> [] \<Longrightarrow> index_of s sep = None \<Longrightarrow> split_on sep s = [s]"
  by (subst split_on.simps) simp

lemma split_on_Some:
  "sep \<noteq> [] \<Longrightarrow> index_of s sep = Some i \<Longrightarrow>
   split_on sep s = take i s # split_on sep (drop (i + length sep) s)"
  by (subst split_on.simps) simp

lemma join_split_on: "sep \<noteq> [] \<Longrightarrow> join sep (split_on sep s) = s"
proof (induction sep s rule: split_on.induct)
  case (1 sep s)
  show ?case
  proof (cases "index_of s sep")
    case None
    with "1.prems" show ?thesis by (simp add: split_on_None)
  next
    case (Some i)
    with "1.IH" "1.prems"
    have "join sep (split_on sep (drop (i + length sep) s)) = drop (i + length sep) s" by simp
    with Some "1.prems" index_of_Some_split [OF Some] show ?thesis
      by (simp add: split_on_Some join_Cons_ne split_on_ne)
  qed
qed

lemma str_count_zero_iff: "sub \<noteq> [] \<Longrightarrow> str_count s sub = 0 \<longleftrightarrow> \<not> str_contains s sub"
proof (cases "index_of s sub")
  case None
  then show "sub \<noteq> [] \<Longrightarrow> ?thesis" by (simp add: str_count_def split_on_None str_contains_def)
next
  case (Some i)
  assume "sub \<noteq> []"
  with Some show ?thesis
    using split_on_ne [of sub "drop (i + length sub) s"]
    by (simp add: str_count_def split_on_Some str_contains_def)
qed

text \<open>\<^verbatim>\<open>strings.TrimLeft\<close> and \<^verbatim>\<open>strings.TrimRight\<close> with an ASCII cutset.\<close>

definition trim_left :: "string \<Rightarrow> string \<Rightarrow> string" where
  "trim_left s cs = dropWhile (\<lambda>c. c \<in> set cs) s"

definition trim_right :: "string \<Rightarrow> string \<Rightarrow> string" where
  "trim_right s cs = rev (dropWhile (\<lambda>c. c \<in> set cs) (rev s))"

lemma trim_left_split: "s = take (length s - length (trim_left s cs)) s @ trim_left s cs"
proof -
  have "s = takeWhile (\<lambda>c. c \<in> set cs) s @ trim_left s cs"
    by (simp add: trim_left_def)
  then show ?thesis by (metis append_eq_conv_conj add_diff_cancel_right' length_append)
qed

lemma length_trim_left: "length (trim_left s cs) \<le> length s"
  by (simp add: trim_left_def length_dropWhile_le)

text \<open>White space: the UTF-8 encodings of the runes \<^verbatim>\<open>unicode.IsSpace\<close> accepts.\<close>

definition go_spaces :: "string list" where
  "go_spaces =
     [[CHR 0x20], [CHR 0x09], [CHR 0x0A], [CHR 0x0B], [CHR 0x0C], [CHR 0x0D],
      [CHR 0xC2, CHR 0x85], [CHR 0xC2, CHR 0xA0], [CHR 0xE1, CHR 0x9A, CHR 0x80],
      [CHR 0xE2, CHR 0x80, CHR 0x80], [CHR 0xE2, CHR 0x80, CHR 0x81],
      [CHR 0xE2, CHR 0x80, CHR 0x82], [CHR 0xE2, CHR 0x80, CHR 0x83],
      [CHR 0xE2, CHR 0x80, CHR 0x84], [CHR 0xE2, CHR 0x80, CHR 0x85],
      [CHR 0xE2, CHR 0x80, CHR 0x86], [CHR 0xE2, CHR 0x80, CHR 0x87],
      [CHR 0xE2, CHR 0x80, CHR 0x88], [CHR 0xE2, CHR 0x80, CHR 0x89],
      [CHR 0xE2, CHR 0x80, CHR 0x8A], [CHR 0xE2, CHR 0x80, CHR 0xA8],
      [CHR 0xE2, CHR 0x80, CHR 0xA9], [CHR 0xE2, CHR 0x80, CHR 0xAF],
      [CHR 0xE2, CHR 0x81, CHR 0x9F], [CHR 0xE3, CHR 0x80, CHR 0x80]]"

lemma go_spaces_ne: "e \<in> set go_spaces \<Longrightarrow> e \<noteq> []"
  by (auto simp: go_spaces_def)

definition leading_space :: "string \<Rightarrow> string option" where
  "leading_space s = find (\<lambda>e. prefix e s) go_spaces"

definition trailing_space :: "string \<Rightarrow> string option" where
  "trailing_space s = find (\<lambda>e. suffix e s) go_spaces"

lemma leading_spaceD: "leading_space s = Some e \<Longrightarrow> e \<noteq> [] \<and> prefix e s"
  unfolding leading_space_def by (metis find_Some_iff go_spaces_ne nth_mem)

lemma trailing_spaceD: "trailing_space s = Some e \<Longrightarrow> e \<noteq> [] \<and> suffix e s"
  unfolding trailing_space_def by (metis find_Some_iff go_spaces_ne nth_mem)

function trim_left_space :: "string \<Rightarrow> string" where
  "trim_left_space s =
     (case leading_space s of None \<Rightarrow> s | Some e \<Rightarrow> trim_left_space (drop (length e) s))"
  by pat_completeness auto
termination
  by (relation "measure length")
     (auto dest!: leading_spaceD intro!: diff_less simp: prefix_def)

function trim_right_space :: "string \<Rightarrow> string" where
  "trim_right_space s =
     (case trailing_space s of
        None \<Rightarrow> s
      | Some e \<Rightarrow> trim_right_space (take (length s - length e) s))"
  by pat_completeness auto
termination
  by (relation "measure length")
     (auto dest!: trailing_spaceD simp: suffix_def min_def)

declare trim_left_space.simps [simp del] trim_right_space.simps [simp del]

definition trim_space :: "string \<Rightarrow> string" where
  "trim_space s = trim_right_space (trim_left_space s)"

lemma trim_left_space_idle: "leading_space s = None \<Longrightarrow> trim_left_space s = s"
  by (subst trim_left_space.simps) simp

lemma trim_right_space_idle: "trailing_space s = None \<Longrightarrow> trim_right_space s = s"
  by (subst trim_right_space.simps) simp

lemma leading_trim_left: "leading_space (trim_left_space s) = None"
proof (induction s rule: trim_left_space.induct)
  case (1 s)
  then show ?case
    by (cases "leading_space s") (simp_all add: trim_left_space.simps [of s])
qed

lemma trailing_trim_right: "trailing_space (trim_right_space s) = None"
proof (induction s rule: trim_right_space.induct)
  case (1 s)
  then show ?case
    by (cases "trailing_space s") (simp_all add: trim_right_space.simps [of s])
qed

lemma trim_right_space_prefix: "prefix (trim_right_space s) s"
proof (induction s rule: trim_right_space.induct)
  case (1 s)
  then show ?case
    by (cases "trailing_space s")
       (auto simp: trim_right_space.simps [of s] intro: prefix_order.trans take_is_prefix)
qed

lemma trim_left_space_suffix: "suffix (trim_left_space s) s"
proof (induction s rule: trim_left_space.induct)
  case (1 s)
  then show ?case
    by (cases "leading_space s")
       (auto simp: trim_left_space.simps [of s] intro: suffix_order.trans suffix_drop)
qed

lemma leading_space_prefix: "prefix a b \<Longrightarrow> leading_space b = None \<Longrightarrow> leading_space a = None"
  unfolding leading_space_def find_None_iff by (meson prefix_order.trans)

lemma trim_space_idem: "trim_space (trim_space s) = trim_space s"
  unfolding trim_space_def
  by (metis leading_space_prefix leading_trim_left trailing_trim_right trim_left_space_idle
      trim_right_space_idle trim_right_space_prefix)

text \<open>\<^verbatim>\<open>strings.Fields\<close>: the maximal runs without white space.\<close>

function fields_from :: "string \<Rightarrow> string \<Rightarrow> string list" where
  "fields_from acc s =
     (case s of
        [] \<Rightarrow> (if acc = [] then [] else [rev acc])
      | c # cs \<Rightarrow>
          (case leading_space s of
             None \<Rightarrow> fields_from (c # acc) cs
           | Some e \<Rightarrow>
               (if acc = [] then [] else [rev acc]) @ fields_from [] (drop (length e) s)))"
  by pat_completeness auto
termination
  by (relation "measure (\<lambda>(acc, s). length s)") (auto dest!: leading_spaceD)

declare fields_from.simps [simp del]

definition fields :: "string \<Rightarrow> string list" where
  "fields s = fields_from [] s"

lemma fields_from_ne: "f \<in> set (fields_from acc s) \<Longrightarrow> f \<noteq> []"
proof (induction acc s rule: fields_from.induct)
  case (1 acc s)
  from "1.prems" show ?case
    by (subst (asm) fields_from.simps)
       (use "1.IH" in \<open>force split: list.splits option.splits if_splits\<close>)
qed

text \<open>\<^verbatim>\<open>strings.ToLower\<close> and \<^verbatim>\<open>strings.EqualFold\<close> on ASCII letters.\<close>

definition lower_char :: "char \<Rightarrow> char" where
  "lower_char c =
     (let n = of_char c :: nat in if 65 \<le> n \<and> n \<le> 90 then char_of (n + 32) else c)"

definition to_lower :: "string \<Rightarrow> string" where
  "to_lower s = map lower_char s"

definition equal_fold :: "string \<Rightarrow> string \<Rightarrow> bool" where
  "equal_fold a b = (to_lower a = to_lower b)"

lemma lower_char_idem [simp]: "lower_char (lower_char c) = lower_char c"
proof (cases "65 \<le> (of_char c :: nat) \<and> (of_char c :: nat) \<le> 90")
  case True
  then have "(of_char (char_of (of_char c + 32 :: nat)) :: nat) = of_char c + 32" by simp
  with True show ?thesis by (simp add: lower_char_def Let_def)
next
  case False
  then show ?thesis by (auto simp: lower_char_def Let_def)
qed

lemma to_lower_idem [simp]: "to_lower (to_lower s) = to_lower s"
  by (simp add: to_lower_def)

lemma length_to_lower [simp]: "length (to_lower s) = length s"
  by (simp add: to_lower_def)

lemma equal_fold_refl [simp]: "equal_fold s s"
  by (simp add: equal_fold_def)

text \<open>\<^verbatim>\<open>strconv.Itoa\<close> and \<^verbatim>\<open>%d\<close>.\<close>

definition digit_char :: "nat \<Rightarrow> char" where
  "digit_char n = char_of (48 + n)"

fun nat_to_string :: "nat \<Rightarrow> string" where
  "nat_to_string n =
     (if n < 10 then [digit_char n] else nat_to_string (n div 10) @ [digit_char (n mod 10)])"

declare nat_to_string.simps [simp del]

definition itoa :: "int \<Rightarrow> string" where
  "itoa i = (if i < 0 then CHR ''-'' # nat_to_string (nat (- i)) else nat_to_string (nat i))"

end
