(* ===== verification/Workflow_Defs.thy ===== *)
theory Workflow_Defs
  imports Go_Prelude
begin

text \<open>
  The data of package \<^verbatim>\<open>workflow\<close>: field schemas and their check (\<^verbatim>\<open>schema.go\<close>), step definitions,
  step contexts, step statuses, the sentinel errors and the events of the engine (\<^verbatim>\<open>engine.go\<close>,
  \<^verbatim>\<open>step.go\<close>).
\<close>

section \<open>Schemas\<close>

text \<open>A \<^verbatim>\<open>FieldType\<close> is a string; the five named ones, and any other.\<close>

datatype field_type =
    FieldString
  | FieldNumber
  | FieldBool
  | FieldArray
  | FieldObject
  | FieldUnknown string

record field_schema =
  ftype :: field_type
  required :: bool

text \<open>The fields of a schema, listed in the order the range over the map visits them.\<close>

record schema =
  schema_fields :: "(string \<times> field_schema) list"

datatype schema_err = FieldMissing string | FieldMistyped string field_type

fun matchesType :: "goval \<Rightarrow> field_type \<Rightarrow> bool" where
  "matchesType v FieldString = (case v of VString _ \<Rightarrow> True | _ \<Rightarrow> False)"
| "matchesType v FieldNumber =
     (case v of VInt _ \<Rightarrow> True | VInt64 _ \<Rightarrow> True | VFloat64 _ \<Rightarrow> True | VFloat32 _ \<Rightarrow> True | _ \<Rightarrow> False)"
| "matchesType v FieldBool = (case v of VBool _ \<Rightarrow> True | _ \<Rightarrow> False)"
| "matchesType v FieldArray = (case v of VSlice _ \<Rightarrow> True | VStrings _ \<Rightarrow> True | _ \<Rightarrow> False)"
| "matchesType v FieldObject = (case v of VMap _ \<Rightarrow> True | _ \<Rightarrow> False)"
| "matchesType v (FieldUnknown _) = True"

fun validate_fields :: "(string \<times> field_schema) list \<Rightarrow> gomap \<Rightarrow> schema_err option" where
  "validate_fields [] vals = None"
| "validate_fields ((name, field) # rest) vals =
     (case get_key vals name of
        None \<Rightarrow> if required field then Some (FieldMissing name) else validate_fields rest vals
      | Some raw \<Rightarrow>
          if \<not> matchesType raw (ftype field) then Some (FieldMistyped name (ftype field))
          else validate_fields rest vals)"

definition Validate :: "schema \<Rightarrow> gomap \<Rightarrow> schema_err option" where
  "Validate s vals = validate_fields (schema_fields s) vals"

text \<open>The specification of one field, independent of any order.\<close>

definition conforms :: "gomap \<Rightarrow> string \<times> field_schema \<Rightarrow> bool" where
  "conforms vals nf =
     (case get_key vals (fst nf) of
        None \<Rightarrow> \<not> required (snd nf)
      | Some raw \<Rightarrow> matchesType raw (ftype (snd nf)))"

definition field_error :: "gomap \<Rightarrow> string \<times> field_schema \<Rightarrow> schema_err" where
  "field_error vals nf =
     (if get_key vals (fst nf) = None then FieldMissing (fst nf)
      else FieldMistyped (fst nf) (ftype (snd nf)))"

lemma validate_fields_find:
  "validate_fields fs vals = map_option (field_error vals) (find (\<lambda>nf. \<not> conforms vals nf) fs)"
  by (induction fs vals rule: validate_fields.induct)
     (auto simp: conforms_def field_error_def split: option.splits)

lemma validate_fields_None_iff:
  "validate_fields fs vals = None \<longleftrightarrow> (\<forall>nf \<in> set fs. conforms vals nf)"
  by (auto simp: validate_fields_find find_None_iff)

lemma validate_fields_Some:
  "validate_fields fs vals = Some e \<Longrightarrow>
   \<exists>nf \<in> set fs. \<not> conforms vals nf \<and> e = field_error vals nf"
  by (auto simp: validate_fields_find find_Some_iff)

section \<open>Steps\<close>

datatype step_status =
    Pending
  | Running
  | Success
  | Failed
  | Skipped
  | Paused
  | WaitingApproval

fun status_string :: "step_status \<Rightarrow> string" where
  "status_string Pending = ''pending''"
| "status_string Running = ''running''"
| "status_string Success = ''success''"
| "status_string Failed = ''failed''"
| "status_string Skipped = ''skipped''"
| "status_string Paused = ''paused''"
| "status_string WaitingApproval = ''waiting_approval''"

lemma status_string_inj: "status_string a = status_string b \<longleftrightarrow> a = b"
  by (cases a; cases b) simp_all

text \<open>
  The errors a step run can end with: the sentinels of \<^verbatim>\<open>engine.go\<close>, the errors \<^verbatim>\<open>runStep\<close> itself
  makes, and any other error of a runner (\<open>StepFailed\<close>, by its text).
\<close>

datatype step_error =
    ErrPaused
  | PauseError string string
  | ErrWaitingApproval
  | ErrReviewFixLoop
  | ErrCrossReviewFixLoop
  | ErrNoProgress
  | ErrGraphChanged
  | NoRunner string
  | InputInvalid string schema_err
  | OutputInvalid string schema_err
  | StepFailed string

text \<open>\<^verbatim>\<open>errors.Is(err, ErrPaused)\<close> (a \<^verbatim>\<open>PauseError\<close> is one by its \<^verbatim>\<open>Is\<close> method) and
  \<^verbatim>\<open>errors.Is(err, ErrWaitingApproval)\<close>.\<close>

fun is_paused :: "step_error \<Rightarrow> bool" where
  "is_paused ErrPaused = True"
| "is_paused (PauseError _ _) = True"
| "is_paused _ = False"

fun is_waiting :: "step_error \<Rightarrow> bool" where
  "is_waiting ErrWaitingApproval = True"
| "is_waiting _ = False"

fun pause_error_text :: "string \<Rightarrow> string" where
  "pause_error_text reason = (if reason = '''' then ''workflow paused'' else reason)"

text \<open>What a runner is given and what it is: a runner is code of another package, so the model takes
  it as a function of its context. A \<^verbatim>\<open>nil\<close> output map is \<open>None\<close>.\<close>

type_synonym step_outputs = "string \<Rightarrow> gomap option"

record step_context =
  ctx_workflow :: string
  ctx_step_id :: string
  ctx_inputs :: step_outputs
  ctx_initial :: gomap

type_synonym step_func = "step_context \<Rightarrow> step_error + gomap option"

record step_definition =
  step_id :: string
  step_name :: string
  depends_on :: "string list"
  input_schema :: schema
  output_schema :: schema
  step_run :: "step_func option"

record wf_definition =
  wf_name :: string
  wf_steps :: "step_definition list"

record wf_event =
  ev_step :: string
  ev_status :: step_status
  ev_output :: "gomap option"
  ev_error :: "step_error option"

abbreviation step_ids :: "wf_definition \<Rightarrow> string list" where
  "step_ids def \<equiv> map step_id (wf_steps def)"

section \<open>Running one step\<close>

text \<open>\<^verbatim>\<open>aggregateInputs\<close>: the initial values, overridden by the outputs of the dependencies in order.\<close>

fun aggregate_deps :: "string list \<Rightarrow> step_outputs \<Rightarrow> gomap \<Rightarrow> gomap" where
  "aggregate_deps [] outputs input = input"
| "aggregate_deps (dep # deps) outputs input =
     aggregate_deps deps outputs (put_all input (or_zero [] (outputs dep)))"

definition aggregateInputs :: "string list \<Rightarrow> step_outputs \<Rightarrow> gomap \<Rightarrow> gomap" where
  "aggregateInputs deps outputs initial = aggregate_deps deps outputs (put_all [] initial)"

definition runStep ::
  "string \<Rightarrow> step_definition \<Rightarrow> gomap \<Rightarrow> step_outputs \<Rightarrow> step_error + gomap" where
  "runStep wname step initial outputs =
     (case step_run step of
        None \<Rightarrow> Inl (NoRunner (step_id step))
      | Some run \<Rightarrow>
          (let input = aggregateInputs (depends_on step) outputs initial;
               in_err = (if schema_fields (input_schema step) \<noteq> []
                         then Validate (input_schema step) input else None)
           in case in_err of
                Some e \<Rightarrow> Inl (InputInvalid (step_id step) e)
              | None \<Rightarrow>
                  (case run \<lparr>ctx_workflow = wname, ctx_step_id = step_id step,
                             ctx_inputs = outputs, ctx_initial = initial\<rparr> of
                     Inl e \<Rightarrow> Inl e
                   | Inr out0 \<Rightarrow>
                       (let out = or_zero [] out0;
                            out_err = (if schema_fields (output_schema step) \<noteq> []
                                       then Validate (output_schema step) out else None)
                        in case out_err of
                             Some e \<Rightarrow> Inl (OutputInvalid (step_id step) e)
                           | None \<Rightarrow> Inr out))))"

lemma runStep_output_conforms:
  assumes "runStep wname step initial outputs = Inr out" and "nf \<in> set (schema_fields (output_schema step))"
  shows "conforms out nf"
proof -
  from assms(2) have "schema_fields (output_schema step) \<noteq> []" by auto
  with assms show ?thesis
    by (auto simp: runStep_def Let_def Validate_def validate_fields_None_iff
        split: option.splits sum.splits if_splits)
qed

lemma aggregate_deps_key:
  "\<forall>d m. outputs d = Some m \<longrightarrow> distinct (map fst m) \<Longrightarrow>
   get_key (aggregate_deps deps outputs input) k =
     (case find (\<lambda>d. get_key (or_zero [] (outputs d)) k \<noteq> None) (rev deps) of
        None \<Rightarrow> get_key input k
      | Some d \<Rightarrow> get_key (or_zero [] (outputs d)) k)"
proof (induction deps arbitrary: input)
  case Nil
  then show ?case by simp
next
  case (Cons d deps)
  let ?P = "\<lambda>d. get_key (or_zero [] (outputs d)) k \<noteq> None"
  have dist: "distinct (map fst (or_zero [] (outputs d)))"
    using Cons.prems by (cases "outputs d") auto
  show ?case
    using Cons.IH [OF Cons.prems, of "put_all input (or_zero [] (outputs d))"]
    by (simp add: find_append get_put_all [OF dist] split: option.splits)
qed

end
