(* ===== verification/Graph_Search.thy ===== *)
theory Graph_Search
  imports Go_Prelude
begin

text \<open>
  Dependency graphs. Several components (the workflow engine, the governance validator, the
  scheduler policy) receive a list of nodes with their prerequisites and decide whether it can be
  executed. This theory holds what they share: the dependency relation, its acyclicity, topological
  orders, the interfaces \<open>dep_graph\<close> (a finite graph closed under prerequisites) and
  \<open>cycle_checker\<close> (a decision procedure for acyclicity), and the depth-first search with three
  colours that two of the components run.
\<close>

section \<open>The dependency relation\<close>

definition dep_rel :: "'a set \<Rightarrow> ('a \<Rightarrow> 'a list) \<Rightarrow> ('a \<times> 'a) set" where
  "dep_rel N deps = {(d, v). v \<in> N \<and> d \<in> set (deps v)}"

definition acyclic_deps :: "'a set \<Rightarrow> ('a \<Rightarrow> 'a list) \<Rightarrow> bool" where
  "acyclic_deps N deps = acyclic (dep_rel N deps)"

text \<open>A list in which every prerequisite of a node stands before it.\<close>

fun topological :: "('a \<Rightarrow> 'a list) \<Rightarrow> 'a list \<Rightarrow> 'a list \<Rightarrow> bool" where
  "topological deps before [] = True"
| "topological deps before (v # vs) =
     (set (deps v) \<subseteq> set before \<and> topological deps (before @ [v]) vs)"

lemma topological_append:
  "topological deps b (xs @ ys) \<longleftrightarrow> topological deps b xs \<and> topological deps (b @ xs) ys"
  by (induction xs arbitrary: b) auto

lemma topological_snoc:
  "topological deps b (xs @ [v]) \<longleftrightarrow>
     topological deps b xs \<and> set (deps v) \<subseteq> set b \<union> set xs"
  by (simp add: topological_append)

lemma topological_flat:
  "\<forall>v \<in> set vs. set (deps v) \<subseteq> set b \<Longrightarrow> topological deps b vs"
proof (induction vs arbitrary: b)
  case Nil
  show ?case by simp
next
  case (Cons v vs)
  then have "\<forall>w \<in> set vs. set (deps w) \<subseteq> set (b @ [v])" by auto
  then have "topological deps (b @ [v]) vs" by (rule Cons.IH)
  with Cons.prems show ?case by simp
qed

lemma topological_closed:
  "topological deps b vs \<Longrightarrow> v \<in> set vs \<Longrightarrow> set (deps v) \<subseteq> set b \<union> set vs"
  by (induction vs arbitrary: b) fastforce+

lemma in_dep_rel [simp]: "(d, v) \<in> dep_rel N deps \<longleftrightarrow> v \<in> N \<and> d \<in> set (deps v)"
  by (simp add: dep_rel_def)

text \<open>A topological order rules out cycles: its last node is the prerequisite of nothing before it.\<close>

lemma topological_wf:
  "topological deps b vs \<Longrightarrow> distinct (b @ vs) \<Longrightarrow>
   acyclic {(d, v). v \<in> set vs \<and> d \<in> set (deps v)}"
proof (induction vs rule: rev_induct)
  case Nil
  then show ?case by (simp add: acyclic_def)
next
  case (snoc x vs)
  let ?r = "{(d, v). v \<in> set vs \<and> d \<in> set (deps v)}"
  let ?r' = "{(d, v). v \<in> set (vs @ [x]) \<and> d \<in> set (deps v)}"
  from snoc.prems have top: "topological deps b vs" and x: "set (deps x) \<subseteq> set b \<union> set vs"
    by (simp_all add: topological_snoc)
  from snoc have r: "acyclic ?r" by (simp add: top)
  have fresh: "x \<notin> set (deps v)" if "v \<in> set (vs @ [x])" for v
    using that x snoc.prems(2) topological_closed [OF top] by auto
  have into: "(v, w) \<in> ?r'\<^sup>+ \<Longrightarrow> w \<noteq> x \<Longrightarrow> (v, w) \<in> ?r\<^sup>+" for v w
  proof (induction rule: trancl_induct)
    case (base y)
    then show ?case by auto
  next
    case (step y z)
    then have "y \<noteq> x" using fresh by auto
    with step show ?case by (auto intro: trancl_into_trancl)
  qed
  show ?case unfolding acyclic_def
  proof (intro allI notI)
    fix v assume v: "(v, v) \<in> ?r'\<^sup>+"
    then have "v \<noteq> x" using fresh by (auto dest!: tranclD)
    with into [OF v] r show False by (auto simp: acyclic_def)
  qed
qed

lemma topological_acyclic:
  assumes "topological deps [] vs" and "distinct vs" and "N \<subseteq> set vs"
  shows "acyclic_deps N deps"
proof -
  have "acyclic {(d, v). v \<in> set vs \<and> d \<in> set (deps v)}"
    using topological_wf [of deps "[]" vs] assms(1,2) by simp
  then show ?thesis unfolding acyclic_deps_def dep_rel_def
    by (rule acyclic_subset) (use assms(3) in auto)
qed

section \<open>The interface of a finite dependency graph\<close>

locale dep_graph =
  fixes nodes :: "'a set" and deps :: "'a \<Rightarrow> 'a list"
  assumes finite_nodes: "finite nodes"
    and deps_closed: "v \<in> nodes \<Longrightarrow> set (deps v) \<subseteq> nodes"
begin

lemma finite_dep_rel: "finite (dep_rel nodes deps)"
  by (rule finite_subset [of _ "nodes \<times> nodes"]) (use finite_nodes deps_closed in \<open>auto simp: dep_rel_def\<close>)

text \<open>In an acyclic graph every non-empty set of waiting nodes holds one that waits for none of them.\<close>

lemma ready_node:
  assumes "acyclic_deps nodes deps" and "W \<subseteq> nodes" and "W \<noteq> {}"
  shows "\<exists>v \<in> W. set (deps v) \<inter> W = {}"
proof -
  have "wf (dep_rel nodes deps)"
    using assms(1) finite_dep_rel by (simp add: acyclic_deps_def finite_acyclic_wf)
  then obtain v where "v \<in> W" "\<forall>d. (d, v) \<in> dep_rel nodes deps \<longrightarrow> d \<notin> W"
    using assms(3) by (metis wfE_min ex_in_conv)
  with assms(2) show ?thesis by auto
qed

text \<open>Conversely a set in which every node waits for another member contains a cycle.\<close>

lemma stuck_cycle:
  assumes "W \<subseteq> nodes" and "W \<noteq> {}" and "\<And>v. v \<in> W \<Longrightarrow> set (deps v) \<inter> W \<noteq> {}"
  shows "\<not> acyclic_deps nodes deps"
  using ready_node [of W] assms by blast

end

text \<open>
  The contract of a cycle check: on every input it accepts, the dependency relation of the
  input's graph has no cycle, and it accepts every such input whose prerequisites are all known.
\<close>

locale cycle_checker =
  fixes nodes_of :: "'g \<Rightarrow> 'a set" and deps_in :: "'g \<Rightarrow> 'a \<Rightarrow> 'a list" and ok :: "'g \<Rightarrow> bool"
  assumes finite_graph: "finite (nodes_of g)"
    and ok_sound: "ok g \<Longrightarrow> acyclic_deps (nodes_of g) (deps_in g)"
    and ok_complete:
      "\<lbrakk>\<And>v. v \<in> nodes_of g \<Longrightarrow> set (deps_in g v) \<subseteq> nodes_of g;
        acyclic_deps (nodes_of g) (deps_in g)\<rbrakk> \<Longrightarrow> ok g"
begin

lemma accepted_ready:
  assumes "ok g" and "\<And>v. v \<in> nodes_of g \<Longrightarrow> set (deps_in g v) \<subseteq> nodes_of g"
    and "W \<subseteq> nodes_of g" and "W \<noteq> {}"
  shows "\<exists>v \<in> W. set (deps_in g v) \<inter> W = {}"
proof -
  have "dep_graph (nodes_of g) (deps_in g)"
    by unfold_locales (use finite_graph assms(2) in auto)
  then show ?thesis
    using dep_graph.ready_node ok_sound assms(1,3,4) by metis
qed

lemma rejects_self_dependency:
  assumes "v \<in> nodes_of g" and "v \<in> set (deps_in g v)"
  shows "\<not> ok g"
proof
  assume "ok g"
  then have "acyclic (dep_rel (nodes_of g) (deps_in g))"
    using ok_sound by (simp add: acyclic_deps_def)
  moreover have "(v, v) \<in> (dep_rel (nodes_of g) (deps_in g))\<^sup>+"
    using assms by auto
  ultimately show False by (auto simp: acyclic_def)
qed

end

section \<open>Depth-first search with three colours\<close>

text \<open>
  The graph is a finite association list from a node to its prerequisites; a node that is not a key
  has none, as a read of a missing key of a Go map yields the zero value.
\<close>

type_synonym 'a adj = "('a \<times> 'a list) list"

definition deps_of :: "'a adj \<Rightarrow> 'a \<Rightarrow> 'a list" where
  "deps_of adj v = (case map_of adj v of None \<Rightarrow> [] | Some ds \<Rightarrow> ds)"

lemma deps_of_notin: "v \<notin> fst ` set adj \<Longrightarrow> deps_of adj v = []"
  by (auto simp: deps_of_def map_of_eq_None_iff [symmetric] split: option.splits)

datatype color = White | Gray | Black

text \<open>
  \<open>visit adj cur ds c\<close> is the loop of the recursive visitor over the remaining prerequisites \<open>ds\<close>
  of the node \<open>cur\<close>: a gray prerequisite closes a cycle and is reported with \<open>cur\<close>, a white one is
  visited (gray while its own prerequisites are visited, black afterwards), a black one is skipped.
\<close>

function visit :: "'a adj \<Rightarrow> 'a \<Rightarrow> 'a list \<Rightarrow> ('a \<Rightarrow> color) \<Rightarrow> 'a + ('a \<Rightarrow> color)" where
  "visit adj cur [] c = Inr c"
| "visit adj cur (d # ds) c =
     (case c d of
        Gray \<Rightarrow> Inl cur
      | Black \<Rightarrow> visit adj cur ds c
      | White \<Rightarrow>
          (case visit adj d (deps_of adj d) (c(d := Gray)) of
             Inl e \<Rightarrow> Inl e
           | Inr c' \<Rightarrow> visit adj cur ds (c'(d := Black))))"
  by pat_completeness auto

definition white_keys :: "'a adj \<Rightarrow> ('a \<Rightarrow> color) \<Rightarrow> 'a set" where
  "white_keys adj c = {v \<in> fst ` set adj. c v = White}"

lemma finite_white_keys [simp]: "finite (white_keys adj c)"
  by (simp add: white_keys_def)

lemma visit_white_mono:
  "visit_dom (adj, cur, ds, c) \<Longrightarrow> visit adj cur ds c = Inr c' \<Longrightarrow> c' v = White \<Longrightarrow> c v = White"
proof (induction adj cur ds c arbitrary: c' v rule: visit.pinduct)
  case (1 adj cur c)
  then show ?case by (simp add: visit.psimps)
next
  case (2 adj cur d ds c)
  show ?case
  proof (cases "c d")
    case White
    with 2 show ?thesis
      by (fastforce simp: visit.psimps split: sum.splits if_splits)
  next
    case Gray
    with 2 show ?thesis by (simp add: visit.psimps)
  next
    case Black
    with 2 show ?thesis by (simp add: visit.psimps)
  qed
qed

termination visit
proof (relation "inv_image (less_than <*lex*> less_than)
                  (\<lambda>(adj, cur, ds, c). (card (white_keys adj c), length ds))", goal_cases)
  case 1
  then show ?case by auto
next
  case (2 adj cur d ds c)
  show ?case
  proof (cases "d \<in> fst ` set adj")
    case True
    with 2 have "white_keys adj (c(d := Gray)) \<subset> white_keys adj c"
      by (force simp: white_keys_def)
    then show ?thesis by (simp add: psubset_card_mono)
  next
    case False
    then have "white_keys adj (c(d := Gray)) = white_keys adj c"
      by (auto simp: white_keys_def)
    with False show ?thesis by (simp add: deps_of_notin)
  qed
next
  case (3 adj cur d ds c c')
  then have "white_keys adj (c'(d := Black)) \<subseteq> white_keys adj c"
    by (fastforce simp: white_keys_def dest: visit_white_mono split: if_splits)
  then have "card (white_keys adj (c'(d := Black))) \<le> card (white_keys adj c)"
    by (simp add: card_mono)
  then show ?case by auto
next
  case (4 adj cur d ds c)
  then show ?case by simp
qed

definition visit_node :: "'a adj \<Rightarrow> 'a \<Rightarrow> ('a \<Rightarrow> color) \<Rightarrow> 'a + ('a \<Rightarrow> color)" where
  "visit_node adj v c =
     (case visit adj v (deps_of adj v) (c(v := Gray)) of
        Inl e \<Rightarrow> Inl e
      | Inr c' \<Rightarrow> Inr (c'(v := Black)))"

text \<open>The loop over the start nodes: the first cycle found is reported with its start node.\<close>

fun search_all :: "'a adj \<Rightarrow> 'a list \<Rightarrow> ('a \<Rightarrow> color) \<Rightarrow> ('a \<times> 'a) + ('a \<Rightarrow> color)" where
  "search_all adj [] c = Inr c"
| "search_all adj (v # vs) c =
     (if c v = White then
        (case visit_node adj v c of
           Inl e \<Rightarrow> Inl (v, e)
         | Inr c' \<Rightarrow> search_all adj vs c')
      else search_all adj vs c)"

subsection \<open>Correctness\<close>

definition edges :: "'a adj \<Rightarrow> ('a \<times> 'a) set" where
  "edges adj = {(v, d). d \<in> set (deps_of adj v)}"

lemma in_edges [simp]: "(v, d) \<in> edges adj \<longleftrightarrow> d \<in> set (deps_of adj v)"
  by (simp add: edges_def)

lemma visit_keeps:
  "visit adj cur ds c = Inr c' \<Longrightarrow> c v \<noteq> White \<Longrightarrow> c' v = c v"
proof (induction adj cur ds c arbitrary: c' rule: visit.induct)
  case (2 adj cur d ds c)
  then show ?case
    by (fastforce split: color.splits sum.splits if_splits)
qed simp

lemma visit_new_black:
  "visit adj cur ds c = Inr c' \<Longrightarrow> c v = White \<Longrightarrow> c' v = White \<or> c' v = Black"
proof (induction adj cur ds c arbitrary: c' rule: visit.induct)
  case (2 adj cur d ds c)
  show ?case
  proof (cases "c d")
    case White
    from 2(4) White obtain c1 where
      c1: "visit adj d (deps_of adj d) (c(d := Gray)) = Inr c1"
      and c': "visit adj cur ds (c1(d := Black)) = Inr c'"
      by (auto split: sum.splits)
    show ?thesis
    proof (cases "(c1(d := Black)) v = White")
      case True
      with 2(2) White c1 c' show ?thesis by blast
    next
      case False
      with c' have keep: "c' v = (c1(d := Black)) v" by (rule visit_keeps)
      show ?thesis
      proof (cases "v = d")
        case True
        with keep show ?thesis by simp
      next
        case neq: False
        with 2(1) [OF White c1] 2(5) keep show ?thesis by simp
      qed
    qed
  next
    case Gray
    with 2 show ?thesis by simp
  next
    case Black
    with 2 show ?thesis by simp
  qed
qed simp

text \<open>What the black nodes are: closed under prerequisites, and on no cycle.\<close>

definition settled :: "'a adj \<Rightarrow> ('a \<Rightarrow> color) \<Rightarrow> bool" where
  "settled adj c =
     (\<forall>v. c v = Black \<longrightarrow> (\<forall>d \<in> set (deps_of adj v). c d = Black) \<and> (v, v) \<notin> (edges adj)\<^sup>+)"

lemma settled_reach:
  assumes "settled adj c" and "c v = Black" and "(v, w) \<in> (edges adj)\<^sup>*"
  shows "c w = Black"
  using assms(3) by (induction rule: rtrancl_induct) (use assms(1,2) in \<open>auto simp: settled_def\<close>)

lemma settled_gray [simp]: "c d = White \<Longrightarrow> settled adj c \<Longrightarrow> settled adj (c(d := Gray))"
  by (auto simp: settled_def)

lemma settled_blacken:
  assumes s: "settled adj c" and ds: "\<forall>d \<in> set (deps_of adj v). c d = Black" and v: "c v \<noteq> Black"
  shows "settled adj (c(v := Black))"
proof -
  have "(v, v) \<notin> (edges adj)\<^sup>+"
  proof
    assume "(v, v) \<in> (edges adj)\<^sup>+"
    then obtain d where "(v, d) \<in> edges adj" "(d, v) \<in> (edges adj)\<^sup>*"
      by (meson tranclD)
    with ds settled_reach [OF s] v show False by auto
  qed
  with s ds show ?thesis by (auto simp: settled_def)
qed

lemma visit_settled:
  "visit adj cur ds c = Inr c' \<Longrightarrow> settled adj c \<Longrightarrow>
   settled adj c' \<and> (\<forall>d \<in> set ds. c' d = Black)"
proof (induction adj cur ds c arbitrary: c' rule: visit.induct)
  case (2 adj cur d ds c)
  show ?case
  proof (cases "c d")
    case White
    from 2(4) White obtain c1 where
      c1: "visit adj d (deps_of adj d) (c(d := Gray)) = Inr c1"
      and c': "visit adj cur ds (c1(d := Black)) = Inr c'"
      by (auto split: sum.splits)
    have "settled adj (c(d := Gray))" using White 2(5) by (rule settled_gray)
    from 2(1) [OF White c1 this]
    have s1: "settled adj c1" "\<forall>d' \<in> set (deps_of adj d). c1 d' = Black" by blast+
    have "c1 d = Gray" using visit_keeps [OF c1, of d] by simp
    with s1 have "settled adj (c1(d := Black))" by (simp add: settled_blacken)
    from 2(2) [OF White c1 c' this] have "settled adj c'" "\<forall>d \<in> set ds. c' d = Black" by blast+
    moreover have "c' d = Black" using visit_keeps [OF c', of d] by simp
    ultimately show ?thesis by simp
  next
    case Gray
    with 2 show ?thesis by simp
  next
    case Black
    with 2 have c': "visit adj cur ds c = Inr c'" by simp
    with Black have "c' d = Black" using visit_keeps [of adj cur ds c c' d] by simp
    with 2(3) [OF Black c' 2(5)] show ?thesis by simp
  qed
qed simp

text \<open>A reported cycle is one: every gray node has a path to the node being visited.\<close>

lemma visit_cycle:
  "visit adj cur ds c = Inl e \<Longrightarrow> set ds \<subseteq> set (deps_of adj cur) \<Longrightarrow>
   (\<And>g. c g = Gray \<Longrightarrow> (g, cur) \<in> (edges adj)\<^sup>*) \<Longrightarrow>
   \<exists>v. (v, v) \<in> (edges adj)\<^sup>+"
proof (induction adj cur ds c rule: visit.induct)
  case (2 adj cur d ds c)
  from 2(5) have d: "(cur, d) \<in> edges adj" by simp
  show ?case
  proof (cases "c d")
    case White
    show ?thesis
    proof (cases "visit adj d (deps_of adj d) (c(d := Gray))")
      case (Inl e')
      with 2(4) White have e: "visit adj d (deps_of adj d) (c(d := Gray)) = Inl e" by simp
      have "\<And>g. (c(d := Gray)) g = Gray \<Longrightarrow> (g, d) \<in> (edges adj)\<^sup>*"
        using 2(6) d by (metis fun_upd_apply rtrancl.rtrancl_refl rtrancl_into_rtrancl)
      from 2(1) [OF White e subset_refl this] show ?thesis .
    next
      case (Inr c1)
      have grays: "\<And>g. (c1(d := Black)) g = Gray \<Longrightarrow> (g, cur) \<in> (edges adj)\<^sup>*"
      proof -
        fix g assume "(c1(d := Black)) g = Gray"
        then have g: "g \<noteq> d" "c1 g = Gray" by (auto split: if_splits)
        then have "c g \<noteq> White" using visit_new_black [OF Inr, of g] by auto
        with g have "c g = Gray" using visit_keeps [OF Inr, of g] by simp
        then show "(g, cur) \<in> (edges adj)\<^sup>*" by (rule 2(6))
      qed
      from 2(4) White Inr have e: "visit adj cur ds (c1(d := Black)) = Inl e" by simp
      from 2(5) have "set ds \<subseteq> set (deps_of adj cur)" by simp
      from 2(2) [OF White Inr e this grays] show ?thesis .
    qed
  next
    case Gray
    with 2(6) d show ?thesis by (meson rtrancl_into_trancl1)
  next
    case Black
    with 2 show ?thesis by simp
  qed
qed simp

definition no_gray :: "('a \<Rightarrow> color) \<Rightarrow> bool" where
  "no_gray c = (\<forall>v. c v \<noteq> Gray)"

lemma visit_node_Inr:
  assumes "visit_node adj v c = Inr c'" and "settled adj c" and "no_gray c" and "c v = White"
  shows "settled adj c'" and "no_gray c'" and "c' v = Black"
    and "\<And>w. c w = Black \<Longrightarrow> c' w = Black"
proof -
  from assms(1) obtain c1 where c1: "visit adj v (deps_of adj v) (c(v := Gray)) = Inr c1"
    and c': "c' = c1(v := Black)" by (auto simp: visit_node_def split: sum.splits)
  from visit_settled [OF c1] assms(2,4)
  have s: "settled adj c1" "\<forall>d \<in> set (deps_of adj v). c1 d = Black" by auto
  have "c1 v = Gray" using visit_keeps [OF c1, of v] by simp
  with s c' show "settled adj c'" by (simp add: settled_blacken)
  show "c' v = Black" using c' by simp
  show "c' w = Black" if "c w = Black" for w
    using visit_keeps [OF c1, of w] that c' assms(4) by (auto split: if_splits)
  show "no_gray c'" unfolding no_gray_def
  proof (intro allI notI)
    fix w assume "c' w = Gray"
    with c' have w: "w \<noteq> v" "c1 w = Gray" by (auto split: if_splits)
    show False
    proof (cases "c w = White")
      case True
      with visit_new_black [OF c1, of w] w show False by auto
    next
      case False
      with visit_keeps [OF c1, of w] w have "c w = Gray" by simp
      with assms(3) show False by (simp add: no_gray_def)
    qed
  qed
qed

lemma search_all_Inr:
  "search_all adj vs c = Inr c' \<Longrightarrow> settled adj c \<Longrightarrow> no_gray c \<Longrightarrow>
   settled adj c' \<and> (\<forall>v \<in> set vs. c' v = Black) \<and> (\<forall>v. c v = Black \<longrightarrow> c' v = Black)"
proof (induction vs arbitrary: c)
  case (Cons v vs)
  show ?case
  proof (cases "c v = White")
    case True
    with Cons.prems(1) obtain c1 where c1: "visit_node adj v c = Inr c1"
      and c': "search_all adj vs c1 = Inr c'" by (auto split: sum.splits)
    note n = visit_node_Inr [OF c1 Cons.prems(2,3) True]
    from Cons.IH [OF c' n(1,2)] n(3,4) show ?thesis by auto
  next
    case False
    with Cons.prems(3) have "c v = Black" by (cases "c v") (auto simp: no_gray_def)
    moreover from False Cons.prems(1) have "search_all adj vs c = Inr c'" by simp
    ultimately show ?thesis using Cons.IH [OF _ Cons.prems(2,3)] by simp
  qed
qed simp

lemma search_all_Inl:
  "search_all adj vs c = Inl e \<Longrightarrow> settled adj c \<Longrightarrow> no_gray c \<Longrightarrow> \<exists>v. (v, v) \<in> (edges adj)\<^sup>+"
proof (induction vs arbitrary: c)
  case (Cons v vs)
  show ?case
  proof (cases "c v = White")
    case True
    show ?thesis
    proof (cases "visit_node adj v c")
      case (Inl e')
      then have "visit adj v (deps_of adj v) (c(v := Gray)) = Inl e'"
        by (auto simp: visit_node_def split: sum.splits)
      moreover have "\<And>g. (c(v := Gray)) g = Gray \<Longrightarrow> (g, v) \<in> (edges adj)\<^sup>*"
        using Cons.prems(3) by (auto simp: no_gray_def split: if_splits)
      ultimately show ?thesis by (blast intro: visit_cycle [OF _ subset_refl])
    next
      case (Inr c1)
      note n = visit_node_Inr [OF Inr Cons.prems(2,3) True]
      from Inr True Cons.prems(1) have "search_all adj vs c1 = Inl e" by simp
      with Cons.IH n(1,2) show ?thesis by blast
    qed
  next
    case False
    with Cons.prems(1) have "search_all adj vs c = Inl e" by simp
    then show ?thesis using Cons.prems(2,3) by (rule Cons.IH)
  qed
qed simp

lemma edges_converse:
  assumes "fst ` set adj \<subseteq> N"
  shows "edges adj = (dep_rel N (deps_of adj))\<inverse>"
proof -
  have "v \<in> N" if "d \<in> set (deps_of adj v)" for v d
    using that assms deps_of_notin [of v adj] by (cases "v \<in> fst ` set adj") auto
  then show ?thesis by (auto simp: dep_rel_def edges_def)
qed

lemma settled_white [simp]: "settled adj (\<lambda>_. White)" "no_gray (\<lambda>_. White)"
  by (simp_all add: settled_def no_gray_def)

theorem search_all_acyclic:
  assumes keys: "fst ` set adj = set vs"
  shows "is_err (search_all adj vs (\<lambda>_. White)) \<longleftrightarrow> \<not> acyclic_deps (set vs) (deps_of adj)"
proof -
  have conv: "acyclic_deps (set vs) (deps_of adj) \<longleftrightarrow> acyclic (edges adj)"
    using keys by (simp add: acyclic_deps_def edges_converse [of adj "set vs"])
  show ?thesis
  proof (cases "search_all adj vs (\<lambda>_. White)")
    case (Inl e)
    from search_all_Inl [OF this] have "\<not> acyclic (edges adj)" by (auto simp: acyclic_def)
    with Inl conv show ?thesis by simp
  next
    case (Inr c')
    from search_all_Inr [OF this]
    have c': "settled adj c'" "\<forall>v \<in> set vs. c' v = Black" by auto
    have "acyclic (edges adj)" unfolding acyclic_def
    proof (intro allI notI)
      fix v assume v: "(v, v) \<in> (edges adj)\<^sup>+"
      then obtain d where "(v, d) \<in> edges adj" by (meson tranclD)
      then have "v \<in> set vs" using keys deps_of_notin [of v adj] by auto
      with c' v show False by (auto simp: settled_def)
    qed
    with Inr conv show ?thesis by simp
  qed
qed

end
