(* ===== verification/Workflow_Graph.thy ===== *)
theory Workflow_Graph
  imports Workflow_Defs Graph_Search
begin

text \<open>
  The topological sort of \<^verbatim>\<open>workflow/graph.go\<close> (Kahn's algorithm) and the definition check of
  \<^verbatim>\<open>engine.go\<close> that calls it. The in-degree map is an association list; the range over it that
  fills the queue visits the keys in an order \<open>ord\<close> the runtime chooses.
\<close>

section \<open>The in-degrees and the dependents\<close>

type_synonym degrees = "(string \<times> int) list"

definition deg :: "degrees \<Rightarrow> string \<Rightarrow> int" where
  "deg m v = (case map_of m v of None \<Rightarrow> 0 | Some d \<Rightarrow> d)"

definition set_deg :: "string \<Rightarrow> int \<Rightarrow> degrees \<Rightarrow> degrees" where
  "set_deg v d m = AList.update v d m"

lemma deg_set_deg [simp]: "deg (set_deg v d m) w = (if w = v then d else deg m w)"
  by (simp add: deg_def set_deg_def update_conv)

lemma keys_set_deg [simp]: "fst ` set (set_deg v d m) = insert v (fst ` set m)"
  by (simp add: set_deg_def dom_update [unfolded dom_map_of_conv_image_fst])

text \<open>The two nested loops over the steps and their dependencies.\<close>

fun count_deps ::
  "string \<Rightarrow> string list \<Rightarrow> degrees \<times> (string \<Rightarrow> string list) \<Rightarrow> degrees \<times> (string \<Rightarrow> string list)"
where
  "count_deps s [] (inDeg, deps) = (inDeg, deps)"
| "count_deps s (d # ds) (inDeg, deps) =
     count_deps s ds (set_deg s (deg inDeg s + 1) inDeg, deps(d := deps d @ [s]))"

fun build_graph ::
  "step_definition list \<Rightarrow> degrees \<times> (string \<Rightarrow> string list) \<Rightarrow> degrees \<times> (string \<Rightarrow> string list)"
where
  "build_graph [] g = g"
| "build_graph (s # ss) (inDeg, deps) =
     build_graph ss
       (count_deps (step_id s) (depends_on s)
          (if step_id s \<in> fst ` set inDeg then inDeg else set_deg (step_id s) 0 inDeg, deps))"

text \<open>The inner loop over the dependents of the node just taken.\<close>

fun release :: "string list \<Rightarrow> degrees \<times> string list \<Rightarrow> degrees \<times> string list" where
  "release [] (inDeg, queue) = (inDeg, queue)"
| "release (child # cs) (inDeg, queue) =
     (let inDeg' = set_deg child (deg inDeg child - 1) inDeg
      in release cs (inDeg', if deg inDeg' child = 0 then queue @ [child] else queue))"

definition waiting :: "degrees \<Rightarrow> string set" where
  "waiting m = {v \<in> fst ` set m. 0 < deg m v}"

lemma finite_waiting [simp]: "finite (waiting m)"
  by (simp add: waiting_def)

lemma release_measure:
  "release cs (m, q) = (m', q') \<Longrightarrow> card (waiting m') + length q' \<le> card (waiting m) + length q"
proof (induction cs arbitrary: m q)
  case Nil
  then show ?case by simp
next
  case (Cons c cs)
  let ?m = "set_deg c (deg m c - 1) m"
  let ?q = "if deg ?m c = 0 then q @ [c] else q"
  from Cons.prems have "release cs (?m, ?q) = (m', q')" by (simp add: Let_def)
  then have "card (waiting m') + length q' \<le> card (waiting ?m) + length ?q" by (rule Cons.IH)
  also have "\<dots> \<le> card (waiting m) + length q"
  proof (cases "deg m c = 1")
    case True
    then have "c \<in> fst ` set m"
      by (auto simp: deg_def split: option.splits dest!: map_of_SomeD intro: rev_image_eqI)
    with True have "waiting ?m = waiting m - {c}" "c \<in> waiting m" by (auto simp: waiting_def)
    moreover from this have "0 < card (waiting m)" by (auto simp: card_gt_0_iff)
    ultimately show ?thesis using True by simp
  next
    case False
    have "waiting ?m \<subseteq> waiting m"
      by (auto simp: waiting_def split: if_splits)
         (auto simp: deg_def split: option.splits dest!: map_of_SomeD intro: rev_image_eqI)
    with False show ?thesis by (simp add: card_mono)
  qed
  finally show ?case .
qed

text \<open>The outer loop. Every round takes a node, so waiting nodes and queue shrink together.\<close>

function topo_loop ::
  "(string \<Rightarrow> string list) \<Rightarrow> degrees \<Rightarrow> string list \<Rightarrow> string list \<Rightarrow> string list"
where
  "topo_loop deps inDeg [] order = order"
| "topo_loop deps inDeg (cur # queue) order =
     (let (inDeg', queue') = release (deps cur) (inDeg, queue)
      in topo_loop deps inDeg' queue' (order @ [cur]))"
  by pat_completeness auto
termination
proof (relation "measure (\<lambda>(deps, m, q, order). card (waiting m) + length q)", goal_cases)
  case 1
  then show ?case by simp
next
  case (2 deps m cur q order x m' q')
  then have "release (deps cur) (m, q) = (m', q')" by simp
  from release_measure [OF this] show ?case by simp
qed

declare topo_loop.simps [simp del]

definition ValidateDAG :: "(string list \<Rightarrow> string list) \<Rightarrow> wf_definition \<Rightarrow> string list option" where
  "ValidateDAG ord def =
     (let (inDeg, deps) = build_graph (wf_steps def) ([], \<lambda>_. []);
          keys = remdups (map fst inDeg);
          queue = filter (\<lambda>v. deg inDeg v = 0) (ord keys);
          order = topo_loop deps inDeg queue []
      in if length order \<noteq> length keys then None else Some order)"

section \<open>What the graph built holds\<close>

definition all_deps :: "step_definition list \<Rightarrow> string \<Rightarrow> string list" where
  "all_deps ss v = concat (map depends_on (filter (\<lambda>s. step_id s = v) ss))"

lemma count_deps_deg:
  "count_deps s ds (m, g) = (m', g') \<Longrightarrow>
   deg m' v = deg m v + (if v = s then int (length ds) else 0) \<and>
   g' d = g d @ replicate (count_list ds d) s \<and>
   (s \<in> fst ` set m \<longrightarrow> fst ` set m' = fst ` set m)"
  by (induction ds arbitrary: m g)
     (auto simp: replicate_app_Cons_same split: if_splits)

lemma build_graph_spec:
  "build_graph ss (m, g) = (m', g') \<Longrightarrow> (\<forall>v. v \<notin> fst ` set m \<longrightarrow> deg m v = 0) \<Longrightarrow>
   fst ` set m' = fst ` set m \<union> step_id ` set ss \<and>
   deg m' v = deg m v + int (length (all_deps ss v)) \<and>
   count_list (g' d) v = count_list (g d) v + count_list (all_deps ss v) d"
proof (induction ss arbitrary: m g)
  case Nil
  then show ?case by (auto simp: all_deps_def)
next
  case (Cons s ss)
  let ?m0 = "if step_id s \<in> fst ` set m then m else set_deg (step_id s) 0 m"
  obtain m1 g1 where c: "count_deps (step_id s) (depends_on s) (?m0, g) = (m1, g1)"
    by fastforce
  with Cons.prems(1) have b: "build_graph ss (m1, g1) = (m', g')" by simp
  have k: "fst ` set m1 = insert (step_id s) (fst ` set m)"
    using count_deps_deg [OF c] by (auto split: if_splits)
  have d: "deg m1 w = deg m w + (if w = step_id s then int (length (depends_on s)) else 0)" for w
    using count_deps_deg [OF c, of w] Cons.prems(2) by (auto split: if_splits)
  have g: "g1 d = g d @ replicate (count_list (depends_on s) d) (step_id s)" for d
    using count_deps_deg [OF c] by auto
  have z: "\<forall>v. v \<notin> fst ` set m1 \<longrightarrow> deg m1 v = 0" using k d Cons.prems(2) by auto
  have rep: "count_list (replicate n x) y = (if x = y then n else 0)" for n and x y :: string
    by (induction n) auto
  show ?case using Cons.IH [OF b z] k d g by (auto simp: all_deps_def rep)
qed

section \<open>Correctness of the sort\<close>

lemma release_spec:
  "release cs (m, q) = (m', q') \<Longrightarrow> (\<forall>v. int (count_list cs v) \<le> deg m v) \<Longrightarrow>
   (\<forall>v. deg m' v = deg m v - int (count_list cs v)) \<and>
   (\<exists>new. q' = q @ new \<and> distinct new \<and>
      set new = {v. v \<in> set cs \<and> deg m v = int (count_list cs v)})"
proof (induction cs arbitrary: m q)
  case Nil
  then show ?case by auto
next
  case (Cons c cs)
  let ?m = "set_deg c (deg m c - 1) m"
  let ?q = "if deg ?m c = 0 then q @ [c] else q"
  from Cons.prems(1) have r: "release cs (?m, ?q) = (m', q')" by (simp add: Let_def)
  have le: "\<forall>v. int (count_list cs v) \<le> deg ?m v"
    using Cons.prems(2) by (auto split: if_splits)
  from Cons.IH [OF r le] obtain new where
    m': "\<forall>v. deg m' v = deg ?m v - int (count_list cs v)" and
    q': "q' = ?q @ new" "distinct new"
      "set new = {v. v \<in> set cs \<and> deg ?m v = int (count_list cs v)}" by blast
  have m'': "\<forall>v. deg m' v = deg m v - int (count_list (c # cs) v)" using m' by auto
  have cnt0: "count_list cs c = 0 \<longleftrightarrow> c \<notin> set cs" by (simp add: count_list_0_iff)
  show ?case
  proof (cases "deg m c = 1")
    case True
    then have "int (count_list cs c) \<le> 0" using le by (metis deg_set_deg diff_self)
    then have nin: "c \<notin> set cs" using cnt0 by simp
    have q: "q' = q @ (c # new)" using q'(1) True by simp
    have "v \<in> set (c # new) \<longleftrightarrow> v \<in> set (c # cs) \<and> deg m v = int (count_list (c # cs) v)" for v
      using q'(3) True nin cnt0 by (cases "v = c") auto
    then have "set (c # new) = {v. v \<in> set (c # cs) \<and> deg m v = int (count_list (c # cs) v)}"
      by blast
    moreover have "distinct (c # new)" using q'(2,3) nin by auto
    ultimately show ?thesis using q m'' by blast
  next
    case False
    have nin: "c \<notin> set cs \<Longrightarrow> deg m c \<noteq> int (count_list (c # cs) c)"
      using False cnt0 by simp
    have q: "q' = q @ new" using q'(1) False by simp
    have "v \<in> set new \<longleftrightarrow> v \<in> set (c # cs) \<and> deg m v = int (count_list (c # cs) v)" for v
    proof (cases "v = c")
      case True
      have "deg ?m c = deg m c - 1" by simp
      moreover have "int (count_list (c # cs) c) = int (count_list cs c) + 1" by simp
      ultimately show ?thesis using nin q'(3) True cnt0 by fastforce
    qed (use q'(3) in auto)
    then have "set new = {v. v \<in> set (c # cs) \<and> deg m v = int (count_list (c # cs) v)}"
      by blast
    with q q'(2) m'' show ?thesis by blast
  qed
qed

text \<open>
  The loop invariant, for the nodes \<open>N\<close> with prerequisite lists \<open>pre\<close> and dependents \<open>deps\<close>: the
  degree of a node counts its prerequisites that are not ordered yet, and exactly the nodes whose
  degree is zero are ordered or queued.
\<close>

definition topo_inv ::
  "string set \<Rightarrow> (string \<Rightarrow> string list) \<Rightarrow> degrees \<Rightarrow> string list \<Rightarrow> string list \<Rightarrow> bool" where
  "topo_inv N pre m q order \<longleftrightarrow>
     distinct (order @ q) \<and> set (order @ q) \<subseteq> N \<and>
     (\<forall>v. deg m v = int (length (filter (\<lambda>d. d \<notin> set order) (pre v)))) \<and>
     (\<forall>v \<in> N. v \<in> set (order @ q) \<longleftrightarrow> deg m v = 0) \<and>
     topological pre [] (order @ q)"

lemma filter_count:
  "x \<notin> A \<Longrightarrow> length (filter (\<lambda>d. d \<notin> insert x A) xs) + count_list xs x =
   length (filter (\<lambda>d. d \<notin> A) xs)"
  by (induction xs) auto

lemma topo_inv_step:
  assumes inv: "topo_inv N pre m (cur # q) order"
    and deps: "\<And>v. count_list (deps cur) v = count_list (pre v) cur"
    and outside: "\<And>v. v \<notin> N \<Longrightarrow> pre v = []"
    and r: "release (deps cur) (m, q) = (m', q')"
  shows "topo_inv N pre m' q' (order @ [cur])"
proof -
  have cur: "cur \<notin> set order" using inv by (auto simp: topo_inv_def)
  have split: "length (filter (\<lambda>d. d \<notin> set (order @ [cur])) (pre v)) + count_list (deps cur) v =
      length (filter (\<lambda>d. d \<notin> set order) (pre v))" for v
    using filter_count [OF cur, of "pre v"] deps by (simp add: insert_commute)
  have degm: "deg m v = int (length (filter (\<lambda>d. d \<notin> set order) (pre v)))" for v
    using inv by (simp add: topo_inv_def)
  have le: "\<forall>v. int (count_list (deps cur) v) \<le> deg m v"
    using split degm by (metis le_add2 of_nat_mono)
  from release_spec [OF r le] obtain new where
    m': "\<And>v. deg m' v = deg m v - int (count_list (deps cur) v)" and
    q': "q' = q @ new" "distinct new"
      "set new = {v. v \<in> set (deps cur) \<and> deg m v = int (count_list (deps cur) v)}"
    by blast
  have degm': "deg m' v = int (length (filter (\<lambda>d. d \<notin> set (order @ [cur])) (pre v)))" for v
    using m' [of v] degm [of v] split [of v] by linarith
  have in_deps: "v \<in> set (deps cur) \<longleftrightarrow> count_list (deps cur) v \<noteq> 0" for v
    by (simp add: count_list_0_iff)
  have new_N: "set new \<subseteq> N"
    using q'(3) in_deps deps outside by (metis (no_types, lifting) count_list.simps(1)
      mem_Collect_eq subsetI)
  have new_fresh: "set new \<inter> set (order @ cur # q) = {}"
  proof -
    have "deg m v = 0" if "v \<in> set (order @ cur # q)" for v
      using inv that by (auto simp: topo_inv_def)
    then show ?thesis using q'(3) in_deps by fastforce
  qed
  have zero: "v \<in> set (order @ [cur] @ q') \<longleftrightarrow> deg m' v = 0" if "v \<in> N" for v
  proof (cases "v \<in> set (order @ cur # q)")
    case True
    then have "deg m v = 0" using inv that by (auto simp: topo_inv_def)
    then have "deg m' v = 0" using m' [of v] degm' [of v] by simp
    with True show ?thesis using q'(1) by auto
  next
    case False
    have "\<forall>v \<in> N. v \<in> set (order @ cur # q) \<longleftrightarrow> deg m v = 0"
      using inv unfolding topo_inv_def by blast
    with that False have pos: "deg m v \<noteq> 0" by blast
    have "v \<in> set (order @ [cur] @ q') \<longleftrightarrow> v \<in> set new" using False q'(1) by auto
    also have "\<dots> \<longleftrightarrow> v \<in> set (deps cur) \<and> deg m v = int (count_list (deps cur) v)"
      using q'(3) by blast
    also have "\<dots> \<longleftrightarrow> deg m' v = 0" using m' [of v] in_deps [of v] pos by linarith
    finally show ?thesis .
  qed
  have "topological pre [] ((order @ cur # q) @ new)"
  proof -
    have "set (pre v) \<subseteq> set (order @ cur # q)" if "v \<in> set new" for v
    proof -
      have "deg m' v = 0" using that q'(3) m' by simp
      with degm' have "filter (\<lambda>d. d \<notin> set (order @ [cur])) (pre v) = []" by simp
      then show ?thesis by (auto simp: filter_empty_conv)
    qed
    then have "topological pre (order @ cur # q) new" by (blast intro: topological_flat)
    with inv show ?thesis by (simp add: topo_inv_def topological_append)
  qed
  then have topo: "topological pre [] ((order @ [cur]) @ q')" using q'(1) by simp
  have dist: "distinct ((order @ [cur]) @ q')"
  proof -
    have "distinct (order @ cur # q)" using inv by (simp add: topo_inv_def)
    with new_fresh q'(1,2) show ?thesis by auto
  qed
  have "set ((order @ [cur]) @ q') \<subseteq> N" using inv new_N q'(1) by (auto simp: topo_inv_def)
  with dist topo degm' zero show ?thesis by (simp add: topo_inv_def)
qed

lemma topo_loop_inv:
  assumes "topo_inv N pre m q order"
    and "\<And>u v. count_list (deps u) v = count_list (pre v) u" and "\<And>v. v \<notin> N \<Longrightarrow> pre v = []"
  shows "\<exists>m'. topo_inv N pre m' [] (topo_loop deps m q order)"
  using assms
proof (induction deps m q order rule: topo_loop.induct)
  case (1 deps m order)
  then show ?case by (auto simp: topo_loop.simps)
next
  case (2 deps m cur q order)
  obtain m' q' where r: "release (deps cur) (m, q) = (m', q')" by fastforce
  have "topo_inv N pre m' q' (order @ [cur])"
    using topo_inv_step [where deps = deps and m = m and q = q and m' = m' and q' = q', OF 2(2)]
      2(3,4) r by blast
  with 2(1) [OF r [symmetric] refl] 2(3,4) r show ?case by (simp add: topo_loop.simps)
qed

lemma ValidateDAG_loop:
  assumes "permuting ord"
  shows "\<exists>order m. topo_inv (set (step_ids def)) (all_deps (wf_steps def)) m [] order \<and>
    ValidateDAG ord def =
      (if length order = card (set (step_ids def)) then Some order else None)"
proof -
  let ?N = "set (step_ids def)" and ?pre = "all_deps (wf_steps def)"
  obtain m g where b: "build_graph (wf_steps def) ([], \<lambda>_. []) = (m, g)" by fastforce
  have spec: "fst ` set m = {} \<union> step_id ` set (wf_steps def) \<and>
      deg m v = deg [] v + int (length (?pre v)) \<and>
      count_list (g u) v = count_list [] v + count_list (?pre v) u" for u v
    using build_graph_spec [OF b, of v u] by (simp add: deg_def)
  have keys: "fst ` set m = ?N" using spec by auto
  have degs: "deg m v = int (length (?pre v))" for v using spec by (simp add: deg_def)
  have counts: "count_list (g u) v = count_list (?pre v) u" for u v using spec by (simp add: deg_def)
  have outside: "?pre v = []" if "v \<notin> ?N" for v using that by (auto simp: all_deps_def)
  let ?keys = "remdups (map fst m)"
  let ?q = "filter (\<lambda>v. deg m v = 0) (ord ?keys)"
  have ks: "set (ord ?keys) = ?N" "distinct (ord ?keys)" using assms keys by simp_all
  have "topo_inv ?N ?pre m ?q []"
    unfolding topo_inv_def
  proof (intro conjI)
    have "topological ?pre [] xs" if "\<forall>v \<in> set xs. ?pre v = []" for xs
      using that by (induction xs rule: rev_induct) (auto simp: topological_snoc)
    then show "topological ?pre [] ([] @ ?q)" using degs by simp
  qed (use ks degs in auto)
  from topo_loop_inv [OF this counts outside] obtain m' where
    "topo_inv ?N ?pre m' [] (topo_loop g m ?q [])" by blast
  moreover have "length ?keys = card ?N"
    using keys by (metis distinct_card distinct_remdups set_map set_remdups)
  ultimately show ?thesis
    using b by (intro exI [of _ "topo_loop g m ?q []"] exI [of _ m'])
      (auto simp: ValidateDAG_def Let_def)
qed

theorem ValidateDAG_topological:
  assumes "permuting ord" and "ValidateDAG ord def = Some order"
  shows "set order = set (step_ids def)" and "distinct order"
    and "topological (all_deps (wf_steps def)) [] order"
proof -
  from ValidateDAG_loop [OF assms(1), of def] assms(2) obtain m where
    inv: "topo_inv (set (step_ids def)) (all_deps (wf_steps def)) m [] order" and
    len: "length order = card (set (step_ids def))"
    by (metis option.distinct(1) option.inject)
  from inv show "distinct order" "topological (all_deps (wf_steps def)) [] order"
    by (simp_all add: topo_inv_def)
  with inv len show "set order = set (step_ids def)"
    by (metis List.finite_set append_Nil2 card_subset_eq distinct_card topo_inv_def)
qed

definition known_deps :: "wf_definition \<Rightarrow> bool" where
  "known_deps def =
     (\<forall>s \<in> set (wf_steps def). \<forall>d \<in> set (depends_on s). d \<in> set (step_ids def))"

lemma all_deps_known:
  "known_deps def \<Longrightarrow> set (all_deps (wf_steps def) v) \<subseteq> set (step_ids def)"
  by (auto simp: known_deps_def all_deps_def)

text \<open>The sort is a cycle check: it accepts exactly the acyclic definitions, whatever the order.\<close>

theorem ValidateDAG_iff:
  assumes ord: "permuting ord" and known: "known_deps def"
  shows "ValidateDAG ord def \<noteq> None \<longleftrightarrow>
    acyclic_deps (set (step_ids def)) (all_deps (wf_steps def))"
proof
  assume "ValidateDAG ord def \<noteq> None"
  then obtain order where "ValidateDAG ord def = Some order" by auto
  from ValidateDAG_topological [OF ord this]
  show "acyclic_deps (set (step_ids def)) (all_deps (wf_steps def))"
    by (auto intro: topological_acyclic)
next
  let ?N = "set (step_ids def)" and ?pre = "all_deps (wf_steps def)"
  assume acyc: "acyclic_deps ?N ?pre"
  obtain order m where inv: "topo_inv ?N ?pre m [] order" and
    res: "ValidateDAG ord def = (if length order = card ?N then Some order else None)"
    using ValidateDAG_loop [OF ord] by blast
  have sub: "set order \<subseteq> ?N" using inv by (simp add: topo_inv_def)
  have stuck: "set (?pre v) \<inter> (?N - set order) \<noteq> {}" if v: "v \<in> ?N - set order" for v
  proof -
    from inv v have "deg m v \<noteq> 0" by (auto simp: topo_inv_def)
    with inv have "filter (\<lambda>d. d \<notin> set order) (?pre v) \<noteq> []" by (auto simp: topo_inv_def)
    then obtain d where "d \<in> set (?pre v)" "d \<notin> set order" by (auto simp: filter_empty_conv)
    with all_deps_known [OF known] show ?thesis by blast
  qed
  have "dep_graph ?N ?pre" by unfold_locales (use all_deps_known [OF known] in auto)
  from dep_graph.ready_node [OF this acyc, of "?N - set order"] stuck
  have "?N - set order = {}" by blast
  with sub have "set order = ?N" by blast
  moreover have "distinct order" using inv by (simp add: topo_inv_def)
  ultimately have "length order = card ?N" by (metis distinct_card)
  with res show "ValidateDAG ord def \<noteq> None" by simp
qed

text \<open>The order of the range over the in-degree map does not decide acceptance.\<close>

lemma ValidateDAG_order_irrelevant:
  assumes "permuting ord" and "permuting ord'" and "known_deps def"
  shows "ValidateDAG ord def = None \<longleftrightarrow> ValidateDAG ord' def = None"
  using ValidateDAG_iff [of ord def] ValidateDAG_iff [of ord' def] assms by blast

lemma known_deps_iff:
  "known_deps def \<longleftrightarrow>
     (\<forall>v \<in> set (step_ids def). set (all_deps (wf_steps def) v) \<subseteq> set (step_ids def))"
  by (fastforce simp: known_deps_def all_deps_def)

interpretation kahn: cycle_checker
  "\<lambda>def. set (step_ids def)" "\<lambda>def. all_deps (wf_steps def)"
  "\<lambda>def. ValidateDAG (\<lambda>keys. keys) def \<noteq> None"
proof unfold_locales
  fix def :: wf_definition
  show "finite (set (step_ids def))" by simp
  show "acyclic_deps (set (step_ids def)) (all_deps (wf_steps def))"
    if "ValidateDAG (\<lambda>keys. keys) def \<noteq> None"
  proof -
    from that obtain order where o: "ValidateDAG (\<lambda>keys. keys) def = Some order" by auto
    note t = ValidateDAG_topological [OF permuting_id(1) o]
    show ?thesis by (rule topological_acyclic [OF t(3,2)]) (simp add: t(1))
  qed
  show "ValidateDAG (\<lambda>keys. keys) def \<noteq> None"
    if "\<And>v. v \<in> set (step_ids def) \<Longrightarrow> set (all_deps (wf_steps def) v) \<subseteq> set (step_ids def)"
      and "acyclic_deps (set (step_ids def)) (all_deps (wf_steps def))"
  proof -
    from that(1) have "known_deps def" by (simp add: known_deps_iff)
    from ValidateDAG_iff [OF permuting_id(1) this] that(2) show ?thesis by blast
  qed
qed

end
