(* ===== verification/Workflow_Engine.thy ===== *)
theory Workflow_Engine
  imports Workflow_Graph
begin

text \<open>
  The engine of \<^verbatim>\<open>workflow/engine.go\<close>: \<^verbatim>\<open>validateDefinition\<close>, \<^verbatim>\<open>readySteps\<close>, \<^verbatim>\<open>emit\<close> and the run loop
  of \<^verbatim>\<open>runInternal\<close>.

  A round of the loop starts the ready steps, waits for all of them and then reads their results
  from a channel. While a round runs nothing writes the shared output map, so every runner of the
  round sees the outputs as they were when the round began. The order in which the results arrive
  on the channel of round \<open>n\<close> is \<open>arrive n\<close>, a choice of the scheduler. The event callback may keep
  state of its own: it is a function of the events emitted before.
\<close>

section \<open>State\<close>

type_synonym event_handler = "wf_event list \<Rightarrow> wf_event \<Rightarrow> step_error option"

record engine =
  max_parallel :: int
  on_event :: "event_handler option"
  completed_steps :: step_outputs

datatype def_error =
    StepIdRequired
  | DuplicateStep string
  | UnknownDependency string string
  | CycleDetected

datatype engine_err =
    DefinitionError def_error
  | EmitError step_error
  | StepError step_error
  | Incomplete

text \<open>
  The result under construction, the engine's checkpoint map, the events emitted so far, and (for
  the specifications only) the steps started, each with the outputs it was given.
\<close>

record run_state =
  rs_status :: "string \<Rightarrow> step_status option"
  rs_outputs :: step_outputs
  rs_paused :: bool
  rs_completed :: step_outputs
  rs_events :: "wf_event list"
  rs_started :: "(string \<times> step_outputs) list"

type_synonym arrival = "nat \<Rightarrow> (string \<times> (step_error + gomap)) list \<Rightarrow> (string \<times> (step_error + gomap)) list"

section \<open>The definition check\<close>

fun check_ids :: "step_definition list \<Rightarrow> string list \<Rightarrow> def_error option" where
  "check_ids [] seen = None"
| "check_ids (s # ss) seen =
     (if step_id s = '''' then Some StepIdRequired
      else if step_id s \<in> set seen then Some (DuplicateStep (step_id s))
      else check_ids ss (step_id s # seen))"

fun check_deps :: "string \<Rightarrow> string list \<Rightarrow> string set \<Rightarrow> def_error option" where
  "check_deps s [] seen = None"
| "check_deps s (d # ds) seen =
     (if d \<notin> seen then Some (UnknownDependency s d) else check_deps s ds seen)"

fun check_all_deps :: "step_definition list \<Rightarrow> string set \<Rightarrow> def_error option" where
  "check_all_deps [] seen = None"
| "check_all_deps (s # ss) seen =
     (case check_deps (step_id s) (depends_on s) seen of
        Some e \<Rightarrow> Some e
      | None \<Rightarrow> check_all_deps ss seen)"

definition validateDefinition ::
  "(string list \<Rightarrow> string list) \<Rightarrow> wf_definition \<Rightarrow> def_error option" where
  "validateDefinition ord def =
     (case check_ids (wf_steps def) [] of
        Some e \<Rightarrow> Some e
      | None \<Rightarrow>
          (case check_all_deps (wf_steps def) (set (step_ids def)) of
             Some e \<Rightarrow> Some e
           | None \<Rightarrow>
               (case ValidateDAG ord def of None \<Rightarrow> Some CycleDetected | Some _ \<Rightarrow> None)))"

section \<open>Rounds\<close>

definition satisfied :: "step_status option \<Rightarrow> bool" where
  "satisfied st = (st = Some Success \<or> st = Some Skipped)"

definition is_ready :: "(string \<Rightarrow> step_status option) \<Rightarrow> step_definition \<Rightarrow> bool" where
  "is_ready status s =
     (status (step_id s) = Some Pending \<and> list_all (\<lambda>d. satisfied (status d)) (depends_on s))"

definition readySteps ::
  "step_definition list \<Rightarrow> (string \<Rightarrow> step_status option) \<Rightarrow> step_definition list" where
  "readySteps steps status = filter (is_ready status) steps"

definition emit :: "engine \<Rightarrow> wf_event \<Rightarrow> run_state \<Rightarrow> run_state \<times> step_error option" where
  "emit e ev st =
     (st\<lparr>rs_events := rs_events st @ [ev]\<rparr>,
      case on_event e of None \<Rightarrow> None | Some f \<Rightarrow> f (rs_events st) ev)"

definition running_event :: "string \<Rightarrow> wf_event" where
  "running_event s = \<lparr>ev_step = s, ev_status = Running, ev_output = None, ev_error = None\<rparr>"

definition success_event :: "string \<Rightarrow> gomap \<Rightarrow> wf_event" where
  "success_event s out = \<lparr>ev_step = s, ev_status = Success, ev_output = Some out, ev_error = None\<rparr>"

definition failure_event :: "string \<Rightarrow> step_status \<Rightarrow> step_error \<Rightarrow> wf_event" where
  "failure_event s st err = \<lparr>ev_step = s, ev_status = st, ev_output = None, ev_error = Some err\<rparr>"

definition mark_running :: "string \<Rightarrow> run_state \<Rightarrow> run_state" where
  "mark_running s st = st\<lparr>rs_status := (rs_status st)(s \<mapsto> Running)\<rparr>"

definition spawn :: "string \<Rightarrow> run_state \<Rightarrow> run_state" where
  "spawn s st = st\<lparr>rs_started := rs_started st @ [(s, rs_outputs st)]\<rparr>"

text \<open>Starting the steps of a round; the running event of the paused step is not emitted again.\<close>

definition start_one ::
  "engine \<Rightarrow> string \<Rightarrow> string \<Rightarrow> run_state \<Rightarrow> run_state \<times> engine_err option" where
  "start_one e paused s st =
     (if s \<noteq> paused then
        (case emit e (running_event s) (mark_running s st) of
           (st', Some err) \<Rightarrow> (st', Some (EmitError err))
         | (st', None) \<Rightarrow> (spawn s st', None))
      else (spawn s (mark_running s st), None))"

fun start_round ::
  "engine \<Rightarrow> string \<Rightarrow> string list \<Rightarrow> run_state \<Rightarrow> run_state \<times> engine_err option" where
  "start_round e paused [] st = (st, None)"
| "start_round e paused (s # ss) st =
     (case start_one e paused s st of
        (st', Some err) \<Rightarrow> (st', Some err)
      | (st', None) \<Rightarrow> start_round e paused ss st')"

definition failure_status :: "step_error \<Rightarrow> step_status" where
  "failure_status err =
     (if is_paused err then Paused else if is_waiting err then WaitingApproval else Failed)"

definition record_failure :: "string \<Rightarrow> step_error \<Rightarrow> run_state \<Rightarrow> run_state" where
  "record_failure s err st =
     st\<lparr>rs_status := (rs_status st)(s \<mapsto> failure_status err),
        rs_paused := rs_paused st \<or> is_paused err \<or> is_waiting err\<rparr>"

definition record_success :: "string \<Rightarrow> gomap \<Rightarrow> run_state \<Rightarrow> run_state" where
  "record_success s out st =
     st\<lparr>rs_outputs := (rs_outputs st)(s \<mapsto> out),
        rs_status := (rs_status st)(s \<mapsto> Success),
        rs_completed := (rs_completed st)(s \<mapsto> out)\<rparr>"

text \<open>Reading the results of a round; the last failure read is the one returned.\<close>

fun collect ::
  "engine \<Rightarrow> (string \<times> (step_error + gomap)) list \<Rightarrow> run_state \<Rightarrow> step_error option \<Rightarrow>
   run_state \<times> engine_err option"
where
  "collect e [] st failed = (st, map_option StepError failed)"
| "collect e ((s, Inl err) # items) st failed =
     collect e items
       (fst (emit e (failure_event s (failure_status err) err) (record_failure s err st)))
       (Some err)"
| "collect e ((s, Inr out) # items) st failed =
     (case emit e (success_event s out) (record_success s out st) of
        (st', Some err) \<Rightarrow> (st', Some (EmitError err))
      | (st', None) \<Rightarrow> collect e items st' failed)"

definition round_limit :: "engine \<Rightarrow> nat" where
  "round_limit e = (if max_parallel e \<le> 0 then 4 else nat (max_parallel e))"

definition run_round ::
  "engine \<Rightarrow> wf_definition \<Rightarrow> gomap \<Rightarrow> string \<Rightarrow> arrival \<Rightarrow> nat \<Rightarrow> step_definition list \<Rightarrow> run_state \<Rightarrow>
   run_state \<times> engine_err option"
where
  "run_round e def initial paused arrive n ready st =
     (case start_round e paused (map step_id ready) st of
        (st1, Some err) \<Rightarrow> (st1, Some err)
      | (st1, None) \<Rightarrow>
          collect e
            (arrive n (map (\<lambda>s. (step_id s, runStep (wf_name def) s initial (rs_outputs st))) ready))
            st1 None)"

definition finish :: "wf_definition \<Rightarrow> run_state \<Rightarrow> run_state \<times> engine_err option" where
  "finish def st =
     (st, if list_all (\<lambda>s. satisfied (rs_status st s)) (step_ids def) then None else Some Incomplete)"

definition pending_steps :: "wf_definition \<Rightarrow> run_state \<Rightarrow> step_definition list" where
  "pending_steps def st = filter (\<lambda>s. rs_status st (step_id s) = Some Pending) (wf_steps def)"

subsection \<open>What a round does to the statuses\<close>

lemma emit_simps [simp]:
  "rs_status (fst (emit e ev st)) = rs_status st"
  "rs_outputs (fst (emit e ev st)) = rs_outputs st"
  "rs_paused (fst (emit e ev st)) = rs_paused st"
  "rs_completed (fst (emit e ev st)) = rs_completed st"
  "rs_started (fst (emit e ev st)) = rs_started st"
  by (simp_all add: emit_def)

lemma emit_pair:
  "emit e ev st = (st', r) \<Longrightarrow>
   rs_status st' = rs_status st \<and> rs_outputs st' = rs_outputs st \<and> rs_paused st' = rs_paused st \<and>
   rs_completed st' = rs_completed st \<and> rs_started st' = rs_started st"
  by (auto simp: emit_def)

lemma mark_running_simps [simp]:
  "rs_status (mark_running s st) = (rs_status st)(s \<mapsto> Running)"
  "rs_outputs (mark_running s st) = rs_outputs st"
  "rs_started (mark_running s st) = rs_started st"
  by (simp_all add: mark_running_def)

lemma spawn_simps [simp]:
  "rs_status (spawn s st) = rs_status st"
  "rs_outputs (spawn s st) = rs_outputs st"
  "rs_started (spawn s st) = rs_started st @ [(s, rs_outputs st)]"
  by (simp_all add: spawn_def)

lemma start_one_spec:
  assumes "start_one e paused s st = (st', r)"
  shows "rs_status st' = (rs_status st)(s \<mapsto> Running)" and "rs_outputs st' = rs_outputs st"
    and "rs_started st' = rs_started st @ (if r = None then [(s, rs_outputs st)] else [])"
    and "r = None \<or> (\<exists>err. r = Some (EmitError err))"
  using assms by (auto simp: start_one_def emit_def split: if_splits option.splits)

lemma start_round_status:
  "start_round e paused ss st = (st', r) \<Longrightarrow>
   rs_outputs st' = rs_outputs st \<and>
   (\<forall>x. rs_status st' x = rs_status st x \<or> x \<in> set ss \<and> rs_status st' x = Some Running) \<and>
   (r = None \<longrightarrow> (\<forall>x \<in> set ss. rs_status st' x = Some Running))"
proof (induction ss arbitrary: st)
  case Nil
  then show ?case by simp
next
  case (Cons s ss)
  obtain st1 r1 where one: "start_one e paused s st = (st1, r1)" by fastforce
  note o = start_one_spec [OF one]
  show ?case
  proof (cases r1)
    case None
    with one Cons.prems have "start_round e paused ss st1 = (st', r)" by simp
    from Cons.IH [OF this] o(1,2) show ?thesis by (auto split: if_splits)
  next
    case (Some err)
    with one Cons.prems o(1,2) show ?thesis by auto
  qed
qed

lemma start_round_started:
  "start_round e paused ss st = (st', r) \<Longrightarrow>
   \<exists>begun. prefix begun ss \<and> (r = None \<longrightarrow> begun = ss) \<and>
     rs_started st' = rs_started st @ map (\<lambda>s. (s, rs_outputs st)) begun \<and>
     (\<forall>x \<in> set begun. rs_status st' x = Some Running)"
proof (induction ss arbitrary: st)
  case Nil
  then show ?case by simp
next
  case (Cons s ss)
  obtain st1 r1 where one: "start_one e paused s st = (st1, r1)" by fastforce
  note o = start_one_spec [OF one]
  show ?case
  proof (cases r1)
    case None
    with one Cons.prems have rest: "start_round e paused ss st1 = (st', r)" by simp
    from Cons.IH [OF this] obtain begun where b: "prefix begun ss" "r = None \<longrightarrow> begun = ss"
      "rs_started st' = rs_started st1 @ map (\<lambda>s. (s, rs_outputs st1)) begun"
      "\<forall>x \<in> set begun. rs_status st' x = Some Running" by blast
    have "rs_status st' s = Some Running"
      using start_round_status [OF rest] o(1) by (metis fun_upd_same)
    with b o None show ?thesis by (intro exI [of _ "s # begun"]) auto
  next
    case (Some err)
    with one Cons.prems o show ?thesis by (intro exI [of _ "[]"]) auto
  qed
qed

text \<open>Reading one result.\<close>

definition settled_status :: "step_status option \<Rightarrow> bool" where
  "settled_status st = (st \<in> {Some Success, Some Failed, Some Paused, Some WaitingApproval})"

lemma record_failure_simps [simp]:
  "rs_status (record_failure s err st) = (rs_status st)(s \<mapsto> failure_status err)"
  "rs_outputs (record_failure s err st) = rs_outputs st"
  "rs_started (record_failure s err st) = rs_started st"
  by (simp_all add: record_failure_def)

lemma record_success_simps [simp]:
  "rs_status (record_success s out st) = (rs_status st)(s \<mapsto> Success)"
  "rs_outputs (record_success s out st) = (rs_outputs st)(s \<mapsto> out)"
  "rs_started (record_success s out st) = rs_started st"
  by (simp_all add: record_success_def)

lemma settled_status_simps [simp]:
  "settled_status (Some Success)" "settled_status (Some (failure_status err))"
  "\<not> settled_status (Some Pending)" "\<not> settled_status (Some Skipped)" "\<not> settled_status (Some Running)"
  by (simp_all add: settled_status_def failure_status_def)

lemma collect_status:
  "collect e items st failed = (st', r) \<Longrightarrow>
   (rs_status st' x = rs_status st x \<or> x \<in> fst ` set items \<and> settled_status (rs_status st' x)) \<and>
   rs_started st' = rs_started st"
proof (induction e items st failed rule: collect.induct)
  case (1 e st failed)
  then show ?case by simp
next
  case (2 e s err items st failed)
  then show ?case by (auto split: if_splits)
next
  case (3 e s out items st failed)
  obtain st0 er where em: "emit e (success_event s out) (record_success s out st) = (st0, er)"
    by fastforce
  note em' = emit_pair [OF em]
  show ?case
  proof (cases er)
    case None
    with em 3(2) have c: "collect e items st0 failed = (st', r)" by simp
    from 3(1) [OF em [symmetric] None c] em' show ?thesis by (auto split: if_splits)
  next
    case (Some err)
    with em 3(2) em' show ?thesis by auto
  qed
qed

lemma ready_nonempty_pending:
  assumes "take n (readySteps (wf_steps def) (rs_status st)) = s # ss"
  shows "s \<in> set (wf_steps def)" and "rs_status st (step_id s) = Some Pending"
proof -
  have "s \<in> set (readySteps (wf_steps def) (rs_status st))"
    by (metis assms list.set_intros(1) in_set_takeD)
  then show "s \<in> set (wf_steps def)" "rs_status st (step_id s) = Some Pending"
    by (auto simp: readySteps_def is_ready_def)
qed

lemma run_round_pending:
  assumes "run_round e def initial paused arrive n (s # ss) st = (st', None)"
    and "s \<in> set (wf_steps def)" and "rs_status st (step_id s) = Some Pending"
  shows "length (pending_steps def st') < length (pending_steps def st)"
proof -
  obtain st1 r1 where s1: "start_round e paused (map step_id (s # ss)) st = (st1, r1)" by fastforce
  with assms(1) have "r1 = None" by (auto simp: run_round_def split: option.splits)
  let ?items = "arrive n (map (\<lambda>s. (step_id s, runStep (wf_name def) s initial (rs_outputs st))) (s # ss))"
  from s1 assms(1) \<open>r1 = None\<close> have c: "collect e ?items st1 None = (st', None)"
    by (simp add: run_round_def)
  have mono: "rs_status st' x = Some Pending \<Longrightarrow> rs_status st x = Some Pending" for x
    using collect_status [OF c, of x] start_round_status [OF s1] by (auto dest: spec [of _ x])
  have "rs_status st1 (step_id s) = Some Running"
    using start_round_status [OF s1] \<open>r1 = None\<close> by simp
  then have "rs_status st' (step_id s) \<noteq> Some Pending"
    using collect_status [OF c, of "step_id s"] by auto
  then have "s \<notin> set (pending_steps def st')" by (simp add: pending_steps_def)
  have sub: "pending_steps def st' = filter (\<lambda>x. rs_status st' (step_id x) = Some Pending) (pending_steps def st)"
    using mono by (auto simp: pending_steps_def intro!: filter_cong)
  have "s \<in> set (pending_steps def st)" using assms(2,3) by (simp add: pending_steps_def)
  with \<open>s \<notin> set (pending_steps def st')\<close> show ?thesis
    unfolding sub by (metis length_filter_less mem_Collect_eq set_filter)
qed

section \<open>The run loop\<close>

text \<open>The loop stops because every round that is not the last takes at least one step out of pending.\<close>

function run_loop ::
  "engine \<Rightarrow> wf_definition \<Rightarrow> gomap \<Rightarrow> string \<Rightarrow> arrival \<Rightarrow> nat \<Rightarrow> run_state \<Rightarrow>
   run_state \<times> engine_err option"
where
  "run_loop e def initial paused arrive n st =
     (case take (round_limit e) (readySteps (wf_steps def) (rs_status st)) of
        [] \<Rightarrow> finish def st
      | s # ss \<Rightarrow>
          (case run_round e def initial paused arrive n (s # ss) st of
             (st', Some err) \<Rightarrow> (st', Some err)
           | (st', None) \<Rightarrow> run_loop e def initial paused arrive (Suc n) st'))"
  by pat_completeness auto
termination
proof (relation "measure (\<lambda>(e, def, initial, paused, arrive, n, st). length (pending_steps def st))",
    goal_cases)
  case 1
  then show ?case by simp
next
  case (2 e def initial paused arrive n st s ss st' y)
  then have "run_round e def initial paused arrive n (s # ss) st = (st', None)" by simp
  from run_round_pending [OF this ready_nonempty_pending [OF 2(1)]] show ?case by simp
qed

declare run_loop.simps [simp del]

text \<open>The state before the first round: checkpointed steps of the definition count as successes.\<close>

definition seed :: "engine \<Rightarrow> wf_definition \<Rightarrow> run_state" where
  "seed e def =
     \<lparr>rs_status = (\<lambda>s. if s \<in> set (step_ids def)
                       then (if completed_steps e s \<noteq> None then Some Success else Some Pending)
                       else None),
      rs_outputs = (\<lambda>s. if s \<in> set (step_ids def) then completed_steps e s else None),
      rs_paused = False, rs_completed = completed_steps e, rs_events = [], rs_started = []\<rparr>"

definition empty_result :: "engine \<Rightarrow> run_state" where
  "empty_result e =
     \<lparr>rs_status = Map.empty, rs_outputs = Map.empty, rs_paused = False,
      rs_completed = completed_steps e, rs_events = [], rs_started = []\<rparr>"

definition runInternal ::
  "engine \<Rightarrow> (string list \<Rightarrow> string list) \<Rightarrow> arrival \<Rightarrow> wf_definition \<Rightarrow> gomap \<Rightarrow> string \<Rightarrow>
   run_state \<times> engine_err option"
where
  "runInternal e ord arrive def initial paused =
     (case validateDefinition ord def of
        Some err \<Rightarrow> (empty_result e, Some (DefinitionError err))
      | None \<Rightarrow> run_loop e def initial paused arrive 0 (seed e def))"

definition Run ::
  "engine \<Rightarrow> (string list \<Rightarrow> string list) \<Rightarrow> arrival \<Rightarrow> wf_definition \<Rightarrow> gomap \<Rightarrow>
   run_state \<times> engine_err option"
where
  "Run e ord arrive def initial = runInternal e ord arrive def initial ''''"

definition Resume ::
  "engine \<Rightarrow> (string list \<Rightarrow> string list) \<Rightarrow> arrival \<Rightarrow> wf_definition \<Rightarrow> gomap \<Rightarrow> string \<Rightarrow>
   run_state \<times> engine_err option"
where
  "Resume e ord arrive def initial paused = runInternal e ord arrive def initial paused"

end
