(* ===== verification/Workflow_Engine_Props.thy ===== *)
theory Workflow_Engine_Props
  imports Workflow_Engine
begin

text \<open>
  Correctness of the engine: the invariant of the run loop (which steps have outputs, what each
  started step was given), and the absence of deadlock on validated definitions.
\<close>

section \<open>The definition check\<close>

lemma check_ids_None:
  "check_ids ss seen = None \<longleftrightarrow>
   distinct (map step_id ss) \<and> '''' \<notin> step_id ` set ss \<and> step_id ` set ss \<inter> set seen = {}"
  by (induction ss seen rule: check_ids.induct) auto

lemma check_deps_None: "check_deps s ds seen = None \<longleftrightarrow> set ds \<subseteq> seen"
  by (induction s ds seen rule: check_deps.induct) auto

lemma check_all_deps_None:
  "check_all_deps ss seen = None \<longleftrightarrow> (\<forall>s \<in> set ss. set (depends_on s) \<subseteq> seen)"
proof (induction ss seen rule: check_all_deps.induct)
  case (2 s ss seen)
  then show ?case
    using check_deps_None [of "step_id s" "depends_on s" seen]
    by (cases "check_deps (step_id s) (depends_on s) seen") auto
qed simp

lemma validateDefinition_None:
  "validateDefinition ord def = None \<longleftrightarrow>
     distinct (step_ids def) \<and> '''' \<notin> set (step_ids def) \<and> known_deps def \<and>
     ValidateDAG ord def \<noteq> None"
  using check_ids_None [of "wf_steps def" "[]"]
    check_all_deps_None [of "wf_steps def" "set (step_ids def)"]
  by (auto simp: validateDefinition_def known_deps_def split: option.splits)

definition valid_definition :: "wf_definition \<Rightarrow> bool" where
  "valid_definition def \<longleftrightarrow>
     distinct (step_ids def) \<and> '''' \<notin> set (step_ids def) \<and> known_deps def \<and>
     acyclic_deps (set (step_ids def)) (all_deps (wf_steps def))"

lemma validateDefinition_valid:
  "permuting ord \<Longrightarrow> validateDefinition ord def = None \<longleftrightarrow> valid_definition def"
  using ValidateDAG_iff [of ord def] by (auto simp: validateDefinition_None valid_definition_def)

section \<open>The invariant of the loop\<close>

text \<open>
  A step has an output exactly when its status is success; no step is started twice, nor started
  when a checkpoint had completed it; and whoever was started saw, for each of its dependencies,
  the output that is still there.
\<close>

definition engine_inv :: "wf_definition \<Rightarrow> string set \<Rightarrow> run_state \<Rightarrow> bool" where
  "engine_inv def done0 st \<longleftrightarrow>
     (\<forall>x. rs_status st x = Some Success \<longleftrightarrow> rs_outputs st x \<noteq> None) \<and>
     (\<forall>x. rs_status st x \<noteq> Some Skipped) \<and>
     distinct (map fst (rs_started st)) \<and>
     (\<forall>x \<in> done0. rs_status st x \<noteq> Some Pending) \<and>
     (\<forall>(x, outs) \<in> set (rs_started st).
        x \<notin> done0 \<and> rs_status st x \<noteq> Some Pending \<and> outs \<subseteq>\<^sub>m rs_outputs st \<and>
        (\<exists>s \<in> set (wf_steps def). step_id s = x \<and> (\<forall>d \<in> set (depends_on s). outs d \<noteq> None)))"

lemma engine_inv_events [simp]:
  "engine_inv def done0 (st\<lparr>rs_events := evs\<rparr>) = engine_inv def done0 st"
  by (simp add: engine_inv_def)

lemma emit_engine_inv:
  "emit e ev st = (st', r) \<Longrightarrow> engine_inv def done0 st' = engine_inv def done0 st"
  by (auto simp: emit_def)

lemma seed_inv: "engine_inv def {x \<in> set (step_ids def). completed_steps e x \<noteq> None} (seed e def)"
  by (auto simp: engine_inv_def seed_def split: if_splits)

text \<open>Starting a round.\<close>

lemma start_round_inv:
  assumes inv: "engine_inv def done0 st"
    and ready: "\<forall>s \<in> set ready. s \<in> set (wf_steps def) \<and> is_ready (rs_status st) s"
    and dist: "distinct (map step_id ready)"
    and start: "start_round e paused (map step_id ready) st = (st', r)"
  shows "engine_inv def done0 st'"
proof -
  note stat = start_round_status [OF start]
  from start_round_started [OF start] obtain begun where
    b: "prefix begun (map step_id ready)"
      "rs_started st' = rs_started st @ map (\<lambda>s. (s, rs_outputs st)) begun"
      "\<forall>x \<in> set begun. rs_status st' x = Some Running" by blast
  have pend: "rs_status st x = Some Pending" if "x \<in> step_id ` set ready" for x
    using ready that by (auto simp: is_ready_def)
  have sub: "set begun \<subseteq> step_id ` set ready"
    using b(1) set_mono_prefix by fastforce
  have deps: "\<forall>d \<in> set (depends_on s). rs_outputs st d \<noteq> None" if "s \<in> set ready" for s
  proof
    fix d assume "d \<in> set (depends_on s)"
    with ready that have "satisfied (rs_status st d)"
      by (auto simp: is_ready_def list_all_iff)
    with inv show "rs_outputs st d \<noteq> None" by (auto simp: engine_inv_def satisfied_def)
  qed
  have old: "x \<notin> set begun" if "(x, outs) \<in> set (rs_started st)" for x outs
  proof -
    have "rs_status st x \<noteq> Some Pending" using inv that by (auto simp: engine_inv_def)
    then show ?thesis using pend sub by blast
  qed
  have distb: "distinct begun" using b(1) dist by (metis distinct_append prefix_def)
  show ?thesis unfolding engine_inv_def
  proof (intro conjI)
    show "\<forall>x. rs_status st' x = Some Success \<longleftrightarrow> rs_outputs st' x \<noteq> None"
    proof
      fix x
      have "rs_status st' x = Some Success \<longleftrightarrow> rs_status st x = Some Success"
        using stat pend [of x] by (cases "rs_status st' x = rs_status st x") (auto dest: spec [of _ x])
      then show "rs_status st' x = Some Success \<longleftrightarrow> rs_outputs st' x \<noteq> None"
        using inv stat by (simp add: engine_inv_def)
    qed
    show "\<forall>x. rs_status st' x \<noteq> Some Skipped"
    proof
      fix x show "rs_status st' x \<noteq> Some Skipped"
        using stat inv by (cases "rs_status st' x = rs_status st x") (auto simp: engine_inv_def)
    qed
    show "distinct (map fst (rs_started st'))"
      using inv old distb by (auto simp: b(2) engine_inv_def o_def)
    show "\<forall>x \<in> done0. rs_status st' x \<noteq> Some Pending"
    proof
      fix x assume "x \<in> done0"
      then show "rs_status st' x \<noteq> Some Pending"
        using stat inv by (cases "rs_status st' x = rs_status st x") (auto simp: engine_inv_def)
    qed
    show "\<forall>(x, outs) \<in> set (rs_started st').
        x \<notin> done0 \<and> rs_status st' x \<noteq> Some Pending \<and> outs \<subseteq>\<^sub>m rs_outputs st' \<and>
        (\<exists>s \<in> set (wf_steps def). step_id s = x \<and> (\<forall>d \<in> set (depends_on s). outs d \<noteq> None))"
    proof (clarify, goal_cases)
      case (1 x outs)
      then consider (old) "(x, outs) \<in> set (rs_started st)" | (new) "x \<in> set begun" "outs = rs_outputs st"
        using b(2) by auto
      then show ?case
      proof cases
        case old
        with inv have "x \<notin> done0 \<and> rs_status st x \<noteq> Some Pending \<and> outs \<subseteq>\<^sub>m rs_outputs st \<and>
          (\<exists>s \<in> set (wf_steps def). step_id s = x \<and> (\<forall>d \<in> set (depends_on s). outs d \<noteq> None))"
          by (auto simp: engine_inv_def)
        with stat show ?thesis by (metis option.inject step_status.distinct(1))
      next
        case new
        then obtain s where s: "s \<in> set ready" "step_id s = x" using sub by auto
        with pend inv have "x \<notin> done0" by (auto simp: engine_inv_def)
        with new s b(3) deps [OF s(1)] ready stat show ?thesis by auto
      qed
    qed
  qed
qed

text \<open>Reading one result of a running step.\<close>

lemma engine_inv_running:
  assumes "engine_inv def done0 st" and "rs_status st s = Some Running"
  shows "rs_outputs st s = None"
proof -
  have "rs_status st s = Some Success \<longleftrightarrow> rs_outputs st s \<noteq> None"
    using assms(1) unfolding engine_inv_def by blast
  with assms(2) show ?thesis by simp
qed

lemma record_failure_inv:
  assumes "engine_inv def done0 st" and "rs_status st s = Some Running"
  shows "engine_inv def done0 (record_failure s err st)"
  using assms engine_inv_running [OF assms]
  by (auto simp: engine_inv_def failure_status_def split: if_splits)

lemma record_success_inv:
  assumes "engine_inv def done0 st" and "rs_status st s = Some Running"
  shows "engine_inv def done0 (record_success s out st)"
proof -
  have "m \<subseteq>\<^sub>m rs_outputs st \<Longrightarrow> m \<subseteq>\<^sub>m (rs_outputs st)(s \<mapsto> out)" for m
    using engine_inv_running [OF assms] by (auto simp: map_le_def dom_def)
  with assms show ?thesis by (auto simp: engine_inv_def split: if_splits)
qed

lemma collect_inv:
  "collect e items st failed = (st', r) \<Longrightarrow> engine_inv def done0 st \<Longrightarrow>
   distinct (map fst items) \<Longrightarrow> \<forall>x \<in> fst ` set items. rs_status st x = Some Running \<Longrightarrow>
   engine_inv def done0 st'"
proof (induction e items st failed rule: collect.induct)
  case (1 e st failed)
  then show ?case by simp
next
  case (2 e s err items st failed)
  have "engine_inv def done0 (record_failure s err st)"
    using 2 by (intro record_failure_inv) auto
  then have "engine_inv def done0
      (fst (emit e (failure_event s (failure_status err) err) (record_failure s err st)))"
    by (simp add: emit_def)
  moreover have "\<forall>x \<in> fst ` set items. rs_status
      (fst (emit e (failure_event s (failure_status err) err) (record_failure s err st))) x = Some Running"
    using 2(4,5) by (auto simp: image_iff)
  moreover have "distinct (map fst items)" using 2(4) by simp
  ultimately show ?case using 2(1,2) by simp
next
  case (3 e s out items st failed)
  obtain st0 er where em: "emit e (success_event s out) (record_success s out st) = (st0, er)"
    by fastforce
  have "engine_inv def done0 (record_success s out st)"
    using 3 by (intro record_success_inv) auto
  then have inv0: "engine_inv def done0 st0" using emit_engine_inv [OF em] by simp
  show ?case
  proof (cases er)
    case None
    with em 3(2) have c: "collect e items st0 failed = (st', r)" by simp
    have "\<forall>x \<in> fst ` set items. rs_status st0 x = Some Running"
      using 3(4,5) emit_pair [OF em] by (auto simp: image_iff)
    with 3(1) [OF em [symmetric] None c inv0] 3(4) show ?thesis by simp
  next
    case (Some err)
    with em 3(2) inv0 show ?thesis by simp
  qed
qed

lemma distinct_ready:
  "distinct (step_ids def) \<Longrightarrow>
   distinct (map step_id (take n (readySteps (wf_steps def) (rs_status st))))"
  by (simp add: readySteps_def distinct_map_filter flip: take_map)

lemma ready_steps_ready:
  "\<forall>s \<in> set (take n (readySteps (wf_steps def) (rs_status st))).
     s \<in> set (wf_steps def) \<and> is_ready (rs_status st) s"
  by (auto simp: readySteps_def dest: in_set_takeD)

lemma run_round_inv:
  assumes inv: "engine_inv def done0 st" and arrive: "permuting (arrive n)"
    and ready: "\<forall>s \<in> set ready. s \<in> set (wf_steps def) \<and> is_ready (rs_status st) s"
    and dist: "distinct (map step_id ready)"
    and round: "run_round e def initial paused arrive n ready st = (st', r)"
  shows "engine_inv def done0 st'"
proof -
  obtain st1 r1 where s1: "start_round e paused (map step_id ready) st = (st1, r1)" by fastforce
  note inv1 = start_round_inv [OF inv ready dist s1]
  show ?thesis
  proof (cases r1)
    case None
    let ?items = "map (\<lambda>s. (step_id s, runStep (wf_name def) s initial (rs_outputs st))) ready"
    from s1 None round have c: "collect e (arrive n ?items) st1 None = (st', r)"
      by (simp add: run_round_def)
    have fsts: "mset (map fst (arrive n ?items)) = mset (map step_id ready)"
      using arrive by (simp add: permuting_def multiset.map_comp o_def)
    have "distinct (map fst (arrive n ?items))"
      using mset_eq_imp_distinct_iff [OF fsts] dist by blast
    moreover have "fst ` set (arrive n ?items) = step_id ` set ready"
      using mset_eq_setD [OF fsts] by (simp only: list.set_map)
    then have "\<forall>x \<in> fst ` set (arrive n ?items). rs_status st1 x = Some Running"
      using start_round_status [OF s1] None by simp
    ultimately show ?thesis using collect_inv [OF c inv1] by blast
  next
    case (Some err)
    with s1 round inv1 show ?thesis by (simp add: run_round_def)
  qed
qed

lemma run_loop_inv:
  assumes "engine_inv def done0 st" and "\<And>n. permuting (arrive n)" and "distinct (step_ids def)"
    and "run_loop e def initial paused arrive n st = (st', r)"
  shows "engine_inv def done0 st'"
  using assms
proof (induction e def initial paused arrive n st rule: run_loop.induct)
  case (1 e def initial paused arrive n st)
  show ?case
  proof (cases "take (round_limit e) (readySteps (wf_steps def) (rs_status st))")
    case Nil
    with 1(5,2) show ?thesis by (simp add: run_loop.simps finish_def)
  next
    case (Cons s ss)
    obtain st1 r1 where rr: "run_round e def initial paused arrive n (s # ss) st = (st1, r1)"
      by fastforce
    have inv1: "engine_inv def done0 st1"
      by (rule run_round_inv [OF 1(2) 1(3) _ _ rr])
         (use Cons ready_steps_ready [of "round_limit e" def st] distinct_ready [OF 1(4), of "round_limit e" st]
          in simp_all)
    show ?thesis
    proof (cases r1)
      case None
      with 1(5) Cons rr have "run_loop e def initial paused arrive (Suc n) st1 = (st', r)"
        by (simp add: run_loop.simps [of e def initial paused arrive n])
      from 1(1) [OF Cons rr [symmetric] None inv1 1(3,4) this] show ?thesis .
    next
      case (Some err)
      with 1(5) Cons rr inv1 show ?thesis by (simp add: run_loop.simps)
    qed
  qed
qed

lemma runInternal_inv:
  assumes "\<And>n. permuting (arrive n)" and "validateDefinition ord def = None"
    and "runInternal e ord arrive def initial paused = (st', r)"
  shows "engine_inv def {x \<in> set (step_ids def). completed_steps e x \<noteq> None} st'"
proof -
  from assms(2,3) have l: "run_loop e def initial paused arrive 0 (seed e def) = (st', r)"
    by (simp add: runInternal_def)
  have d: "distinct (step_ids def)" using assms(2) by (simp add: validateDefinition_None)
  show ?thesis by (rule run_loop_inv [OF seed_inv _ d l]) (rule assms(1))
qed

section \<open>No deadlock\<close>

definition in_progress :: "wf_definition \<Rightarrow> run_state \<Rightarrow> bool" where
  "in_progress def st \<longleftrightarrow>
     (\<forall>x \<in> set (step_ids def). rs_status st x = Some Pending \<or> rs_status st x = Some Success)"

lemma collect_clean:
  "collect e items st failed = (st', None) \<Longrightarrow>
   failed = None \<and> (\<forall>(x, res) \<in> set items. \<exists>out. res = Inr out) \<and>
   (\<forall>x. x \<in> fst ` set items \<or> rs_status st x = Some Success \<longrightarrow> rs_status st' x = Some Success)"
proof (induction e items st failed rule: collect.induct)
  case (1 e st failed)
  then show ?case by simp
next
  case (2 e s err items st failed)
  then show ?case by simp
next
  case (3 e s out items st failed)
  obtain st0 er where em: "emit e (success_event s out) (record_success s out st) = (st0, er)"
    by fastforce
  show ?case
  proof (cases er)
    case None
    with em 3(2) have c: "collect e items st0 failed = (st', None)" by simp
    have "rs_status st0 = (rs_status st)(s \<mapsto> Success)" using emit_pair [OF em] by simp
    with 3(1) [OF em [symmetric] None c] show ?thesis by auto
  next
    case (Some err)
    with em 3(2) show ?thesis by simp
  qed
qed

lemma run_round_progress:
  assumes prog: "in_progress def st" and arrive: "permuting (arrive n)"
    and round: "run_round e def initial paused arrive n ready st = (st', None)"
  shows "in_progress def st'"
proof -
  obtain st1 r1 where s1: "start_round e paused (map step_id ready) st = (st1, r1)" by fastforce
  with round have "r1 = None" by (auto simp: run_round_def split: option.splits)
  let ?items = "map (\<lambda>s. (step_id s, runStep (wf_name def) s initial (rs_outputs st))) ready"
  from s1 \<open>r1 = None\<close> round have c: "collect e (arrive n ?items) st1 None = (st', None)"
    by (simp add: run_round_def)
  have ids: "fst ` set (arrive n ?items) = step_id ` set ready" using arrive by force
  note cc = collect_clean [OF c] and cs = collect_status [OF c] and ss = start_round_status [OF s1]
  show ?thesis unfolding in_progress_def
  proof
    fix x assume x: "x \<in> set (step_ids def)"
    show "rs_status st' x = Some Pending \<or> rs_status st' x = Some Success"
    proof (cases "x \<in> step_id ` set ready")
      case True
      with cc ids show ?thesis by blast
    next
      case False
      with cs [of x] ids have "rs_status st' x = rs_status st1 x" by blast
      moreover have "rs_status st1 x = rs_status st x" using ss False by auto
      ultimately show ?thesis using prog x unfolding in_progress_def by metis
    qed
  qed
qed

text \<open>
  When nothing is ready, nothing is pending: among pending steps an acyclic definition has one
  that waits for no pending step (the contract of the cycle check).
\<close>

lemma no_ready_complete:
  assumes valid: "valid_definition def" and prog: "in_progress def st"
    and none: "readySteps (wf_steps def) (rs_status st) = []"
  shows "\<forall>x \<in> set (step_ids def). rs_status st x = Some Success"
proof (rule ccontr)
  let ?W = "{x \<in> set (step_ids def). rs_status st x \<noteq> Some Success}"
  assume "\<not> ?thesis"
  then have ne: "?W \<noteq> {}" by auto
  have known: "known_deps def" using valid by (simp add: valid_definition_def)
  have "ValidateDAG (\<lambda>keys. keys) def \<noteq> None"
    using valid ValidateDAG_iff [OF permuting_id(1) known] by (simp add: valid_definition_def)
  from kahn.accepted_ready [OF this all_deps_known [OF known], of ?W] ne obtain v where
    v: "v \<in> ?W" "set (all_deps (wf_steps def) v) \<inter> ?W = {}" by auto
  then obtain s where s: "s \<in> set (wf_steps def)" "step_id s = v" by auto
  then have sub: "set (depends_on s) \<subseteq> set (all_deps (wf_steps def) v)"
    by (auto simp: all_deps_def)
  have "satisfied (rs_status st d)" if "d \<in> set (depends_on s)" for d
    using that sub v(2) all_deps_known [OF known, of v] by (fastforce simp: satisfied_def)
  moreover have "rs_status st v = Some Pending" using v(1) prog by (auto simp: in_progress_def)
  ultimately have "s \<in> set (readySteps (wf_steps def) (rs_status st))"
    using s by (simp add: readySteps_def is_ready_def list_all_iff)
  with none show False by simp
qed

lemma round_limit_pos: "0 < round_limit e"
  by (simp add: round_limit_def)

lemma collect_not_incomplete: "snd (collect e items st failed) \<noteq> Some Incomplete"
  by (induction e items st failed rule: collect.induct) (auto split: prod.splits option.splits)

lemma start_round_not_incomplete: "snd (start_round e paused ss st) \<noteq> Some Incomplete"
proof (induction ss arbitrary: st)
  case (Cons s ss)
  obtain st1 r1 where one: "start_one e paused s st = (st1, r1)" by fastforce
  with start_one_spec(4) [OF one] Cons show ?case by auto
qed simp

lemma run_round_not_incomplete:
  "snd (run_round e def initial paused arrive n ready st) \<noteq> Some Incomplete"
  using start_round_not_incomplete [of e paused "map step_id ready" st]
  by (auto simp: run_round_def collect_not_incomplete split: prod.splits option.splits)

lemma run_loop_complete:
  assumes "valid_definition def" and "in_progress def st" and "\<And>n. permuting (arrive n)"
    and "run_loop e def initial paused arrive n st = (st', r)"
  shows "r \<noteq> Some Incomplete \<and>
    (r = None \<longrightarrow> (\<forall>x \<in> set (step_ids def). rs_status st' x = Some Success))"
  using assms
proof (induction e def initial paused arrive n st rule: run_loop.induct)
  case (1 e def initial paused arrive n st)
  show ?case
  proof (cases "take (round_limit e) (readySteps (wf_steps def) (rs_status st))")
    case Nil
    then have "readySteps (wf_steps def) (rs_status st) = []"
      using round_limit_pos [of e] by simp
    from no_ready_complete [OF 1(2,3) this] Nil 1(5) show ?thesis
      by (auto simp: run_loop.simps finish_def satisfied_def list_all_iff)
  next
    case (Cons s ss)
    obtain st1 r1 where rr: "run_round e def initial paused arrive n (s # ss) st = (st1, r1)"
      by fastforce
    show ?thesis
    proof (cases r1)
      case None
      with 1(5) Cons rr have l: "run_loop e def initial paused arrive (Suc n) st1 = (st', r)"
        by (simp add: run_loop.simps [of e def initial paused arrive n])
      have "in_progress def st1"
        by (rule run_round_progress [OF 1(3) 1(4) rr [unfolded None]])
      from 1(1) [OF Cons rr [symmetric] None 1(2) this 1(4) l] show ?thesis .
    next
      case (Some err)
      with run_round_not_incomplete [of e def initial paused arrive n "s # ss" st] rr
      have "err \<noteq> Incomplete" by auto
      with 1(5) Cons rr Some show ?thesis by (auto simp: run_loop.simps)
    qed
  qed
qed

lemma seed_progress: "in_progress def (seed e def)"
  by (simp add: in_progress_def seed_def)

text \<open>A run whose steps and event handler never fail ends without an error.\<close>

definition all_succeed :: "engine \<Rightarrow> wf_definition \<Rightarrow> gomap \<Rightarrow> bool" where
  "all_succeed e def initial \<longleftrightarrow>
     (\<forall>s \<in> set (wf_steps def). \<forall>outs. \<not> is_err (runStep (wf_name def) s initial outs)) \<and>
     (\<forall>f h ev. on_event e = Some f \<longrightarrow> f h ev = None)"

lemma start_round_ok:
  "\<forall>f h ev. on_event e = Some f \<longrightarrow> f h ev = None \<Longrightarrow> snd (start_round e paused ss st) = None"
proof (induction ss arbitrary: st)
  case (Cons s ss)
  have "snd (start_one e paused s st) = None"
    using Cons.prems by (cases "on_event e") (auto simp: start_one_def emit_def)
  with Cons show ?case by (auto split: prod.splits option.splits)
qed simp

lemma collect_ok:
  "\<forall>f h ev. on_event e = Some f \<longrightarrow> f h ev = None \<Longrightarrow> \<forall>(x, res) \<in> set items. \<not> is_err res \<Longrightarrow>
   snd (collect e items st None) = None"
proof (induction items arbitrary: st)
  case (Cons it items)
  obtain x res where it: "it = (x, res)" by fastforce
  with Cons.prems(2) obtain out where "res = Inr out" by (cases res) auto
  moreover have "snd (emit e ev st) = None" for ev st
    using Cons.prems(1) by (cases "on_event e") (auto simp: emit_def)
  ultimately show ?case using Cons it
    by (auto split: prod.splits option.splits) (metis snd_conv option.distinct(1))
qed simp

lemma run_round_ok:
  assumes ok: "all_succeed e def initial" and arrive: "permuting (arrive n)"
    and sub: "set ready \<subseteq> set (wf_steps def)"
  shows "snd (run_round e def initial paused arrive n ready st) = None"
proof -
  have h: "\<forall>f h ev. on_event e = Some f \<longrightarrow> f h ev = None" using ok by (simp add: all_succeed_def)
  let ?items = "map (\<lambda>s. (step_id s, runStep (wf_name def) s initial (rs_outputs st))) ready"
  have "\<forall>(x, res) \<in> set (arrive n ?items). \<not> is_err res"
    using ok arrive sub by (auto simp: all_succeed_def)
  with start_round_ok [OF h, of paused "map step_id ready" st] collect_ok [OF h] show ?thesis
    by (auto simp: run_round_def split: prod.splits)
qed

lemma run_loop_ok:
  assumes "all_succeed e def initial" and "\<And>n. permuting (arrive n)"
    and "run_loop e def initial paused arrive n st = (st', r)"
  shows "r = None \<or> r = Some Incomplete"
  using assms
proof (induction e def initial paused arrive n st rule: run_loop.induct)
  case (1 e def initial paused arrive n st)
  show ?case
  proof (cases "take (round_limit e) (readySteps (wf_steps def) (rs_status st))")
    case Nil
    with 1(4) show ?thesis by (auto simp: run_loop.simps finish_def split: if_splits)
  next
    case (Cons s ss)
    obtain st1 r1 where rr: "run_round e def initial paused arrive n (s # ss) st = (st1, r1)"
      by fastforce
    have "set (s # ss) \<subseteq> set (wf_steps def)"
      using Cons ready_steps_ready [of "round_limit e" def st] by (metis subsetI)
    from run_round_ok [where arrive = arrive and n = n and paused = paused and st = st, OF 1(2) 1(3) this] rr
    have None: "r1 = None" by simp
    with 1(4) Cons rr have l: "run_loop e def initial paused arrive (Suc n) st1 = (st', r)"
      by (simp add: run_loop.simps [of e def initial paused arrive n])
    from 1(1) [OF Cons rr [symmetric] None 1(2,3) l] show ?thesis .
  qed
qed

end
