(* ===== verification/Task_Model.thy ===== *)
theory Task_Model
  imports Go_Prelude Complex_Main
begin

text \<open>
  The data of package \<^verbatim>\<open>models\<close>: tasks, their analysis, projects, workflow jobs and task attempts
  (\<^verbatim>\<open>pkg/models/task.go\<close>, \<^verbatim>\<open>project.go\<close>, \<^verbatim>\<open>workflow.go\<close>, \<^verbatim>\<open>ir.go\<close>). A Go pointer field is an option, a
  time is its number of nanoseconds, a \<^verbatim>\<open>float64\<close> is the rational number it denotes.
\<close>

section \<open>Raw JSON columns\<close>

text \<open>
  What a \<^verbatim>\<open>json.RawMessage\<close> read as a value of one Go type can hold: nothing, bytes that are not JSON,
  JSON that does not fit the type (decoding reports an error and leaves some of the fields set), or
  the encoding of a value. \<^verbatim>\<open>json.Marshal\<close> is \<open>Json\<close>.
\<close>

datatype 'a raw_json = NoJson | BadJson | MisfitJson 'a | Json 'a

text \<open>\<^verbatim>\<open>json.Unmarshal\<close> into a variable holding the zero value: whether it fails, and the variable after.\<close>

fun unmarshal :: "'a \<Rightarrow> 'a raw_json \<Rightarrow> bool \<times> 'a" where
  "unmarshal z NoJson = (True, z)"
| "unmarshal z BadJson = (True, z)"
| "unmarshal z (MisfitJson x) = (True, x)"
| "unmarshal z (Json x) = (False, x)"

fun json_valid :: "'a raw_json \<Rightarrow> bool" where
  "json_valid NoJson = False"
| "json_valid BadJson = False"
| "json_valid (MisfitJson x) = True"
| "json_valid (Json x) = True"

lemma unmarshal_ok: "unmarshal z r = (False, x) \<longleftrightarrow> r = Json x"
  by (cases r) auto

section \<open>Task statuses\<close>

abbreviation TaskStatusTodo :: string where "TaskStatusTodo \<equiv> ''todo''"
abbreviation TaskStatusContextLoading :: string where "TaskStatusContextLoading \<equiv> ''context_loading''"
abbreviation TaskStatusAnalyzing :: string where "TaskStatusAnalyzing \<equiv> ''analyzing''"
abbreviation TaskStatusSpecReview :: string where "TaskStatusSpecReview \<equiv> ''spec_review''"
abbreviation TaskStatusCoding :: string where "TaskStatusCoding \<equiv> ''coding''"
abbreviation TaskStatusReviewing :: string where "TaskStatusReviewing \<equiv> ''reviewing''"
abbreviation TaskStatusFixing :: string where "TaskStatusFixing \<equiv> ''fixing''"
abbreviation TaskStatusTesting :: string where "TaskStatusTesting \<equiv> ''testing''"
abbreviation TaskStatusPrReady :: string where "TaskStatusPrReady \<equiv> ''pr_ready''"
abbreviation TaskStatusHumanReview :: string where "TaskStatusHumanReview \<equiv> ''human_review''"
abbreviation TaskStatusMerged :: string where "TaskStatusMerged \<equiv> ''merged''"
abbreviation TaskStatusFailed :: string where "TaskStatusFailed \<equiv> ''failed''"
abbreviation TaskStatusBlocked :: string where "TaskStatusBlocked \<equiv> ''blocked''"

definition task_statuses :: "string list" where
  "task_statuses =
     [TaskStatusTodo, TaskStatusContextLoading, TaskStatusAnalyzing, TaskStatusSpecReview,
      TaskStatusCoding, TaskStatusReviewing, TaskStatusFixing, TaskStatusTesting, TaskStatusPrReady,
      TaskStatusHumanReview, TaskStatusMerged, TaskStatusFailed, TaskStatusBlocked]"

abbreviation TaskComplexityEasy :: string where "TaskComplexityEasy \<equiv> ''easy''"
abbreviation TaskComplexityMedium :: string where "TaskComplexityMedium \<equiv> ''medium''"
abbreviation TaskComplexityHard :: string where "TaskComplexityHard \<equiv> ''hard''"

abbreviation TaskSpecStatusNone :: string where "TaskSpecStatusNone \<equiv> ''none''"
abbreviation TaskSpecStatusDraft :: string where "TaskSpecStatusDraft \<equiv> ''draft''"
abbreviation TaskSpecStatusPendingReview :: string where "TaskSpecStatusPendingReview \<equiv> ''pending_review''"
abbreviation TaskSpecStatusChangesRequested :: string where
  "TaskSpecStatusChangesRequested \<equiv> ''changes_requested''"
abbreviation TaskSpecStatusClarificationRequired :: string where
  "TaskSpecStatusClarificationRequired \<equiv> ''clarification_required''"
abbreviation TaskSpecStatusApproved :: string where "TaskSpecStatusApproved \<equiv> ''approved''"
abbreviation TaskSpecStatusAutoApproved :: string where "TaskSpecStatusAutoApproved \<equiv> ''auto_approved''"
abbreviation TaskSpecStatusReadyWithWarnings :: string where
  "TaskSpecStatusReadyWithWarnings \<equiv> ''ready_with_warnings''"

section \<open>The analysis of a task\<close>

record complexity_details =
  architecture :: string
  data_migration :: bool
  breaking_change :: bool

record risk_detail =
  rd_risk :: string
  rd_probability :: string
  rd_severity :: string
  rd_owner :: string
  rd_mitigation :: string

record affected_file =
  af_repo :: string
  af_file :: string
  af_confidence :: rat
  af_reason :: string

record complexity_score =
  cs_tokens :: int
  cs_files :: int
  cs_dependency_depth :: int
  cs_deliverable_count :: int
  cs_total :: int

record child_task_summary =
  cts_task_id :: string
  cts_sequence_index :: int
  cts_changed_files :: "string list"
  cts_tests_passed :: int
  cts_tests_failed :: int
  cts_cost_usd :: rat
  cts_duration_seconds :: int
  cts_one_line_outcome :: string
  cts_contract_deviation :: "(nat \<times> string list) option"

record child_task_contract =
  input_previous_summary :: "child_task_summary option"
  output_expected :: "string list"

record child_task_spec =
  spec_title :: string
  spec_instructions :: string
  spec_contract :: child_task_contract
  spec_depends_on :: "int list"

record decomposed_task_summary =
  ds_changed_files :: "string list"
  ds_tests_passed :: int
  ds_tests_failed :: int
  ds_cost_usd :: rat
  ds_duration_seconds :: int
  ds_children :: "child_task_summary list"
  ds_tokens_before_split :: int
  ds_tokens_after_split :: int
  ds_duration_single_est :: int
  ds_cost_saved_usd :: rat

record task_dag =
  dag_id :: string
  dag_depends_on :: "string list"
  dag_complexity :: "complexity_details option"

record execution_phase =
  phase :: string
  phase_tasks :: "string list"

record execution_profile =
  profile_agent :: string
  profile_skills :: "string list"

record execution_constraints =
  parallelizable :: bool
  max_files :: int
  estimated_tokens :: int
  max_risk :: string
  risk_multiplier :: rat

record execution_unit =
  unit_id :: string
  unit_objective :: string
  unit_tasks :: "string list"
  unit_profile :: execution_profile
  unit_constraints :: execution_constraints
  unit_dependencies :: "string list"
  unit_target_files :: "string list"

record execution_boundary =
  eb_module :: string
  eb_root :: string
  eb_capabilities :: "string list"
  eb_repo_name :: string
  eb_repository_id :: string

record expanded_boundary =
  xb_file :: string
  xb_reason :: string
  xb_capability :: string
  xb_risk :: string

record intent =
  intent_capability :: string
  intent_operation :: string

record phase_budgets =
  budget_discovery :: int
  budget_implementation :: int
  budget_validation :: int

text \<open>\<^verbatim>\<open>nil\<close> and the empty slice differ in the two lists of an \<^verbatim>\<open>ExecutionIR\<close>: the validator rejects \<^verbatim>\<open>nil\<close>.\<close>

record execution_ir =
  ir_schema_version :: string
  ir_node_id :: string
  ir_intent :: intent
  ir_constraints :: "string list option"
  ir_acceptance :: "string list option"
  ir_budget :: phase_budgets

record task_analysis =
  an_complexity :: string
  an_primary_category :: string
  an_spec_hash :: string
  an_scope :: string
  an_affected_files :: "affected_file list"
  an_risks :: "string list"
  an_execution_phases :: "execution_phase list"
  an_execution_units :: "execution_unit list"
  an_execution_irs :: "execution_ir list"
  an_execution_ir_targets :: "(string \<times> string list) list"
  an_execution_boundaries :: "execution_boundary list"
  an_expanded_boundaries :: "expanded_boundary list"
  an_acceptance_criteria :: "gomap list"
  an_clarification_questions :: "string list"
  an_task_rules :: "string list"
  an_required_skills :: "string list"
  an_risk_domains :: "string list"
  an_proposal_md :: string
  an_specs_md :: string
  an_design_md :: string
  an_tasks_md :: string
  an_spec_feedback_text :: string
  an_tasks :: "task_dag list"
  an_complexity_details :: "complexity_details option"
  an_risks_details :: "risk_detail list"
  an_required_skills_map :: "(string \<times> string list) list"
  an_retry_count :: int
  an_complexity_score :: "complexity_score option"
  an_proposed_split :: "child_task_spec list"

definition zero_analysis :: task_analysis where
  "zero_analysis =
     \<lparr>an_complexity = '''', an_primary_category = '''', an_spec_hash = '''', an_scope = '''',
      an_affected_files = [], an_risks = [], an_execution_phases = [], an_execution_units = [],
      an_execution_irs = [], an_execution_ir_targets = [], an_execution_boundaries = [],
      an_expanded_boundaries = [], an_acceptance_criteria = [], an_clarification_questions = [],
      an_task_rules = [], an_required_skills = [], an_risk_domains = [], an_proposal_md = '''',
      an_specs_md = '''', an_design_md = '''', an_tasks_md = '''', an_spec_feedback_text = '''',
      an_tasks = [], an_complexity_details = None, an_risks_details = [],
      an_required_skills_map = [], an_retry_count = 0, an_complexity_score = None,
      an_proposed_split = []\<rparr>"

section \<open>Tasks\<close>

record available_action =
  act_id :: string
  act_label :: string
  act_style :: string
  act_confirmation_required :: bool
  act_endpoint :: string
  act_disabled_reason :: string

record clarification_round =
  cr_round :: int
  cr_timestamp :: int
  cr_questions :: "string list"
  cr_response :: string

record task =
  t_id :: string
  t_project_id :: string
  t_agent_id :: "string option"
  t_parent_task_id :: "string option"
  t_repository_id :: "string option"
  t_title :: string
  t_description :: string
  t_status :: string
  t_complexity :: string
  t_priority :: int
  t_labels :: "string list"
  t_analysis :: "task_analysis raw_json"
  t_spec_status :: string
  t_clarifications :: "clarification_round list raw_json"
  t_paused_step :: string
  t_pr_urls :: "string list"
  t_pr_metadata :: "gomap list raw_json"
  t_require_spec_review :: "bool option"
  t_sequence_index :: "int option"
  t_decomposition_mode :: "string option"
  t_complexity_score :: "complexity_score raw_json"
  t_depends_on :: "string list"
  t_blocked_child_id :: "string option"
  t_retry_count :: int
  t_execution_started_at :: "int option"
  t_block_reason :: string
  t_created_at :: int
  t_updated_at :: int
  t_available_actions :: "available_action list"

definition WorkspaceOwnerID :: "task \<Rightarrow> string" where
  "WorkspaceOwnerID t =
     (case t_parent_task_id t of
        Some p \<Rightarrow> if p \<noteq> '''' then p else t_id t
      | None \<Rightarrow> t_id t)"

record create_task_input =
  ci_title :: string
  ci_description :: string
  ci_complexity :: string
  ci_priority :: int
  ci_labels :: "string list"
  ci_parent_task_id :: "string option"
  ci_agent_id :: "string option"
  ci_repository_id :: "string option"
  ci_require_spec_review :: "bool option"

record update_task_input =
  ui_title :: "string option"
  ui_description :: "string option"
  ui_status :: "string option"
  ui_complexity :: "string option"
  ui_priority :: "int option"
  ui_labels :: "string list option"
  ui_agent_id :: "string option"
  ui_repository_id :: "string option"
  ui_analysis :: "task_analysis raw_json option"
  ui_spec_status :: "string option"
  ui_require_spec_review :: "bool option"
  ui_clarifications :: "clarification_round list raw_json option"
  ui_paused_step :: "string option"
  ui_pr_urls :: "string list option"
  ui_pr_metadata :: "gomap list raw_json option"
  ui_parent_task_id :: "string option"
  ui_sequence_index :: "int option"
  ui_decomposition_mode :: "string option"
  ui_complexity_score :: "complexity_score raw_json option"
  ui_depends_on :: "string list option"
  ui_blocked_child_id :: "string option"
  ui_clear_blocked_child :: bool
  ui_retry_count :: "int option"
  ui_execution_started_at :: "int option"
  ui_block_reason :: "string option"

definition no_update :: update_task_input where
  "no_update =
     \<lparr>ui_title = None, ui_description = None, ui_status = None, ui_complexity = None,
      ui_priority = None, ui_labels = None, ui_agent_id = None, ui_repository_id = None,
      ui_analysis = None, ui_spec_status = None, ui_require_spec_review = None,
      ui_clarifications = None, ui_paused_step = None, ui_pr_urls = None, ui_pr_metadata = None,
      ui_parent_task_id = None, ui_sequence_index = None, ui_decomposition_mode = None,
      ui_complexity_score = None, ui_depends_on = None, ui_blocked_child_id = None,
      ui_clear_blocked_child = False, ui_retry_count = None, ui_execution_started_at = None,
      ui_block_reason = None\<rparr>"

section \<open>Projects\<close>

record cli_engine_config =
  cli_command :: string
  cli_args :: "string list"
  cli_credential_id :: string
  cli_env :: "(string \<times> string) list"
  cli_timeout_minutes :: int
  cli_auth_check_command :: string
  cli_allow_noop :: bool
  cli_underlying_provider :: string
  cli_profile_ref :: string

record execution_provider_config =
  ep_type :: string
  ep_ref :: string
  ep_credential_id :: string
  ep_priority :: int
  ep_enabled :: bool
  ep_cli_config :: "cli_engine_config option"

record project =
  p_id :: string
  p_org_id :: string
  p_name :: string
  p_description :: string
  p_default_model_level :: string
  p_default_autonomy :: string
  p_auto_review_policy :: string
  p_require_spec_review :: bool
  p_max_retries :: int
  p_max_review_fix_cycles :: int
  p_default_branch :: string
  p_execution_providers :: "execution_provider_config list raw_json"
  p_review_harness_policy :: string
  p_smart_routing :: bool
  p_pipeline_config :: "gomap raw_json"
  p_max_task_retry_count :: int
  p_max_execution_minutes :: int
  p_max_event_count :: int
  p_cost_budget :: "rat option"
  p_repositories_count :: int
  p_agents_count :: int
  p_tasks_done_count :: int
  p_tasks_total_count :: int
  p_created_at :: int
  p_updated_at :: int

section \<open>Workflow jobs and task attempts\<close>

abbreviation WorkflowJobStatusQueued :: string where "WorkflowJobStatusQueued \<equiv> ''queued''"
abbreviation WorkflowJobStatusRunning :: string where "WorkflowJobStatusRunning \<equiv> ''running''"
abbreviation WorkflowJobStatusPaused :: string where "WorkflowJobStatusPaused \<equiv> ''paused''"
abbreviation WorkflowJobStatusSleeping :: string where "WorkflowJobStatusSleeping \<equiv> ''sleeping''"
abbreviation WorkflowJobStatusDone :: string where "WorkflowJobStatusDone \<equiv> ''done''"
abbreviation WorkflowJobStatusFailed :: string where "WorkflowJobStatusFailed \<equiv> ''failed''"

record workflow_job =
  j_id :: string
  j_task_id :: string
  j_agent_id :: "string option"
  j_status :: string
  j_step :: string
  j_attempts :: int
  j_last_error :: string
  j_sleep_until :: "int option"
  j_created_at :: int
  j_updated_at :: int
  j_total_cost_usd :: rat
  j_total_duration_ms :: int
  j_total_tokens_used :: int

record task_attempt =
  ta_id :: string
  ta_task_id :: string
  ta_attempt_number :: int
  ta_started_at :: int
  ta_finished_at :: "int option"
  ta_exit_status :: "int option"
  ta_tokens_in :: "int option"
  ta_tokens_out :: "int option"
  ta_cost_usd :: "rat option"
  ta_sandbox_ref :: string
  ta_created_at :: int
  ta_updated_at :: int

end
