(* ===== verification/Workflow_Steps.thy ===== *)
theory Workflow_Steps
  imports Workflow_Engine_Props Task_Model
begin

text \<open>
  The pipelines of \<^verbatim>\<open>internal/workflow/step.go\<close>. The runner of a step comes from a map the caller
  passes; a step missing there has no runner (\<^verbatim>\<open>nil\<close>).
\<close>

section \<open>Step names\<close>

abbreviation StepMerge :: string where "StepMerge \<equiv> ''merge''"
abbreviation StepCLIAnalyze :: string where "StepCLIAnalyze \<equiv> ''cli_analyze''"
abbreviation StepCLISpec :: string where "StepCLISpec \<equiv> ''cli_spec''"
abbreviation StepCLIImplement :: string where "StepCLIImplement \<equiv> ''cli_implement''"
abbreviation StepCLIImplementBackend :: string where "StepCLIImplementBackend \<equiv> ''cli_implement_backend''"
abbreviation StepCLIImplementFrontend :: string where "StepCLIImplementFrontend \<equiv> ''cli_implement_frontend''"
abbreviation StepCrossReview :: string where "StepCrossReview \<equiv> ''cross_review''"
abbreviation StepCLIMR :: string where "StepCLIMR \<equiv> ''cli_mr''"

section \<open>The pipelines\<close>

type_synonym runner_map = "string \<Rightarrow> step_func option"

definition status_schema :: schema where
  "status_schema = \<lparr>schema_fields = [(''status'', \<lparr>ftype = FieldString, required = False\<rparr>)]\<rparr>"

definition pipeline_step :: "runner_map \<Rightarrow> string \<Rightarrow> string \<Rightarrow> string list \<Rightarrow> step_definition" where
  "pipeline_step runners i name deps =
     \<lparr>step_id = i, step_name = name, depends_on = deps, input_schema = \<lparr>schema_fields = []\<rparr>,
      output_schema = status_schema, step_run = runners i\<rparr>"

definition CLISpecFirstWorkflow :: "runner_map \<Rightarrow> bool \<Rightarrow> wf_definition" where
  "CLISpecFirstWorkflow runners includeCrossReview =
     (let steps =
        [pipeline_step runners StepCLIAnalyze ''Analyze'' [],
         pipeline_step runners StepCLISpec ''Author Spec'' [StepCLIAnalyze],
         pipeline_step runners StepCLIImplement ''Implement'' [StepCLISpec]];
        (steps', lastStep) =
          (if includeCrossReview
           then (steps @ [pipeline_step runners StepCrossReview ''Cross-Harness Review''
                            [StepCLIImplement]], StepCrossReview)
           else (steps, StepCLIImplement))
      in \<lparr>wf_name = ''auto-code-os-cli-spec-first-workflow'',
          wf_steps = steps' @ [pipeline_step runners StepCLIMR ''Merge Request'' [lastStep]]\<rparr>)"

definition CLISpecFirstParallelWorkflow :: "runner_map \<Rightarrow> bool \<Rightarrow> wf_definition" where
  "CLISpecFirstParallelWorkflow runners includeCrossReview =
     (let steps =
        [pipeline_step runners StepCLIAnalyze ''Analyze'' [],
         pipeline_step runners StepCLISpec ''Author Spec'' [StepCLIAnalyze],
         pipeline_step runners StepCLIImplementBackend ''Implement (Backend)'' [StepCLISpec],
         pipeline_step runners StepCLIImplementFrontend ''Implement (Frontend)'' [StepCLISpec],
         pipeline_step runners StepMerge ''Merge''
           [StepCLIImplementBackend, StepCLIImplementFrontend]];
        (steps', lastStep) =
          (if includeCrossReview
           then (steps @ [pipeline_step runners StepCrossReview ''Cross-Harness Review''
                            [StepMerge]], StepCrossReview)
           else (steps, StepMerge))
      in \<lparr>wf_name = ''auto-code-os-cli-spec-first-parallel-workflow'',
          wf_steps = steps' @ [pipeline_step runners StepCLIMR ''Merge Request'' [lastStep]]\<rparr>)"

definition step_descriptions :: "(string \<times> string) list" where
  "step_descriptions =
     [(''context_load'', ''Load repository context and conventions''),
      (''analyze'', ''Analyze task complexity & scope''),
      (''plan'', ''Parse OpenSpec & prepare subtask assignments''),
      (''code_backend'', ''Execute backend code changes in sandbox''),
      (''code_frontend'', ''Execute frontend code changes in sandbox''),
      (''merge'', ''Merge parallel code & resolve conflicts''),
      (''review'', ''AI code review''),
      (''fix'', ''Fix review feedback''),
      (''test'', ''Run test suite''),
      (''pr'', ''Create pull request''),
      (''cli_analyze'', ''Analyze repo & task with the CLI agent''),
      (''cli_spec'', ''Author OpenSpec set with the CLI agent''),
      (''cli_implement'', ''Implement against the approved spec''),
      (''cross_review'', ''Independent cross-harness AI review of CLI-coded changes''),
      (''cli_mr'', ''Create merge request'')]"

definition DescribeStep :: "string \<Rightarrow> string" where
  "DescribeStep name = (case map_of step_descriptions name of Some d \<Rightarrow> d | None \<Rightarrow> name)"

definition StatusForStep :: "string \<Rightarrow> string" where
  "StatusForStep s =
     (if s \<in> {StepCLIImplement, StepCLIImplementBackend, StepCLIImplementFrontend}
      then TaskStatusCoding
      else if s \<in> {StepCLIAnalyze, StepCLISpec} then TaskStatusAnalyzing
      else TaskStatusAnalyzing)"

section \<open>Definitions listed in dependency order\<close>

fun in_order :: "string list \<Rightarrow> step_definition list \<Rightarrow> bool" where
  "in_order before [] = True"
| "in_order before (s # ss) =
     (step_id s \<noteq> '''' \<and> step_id s \<notin> set before \<and> list_all (\<lambda>d. d \<in> set before) (depends_on s) \<and>
      in_order (before @ [step_id s]) ss)"

lemma in_order_ids:
  "in_order before ss \<Longrightarrow>
   distinct (map step_id ss) \<and> '''' \<notin> step_id ` set ss \<and> set before \<inter> step_id ` set ss = {}"
  by (induction before ss rule: in_order.induct) auto

lemma in_order_deps:
  "in_order before ss \<Longrightarrow> s \<in> set ss \<Longrightarrow> set (depends_on s) \<subseteq> set before \<union> step_id ` set ss"
  by (induction before ss rule: in_order.induct) (auto simp: list_all_iff)

lemma all_deps_cons:
  "all_deps (s # ss) v = (if step_id s = v then depends_on s else []) @ all_deps ss v"
  by (simp add: all_deps_def)

lemma all_deps_fresh: "v \<notin> step_id ` set ss \<Longrightarrow> all_deps ss v = []"
  by (auto simp: all_deps_def)

lemma in_order_topological:
  "in_order before ss \<Longrightarrow> \<forall>v \<in> step_id ` set ss. all_deps ss v = deps v \<Longrightarrow>
   topological deps before (map step_id ss)"
proof (induction before ss rule: in_order.induct)
  case (2 before s ss)
  then have o: "in_order (before @ [step_id s]) ss" by simp
  from in_order_ids [OF o] have fresh: "step_id s \<notin> step_id ` set ss" by auto
  have "\<forall>v \<in> step_id ` set ss. all_deps ss v = deps v"
    using 2(3) fresh by (auto simp: all_deps_cons split: if_splits)
  from 2(1) [OF o this] have t: "topological deps (before @ [step_id s]) (map step_id ss)" .
  have "deps (step_id s) = depends_on s"
    using 2(3) fresh by (auto simp: all_deps_cons all_deps_fresh)
  with 2(2) have "set (deps (step_id s)) \<subseteq> set before" by (auto simp: list_all_iff)
  with t show ?case by simp
qed simp

lemma in_order_valid:
  assumes "in_order [] (wf_steps def)"
  shows "valid_definition def"
proof -
  note ids = in_order_ids [OF assms]
  have "topological (all_deps (wf_steps def)) [] (step_ids def)"
    by (rule in_order_topological [OF assms]) simp
  from topological_acyclic [OF this] ids
  have "acyclic_deps (set (step_ids def)) (all_deps (wf_steps def))" by simp
  moreover have "known_deps def"
    using in_order_deps [OF assms] by (fastforce simp: known_deps_def)
  ultimately show ?thesis using ids by (simp add: valid_definition_def)
qed

lemma pipeline_step_simps [simp]:
  "step_id (pipeline_step r i n ds) = i" "depends_on (pipeline_step r i n ds) = ds"
  "step_run (pipeline_step r i n ds) = r i" "output_schema (pipeline_step r i n ds) = status_schema"
  "input_schema (pipeline_step r i n ds) = \<lparr>schema_fields = []\<rparr>"
  by (simp_all add: pipeline_step_def)

lemma pipelines_in_order:
  "in_order [] (wf_steps (CLISpecFirstWorkflow runners b))"
  "in_order [] (wf_steps (CLISpecFirstParallelWorkflow runners b))"
  by (cases b; simp add: CLISpecFirstWorkflow_def CLISpecFirstParallelWorkflow_def)+

lemmas pipelines_valid = pipelines_in_order [THEN in_order_valid]

text \<open>The two pipelines are finite graphs closed under their prerequisites.\<close>

lemma pipelines_known:
  "known_deps (CLISpecFirstWorkflow runners b)"
  "known_deps (CLISpecFirstParallelWorkflow runners b)"
  using pipelines_valid by (simp_all add: valid_definition_def)

interpretation pipeline: dep_graph
  "set (step_ids (CLISpecFirstWorkflow runners b))"
  "all_deps (wf_steps (CLISpecFirstWorkflow runners b))" for runners b
  by unfold_locales (use all_deps_known [OF pipelines_known(1)] in auto)

interpretation parallel_pipeline: dep_graph
  "set (step_ids (CLISpecFirstParallelWorkflow runners b))"
  "all_deps (wf_steps (CLISpecFirstParallelWorkflow runners b))" for runners b
  by unfold_locales (use all_deps_known [OF pipelines_known(2)] in auto)

end
