(* ===== verification/Workflow_Parser.thy ===== *)
theory Workflow_Parser
  imports Go_Prelude
begin

text \<open>
  Reading a \<^verbatim>\<open>tasks.md\<close> document (\<^verbatim>\<open>internal/workflow/parser.go\<close>): the checkbox counts, the role of a
  heading and the grouping of checkboxes under the headings.
\<close>

section \<open>Counting checkboxes\<close>

text \<open>Removing the matches of \<^verbatim>\<open>(?s)```.*?```\<close>.\<close>

definition fence :: string where "fence = ''```''"

function strip_fences :: "string \<Rightarrow> string" where
  "strip_fences s =
     (case index_of s fence of
        None \<Rightarrow> s
      | Some i \<Rightarrow>
          (let rest = drop (i + 3) s
           in case index_of rest fence of
                None \<Rightarrow> s
              | Some j \<Rightarrow> take i s @ strip_fences (drop (j + 3) rest)))"
  by pat_completeness auto
termination
proof (relation "measure length", goal_cases)
  case 1
  then show ?case by simp
next
  case (2 s i rest j)
  then have "prefix fence (drop i s)" by (simp add: index_of_SomeD)
  then have "drop i s \<noteq> []" by (auto simp: fence_def)
  then have "0 < length s" by auto
  with 2 show ?case by simp
qed

declare strip_fences.simps [simp del]

text \<open>
  One match of \<^verbatim>\<open>^\s*[-*]\s*\[([ xX])\]\<close> at the start of the text: the mark and the text behind it.
  White space includes the newline, so a match may span lines.
\<close>

definition regex_space :: "char \<Rightarrow> bool" where
  "regex_space c = (c \<in> {CHR '' '', tab, newline, CHR 0x0C, CHR 0x0D})"

definition match_checkbox :: "string \<Rightarrow> (char \<times> string) option" where
  "match_checkbox s =
     (case dropWhile regex_space s of
        b # r \<Rightarrow>
          if b = CHR ''-'' \<or> b = CHR ''*'' then
            (case dropWhile regex_space r of
               op # m # cl # rest \<Rightarrow>
                 if op = CHR ''['' \<and> m \<in> {CHR '' '', CHR ''x'', CHR ''X''} \<and> cl = CHR '']''
                 then Some (m, rest) else None
             | _ \<Rightarrow> None)
          else None
      | [] \<Rightarrow> None)"

lemma length_dropWhile_space: "length (dropWhile regex_space s) \<le> length s"
  by (simp add: length_dropWhile_le)

lemma match_checkbox_shorter: "match_checkbox s = Some (m, rest) \<Longrightarrow> length rest < length s"
proof -
  assume "match_checkbox s = Some (m, rest)"
  then obtain b r op cl where d: "dropWhile regex_space s = b # r"
    and d': "dropWhile regex_space r = op # m # cl # rest"
    by (auto simp: match_checkbox_def split: list.splits if_splits)
  have "length (b # r) \<le> length s" using length_dropWhile_space [of s] by (simp add: d)
  moreover have "length (op # m # cl # rest) \<le> length r"
    using length_dropWhile_space [of r] by (simp add: d')
  ultimately show ?thesis by simp
qed

text \<open>All matches, left to right; a match can start only at the start of a line.\<close>

function all_checkboxes :: "bool \<Rightarrow> string \<Rightarrow> char list" where
  "all_checkboxes at_start s =
     (case (if at_start then match_checkbox s else None) of
        Some (m, rest) \<Rightarrow> m # all_checkboxes False rest
      | None \<Rightarrow> (case s of [] \<Rightarrow> [] | c # cs \<Rightarrow> all_checkboxes (c = newline) cs))"
  by pat_completeness auto
termination
  by (relation "measure (\<lambda>(b, s). length s)") (auto dest: match_checkbox_shorter split: if_splits)

declare all_checkboxes.simps [simp del]

definition ParseCheckboxes :: "string \<Rightarrow> nat \<times> nat" where
  "ParseCheckboxes md =
     (let marks = all_checkboxes True (strip_fences md)
      in (length (filter (\<lambda>m. to_lower [m] = ''x'') marks), length marks))"

lemma ParseCheckboxes_le: "ParseCheckboxes md = (d, n) \<Longrightarrow> d \<le> n"
  by (auto simp: ParseCheckboxes_def Let_def)

section \<open>The role of a heading\<close>

text \<open>The Vietnamese signals are the UTF-8 bytes of the source.\<close>

definition frontendSignals :: "string list" where
  "frontendSignals =
     [''frontend'', ''ui'', ''component'', ''page'', ''view'', ''style'', ''css'', ''layout'',
      ''giao di'' @ [CHR 0xE1, CHR 0xBB, CHR 0x87] @ ''n'', ''giao dien'']"

definition backendSignals :: "string list" where
  "backendSignals =
     [''backend'', ''server'', ''api'', ''database'', ''db'', ''migration'', ''model'', ''service'',
      ''handler'',
      ''c'' @ [CHR 0xC6, CHR 0xA1] @ '' s'' @ [CHR 0xE1, CHR 0xBB, CHR 0x9F] @ '' d'' @ [CHR 0xE1, CHR 0xBB, CHR 0xAF] @
        '' li'' @ [CHR 0xE1, CHR 0xBB, CHR 0x87] @ ''u'',
      ''co so du lieu'']"

definition ClassifyHeading :: "string \<Rightarrow> string" where
  "ClassifyHeading heading =
     (let lower = to_lower heading
      in if list_ex (str_contains lower) frontendSignals then ''frontend''
         else if list_ex (str_contains lower) backendSignals then ''backend''
         else ''backend'')"

lemma ClassifyHeading_role: "ClassifyHeading h = ''frontend'' \<or> ClassifyHeading h = ''backend''"
  by (simp add: ClassifyHeading_def Let_def)

lemma ClassifyHeading_ne [simp]: "ClassifyHeading h \<noteq> []"
  using ClassifyHeading_role [of h] by auto

section \<open>Grouping checkboxes\<close>

definition isCheckboxLine :: "string \<Rightarrow> bool" where
  "isCheckboxLine line =
     (has_prefix line ''- [ ]'' \<or> has_prefix line ''- [x]'' \<or> has_prefix line ''- [X]'')"

definition extractCheckboxText :: "string \<Rightarrow> string" where
  "extractCheckboxText line =
     (case find (has_prefix line) [''- [ ] '', ''- [x] '', ''- [X] ''] of
        Some p \<Rightarrow> trim_space (trim_prefix line p)
      | None \<Rightarrow> if 6 < length line then trim_space (drop 6 line) else '''')"

record md_section =
  sec_heading :: string
  sec_role :: string
  sec_items :: "string list"

definition close_section :: "md_section option \<Rightarrow> md_section list \<Rightarrow> md_section list" where
  "close_section cur secs =
     (case cur of
        Some s \<Rightarrow> if sec_items s \<noteq> [] then secs @ [s] else secs
      | None \<Rightarrow> secs)"

fun scan_sections ::
  "string list \<Rightarrow> md_section option \<Rightarrow> md_section list \<Rightarrow> md_section list" where
  "scan_sections [] cur secs = close_section cur secs"
| "scan_sections (line # ls) cur secs =
     (let trimmed = trim_space line
      in if has_prefix trimmed ''## '' then
           scan_sections ls
             (Some \<lparr>sec_heading = trimmed, sec_role = ClassifyHeading (trim_prefix trimmed ''## ''),
                    sec_items = []\<rparr>)
             (close_section cur secs)
         else (case cur of
                 Some s \<Rightarrow>
                   if isCheckboxLine trimmed
                   then scan_sections ls (Some (s\<lparr>sec_items := sec_items s @ [trimmed]\<rparr>)) secs
                   else scan_sections ls cur secs
               | None \<Rightarrow> scan_sections ls cur secs))"

definition section_text :: "md_section \<Rightarrow> string" where
  "section_text s = sec_heading s @ concat (map (\<lambda>item. NL @ item) (sec_items s))"

definition group_sections :: "md_section list \<Rightarrow> (string \<rightharpoonup> string list)" where
  "group_sections secs = fold (\<lambda>s m. append_at m (sec_role s) (section_text s)) secs Map.empty"

text \<open>The second pass, taken when the first grouped nothing.\<close>

fun scan_items :: "string list \<Rightarrow> string \<Rightarrow> (string \<rightharpoonup> string list) \<Rightarrow> (string \<rightharpoonup> string list)" where
  "scan_items [] role m = m"
| "scan_items (line # ls) role m =
     (let trimmed = trim_space line
      in if has_prefix trimmed ''## '' then
           scan_items ls (ClassifyHeading (to_lower (trim_prefix trimmed ''## ''))) m
         else if isCheckboxLine trimmed \<and> role \<noteq> '''' then
           (let item = extractCheckboxText trimmed
            in scan_items ls role (if item \<noteq> '''' then append_at m role item else m))
         else scan_items ls role m)"

definition ParseTasksMD :: "string \<Rightarrow> (string \<rightharpoonup> string list)" where
  "ParseTasksMD tasksMD =
     (if trim_space tasksMD = '''' then Map.empty
      else (let ls = split_lines tasksMD;
                result = group_sections (scan_sections ls None [])
            in if slice_at result ''backend'' = [] \<and> slice_at result ''frontend'' = []
               then scan_items ls '''' result else result))"

section \<open>No checkbox is lost\<close>

text \<open>The checkbox lines that stand under some heading, in order.\<close>

fun headed_items :: "string list \<Rightarrow> bool \<Rightarrow> string list" where
  "headed_items [] headed = []"
| "headed_items (line # ls) headed =
     (let t = trim_space line
      in if has_prefix t ''## '' then headed_items ls True
         else if headed \<and> isCheckboxLine t then t # headed_items ls headed
         else headed_items ls headed)"

definition open_items :: "md_section option \<Rightarrow> string list" where
  "open_items cur = (case cur of Some s \<Rightarrow> sec_items s | None \<Rightarrow> [])"

lemma close_section_items:
  "concat (map sec_items (close_section cur secs)) = concat (map sec_items secs) @ open_items cur"
  by (auto simp: close_section_def open_items_def split: option.splits)

lemma open_items_simps [simp]:
  "open_items None = []"
  "open_items (Some \<lparr>sec_heading = h, sec_role = r, sec_items = is\<rparr>) = is"
  "open_items (Some (s\<lparr>sec_items := is\<rparr>)) = is"
  by (simp_all add: open_items_def)

lemma scan_sections_items:
  "concat (map sec_items (scan_sections ls cur secs)) =
   concat (map sec_items secs) @ open_items cur @ headed_items ls (cur \<noteq> None)"
proof (induction ls cur secs rule: scan_sections.induct)
  case (1 cur secs)
  then show ?case by (simp add: close_section_items)
next
  case (2 line ls cur secs)
  show ?case
  proof (cases "has_prefix (trim_space line) ''## ''")
    case True
    with 2(1) [OF refl True] show ?thesis by (simp add: Let_def close_section_items)
  next
    case False
    show ?thesis
    proof (cases cur)
      case None
      with 2(2) [OF refl False None] False show ?thesis by (simp add: Let_def)
    next
      case (Some s)
      with 2(3,4) [OF refl False Some] False show ?thesis
        by (simp add: Let_def open_items_def)
    qed
  qed
qed

lemma close_section_ok:
  "\<forall>s \<in> set secs. sec_items s \<noteq> [] \<and> sec_role s \<in> R \<Longrightarrow> \<forall>s. cur = Some s \<longrightarrow> sec_role s \<in> R \<Longrightarrow>
   \<forall>s \<in> set (close_section cur secs). sec_items s \<noteq> [] \<and> sec_role s \<in> R"
  by (auto simp: close_section_def split: option.splits)

lemma scan_sections_ok:
  "\<forall>s \<in> set secs. sec_items s \<noteq> [] \<and> sec_role s \<in> {''frontend'', ''backend''} \<Longrightarrow>
   \<forall>s. cur = Some s \<longrightarrow> sec_role s \<in> {''frontend'', ''backend''} \<Longrightarrow>
   s \<in> set (scan_sections ls cur secs) \<Longrightarrow>
   sec_items s \<noteq> [] \<and> sec_role s \<in> {''frontend'', ''backend''}"
proof (induction ls cur secs rule: scan_sections.induct)
  case (1 cur secs)
  with close_section_ok [OF 1(1,2)] show ?case by simp
next
  case (2 line ls cur secs)
  show ?case
  proof (cases "has_prefix (trim_space line) ''## ''")
    case True
    with 2(1) [OF refl True close_section_ok [OF 2(5,6)]] 2(7) ClassifyHeading_role
    show ?thesis by (simp add: Let_def)
  next
    case False
    show ?thesis
    proof (cases cur)
      case None
      with 2(2) [OF refl False None 2(5,6)] 2(7) False show ?thesis by (simp add: Let_def)
    next
      case (Some s')
      with 2(3) [OF refl False Some _ 2(5)] 2(4) [OF refl False Some _ 2(5,6)] 2(6,7) False
      show ?thesis by (simp add: Let_def split: if_splits)
    qed
  qed
qed

lemma fold_append_at:
  "slice_at (fold (\<lambda>s m. append_at m (f s) (g s)) ss m) r =
   slice_at m r @ map g (filter (\<lambda>s. f s = r) ss)"
  by (induction ss arbitrary: m) auto

lemma slice_group:
  "slice_at (group_sections secs) r = map section_text (filter (\<lambda>s. sec_role s = r) secs)"
  by (simp add: group_sections_def fold_append_at)

lemma scan_items_idle:
  "headed_items ls (role \<noteq> '''') = [] \<Longrightarrow> scan_items ls role m = m"
  by (induction ls role m rule: scan_items.induct) (auto simp: Let_def split: if_splits)

text \<open>The second pass never finds anything: it looks for the very lines the first one groups.\<close>

lemma ParseTasksMD_sections:
  "ParseTasksMD md =
     (if trim_space md = '''' then Map.empty
      else group_sections (scan_sections (split_lines md) None []))"
proof -
  let ?ls = "split_lines md"
  let ?secs = "scan_sections ?ls None []"
  have ok: "sec_items s \<noteq> [] \<and> sec_role s \<in> {''frontend'', ''backend''}" if "s \<in> set ?secs" for s
    using scan_sections_ok [OF _ _ that] by simp
  have "scan_items ?ls '''' (group_sections ?secs) = group_sections ?secs"
    if "slice_at (group_sections ?secs) ''backend'' = []"
      and "slice_at (group_sections ?secs) ''frontend'' = []"
  proof -
    have "?secs = []"
      using that ok by (cases ?secs) (force simp: slice_group)+
    with scan_sections_items [of ?ls None "[]"] have "headed_items ?ls False = []" by simp
    then show ?thesis by (intro scan_items_idle) simp
  qed
  then show ?thesis by (simp add: ParseTasksMD_def Let_def)
qed

end
