(* ===== verification/Status_Machines.thy ===== *)
theory Status_Machines
  imports Task_Model
begin

text \<open>
  The status machines of tasks and workflow jobs: the transition tables of \<^verbatim>\<open>pkg/models/task.go\<close> and
  \<^verbatim>\<open>internal/workflow/state_machine.go\<close>, the two validators, and the step relations they define.
\<close>

section \<open>The tables and their checks\<close>

definition ValidTaskTransitions :: "(string \<times> string list) list" where
  "ValidTaskTransitions =
     [(TaskStatusTodo, [TaskStatusContextLoading, TaskStatusAnalyzing, TaskStatusCoding]),
      (TaskStatusContextLoading,
        [TaskStatusAnalyzing, TaskStatusSpecReview, TaskStatusCoding, TaskStatusReviewing,
         TaskStatusTesting, TaskStatusPrReady, TaskStatusFailed]),
      (TaskStatusAnalyzing,
        [TaskStatusSpecReview, TaskStatusCoding, TaskStatusReviewing, TaskStatusFixing,
         TaskStatusTesting, TaskStatusHumanReview, TaskStatusPrReady, TaskStatusMerged,
         TaskStatusFailed]),
      (TaskStatusSpecReview,
        [TaskStatusCoding, TaskStatusTodo, TaskStatusFailed, TaskStatusAnalyzing]),
      (TaskStatusCoding,
        [TaskStatusReviewing, TaskStatusTesting, TaskStatusHumanReview, TaskStatusFailed,
         TaskStatusAnalyzing, TaskStatusBlocked, TaskStatusMerged]),
      (TaskStatusReviewing,
        [TaskStatusFixing, TaskStatusTesting, TaskStatusFailed, TaskStatusAnalyzing,
         TaskStatusBlocked]),
      (TaskStatusFixing,
        [TaskStatusReviewing, TaskStatusTesting, TaskStatusFailed, TaskStatusAnalyzing,
         TaskStatusBlocked]),
      (TaskStatusTesting,
        [TaskStatusPrReady, TaskStatusFixing, TaskStatusFailed, TaskStatusMerged,
         TaskStatusReviewing, TaskStatusAnalyzing, TaskStatusBlocked]),
      (TaskStatusPrReady,
        [TaskStatusHumanReview, TaskStatusMerged, TaskStatusFailed, TaskStatusFixing,
         TaskStatusAnalyzing]),
      (TaskStatusHumanReview,
        [TaskStatusPrReady, TaskStatusMerged, TaskStatusFixing, TaskStatusFailed,
         TaskStatusAnalyzing]),
      (TaskStatusMerged, []),
      (TaskStatusFailed,
        [TaskStatusTodo, TaskStatusContextLoading, TaskStatusAnalyzing, TaskStatusSpecReview,
         TaskStatusCoding, TaskStatusReviewing, TaskStatusFixing, TaskStatusTesting,
         TaskStatusPrReady, TaskStatusHumanReview]),
      (TaskStatusBlocked,
        [TaskStatusCoding, TaskStatusFixing, TaskStatusMerged, TaskStatusFailed])]"

definition ValidWorkflowJobTransitions :: "(string \<times> string list) list" where
  "ValidWorkflowJobTransitions =
     [(WorkflowJobStatusQueued, [WorkflowJobStatusRunning, WorkflowJobStatusFailed]),
      (WorkflowJobStatusRunning,
        [WorkflowJobStatusPaused, WorkflowJobStatusDone, WorkflowJobStatusFailed,
         WorkflowJobStatusQueued]),
      (WorkflowJobStatusPaused,
        [WorkflowJobStatusRunning, WorkflowJobStatusQueued, WorkflowJobStatusFailed,
         WorkflowJobStatusDone]),
      (WorkflowJobStatusDone, []),
      (WorkflowJobStatusFailed, [])]"

datatype transition_err =
    UnknownJobStatus string
  | InvalidJobTransition string string
  | UnknownTaskStatus string
  | InvalidTaskTransition string string

definition ValidateJobTransition :: "string \<Rightarrow> string \<Rightarrow> transition_err option" where
  "ValidateJobTransition from_st to_st =
     (if from_st = to_st then None
      else (case map_of ValidWorkflowJobTransitions from_st of
              None \<Rightarrow> Some (UnknownJobStatus from_st)
            | Some allowed \<Rightarrow>
                if to_st \<in> set allowed then None else Some (InvalidJobTransition from_st to_st)))"

definition ValidateTaskTransition :: "string \<Rightarrow> string \<Rightarrow> transition_err option" where
  "ValidateTaskTransition from0 to_st =
     (let from_st = (if from0 = '''' then TaskStatusTodo else from0)
      in if from_st = to_st then None
         else (case map_of ValidTaskTransitions from_st of
                 None \<Rightarrow> Some (UnknownTaskStatus from_st)
               | Some allowed \<Rightarrow>
                   if to_st \<in> set allowed then None
                   else Some (InvalidTaskTransition from_st to_st)))"

section \<open>The machines\<close>

text \<open>A step writes a new status that the validator let through.\<close>

inductive task_step :: "string \<Rightarrow> string \<Rightarrow> bool" where
  written: "ValidateTaskTransition s s' = None \<Longrightarrow> s \<noteq> s' \<Longrightarrow> task_step s s'"

inductive job_step :: "string \<Rightarrow> string \<Rightarrow> bool" where
  written: "ValidateJobTransition s s' = None \<Longrightarrow> s \<noteq> s' \<Longrightarrow> job_step s s'"

inductive_cases task_stepE: "task_step s s'"
inductive_simps task_step_iff: "task_step s s'"
inductive_cases job_stepE: "job_step s s'"
inductive_simps job_step_iff: "job_step s s'"

definition task_next :: "string \<Rightarrow> string list" where
  "task_next s = or_zero [] (map_of ValidTaskTransitions s)"

lemma ValidateTaskTransition_None:
  "ValidateTaskTransition s s' = None \<longleftrightarrow>
     (let f = (if s = '''' then TaskStatusTodo else s) in f = s' \<or> s' \<in> set (task_next f))"
  by (simp add: ValidateTaskTransition_def task_next_def Let_def split: option.splits)

lemma ValidateJobTransition_None:
  "ValidateJobTransition s s' = None \<longleftrightarrow>
     s = s' \<or> s' \<in> set (or_zero [] (map_of ValidWorkflowJobTransitions s))"
  by (simp add: ValidateJobTransition_def split: option.splits)

lemma task_step_next: "s' \<in> set (task_next s) \<Longrightarrow> s \<noteq> s' \<Longrightarrow> s \<noteq> '''' \<Longrightarrow> task_step s s'"
  by (simp add: task_step_iff ValidateTaskTransition_None)

lemma task_next_known: "s' \<in> set (task_next s) \<Longrightarrow> s \<in> set task_statuses"
  unfolding task_next_def
  by (cases "map_of ValidTaskTransitions s")
     (auto simp: task_statuses_def ValidTaskTransitions_def split: if_splits)

lemma merged_terminal: "\<not> task_step TaskStatusMerged s"
  by (simp add: task_step_iff ValidateTaskTransition_None task_next_def ValidTaskTransitions_def)

lemma merged_absorbing: "task_step\<^sup>*\<^sup>* TaskStatusMerged s \<Longrightarrow> s = TaskStatusMerged"
  by (erule converse_rtranclpE) (auto simp: merged_terminal)

lemma job_final: "s \<in> {WorkflowJobStatusDone, WorkflowJobStatusFailed} \<Longrightarrow> \<not> job_step s s'"
  by (auto simp: job_step_iff ValidateJobTransition_None ValidWorkflowJobTransitions_def)

lemma job_absorbing:
  "job_step\<^sup>*\<^sup>* s s' \<Longrightarrow> s \<in> {WorkflowJobStatusDone, WorkflowJobStatusFailed} \<Longrightarrow> s' = s"
  by (erule converse_rtranclpE) (use job_final [of s] in blast)+

section \<open>What the machines guarantee\<close>

lemma task_path:
  "s' \<in> set (task_next s) \<Longrightarrow> s \<noteq> s' \<Longrightarrow> s \<noteq> '''' \<Longrightarrow> task_step\<^sup>*\<^sup>* s' t \<Longrightarrow> task_step\<^sup>*\<^sup>* s t"
  by (meson converse_rtranclp_into_rtranclp task_step_next)

text \<open>A walk along the table: every entry is an allowed successor of the one before.\<close>

fun table_walk :: "string list \<Rightarrow> bool" where
  "table_walk (s # s' # ss) \<longleftrightarrow>
     s \<noteq> '''' \<and> s \<noteq> s' \<and> s' \<in> set (task_next s) \<and> table_walk (s' # ss)"
| "table_walk [s] = True"
| "table_walk [] = False"

lemma table_walk_steps: "table_walk (s # ss) \<Longrightarrow> task_step\<^sup>*\<^sup>* s (last (s # ss))"
proof (induction ss arbitrary: s)
  case (Cons s' ss)
  then show ?case by (auto intro: task_path [of s' s])
qed simp

definition delivery_path :: "string list" where
  "delivery_path =
     [TaskStatusTodo, TaskStatusContextLoading, TaskStatusAnalyzing, TaskStatusSpecReview,
      TaskStatusCoding, TaskStatusReviewing, TaskStatusFixing, TaskStatusTesting, TaskStatusPrReady,
      TaskStatusHumanReview, TaskStatusMerged]"

lemma walks_from_todo:
  "table_walk [TaskStatusTodo, TaskStatusCoding, TaskStatusBlocked]"
  "table_walk [TaskStatusTodo, TaskStatusAnalyzing, TaskStatusFailed]"
  "table_walk delivery_path"
  by (simp_all add: delivery_path_def task_next_def ValidTaskTransitions_def)

lemma table_walk_prefix: "table_walk ss \<Longrightarrow> prefix ps ss \<Longrightarrow> ps \<noteq> [] \<Longrightarrow> table_walk ps"
proof (induction ss arbitrary: ps rule: table_walk.induct)
  case (1 s s' ss)
  then show ?case by (cases ps; cases "tl ps") (auto simp: prefix_Cons)
next
  case (2 s)
  then show ?case by (cases ps) (auto simp: prefix_Cons)
qed simp

lemma reach_todo:
  assumes "table_walk (TaskStatusTodo # ss)" and "s \<in> set (TaskStatusTodo # ss)"
  shows "task_step\<^sup>*\<^sup>* TaskStatusTodo s"
proof -
  from split_list [OF assms(2)] obtain xs ys where split: "TaskStatusTodo # ss = xs @ s # ys" by blast
  then have "prefix (xs @ [s]) (TaskStatusTodo # ss)" by simp
  from table_walk_prefix [OF assms(1) this] have w: "table_walk (xs @ [s])" by simp
  show ?thesis
  proof (cases xs)
    case Nil
    with split show ?thesis by simp
  next
    case (Cons x xs')
    with split have "x = TaskStatusTodo" by simp
    with Cons w table_walk_steps [of x "xs' @ [s]"] show ?thesis by simp
  qed
qed

lemma statuses_split:
  "list_all (\<lambda>s. s \<in> set delivery_path \<or> s = TaskStatusBlocked \<or> s = TaskStatusFailed) task_statuses"
  by code_simp

lemma statuses_to_merged:
  "list_all (\<lambda>s. s = TaskStatusMerged \<or> table_walk [s, TaskStatusMerged] \<or>
     table_walk [s, TaskStatusAnalyzing, TaskStatusMerged]) task_statuses"
  by code_simp

lemma table_known: "list_all (\<lambda>(x, ys). list_all (\<lambda>y. y \<in> set task_statuses) ys) ValidTaskTransitions"
  by code_simp

lemma todo_known: "TaskStatusTodo \<in> set task_statuses"
  by (simp add: task_statuses_def)

lemma task_next_target: "s' \<in> set (task_next s) \<Longrightarrow> s' \<in> set task_statuses"
proof (cases "map_of ValidTaskTransitions s")
  case (Some ys)
  assume "s' \<in> set (task_next s)"
  with Some have "s' \<in> set ys" by (simp add: task_next_def)
  with map_of_SomeD [OF Some] table_known show ?thesis unfolding list_all_iff by fast
qed (simp add: task_next_def)

lemma todo_reaches: "s \<in> set task_statuses \<Longrightarrow> task_step\<^sup>*\<^sup>* TaskStatusTodo s"
proof -
  assume "s \<in> set task_statuses"
  then consider "s \<in> set delivery_path" | "s = TaskStatusBlocked" | "s = TaskStatusFailed"
    using statuses_split unfolding list_all_iff by blast
  then show ?thesis
  proof cases
    case 1
    have d: "delivery_path = TaskStatusTodo # tl delivery_path" by (simp add: delivery_path_def)
    show ?thesis
      by (rule reach_todo [of "tl delivery_path"]) (use 1 walks_from_todo(3) d in simp_all)
  next
    case 2
    with table_walk_steps [OF walks_from_todo(1)] show ?thesis by simp
  next
    case 3
    with table_walk_steps [OF walks_from_todo(2)] show ?thesis by simp
  qed
qed

text \<open>From every status the task can still be merged, in at most two writes.\<close>

lemma reaches_merged: "s \<in> set task_statuses \<Longrightarrow> task_step\<^sup>*\<^sup>* s TaskStatusMerged"
proof -
  assume "s \<in> set task_statuses"
  then have "s = TaskStatusMerged \<or> table_walk [s, TaskStatusMerged] \<or>
      table_walk [s, TaskStatusAnalyzing, TaskStatusMerged]"
    using statuses_to_merged unfolding list_all_iff by blast
  then show ?thesis
    using table_walk_steps [of s "[TaskStatusMerged]"]
      table_walk_steps [of s "[TaskStatusAnalyzing, TaskStatusMerged]"] by auto
qed

text \<open>Nothing leaves the known statuses.\<close>

lemma task_step_known: "task_step s s' \<Longrightarrow> s' \<in> set task_statuses"
proof -
  assume "task_step s s'"
  then have "s' \<in> set (task_next (if s = '''' then TaskStatusTodo else s)) \<or> s' = TaskStatusTodo"
    by (auto simp: task_step_iff ValidateTaskTransition_None Let_def split: if_splits)
  then show ?thesis using task_next_target todo_known by blast
qed

end
