(* ===== verification/Workflow_Properties.thy ===== *)
theory Workflow_Properties
  imports Workflow_Steps Workflow_Parser Status_Machines
begin

text \<open>
  The properties of package \<^verbatim>\<open>workflow\<close>: schema check, cycle check, engine, pipelines, status
  machines and the \<^verbatim>\<open>tasks.md\<close> parser.
\<close>

section \<open>Whoever has an output was started or checkpointed\<close>

definition outputs_traced :: "string set \<Rightarrow> run_state \<Rightarrow> bool" where
  "outputs_traced done0 st \<longleftrightarrow>
     (\<forall>x. rs_outputs st x \<noteq> None \<longrightarrow> x \<in> done0 \<or> x \<in> fst ` set (rs_started st))"

lemma collect_outputs:
  "collect e items st failed = (st', r) \<Longrightarrow> rs_outputs st' x \<noteq> None \<Longrightarrow>
   rs_outputs st x \<noteq> None \<or> x \<in> fst ` set items"
proof (induction e items st failed rule: collect.induct)
  case (2 e s err items st failed)
  from 2(2) 2(1) [OF _ 2(3)] show ?case by auto
next
  case (3 e s out items st failed)
  obtain st0 er where em: "emit e (success_event s out) (record_success s out st) = (st0, er)"
    by fastforce
  note em' = emit_pair [OF em]
  show ?case
  proof (cases er)
    case None
    with em 3(2) have c: "collect e items st0 failed = (st', r)" by simp
    from 3(1) [OF em [symmetric] None c 3(3)] em' show ?thesis by (auto split: if_splits)
  next
    case (Some err)
    with em 3(2,3) em' show ?thesis by (auto split: if_splits)
  qed
qed simp

lemma permuting_keys:
  "permuting f \<Longrightarrow> fst ` set (f (map (\<lambda>s. (g s, h s)) xs)) = g ` set xs"
  by (simp add: image_image)

lemma run_round_traced:
  assumes "outputs_traced done0 st" and "permuting (arrive n)"
    and "run_round e def initial paused arrive n ready st = (st', r)"
  shows "outputs_traced done0 st'"
proof -
  obtain st1 r1 where s1: "start_round e paused (map step_id ready) st = (st1, r1)" by fastforce
  have out1: "rs_outputs st1 = rs_outputs st" using start_round_status [OF s1] by blast
  from start_round_started [OF s1] obtain begun where
    b: "r1 = None \<longrightarrow> begun = map step_id ready"
      "rs_started st1 = rs_started st @ map (\<lambda>s. (s, rs_outputs st)) begun" by blast
  have mono: "fst ` set (rs_started st) \<subseteq> fst ` set (rs_started st1)" using b(2) by auto
  show ?thesis
  proof (cases r1)
    case None
    let ?items = "map (\<lambda>s. (step_id s, runStep (wf_name def) s initial (rs_outputs st))) ready"
    from s1 None assms(3) have c: "collect e (arrive n ?items) st1 None = (st', r)"
      by (simp add: run_round_def)
    have started: "rs_started st' = rs_started st1" using collect_status [OF c] by blast
    have "fst ` set (arrive n ?items) = step_id ` set ready"
      by (rule permuting_keys [OF assms(2)])
    moreover have "step_id ` set ready \<subseteq> fst ` set (rs_started st1)"
      using b None by (force simp: image_iff)
    ultimately have new: "fst ` set (arrive n ?items) \<subseteq> fst ` set (rs_started st')"
      by (simp add: started)
    show ?thesis unfolding outputs_traced_def
    proof (intro allI impI)
      fix x assume "rs_outputs st' x \<noteq> None"
      from collect_outputs [OF c this] have "rs_outputs st x \<noteq> None \<or> x \<in> fst ` set (arrive n ?items)"
        unfolding out1 .
      then show "x \<in> done0 \<or> x \<in> fst ` set (rs_started st')"
      proof
        assume "rs_outputs st x \<noteq> None"
        with assms(1) have "x \<in> done0 \<or> x \<in> fst ` set (rs_started st)"
          unfolding outputs_traced_def by blast
        with mono show ?thesis unfolding started by blast
      next
        assume "x \<in> fst ` set (arrive n ?items)"
        with new show ?thesis by blast
      qed
    qed
  next
    case (Some err)
    with s1 assms(3) have "st' = st1" by (simp add: run_round_def)
    with assms(1) mono out1 show ?thesis unfolding outputs_traced_def by auto
  qed
qed

lemma run_loop_traced:
  assumes "outputs_traced done0 st" and "\<And>n. permuting (arrive n)"
    and "run_loop e def initial paused arrive n st = (st', r)"
  shows "outputs_traced done0 st'"
  using assms
proof (induction e def initial paused arrive n st rule: run_loop.induct)
  case (1 e def initial paused arrive n st)
  show ?case
  proof (cases "take (round_limit e) (readySteps (wf_steps def) (rs_status st))")
    case Nil
    with 1(4,2) show ?thesis by (simp add: run_loop.simps finish_def)
  next
    case (Cons s ss)
    obtain st1 r1 where rr: "run_round e def initial paused arrive n (s # ss) st = (st1, r1)"
      by fastforce
    note t1 = run_round_traced [where arrive = arrive and n = n, OF 1(2) 1(3) rr]
    show ?thesis
    proof (cases r1)
      case None
      with 1(4) Cons rr have "run_loop e def initial paused arrive (Suc n) st1 = (st', r)"
        by (simp add: run_loop.simps [of e def initial paused arrive n])
      from 1(1) [OF Cons rr [symmetric] None t1 1(3) this] show ?thesis .
    next
      case (Some err)
      with 1(4) Cons rr t1 show ?thesis by (simp add: run_loop.simps)
    qed
  qed
qed

lemma seed_traced: "outputs_traced {x \<in> set (step_ids def). completed_steps e x \<noteq> None} (seed e def)"
  by (auto simp: outputs_traced_def seed_def)

lemma runInternal_invalid:
  "validateDefinition ord def = Some err \<Longrightarrow>
   runInternal e ord arrive def initial paused = (empty_result e, Some (DefinitionError err))"
  by (simp add: runInternal_def)

lemma runInternal_facts:
  assumes "\<And>n. permuting (arrive n)" and "runInternal e ord arrive def initial paused = (st', r)"
  shows "engine_inv def {x \<in> set (step_ids def). completed_steps e x \<noteq> None} st' \<and>
    outputs_traced {x \<in> set (step_ids def). completed_steps e x \<noteq> None} st' \<or>
    rs_started st' = [] \<and> rs_outputs st' = Map.empty"
proof (cases "validateDefinition ord def")
  case None
  have l: "run_loop e def initial paused arrive 0 (seed e def) = (st', r)"
    using assms(2) None by (simp add: runInternal_def)
  have "outputs_traced {x \<in> set (step_ids def). completed_steps e x \<noteq> None} st'"
    by (rule run_loop_traced [OF seed_traced _ l]) (rule assms(1))
  with runInternal_inv [OF assms(1) None assms(2)] show ?thesis by blast
next
  case (Some err)
  with assms(2) show ?thesis by (auto simp: runInternal_def empty_result_def)
qed

section \<open>A concrete run\<close>

text \<open>Two steps: the second needs the output of the first, and reads it.\<close>

definition demo_produce :: step_func where
  "demo_produce ctx = Inr (Some [(''n'', VInt 1)])"

definition demo_consume :: step_func where
  "demo_consume ctx =
     (case ctx_inputs ctx ''a'' of
        Some m \<Rightarrow> Inr (Some m)
      | None \<Rightarrow> Inl (StepFailed ''no input''))"

definition demo_step :: "string \<Rightarrow> string list \<Rightarrow> step_func \<Rightarrow> step_definition" where
  "demo_step i deps f =
     \<lparr>step_id = i, step_name = i, depends_on = deps, input_schema = \<lparr>schema_fields = []\<rparr>,
      output_schema = \<lparr>schema_fields = [(''n'', \<lparr>ftype = FieldNumber, required = True\<rparr>)]\<rparr>,
      step_run = Some f\<rparr>"

definition demo_flow :: wf_definition where
  "demo_flow =
     \<lparr>wf_name = ''demo'',
      wf_steps = [demo_step ''b'' [''a''] demo_consume, demo_step ''a'' [] demo_produce]\<rparr>"

definition demo_engine :: engine where
  "demo_engine = \<lparr>max_parallel = 0, on_event = None, completed_steps = Map.empty\<rparr>"

definition demo_run :: "run_state \<times> engine_err option" where
  "demo_run = Run demo_engine (\<lambda>x. x) (\<lambda>_. rev) demo_flow []"

lemma demo_started: "map fst (rs_started (fst demo_run)) = [''a'', ''b'']"
  by code_simp

lemma demo_ok: "snd demo_run = None"
  by code_simp

lemma demo_valid: "validateDefinition (\<lambda>x. x) demo_flow = None"
  by code_simp

section \<open>How a run with a failed step ends\<close>

definition none_running :: "run_state \<Rightarrow> bool" where
  "none_running st \<longleftrightarrow> (\<forall>x. rs_status st x \<noteq> Some Running)"

definition failure_shown :: "step_error \<Rightarrow> run_state \<Rightarrow> bool" where
  "failure_shown err st \<longleftrightarrow>
     (\<exists>x. rs_status st x = Some (failure_status err)) \<and>
     (is_paused err \<or> is_waiting err \<longrightarrow> rs_paused st)"

lemma collect_keeps_failure:
  "collect e items st failed = (st', r) \<Longrightarrow> x \<notin> fst ` set items \<Longrightarrow>
   rs_status st' x = rs_status st x \<and> (rs_paused st \<longrightarrow> rs_paused st')"
proof (induction e items st failed rule: collect.induct)
  case (2 e s err items st failed)
  from 2(2) 2(1) [of] 2(3) show ?case by (auto simp: record_failure_def)
next
  case (3 e s out items st failed)
  obtain st0 er where em: "emit e (success_event s out) (record_success s out st) = (st0, er)"
    by fastforce
  note em' = emit_pair [OF em]
  show ?case
  proof (cases er)
    case None
    with em 3(2) have c: "collect e items st0 failed = (st', r)" by simp
    from 3(1) [OF em [symmetric] None c] 3(3) em' show ?thesis by (auto simp: record_success_def)
  next
    case (Some err)
    with em 3(2,3) em' show ?thesis by (auto simp: record_success_def)
  qed
qed simp

lemma collect_failure:
  "collect e items st failed = (st', Some (StepError err)) \<Longrightarrow> distinct (map fst items) \<Longrightarrow>
   failed = Some err \<or> failure_shown err st'"
proof (induction e items st failed rule: collect.induct)
  case (2 e s err' items st failed)
  let ?st0 = "fst (emit e (failure_event s (failure_status err') err') (record_failure s err' st))"
  from 2(2) have c: "collect e items ?st0 (Some err') = (st', Some (StepError err))" by simp
  from 2(1) [OF c] 2(3) consider "err' = err" | "failure_shown err st'" by auto
  then show ?case
  proof cases
    case 1
    from 2(3) have "s \<notin> fst ` set items" by (simp add: image_iff)
    from collect_keeps_failure [OF c this] 1 show ?thesis
      by (auto simp: failure_shown_def record_failure_def)
  qed simp
next
  case (3 e s out items st failed)
  obtain st0 er where em: "emit e (success_event s out) (record_success s out st) = (st0, er)"
    by fastforce
  show ?case
  proof (cases er)
    case None
    with em 3(2) have c: "collect e items st0 failed = (st', Some (StepError err))" by simp
    from 3(1) [OF em [symmetric] None c] 3(3) show ?thesis by simp
  next
    case (Some err)
    with em 3(2) show ?thesis by simp
  qed
qed simp

lemma collect_settles:
  "collect e items st failed = (st', r) \<Longrightarrow> \<forall>er. r \<noteq> Some (EmitError er) \<Longrightarrow>
   rs_status st' x = Some Running \<Longrightarrow> rs_status st x = Some Running \<and> x \<notin> fst ` set items"
proof (induction e items st failed rule: collect.induct)
  case (2 e s err items st failed)
  from 2(2,3,4) 2(1) [of] show ?case
    by (auto split: if_splits simp: failure_status_def)
next
  case (3 e s out items st failed)
  obtain st0 er where em: "emit e (success_event s out) (record_success s out st) = (st0, er)"
    by fastforce
  note em' = emit_pair [OF em]
  show ?case
  proof (cases er)
    case None
    with em 3(2) have c: "collect e items st0 failed = (st', r)" by simp
    from 3(1) [OF em [symmetric] None c 3(3,4)] em' show ?thesis by (auto split: if_splits)
  next
    case (Some err)
    with em 3(2,3) show ?thesis by auto
  qed
qed simp

text \<open>What a run that ends by no event error leaves behind.\<close>

definition run_tidy :: "run_state \<Rightarrow> engine_err option \<Rightarrow> bool" where
  "run_tidy st r \<longleftrightarrow>
     (\<forall>er. r \<noteq> Some (EmitError er)) \<longrightarrow>
     none_running st \<and> (\<forall>err. r = Some (StepError err) \<longrightarrow> failure_shown err st)"

lemma start_round_error: "start_round e paused ss st = (st', Some r) \<Longrightarrow> \<exists>er. r = EmitError er"
proof (induction ss arbitrary: st)
  case (Cons s ss)
  obtain st1 r1 where one: "start_one e paused s st = (st1, r1)" by fastforce
  note o = start_one_spec(4) [OF one]
  from one o Cons show ?case by (cases r1) auto
qed simp

lemma run_round_tidy:
  assumes "none_running st" and "permuting (arrive n)" and "distinct (map step_id ready)"
    and "run_round e def initial paused arrive n ready st = (st', r)"
  shows "run_tidy st' r"
proof -
  obtain st1 r1 where s1: "start_round e paused (map step_id ready) st = (st1, r1)" by fastforce
  show ?thesis
  proof (cases r1)
    case None
    let ?items = "map (\<lambda>s. (step_id s, runStep (wf_name def) s initial (rs_outputs st))) ready"
    from s1 None assms(4) have c: "collect e (arrive n ?items) st1 None = (st', r)"
      by (simp add: run_round_def)
    have keys: "fst ` set (arrive n ?items) = step_id ` set ready"
      by (rule permuting_keys [OF assms(2)])
    have "mset (map fst (arrive n ?items)) = mset (map step_id ready)"
      using assms(2) by (simp add: permuting_def multiset.map_comp o_def)
    then have d: "distinct (map fst (arrive n ?items))"
      using mset_eq_imp_distinct_iff assms(3) by blast
    have run1: "rs_status st1 x = Some Running \<Longrightarrow> x \<in> step_id ` set ready" for x
      using start_round_status [OF s1] assms(1) unfolding none_running_def
      by (metis list.set_map)
    show ?thesis unfolding run_tidy_def none_running_def
    proof (intro impI conjI allI notI)
      fix x assume "\<forall>er. r \<noteq> Some (EmitError er)" and "rs_status st' x = Some Running"
      note no = collect_settles [OF c this]
      from run1 [OF conjunct1 [OF no]] conjunct2 [OF no] show False unfolding keys by contradiction
    next
      fix err assume "r = Some (StepError err)"
      with c have "collect e (arrive n ?items) st1 None = (st', Some (StepError err))" by simp
      from collect_failure [OF this d] show "failure_shown err st'" by simp
    qed
  next
    case (Some err)
    with start_round_error s1 obtain er where "err = EmitError er" by blast
    with Some s1 assms(4) show ?thesis by (auto simp: run_round_def run_tidy_def)
  qed
qed

lemma run_loop_tidy:
  assumes "none_running st" and "\<And>n. permuting (arrive n)" and "distinct (step_ids def)"
    and "run_loop e def initial paused arrive n st = (st', r)"
  shows "run_tidy st' r"
  using assms
proof (induction e def initial paused arrive n st rule: run_loop.induct)
  case (1 e def initial paused arrive n st)
  show ?case
  proof (cases "take (round_limit e) (readySteps (wf_steps def) (rs_status st))")
    case Nil
    with 1(2,5) show ?thesis by (auto simp: run_loop.simps finish_def run_tidy_def split: if_splits)
  next
    case (Cons s ss)
    obtain st1 r1 where rr: "run_round e def initial paused arrive n (s # ss) st = (st1, r1)"
      by fastforce
    have "distinct (map step_id (s # ss))"
      using distinct_ready [OF 1(4), of "round_limit e" st] by (simp only: Cons)
    note t1 = run_round_tidy [where arrive = arrive and n = n, OF 1(2) 1(3) this rr]
    show ?thesis
    proof (cases r1)
      case None
      with 1(5) Cons rr have l: "run_loop e def initial paused arrive (Suc n) st1 = (st', r)"
        by (simp add: run_loop.simps [of e def initial paused arrive n])
      from t1 None have "none_running st1" by (simp add: run_tidy_def)
      from 1(1) [OF Cons rr [symmetric] None this 1(3,4) l] show ?thesis .
    next
      case (Some err)
      with 1(5) Cons rr t1 show ?thesis by (simp add: run_loop.simps)
    qed
  qed
qed

lemma seed_none_running: "none_running (seed e def)"
  by (simp add: none_running_def seed_def)

section \<open>Properties of the engine\<close>

text \<open>
  C1: Dependencies first, each step once. In every run, for every choice of the runtime and every
  event handler, no step is started twice, none that a checkpoint had completed is started at all,
  and whoever is started is given, for each of its dependencies, the output that dependency still
  has when the run ends.
\<close>
theorem engine_dependency_safety:
  assumes "\<And>n. permuting (arrive n)"
    and "runInternal e ord arrive def initial paused = (st', r)"
  shows "distinct (map fst (rs_started st')) \<and>
    (\<forall>(x, outs) \<in> set (rs_started st').
      completed_steps e x = None \<and>
      (\<exists>s \<in> set (wf_steps def). step_id s = x \<and>
        (\<forall>d \<in> set (depends_on s). outs d \<noteq> None \<and> rs_outputs st' d = outs d \<and>
           rs_status st' d = Some Success)))"
proof (intro conjI ballI, goal_cases)
  case 1
  from runInternal_facts [OF assms(1) assms(2)] show ?case by (auto simp: engine_inv_def)
next
  case (2 p)
  obtain x outs where p: "p = (x, outs)" by fastforce
  with 2 have x: "(x, outs) \<in> set (rs_started st')" by simp
  with runInternal_facts [OF assms(1) assms(2)] have inv: "engine_inv def {x \<in> set (step_ids def). completed_steps e x \<noteq> None} st'" by auto
  with x obtain s where s: "s \<in> set (wf_steps def)" "step_id s = x"
    "\<forall>d \<in> set (depends_on s). outs d \<noteq> None" and sub: "outs \<subseteq>\<^sub>m rs_outputs st'"
    and fresh: "\<not> (x \<in> set (step_ids def) \<and> completed_steps e x \<noteq> None)"
    by (fastforce simp: engine_inv_def)
  have "rs_outputs st' d = outs d" if "outs d \<noteq> None" for d
    using sub that by (metis domIff map_le_def)
  moreover from this have "rs_status st' d = Some Success" if "outs d \<noteq> None" for d
    using inv that unfolding engine_inv_def by simp
  ultimately have "\<forall>d \<in> set (depends_on s). outs d \<noteq> None \<and> rs_outputs st' d = outs d \<and>
      rs_status st' d = Some Success" using s(3) by blast
  with s fresh show ?case unfolding p by auto
qed

theorem engine_dependency_safety_witness:
  "distinct [''a'', ''b''] \<and> map fst (rs_started (fst demo_run)) = [''a'', ''b''] \<and>
   rs_status (fst demo_run) ''a'' = Some Success"
proof -
  have run: "runInternal demo_engine (\<lambda>x. x) (\<lambda>_. rev) demo_flow [] '''' = (fst demo_run, snd demo_run)"
    by (simp add: demo_run_def Run_def)
  have b: "''b'' \<in> fst ` set (rs_started (fst demo_run))"
    using demo_started by (metis list.set_intros(1) list.set_intros(2) list.set_map)
  then obtain outs where b: "(''b'', outs) \<in> set (rs_started (fst demo_run))" by auto
  note t = engine_dependency_safety [OF permuting_rev run]
  from bspec [OF conjunct2 [OF t] b] have "rs_status (fst demo_run) ''a'' = Some Success"
    by (auto simp: demo_flow_def demo_step_def)
  with conjunct1 [OF t] demo_started show ?thesis by simp
qed

text \<open>
  C2: No deadlock. A run never ends with the error \<^verbatim>\<open>workflow ended with incomplete steps\<close>: the
  definition check has ruled out what could leave a step pending; and a run that ends without an
  error has every step succeeded.
\<close>
theorem engine_never_stuck:
  assumes "permuting ord" and "\<And>n. permuting (arrive n)"
    and "runInternal e ord arrive def initial paused = (st', r)"
  shows "r \<noteq> Some Incomplete \<and> (r = None \<longrightarrow> (\<forall>x \<in> set (step_ids def). rs_status st' x = Some Success))"
proof (cases "validateDefinition ord def")
  case None
  then have v: "valid_definition def" using validateDefinition_valid [OF assms(1)] by blast
  from None assms(3) have l: "run_loop e def initial paused arrive 0 (seed e def) = (st', r)"
    by (simp add: runInternal_def)
  show ?thesis by (rule run_loop_complete [OF v seed_progress _ l]) (rule assms(2))
next
  case (Some err)
  with assms(3) show ?thesis by (auto simp: runInternal_def)
qed

theorem engine_never_stuck_witness:
  "rs_status (fst demo_run) ''b'' = Some Success"
proof -
  have run: "runInternal demo_engine (\<lambda>x. x) (\<lambda>_. rev) demo_flow [] '''' = (fst demo_run, snd demo_run)"
    by (simp add: demo_run_def Run_def)
  from engine_never_stuck [OF permuting_id(1) permuting_rev run] demo_ok show ?thesis
    by (simp add: demo_flow_def demo_step_def)
qed

text \<open>
  C3: Progress. Of a definition the check accepts, if no runner and no event handler fails, the run
  ends without an error and with every step succeeded, at any parallelism and from any checkpoint.
\<close>
theorem engine_all_succeed:
  assumes "permuting ord" and "\<And>n. permuting (arrive n)" and "valid_definition def"
    and "all_succeed e def initial"
  shows "snd (runInternal e ord arrive def initial paused) = None \<and>
    (\<forall>x \<in> set (step_ids def). rs_status (fst (runInternal e ord arrive def initial paused)) x = Some Success)"
proof -
  obtain st' r where run: "runInternal e ord arrive def initial paused = (st', r)" by fastforce
  have "validateDefinition ord def = None" using validateDefinition_valid assms(1,3) by blast
  with run have l: "run_loop e def initial paused arrive 0 (seed e def) = (st', r)"
    by (simp add: runInternal_def)
  have "r = None \<or> r = Some Incomplete"
    by (rule run_loop_ok [OF assms(4) _ l]) (rule assms(2))
  moreover have "r \<noteq> Some Incomplete \<and> (r = None \<longrightarrow> (\<forall>x \<in> set (step_ids def). rs_status st' x = Some Success))"
    by (rule run_loop_complete [OF assms(3) seed_progress _ l]) (rule assms(2))
  ultimately show ?thesis using run by auto
qed

definition demo_pair :: wf_definition where
  "demo_pair =
     \<lparr>wf_name = ''pair'',
      wf_steps = [demo_step ''b'' [''a''] demo_produce, demo_step ''a'' [] demo_produce]\<rparr>"

theorem engine_all_succeed_witness:
  "rs_status (fst (Run demo_engine (\<lambda>x. x) (\<lambda>_. rev) demo_pair [])) ''b'' = Some Success"
proof -
  have "validateDefinition (\<lambda>x. x) demo_pair = None" by code_simp
  then have v: "valid_definition demo_pair" using validateDefinition_valid [OF permuting_id(1)] by blast
  have ok: "all_succeed demo_engine demo_pair []"
    by (auto simp: all_succeed_def demo_pair_def demo_step_def demo_engine_def runStep_def
        demo_produce_def Validate_def get_key_def)
  from engine_all_succeed [OF permuting_id(1) permuting_rev v ok, of "''''"] show ?thesis
    by (simp add: demo_pair_def demo_step_def Run_def)
qed

text \<open>
  Failures are shown. Unless the event handler stopped it, a run leaves no step with status
  running; and if it returns the error of a step, a step carries the status of that error (failed,
  paused or waiting for approval), with the paused flag set for the latter two.
\<close>
theorem engine_failure_shown:
  assumes "\<And>n. permuting (arrive n)"
    and "runInternal e ord arrive def initial paused = (st', r)"
    and "\<forall>er. r \<noteq> Some (EmitError er)"
  shows "(\<forall>x. rs_status st' x \<noteq> Some Running) \<and>
    (\<forall>err. r = Some (StepError err) \<longrightarrow>
      (\<exists>y. rs_status st' y = Some (failure_status err)) \<and>
      (is_paused err \<or> is_waiting err \<longrightarrow> rs_paused st'))"
proof -
  have t: "run_tidy st' r"
  proof (cases "validateDefinition ord def")
    case None
    with assms(2) have l: "run_loop e def initial paused arrive 0 (seed e def) = (st', r)"
      by (simp add: runInternal_def)
    have "distinct (step_ids def)" using None by (simp add: validateDefinition_None)
    from run_loop_tidy [OF seed_none_running assms(1) this l] show ?thesis .
  next
    case (Some err)
    with assms(2) show ?thesis
      by (auto simp: runInternal_def run_tidy_def none_running_def empty_result_def)
  qed
  with assms(3) show ?thesis by (auto simp: run_tidy_def none_running_def failure_shown_def)
qed

definition demo_stop :: step_func where
  "demo_stop ctx = Inl (PauseError ''cli_spec'' ''needs answers'')"

definition demo_paused :: wf_definition where
  "demo_paused =
     \<lparr>wf_name = ''paused'',
      wf_steps = [demo_step ''b'' [''a''] demo_produce, demo_step ''a'' [] demo_stop]\<rparr>"

theorem engine_failure_shown_witness:
  "rs_paused (fst (Run demo_engine (\<lambda>x. x) (\<lambda>_. rev) demo_paused [])) \<and>
   rs_status (fst (Run demo_engine (\<lambda>x. x) (\<lambda>_. rev) demo_paused [])) ''b'' \<noteq> Some Running"
proof -
  let ?res = "Run demo_engine (\<lambda>x. x) (\<lambda>_. rev) demo_paused []"
  have run: "runInternal demo_engine (\<lambda>x. x) (\<lambda>_. rev) demo_paused [] '''' = (fst ?res, snd ?res)"
    by (simp add: Run_def)
  have r: "snd ?res = Some (StepError (PauseError ''cli_spec'' ''needs answers''))" by code_simp
  then have "\<forall>er. snd ?res \<noteq> Some (EmitError er)" by simp
  note t = engine_failure_shown [OF permuting_rev run this]
  from t r show ?thesis by simp
qed

section \<open>Properties of the definition check\<close>

text \<open>
  C38: The definition check accepts exactly the well-formed definitions: every step has a name, no
  name twice, every dependency is a step, and the dependencies have no cycle. The order in which
  the range over the in-degree map visits the steps does not matter.
\<close>
theorem validateDefinition_exact:
  assumes "permuting ord"
  shows "validateDefinition ord def = None \<longleftrightarrow>
    distinct (step_ids def) \<and> '''' \<notin> set (step_ids def) \<and>
    (\<forall>s \<in> set (wf_steps def). set (depends_on s) \<subseteq> set (step_ids def)) \<and>
    acyclic {(d, v). v \<in> set (step_ids def) \<and> (\<exists>s \<in> set (wf_steps def). step_id s = v \<and> d \<in> set (depends_on s))}"
proof -
  have "acyclic_deps (set (step_ids def)) (all_deps (wf_steps def)) \<longleftrightarrow>
    acyclic {(d, v). v \<in> set (step_ids def) \<and> (\<exists>s \<in> set (wf_steps def). step_id s = v \<and> d \<in> set (depends_on s))}"
    unfolding acyclic_deps_def dep_rel_def
    by (rule arg_cong [of _ _ acyclic]) (auto simp: all_deps_def)
  then show ?thesis
    using validateDefinition_valid [OF assms, of def]
    by (auto simp: valid_definition_def known_deps_def)
qed

theorem validateDefinition_exact_witness:
  "acyclic {(d, v). v \<in> set (step_ids demo_flow) \<and>
     (\<exists>s \<in> set (wf_steps demo_flow). step_id s = v \<and> d \<in> set (depends_on s))}"
  using validateDefinition_exact [OF permuting_id(1), of demo_flow] demo_valid by blast

text \<open>
  The order \<^verbatim>\<open>ValidateDAG\<close> returns lists every step once, each behind all of its dependencies.
\<close>
theorem ValidateDAG_sorts:
  assumes "permuting ord" and "ValidateDAG ord def = Some order"
  shows "set order = set (step_ids def) \<and> distinct order \<and>
    (\<forall>i < length order. \<forall>s \<in> set (wf_steps def). step_id s = order ! i \<longrightarrow>
       set (depends_on s) \<subseteq> set (take i order))"
proof -
  note t = ValidateDAG_topological [OF assms]
  have "set (all_deps (wf_steps def) (order ! i)) \<subseteq> set (take i order)" if "i < length order" for i
  proof -
    have "order = take i order @ order ! i # drop (Suc i) order" using that by (simp add: id_take_nth_drop)
    with t(3) have "topological (all_deps (wf_steps def)) [] (take i order @ order ! i # drop (Suc i) order)"
      by simp
    then show ?thesis by (simp add: topological_append del: append_take_drop_id)
  qed
  with t show ?thesis by (fastforce simp: all_deps_def)
qed

theorem ValidateDAG_sorts_witness:
  "ValidateDAG (\<lambda>x. x) demo_flow = Some [''a'', ''b''] \<and> set (step_ids demo_flow) = {''a'', ''b''}"
proof -
  have "ValidateDAG (\<lambda>x. x) demo_flow = Some [''a'', ''b'']" by code_simp
  from this ValidateDAG_sorts [OF permuting_id(1) this] show ?thesis by auto
qed

text \<open>
  \<^verbatim>\<open>Schema.Validate\<close> accepts a map exactly when every required field is present and every
  present field has its type; the order of the range over the fields does not change that.
\<close>
theorem Validate_exact:
  assumes "permuting ord"
  shows "Validate \<lparr>schema_fields = ord fs\<rparr> vals = None \<longleftrightarrow>
    (\<forall>(name, field) \<in> set fs.
       case get_key vals name of
         None \<Rightarrow> \<not> required field
       | Some raw \<Rightarrow> matchesType raw (ftype field))"
  using assms by (simp add: Validate_def validate_fields_None_iff conforms_def case_prod_unfold)

theorem Validate_exact_witness:
  "Validate \<lparr>schema_fields = rev [(''n'', \<lparr>ftype = FieldNumber, required = True\<rparr>)]\<rparr> [(''n'', VInt 3)] = None"
  unfolding Validate_exact [OF permuting_rev] by (simp add: get_key_def)

text \<open>
  The input of a step: the initial values overridden by the outputs of its dependencies, the
  last dependency that sets a key winning.
\<close>
theorem aggregateInputs_last_wins:
  assumes "\<forall>d m. outputs d = Some m \<longrightarrow> distinct (map fst m)" and "distinct (map fst initial)"
  shows "get_key (aggregateInputs deps outputs initial) k =
    (case find (\<lambda>d. get_key (or_zero [] (outputs d)) k \<noteq> None) (rev deps) of
       None \<Rightarrow> get_key initial k
     | Some d \<Rightarrow> get_key (or_zero [] (outputs d)) k)"
proof -
  have "get_key (put_all [] initial) k = get_key initial k"
    by (simp add: get_put_all [OF assms(2)]) (simp add: get_key_def split: option.splits)
  then show ?thesis by (simp add: aggregateInputs_def aggregate_deps_key [OF assms(1)] split: option.split)
qed

theorem aggregateInputs_last_wins_witness:
  "get_key (aggregateInputs [''a'', ''b''] [''a'' \<mapsto> [(''k'', VInt 1)], ''b'' \<mapsto> [(''k'', VInt 2)]] [(''k'', VInt 0)])
     ''k'' = Some (VInt 2)"
  by (subst aggregateInputs_last_wins) (auto simp: get_key_def split: if_splits)

section \<open>Properties of the pipelines\<close>


definition demo_runners :: runner_map where
  "demo_runners i = Some (\<lambda>ctx. Inr None)"

definition demo_pipeline_run :: "run_state \<times> engine_err option" where
  "demo_pipeline_run = Run demo_engine (\<lambda>x. x) (\<lambda>_. rev) (CLISpecFirstWorkflow demo_runners True) []"

lemma demo_pipeline_started:
  "map fst (rs_started (fst demo_pipeline_run)) =
     [StepCLIAnalyze, StepCLISpec, StepCLIImplement, StepCrossReview, StepCLIMR]"
  by code_simp


section \<open>Properties of the status machines\<close>

text \<open>
  The table of task transitions: from \<^verbatim>\<open>todo\<close> every status can be reached, and from every status
  \<^verbatim>\<open>merged\<close> can be reached, which has no transition out of it. A clarification writes past the table.
\<close>
lemma task_machine:
  "s \<in> set task_statuses \<Longrightarrow> task_step\<^sup>*\<^sup>* TaskStatusTodo s \<and> task_step\<^sup>*\<^sup>* s TaskStatusMerged"
  "task_step\<^sup>*\<^sup>* TaskStatusMerged s' \<Longrightarrow> s' = TaskStatusMerged"
  using todo_reaches reaches_merged merged_absorbing by blast+

text \<open>
  The job machine: a job that is done or failed stays so; a retry is a new job.
\<close>
theorem job_machine:
  "job_step\<^sup>*\<^sup>* s s' \<Longrightarrow> s = WorkflowJobStatusDone \<or> s = WorkflowJobStatusFailed \<Longrightarrow> s' = s"
  using job_absorbing by blast

theorem job_machine_witness:
  "job_step\<^sup>*\<^sup>* WorkflowJobStatusDone WorkflowJobStatusDone \<and> WorkflowJobStatusDone = WorkflowJobStatusDone"
  using job_machine [of WorkflowJobStatusDone WorkflowJobStatusDone] by simp

section \<open>The parser\<close>

text \<open>
  Grouping \<^verbatim>\<open>tasks.md\<close> loses no checkbox: the result holds, by role, one entry for each heading
  that has checkboxes under it, and the entries list all checkbox lines that stand under a heading,
  in their order. The second pass that is to catch what the first one misses changes nothing.
\<close>
theorem ParseTasksMD_complete:
  assumes "trim_space md \<noteq> ''''"
  shows "\<exists>secs.
    concat (map sec_items secs) = headed_items (split_lines md) False \<and>
    (\<forall>s \<in> set secs. sec_items s \<noteq> [] \<and> sec_role s \<in> {''frontend'', ''backend''}) \<and>
    (\<forall>r. slice_at (ParseTasksMD md) r = map section_text (filter (\<lambda>s. sec_role s = r) secs))"
proof -
  let ?secs = "scan_sections (split_lines md) None []"
  have "\<forall>s \<in> set ?secs. sec_items s \<noteq> [] \<and> sec_role s \<in> {''frontend'', ''backend''}"
    using scan_sections_ok [of "[]" None _ "split_lines md"] by simp
  with assms scan_sections_items [of "split_lines md" None "[]"] show ?thesis
    by (intro exI [of _ ?secs]) (simp add: ParseTasksMD_sections slice_group)
qed

definition demo_tasks :: string where
  "demo_tasks = ''## API server'' @ NL @ ''- [ ] add route'' @ NL @ ''## UI page'' @ NL @ '' - [x] form''"

theorem ParseTasksMD_complete_witness:
  "\<exists>secs. concat (map sec_items secs) = [''- [ ] add route'', ''- [x] form''] \<and>
     slice_at (ParseTasksMD demo_tasks) ''frontend'' =
       map section_text (filter (\<lambda>s. sec_role s = ''frontend'') secs)"
proof -
  have ne: "trim_space demo_tasks \<noteq> ''''" by code_simp
  have items: "headed_items (split_lines demo_tasks) False = [''- [ ] add route'', ''- [x] form'']"
    by code_simp
  from ParseTasksMD_complete [OF ne] items show ?thesis by metis
qed

end
