(* ===== verification/Graph_Reach.thy ===== *)
theory Graph_Reach
  imports Graph_Search
begin

text \<open>
  Reachability in a finite adjacency list: a stack-driven marking and a breadth-first search, each
  computing the nodes reachable from its start nodes.
\<close>

definition successors :: "'a adj \<Rightarrow> ('a \<times> 'a) set" where
  "successors adj = {(v, w). w \<in> set (deps_of adj v)}"

lemma in_successors [simp]: "(v, w) \<in> successors adj \<longleftrightarrow> w \<in> set (deps_of adj v)"
  by (simp add: successors_def)

definition all_nodes :: "'a adj \<Rightarrow> 'a set" where
  "all_nodes adj = fst ` set adj \<union> (\<Union>(v, ds) \<in> set adj. set ds)"

lemma finite_all_nodes [simp]: "finite (all_nodes adj)"
  by (auto simp: all_nodes_def)

lemma deps_of_nodes: "set (deps_of adj v) \<subseteq> all_nodes adj"
proof (cases "map_of adj v")
  case (Some ds)
  then have "(v, ds) \<in> set adj" by (rule map_of_SomeD)
  with Some show ?thesis by (fastforce simp: deps_of_def all_nodes_def)
qed (simp add: deps_of_def)

lemma deps_of_reach:
  "v \<in> (successors adj)\<^sup>* `` S \<Longrightarrow> set (deps_of adj v) \<subseteq> (successors adj)\<^sup>* `` S"
proof
  fix w assume "v \<in> (successors adj)\<^sup>* `` S" and "w \<in> set (deps_of adj v)"
  then obtain a where "a \<in> S" "(a, v) \<in> (successors adj)\<^sup>*" "(v, w) \<in> successors adj" by auto
  then show "w \<in> (successors adj)\<^sup>* `` S" by (meson ImageI rtrancl.rtrancl_into_rtrancl)
qed

section \<open>Marking with a stack\<close>

text \<open>
  \<open>mark_from adj todo seen\<close> marks what can be reached from \<open>todo\<close>, depth first: the prerequisites
  of a node just marked go before the rest, as in the recursive form.
\<close>

function mark_from :: "'a adj \<Rightarrow> 'a list \<Rightarrow> 'a set \<Rightarrow> 'a set" where
  "mark_from adj [] seen = seen"
| "mark_from adj (d # ds) seen =
     (if d \<in> seen then mark_from adj ds seen
      else mark_from adj (deps_of adj d @ ds) (insert d seen))"
  by pat_completeness auto
termination
proof (relation "inv_image (less_than <*lex*> less_than)
    (\<lambda>(adj, todo, seen). (card (all_nodes adj - seen), length (filter (\<lambda>x. x \<in> all_nodes adj) todo) + length todo))",
    goal_cases)
  case 1
  then show ?case by auto
next
  case (2 adj d ds seen)
  then show ?case by simp
next
  case (3 adj d ds seen)
  show ?case
  proof (cases "d \<in> all_nodes adj")
    case True
    with 3 have "all_nodes adj - insert d seen \<subset> all_nodes adj - seen" by auto
    then show ?thesis by (simp add: psubset_card_mono)
  next
    case False
    then have "d \<notin> fst ` set adj" by (auto simp: all_nodes_def)
    then have "deps_of adj d = []" by (rule deps_of_notin)
    with False show ?thesis by (simp add: Diff_insert0)
  qed
qed

lemma mark_from_least:
  "seen \<union> set todo \<subseteq> (successors adj)\<^sup>* `` S \<Longrightarrow> mark_from adj todo seen \<subseteq> (successors adj)\<^sup>* `` S"
proof (induction adj todo seen rule: mark_from.induct)
  case (2 adj d ds seen)
  show ?case
  proof (cases "d \<in> seen")
    case True
    with 2 show ?thesis by simp
  next
    case False
    have "set (deps_of adj d) \<subseteq> (successors adj)\<^sup>* `` S"
      using 2(3) by (intro deps_of_reach) simp
    with 2 False show ?thesis by simp
  qed
qed simp

lemma mark_from_closed:
  "\<forall>v \<in> seen. set (deps_of adj v) \<subseteq> seen \<union> set todo \<Longrightarrow>
   seen \<union> set todo \<subseteq> mark_from adj todo seen \<and>
   (\<forall>v \<in> mark_from adj todo seen. set (deps_of adj v) \<subseteq> mark_from adj todo seen)"
proof (induction adj todo seen rule: mark_from.induct)
  case (2 adj d ds seen)
  show ?case
  proof (cases "d \<in> seen")
    case True
    with 2(3) have "\<forall>v \<in> seen. set (deps_of adj v) \<subseteq> seen \<union> set ds" by fastforce
    with 2(1) [OF True] True show ?thesis by auto
  next
    case False
    with 2(3) have "\<forall>v \<in> insert d seen. set (deps_of adj v) \<subseteq> insert d seen \<union> set (deps_of adj d @ ds)"
      by fastforce
    with 2(2) [OF False] False show ?thesis by auto
  qed
qed auto

lemma closed_rtrancl:
  "\<forall>v \<in> M. set (deps_of adj v) \<subseteq> M \<Longrightarrow> (a, b) \<in> (successors adj)\<^sup>* \<Longrightarrow> a \<in> M \<Longrightarrow> b \<in> M"
  by (erule rtrancl_induct) auto

lemma mark_from_reach: "mark_from adj todo {} = (successors adj)\<^sup>* `` set todo"
proof
  show "mark_from adj todo {} \<subseteq> (successors adj)\<^sup>* `` set todo" by (rule mark_from_least) auto
  note c = mark_from_closed [of "{}" adj todo]
  show "(successors adj)\<^sup>* `` set todo \<subseteq> mark_from adj todo {}"
  proof
    fix b assume "b \<in> (successors adj)\<^sup>* `` set todo"
    then obtain a where "a \<in> set todo" "(a, b) \<in> (successors adj)\<^sup>*" by auto
    with c closed_rtrancl [of "mark_from adj todo {}"] show "b \<in> mark_from adj todo {}" by auto
  qed
qed

section \<open>Breadth-first search\<close>

fun push_unseen :: "'a list \<Rightarrow> 'a set \<times> 'a list \<Rightarrow> 'a set \<times> 'a list" where
  "push_unseen [] (seen, queue) = (seen, queue)"
| "push_unseen (n # ns) (seen, queue) =
     push_unseen ns (if n \<notin> seen then (insert n seen, queue @ [n]) else (seen, queue))"

lemma push_unseen_set:
  "push_unseen ns (seen, queue) = (seen', queue') \<Longrightarrow>
   seen' = seen \<union> set ns \<and> set queue' \<subseteq> set queue \<union> set ns \<and>
   seen' \<union> set queue' = seen \<union> set queue \<union> set ns \<and> set queue \<subseteq> set queue' \<and>
   seen' - seen \<subseteq> set queue'"
proof (induction ns arbitrary: seen queue)
  case (Cons n ns)
  show ?case
  proof (cases "n \<in> seen")
    case True
    with Cons.prems have "push_unseen ns (seen, queue) = (seen', queue')" by simp
    from Cons.IH [OF this] True show ?thesis by auto
  next
    case False
    with Cons.prems have "push_unseen ns (insert n seen, queue @ [n]) = (seen', queue')" by simp
    from Cons.IH [OF this] False show ?thesis by auto
  qed
qed simp

lemma push_unseen_measure:
  "push_unseen ns (seen, queue) = (seen', queue') \<Longrightarrow> set ns \<subseteq> U \<Longrightarrow> finite U \<Longrightarrow>
   card (U - seen') + length queue' = card (U - seen) + length queue"
proof (induction ns arbitrary: seen queue)
  case (Cons n ns)
  show ?case
  proof (cases "n \<in> seen")
    case True
    with Cons show ?thesis by (simp add: insert_absorb)
  next
    case False
    have "n \<in> U - seen" using Cons.prems(2) False by simp
    then have "card (U - insert n seen) + 1 = card (U - seen)"
      using Cons.prems(3) by (metis Diff_insert Suc_eq_plus1 card_Suc_Diff1 finite_Diff)
    with Cons False show ?thesis by fastforce
  qed
qed simp

function bfs :: "'a adj \<Rightarrow> 'a list \<Rightarrow> 'a set \<Rightarrow> 'a set" where
  "bfs adj [] seen = seen"
| "bfs adj (cur # queue) seen =
     (let (seen', queue') = push_unseen (deps_of adj cur) (seen, queue)
      in bfs adj queue' seen')"
  by pat_completeness auto
termination
proof (relation "measure (\<lambda>(adj, queue, seen). card (all_nodes adj - seen) + length queue)", goal_cases)
  case 1
  then show ?case by simp
next
  case (2 adj cur queue seen x seen' queue')
  then have "push_unseen (deps_of adj cur) (seen, queue) = (seen', queue')" by simp
  from push_unseen_measure [OF this deps_of_nodes finite_all_nodes] show ?case by simp
qed

lemma bfs_least:
  "seen \<union> set queue \<subseteq> (successors adj)\<^sup>* `` S \<Longrightarrow> bfs adj queue seen \<subseteq> (successors adj)\<^sup>* `` S"
proof (induction adj queue seen rule: bfs.induct)
  case (2 adj cur queue seen)
  obtain seen' queue' where p: "push_unseen (deps_of adj cur) (seen, queue) = (seen', queue')" by fastforce
  have "set (deps_of adj cur) \<subseteq> (successors adj)\<^sup>* `` S"
    using 2(2) by (intro deps_of_reach) simp
  with push_unseen_set [OF p] 2(2) have "seen' \<union> set queue' \<subseteq> (successors adj)\<^sup>* `` S" by auto
  from 2(1) [OF p [symmetric] refl this] p show ?case by simp
qed simp

lemma bfs_closed:
  "set queue \<subseteq> seen \<Longrightarrow> \<forall>v \<in> seen - set queue. set (deps_of adj v) \<subseteq> seen \<Longrightarrow>
   seen \<subseteq> bfs adj queue seen \<and> (\<forall>v \<in> bfs adj queue seen. set (deps_of adj v) \<subseteq> bfs adj queue seen)"
proof (induction adj queue seen rule: bfs.induct)
  case (2 adj cur queue seen)
  obtain seen' queue' where p: "push_unseen (deps_of adj cur) (seen, queue) = (seen', queue')" by fastforce
  note s = push_unseen_set [OF p]
  have q: "set queue' \<subseteq> seen'" using s 2(2) by auto
  have "\<forall>v \<in> seen' - set queue'. set (deps_of adj v) \<subseteq> seen'"
  proof
    fix v assume "v \<in> seen' - set queue'"
    with s have "v \<in> seen" "v \<notin> set queue" by auto
    with 2(3) s show "set (deps_of adj v) \<subseteq> seen'" by (cases "v = cur") fastforce+
  qed
  from 2(1) [OF p [symmetric] refl q this] p s show ?case by auto
qed auto

lemma bfs_reach: "bfs adj [v] {v} = (successors adj)\<^sup>* `` {v}"
proof
  show "bfs adj [v] {v} \<subseteq> (successors adj)\<^sup>* `` {v}" by (rule bfs_least) auto
  have c: "v \<in> bfs adj [v] {v} \<and> (\<forall>w \<in> bfs adj [v] {v}. set (deps_of adj w) \<subseteq> bfs adj [v] {v})"
    using bfs_closed [of "[v]" "{v}" adj] by auto
  show "(successors adj)\<^sup>* `` {v} \<subseteq> bfs adj [v] {v}"
    using c closed_rtrancl [of "bfs adj [v] {v}" adj v] by auto
qed

end
