(* ===== verification/Governance.thy ===== *)
theory Governance
  imports Graph_Reach
begin

text \<open>
  Declarative pipeline configuration (\<^verbatim>\<open>internal/governance\<close>): the configuration record and its
  accessors (\<^verbatim>\<open>config.go\<close>), the structural checks of a custom pipeline graph (\<^verbatim>\<open>dag.go\<close>) and the
  validation of a whole configuration (\<^verbatim>\<open>validate.go\<close>). The JSON schema validator is a third-party
  package: its verdict on a section is a parameter. The orders of the two ranges over maps are
  parameters too.
\<close>

section \<open>Configuration\<close>

record skip_when =
  sw_label :: string

record step_override =
  so_id :: string
  so_enabled :: "bool option"
  so_skip_when :: "skip_when option"
  so_depends_on :: "string list option"

record pipeline =
  pl_extends :: string
  pl_steps :: "step_override list"

record dor_policy =
  dor_disabled :: bool
  dor_require_acceptance_criteria :: "bool option"

record policies =
  po_routing :: "(string \<times> string) list"
  po_review_harness :: string
  po_max_review_fix_cycles :: "int option"
  po_dor :: "dor_policy option"

record gov_config =
  gc_version :: int
  gc_pipeline :: "pipeline option"
  gc_policies :: "policies option"

definition CurrentVersion :: int where "CurrentVersion = 1"

text \<open>The accessors take a pointer: \<open>None\<close> is the \<^verbatim>\<open>nil\<close> configuration.\<close>

definition IsDorDisabled :: "gov_config option \<Rightarrow> bool" where
  "IsDorDisabled c =
     (case c of None \<Rightarrow> False
      | Some cfg \<Rightarrow> (case gc_policies cfg of None \<Rightarrow> False
          | Some p \<Rightarrow> (case po_dor p of None \<Rightarrow> False | Some d \<Rightarrow> dor_disabled d)))"

definition override_matches :: "string list \<Rightarrow> string \<Rightarrow> step_override \<Rightarrow> bool" where
  "override_matches labels stepID so =
     (if so_id so \<noteq> stepID then False
      else (case so_skip_when so of
              None \<Rightarrow> False
            | Some w \<Rightarrow> sw_label w \<noteq> '''' \<and> list_ex (\<lambda>l. equal_fold (trim_space l) (sw_label w)) labels))"

definition ShouldSkipStepForLabels :: "gov_config option \<Rightarrow> string \<Rightarrow> string list \<Rightarrow> bool" where
  "ShouldSkipStepForLabels c stepID labels =
     (case c of None \<Rightarrow> False
      | Some cfg \<Rightarrow> (case gc_pipeline cfg of None \<Rightarrow> False
          | Some p \<Rightarrow> list_ex (override_matches labels stepID) (pl_steps p)))"

definition IsStepDisabled :: "gov_config option \<Rightarrow> string \<Rightarrow> bool" where
  "IsStepDisabled c stepID =
     (case c of None \<Rightarrow> False
      | Some cfg \<Rightarrow> (case gc_pipeline cfg of None \<Rightarrow> False
          | Some p \<Rightarrow> list_ex (\<lambda>so. so_id so = stepID \<and> so_enabled so = Some False) (pl_steps p)))"

definition RoutingOverride :: "gov_config option \<Rightarrow> string \<Rightarrow> string option" where
  "RoutingOverride c stepID =
     (case c of None \<Rightarrow> None
      | Some cfg \<Rightarrow> (case gc_policies cfg of None \<Rightarrow> None | Some p \<Rightarrow> map_of (po_routing p) stepID))"

definition MaxReviewFixCyclesOverride :: "gov_config option \<Rightarrow> int option" where
  "MaxReviewFixCyclesOverride c =
     (case c of None \<Rightarrow> None
      | Some cfg \<Rightarrow> (case gc_policies cfg of None \<Rightarrow> None | Some p \<Rightarrow> po_max_review_fix_cycles p))"

definition ReviewHarnessOverride :: "gov_config option \<Rightarrow> string option" where
  "ReviewHarnessOverride c =
     (case c of None \<Rightarrow> None
      | Some cfg \<Rightarrow> (case gc_policies cfg of None \<Rightarrow> None
          | Some p \<Rightarrow> if po_review_harness p = '''' then None else Some (po_review_harness p)))"

section \<open>Structural checks\<close>

record step_spec =
  ss_id :: string
  ss_depends_on :: "string list"

datatype gov_error =
    UnresolvedDependency string string
  | CycleAt string
  | NoEntryStep
  | MultipleEntrySteps "string list"
  | UnreachableStep string
  | DeadEndStep string
  | UnsupportedVersion int
  | InvalidConfigJSON string
  | SchemaViolation string string

text \<open>\<^verbatim>\<open>byID\<close>: the last step with an id wins.\<close>

definition by_id :: "step_spec list \<Rightarrow> string adj" where
  "by_id steps = fold (\<lambda>s. AList.update (ss_id s) (ss_depends_on s)) steps []"

definition checkDepsResolve :: "step_spec list \<Rightarrow> string adj \<Rightarrow> gov_error list" where
  "checkDepsResolve steps byID =
     concat (map (\<lambda>s. map (UnresolvedDependency (ss_id s))
                        (filter (\<lambda>dep. map_of byID dep = None) (ss_depends_on s))) steps)"

definition checkAcyclic :: "step_spec list \<Rightarrow> string adj \<Rightarrow> gov_error option" where
  "checkAcyclic steps byID =
     (case search_all byID (map ss_id steps) (\<lambda>_. White) of
        Inl (start, cycleStep) \<Rightarrow> Some (CycleAt cycleStep)
      | Inr c \<Rightarrow> None)"

definition findEntries :: "step_spec list \<Rightarrow> string list" where
  "findEntries steps = map ss_id (filter (\<lambda>s. ss_depends_on s = []) steps)"

fun checkSingleEntry :: "string list \<Rightarrow> gov_error list" where
  "checkSingleEntry [e] = []"
| "checkSingleEntry [] = [NoEntryStep]"
| "checkSingleEntry entries = [MultipleEntrySteps entries]"

definition add_dependents :: "string \<times> string list \<Rightarrow> string adj \<Rightarrow> string adj" where
  "add_dependents entry m =
     fold (\<lambda>dep m. AList.update dep (deps_of m dep @ [fst entry]) m) (snd entry) m"

definition reachableFrom ::
  "((string \<times> string list) list \<Rightarrow> (string \<times> string list) list) \<Rightarrow> string \<Rightarrow> string adj \<Rightarrow> string set" where
  "reachableFrom ordE entry byID =
     bfs (fold add_dependents (ordE byID) []) [entry] {entry}"

definition checkReachability :: "step_spec list \<Rightarrow> string set \<Rightarrow> gov_error list" where
  "checkReachability steps reachable =
     map UnreachableStep (filter (\<lambda>i. i \<notin> reachable) (map ss_id steps))"

definition findTerminals :: "step_spec list \<Rightarrow> string list" where
  "findTerminals steps =
     (let hasDependent = concat (map ss_depends_on steps)
      in remdups (filter (\<lambda>i. i \<notin> set hasDependent) (map ss_id steps)))"

definition checkNoDeadEnds ::
  "(string list \<Rightarrow> string list) \<Rightarrow> step_spec list \<Rightarrow> string adj \<Rightarrow> string list \<Rightarrow> gov_error list" where
  "checkNoDeadEnds ordS steps byID terminals =
     (let canReach = mark_from byID (ordS terminals) {}
      in map DeadEndStep (filter (\<lambda>i. i \<notin> canReach) (map ss_id steps)))"

definition gov_ValidateDAG ::
  "((string \<times> string list) list \<Rightarrow> (string \<times> string list) list) \<Rightarrow> (string list \<Rightarrow> string list) \<Rightarrow>
   step_spec list \<Rightarrow> gov_error list" where
  "gov_ValidateDAG ordE ordS steps =
     (if steps = [] then []
      else (let byID = by_id steps;
                errs = checkDepsResolve steps byID
            in if errs \<noteq> [] then errs
               else (case checkAcyclic steps byID of
                       Some cyc \<Rightarrow> [cyc]
                     | None \<Rightarrow>
                         (let entries = findEntries steps;
                              errs1 = checkSingleEntry entries
                          in if length entries \<noteq> 1 then errs1
                             else errs1 @
                               checkReachability steps (reachableFrom ordE (hd entries) byID) @
                               checkNoDeadEnds ordS steps byID (findTerminals steps)))))"

section \<open>Validation of a configuration\<close>

text \<open>
  A violation as the schema package reports it: where, what, and the causes; any other error of the
  package has only a text. The raw column, by what decoding makes of it: absent (no bytes or
  \<^verbatim>\<open>null\<close>), not an object, an object that does not decode into a \<^verbatim>\<open>Config\<close>, or a configuration with
  the raw values of its two sections.
\<close>

datatype schema_violation =
    Violation string string "schema_violation list"

datatype schema_verdict = SchemaOK | SchemaFails schema_violation | SchemaError string

datatype pipeline_raw =
    RawAbsent
  | RawNotObject string
  | RawMisfit string
  | RawConfig gov_config "goval option" "goval option"

fun flattenSchemaErrors :: "string \<Rightarrow> schema_violation \<Rightarrow> gov_error list" where
  "flattenSchemaErrors pre (Violation loc msg causes) =
     (if causes = []
      then [SchemaViolation (if loc \<noteq> '''' then pre @ loc else pre) msg]
      else concat (map (flattenSchemaErrors pre) causes))"

definition validateAgainstSchema ::
  "(goval \<Rightarrow> schema_verdict) \<Rightarrow> string \<Rightarrow> goval \<Rightarrow> gov_error list" where
  "validateAgainstSchema validate pre raw =
     (case validate raw of
        SchemaOK \<Rightarrow> []
      | SchemaFails v \<Rightarrow> flattenSchemaErrors pre v
      | SchemaError msg \<Rightarrow> [SchemaViolation pre msg])"

definition isFullCustomGraph :: "pipeline \<Rightarrow> bool" where
  "isFullCustomGraph p =
     (if pl_extends p \<noteq> '''' \<or> pl_steps p = [] then False
      else list_all (\<lambda>s. so_depends_on s \<noteq> None) (pl_steps p))"

definition custom_specs :: "pipeline \<Rightarrow> step_spec list" where
  "custom_specs p =
     map (\<lambda>s. \<lparr>ss_id = so_id s, ss_depends_on = or_zero [] (so_depends_on s)\<rparr>) (pl_steps p)"

definition section_errors :: "(goval \<Rightarrow> schema_verdict) \<Rightarrow> string \<Rightarrow> goval option \<Rightarrow> gov_error list" where
  "section_errors validate pre raw =
     (case raw of None \<Rightarrow> [] | Some v \<Rightarrow> validateAgainstSchema validate pre v)"

definition ValidateConfig ::
  "((string \<times> string list) list \<Rightarrow> (string \<times> string list) list) \<Rightarrow> (string list \<Rightarrow> string list) \<Rightarrow>
   (goval \<Rightarrow> schema_verdict) \<Rightarrow> (goval \<Rightarrow> schema_verdict) \<Rightarrow> pipeline_raw \<Rightarrow>
   gov_config option \<times> gov_error list" where
  "ValidateConfig ordE ordS pipelineSchema policiesSchema raw =
     (case raw of
        RawAbsent \<Rightarrow> (None, [])
      | RawNotObject msg \<Rightarrow> (None, [InvalidConfigJSON msg])
      | RawMisfit msg \<Rightarrow> (None, [InvalidConfigJSON msg])
      | RawConfig cfg pipelineRaw policiesRaw \<Rightarrow>
          (let errs =
             (if gc_version cfg \<noteq> CurrentVersion then [UnsupportedVersion (gc_version cfg)] else []) @
             section_errors pipelineSchema ''pipeline'' pipelineRaw @
             section_errors policiesSchema ''policies'' policiesRaw @
             (case gc_pipeline cfg of
                None \<Rightarrow> []
              | Some p \<Rightarrow>
                  if isFullCustomGraph p then gov_ValidateDAG ordE ordS (custom_specs p) else [])
           in if errs \<noteq> [] then (None, errs) else (Some cfg, [])))"

section \<open>The map of steps\<close>

lemma map_of_by_id_fold:
  "map_of (fold (\<lambda>s. AList.update (ss_id s) (ss_depends_on s)) steps m) =
   fold (\<lambda>s f. f(ss_id s \<mapsto> ss_depends_on s)) steps (map_of m)"
  by (induction steps arbitrary: m) (simp_all add: update_conv')

lemma keys_by_id_fold:
  "fst ` set (fold (\<lambda>s. AList.update (ss_id s) (ss_depends_on s)) steps m) =
   fst ` set m \<union> ss_id ` set steps"
  by (induction steps arbitrary: m) (auto simp: dom_update [unfolded dom_map_of_conv_image_fst])

lemma keys_by_id [simp]: "fst ` set (by_id steps) = ss_id ` set steps"
  by (simp add: by_id_def keys_by_id_fold)

lemma map_of_by_id_None [simp]: "map_of (by_id steps) i = None \<longleftrightarrow> i \<notin> ss_id ` set steps"
  by (simp add: map_of_eq_None_iff)

lemma fold_upd_other:
  "i \<notin> ss_id ` set steps \<Longrightarrow> fold (\<lambda>s f. f(ss_id s \<mapsto> ss_depends_on s)) steps f i = f i"
  by (induction steps arbitrary: f) auto

lemma fold_upd_distinct:
  "distinct (map ss_id steps) \<Longrightarrow> s \<in> set steps \<Longrightarrow>
   fold (\<lambda>s f. f(ss_id s \<mapsto> ss_depends_on s)) steps f (ss_id s) = Some (ss_depends_on s)"
  by (induction steps arbitrary: f) (auto simp: fold_upd_other)

lemma deps_of_by_id:
  "distinct (map ss_id steps) \<Longrightarrow> s \<in> set steps \<Longrightarrow> deps_of (by_id steps) (ss_id s) = ss_depends_on s"
  by (simp add: deps_of_def by_id_def map_of_by_id_fold fold_upd_distinct)

lemma distinct_by_id: "distinct (map fst (by_id steps))"
proof -
  have "distinct (map fst m) \<Longrightarrow>
      distinct (map fst (fold (\<lambda>s. AList.update (ss_id s) (ss_depends_on s)) steps m))" for m
    by (induction steps arbitrary: m) (simp_all add: distinct_update)
  then show ?thesis by (simp add: by_id_def)
qed

lemma checkDepsResolve_Nil:
  "checkDepsResolve steps (by_id steps) = [] \<longleftrightarrow>
   (\<forall>s \<in> set steps. set (ss_depends_on s) \<subseteq> ss_id ` set steps)"
  by (auto simp: checkDepsResolve_def filter_empty_conv)

lemma checkAcyclic_None:
  "checkAcyclic steps (by_id steps) = None \<longleftrightarrow>
   acyclic_deps (ss_id ` set steps) (deps_of (by_id steps))"
proof -
  have "is_err (search_all (by_id steps) (map ss_id steps) (\<lambda>_. White)) \<longleftrightarrow>
      \<not> acyclic_deps (set (map ss_id steps)) (deps_of (by_id steps))"
    by (rule search_all_acyclic) simp
  then show ?thesis by (auto simp: checkAcyclic_def split: sum.splits)
qed

text \<open>The depth-first check satisfies the contract of a cycle check.\<close>

interpretation gov: cycle_checker
  "\<lambda>steps. ss_id ` set steps" "\<lambda>steps. deps_of (by_id steps)"
  "\<lambda>steps. checkAcyclic steps (by_id steps) = None"
  by unfold_locales (simp_all add: checkAcyclic_None)

section \<open>The map of dependents\<close>

lemma deps_of_update: "deps_of (AList.update k v m) x = (if x = k then v else deps_of m x)"
  by (simp add: deps_of_def update_conv)

lemma deps_of_add:
  "set (deps_of (add_dependents (i, ds) m) d) = set (deps_of m d) \<union> (if d \<in> set ds then {i} else {})"
  unfolding add_dependents_def
  by (induction ds arbitrary: m) (auto simp: deps_of_update)

lemma deps_of_dependents:
  "set (deps_of (fold add_dependents es m) d) =
   set (deps_of m d) \<union> {i. \<exists>ds. (i, ds) \<in> set es \<and> d \<in> set ds}"
proof (induction es arbitrary: m)
  case (Cons e es)
  obtain i ds where e: "e = (i, ds)" by fastforce
  show ?case by (auto simp: Cons e deps_of_add)
qed simp

lemma dependents_by_id:
  assumes "distinct (map ss_id steps)" and "permuting ordE"
  shows "set (deps_of (fold add_dependents (ordE (by_id steps)) []) d) =
    {i \<in> ss_id ` set steps. d \<in> set (deps_of (by_id steps) i)}"
proof -
  have entry: "(i, ds) \<in> set (by_id steps) \<longleftrightarrow> map_of (by_id steps) i = Some ds" for i ds
    using distinct_by_id by (metis map_of_eq_Some_iff)
  have known: "i \<in> ss_id ` set steps" if "map_of (by_id steps) i = Some ds" for i ds
    using that map_of_by_id_None [of steps i] by (metis option.distinct(1))
  have "i \<in> set (deps_of (fold add_dependents (ordE (by_id steps)) []) d) \<longleftrightarrow>
      i \<in> ss_id ` set steps \<and> d \<in> set (deps_of (by_id steps) i)" for i
  proof -
    have "i \<in> set (deps_of (fold add_dependents (ordE (by_id steps)) []) d) \<longleftrightarrow>
        (\<exists>ds. map_of (by_id steps) i = Some ds \<and> d \<in> set ds)"
      using assms(2) by (simp add: deps_of_dependents entry) (simp add: deps_of_def)
    also have "\<dots> \<longleftrightarrow> i \<in> ss_id ` set steps \<and> d \<in> set (deps_of (by_id steps) i)"
    proof (cases "map_of (by_id steps) i")
      case (Some ds)
      with known [OF Some] show ?thesis by (simp add: deps_of_def)
    qed (simp add: deps_of_def del: map_of_by_id_None)
    finally show ?thesis .
  qed
  then show ?thesis by blast
qed

section \<open>The checks behind the entry check never fire\<close>

definition sound_graph :: "step_spec list \<Rightarrow> bool" where
  "sound_graph steps \<longleftrightarrow>
     distinct (map ss_id steps) \<and>
     (\<forall>s \<in> set steps. set (ss_depends_on s) \<subseteq> ss_id ` set steps) \<and>
     acyclic_deps (ss_id ` set steps) (deps_of (by_id steps))"

lemma sound_graphD:
  "sound_graph steps \<Longrightarrow> distinct (map ss_id steps)"
  "sound_graph steps \<Longrightarrow> s \<in> set steps \<Longrightarrow> set (ss_depends_on s) \<subseteq> ss_id ` set steps"
  "sound_graph steps \<Longrightarrow> acyclic_deps (ss_id ` set steps) (deps_of (by_id steps))"
  by (simp_all add: sound_graph_def)

lemma dep_closed:
  "sound_graph steps \<Longrightarrow> i \<in> ss_id ` set steps \<Longrightarrow> set (deps_of (by_id steps) i) \<subseteq> ss_id ` set steps"
  using deps_of_by_id [OF sound_graphD(1)] sound_graphD(2) by fastforce

lemma finite_rel: "sound_graph steps \<Longrightarrow> finite (dep_rel (ss_id ` set steps) (deps_of (by_id steps)))"
  by (rule finite_subset [of _ "(ss_id ` set steps) \<times> (ss_id ` set steps)"])
     (use dep_closed [of steps] in \<open>auto simp: dep_rel_def\<close>)

lemma every_step_reachable:
  assumes sound: "sound_graph steps" and perm: "permuting ordE"
    and "findEntries steps = [e]" and "i \<in> ss_id ` set steps"
  shows "i \<in> reachableFrom ordE e (by_id steps)"
proof -
  let ?D = "fold add_dependents (ordE (by_id steps)) []"
  have "wf (dep_rel (ss_id ` set steps) (deps_of (by_id steps)))"
    using sound_graphD(3) [OF sound] finite_rel [OF sound] by (simp add: acyclic_deps_def finite_acyclic_wf)
  then have "i \<in> ss_id ` set steps \<longrightarrow> (e, i) \<in> (successors ?D)\<^sup>*"
  proof (induction i rule: wf_induct_rule)
    case (less i)
    show ?case
    proof
      assume i: "i \<in> ss_id ` set steps"
      then obtain s where s: "s \<in> set steps" "i = ss_id s" by auto
      show "(e, i) \<in> (successors ?D)\<^sup>*"
      proof (cases "ss_depends_on s")
        case Nil
        with s have "i \<in> set (findEntries steps)" by (auto simp: findEntries_def)
        with assms(3) show ?thesis by simp
      next
        case (Cons d ds)
        with deps_of_by_id [OF sound_graphD(1) [OF sound] s(1)] s(2) have d: "d \<in> set (deps_of (by_id steps) i)" by simp
        then have "d \<in> ss_id ` set steps" using dep_closed [OF sound i] by blast
        with less d i have "(e, d) \<in> (successors ?D)\<^sup>*" by simp
        moreover have "(d, i) \<in> successors ?D"
          using dependents_by_id [OF sound_graphD(1) [OF sound] perm] d i by simp
        ultimately show ?thesis by (rule rtrancl_into_rtrancl)
      qed
    qed
  qed
  with assms(4) show ?thesis unfolding reachableFrom_def bfs_reach by blast
qed

lemma every_step_reaches_end:
  assumes sound: "sound_graph steps" and perm: "permuting ordS" and "i \<in> ss_id ` set steps"
  shows "i \<in> mark_from (by_id steps) (ordS (findTerminals steps)) {}"
proof -
  let ?N = "ss_id ` set steps" and ?adj = "by_id steps"
  have "wf ((dep_rel ?N (deps_of ?adj))\<inverse>)"
    using sound_graphD(3) [OF sound] finite_rel [OF sound] by (simp add: acyclic_deps_def finite_acyclic_wf_converse)
  then have "i \<in> ?N \<longrightarrow> i \<in> (successors ?adj)\<^sup>* `` set (findTerminals steps)"
  proof (induction i rule: wf_induct_rule)
    case (less i)
    show ?case
    proof
      assume i: "i \<in> ?N"
      show "i \<in> (successors ?adj)\<^sup>* `` set (findTerminals steps)"
      proof (cases "\<exists>s \<in> set steps. i \<in> set (ss_depends_on s)")
        case False
        with i have "i \<in> set (findTerminals steps)" by (auto simp: findTerminals_def Let_def)
        then show ?thesis by blast
      next
        case True
        then obtain s where s: "s \<in> set steps" "i \<in> set (ss_depends_on s)" by blast
        with deps_of_by_id [OF sound_graphD(1) [OF sound]] have d: "i \<in> set (deps_of ?adj (ss_id s))" by simp
        with s(1) less have "ss_id s \<in> (successors ?adj)\<^sup>* `` set (findTerminals steps)" by simp
        from deps_of_reach [OF this] d show ?thesis by blast
      qed
    qed
  qed
  with assms(3) perm show ?thesis by (simp add: mark_from_reach)
qed

lemma later_checks_silent:
  assumes "sound_graph steps" and "permuting ordE" and "permuting ordS" and "findEntries steps = [e]"
  shows "checkReachability steps (reachableFrom ordE e (by_id steps)) = []"
    and "checkNoDeadEnds ordS steps (by_id steps) (findTerminals steps) = []"
  using every_step_reachable [OF assms(1,2,4)] every_step_reaches_end [OF assms(1,3)]
  by (auto simp: checkReachability_def checkNoDeadEnds_def filter_empty_conv)

lemma checkSingleEntry_Nil: "checkSingleEntry es = [] \<longleftrightarrow> length es = 1"
  by (cases es rule: checkSingleEntry.cases) auto

lemma gov_ValidateDAG_Nil:
  assumes "distinct (map ss_id steps)" and "permuting ordE" and "permuting ordS" and "steps \<noteq> []"
  shows "gov_ValidateDAG ordE ordS steps = [] \<longleftrightarrow>
    (\<forall>s \<in> set steps. set (ss_depends_on s) \<subseteq> ss_id ` set steps) \<and>
    acyclic_deps (ss_id ` set steps) (deps_of (by_id steps)) \<and> length (findEntries steps) = 1"
proof (cases "checkDepsResolve steps (by_id steps) = [] \<and> checkAcyclic steps (by_id steps) = None")
  case True
  then have r: "\<forall>s \<in> set steps. set (ss_depends_on s) \<subseteq> ss_id ` set steps"
    and a: "acyclic_deps (ss_id ` set steps) (deps_of (by_id steps))"
    by (simp_all add: checkDepsResolve_Nil checkAcyclic_None)
  show ?thesis
  proof (cases "length (findEntries steps) = 1")
    case one: True
    then obtain e where e: "findEntries steps = [e]" by (auto simp: length_Suc_conv)
    have "sound_graph steps" using assms(1) r a by (simp add: sound_graph_def)
    from later_checks_silent [OF this assms(2,3) e] True r a e assms(4) show ?thesis
      by (simp add: gov_ValidateDAG_def)
  next
    case False
    with True assms(4) show ?thesis
      using checkSingleEntry_Nil [of "findEntries steps"] by (simp add: gov_ValidateDAG_def)
  qed
next
  case False
  with assms(4) have "gov_ValidateDAG ordE ordS steps \<noteq> []"
    by (auto simp: gov_ValidateDAG_def Let_def split: option.splits)
  with False show ?thesis unfolding checkDepsResolve_Nil checkAcyclic_None by blast
qed

section \<open>Properties\<close>

text \<open>
  On a custom graph without repeated ids the five structural checks accept exactly the graphs
  whose dependencies resolve, have no cycle, and leave exactly one step without dependencies: in
  such a graph every step is reachable and reaches a terminal step.
\<close>
theorem gov_ValidateDAG_exact:
  assumes "distinct (map ss_id steps)" and "permuting ordE" and "permuting ordS"
  shows "gov_ValidateDAG ordE ordS steps = [] \<longleftrightarrow>
    steps = [] \<or>
    (\<forall>s \<in> set steps. set (ss_depends_on s) \<subseteq> ss_id ` set steps) \<and>
    acyclic {(d, ss_id s) | d s. s \<in> set steps \<and> d \<in> set (ss_depends_on s)} \<and>
    (\<exists>!s. s \<in> set steps \<and> ss_depends_on s = [])"
proof (cases "steps = []")
  case True
  then show ?thesis by (simp add: gov_ValidateDAG_def)
next
  case False
  have "dep_rel (ss_id ` set steps) (deps_of (by_id steps)) =
      {(d, ss_id s) | d s. s \<in> set steps \<and> d \<in> set (ss_depends_on s)}"
    using deps_of_by_id [OF assms(1)] by (fastforce simp: dep_rel_def)
  moreover have "length (findEntries steps) = 1 \<longleftrightarrow> (\<exists>!s. s \<in> set steps \<and> ss_depends_on s = [])"
  proof -
    let ?F = "filter (\<lambda>s. ss_depends_on s = []) steps"
    have d: "distinct ?F" using assms(1) by (simp add: distinct_map)
    then have "length ?F = card (set ?F)" by (rule distinct_card [symmetric])
    then have "length (findEntries steps) = card {s \<in> set steps. ss_depends_on s = []}"
      by (simp add: findEntries_def)
    moreover have "card {s \<in> set steps. ss_depends_on s = []} = 1 \<longleftrightarrow>
        (\<exists>!s. s \<in> set steps \<and> ss_depends_on s = [])"
      by (simp only: One_nat_def card_1_singleton_iff set_eq_iff mem_Collect_eq singleton_iff) metis
    ultimately show ?thesis by simp
  qed
  ultimately show ?thesis
    using gov_ValidateDAG_Nil [OF assms False] False by (simp add: acyclic_deps_def)
qed

theorem gov_ValidateDAG_exact_witness:
  "gov_ValidateDAG (\<lambda>x. x) (\<lambda>x. x)
     [\<lparr>ss_id = ''a'', ss_depends_on = []\<rparr>, \<lparr>ss_id = ''b'', ss_depends_on = []\<rparr>] \<noteq> []"
proof -
  let ?a = "\<lparr>ss_id = ''a'', ss_depends_on = []\<rparr>" and ?b = "\<lparr>ss_id = ''b'', ss_depends_on = []\<rparr>"
  have "distinct (map ss_id [?a, ?b])" by simp
  note e = gov_ValidateDAG_exact [OF this permuting_id(1) permuting_id(1)]
  have two: "?a \<in> set [?a, ?b] \<and> ss_depends_on ?a = []" "?b \<in> set [?a, ?b] \<and> ss_depends_on ?b = []" "?a \<noteq> ?b"
    by simp_all
  have "\<not> (\<exists>!s. s \<in> set [?a, ?b] \<and> ss_depends_on s = [])" using two by blast
  with e show ?thesis by blast
qed

lemma flattenSchemaErrors_ne: "flattenSchemaErrors pre v \<noteq> []"
proof (induction pre v rule: flattenSchemaErrors.induct)
  case (1 pre loc msg causes)
  then show ?case by (cases causes) auto
qed

lemma section_errors_Nil:
  "section_errors validate pre raw = [] \<longleftrightarrow> (\<forall>v. raw = Some v \<longrightarrow> validate v = SchemaOK)"
  by (auto simp: section_errors_def validateAgainstSchema_def flattenSchemaErrors_ne
      split: option.splits schema_verdict.splits)

text \<open>
  A configuration is accepted only with the version of this build and with each section present
  passing its schema; and when it declares a graph of its own, without repeated ids, that graph is
  non-empty, acyclic and has exactly one entry.
\<close>
theorem ValidateConfig_accepts:
  assumes "permuting ordE" and "permuting ordS"
    and "ValidateConfig ordE ordS pipelineSchema policiesSchema (RawConfig cfg pr pl) = (Some cfg', errs)"
  shows "cfg' = cfg \<and> errs = [] \<and> gc_version cfg = CurrentVersion \<and>
    (\<forall>v. pr = Some v \<longrightarrow> pipelineSchema v = SchemaOK) \<and>
    (\<forall>v. pl = Some v \<longrightarrow> policiesSchema v = SchemaOK) \<and>
    (\<forall>p. gc_pipeline cfg = Some p \<and> isFullCustomGraph p \<and> distinct (map so_id (pl_steps p)) \<longrightarrow>
       acyclic_deps (so_id ` set (pl_steps p)) (deps_of (by_id (custom_specs p))) \<and>
       length (findEntries (custom_specs p)) = 1)"
proof -
  from assms(3) have r: "cfg' = cfg" "errs = []" "gc_version cfg = CurrentVersion"
    "section_errors pipelineSchema ''pipeline'' pr = []" "section_errors policiesSchema ''policies'' pl = []"
    and g: "\<forall>p. gc_pipeline cfg = Some p \<and> isFullCustomGraph p \<longrightarrow>
      gov_ValidateDAG ordE ordS (custom_specs p) = []"
    by (auto simp: ValidateConfig_def Let_def split: if_splits option.splits)
  have "acyclic_deps (so_id ` set (pl_steps p)) (deps_of (by_id (custom_specs p))) \<and>
      length (findEntries (custom_specs p)) = 1"
    if p: "gc_pipeline cfg = Some p" "isFullCustomGraph p" "distinct (map so_id (pl_steps p))" for p
  proof -
    have ids: "map ss_id (custom_specs p) = map so_id (pl_steps p)" by (simp add: custom_specs_def)
    have ne: "custom_specs p \<noteq> []" using p(2) by (auto simp: custom_specs_def isFullCustomGraph_def)
    have "distinct (map ss_id (custom_specs p))" using p(3) ids by simp
    from gov_ValidateDAG_Nil [OF this assms(1,2) ne] g p(1,2) ids show ?thesis
      by (metis list.set_map)
  qed
  with r show ?thesis by (simp add: section_errors_Nil)
qed

definition demo_config :: gov_config where
  "demo_config =
     \<lparr>gc_version = 1,
      gc_pipeline = Some \<lparr>pl_extends = '''',
        pl_steps = [\<lparr>so_id = ''a'', so_enabled = None, so_skip_when = None, so_depends_on = Some []\<rparr>,
                    \<lparr>so_id = ''b'', so_enabled = None, so_skip_when = None, so_depends_on = Some [''a'']\<rparr>]\<rparr>,
      gc_policies = None\<rparr>"

theorem ValidateConfig_accepts_witness:
  "acyclic_deps {''a'', ''b''} (deps_of [(''a'', []), (''b'', [''a''])])"
proof -
  have "snd (ValidateConfig (\<lambda>x. x) (\<lambda>x. x) (\<lambda>v. SchemaOK) (\<lambda>v. SchemaOK) (RawConfig demo_config None None)) = []"
    by code_simp
  then have v: "ValidateConfig (\<lambda>x. x) (\<lambda>x. x) (\<lambda>v. SchemaOK) (\<lambda>v. SchemaOK) (RawConfig demo_config None None) =
      (Some demo_config, [])"
    by (simp add: ValidateConfig_def Let_def split: if_splits)
  have "by_id (custom_specs (the (gc_pipeline demo_config))) = [(''a'', []), (''b'', [''a''])]" by code_simp
  with ValidateConfig_accepts [OF permuting_id(1) permuting_id(1) v] show ?thesis
    by (simp add: demo_config_def isFullCustomGraph_def)
qed

end
