(* ===== verification/Policy.thy ===== *)
theory Policy
  imports Graph_Search Status_Machines
begin

text \<open>
  Package \<^verbatim>\<open>policy\<close>: the spec review gate (\<^verbatim>\<open>review_policy.go\<close>) and the check of an execution plan
  (\<^verbatim>\<open>scheduler_policy.go\<close>). Costs are the rationals the source writes; a \<^verbatim>\<open>float64\<close> rounds the
  product with 1.2.
\<close>

section \<open>The spec gate\<close>

definition MaxClarificationRounds :: int where "MaxClarificationRounds = 2"

definition IsDefinitionOfReadyBypassed :: "string list \<Rightarrow> int \<Rightarrow> bool" where
  "IsDefinitionOfReadyBypassed labels priorClarificationRounds =
     (if priorClarificationRounds \<ge> MaxClarificationRounds then True
      else list_ex (\<lambda>l. equal_fold (trim_space l) ''hotfix'') labels)"

definition RequiresSpecReview :: "task option \<Rightarrow> project option \<Rightarrow> bool" where
  "RequiresSpecReview t p =
     (case Option.bind t t_require_spec_review of
        Some b \<Rightarrow> b
      | None \<Rightarrow> (case p of Some pr \<Rightarrow> p_require_spec_review pr | None \<Rightarrow> False))"

definition ResolveSpecGate :: "task option \<Rightarrow> project option \<Rightarrow> bool \<Rightarrow> int \<Rightarrow> string \<times> string" where
  "ResolveSpecGate t p hasClarifications priorRounds =
     (let labels = (case t of Some tk \<Rightarrow> t_labels tk | None \<Rightarrow> [])
      in if hasClarifications \<and> IsDefinitionOfReadyBypassed labels priorRounds
           then (TaskSpecStatusReadyWithWarnings, TaskStatusCoding)
         else if hasClarifications
           then (TaskSpecStatusClarificationRequired, TaskStatusSpecReview)
         else if RequiresSpecReview t p
           then (TaskSpecStatusPendingReview, TaskStatusSpecReview)
         else (TaskSpecStatusAutoApproved, TaskStatusCoding))"

section \<open>The cost of a unit\<close>

definition mentions :: "string \<Rightarrow> string list \<Rightarrow> bool" where
  "mentions lower words = list_ex (str_contains lower) words"

definition task_cost :: "string \<Rightarrow> rat" where
  "task_cost text =
     (let lower = to_lower text
      in if mentions lower [''migration'', ''db schema'', ''database schema''] then 5
         else if mentions lower [''config'', ''go.mod'', ''package.json'', ''dependency'', ''dependencies''] then 3
         else if mentions lower [''create'', ''add '', ''new ''] then 2
         else if mentions lower [''test'', ''spec'', ''mock''] then 1
         else if mentions lower [''modify'', ''update'', ''edit'', ''refactor'', ''fix''] then 1
         else 1)"

definition risk_factor :: "string \<Rightarrow> rat" where
  "risk_factor risk =
     (let r = to_lower risk
      in if r = ''medium'' then 12 / 10 else if r = ''high'' \<or> r = ''critical'' then 15 / 10 else 1)"

definition CalculateUnitCost :: "execution_unit \<Rightarrow> rat" where
  "CalculateUnitCost u =
     (let base = sum_list (map task_cost (unit_tasks u));
          files = max_files (unit_constraints u);
          total = (if files > 0 then base + of_int files * (1 / 2) else base)
      in total * risk_factor (max_risk (unit_constraints u)))"

section \<open>The check of a plan\<close>

datatype plan_err =
    CostExceeded string rat rat
  | CyclicPlan string

text \<open>
  \<^verbatim>\<open>adj\<close> maps a unit to its dependencies. The visitor skips a dependency that is no unit of the plan;
  the model leaves those out of the adjacency it searches, which visits the same nodes in the same
  order.
\<close>

definition unit_adj :: "execution_unit list \<Rightarrow> string adj" where
  "unit_adj units =
     fold (\<lambda>u m. fold (\<lambda>dep m. AList.update (unit_id u) (deps_of m (unit_id u) @ [dep]) m)
                    (unit_dependencies u) m) units []"

definition known_adj :: "execution_unit list \<Rightarrow> string adj" where
  "known_adj units =
     (let allNodes = remdups (map unit_id units)
      in map (\<lambda>n. (n, filter (\<lambda>d. d \<in> set allNodes) (deps_of (unit_adj units) n))) allNodes)"

definition find_plan_cycle :: "(string list \<Rightarrow> string list) \<Rightarrow> execution_unit list \<Rightarrow> plan_err option" where
  "find_plan_cycle ord units =
     (case search_all (known_adj units) (ord (remdups (map unit_id units))) (\<lambda>_. White) of
        Inl (node, _) \<Rightarrow> Some (CyclicPlan node)
      | Inr _ \<Rightarrow> None)"

definition plan_ValidateDAG ::
  "(string list \<Rightarrow> string list) \<Rightarrow> execution_unit list \<Rightarrow> rat \<Rightarrow> plan_err option" where
  "plan_ValidateDAG ord units maxCostThreshold =
     (if units = [] then None
      else (case find (\<lambda>u. CalculateUnitCost u > maxCostThreshold) units of
              Some u \<Rightarrow> Some (CostExceeded (unit_id u) (CalculateUnitCost u) maxCostThreshold)
            | None \<Rightarrow> find_plan_cycle ord units))"

section \<open>What the adjacency holds\<close>

lemma deps_of_alist_update: "deps_of (AList.update k v m) x = (if x = k then v else deps_of m x)"
  by (simp add: deps_of_def update_conv)

lemma fold_deps_one:
  "set (deps_of (fold (\<lambda>dep m. AList.update i (deps_of m i @ [dep]) m) ds m) x) =
   set (deps_of m x) \<union> (if x = i then set ds else {})"
  by (induction ds arbitrary: m) (auto simp: deps_of_alist_update)

lemma fold_deps_all:
  "set (deps_of (fold (\<lambda>u m. fold (\<lambda>dep m. AList.update (unit_id u) (deps_of m (unit_id u) @ [dep]) m)
                    (unit_dependencies u) m) units m) x) =
   set (deps_of m x) \<union> {d. \<exists>u \<in> set units. unit_id u = x \<and> d \<in> set (unit_dependencies u)}"
  by (induction units arbitrary: m) (auto simp: fold_deps_one)

lemma unit_adj_deps:
  "set (deps_of (unit_adj units) x) = {d. \<exists>u \<in> set units. unit_id u = x \<and> d \<in> set (unit_dependencies u)}"
  by (simp add: unit_adj_def fold_deps_all) (simp add: deps_of_def)

lemma map_of_map_pair: "map_of (map (\<lambda>n. (n, f n)) ns) x = (if x \<in> set ns then Some (f x) else None)"
  by (induction ns) auto

lemma deps_of_known:
  "deps_of (known_adj units) x =
   (if x \<in> unit_id ` set units
    then filter (\<lambda>d. d \<in> unit_id ` set units) (deps_of (unit_adj units) x) else [])"
proof -
  have "map_of (known_adj units) x =
      (if x \<in> unit_id ` set units
       then Some (filter (\<lambda>d. d \<in> unit_id ` set units) (deps_of (unit_adj units) x)) else None)"
    by (simp add: known_adj_def Let_def map_of_map_pair)
  then show ?thesis unfolding deps_of_def [of "known_adj units"] by simp
qed

lemma known_adj_deps:
  "set (deps_of (known_adj units) x) =
   {d \<in> unit_id ` set units. \<exists>u \<in> set units. unit_id u = x \<and> d \<in> set (unit_dependencies u)}"
proof (cases "x \<in> unit_id ` set units")
  case True
  then have "deps_of (known_adj units) x =
      filter (\<lambda>d. d \<in> unit_id ` set units) (deps_of (unit_adj units) x)"
    by (simp add: deps_of_known)
  then show ?thesis by (auto simp: unit_adj_deps)
next
  case False
  then have "deps_of (known_adj units) x = []"
    by (simp add: deps_of_known)
  with False show ?thesis by auto
qed

lemma keys_known_adj: "fst ` set (known_adj units) = unit_id ` set units"
  by (simp add: known_adj_def Let_def image_image)

lemma find_plan_cycle_None:
  assumes "permuting ord"
  shows "find_plan_cycle ord units = None \<longleftrightarrow>
    acyclic_deps (unit_id ` set units) (deps_of (known_adj units))"
proof -
  have keys: "fst ` set (known_adj units) = set (ord (remdups (map unit_id units)))"
    using assms by (simp add: keys_known_adj)
  from search_all_acyclic [OF keys] assms show ?thesis
    by (auto simp: find_plan_cycle_def split: sum.splits)
qed

interpretation plan: cycle_checker
  "\<lambda>units. unit_id ` set units" "\<lambda>units. deps_of (known_adj units)"
  "\<lambda>units. find_plan_cycle (\<lambda>x. x) units = None"
  by unfold_locales (simp_all add: find_plan_cycle_None)

section \<open>Properties\<close>

text \<open>
  The spec gate. The task goes on to coding exactly when it has open questions that a hotfix
  label or the round limit waves through, or has none and neither task nor project asks for a
  review; otherwise it waits in spec review. Whatever the gate says is a legal next status of a task
  being analyzed, and after two rounds of questions it always lets the task go on.
\<close>
theorem ResolveSpecGate_exact:
  "snd (ResolveSpecGate t p clar rounds) =
     (if (if clar then IsDefinitionOfReadyBypassed (case t of Some tk \<Rightarrow> t_labels tk | None \<Rightarrow> []) rounds
          else \<not> RequiresSpecReview t p)
      then TaskStatusCoding else TaskStatusSpecReview) \<and>
   ValidateTaskTransition TaskStatusAnalyzing (snd (ResolveSpecGate t p clar rounds)) = None \<and>
   (clar \<and> rounds \<ge> 2 \<longrightarrow> snd (ResolveSpecGate t p clar rounds) = TaskStatusCoding) \<and>
   (fst (ResolveSpecGate t p clar rounds) \<in> {TaskSpecStatusAutoApproved, TaskSpecStatusReadyWithWarnings}
      \<longleftrightarrow> snd (ResolveSpecGate t p clar rounds) = TaskStatusCoding)"
proof -
  have legal: "ValidateTaskTransition TaskStatusAnalyzing TaskStatusCoding = None"
    "ValidateTaskTransition TaskStatusAnalyzing TaskStatusSpecReview = None" by code_simp+
  have round2: "IsDefinitionOfReadyBypassed ls rounds" if "rounds \<ge> 2" for ls
    using that by (simp add: IsDefinitionOfReadyBypassed_def MaxClarificationRounds_def)
  let ?l = "case t of Some tk \<Rightarrow> t_labels tk | None \<Rightarrow> []"
  consider "clar" "IsDefinitionOfReadyBypassed ?l rounds" | "clar" "\<not> IsDefinitionOfReadyBypassed ?l rounds"
    | "\<not> clar" "RequiresSpecReview t p" | "\<not> clar" "\<not> RequiresSpecReview t p" by blast
  then show ?thesis
  proof cases
    case 1
    then have "ResolveSpecGate t p clar rounds = (TaskSpecStatusReadyWithWarnings, TaskStatusCoding)"
      by (simp add: ResolveSpecGate_def Let_def)
    with 1 legal(1) show ?thesis by simp
  next
    case 2
    then have "ResolveSpecGate t p clar rounds = (TaskSpecStatusClarificationRequired, TaskStatusSpecReview)"
      by (simp add: ResolveSpecGate_def Let_def)
    with 2 legal(2) round2 show ?thesis by auto
  next
    case 3
    then have "ResolveSpecGate t p clar rounds = (TaskSpecStatusPendingReview, TaskStatusSpecReview)"
      by (simp add: ResolveSpecGate_def Let_def)
    with 3 legal(2) show ?thesis by simp
  next
    case 4
    then have "ResolveSpecGate t p clar rounds = (TaskSpecStatusAutoApproved, TaskStatusCoding)"
      by (simp add: ResolveSpecGate_def Let_def)
    with 4 legal(1) show ?thesis by simp
  qed
qed

theorem ResolveSpecGate_exact_witness:
  "snd (ResolveSpecGate None None True 2) = TaskStatusCoding"
proof -
  have "True \<and> (2 :: int) \<ge> 2" by simp
  with ResolveSpecGate_exact [of None None True 2] show ?thesis by blast
qed

text \<open>
  An execution plan is accepted exactly when no unit costs more than the threshold and the
  dependencies between its units have no cycle; dependencies on anything else are ignored, and the
  order of the range over the units does not matter.
\<close>
theorem plan_ValidateDAG_exact:
  assumes "permuting ord"
  shows "plan_ValidateDAG ord units threshold = None \<longleftrightarrow>
    (\<forall>u \<in> set units. CalculateUnitCost u \<le> threshold) \<and>
    acyclic {(unit_id v, unit_id u) | v u. v \<in> set units \<and> u \<in> set units \<and>
      unit_id v \<in> set (unit_dependencies u)}"
proof (cases "units = []")
  case True
  then show ?thesis by (simp add: plan_ValidateDAG_def acyclic_def)
next
  case False
  have "dep_rel (unit_id ` set units) (deps_of (known_adj units)) =
      {(unit_id v, unit_id u) | v u. v \<in> set units \<and> u \<in> set units \<and> unit_id v \<in> set (unit_dependencies u)}"
    (is "?L = ?R")
  proof (rule set_eqI)
    fix e :: "string \<times> string"
    obtain d v where e: "e = (d, v)" by fastforce
    have "e \<in> ?L \<longleftrightarrow> (\<exists>x \<in> set units. d = unit_id x) \<and>
        (\<exists>u \<in> set units. v = unit_id u \<and> d \<in> set (unit_dependencies u))"
      unfolding e in_dep_rel known_adj_deps mem_Collect_eq image_iff by metis
    also have "\<dots> \<longleftrightarrow> e \<in> ?R" unfolding e by auto
    finally show "e \<in> ?L \<longleftrightarrow> e \<in> ?R" .
  qed
  with find_plan_cycle_None [OF assms, of units] have cyc: "find_plan_cycle ord units = None \<longleftrightarrow>
      acyclic {(unit_id v, unit_id u) | v u. v \<in> set units \<and> u \<in> set units \<and> unit_id v \<in> set (unit_dependencies u)}"
    by (simp add: acyclic_deps_def)
  show ?thesis
  proof (cases "find (\<lambda>u. CalculateUnitCost u > threshold) units")
    case None
    then have "\<forall>u \<in> set units. CalculateUnitCost u \<le> threshold" by (auto simp: find_None_iff)
    with None False cyc show ?thesis by (simp add: plan_ValidateDAG_def)
  next
    case (Some u)
    then have "u \<in> set units" "CalculateUnitCost u > threshold" by (auto simp: find_Some_iff)
    then have "\<not> (\<forall>u \<in> set units. CalculateUnitCost u \<le> threshold)" by (auto simp: not_le)
    with Some False show ?thesis by (simp add: plan_ValidateDAG_def)
  qed
qed

definition demo_unit :: "string \<Rightarrow> string list \<Rightarrow> execution_unit" where
  "demo_unit i deps =
     \<lparr>unit_id = i, unit_objective = '''', unit_tasks = [''create handler'', ''add migration''],
      unit_profile = \<lparr>profile_agent = '''', profile_skills = []\<rparr>,
      unit_constraints = \<lparr>parallelizable = True, max_files = 2, estimated_tokens = 0,
        max_risk = ''High'', risk_multiplier = 0\<rparr>,
      unit_dependencies = deps, unit_target_files = []\<rparr>"

theorem plan_ValidateDAG_exact_witness:
  "CalculateUnitCost (demo_unit ''u'' []) \<le> 12 \<and>
   acyclic {(unit_id v, unit_id u) | v u. v \<in> {demo_unit ''u'' [''ext'']} \<and> u \<in> {demo_unit ''u'' [''ext'']} \<and>
      unit_id v \<in> set (unit_dependencies u)}"
proof -
  have "plan_ValidateDAG rev [demo_unit ''u'' [''ext'']] 12 = None" by code_simp
  moreover have "CalculateUnitCost (demo_unit ''u'' []) \<le> 12" by code_simp
  ultimately show ?thesis using plan_ValidateDAG_exact [OF permuting_rev] by force
qed

end
