(* ===== verification/Task_Store.thy ===== *)
theory Task_Store
  imports Graph_Reach Task_Model
begin

text \<open>
  The repository layer the services write through: the rows of the database they touch and the
  operations of \<^verbatim>\<open>repository/task.go\<close> and \<^verbatim>\<open>repository/task_action_request.go\<close>, with the error
  wrapping of package \<^verbatim>\<open>repository\<close>.

  Rows are kept in the order of their creation, so \<^verbatim>\<open>created_at\<close> orders them as their positions do.
  A query fails only with a missing row or a violated unique constraint; loss of the connection is
  not modelled. The timestamps the database keeps are not modelled either. New ids come from a
  generator that is a parameter (\<^verbatim>\<open>uuid_generate_v4\<close>).
\<close>

section \<open>Errors of the repository layer\<close>

text \<open>\<^verbatim>\<open>fmt.Errorf("...: %w", err)\<close> wraps: the new error is not equal to the one it wraps, but
  \<^verbatim>\<open>errors.Is\<close> finds the wrapped one.\<close>

datatype repo_error =
    RepoNotFound
  | RepoConflict
  | RepoWrapped string repo_error

fun repo_is :: "repo_error \<Rightarrow> repo_error \<Rightarrow> bool" where
  "repo_is (RepoWrapped msg e) target = (RepoWrapped msg e = target \<or> repo_is e target)"
| "repo_is e target = (e = target)"

section \<open>The interface of a row store\<close>

locale row_store =
  fixes lookup :: "'s \<Rightarrow> string \<Rightarrow> 'r option"
    and modify :: "'s \<Rightarrow> string \<Rightarrow> ('r \<Rightarrow> 'r) \<Rightarrow> 's"
    and keeps_id :: "string \<Rightarrow> ('r \<Rightarrow> 'r) \<Rightarrow> bool"
  assumes lookup_modify:
    "keeps_id i f \<Longrightarrow> lookup (modify s i f) j = (if j = i then map_option f (lookup s i) else lookup s j)"
begin

lemma modify_other: "keeps_id i f \<Longrightarrow> j \<noteq> i \<Longrightarrow> lookup (modify s i f) j = lookup s j"
  by (simp add: lookup_modify)

lemma modify_twice:
  "keeps_id i f \<Longrightarrow> keeps_id i g \<Longrightarrow>
   lookup (modify (modify s i f) i g) j = (if j = i then map_option (g \<circ> f) (lookup s i) else lookup s j)"
  by (simp add: lookup_modify option.map_comp)

lemma modify_invariant:
  assumes "keeps_id i f" and "\<And>j r. lookup s j = Some r \<Longrightarrow> P j r"
    and "\<And>r. lookup s i = Some r \<Longrightarrow> P i (f r)" and "lookup (modify s i f) j = Some r"
  shows "P j r"
  using assms by (auto simp: lookup_modify split: if_splits)

end

section \<open>The rows\<close>

record action_request =
  ar_task_id :: string
  ar_request_id :: string
  ar_action :: string
  ar_response :: task

record db =
  db_tasks :: "task list"
  db_projects :: "project list"
  db_repos :: "(string \<times> string) list"
  db_agents :: "(string \<times> string) list"
  db_requests :: "action_request list"
  db_next :: nat

definition find_row :: "task list \<Rightarrow> string \<Rightarrow> task option" where
  "find_row ts i = find (\<lambda>t. t_id t = i) ts"

definition map_row :: "task list \<Rightarrow> string \<Rightarrow> (task \<Rightarrow> task) \<Rightarrow> task list" where
  "map_row ts i f = map (\<lambda>t. if t_id t = i then f t else t) ts"

definition same_id :: "string \<Rightarrow> (task \<Rightarrow> task) \<Rightarrow> bool" where
  "same_id i f \<longleftrightarrow> (\<forall>t. t_id (f t) = t_id t)"

lemma find_row_id: "find_row ts i = Some t \<Longrightarrow> t_id t = i"
  by (auto simp: find_row_def find_Some_iff)

lemma find_row_in: "find_row ts i = Some t \<Longrightarrow> t \<in> set ts"
  by (auto simp: find_row_def find_Some_iff)

lemma find_map_row:
  "same_id i f \<Longrightarrow> find_row (map_row ts i f) j = (if j = i then map_option f (find_row ts i) else find_row ts j)"
  by (induction ts) (auto simp: find_row_def map_row_def same_id_def)

interpretation rows: row_store find_row map_row same_id
  by unfold_locales (simp add: find_map_row)

lemma find_row_append: "find_row (ts @ us) i = (case find_row ts i of None \<Rightarrow> find_row us i | Some t \<Rightarrow> Some t)"
  by (simp add: find_row_def find_append split: option.splits)

lemma ids_map_row: "same_id i f \<Longrightarrow> map t_id (map_row ts i f) = map t_id ts"
  by (simp add: map_row_def same_id_def)

section \<open>Task operations\<close>

definition get_task :: "db \<Rightarrow> string \<Rightarrow> repo_error + task" where
  "get_task d i =
     (case find_row (db_tasks d) i of
        None \<Rightarrow> Inl (RepoWrapped ''get task'' RepoNotFound)
      | Some t \<Rightarrow> Inr t)"

definition get_project :: "db \<Rightarrow> string \<Rightarrow> repo_error + project" where
  "get_project d i =
     (case find (\<lambda>p. p_id p = i) (db_projects d) of
        None \<Rightarrow> Inl (RepoWrapped ''get project'' RepoNotFound)
      | Some p \<Rightarrow> Inr p)"

text \<open>The row the insert leaves, with the column defaults of the \<^verbatim>\<open>gorm\<close> tags for empty fields.\<close>

definition new_task :: "string \<Rightarrow> string \<Rightarrow> create_task_input \<Rightarrow> task" where
  "new_task i projectID input =
     \<lparr>t_id = i, t_project_id = projectID, t_agent_id = ci_agent_id input,
      t_parent_task_id = ci_parent_task_id input, t_repository_id = ci_repository_id input,
      t_title = ci_title input, t_description = ci_description input, t_status = TaskStatusTodo,
      t_complexity = (if ci_complexity input = '''' then TaskComplexityEasy else ci_complexity input),
      t_priority = ci_priority input, t_labels = ci_labels input, t_analysis = Json zero_analysis,
      t_spec_status = TaskSpecStatusNone, t_clarifications = Json [], t_paused_step = '''',
      t_pr_urls = [], t_pr_metadata = Json [], t_require_spec_review = ci_require_spec_review input,
      t_sequence_index = None, t_decomposition_mode = None, t_complexity_score = NoJson,
      t_depends_on = [], t_blocked_child_id = None, t_retry_count = 0,
      t_execution_started_at = None, t_block_reason = '''', t_created_at = 0, t_updated_at = 0,
      t_available_actions = []\<rparr>"

definition repo_Create ::
  "(nat \<Rightarrow> string) \<Rightarrow> db \<Rightarrow> string \<Rightarrow> create_task_input \<Rightarrow> task \<times> db" where
  "repo_Create new_id d projectID input =
     (let t = new_task (new_id (db_next d)) projectID input
      in (t, d\<lparr>db_tasks := db_tasks d @ [t], db_next := Suc (db_next d)\<rparr>))"

definition repo_ListByProjectID :: "db \<Rightarrow> string \<Rightarrow> task list" where
  "repo_ListByProjectID d projectID =
     sort_key (\<lambda>t. - t_priority t)
       (rev (filter (\<lambda>t. t_project_id t = projectID \<and> t_parent_task_id t = None) (db_tasks d)))"

definition repo_ListSubTasks :: "db \<Rightarrow> string \<Rightarrow> task list" where
  "repo_ListSubTasks d parentID =
     sort_key (\<lambda>t. - t_priority t)
       (filter (\<lambda>t. t_parent_task_id t = Some parentID) (db_tasks d))"

definition set_field :: "'a \<Rightarrow> 'a option \<Rightarrow> 'a" where
  "set_field old new = or_zero old new"

lemma set_field_simps [simp]: "set_field old None = old" "set_field old (Some new) = new"
  by (simp_all add: set_field_def)

definition apply_update :: "update_task_input \<Rightarrow> task \<Rightarrow> task" where
  "apply_update u t =
     t\<lparr>t_title := set_field (t_title t) (ui_title u),
       t_description := set_field (t_description t) (ui_description u),
       t_status := set_field (t_status t) (ui_status u),
       t_complexity := set_field (t_complexity t) (ui_complexity u),
       t_priority := set_field (t_priority t) (ui_priority u),
       t_agent_id := set_field (t_agent_id t) (map_option Some (ui_agent_id u)),
       t_parent_task_id := set_field (t_parent_task_id t) (map_option Some (ui_parent_task_id u)),
       t_repository_id := set_field (t_repository_id t) (map_option Some (ui_repository_id u)),
       t_labels := set_field (t_labels t) (ui_labels u),
       t_analysis := set_field (t_analysis t) (ui_analysis u),
       t_spec_status := set_field (t_spec_status t) (ui_spec_status u),
       t_require_spec_review := set_field (t_require_spec_review t) (map_option Some (ui_require_spec_review u)),
       t_clarifications := set_field (t_clarifications t) (ui_clarifications u),
       t_paused_step := set_field (t_paused_step t) (ui_paused_step u),
       t_pr_urls := set_field (t_pr_urls t) (ui_pr_urls u),
       t_pr_metadata := set_field (t_pr_metadata t) (ui_pr_metadata u),
       t_sequence_index := set_field (t_sequence_index t) (map_option Some (ui_sequence_index u)),
       t_decomposition_mode := set_field (t_decomposition_mode t) (map_option Some (ui_decomposition_mode u)),
       t_complexity_score := set_field (t_complexity_score t) (ui_complexity_score u),
       t_depends_on := set_field (t_depends_on t) (ui_depends_on u),
       t_blocked_child_id :=
         (if ui_clear_blocked_child u then None
          else set_field (t_blocked_child_id t) (map_option Some (ui_blocked_child_id u))),
       t_retry_count := set_field (t_retry_count t) (ui_retry_count u),
       t_execution_started_at := set_field (t_execution_started_at t) (map_option Some (ui_execution_started_at u)),
       t_block_reason := set_field (t_block_reason t) (ui_block_reason u)\<rparr>"

definition repo_Update :: "db \<Rightarrow> string \<Rightarrow> update_task_input \<Rightarrow> (repo_error + task) \<times> db" where
  "repo_Update d i u =
     (case get_task d i of
        Inl e \<Rightarrow> (Inl e, d)
      | Inr t \<Rightarrow>
          (Inr (apply_update u t), d\<lparr>db_tasks := map_row (db_tasks d) i (apply_update u)\<rparr>))"

text \<open>
  Deleting a task frees its agent; the foreign key on the parent deletes the descendants
  (\<^verbatim>\<open>ON DELETE CASCADE\<close>).
\<close>

definition child_adj :: "task list \<Rightarrow> string adj" where
  "child_adj ts =
     map (\<lambda>t. (t_id t, map t_id (filter (\<lambda>c. t_parent_task_id c = Some (t_id t)) ts))) ts"

definition idle_agent :: "string option \<Rightarrow> (string \<times> string) list \<Rightarrow> (string \<times> string) list" where
  "idle_agent a agents =
     (case a of
        Some i \<Rightarrow> if i \<noteq> '''' then map (\<lambda>(k, st). (k, if k = i then ''idle'' else st)) agents else agents
      | None \<Rightarrow> agents)"

definition repo_Delete :: "db \<Rightarrow> string \<Rightarrow> repo_error option \<times> db" where
  "repo_Delete d i =
     (case find_row (db_tasks d) i of
        None \<Rightarrow> (Some (RepoWrapped ''delete task'' RepoNotFound), d)
      | Some t \<Rightarrow>
          (None,
           let gone = mark_from (child_adj (db_tasks d)) [i] {}
           in d\<lparr>db_tasks := filter (\<lambda>x. t_id x \<notin> gone) (db_tasks d),
                db_agents := idle_agent (t_agent_id t) (db_agents d)\<rparr>))"

section \<open>Action requests\<close>

definition FindByRequestID :: "db \<Rightarrow> string \<Rightarrow> string \<Rightarrow> repo_error + action_request" where
  "FindByRequestID d taskID requestID =
     (case find (\<lambda>r. ar_task_id r = taskID \<and> ar_request_id r = requestID) (db_requests d) of
        None \<Rightarrow> Inl (RepoWrapped ''find task action request'' RepoNotFound)
      | Some r \<Rightarrow> Inr r)"

definition request_Create :: "db \<Rightarrow> action_request \<Rightarrow> repo_error option \<times> db" where
  "request_Create d r =
     (if is_err (FindByRequestID d (ar_task_id r) (ar_request_id r))
      then (None, d\<lparr>db_requests := db_requests d @ [r]\<rparr>)
      else (Some (RepoWrapped ''create task action request'' RepoConflict), d))"

section \<open>Laws\<close>

lemma same_id_apply [simp]: "same_id i (apply_update u)"
  by (simp add: same_id_def apply_update_def)

lemma get_task_Inr: "get_task d i = Inr t \<longleftrightarrow> find_row (db_tasks d) i = Some t"
  by (auto simp: get_task_def split: option.splits)

lemma get_task_Inl: "get_task d i = Inl e \<longleftrightarrow> find_row (db_tasks d) i = None \<and> e = RepoWrapped ''get task'' RepoNotFound"
  by (auto simp: get_task_def split: option.splits)

lemma repo_Update_Inr:
  "repo_Update d i u = (Inr t', d') \<longleftrightarrow>
   (\<exists>t. find_row (db_tasks d) i = Some t \<and> t' = apply_update u t \<and>
        d' = d\<lparr>db_tasks := map_row (db_tasks d) i (apply_update u)\<rparr>)"
  by (auto simp: repo_Update_def get_task_def split: option.splits)

lemma repo_Update_Inl: "repo_Update d i u = (Inl e, d') \<Longrightarrow> d' = d \<and> find_row (db_tasks d) i = None"
  by (auto simp: repo_Update_def get_task_def split: option.splits)

lemma find_after_update:
  "repo_Update d i u = (Inr t', d') \<Longrightarrow>
   find_row (db_tasks d') j = (if j = i then Some t' else find_row (db_tasks d) j)"
  by (auto simp: repo_Update_Inr rows.lookup_modify)

lemma apply_update_status [simp]:
  "t_status (apply_update u t) = set_field (t_status t) (ui_status u)"
  "t_id (apply_update u t) = t_id t"
  "t_spec_status (apply_update u t) = set_field (t_spec_status t) (ui_spec_status u)"
  by (simp_all add: apply_update_def)

text \<open>Deleting removes exactly the task and its descendants.\<close>

lemma deps_of_child_adj:
  assumes "t \<in> set ts" and "t_parent_task_id t = Some p" and "p \<in> t_id ` set ts"
  shows "t_id t \<in> set (deps_of (child_adj ts) p)"
proof -
  obtain ds where m: "map_of (child_adj ts) p = Some ds"
  proof (cases "map_of (child_adj ts) p")
    case None
    with assms(3) show ?thesis by (auto simp: map_of_eq_None_iff child_adj_def image_iff)
  qed
  then have "ds = map t_id (filter (\<lambda>c. t_parent_task_id c = Some p) ts)"
    by (auto simp: child_adj_def dest!: map_of_SomeD)
  with m assms(1,2) show ?thesis by (simp add: deps_of_def)
qed

lemma repo_Delete_closed:
  assumes "repo_Delete d i = (None, d')"
  shows "find_row (db_tasks d') i = None"
    and "t \<in> set (db_tasks d') \<Longrightarrow> t_parent_task_id t = Some p \<Longrightarrow> p \<in> t_id ` set (db_tasks d) \<Longrightarrow>
         p \<in> t_id ` set (db_tasks d')"
proof -
  let ?gone = "mark_from (child_adj (db_tasks d)) [i] {}"
  have d': "db_tasks d' = filter (\<lambda>x. t_id x \<notin> ?gone) (db_tasks d)"
    using assms by (auto simp: repo_Delete_def Let_def split: option.splits)
  have i: "i \<in> ?gone" and closed: "\<forall>v \<in> ?gone. set (deps_of (child_adj (db_tasks d)) v) \<subseteq> ?gone"
    using mark_from_closed [of "{}" "child_adj (db_tasks d)" "[i]"] by auto
  from i show "find_row (db_tasks d') i = None" by (auto simp: d' find_row_def find_None_iff)
  assume t: "t \<in> set (db_tasks d')" "t_parent_task_id t = Some p" "p \<in> t_id ` set (db_tasks d)"
  then have "t \<in> set (db_tasks d)" "t_id t \<notin> ?gone" by (auto simp: d')
  with deps_of_child_adj [OF this(1) t(2,3)] closed have "p \<notin> ?gone" by blast
  with t(3) show "p \<in> t_id ` set (db_tasks d')" by (auto simp: d')
qed

end
