(* ===== verification/Task_Service.thy ===== *)
theory Task_Service
  imports Task_Store Policy Workflow_Steps
begin

text \<open>
  \<^verbatim>\<open>TaskService\<close> (\<^verbatim>\<open>internal/service/task.go\<close>): every operation as a function of the database, which
  returns its result or error with the database after it. The clock is a parameter.
\<close>

section \<open>Errors\<close>

datatype invalid_msg =
    TitleRequired
  | InvalidRepositoryId
  | RepositoryElsewhere
  | BadTransition transition_err
  | BadAnalysisTransition string string
  | ContextRequired
  | SplitTooSmall
  | BadDecompositionMode
  | AnalysisNotJSON
  | StoredAnalysisNotJSON
  | ActionRequired
  | RequestIdRequired
  | UnknownAction string

datatype svc_error =
    Invalid invalid_msg
  | Repo repo_error
  | SvcWrapped string svc_error
  | Forbidden string string
  | ActionUnavailable string string
  | NoOrchestrator
  | LoopLimit string
  | OrchFailed string

type_synonym 'a result = "(svc_error + 'a) \<times> db"

section \<open>Creation and reading\<close>

definition repository_fits :: "db \<Rightarrow> string \<Rightarrow> string option \<Rightarrow> invalid_msg option" where
  "repository_fits d projectID repositoryID =
     (case repositoryID of
        None \<Rightarrow> None
      | Some r \<Rightarrow>
          if r = '''' then None
          else (case map_of (db_repos d) r of
                  None \<Rightarrow> Some InvalidRepositoryId
                | Some owner \<Rightarrow> if owner \<noteq> projectID then Some RepositoryElsewhere else None))"

definition svc_Create ::
  "(nat \<Rightarrow> string) \<Rightarrow> db \<Rightarrow> string \<Rightarrow> create_task_input \<Rightarrow> task result" where
  "svc_Create new_id d projectID input =
     (if ci_title input = '''' then (Inl (Invalid TitleRequired), d)
      else (case repository_fits d projectID (ci_repository_id input) of
              Some m \<Rightarrow> (Inl (Invalid m), d)
            | None \<Rightarrow> (let (t, d') = repo_Create new_id d projectID input in (Inr t, d'))))"

definition actionsEndpoint :: string where
  "actionsEndpoint = ''POST /tasks/{taskID}/actions''"

definition action :: "string \<Rightarrow> string \<Rightarrow> string \<Rightarrow> bool \<Rightarrow> available_action" where
  "action i label style conf =
     \<lparr>act_id = i, act_label = label, act_style = style, act_confirmation_required = conf,
      act_endpoint = actionsEndpoint, act_disabled_reason = ''''\<rparr>"

definition computeAvailableActions :: "task \<Rightarrow> available_action list" where
  "computeAvailableActions t =
     (if t_status t = TaskStatusSpecReview then
        [action ''approve_spec'' ''Approve Spec'' ''primary'' False,
         action ''request_changes'' ''Request Changes'' ''secondary'' True,
         action ''cancel'' ''Cancel'' ''danger'' True]
      else if t_status t = TaskStatusBlocked then
        [action ''retry_blocked'' ''Retry'' ''primary'' False,
         action ''cancel'' ''Cancel'' ''danger'' True]
      else if t_status t = TaskStatusFailed then
        [action ''retry'' ''Retry'' ''primary'' False,
         action ''delete'' ''Delete'' ''danger'' True]
      else if t_status t = TaskStatusMerged then []
      else if t_status t = TaskStatusTodo then
        [action ''execute'' ''Execute'' ''primary'' False,
         action ''delete'' ''Delete'' ''danger'' True]
      else if t_status t = TaskStatusPrReady \<or> t_status t = TaskStatusHumanReview then
        [action ''cancel'' ''Cancel'' ''danger'' True]
      else
        [action ''pause'' ''Pause'' ''warning'' False,
         action ''cancel'' ''Cancel'' ''danger'' True])"

definition with_actions :: "task \<Rightarrow> task" where
  "with_actions t = t\<lparr>t_available_actions := computeAvailableActions t\<rparr>"

definition lift_repo :: "repo_error + 'a \<Rightarrow> svc_error + 'a" where
  "lift_repo r = (case r of Inl e \<Rightarrow> Inl (Repo e) | Inr x \<Rightarrow> Inr x)"

definition svc_GetByID :: "db \<Rightarrow> string \<Rightarrow> svc_error + task" where
  "svc_GetByID d i = bind_err (lift_repo (get_task d i)) (\<lambda>t. Inr (with_actions t))"

definition svc_ListByProjectID :: "db \<Rightarrow> string \<Rightarrow> task list" where
  "svc_ListByProjectID d projectID = map with_actions (repo_ListByProjectID d projectID)"

definition svc_ListSubTasks :: "db \<Rightarrow> string \<Rightarrow> task list" where
  "svc_ListSubTasks d parentID = repo_ListSubTasks d parentID"

section \<open>Updates\<close>

definition write_back :: "db \<Rightarrow> string \<Rightarrow> update_task_input \<Rightarrow> task result" where
  "write_back d i u = (let (r, d') = repo_Update d i u in (lift_repo r, d'))"

definition svc_Update :: "db \<Rightarrow> string \<Rightarrow> update_task_input \<Rightarrow> task result" where
  "svc_Update d i u =
     (case (case ui_status u of
              None \<Rightarrow> None
            | Some st \<Rightarrow>
                (case get_task d i of
                   Inl e \<Rightarrow> Some (Repo e)
                 | Inr t \<Rightarrow> map_option (\<lambda>e. Invalid (BadTransition e)) (ValidateTaskTransition (t_status t) st))) of
        Some e \<Rightarrow> (Inl e, d)
      | None \<Rightarrow>
          (case write_back d i u of
             (Inl e, d') \<Rightarrow> (Inl e, d')
           | (Inr t, d') \<Rightarrow> (Inr (with_actions t), d')))"

definition svc_Delete :: "db \<Rightarrow> string \<Rightarrow> svc_error option \<times> db" where
  "svc_Delete d i = (let (r, d') = repo_Delete d i in (map_option Repo r, d'))"

section \<open>Analysis\<close>

definition hardSignals :: "string list" where
  "hardSignals =
     [''architecture'', ''security'', ''auth'', ''permission'', ''rbac'', ''payment'', ''migration'',
      ''distributed'']"

definition mediumSignals :: "string list" where
  "mediumSignals =
     [''feature'', ''refactor'', ''api'', ''database'', ''ui'', ''workflow'', ''integration'']"

definition analysis_complexity :: "task \<Rightarrow> string" where
  "analysis_complexity t =
     (let body = to_lower (t_title t @ '' '' @ t_description t);
          c0 = (if t_complexity t = '''' then TaskComplexityEasy else t_complexity t);
          c1 = (if mentions body hardSignals then TaskComplexityHard else c0)
      in if c1 \<noteq> TaskComplexityHard \<and> mentions body mediumSignals then TaskComplexityMedium else c1)"

definition buildTaskAnalysis :: "task \<Rightarrow> task_analysis" where
  "buildTaskAnalysis t =
     zero_analysis
       \<lparr>an_complexity := analysis_complexity t,
        an_scope := ''Derived from task title and description. Human review should refine this for Medium/Hard work.'',
        an_affected_files := [],
        an_risks := [''Analysis is heuristic until the Phase 3 planner agent is available.''],
        an_execution_phases :=
          [\<lparr>phase = ''Setup and Execution'',
            phase_tasks =
              [''Confirm definition of ready.'', ''Identify affected files.'',
               ''Implement changes in an isolated worktree.'',
               ''Run automated tests before PR creation.'']\<rparr>],
        an_clarification_questions :=
          (if length (trim_space (t_description t)) < 30
           then [''Please provide more implementation context, affected module names, and expected behavior.'']
           else []),
        an_task_rules := [],
        an_proposal_md :=
          ''## Proposal for '' @ t_title t @ NL @ NL @ t_description t @ NL,
        an_specs_md :=
          ''## ADDED Requirements'' @ NL @ NL @ ''### Requirement: '' @ t_title t @ NL @ t_description t @ NL,
        an_design_md := ''## Design'' @ NL @ NL @ ''Implementation design placeholder.'' @ NL,
        an_tasks := [\<lparr>dag_id = ''Task execution workflow step'', dag_depends_on = [], dag_complexity = None\<rparr>]\<rparr>"

definition prior_rounds :: "task \<Rightarrow> clarification_round list" where
  "prior_rounds t = snd (unmarshal [] (t_clarifications t))"

definition svc_Analyze :: "db \<Rightarrow> string \<Rightarrow> task result" where
  "svc_Analyze d i =
     (case get_task d i of
        Inl e \<Rightarrow> (Inl (Repo e), d)
      | Inr t \<Rightarrow>
          (let analysis = buildTaskAnalysis t
           in case get_project d (t_project_id t) of
                Inl e \<Rightarrow> (Inl (SvcWrapped ''get project'' (Repo e)), d)
              | Inr p \<Rightarrow>
                  (let (specStatus, status) =
                     ResolveSpecGate (Some t) (Some p) (an_clarification_questions analysis \<noteq> [])
                       (int (length (prior_rounds t)))
                   in if t_status t \<notin> {TaskStatusTodo, TaskStatusAnalyzing, TaskStatusSpecReview,
                                        TaskStatusFailed, ''''}
                      then (Inl (Invalid (BadAnalysisTransition (t_status t) status)), d)
                      else write_back d i
                        (no_update\<lparr>ui_status := Some status, ui_complexity := Some (an_complexity analysis),
                                   ui_analysis := Some (Json analysis), ui_spec_status := Some specStatus\<rparr>))))"

definition svc_Clarify :: "int \<Rightarrow> db \<Rightarrow> string \<Rightarrow> string \<Rightarrow> task result" where
  "svc_Clarify now d i ctx =
     (if trim_space ctx = '''' then (Inl (Invalid ContextRequired), d)
      else (case get_task d i of
              Inl e \<Rightarrow> (Inl (Repo e), d)
            | Inr t \<Rightarrow>
                (let rounds = prior_rounds t;
                     analysis = snd (unmarshal zero_analysis (t_analysis t));
                     new_round = \<lparr>cr_round = int (length rounds) + 1, cr_timestamp = now,
                                  cr_questions = an_clarification_questions analysis, cr_response = ctx\<rparr>;
                     status = (if t_paused_step t \<noteq> '''' then StatusForStep (t_paused_step t)
                               else TaskStatusAnalyzing)
                 in write_back d i
                      (no_update\<lparr>ui_spec_status := Some TaskSpecStatusNone, ui_status := Some status,
                                 ui_clarifications := Some (Json (rounds @ [new_round])),
                                 ui_paused_step := Some ''''\<rparr>))))"

definition svc_GetAnalysis :: "db \<Rightarrow> string \<Rightarrow> svc_error + task_analysis raw_json" where
  "svc_GetAnalysis d i = bind_err (lift_repo (get_task d i)) (\<lambda>t. Inr (t_analysis t))"

definition svc_ApproveAnalysis :: "db \<Rightarrow> string \<Rightarrow> task result" where
  "svc_ApproveAnalysis d i =
     (case get_task d i of
        Inl e \<Rightarrow> (Inl (Repo e), d)
      | Inr t \<Rightarrow>
          (case ValidateTaskTransition (t_status t) TaskStatusCoding of
             Some e \<Rightarrow> (Inl (Invalid (BadTransition e)), d)
           | None \<Rightarrow>
               write_back d i
                 (no_update\<lparr>ui_spec_status := Some TaskSpecStatusApproved,
                            ui_status := Some TaskStatusCoding\<rparr>)))"

definition svc_RequestAnalysisChanges :: "db \<Rightarrow> string \<Rightarrow> string \<Rightarrow> task result" where
  "svc_RequestAnalysisChanges d i ctx =
     (case get_task d i of
        Inl e \<Rightarrow> (Inl (Repo e), d)
      | Inr t \<Rightarrow>
          (case ValidateTaskTransition (t_status t) TaskStatusAnalyzing of
             Some e \<Rightarrow> (Inl (Invalid (BadTransition e)), d)
           | None \<Rightarrow>
               (let desc =
                  (if trim_space ctx \<noteq> ''''
                   then trim_space (t_description t @ NL @ NL @ ''Requested changes:'' @ NL @ ctx)
                   else t_description t)
                in write_back d i
                     (no_update\<lparr>ui_description := Some desc,
                                ui_spec_status := Some TaskSpecStatusChangesRequested,
                                ui_status := Some TaskStatusAnalyzing\<rparr>))))"

definition svc_UpdateAnalysis :: "db \<Rightarrow> string \<Rightarrow> task_analysis raw_json \<Rightarrow> task result" where
  "svc_UpdateAnalysis d i analysis =
     (if \<not> json_valid analysis then (Inl (Invalid AnalysisNotJSON), d)
      else write_back d i
        (no_update\<lparr>ui_analysis := Some analysis, ui_spec_status := Some TaskSpecStatusDraft\<rparr>))"

section \<open>Splitting a task\<close>

definition svc_CreateSubTask ::
  "(nat \<Rightarrow> string) \<Rightarrow> db \<Rightarrow> string \<Rightarrow> create_task_input \<Rightarrow> task result" where
  "svc_CreateSubTask new_id d parentID input =
     (case get_task d parentID of
        Inl e \<Rightarrow> (Inl (Repo e), d)
      | Inr parent \<Rightarrow>
          svc_Create new_id d (t_project_id parent) (input\<lparr>ci_parent_task_id := Some parentID\<rparr>))"

definition child_input :: "task \<Rightarrow> child_task_spec \<Rightarrow> create_task_input" where
  "child_input parent spec =
     \<lparr>ci_title = spec_title spec, ci_description = spec_instructions spec,
      ci_complexity = t_complexity parent, ci_priority = 0, ci_labels = [],
      ci_parent_task_id = None, ci_agent_id = t_agent_id parent,
      ci_repository_id = t_repository_id parent, ci_require_spec_review = None\<rparr>"

text \<open>The first loop creates the children; an error leaves the children created so far.\<close>

fun create_children ::
  "(nat \<Rightarrow> string) \<Rightarrow> task \<Rightarrow> string \<Rightarrow> nat \<Rightarrow> child_task_spec list \<Rightarrow> db \<Rightarrow> task list result" where
  "create_children new_id parent parentID i [] d = (Inr [], d)"
| "create_children new_id parent parentID i (spec # specs) d =
     (case svc_CreateSubTask new_id d parentID (child_input parent spec) of
        (Inl e, d1) \<Rightarrow> (Inl (SvcWrapped ''create child task'' e), d1)
      | (Inr child, d1) \<Rightarrow>
          (case repo_Update d1 (t_id child) (no_update\<lparr>ui_sequence_index := Some (int i)\<rparr>) of
             (Inl e, d2) \<Rightarrow> (Inl (SvcWrapped ''set sequence_index'' (Repo e)), d2)
           | (Inr _, d2) \<Rightarrow>
               (case create_children new_id parent parentID (Suc i) specs d2 of
                  (Inl e, d3) \<Rightarrow> (Inl e, d3)
                | (Inr children, d3) \<Rightarrow>
                    (Inr (child\<lparr>t_sequence_index := Some (int i)\<rparr> # children), d3))))"

definition dep_ids :: "string list \<Rightarrow> int list \<Rightarrow> string list" where
  "dep_ids ids deps =
     map (\<lambda>k. ids ! nat k) (filter (\<lambda>k. \<not> (k < 0 \<or> k \<ge> int (length ids))) deps)"

text \<open>The second loop resolves the dependencies, given by index, to the ids of the siblings.\<close>

fun link_children ::
  "string list \<Rightarrow> (child_task_spec \<times> task) list \<Rightarrow> db \<Rightarrow> task list result" where
  "link_children ids [] d = (Inr [], d)"
| "link_children ids ((spec, child) # rest) d =
     (let deps = dep_ids ids (spec_depends_on spec)
      in if deps = [] then
           (case link_children ids rest d of
              (Inl e, d') \<Rightarrow> (Inl e, d')
            | (Inr cs, d') \<Rightarrow> (Inr (child # cs), d'))
         else
           (case repo_Update d (t_id child) (no_update\<lparr>ui_depends_on := Some deps\<rparr>) of
              (Inl e, d1) \<Rightarrow> (Inl (SvcWrapped ''set depends_on'' (Repo e)), d1)
            | (Inr _, d1) \<Rightarrow>
                (case link_children ids rest d1 of
                   (Inl e, d') \<Rightarrow> (Inl e, d')
                 | (Inr cs, d') \<Rightarrow> (Inr (child\<lparr>t_depends_on := deps\<rparr> # cs), d'))))"

definition svc_ApproveSplit ::
  "(nat \<Rightarrow> string) \<Rightarrow> db \<Rightarrow> string \<Rightarrow> child_task_spec list \<Rightarrow> string \<Rightarrow> task list result" where
  "svc_ApproveSplit new_id d parentID specs mode =
     (if length specs < 2 then (Inl (Invalid SplitTooSmall), d)
      else if mode \<noteq> ''manual'' \<and> mode \<noteq> ''auto'' then (Inl (Invalid BadDecompositionMode), d)
      else (case get_task d parentID of
              Inl e \<Rightarrow> (Inl (Repo e), d)
            | Inr parent \<Rightarrow>
                (case create_children new_id parent parentID 0 specs d of
                   (Inl e, d1) \<Rightarrow> (Inl e, d1)
                 | (Inr children, d1) \<Rightarrow>
                     (case link_children (map t_id children) (zip specs children) d1 of
                        (Inl e, d2) \<Rightarrow> (Inl e, d2)
                      | (Inr linked, d2) \<Rightarrow>
                          (case repo_Update d2 parentID (no_update\<lparr>ui_decomposition_mode := Some mode\<rparr>) of
                             (Inl e, d3) \<Rightarrow> (Inl (SvcWrapped ''mark parent as decomposed'' (Repo e)), d3)
                           | (Inr _, d3) \<Rightarrow> (Inr linked, d3))))))"

definition svc_RejectSplit :: "db \<Rightarrow> string \<Rightarrow> task result" where
  "svc_RejectSplit d parentID =
     (case get_task d parentID of
        Inl e \<Rightarrow> (Inl (Repo e), d)
      | Inr t \<Rightarrow>
          if t_analysis t = NoJson then (Inr t, d)
          else (case unmarshal zero_analysis (t_analysis t) of
                  (True, _) \<Rightarrow> (Inl (Invalid StoredAnalysisNotJSON), d)
                | (False, analysis) \<Rightarrow>
                    write_back d parentID
                      (no_update\<lparr>ui_analysis := Some (Json (analysis\<lparr>an_proposed_split := []\<rparr>))\<rparr>)))"

end
