(* ===== verification/Task_Actions.thy ===== *)
theory Task_Actions
  imports Task_Service
begin

text \<open>
  The dispatch of task actions (\<^verbatim>\<open>internal/service/task_action.go\<close>): the role policy, \<^verbatim>\<open>Dispatch\<close> with
  its replay of stored responses, and the switch of \<^verbatim>\<open>execute\<close>. The orchestrator is the interface
  \<^verbatim>\<open>TaskActionOrchestrator\<close> the file declares, a parameter here: each of its operations may change
  the database and may fail with a text.
\<close>

section \<open>Roles\<close>

definition actionRolePolicy :: "(string \<times> string) list" where
  "actionRolePolicy = [(''delete'', ''admin'')]"

definition requiredRole :: "string \<Rightarrow> string" where
  "requiredRole act = or_zero '''' (map_of actionRolePolicy act)"

definition roleSatisfies :: "string \<Rightarrow> string \<Rightarrow> bool" where
  "roleSatisfies callerRole required_role = (if required_role = '''' then True else callerRole = required_role)"

definition role_refusal :: "string \<Rightarrow> string" where
  "role_refusal required_role = ''requires role \"'' @ required_role @ ''\"''"

definition ApplyActionPolicy :: "available_action list \<Rightarrow> string \<Rightarrow> available_action list" where
  "ApplyActionPolicy actions callerRole =
     map (\<lambda>a. if \<not> roleSatisfies callerRole (requiredRole (act_id a))
              then a\<lparr>act_disabled_reason := role_refusal (requiredRole (act_id a))\<rparr> else a) actions"

section \<open>Executing an action\<close>

record task_orch =
  orch_Execute :: "db \<Rightarrow> string \<Rightarrow> string option \<times> db"
  orch_PauseJob :: "db \<Rightarrow> string \<Rightarrow> string option \<times> db"
  orch_CancelJob :: "db \<Rightarrow> string \<Rightarrow> string option \<times> db"
  orch_RetryFromLastStep :: "db \<Rightarrow> string \<Rightarrow> string option \<times> db"
  orch_RetryBlockedParent :: "db \<Rightarrow> string \<Rightarrow> (string + task) \<times> db"
  orch_CheckSpecReviewLoopLimit :: "db \<Rightarrow> string \<Rightarrow> string option \<times> db"
  orch_SaveSpecReviewCycle :: "db \<Rightarrow> string \<Rightarrow> string \<Rightarrow> string option \<times> db"

record task_action_input =
  ta_action :: string
  ta_request_id :: string
  ta_comment :: string

definition refresh :: "db \<Rightarrow> string \<Rightarrow> task \<Rightarrow> task" where
  "refresh d taskID fallback = (case svc_GetByID d taskID of Inr t \<Rightarrow> t | Inl _ \<Rightarrow> fallback)"

text \<open>An operation of the orchestrator followed by a read of the task.\<close>

definition run_and_get :: "(string option \<times> db) \<Rightarrow> string \<Rightarrow> task result" where
  "run_and_get res taskID =
     (case res of
        (Some e, d) \<Rightarrow> (Inl (OrchFailed e), d)
      | (None, d) \<Rightarrow> (svc_GetByID d taskID, d))"

definition run_and_refresh :: "(string option \<times> db) \<Rightarrow> string \<Rightarrow> task \<Rightarrow> task result" where
  "run_and_refresh res taskID t =
     (case res of
        (Some e, d) \<Rightarrow> (Inl (OrchFailed e), d)
      | (None, d) \<Rightarrow> (Inr (refresh d taskID t), d))"

definition do_approve_spec :: "task_orch option \<Rightarrow> db \<Rightarrow> string \<Rightarrow> task result" where
  "do_approve_spec orch d taskID =
     (case svc_ApproveAnalysis d taskID of
        (Inl e, d1) \<Rightarrow> (Inl e, d1)
      | (Inr t, d1) \<Rightarrow>
          (case orch of
             None \<Rightarrow> (Inr (refresh d1 taskID t), d1)
           | Some orc \<Rightarrow> run_and_refresh (orch_Execute orc d1 taskID) taskID t))"

definition loop_limit :: "task_orch option \<Rightarrow> db \<Rightarrow> string \<Rightarrow> string option \<times> db" where
  "loop_limit orch d taskID =
     (case orch of None \<Rightarrow> (None, d) | Some orc \<Rightarrow> orch_CheckSpecReviewLoopLimit orc d taskID)"

definition do_request_changes :: "task_orch option \<Rightarrow> db \<Rightarrow> string \<Rightarrow> string \<Rightarrow> task result" where
  "do_request_changes orch d taskID comment =
     (case loop_limit orch d taskID of
        (Some e, d1) \<Rightarrow> (Inl (LoopLimit e), d1)
      | (None, d1) \<Rightarrow>
          (case svc_RequestAnalysisChanges d1 taskID comment of
             (Inl e, d2) \<Rightarrow> (Inl e, d2)
           | (Inr t, d2) \<Rightarrow>
               (case orch of
                  None \<Rightarrow> (Inr (refresh d2 taskID t), d2)
                | Some orc \<Rightarrow>
                    (case orch_SaveSpecReviewCycle orc d2 taskID comment of
                       (Some e, d3) \<Rightarrow> (Inl (OrchFailed e), d3)
                     | (None, d3) \<Rightarrow> run_and_refresh (orch_Execute orc d3 taskID) taskID t))))"

definition do_execute :: "task_orch option \<Rightarrow> db \<Rightarrow> string \<Rightarrow> task result" where
  "do_execute orch d taskID =
     (case orch of
        None \<Rightarrow> (svc_GetByID d taskID, d)
      | Some orc \<Rightarrow> run_and_get (orch_Execute orc d taskID) taskID)"

definition do_retry_blocked :: "task_orch option \<Rightarrow> db \<Rightarrow> task \<Rightarrow> task result" where
  "do_retry_blocked orch d t =
     (case orch of
        None \<Rightarrow> (Inl NoOrchestrator, d)
      | Some orc \<Rightarrow>
          if t_blocked_child_id t \<noteq> None then
            (case orch_RetryBlockedParent orc d (t_id t) of
               (Inl e, d1) \<Rightarrow> (Inl (OrchFailed e), d1)
             | (Inr p, d1) \<Rightarrow> (Inr p, d1))
          else run_and_get (orch_RetryFromLastStep orc d (t_id t)) (t_id t))"

definition need_orch ::
  "task_orch option \<Rightarrow> db \<Rightarrow> string \<Rightarrow> (task_orch \<Rightarrow> db \<Rightarrow> string \<Rightarrow> string option \<times> db) \<Rightarrow> task result" where
  "need_orch orch d taskID f =
     (case orch of
        None \<Rightarrow> (Inl NoOrchestrator, d)
      | Some orc \<Rightarrow> run_and_get (f orc d taskID) taskID)"

definition do_delete :: "db \<Rightarrow> task \<Rightarrow> task result" where
  "do_delete d t =
     (case svc_Delete d (t_id t) of
        (Some e, d1) \<Rightarrow> (Inl e, d1)
      | (None, d1) \<Rightarrow> (Inr t, d1))"

definition exec_action :: "task_orch option \<Rightarrow> db \<Rightarrow> task \<Rightarrow> task_action_input \<Rightarrow> task result" where
  "exec_action orch d t input =
     (let taskID = t_id t; act = ta_action input
      in if act = ''approve_spec'' then do_approve_spec orch d taskID
         else if act = ''request_changes'' then do_request_changes orch d taskID (ta_comment input)
         else if act = ''execute'' then do_execute orch d taskID
         else if act = ''pause'' then need_orch orch d taskID orch_PauseJob
         else if act = ''cancel'' then need_orch orch d taskID orch_CancelJob
         else if act = ''retry'' then need_orch orch d taskID orch_RetryFromLastStep
         else if act = ''retry_blocked'' then do_retry_blocked orch d t
         else if act = ''delete'' then do_delete d t
         else (Inl (Invalid (UnknownAction act)), d))"

section \<open>Dispatch\<close>

text \<open>The lookup error is compared with \<^verbatim>\<open>!=\<close>, not with \<^verbatim>\<open>errors.Is\<close>.\<close>

definition Dispatch ::
  "task_orch option \<Rightarrow> db \<Rightarrow> string \<Rightarrow> string \<Rightarrow> task_action_input \<Rightarrow> task result" where
  "Dispatch orch d taskID callerRole input =
     (if ta_action input = '''' then (Inl (Invalid ActionRequired), d)
      else if ta_request_id input = '''' then (Inl (Invalid RequestIdRequired), d)
      else (case FindByRequestID d taskID (ta_request_id input) of
              Inr existing \<Rightarrow> (Inr (ar_response existing), d)
            | Inl err \<Rightarrow>
                if err \<noteq> RepoNotFound then (Inl (SvcWrapped ''lookup task action request'' (Repo err)), d)
                else if \<not> roleSatisfies callerRole (requiredRole (ta_action input)) then
                  (Inl (Forbidden callerRole (ta_action input)), d)
                else (case svc_GetByID d taskID of
                        Inl e \<Rightarrow> (Inl e, d)
                      | Inr t \<Rightarrow>
                          if \<not> list_ex (\<lambda>a. act_id a = ta_action input) (t_available_actions t) then
                            (Inl (ActionUnavailable (ta_action input) (t_status t)), d)
                          else (case exec_action orch d t input of
                                  (Inl e, d1) \<Rightarrow> (Inl e, d1)
                                | (Inr res, d1) \<Rightarrow>
                                    (case request_Create d1
                                            \<lparr>ar_task_id = taskID, ar_request_id = ta_request_id input,
                                             ar_action = ta_action input, ar_response = res\<rparr> of
                                       (Some e, d2) \<Rightarrow>
                                         (Inl (SvcWrapped ''record task action request'' (Repo e)), d2)
                                     | (None, d2) \<Rightarrow> (Inr res, d2))))))"

section \<open>Which writes keep to the status machine\<close>

definition lawful :: "db \<Rightarrow> db \<Rightarrow> bool" where
  "lawful d d' \<longleftrightarrow>
     (\<forall>i t. find_row (db_tasks d) i = Some t \<longrightarrow>
        (\<exists>t'. find_row (db_tasks d') i = Some t' \<and> ValidateTaskTransition (t_status t) (t_status t') = None))"

definition quiet :: "db \<Rightarrow> db \<Rightarrow> bool" where
  "quiet d d' \<longleftrightarrow>
     (\<forall>i t. find_row (db_tasks d) i = Some t \<longrightarrow>
        (\<exists>t'. find_row (db_tasks d') i = Some t' \<and> t_status t' = t_status t))"

lemma same_status_valid [simp]: "s \<noteq> '''' \<Longrightarrow> ValidateTaskTransition s s = None"
  by (simp add: ValidateTaskTransition_def)

lemma quiet_refl [simp]: "quiet d d"
  by (simp add: quiet_def)

lemma quiet_trans: "quiet d d1 \<Longrightarrow> quiet d1 d2 \<Longrightarrow> quiet d d2"
  unfolding quiet_def by metis

lemma repo_Update_quiet:
  "repo_Update d i u = (r, d') \<Longrightarrow> ui_status u = None \<Longrightarrow> quiet d d'"
  by (cases r) (auto simp: quiet_def repo_Update_Inr rows.lookup_modify dest: repo_Update_Inl)

lemma repo_Create_quiet: "repo_Create new_id d p input = (t, d') \<Longrightarrow> quiet d d'"
  by (auto simp: repo_Create_def quiet_def find_row_append Let_def)

lemma svc_Create_quiet: "svc_Create new_id d p input = (r, d') \<Longrightarrow> quiet d d'"
  by (auto simp: svc_Create_def split: if_splits option.splits prod.splits dest: repo_Create_quiet)

lemma svc_CreateSubTask_quiet: "svc_CreateSubTask new_id d p input = (r, d') \<Longrightarrow> quiet d d'"
  by (auto simp: svc_CreateSubTask_def split: sum.splits dest: svc_Create_quiet)

lemma create_children_quiet:
  "create_children new_id parent p i specs d = (r, d') \<Longrightarrow> quiet d d'"
proof (induction new_id parent p i specs d arbitrary: r d' rule: create_children.induct)
  case (2 new_id parent p i spec specs d)
  obtain r1 d1 where c: "svc_CreateSubTask new_id d p (child_input parent spec) = (r1, d1)" by fastforce
  note q1 = svc_CreateSubTask_quiet [OF c]
  show ?case
  proof (cases r1)
    case (Inl e)
    with 2(2) c q1 show ?thesis by simp
  next
    case (Inr child)
    obtain r2 d2 where u: "repo_Update d1 (t_id child) (no_update\<lparr>ui_sequence_index := Some (int i)\<rparr>) = (r2, d2)"
      by fastforce
    have q2: "quiet d d2" by (rule quiet_trans [OF q1 repo_Update_quiet [OF u]]) (simp add: no_update_def)
    show ?thesis
    proof (cases r2)
      case (Inl e)
      with 2(2) c u Inr q2 show ?thesis by simp
    next
      case (Inr x)
      obtain r3 d3 where l: "create_children new_id parent p (Suc i) specs d2 = (r3, d3)" by fastforce
      from 2(1) [OF c [symmetric] \<open>r1 = Inr child\<close> u [symmetric] Inr l] q2 have "quiet d d3"
        by (blast intro: quiet_trans)
      with 2(2) c u l \<open>r1 = Inr child\<close> Inr show ?thesis by (auto split: sum.splits)
    qed
  qed
qed simp

lemma link_children_quiet: "link_children ids cs d = (r, d') \<Longrightarrow> quiet d d'"
proof (induction ids cs d arbitrary: r d' rule: link_children.induct)
  case (2 ids spec child rest d)
  let ?deps = "dep_ids ids (spec_depends_on spec)"
  show ?case
  proof (cases "?deps = []")
    case True
    obtain r1 d1 where l: "link_children ids rest d = (r1, d1)" by fastforce
    from 2(1) [OF refl True l] 2(3) True l show ?thesis by (auto split: sum.splits)
  next
    case False
    obtain r1 d1 where u: "repo_Update d (t_id child) (no_update\<lparr>ui_depends_on := Some ?deps\<rparr>) = (r1, d1)"
      by fastforce
    have q1: "quiet d d1" by (rule repo_Update_quiet [OF u]) (simp add: no_update_def)
    obtain r2 d2 where l: "link_children ids rest d1 = (r2, d2)" by fastforce
    show ?thesis
    proof (cases r1)
      case (Inl e)
      with 2(3) False u q1 show ?thesis by (simp add: Let_def)
    next
      case (Inr x)
      from 2(2) [OF refl False u [symmetric] Inr l] q1 have "quiet d d2" by (blast intro: quiet_trans)
      with 2(3) False u l Inr show ?thesis by (auto simp: Let_def split: sum.splits)
    qed
  qed
qed simp

lemma svc_ApproveSplit_quiet:
  assumes "svc_ApproveSplit new_id d p specs mode = (r, d')"
  shows "quiet d d'"
proof (cases "length specs < 2 \<or> mode \<noteq> ''manual'' \<and> mode \<noteq> ''auto'' \<or> is_err (get_task d p)")
  case True
  with assms show ?thesis by (auto simp: svc_ApproveSplit_def is_err_def split: if_splits sum.splits)
next
  case False
  then obtain parent where ok: "\<not> length specs < 2" "\<not> (mode \<noteq> ''manual'' \<and> mode \<noteq> ''auto'')"
    "get_task d p = Inr parent" by (auto simp: is_err_def split: sum.splits)
  obtain r1 d1 where c: "create_children new_id parent p 0 specs d = (r1, d1)" by fastforce
  note q1 = create_children_quiet [OF c]
  show ?thesis
  proof (cases r1)
    case (Inl e)
    with assms ok c q1 show ?thesis by (simp add: svc_ApproveSplit_def)
  next
    case (Inr cs)
    obtain r2 d2 where l: "link_children (map t_id cs) (zip specs cs) d1 = (r2, d2)" by fastforce
    note q2 = quiet_trans [OF q1 link_children_quiet [OF l]]
    show ?thesis
    proof (cases r2)
      case (Inl e)
      with assms ok c l \<open>r1 = Inr cs\<close> q2 show ?thesis by (simp add: svc_ApproveSplit_def)
    next
      case (Inr linked)
      obtain r3 d3 where u: "repo_Update d2 p (no_update\<lparr>ui_decomposition_mode := Some mode\<rparr>) = (r3, d3)"
        by fastforce
      have "quiet d d3" by (rule quiet_trans [OF q2 repo_Update_quiet [OF u]]) (simp add: no_update_def)
      with assms ok c l u \<open>r1 = Inr cs\<close> Inr show ?thesis
        by (auto simp: svc_ApproveSplit_def split: sum.splits)
    qed
  qed
qed

end
