(* ===== verification/Task_Properties.thy ===== *)
theory Task_Properties
  imports Task_Actions
begin

text \<open>
  The properties of \<^verbatim>\<open>TaskService\<close> and of the action dispatch.
\<close>

section \<open>A concrete database\<close>

definition demo_task :: "string \<Rightarrow> string \<Rightarrow> task" where
  "demo_task i st =
     (new_task i ''p1''
        \<lparr>ci_title = ''Fix typo'', ci_description = ''short'', ci_complexity = '''', ci_priority = 0,
         ci_labels = [], ci_parent_task_id = None, ci_agent_id = None, ci_repository_id = None,
         ci_require_spec_review = None\<rparr>)\<lparr>t_status := st\<rparr>"

definition demo_project :: project where
  "demo_project =
     \<lparr>p_id = ''p1'', p_org_id = '''', p_name = '''', p_description = '''', p_default_model_level = '''',
      p_default_autonomy = ''supervised'', p_auto_review_policy = '''', p_require_spec_review = False,
      p_max_retries = 3, p_max_review_fix_cycles = 3, p_default_branch = ''main'',
      p_execution_providers = NoJson, p_review_harness_policy = ''same'', p_smart_routing = True,
      p_pipeline_config = NoJson, p_max_task_retry_count = 5, p_max_execution_minutes = 120,
      p_max_event_count = 20000, p_cost_budget = None, p_repositories_count = 0, p_agents_count = 0,
      p_tasks_done_count = 0, p_tasks_total_count = 0, p_created_at = 0, p_updated_at = 0\<rparr>"

definition demo_db :: "task list \<Rightarrow> db" where
  "demo_db ts =
     \<lparr>db_tasks = ts, db_projects = [demo_project], db_repos = [], db_agents = [], db_requests = [],
      db_next = 0\<rparr>"

lemma demo_task_simps [simp]:
  "t_id (demo_task i st) = i" "t_status (demo_task i st) = st"
  "t_parent_task_id (demo_task i st) = None" "t_project_id (demo_task i st) = ''p1''"
  "t_paused_step (demo_task i st) = ''''" "t_title (demo_task i st) = ''Fix typo''"
  "t_repository_id (demo_task i st) = None"
  by (simp_all add: demo_task_def new_task_def)

lemma demo_db_simps [simp]:
  "db_tasks (demo_db ts) = ts" "db_projects (demo_db ts) = [demo_project]" "db_repos (demo_db ts) = []"
  "db_next (demo_db ts) = 0" "db_requests (demo_db ts) = []"
  by (simp_all add: demo_db_def)

section \<open>Action dispatch\<close>

text \<open>
  Dispatch executes no action. For a request id not seen before the lookup answers with a
  wrapped not-found error, which \<^verbatim>\<open>Dispatch\<close> takes for a failure: it returns that error for every
  action, role, task and orchestrator. A request id seen before replays the stored response. In
  either case the database does not change.
\<close>
theorem Dispatch_never_executes:
  "snd (Dispatch orch d taskID role input) = d \<and>
   (ta_action input \<noteq> '''' \<and> ta_request_id input \<noteq> '''' \<longrightarrow>
      fst (Dispatch orch d taskID role input) =
        (case find (\<lambda>r. ar_task_id r = taskID \<and> ar_request_id r = ta_request_id input) (db_requests d) of
           Some r \<Rightarrow> Inr (ar_response r)
         | None \<Rightarrow> Inl (SvcWrapped ''lookup task action request''
                         (Repo (RepoWrapped ''find task action request'' RepoNotFound)))))"
  by (simp add: Dispatch_def FindByRequestID_def split: option.splits)

theorem Dispatch_never_executes_witness:
  "is_err (fst (Dispatch None (demo_db [demo_task ''t'' TaskStatusSpecReview]) ''t'' ''admin''
     \<lparr>ta_action = ''approve_spec'', ta_request_id = ''r1'', ta_comment = ''''\<rparr>))"
  using Dispatch_never_executes [of None "demo_db [demo_task ''t'' TaskStatusSpecReview]" "''t''" "''admin''"
      "\<lparr>ta_action = ''approve_spec'', ta_request_id = ''r1'', ta_comment = ''''\<rparr>"]
  by simp

definition handled_actions :: "string list" where
  "handled_actions =
     [''approve_spec'', ''request_changes'', ''execute'', ''pause'', ''cancel'', ''retry'',
      ''retry_blocked'', ''delete'']"

lemma computed_ids:
  "map act_id (computeAvailableActions t) \<in>
     {[''approve_spec'', ''request_changes'', ''cancel''], [''retry_blocked'', ''cancel''],
      [''retry'', ''delete''], [], [''execute'', ''delete''], [''cancel''], [''pause'', ''cancel'']}"
  by (simp add: computeAvailableActions_def action_def)

lemma run_and_get_known: "fst (run_and_get res i) \<noteq> Inl (Invalid m)"
  by (auto simp: run_and_get_def svc_GetByID_def lift_repo_def split: prod.splits option.splits sum.splits)

lemma run_and_refresh_known: "fst (run_and_refresh res i t) \<noteq> Inl (Invalid m)"
  by (auto simp: run_and_refresh_def split: prod.splits option.splits)

lemma write_back_known: "fst (write_back d i u) \<noteq> Inl (Invalid m)"
  by (auto simp: write_back_def lift_repo_def split: prod.splits sum.splits)

lemma exec_action_known:
  assumes "ta_action input \<in> set handled_actions"
  shows "fst (exec_action orch d t input) \<noteq> Inl (Invalid (UnknownAction x))"
proof -
  have a: "fst (do_approve_spec orch d i) \<noteq> Inl (Invalid (UnknownAction x))" for i
  proof (cases "svc_ApproveAnalysis d i")
    case (Pair r d1)
    have "r \<noteq> Inl (Invalid (UnknownAction x))"
      using Pair write_back_known [of d i] by (auto simp: svc_ApproveAnalysis_def split: sum.splits option.splits)
        (metis fst_conv)
    with Pair show ?thesis
      by (auto simp: do_approve_spec_def run_and_refresh_known split: sum.splits option.splits)
  qed
  have r0: "fst (svc_RequestAnalysisChanges d i c) \<noteq> Inl (Invalid (UnknownAction x))" for d i c
    using write_back_known [of d i]
    by (auto simp: svc_RequestAnalysisChanges_def Let_def split: sum.splits option.splits)
  have r: "fst (do_request_changes orch d i c) \<noteq> Inl (Invalid (UnknownAction x))" for i c
  proof (cases "loop_limit orch d i")
    case (Pair e d1)
    obtain res d2 where s: "svc_RequestAnalysisChanges d1 i c = (res, d2)" by fastforce
    with r0 [of d1 i c] have "res \<noteq> Inl (Invalid (UnknownAction x))" by simp
    with Pair s show ?thesis
      by (auto simp: do_request_changes_def run_and_refresh_known split: sum.splits option.splits prod.splits)
  qed
  have e: "fst (do_execute orch d i) \<noteq> Inl (Invalid (UnknownAction x))" for i
    using run_and_get_known by (auto simp: do_execute_def svc_GetByID_def lift_repo_def split: option.splits sum.splits)
  have n: "fst (need_orch orch d i f) \<noteq> Inl (Invalid (UnknownAction x))" for i f
    using run_and_get_known by (auto simp: need_orch_def split: option.splits)
  have b: "fst (do_retry_blocked orch d t) \<noteq> Inl (Invalid (UnknownAction x))"
    using run_and_get_known by (auto simp: do_retry_blocked_def split: option.splits sum.splits prod.splits)
  have del: "fst (do_delete d t) \<noteq> Inl (Invalid (UnknownAction x))"
    by (auto simp: do_delete_def svc_Delete_def split: option.splits prod.splits)
  from assms a r e n b del show ?thesis
    by (auto simp: exec_action_def handled_actions_def Let_def)
qed

text \<open>
  One approval gate. Approving or requesting changes is offered in spec review and in no other
  status; every action offered for a task is one the switch of \<^verbatim>\<open>execute\<close> knows; and \<^verbatim>\<open>execute\<close>
  refuses as unknown exactly the actions that are not in that list.
\<close>
theorem available_actions_sound:
  "(\<exists>a \<in> set (computeAvailableActions t). act_id a \<in> {''approve_spec'', ''request_changes''}) =
     (t_status t = TaskStatusSpecReview) \<and>
   act_id ` set (computeAvailableActions t) \<subseteq> set handled_actions \<and>
   (fst (exec_action orch d t input) = Inl (Invalid (UnknownAction x))) =
     (ta_action input \<notin> set handled_actions \<and> x = ta_action input)"
proof (intro conjI)
  show "(\<exists>a \<in> set (computeAvailableActions t). act_id a \<in> {''approve_spec'', ''request_changes''}) =
     (t_status t = TaskStatusSpecReview)"
    by (simp add: computeAvailableActions_def action_def)
  have "set (map act_id (computeAvailableActions t)) \<subseteq> set handled_actions"
    using computed_ids [of t] by (auto simp: handled_actions_def)
  then show "act_id ` set (computeAvailableActions t) \<subseteq> set handled_actions" by simp
  show "(fst (exec_action orch d t input) = Inl (Invalid (UnknownAction x))) =
     (ta_action input \<notin> set handled_actions \<and> x = ta_action input)"
  proof (cases "ta_action input \<in> set handled_actions")
    case True
    then show ?thesis using exec_action_known by blast
  next
    case False
    then have "exec_action orch d t input = (Inl (Invalid (UnknownAction (ta_action input))), d)"
      by (simp add: exec_action_def handled_actions_def Let_def)
    with False show ?thesis by auto
  qed
qed

text \<open>
  What is displayed is what is enforced: the policy disables exactly the actions the caller's
  role may not perform, and changes nothing else of them.
\<close>
theorem ApplyActionPolicy_exact:
  assumes "a \<in> set actions" and "act_disabled_reason a = ''''"
  shows "(\<exists>a' \<in> set (ApplyActionPolicy actions role). a'\<lparr>act_disabled_reason := ''''\<rparr> = a \<and>
      (act_disabled_reason a' = '''') = roleSatisfies role (requiredRole (act_id a))) \<and>
    map act_id (ApplyActionPolicy actions role) = map act_id actions"
proof -
  let ?f = "\<lambda>a. if \<not> roleSatisfies role (requiredRole (act_id a))
              then a\<lparr>act_disabled_reason := role_refusal (requiredRole (act_id a))\<rparr> else a"
  have "?f a \<in> set (ApplyActionPolicy actions role)" using assms(1) by (simp add: ApplyActionPolicy_def)
  moreover have "(?f a)\<lparr>act_disabled_reason := ''''\<rparr> = a" using assms(2) by simp
  moreover have "(act_disabled_reason (?f a) = '''') = roleSatisfies role (requiredRole (act_id a))"
    using assms(2) by (simp add: role_refusal_def)
  ultimately show ?thesis by (auto simp: ApplyActionPolicy_def o_def)
qed

theorem ApplyActionPolicy_exact_witness:
  "\<exists>a' \<in> set (ApplyActionPolicy (computeAvailableActions (demo_task ''t'' TaskStatusFailed)) ''member'').
     act_disabled_reason a' \<noteq> ''''"
proof -
  have a: "action ''delete'' ''Delete'' ''danger'' True \<in> set (computeAvailableActions (demo_task ''t'' TaskStatusFailed))"
    by (simp add: computeAvailableActions_def)
  have "\<not> roleSatisfies ''member'' (requiredRole (act_id (action ''delete'' ''Delete'' ''danger'' True)))"
    by (simp add: action_def requiredRole_def actionRolePolicy_def roleSatisfies_def)
  with ApplyActionPolicy_exact [OF a, of "''member''"] show ?thesis by (auto simp: action_def)
qed

section \<open>The status machine\<close>

lemma write_back_lawful:
  assumes "write_back d i u = (r, d')"
    and "\<And>t. find_row (db_tasks d) i = Some t \<Longrightarrow>
      ValidateTaskTransition (t_status t) (set_field (t_status t) (ui_status u)) = None"
    and "\<And>j t. find_row (db_tasks d) j = Some t \<Longrightarrow> t_status t \<noteq> ''''"
  shows "lawful d d'"
proof -
  obtain r0 where u: "repo_Update d i u = (r0, d')" using assms(1) by (auto simp: write_back_def split: prod.splits)
  show ?thesis
  proof (cases r0)
    case (Inl e)
    with u have "d' = d" by (auto dest: repo_Update_Inl)
    with assms(3) show ?thesis by (auto simp: lawful_def)
  next
    case (Inr t')
    with u find_after_update have f: "find_row (db_tasks d') j = (if j = i then Some t' else find_row (db_tasks d) j)" for j
      by blast
    from u Inr obtain t where t: "find_row (db_tasks d) i = Some t" "t' = apply_update u t"
      by (auto simp: repo_Update_Inr)
    show ?thesis unfolding lawful_def f using assms(2) [OF t(1)] assms(3) t by auto
  qed
qed

lemma quiet_lawful:
  "quiet d d' \<Longrightarrow> (\<And>j t. find_row (db_tasks d) j = Some t \<Longrightarrow> t_status t \<noteq> '''') \<Longrightarrow> lawful d d'"
  unfolding quiet_def lawful_def by (metis same_status_valid)

definition statuses_set :: "db \<Rightarrow> bool" where
  "statuses_set d \<longleftrightarrow> (\<forall>j t. find_row (db_tasks d) j = Some t \<longrightarrow> t_status t \<noteq> '''')"

lemma lawful_refl: "statuses_set d \<Longrightarrow> lawful d d"
  by (auto simp: lawful_def statuses_set_def)

lemma svc_Update_lawful:
  assumes "statuses_set d" and "svc_Update d i u = (r, d')"
  shows "lawful d d'"
proof (cases "ui_status u = None \<or> (\<exists>t st. ui_status u = Some st \<and> find_row (db_tasks d) i = Some t \<and>
    ValidateTaskTransition (t_status t) st = None)")
  case True
  then obtain r1 where "write_back d i u = (r1, d')"
    using assms(2) by (auto simp: svc_Update_def get_task_def split: sum.splits prod.splits option.splits)
  then show ?thesis
    by (rule write_back_lawful) (use True assms(1) in \<open>auto simp: statuses_set_def\<close>)
next
  case False
  with assms(2) have "d' = d"
    by (auto simp: svc_Update_def get_task_def split: sum.splits prod.splits option.splits)
  with lawful_refl [OF assms(1)] show ?thesis by simp
qed

lemma svc_ApproveAnalysis_lawful:
  assumes "statuses_set d" and "svc_ApproveAnalysis d i = (r, d')"
  shows "lawful d d'"
proof (cases "\<exists>t. find_row (db_tasks d) i = Some t \<and> ValidateTaskTransition (t_status t) TaskStatusCoding = None")
  case True
  with assms(2) obtain u where "write_back d i u = (r, d')" "ui_status u = Some TaskStatusCoding"
    by (auto simp: svc_ApproveAnalysis_def get_task_def)
  then show ?thesis
    by (intro write_back_lawful) (use True assms(1) in \<open>auto simp: statuses_set_def\<close>)
next
  case False
  with assms(2) have "d' = d"
    by (auto simp: svc_ApproveAnalysis_def get_task_def split: sum.splits option.splits)
  with lawful_refl [OF assms(1)] show ?thesis by simp
qed

lemma svc_RequestAnalysisChanges_lawful:
  assumes "statuses_set d" and "svc_RequestAnalysisChanges d i c = (r, d')"
  shows "lawful d d'"
proof (cases "\<exists>t. find_row (db_tasks d) i = Some t \<and> ValidateTaskTransition (t_status t) TaskStatusAnalyzing = None")
  case True
  with assms(2) obtain u where "write_back d i u = (r, d')" "ui_status u = Some TaskStatusAnalyzing"
    by (auto simp: svc_RequestAnalysisChanges_def get_task_def Let_def)
  then show ?thesis
    by (intro write_back_lawful) (use True assms(1) in \<open>auto simp: statuses_set_def\<close>)
next
  case False
  with assms(2) have "d' = d"
    by (auto simp: svc_RequestAnalysisChanges_def get_task_def split: sum.splits option.splits)
  with lawful_refl [OF assms(1)] show ?thesis by simp
qed

lemma write_back_quiet: "write_back d i u = (r, d') \<Longrightarrow> ui_status u = None \<Longrightarrow> quiet d d'"
  by (auto simp: write_back_def split: prod.splits dest: repo_Update_quiet)

lemma svc_UpdateAnalysis_quiet: "svc_UpdateAnalysis d i a = (r, d') \<Longrightarrow> quiet d d'"
  by (auto simp: svc_UpdateAnalysis_def no_update_def split: if_splits dest: write_back_quiet)

lemma svc_RejectSplit_quiet: "svc_RejectSplit d i = (r, d') \<Longrightarrow> quiet d d'"
  by (auto simp: svc_RejectSplit_def no_update_def split: if_splits sum.splits prod.splits bool.splits
      dest: write_back_quiet)

text \<open>
  C26: The status machine is respected by \<^verbatim>\<open>Update\<close>, \<^verbatim>\<open>ApproveAnalysis\<close>, \<^verbatim>\<open>RequestAnalysisChanges\<close>,
  \<^verbatim>\<open>UpdateAnalysis\<close>, \<^verbatim>\<open>ApproveSplit\<close>, \<^verbatim>\<open>RejectSplit\<close> and \<^verbatim>\<open>CreateSubTask\<close>: whether they succeed or
  fail, every task that existed still exists, with its status unchanged or moved along an allowed
  transition.
\<close>
theorem service_respects_machine:
  assumes "\<forall>j t. find_row (db_tasks d) j = Some t \<longrightarrow> t_status t \<noteq> ''''"
  shows "lawful d (snd (svc_Update d i u)) \<and> lawful d (snd (svc_ApproveAnalysis d i)) \<and>
    lawful d (snd (svc_RequestAnalysisChanges d i c)) \<and> lawful d (snd (svc_UpdateAnalysis d i a)) \<and>
    lawful d (snd (svc_ApproveSplit new_id d i specs mode)) \<and> lawful d (snd (svc_RejectSplit d i)) \<and>
    lawful d (snd (svc_CreateSubTask new_id d i input))"
proof -
  have s: "statuses_set d" using assms by (simp add: statuses_set_def)
  have q: "quiet d d' \<Longrightarrow> lawful d d'" for d' using quiet_lawful assms by blast
  show ?thesis
    using svc_Update_lawful [OF s surjective_pairing] svc_ApproveAnalysis_lawful [OF s surjective_pairing]
      svc_RequestAnalysisChanges_lawful [OF s surjective_pairing]
      q [OF svc_UpdateAnalysis_quiet [OF surjective_pairing]]
      q [OF svc_ApproveSplit_quiet [OF surjective_pairing]]
      q [OF svc_RejectSplit_quiet [OF surjective_pairing]]
      q [OF svc_CreateSubTask_quiet [OF surjective_pairing]] by blast
qed

theorem service_respects_machine_witness:
  "lawful (demo_db [demo_task ''t'' TaskStatusSpecReview])
     (snd (svc_ApproveAnalysis (demo_db [demo_task ''t'' TaskStatusSpecReview]) ''t''))"
  using service_respects_machine [of "demo_db [demo_task ''t'' TaskStatusSpecReview]"]
  by (simp add: find_row_def)

text \<open>
  \<^verbatim>\<open>Clarify\<close> does not respect it: on a merged task, whose status must never change again, any
  answer that is not blank succeeds and writes the status analyzing or coding.
\<close>
theorem Clarify_reopens_merged:
  assumes "find_row (db_tasks d) i = Some t" and "t_status t = TaskStatusMerged" and "trim_space ctx \<noteq> ''''"
  shows "\<exists>t'. find_row (db_tasks (snd (svc_Clarify now d i ctx))) i = Some t' \<and>
    fst (svc_Clarify now d i ctx) = Inr t' \<and>
    t_status t' \<in> {TaskStatusAnalyzing, TaskStatusCoding} \<and>
    ValidateTaskTransition TaskStatusMerged (t_status t') \<noteq> None"
proof -
  let ?st = "if t_paused_step t \<noteq> '''' then StatusForStep (t_paused_step t) else TaskStatusAnalyzing"
  have st: "?st \<in> {TaskStatusAnalyzing, TaskStatusCoding}" by (simp add: StatusForStep_def)
  obtain u where u: "svc_Clarify now d i ctx = write_back d i u" and us: "ui_status u = Some ?st"
    using assms by (simp add: svc_Clarify_def get_task_def Let_def)
  obtain d' where w: "repo_Update d i u = (Inr (apply_update u t), d')"
    using assms(1) by (simp add: repo_Update_def get_task_def)
  have "find_row (db_tasks d') i = Some (apply_update u t)"
    using find_after_update [OF w] by simp
  moreover have "svc_Clarify now d i ctx = (Inr (apply_update u t), d')"
    using u w by (simp add: write_back_def lift_repo_def)
  moreover have "t_status (apply_update u t) = ?st" using us by simp
  moreover have "ValidateTaskTransition TaskStatusMerged s \<noteq> None" if "s \<in> {TaskStatusAnalyzing, TaskStatusCoding}" for s
  proof -
    have "ValidateTaskTransition TaskStatusMerged TaskStatusAnalyzing \<noteq> None"
      "ValidateTaskTransition TaskStatusMerged TaskStatusCoding \<noteq> None" by code_simp+
    with that show ?thesis by blast
  qed
  ultimately show ?thesis using st by (metis snd_conv fst_conv)
qed

theorem Clarify_reopens_merged_witness:
  "\<exists>t'. fst (svc_Clarify 0 (demo_db [demo_task ''t'' TaskStatusMerged]) ''t'' ''please'') = Inr t' \<and>
     t_status t' \<in> {TaskStatusAnalyzing, TaskStatusCoding}"
proof -
  have "find_row (db_tasks (demo_db [demo_task ''t'' TaskStatusMerged])) ''t'' = Some (demo_task ''t'' TaskStatusMerged)"
    by (simp add: find_row_def)
  moreover have "trim_space ''please'' \<noteq> ''''" by code_simp
  ultimately show ?thesis
    using Clarify_reopens_merged [of "demo_db [demo_task ''t'' TaskStatusMerged]" "''t''" "demo_task ''t'' TaskStatusMerged" "''please''" 0]
    by auto
qed

text \<open>
  Nor does \<^verbatim>\<open>Analyze\<close>: a task in status todo with a short description, in a project that exists,
  is written to spec review, which the machine does not allow from todo.
\<close>
theorem Analyze_skips_machine:
  assumes "find_row (db_tasks d) i = Some t" and "t_status t = TaskStatusTodo"
    and "get_project d (t_project_id t) = Inr p" and "length (trim_space (t_description t)) < 30"
    and "prior_rounds t = []" and "\<not> IsDefinitionOfReadyBypassed (t_labels t) 0"
  shows "\<exists>t'. fst (svc_Analyze d i) = Inr t' \<and> t_status t' = TaskStatusSpecReview \<and>
    ValidateTaskTransition (t_status t) (t_status t') \<noteq> None"
proof -
  have "ResolveSpecGate (Some t) (Some p) True 0 = (TaskSpecStatusClarificationRequired, TaskStatusSpecReview)"
    using assms(6) by (simp add: ResolveSpecGate_def Let_def)
  then obtain u where u: "svc_Analyze d i = write_back d i u" "ui_status u = Some TaskStatusSpecReview"
    using assms(1-5) by (simp add: svc_Analyze_def get_task_def Let_def buildTaskAnalysis_def zero_analysis_def)
  have "fst (svc_Analyze d i) = Inr (apply_update u t)"
    using u(1) assms(1) by (simp add: write_back_def lift_repo_def repo_Update_def get_task_def)
  moreover have "ValidateTaskTransition TaskStatusTodo TaskStatusSpecReview \<noteq> None" by code_simp
  ultimately show ?thesis using u(2) assms(2) by simp
qed

theorem Analyze_skips_machine_witness:
  "\<exists>t'. fst (svc_Analyze (demo_db [demo_task ''t'' TaskStatusTodo]) ''t'') = Inr t' \<and>
     t_status t' = TaskStatusSpecReview"
proof -
  let ?t = "demo_task ''t'' TaskStatusTodo" and ?d = "demo_db [demo_task ''t'' TaskStatusTodo]"
  have "find_row (db_tasks ?d) ''t'' = Some ?t" by (simp add: find_row_def)
  moreover have "get_project ?d (t_project_id ?t) = Inr demo_project"
    by (simp add: get_project_def demo_project_def)
  moreover have "length (trim_space (t_description ?t)) < 30" by code_simp
  moreover have "prior_rounds ?t = []" by code_simp
  moreover have "\<not> IsDefinitionOfReadyBypassed (t_labels ?t) 0" by code_simp
  ultimately show ?thesis using Analyze_skips_machine [of ?d "''t''" ?t demo_project] by auto
qed

section \<open>Deletion\<close>

text \<open>
  Deleting a task removes it and leaves no orphan: a task that stays and whose parent existed
  keeps its parent.
\<close>
theorem Delete_leaves_no_orphan:
  assumes "svc_Delete d i = (None, d')"
  shows "find_row (db_tasks d') i = None \<and> set (db_tasks d') \<subseteq> set (db_tasks d) \<and>
    (\<forall>t \<in> set (db_tasks d'). \<forall>p. t_parent_task_id t = Some p \<and> p \<in> t_id ` set (db_tasks d) \<longrightarrow>
       p \<in> t_id ` set (db_tasks d'))"
proof -
  have del: "repo_Delete d i = (None, d')"
    using assms by (auto simp: svc_Delete_def split: prod.splits)
  then have "set (db_tasks d') \<subseteq> set (db_tasks d)"
    by (auto simp: repo_Delete_def Let_def split: option.splits)
  with repo_Delete_closed [OF del] show ?thesis by blast
qed

theorem Delete_leaves_no_orphan_witness:
  "map t_id (db_tasks (snd (svc_Delete (demo_db [demo_task ''a'' TaskStatusTodo, demo_task ''b'' TaskStatusTodo]) ''a''))) = [''b''] \<and>
   find_row (db_tasks (snd (svc_Delete (demo_db [demo_task ''a'' TaskStatusTodo, demo_task ''b'' TaskStatusTodo]) ''a''))) ''a'' = None"
proof -
  let ?d = "demo_db [demo_task ''a'' TaskStatusTodo, demo_task ''b'' TaskStatusTodo]"
  have ok: "fst (svc_Delete ?d ''a'') = None" by code_simp
  have "svc_Delete ?d ''a'' = (None, snd (svc_Delete ?d ''a''))"
    using ok by (metis prod.collapse)
  from Delete_leaves_no_orphan [OF this] have "find_row (db_tasks (snd (svc_Delete ?d ''a''))) ''a'' = None" by blast
  moreover have "map t_id (db_tasks (snd (svc_Delete ?d ''a''))) = [''b'']" by code_simp
  ultimately show ?thesis by blast
qed

end
