(* ===== verification/Task_Split.thy ===== *)
theory Task_Split
  imports Task_Properties
begin

text \<open>
  What \<^verbatim>\<open>TaskService.ApproveSplit\<close> leaves in the database.
\<close>

section \<open>The rows the split creates\<close>

definition fresh_ids :: "(nat \<Rightarrow> string) \<Rightarrow> db \<Rightarrow> bool" where
  "fresh_ids new_id d \<longleftrightarrow> inj new_id \<and> (\<forall>n \<ge> db_next d. new_id n \<notin> t_id ` set (db_tasks d))"

definition split_row :: "(nat \<Rightarrow> string) \<Rightarrow> task \<Rightarrow> string \<Rightarrow> nat \<Rightarrow> nat \<Rightarrow> child_task_spec \<Rightarrow> task" where
  "split_row new_id parent p n i spec =
     (new_task (new_id n) (t_project_id parent) ((child_input parent spec)\<lparr>ci_parent_task_id := Some p\<rparr>))
       \<lparr>t_sequence_index := Some (int i)\<rparr>"

fun split_rows ::
  "(nat \<Rightarrow> string) \<Rightarrow> task \<Rightarrow> string \<Rightarrow> nat \<Rightarrow> nat \<Rightarrow> child_task_spec list \<Rightarrow> task list" where
  "split_rows new_id parent p n i [] = []"
| "split_rows new_id parent p n i (spec # specs) =
     split_row new_id parent p n i spec # split_rows new_id parent p (Suc n) (Suc i) specs"

lemma length_split_rows [simp]: "length (split_rows new_id parent p n i specs) = length specs"
  by (induction specs arbitrary: n i) auto

lemma nth_split_rows:
  "k < length specs \<Longrightarrow>
   split_rows new_id parent p n i specs ! k = split_row new_id parent p (n + k) (i + k) (specs ! k)"
  by (induction specs arbitrary: n i k) (auto simp: nth_Cons split: nat.splits)

lemma split_row_simps [simp]:
  "t_id (split_row new_id parent p n i spec) = new_id n"
  "t_parent_task_id (split_row new_id parent p n i spec) = Some p"
  "t_sequence_index (split_row new_id parent p n i spec) = Some (int i)"
  "t_title (split_row new_id parent p n i spec) = spec_title spec"
  "t_description (split_row new_id parent p n i spec) = spec_instructions spec"
  "t_status (split_row new_id parent p n i spec) = TaskStatusTodo"
  "t_depends_on (split_row new_id parent p n i spec) = []"
  by (simp_all add: split_row_def new_task_def child_input_def)

lemma ids_split_rows: "map t_id (split_rows new_id parent p n i specs) = map new_id [n ..< n + length specs]"
  by (induction specs arbitrary: n i) (auto simp: upt_conv_Cons simp del: upt_Suc)

lemma find_row_None: "find_row ts i = None \<longleftrightarrow> i \<notin> t_id ` set ts"
  by (auto simp: find_row_def find_None_iff)

lemma map_row_absent: "i \<notin> t_id ` set ts \<Longrightarrow> map_row ts i f = ts"
  by (auto simp: map_row_def intro!: map_idI)

lemma map_row_append: "map_row (ts @ us) i f = map_row ts i f @ map_row us i f"
  by (simp add: map_row_def)

lemma apply_sequence:
  "apply_update (no_update\<lparr>ui_sequence_index := Some k\<rparr>) t = t\<lparr>t_sequence_index := Some k\<rparr>"
  by (simp add: apply_update_def no_update_def)

lemma apply_depends:
  "apply_update (no_update\<lparr>ui_depends_on := Some ds\<rparr>) t = t\<lparr>t_depends_on := ds\<rparr>"
  by (simp add: apply_update_def no_update_def)

lemma apply_mode:
  "apply_update (no_update\<lparr>ui_decomposition_mode := Some m\<rparr>) t = t\<lparr>t_decomposition_mode := Some m\<rparr>"
  by (simp add: apply_update_def no_update_def)

text \<open>Updating the row just appended.\<close>

lemma update_last:
  assumes "t_id t \<notin> t_id ` set ts" and "db_tasks d = ts @ t # us" and "t_id t \<notin> t_id ` set us"
  shows "repo_Update d (t_id t) u =
    (Inr (apply_update u t), d\<lparr>db_tasks := ts @ apply_update u t # us\<rparr>)"
proof -
  have "find_row (db_tasks d) (t_id t) = Some t"
    using assms by (auto simp: find_row_append find_row_None [symmetric] split: option.splits)
      (simp add: find_row_def)
  moreover have "map_row (db_tasks d) (t_id t) (apply_update u) = ts @ apply_update u t # us"
    using assms by (simp add: map_row_append map_row_absent) (use map_row_absent [OF assms(3)] in \<open>simp add: map_row_def\<close>)
  ultimately show ?thesis by (simp add: repo_Update_def get_task_def)
qed

section \<open>The first loop\<close>

lemma fresh_step:
  assumes "fresh_ids new_id d" and "t_id t = new_id (db_next d)"
  shows "fresh_ids new_id (d\<lparr>db_tasks := db_tasks d @ [t], db_next := Suc (db_next d)\<rparr>)"
  using assms by (auto simp: fresh_ids_def inj_eq)

definition grow :: "db \<Rightarrow> task list \<Rightarrow> db" where
  "grow d ts = d\<lparr>db_tasks := db_tasks d @ ts, db_next := db_next d + length ts\<rparr>"

lemma grow_simps [simp]:
  "db_tasks (grow d ts) = db_tasks d @ ts" "db_next (grow d ts) = db_next d + length ts"
  "db_repos (grow d ts) = db_repos d" "grow d [] = d" "grow (grow d ts) us = grow d (ts @ us)"
  by (simp_all add: grow_def)

lemma CreateSubTask_ok:
  assumes "find_row (db_tasks d) p = Some parent" and "spec_title spec \<noteq> ''''"
    and "repository_fits d (t_project_id parent) (t_repository_id parent) = None"
  shows "svc_CreateSubTask new_id d p (child_input parent spec) =
    (let t = new_task (new_id (db_next d)) (t_project_id parent)
               ((child_input parent spec)\<lparr>ci_parent_task_id := Some p\<rparr>)
     in (Inr t, grow d [t]))"
  using assms
  by (simp add: svc_CreateSubTask_def get_task_def svc_Create_def child_input_def repo_Create_def
      Let_def grow_def)

lemma create_children_ok:
  assumes "fresh_ids new_id d" and "find_row (db_tasks d) p = Some parent"
    and "\<forall>spec \<in> set specs. spec_title spec \<noteq> ''''"
    and "repository_fits d (t_project_id parent) (t_repository_id parent) = None"
  shows "create_children new_id parent p i specs d =
    (Inr (split_rows new_id parent p (db_next d) i specs),
     grow d (split_rows new_id parent p (db_next d) i specs))"
  using assms
proof (induction specs arbitrary: i d)
  case (Cons spec specs)
  let ?t = "new_task (new_id (db_next d)) (t_project_id parent)
               ((child_input parent spec)\<lparr>ci_parent_task_id := Some p\<rparr>)"
  let ?t' = "split_row new_id parent p (db_next d) i spec"
  have c: "svc_CreateSubTask new_id d p (child_input parent spec) = (Inr ?t, grow d [?t])"
    using CreateSubTask_ok Cons.prems by (simp add: Let_def)
  have id: "t_id ?t = new_id (db_next d)" by (simp add: new_task_def)
  have "new_id (db_next d) \<notin> t_id ` set (db_tasks d)" using Cons.prems(1) by (simp add: fresh_ids_def)
  then have u: "repo_Update (grow d [?t]) (t_id ?t) (no_update\<lparr>ui_sequence_index := Some (int i)\<rparr>) =
      (Inr ?t', grow d [?t'])"
    using update_last [of ?t "db_tasks d" "grow d [?t]" "[]"] id
    by (simp add: apply_sequence split_row_def grow_def)
  have fresh: "fresh_ids new_id (grow d [?t'])"
    using fresh_step [OF Cons.prems(1), of ?t'] by (simp add: grow_def)
  have row: "find_row (db_tasks (grow d [?t'])) p = Some parent"
    using Cons.prems(2) by (simp add: find_row_append)
  have fits: "repository_fits (grow d [?t']) (t_project_id parent) (t_repository_id parent) = None"
    using Cons.prems(4) by (auto simp: repository_fits_def split: option.splits)
  have "\<forall>spec \<in> set specs. spec_title spec \<noteq> ''''" using Cons.prems(3) by simp
  from Cons.IH [OF fresh row this fits, of "Suc i"] c u show ?case
    by (simp add: split_row_def)
qed simp

section \<open>The second loop\<close>

definition linked_row :: "string list \<Rightarrow> child_task_spec \<times> task \<Rightarrow> task" where
  "linked_row ids sc = (snd sc)\<lparr>t_depends_on := dep_ids ids (spec_depends_on (fst sc))\<rparr>"

lemma link_children_ok:
  assumes "db_tasks d = pre @ map snd scs" and "distinct (map (t_id \<circ> snd) scs)"
    and "\<forall>sc \<in> set scs. t_id (snd sc) \<notin> t_id ` set pre \<and> t_depends_on (snd sc) = []"
  shows "link_children ids scs d = (Inr (map (linked_row ids) scs), d\<lparr>db_tasks := pre @ map (linked_row ids) scs\<rparr>)"
  using assms
proof (induction scs arbitrary: pre d)
  case Nil
  then show ?case by simp
next
  case (Cons sc scs)
  obtain spec c where sc: "sc = (spec, c)" by fastforce
  let ?c = "linked_row ids (spec, c)" and ?deps = "dep_ids ids (spec_depends_on spec)"
  have idc: "t_id ?c = t_id c" by (simp add: linked_row_def)
  let ?d = "d\<lparr>db_tasks := (pre @ [?c]) @ map snd scs\<rparr>"
  have IH: "link_children ids scs ?d =
      (Inr (map (linked_row ids) scs), ?d\<lparr>db_tasks := (pre @ [?c]) @ map (linked_row ids) scs\<rparr>)"
    by (rule Cons.IH) (use Cons.prems in \<open>auto simp: sc idc image_iff\<close>)
  show ?case
  proof (cases "?deps = []")
    case True
    then have "?c = c" using Cons.prems(3) by (simp add: linked_row_def sc)
    then have "?d = d" using Cons.prems(1) by (simp add: sc)
    with IH True \<open>?c = c\<close> show ?thesis by (simp add: sc Let_def)
  next
    case False
    have "repo_Update d (t_id c) (no_update\<lparr>ui_depends_on := Some ?deps\<rparr>) = (Inr ?c, ?d)"
      using update_last [of c pre d "map snd scs"] Cons.prems
      by (auto simp: sc apply_depends linked_row_def image_iff)
    with IH False show ?thesis by (simp add: sc Let_def linked_row_def)
  qed
qed

section \<open>The property\<close>

lemma ApproveSplit_ok:
  assumes "fresh_ids new_id d" and "find_row (db_tasks d) p = Some parent"
    and "\<forall>spec \<in> set specs. spec_title spec \<noteq> ''''" and "2 \<le> length specs"
    and "repository_fits d (t_project_id parent) (t_repository_id parent) = None"
    and "mode = ''manual'' \<or> mode = ''auto''"
  shows "\<exists>ids. ids = map new_id [db_next d ..< db_next d + length specs] \<and>
    svc_ApproveSplit new_id d p specs mode =
      (let rows = map (linked_row ids) (zip specs (split_rows new_id parent p (db_next d) 0 specs))
       in (Inr rows,
           d\<lparr>db_tasks := map_row (db_tasks d) p (\<lambda>t. t\<lparr>t_decomposition_mode := Some mode\<rparr>) @ rows,
             db_next := db_next d + length specs\<rparr>))"
proof (intro exI conjI)
  let ?cs = "split_rows new_id parent p (db_next d) 0 specs"
  let ?ids = "map new_id [db_next d ..< db_next d + length specs]"
  let ?scs = "zip specs ?cs"
  let ?rows = "map (linked_row ?ids) ?scs"
  note ids = ids_split_rows [of new_id parent p "db_next d" 0 specs]
  have snd: "map snd ?scs = ?cs" by simp
  have inj: "inj new_id" using assms(1) by (simp add: fresh_ids_def)
  have l: "link_children ?ids ?scs (grow d ?cs) =
      (Inr ?rows, (grow d ?cs)\<lparr>db_tasks := db_tasks d @ ?rows\<rparr>)"
  proof (rule link_children_ok)
    show "db_tasks (grow d ?cs) = db_tasks d @ map snd ?scs" by simp
    have "map (t_id \<circ> snd) ?scs = map t_id (map snd ?scs)" by (simp only: map_map)
    also have "\<dots> = ?ids" by (simp only: snd ids)
    finally have eq: "map (t_id \<circ> snd) ?scs = ?ids" .
    have "distinct ?ids" by (simp only: distinct_map distinct_upt inj_on_subset [OF inj] subset_UNIV simp_thms)
    then show "distinct (map (t_id \<circ> snd) ?scs)" by (simp only: eq)
    show "\<forall>sc \<in> set ?scs. t_id (snd sc) \<notin> t_id ` set (db_tasks d) \<and> t_depends_on (snd sc) = []"
    proof
      fix sc assume "sc \<in> set ?scs"
      then obtain k where k: "k < length specs" "snd sc = ?cs ! k" by (auto simp: in_set_zip)
      with assms(1) show "t_id (snd sc) \<notin> t_id ` set (db_tasks d) \<and> t_depends_on (snd sc) = []"
        by (simp add: nth_split_rows fresh_ids_def)
    qed
  qed
  have rids: "map t_id ?rows = ?ids"
  proof -
    have "map t_id ?rows = map (t_id \<circ> snd) ?scs" by (simp add: linked_row_def)
    also have "\<dots> = map t_id (map snd ?scs)" by (simp only: map_map)
    also have "\<dots> = ?ids" by (simp only: snd ids)
    finally show ?thesis .
  qed
  have "p \<in> t_id ` set (db_tasks d)" using assms(2) find_row_in find_row_id by fastforce
  moreover have "\<forall>i \<in> set ?ids. i \<notin> t_id ` set (db_tasks d)"
    using assms(1) by (simp add: fresh_ids_def)
  ultimately have "p \<notin> set ?ids" by blast
  then have "p \<notin> t_id ` set ?rows" using rids by (metis list.set_map)
  then have mr: "map_row (db_tasks d @ ?rows) p (apply_update (no_update\<lparr>ui_decomposition_mode := Some mode\<rparr>)) =
      map_row (db_tasks d) p (\<lambda>t. t\<lparr>t_decomposition_mode := Some mode\<rparr>) @ ?rows"
    by (simp add: map_row_append map_row_absent) (simp add: map_row_def apply_mode)
  have "find_row (db_tasks d @ ?rows) p = Some parent" using assms(2) by (simp add: find_row_append)
  then have u: "repo_Update ((grow d ?cs)\<lparr>db_tasks := db_tasks d @ ?rows\<rparr>) p
      (no_update\<lparr>ui_decomposition_mode := Some mode\<rparr>) =
      (Inr (parent\<lparr>t_decomposition_mode := Some mode\<rparr>),
       d\<lparr>db_tasks := map_row (db_tasks d) p (\<lambda>t. t\<lparr>t_decomposition_mode := Some mode\<rparr>) @ ?rows,
         db_next := db_next d + length specs\<rparr>)"
    by (simp add: repo_Update_def get_task_def mr apply_mode grow_def del: map_append)
  have "get_task d p = Inr parent" using assms(2) by (simp add: get_task_def)
  moreover have "map t_id ?cs = ?ids" by (rule ids)
  ultimately show "svc_ApproveSplit new_id d p specs mode =
      (let rows = ?rows
       in (Inr rows,
           d\<lparr>db_tasks := map_row (db_tasks d) p (\<lambda>t. t\<lparr>t_decomposition_mode := Some mode\<rparr>) @ rows,
             db_next := db_next d + length specs\<rparr>))"
    using assms(4,6) create_children_ok [OF assms(1,2,3,5), of 0] l u
    by (simp add: svc_ApproveSplit_def Let_def)
qed simp

text \<open>
  C39: Approving a split creates one child per proposal, numbered in order, each a new task in todo
  under the parent with the proposal's title and instructions, and with the ids of exactly those
  siblings its dependency indices name (indices out of range are dropped). The parent is marked, and
  no other task changes.
\<close>
theorem ApproveSplit_creates_children:
  assumes "fresh_ids new_id d" and "find_row (db_tasks d) p = Some parent"
    and "\<forall>spec \<in> set specs. spec_title spec \<noteq> ''''" and "2 \<le> length specs"
    and "repository_fits d (t_project_id parent) (t_repository_id parent) = None"
    and "mode = ''manual'' \<or> mode = ''auto''"
  shows "\<exists>rows d'. svc_ApproveSplit new_id d p specs mode = (Inr rows, d') \<and>
    length rows = length specs \<and>
    db_tasks d' = map_row (db_tasks d) p (\<lambda>t. t\<lparr>t_decomposition_mode := Some mode\<rparr>) @ rows \<and>
    (\<forall>k < length specs.
       t_id (rows ! k) = new_id (db_next d + k) \<and> t_parent_task_id (rows ! k) = Some p \<and>
       t_sequence_index (rows ! k) = Some (int k) \<and> t_status (rows ! k) = TaskStatusTodo \<and>
       t_title (rows ! k) = spec_title (specs ! k) \<and>
       t_description (rows ! k) = spec_instructions (specs ! k) \<and>
       t_depends_on (rows ! k) =
         map (\<lambda>j. t_id (rows ! nat j))
           (filter (\<lambda>j. 0 \<le> j \<and> j < int (length specs)) (spec_depends_on (specs ! k))))"
proof -
  let ?cs = "split_rows new_id parent p (db_next d) 0 specs"
  obtain ids where ids: "ids = map new_id [db_next d ..< db_next d + length specs]"
    and r: "svc_ApproveSplit new_id d p specs mode =
      (let rows = map (linked_row ids) (zip specs ?cs)
       in (Inr rows,
           d\<lparr>db_tasks := map_row (db_tasks d) p (\<lambda>t. t\<lparr>t_decomposition_mode := Some mode\<rparr>) @ rows,
             db_next := db_next d + length specs\<rparr>))"
    using ApproveSplit_ok [OF assms] by blast
  obtain rows where rows: "rows = map (linked_row ids) (zip specs ?cs)" by blast
  have nth: "rows ! k = (split_row new_id parent p (db_next d + k) k (specs ! k))
      \<lparr>t_depends_on := dep_ids ids (spec_depends_on (specs ! k))\<rparr>" if "k < length specs" for k
    using that by (simp add: rows linked_row_def nth_split_rows)
  have len: "length rows = length specs" by (simp add: rows)
  have deps: "t_depends_on (rows ! k) =
         map (\<lambda>j. t_id (rows ! nat j))
           (filter (\<lambda>j. 0 \<le> j \<and> j < int (length specs)) (spec_depends_on (specs ! k)))"
    if "k < length specs" for k
  proof -
    let ?in = "\<lambda>j. 0 \<le> j \<and> j < int (length specs)"
    have "(\<lambda>j. \<not> (j < 0 \<or> int (length ids) \<le> j)) = ?in" by (auto simp: ids)
    then have "t_depends_on (rows ! k) = map (\<lambda>j. ids ! nat j) (filter ?in (spec_depends_on (specs ! k)))"
      unfolding nth [OF that] by (simp add: dep_ids_def)
    also have "\<dots> = map (\<lambda>j. t_id (rows ! nat j)) (filter ?in (spec_depends_on (specs ! k)))"
    proof (rule map_cong [OF refl])
      fix j assume "j \<in> set (filter ?in (spec_depends_on (specs ! k)))"
      then have "nat j < length specs" by auto
      from nth [OF this] show "ids ! nat j = t_id (rows ! nat j)"
        using \<open>nat j < length specs\<close> by (simp add: ids)
    qed
    finally show ?thesis .
  qed
  have row: "t_id (rows ! k) = new_id (db_next d + k) \<and> t_parent_task_id (rows ! k) = Some p \<and>
       t_sequence_index (rows ! k) = Some (int k) \<and> t_status (rows ! k) = TaskStatusTodo \<and>
       t_title (rows ! k) = spec_title (specs ! k) \<and>
       t_description (rows ! k) = spec_instructions (specs ! k)" if "k < length specs" for k
    using nth [OF that] by simp
  let ?d' = "d\<lparr>db_tasks := map_row (db_tasks d) p (\<lambda>t. t\<lparr>t_decomposition_mode := Some mode\<rparr>) @ rows,
             db_next := db_next d + length specs\<rparr>"
  have "svc_ApproveSplit new_id d p specs mode = (Inr rows, ?d')" using r by (simp only: Let_def rows)
  moreover have "db_tasks ?d' = map_row (db_tasks d) p (\<lambda>t. t\<lparr>t_decomposition_mode := Some mode\<rparr>) @ rows" by simp
  ultimately show ?thesis using len row deps by blast
qed

definition demo_specs :: "child_task_spec list" where
  "demo_specs =
     [\<lparr>spec_title = ''api'', spec_instructions = '''', spec_contract =
         \<lparr>input_previous_summary = None, output_expected = []\<rparr>, spec_depends_on = []\<rparr>,
      \<lparr>spec_title = ''ui'', spec_instructions = '''', spec_contract =
         \<lparr>input_previous_summary = None, output_expected = []\<rparr>, spec_depends_on = [0, 7]\<rparr>]"

theorem ApproveSplit_creates_children_witness:
  "\<exists>rows d'. svc_ApproveSplit (\<lambda>n. replicate n CHR ''x'') (demo_db [demo_task ''p'' TaskStatusSpecReview])
       ''p'' demo_specs ''manual'' = (Inr rows, d') \<and>
     t_depends_on (rows ! 1) = ['''']"
proof -
  let ?new = "\<lambda>n. replicate n CHR ''x''" and ?d = "demo_db [demo_task ''p'' TaskStatusSpecReview]"
  have "inj ?new" by (rule injI) (metis length_replicate)
  moreover have "?new n \<noteq> ''p''" for n by (cases n) auto
  ultimately have f: "fresh_ids ?new ?d" by (simp add: fresh_ids_def)
  have p: "find_row (db_tasks ?d) ''p'' = Some (demo_task ''p'' TaskStatusSpecReview)"
    by (simp add: find_row_def)
  have t: "\<forall>spec \<in> set demo_specs. spec_title spec \<noteq> ''''" and l: "2 \<le> length demo_specs"
    by (simp_all add: demo_specs_def)
  have r: "repository_fits ?d (t_project_id (demo_task ''p'' TaskStatusSpecReview))
      (t_repository_id (demo_task ''p'' TaskStatusSpecReview)) = None"
    by (simp add: repository_fits_def)
  from ApproveSplit_creates_children [OF f p t l r, of "''manual''"]
  obtain rows d' where s: "svc_ApproveSplit ?new ?d ''p'' demo_specs ''manual'' = (Inr rows, d')"
    and rows: "\<forall>k < length demo_specs. t_id (rows ! k) = ?new (db_next ?d + k)"
    and deps: "\<forall>k < length demo_specs. t_depends_on (rows ! k) =
         map (\<lambda>j. t_id (rows ! nat j))
           (filter (\<lambda>j. 0 \<le> j \<and> j < int (length demo_specs)) (spec_depends_on (demo_specs ! k)))"
    by auto
  have "t_depends_on (rows ! 1) = ['''']"
    using rows deps by (simp add: demo_specs_def)
  with s show ?thesis by blast
qed

end
