(* ===== verification/Job_Store.thy ===== *)
theory Job_Store
  imports Status_Machines Task_Store
begin

text \<open>
  The rows of workflow jobs, checkpoints and task attempts, with the operations of
  \<^verbatim>\<open>repository/workflow.go\<close> and \<^verbatim>\<open>repository/task_attempt_repo.go\<close>, and the state of the orchestrator
  they are part of. As in the task store rows keep the order of their creation, ids come from a
  generator, and a query fails only on a missing row. Logs (\<^verbatim>\<open>task_logs\<close>, the log hub, the log files)
  are not modelled.
\<close>

section \<open>The state of the orchestrator\<close>

record wf_checkpoint =
  cp_task_id :: string
  cp_job_id :: "string option"
  cp_step :: string
  cp_state :: "gomap raw_json"

text \<open>What the orchestrator does outside the database, in the order it does it.\<close>

datatype effect =
    TaskError string string
  | WakeWorker
  | CancelRun string
  | ReleaseLock string
  | CleanupWorkspace string
  | RemoveWorkspace string
  | RestoreWorktree string string
  | DetectPatterns string
  | AuditRecord string string

record orch_state =
  os_db :: db
  os_jobs :: "workflow_job list"
  os_checkpoints :: "wf_checkpoint list"
  os_attempts :: "task_attempt list"
  os_summaries :: "(string \<times> decomposed_task_summary) list"
  os_effects :: "effect list"
  os_next :: nat

definition add_effect :: "effect \<Rightarrow> orch_state \<Rightarrow> orch_state" where
  "add_effect e st = st\<lparr>os_effects := os_effects st @ [e]\<rparr>"

section \<open>Jobs\<close>

datatype job_error =
    JobRepo repo_error
  | JobTransition transition_err

definition find_job :: "workflow_job list \<Rightarrow> string \<Rightarrow> workflow_job option" where
  "find_job js i = find (\<lambda>j. j_id j = i) js"

definition map_job :: "workflow_job list \<Rightarrow> string \<Rightarrow> (workflow_job \<Rightarrow> workflow_job) \<Rightarrow> workflow_job list" where
  "map_job js i f = map (\<lambda>j. if j_id j = i then f j else j) js"

definition same_job :: "string \<Rightarrow> (workflow_job \<Rightarrow> workflow_job) \<Rightarrow> bool" where
  "same_job i f \<longleftrightarrow> (\<forall>j. j_id (f j) = j_id j)"

lemma find_map_job:
  "same_job i f \<Longrightarrow> find_job (map_job js i f) k = (if k = i then map_option f (find_job js i) else find_job js k)"
  by (induction js) (auto simp: find_job_def map_job_def same_job_def)

interpretation job_rows: row_store find_job map_job same_job
  by unfold_locales (simp add: find_map_job)

definition new_job :: "string \<Rightarrow> int \<Rightarrow> string \<Rightarrow> workflow_job" where
  "new_job i now taskID =
     \<lparr>j_id = i, j_task_id = taskID, j_agent_id = None, j_status = WorkflowJobStatusQueued,
      j_step = ''analyze'', j_attempts = 0, j_last_error = '''', j_sleep_until = None,
      j_created_at = now, j_updated_at = now, j_total_cost_usd = 0, j_total_duration_ms = 0,
      j_total_tokens_used = 0\<rparr>"

definition Enqueue :: "(nat \<Rightarrow> string) \<Rightarrow> int \<Rightarrow> orch_state \<Rightarrow> string \<Rightarrow> workflow_job \<times> orch_state" where
  "Enqueue new_id now st taskID =
     (let j = new_job (new_id (os_next st)) now taskID
      in (j, st\<lparr>os_jobs := os_jobs st @ [j], os_next := Suc (os_next st)\<rparr>))"

text \<open>
  The oldest queued job becomes running and counts one more attempt. The job that is returned has
  the new status; the attempts are an SQL expression, which does not reach it.
\<close>

definition ClaimNext :: "int \<Rightarrow> orch_state \<Rightarrow> (repo_error + workflow_job) \<times> orch_state" where
  "ClaimNext now st =
     (case find (\<lambda>j. j_status j = WorkflowJobStatusQueued) (os_jobs st) of
        None \<Rightarrow> (Inl RepoNotFound, st)
      | Some j \<Rightarrow>
          (Inr (j\<lparr>j_status := WorkflowJobStatusRunning, j_updated_at := now\<rparr>),
           st\<lparr>os_jobs := map_job (os_jobs st) (j_id j)
                 (\<lambda>r. r\<lparr>j_status := WorkflowJobStatusRunning, j_attempts := j_attempts r + 1,
                        j_updated_at := now\<rparr>)\<rparr>))"

definition LatestByTaskID :: "orch_state \<Rightarrow> string \<Rightarrow> repo_error + workflow_job" where
  "LatestByTaskID st taskID =
     (case find (\<lambda>j. j_task_id j = taskID) (rev (os_jobs st)) of
        None \<Rightarrow> Inl (RepoWrapped ''latest workflow job'' RepoNotFound)
      | Some j \<Rightarrow> Inr j)"

text \<open>The columns the callers of \<^verbatim>\<open>UpdateJob\<close> set.\<close>

record job_update =
  ju_status :: "string option"
  ju_step :: "string option"
  ju_last_error :: "string option"
  ju_agent_id :: "string option"
  ju_sleep_until :: "int option"

definition no_job_update :: job_update where
  "no_job_update =
     \<lparr>ju_status = None, ju_step = None, ju_last_error = None, ju_agent_id = None, ju_sleep_until = None\<rparr>"

definition apply_job_update :: "int \<Rightarrow> job_update \<Rightarrow> workflow_job \<Rightarrow> workflow_job" where
  "apply_job_update now u j =
     j\<lparr>j_status := set_field (j_status j) (ju_status u),
       j_step := set_field (j_step j) (ju_step u),
       j_last_error := set_field (j_last_error j) (ju_last_error u),
       j_agent_id := set_field (j_agent_id j) (map_option Some (ju_agent_id u)),
       j_sleep_until := set_field (j_sleep_until j) (map_option Some (ju_sleep_until u)),
       j_updated_at := now\<rparr>"

text \<open>With a new status the current one is loaded and the transition checked first.\<close>

definition status_check :: "orch_state \<Rightarrow> string \<Rightarrow> job_update \<Rightarrow> job_error option" where
  "status_check st jobID u =
     (case ju_status u of
        None \<Rightarrow> None
      | Some s \<Rightarrow>
          (case find_job (os_jobs st) jobID of
             None \<Rightarrow> Some (JobRepo (RepoWrapped ''load workflow job for status validation'' RepoNotFound))
           | Some current \<Rightarrow> map_option JobTransition (ValidateJobTransition (j_status current) s)))"

definition UpdateJob ::
  "int \<Rightarrow> orch_state \<Rightarrow> string \<Rightarrow> job_update \<Rightarrow> (job_error + workflow_job) \<times> orch_state" where
  "UpdateJob now st jobID u =
     (case status_check st jobID u of
        Some e \<Rightarrow> (Inl e, st)
      | None \<Rightarrow>
          (let st' = st\<lparr>os_jobs := map_job (os_jobs st) jobID (apply_job_update now u)\<rparr>
           in case find_job (os_jobs st') jobID of
                None \<Rightarrow> (Inl (JobRepo (RepoWrapped ''reload workflow job'' RepoNotFound)), st')
              | Some j \<Rightarrow> (Inr j, st')))"

definition AccumulateJobTelemetry :: "int \<Rightarrow> orch_state \<Rightarrow> string \<Rightarrow> rat \<Rightarrow> int \<Rightarrow> int \<Rightarrow> orch_state" where
  "AccumulateJobTelemetry now st jobID costUSD durationMS tokensUsed =
     st\<lparr>os_jobs := map_job (os_jobs st) jobID
          (\<lambda>j. j\<lparr>j_total_cost_usd := j_total_cost_usd j + costUSD,
                 j_total_duration_ms := j_total_duration_ms j + durationMS,
                 j_total_tokens_used := j_total_tokens_used j + tokensUsed,
                 j_updated_at := now\<rparr>)\<rparr>"

section \<open>Checkpoints\<close>

definition CreateCheckpoint :: "orch_state \<Rightarrow> wf_checkpoint \<Rightarrow> orch_state" where
  "CreateCheckpoint st cp = st\<lparr>os_checkpoints := os_checkpoints st @ [cp]\<rparr>"

definition ListCheckpoints :: "orch_state \<Rightarrow> string \<Rightarrow> wf_checkpoint list" where
  "ListCheckpoints st taskID = filter (\<lambda>cp. cp_task_id cp = taskID) (os_checkpoints st)"

text \<open>The value of the column the list fills in from the state of a checkpoint.\<close>

definition GetCommitHash :: "wf_checkpoint \<Rightarrow> string" where
  "GetCommitHash cp =
     (case cp_state cp of
        Json state \<Rightarrow> or_zero '''' (as_string (get_key state ''commit_hash''))
      | _ \<Rightarrow> '''')"

text \<open>
  SQL \<^verbatim>\<open>LIKE\<close>: the percent sign stands for any sequence, the underscore for any one character, a
  backslash takes the next character literally.
\<close>

fun like :: "string \<Rightarrow> string \<Rightarrow> bool" where
  "like [] s = (s = [])"
| "like (p # ps) [] = (p = CHR ''%'' \<and> like ps [])"
| "like (p # ps) (c # s) =
     (if p = CHR ''%'' then (if like ps (c # s) then True else like (p # ps) s)
      else if p = CHR ''_'' then like ps s
      else (case (p = CHR 0x5C, ps) of
              (True, q # qs) \<Rightarrow> (if c = q then like qs s else False)
            | _ \<Rightarrow> (if c = p then like ps s else False)))"

definition deletes :: "string list \<Rightarrow> string \<Rightarrow> bool" where
  "deletes steps step = list_ex (\<lambda>s. step = s \<or> like (s @ ''_%'') step) steps"

definition DeleteCheckpoints :: "orch_state \<Rightarrow> string \<Rightarrow> string list \<Rightarrow> orch_state" where
  "DeleteCheckpoints st taskID steps =
     (if steps = [] then st
      else st\<lparr>os_checkpoints :=
                filter (\<lambda>cp. \<not> (cp_task_id cp = taskID \<and> deletes steps (cp_step cp))) (os_checkpoints st)\<rparr>)"

definition DeleteByTaskID :: "orch_state \<Rightarrow> string \<Rightarrow> orch_state" where
  "DeleteByTaskID st taskID =
     st\<lparr>os_checkpoints := filter (\<lambda>cp. cp_task_id cp \<noteq> taskID) (os_checkpoints st)\<rparr>"

section \<open>Recovery of jobs\<close>

definition stuck :: "int \<Rightarrow> workflow_job \<Rightarrow> bool" where
  "stuck now j \<longleftrightarrow> j_status j = WorkflowJobStatusRunning \<and> j_updated_at j < now - 600000000000"

definition requeue :: "int \<Rightarrow> workflow_job \<Rightarrow> workflow_job" where
  "requeue now j = j\<lparr>j_status := WorkflowJobStatusQueued, j_updated_at := now\<rparr>"

definition ResetStuckJobs :: "int \<Rightarrow> orch_state \<Rightarrow> orch_state" where
  "ResetStuckJobs now st =
     (let stuckJobs = filter (stuck now) (os_jobs st)
      in if stuckJobs = [] then st
         else st\<lparr>os_jobs :=
                   map (\<lambda>j. if j_id j \<in> set (map j_id stuckJobs) then requeue now j else j) (os_jobs st),
                 os_db := (os_db st)\<lparr>db_agents :=
                   fold (\<lambda>j. idle_agent (j_agent_id j)) stuckJobs (db_agents (os_db st))\<rparr>\<rparr>)"

definition overslept :: "int \<Rightarrow> workflow_job \<Rightarrow> bool" where
  "overslept now j \<longleftrightarrow>
     j_status j = WorkflowJobStatusSleeping \<and>
     (case j_sleep_until j of None \<Rightarrow> False | Some t \<Rightarrow> t < now)"

definition WakeSleepingJobs :: "int \<Rightarrow> orch_state \<Rightarrow> orch_state" where
  "WakeSleepingJobs now st =
     (let sleepingJobs = filter (overslept now) (os_jobs st)
      in if sleepingJobs = [] then st
         else st\<lparr>os_jobs :=
                   map (\<lambda>j. if j_id j \<in> set (map j_id sleepingJobs)
                            then (requeue now j)\<lparr>j_sleep_until := None\<rparr> else j) (os_jobs st)\<rparr>)"

definition ResetAllRunningJobs :: "int \<Rightarrow> orch_state \<Rightarrow> orch_state" where
  "ResetAllRunningJobs now st =
     st\<lparr>os_jobs := map (\<lambda>j. if j_status j = WorkflowJobStatusRunning then requeue now j else j) (os_jobs st)\<rparr>"

section \<open>Attempts\<close>

definition attempt_Create ::
  "(nat \<Rightarrow> string) \<Rightarrow> int \<Rightarrow> orch_state \<Rightarrow> string \<Rightarrow> string \<Rightarrow> task_attempt \<times> orch_state" where
  "attempt_Create new_id now st taskID sandboxRef =
     (let a = \<lparr>ta_id = new_id (os_next st), ta_task_id = taskID,
               ta_attempt_number = int (length (filter (\<lambda>a. ta_task_id a = taskID) (os_attempts st))) + 1,
               ta_started_at = now, ta_finished_at = None, ta_exit_status = None, ta_tokens_in = None,
               ta_tokens_out = None, ta_cost_usd = None, ta_sandbox_ref = sandboxRef,
               ta_created_at = now, ta_updated_at = now\<rparr>
      in (a, st\<lparr>os_attempts := os_attempts st @ [a], os_next := Suc (os_next st)\<rparr>))"

record finalize_input =
  fi_exit_status :: "int option"
  fi_tokens_in :: "int option"
  fi_tokens_out :: "int option"
  fi_cost_usd :: "rat option"

definition keep_or :: "'a option \<Rightarrow> 'a option \<Rightarrow> 'a option" where
  "keep_or old new = (case new of None \<Rightarrow> old | Some x \<Rightarrow> Some x)"

definition attempt_Finalize ::
  "int \<Rightarrow> orch_state \<Rightarrow> string \<Rightarrow> finalize_input \<Rightarrow> (repo_error + task_attempt) \<times> orch_state" where
  "attempt_Finalize now st i input =
     (let upd = (\<lambda>a. a\<lparr>ta_finished_at := Some now,
                       ta_exit_status := keep_or (ta_exit_status a) (fi_exit_status input),
                       ta_tokens_in := keep_or (ta_tokens_in a) (fi_tokens_in input),
                       ta_tokens_out := keep_or (ta_tokens_out a) (fi_tokens_out input),
                       ta_cost_usd := keep_or (ta_cost_usd a) (fi_cost_usd input),
                       ta_updated_at := now\<rparr>);
          rows = map (\<lambda>a. if ta_id a = i then upd a else a) (os_attempts st);
          st' = st\<lparr>os_attempts := rows\<rparr>
      in case find (\<lambda>a. ta_id a = i) rows of
           None \<Rightarrow> (Inl (RepoWrapped ''get task attempt'' RepoNotFound), st')
         | Some a \<Rightarrow> (Inr a, st'))"

definition attempt_ListByTaskID :: "orch_state \<Rightarrow> string \<Rightarrow> task_attempt list" where
  "attempt_ListByTaskID st taskID =
     sort_key ta_attempt_number (filter (\<lambda>a. ta_task_id a = taskID) (os_attempts st))"

definition attempt_GetLatest :: "orch_state \<Rightarrow> string \<Rightarrow> repo_error + task_attempt" where
  "attempt_GetLatest st taskID =
     (case sort_key (\<lambda>a. - ta_attempt_number a) (filter (\<lambda>a. ta_task_id a = taskID) (os_attempts st)) of
        [] \<Rightarrow> Inl (RepoWrapped ''get latest task attempt'' RepoNotFound)
      | a # _ \<Rightarrow> Inr a)"

text \<open>The rows of the tasks, by attempt number; the order between tasks does not matter to the caller.\<close>

definition attempt_ListByTaskIDs :: "orch_state \<Rightarrow> string list \<Rightarrow> task_attempt list" where
  "attempt_ListByTaskIDs st taskIDs =
     (if taskIDs = [] then []
      else sort_key ta_attempt_number (filter (\<lambda>a. ta_task_id a \<in> set taskIDs) (os_attempts st)))"

section \<open>Laws\<close>

lemma same_job_apply [simp]: "same_job i (apply_job_update now u)"
  by (simp add: same_job_def apply_job_update_def)

lemma find_job_id: "find_job js i = Some j \<Longrightarrow> j_id j = i"
  by (auto simp: find_job_def find_Some_iff)

lemma find_job_map:
  "(\<And>r. j_id (f r) = j_id r) \<Longrightarrow> find_job (map f js) i = map_option f (find_job js i)"
  by (induction js) (auto simp: find_job_def)

lemma find_job_unique:
  "distinct (map j_id js) \<Longrightarrow> find_job js i = Some j \<Longrightarrow> r \<in> set js \<Longrightarrow> j_id r = i \<Longrightarrow> r = j"
  by (induction js) (auto simp: find_job_def split: if_splits)

lemma UpdateJob_db [simp]: "os_db (snd (UpdateJob now st i u)) = os_db st"
  by (simp add: UpdateJob_def Let_def split: option.splits)

lemma UpdateJob_found:
  assumes "find_job (os_jobs st) i = Some j"
  shows "UpdateJob now st i u =
    (case Option.bind (ju_status u) (ValidateJobTransition (j_status j)) of
       Some e \<Rightarrow> (Inl (JobTransition e), st)
     | None \<Rightarrow> (Inr (apply_job_update now u j),
                st\<lparr>os_jobs := map_job (os_jobs st) i (apply_job_update now u)\<rparr>))"
  using assms
  by (cases "ju_status u") (auto simp: UpdateJob_def status_check_def Let_def job_rows.lookup_modify split: option.splits)

text \<open>No status but sleeping itself may become sleeping: the table has no such entry.\<close>

lemma no_sleep_transition:
  "s \<noteq> WorkflowJobStatusSleeping \<Longrightarrow> ValidateJobTransition s WorkflowJobStatusSleeping \<noteq> None"
  by (auto simp: ValidateJobTransition_def ValidWorkflowJobTransitions_def split: if_splits option.splits)

end
