(* ===== verification/Guardrails.thy ===== *)
theory Guardrails
  imports Task_Properties Job_Store
begin

text \<open>
  The execution guardrails: the pure checks of \<^verbatim>\<open>internal/service/task_guardrail.go\<close> and their use at
  the status writes of \<^verbatim>\<open>internal/orchestrator/tracker.go\<close>. Times are nanoseconds and kept in 64 bits
  where the source multiplies them. The list of secret patterns is a parameter: for each pattern,
  whether it matches and its text. What a status write does outside the database (learning, the
  \<^verbatim>\<open>task.json\<close> snapshot, logs) is not modelled; the \<^verbatim>\<open>task.error\<close> events it emits are.
\<close>

section \<open>The checks\<close>

abbreviation GuardrailReasonMaxRetries :: string where "GuardrailReasonMaxRetries \<equiv> ''max_retries_exceeded''"
abbreviation GuardrailReasonExecutionTime :: string where "GuardrailReasonExecutionTime \<equiv> ''execution_timeout''"
abbreviation GuardrailReasonEventVolume :: string where "GuardrailReasonEventVolume \<equiv> ''event_volume_exceeded''"

definition EvalMaxRetries :: "int \<Rightarrow> int \<Rightarrow> bool" where
  "EvalMaxRetries retryCount maxRetries = (if maxRetries \<le> 0 then False else retryCount \<ge> maxRetries)"

definition wrap64 :: "int \<Rightarrow> int" where "wrap64 x = signed_take_bit 63 x"

text \<open>\<^verbatim>\<open>Time.Sub\<close> saturates, the product of durations wraps.\<close>

definition sat64 :: "int \<Rightarrow> int" where
  "sat64 x = max (- (2 ^ 63)) (min (2 ^ 63 - 1) x)"

definition EvalExecutionTimeout :: "int option \<Rightarrow> int \<Rightarrow> int \<Rightarrow> bool" where
  "EvalExecutionTimeout startedAt now maxMinutes =
     (case startedAt of
        None \<Rightarrow> False
      | Some s \<Rightarrow>
          if maxMinutes \<le> 0 then False else sat64 (now - s) > wrap64 (maxMinutes * 60000000000))"

definition EvalCostBudget :: "rat option \<Rightarrow> rat option \<Rightarrow> bool" where
  "EvalCostBudget costSoFar costBudget = False"

definition EvalEventVolume :: "int \<Rightarrow> int \<Rightarrow> bool" where
  "EvalEventVolume eventCount maxEvents = (if maxEvents \<le> 0 then False else eventCount \<ge> maxEvents)"

type_synonym secret_pattern = "(string \<Rightarrow> bool) \<times> string"

definition scanForHardcodedSecret :: "secret_pattern list \<Rightarrow> string \<Rightarrow> string" where
  "scanForHardcodedSecret patterns diffContent =
     (case find (\<lambda>p. fst p diffContent) patterns of
        Some p \<Rightarrow> ''diff appears to match a hardcoded-secret pattern ('' @ snd p @ '')''
      | None \<Rightarrow> '''')"

definition deny_match :: "string list \<Rightarrow> string list \<Rightarrow> (string \<times> string) option" where
  "deny_match changedPaths denyListPaths =
     find (\<lambda>(path, deny). deny \<noteq> '''' \<and> str_contains path deny) (List.product changedPaths denyListPaths)"

definition EvalSecurityReview ::
  "secret_pattern list \<Rightarrow> string list \<Rightarrow> string list \<Rightarrow> string \<Rightarrow> bool \<times> string" where
  "EvalSecurityReview patterns changedPaths denyListPaths diffContent =
     (case deny_match changedPaths denyListPaths of
        Some (path, deny) \<Rightarrow> (True, ''path '' @ path @ '' matches deny-list entry '' @ deny)
      | None \<Rightarrow>
          (let reason = scanForHardcodedSecret patterns diffContent
           in if reason \<noteq> '''' then (True, reason) else (False, '''')))"

definition DefaultSecurityDenyListPaths :: "string list" where
  "DefaultSecurityDenyListPaths = [''.github/workflows/'', ''infra/'']"

definition checkSecurityReview :: "secret_pattern list \<Rightarrow> string list \<Rightarrow> string \<Rightarrow> bool \<times> string" where
  "checkSecurityReview patterns changedPaths diffContent =
     EvalSecurityReview patterns changedPaths DefaultSecurityDenyListPaths diffContent"

section \<open>The guardrails at a status write\<close>

definition guard_retry :: "task \<Rightarrow> string \<Rightarrow> int" where
  "guard_retry t newStatus =
     (let r = (if newStatus = TaskStatusFixing \<and>
                  (t_status t = TaskStatusTesting \<or> t_status t = TaskStatusReviewing)
               then t_retry_count t + 1 else t_retry_count t)
      in if t_status t = TaskStatusTesting \<and>
            (newStatus = TaskStatusPrReady \<or> newStatus = TaskStatusMerged \<or> newStatus = TaskStatusHumanReview)
         then 0 else r)"

definition guard_started :: "int \<Rightarrow> task \<Rightarrow> int option" where
  "guard_started now t =
     (if t_status t = TaskStatusTodo \<and> t_execution_started_at t = None then Some now
      else t_execution_started_at t)"

definition guard_limits :: "db \<Rightarrow> task \<Rightarrow> int \<times> int" where
  "guard_limits d t =
     (case get_project d (t_project_id t) of
        Inl _ \<Rightarrow> (5, 120)
      | Inr p \<Rightarrow>
          (if p_max_task_retry_count p > 0 then p_max_task_retry_count p else 5,
           if p_max_execution_minutes p > 0 then p_max_execution_minutes p else 120))"

definition guard_reason :: "int \<Rightarrow> db \<Rightarrow> task \<Rightarrow> string \<Rightarrow> string" where
  "guard_reason now d t newStatus =
     (if newStatus \<noteq> TaskStatusBlocked \<and> newStatus \<noteq> TaskStatusFailed \<and> newStatus \<noteq> TaskStatusMerged then
        (let (maxRetries, maxMinutes) = guard_limits d t
         in if EvalMaxRetries (guard_retry t newStatus) maxRetries then GuardrailReasonMaxRetries
            else if EvalExecutionTimeout (guard_started now t) now maxMinutes
              then GuardrailReasonExecutionTime
            else '''')
      else '''')"

text \<open>The update to write, and the status as the guardrails leave it.\<close>

definition applyGuardrails :: "int \<Rightarrow> db \<Rightarrow> task \<Rightarrow> string \<Rightarrow> update_task_input \<times> string" where
  "applyGuardrails now d t newStatus =
     (let retryCount = guard_retry t newStatus;
          blockReason = guard_reason now d t newStatus
      in (no_update
            \<lparr>ui_retry_count := (if retryCount \<noteq> t_retry_count t then Some retryCount else None),
             ui_execution_started_at :=
               (if t_status t = TaskStatusTodo \<and> t_execution_started_at t = None then Some now else None),
             ui_block_reason := Some blockReason\<rparr>,
          if blockReason \<noteq> '''' then TaskStatusBlocked else newStatus))"

definition emit_error :: "string \<Rightarrow> string \<Rightarrow> orch_state \<Rightarrow> orch_state" where
  "emit_error taskID reason st = add_effect (TaskError taskID reason) st"

text \<open>
  \<^verbatim>\<open>updateTaskStatus\<close> up to the hook for children (which is added with the decomposition).
\<close>

definition write_status :: "int \<Rightarrow> orch_state \<Rightarrow> string \<Rightarrow> string \<Rightarrow> (svc_error + task) \<times> orch_state" where
  "write_status now st taskID newStatus =
     (case get_task (os_db st) taskID of
        Inl e \<Rightarrow> (Inl (Repo e), st)
      | Inr t \<Rightarrow>
          (let (input, status') = applyGuardrails now (os_db st) t newStatus;
               reason = guard_reason now (os_db st) t newStatus;
               st1 = (if reason \<noteq> '''' then emit_error taskID reason st else st)
           in case ValidateTaskTransition (t_status t) status' of
                Some e \<Rightarrow> (Inl (Invalid (BadTransition e)), st1)
              | None \<Rightarrow>
                  (case repo_Update (os_db st1) taskID (input\<lparr>ui_status := Some status'\<rparr>) of
                     (Inl e, d') \<Rightarrow> (Inl (Repo e), st1)
                   | (Inr t', d') \<Rightarrow> (Inr t', st1\<lparr>os_db := d'\<rparr>))))"

definition blockTask :: "orch_state \<Rightarrow> string \<Rightarrow> string \<Rightarrow> svc_error option \<times> orch_state" where
  "blockTask st taskID reason =
     (case get_task (os_db st) taskID of
        Inl e \<Rightarrow> (Some (Repo e), st)
      | Inr t \<Rightarrow>
          if t_status t \<in> {TaskStatusBlocked, TaskStatusFailed, TaskStatusMerged} then (None, st)
          else (case ValidateTaskTransition (t_status t) TaskStatusBlocked of
                  Some e \<Rightarrow> (Some (Invalid (BadTransition e)), st)
                | None \<Rightarrow>
                    (case repo_Update (os_db st) taskID
                            (no_update\<lparr>ui_status := Some TaskStatusBlocked, ui_block_reason := Some reason\<rparr>) of
                       (Inl e, d') \<Rightarrow> (Some (Repo e), st)
                     | (Inr t', d') \<Rightarrow> (None, emit_error taskID reason (st\<lparr>os_db := d'\<rparr>)))))"

text \<open>The number of events of a task comes from the event store: a parameter, \<open>None\<close> when the count fails.\<close>

definition max_events :: "db \<Rightarrow> string \<Rightarrow> int" where
  "max_events d taskID =
     (case get_task d taskID of
        Inl _ \<Rightarrow> 20000
      | Inr t \<Rightarrow>
          (case get_project d (t_project_id t) of
             Inl _ \<Rightarrow> 20000
           | Inr p \<Rightarrow> if p_max_event_count p > 0 then p_max_event_count p else 20000))"

definition checkEventVolumeGuardrail :: "(string \<Rightarrow> int option) \<Rightarrow> orch_state \<Rightarrow> string \<Rightarrow> orch_state" where
  "checkEventVolumeGuardrail countByTaskID st taskID =
     (case countByTaskID taskID of
        None \<Rightarrow> st
      | Some n \<Rightarrow>
          if \<not> EvalEventVolume n (max_events (os_db st) taskID) then st
          else snd (blockTask st taskID GuardrailReasonEventVolume))"

section \<open>What a status write does\<close>

lemma emit_error_db [simp]: "os_db (emit_error i r st) = os_db st"
  by (simp add: emit_error_def add_effect_def)

lemma applyGuardrails_status:
  "snd (applyGuardrails now d t s) = (if guard_reason now d t s \<noteq> '''' then TaskStatusBlocked else s)"
  by (simp add: applyGuardrails_def Let_def)

lemma write_status_cases:
  assumes "find_row (db_tasks (os_db st)) i = Some t"
  shows "let s' = (if guard_reason now (os_db st) t s \<noteq> '''' then TaskStatusBlocked else s) in
    (case ValidateTaskTransition (t_status t) s' of
       Some e \<Rightarrow> fst (write_status now st i s) = Inl (Invalid (BadTransition e)) \<and>
                 os_db (snd (write_status now st i s)) = os_db st
     | None \<Rightarrow>
         (\<exists>t'. fst (write_status now st i s) = Inr t' \<and>
           t' = apply_update ((fst (applyGuardrails now (os_db st) t s))\<lparr>ui_status := Some s'\<rparr>) t \<and>
           (\<forall>j. find_row (db_tasks (os_db (snd (write_status now st i s)))) j =
              (if j = i then Some t' else find_row (db_tasks (os_db st)) j))))"
proof -
  obtain inp s' where a: "applyGuardrails now (os_db st) t s = (inp, s')" by fastforce
  then have s': "s' = (if guard_reason now (os_db st) t s \<noteq> '''' then TaskStatusBlocked else s)"
    using applyGuardrails_status [of now "os_db st" t s] by simp
  have g: "get_task (os_db st) i = Inr t" using assms by (simp add: get_task_def)
  show ?thesis
  proof (cases "ValidateTaskTransition (t_status t) s'")
    case (Some e)
    with g a show ?thesis by (simp add: write_status_def Let_def s' [symmetric])
  next
    case None
    have u: "repo_Update (os_db st) i (inp\<lparr>ui_status := Some s'\<rparr>) =
        (Inr (apply_update (inp\<lparr>ui_status := Some s'\<rparr>) t),
         (os_db st)\<lparr>db_tasks := map_row (db_tasks (os_db st)) i (apply_update (inp\<lparr>ui_status := Some s'\<rparr>))\<rparr>)"
      using g by (simp add: repo_Update_def)
    from find_after_update [OF u] g a None u show ?thesis
      by (simp add: write_status_def Let_def s' [symmetric] rows.lookup_modify)
  qed
qed

lemma guard_fields:
  "t_retry_count (apply_update ((fst (applyGuardrails now d t s))\<lparr>ui_status := Some s'\<rparr>) t) = guard_retry t s"
  "t_status (apply_update ((fst (applyGuardrails now d t s))\<lparr>ui_status := Some s'\<rparr>) t) = s'"
  "t_block_reason (apply_update ((fst (applyGuardrails now d t s))\<lparr>ui_status := Some s'\<rparr>) t) =
     guard_reason now d t s"
  "t_project_id (apply_update ((fst (applyGuardrails now d t s))\<lparr>ui_status := Some s'\<rparr>) t) = t_project_id t"
  by (simp_all add: applyGuardrails_def Let_def apply_update_def no_update_def)

text \<open>The invariant: a task at its retry limit is blocked, failed or merged, and never above it.\<close>

definition within_retries :: "int \<Rightarrow> task \<Rightarrow> bool" where
  "within_retries m t \<longleftrightarrow>
     0 \<le> t_retry_count t \<and> t_retry_count t \<le> m \<and>
     (t_retry_count t = m \<longrightarrow> t_status t \<in> {TaskStatusBlocked, TaskStatusFailed, TaskStatusMerged})"

lemma guard_retry_bounds:
  assumes "within_retries m t" and "0 < m"
  shows "0 \<le> guard_retry t s \<and> guard_retry t s \<le> m"
proof (cases "t_status t = TaskStatusTesting \<or> t_status t = TaskStatusReviewing")
  case True
  then have "t_retry_count t < m" using assms(1) by (auto simp: within_retries_def)
  with assms show ?thesis by (auto simp: guard_retry_def Let_def within_retries_def)
next
  case False
  with assms show ?thesis by (auto simp: guard_retry_def Let_def within_retries_def)
qed

lemma guard_trips_at_limit:
  assumes "guard_retry t s = fst (guard_limits d t)" and "0 < fst (guard_limits d t)"
    and "s \<notin> {TaskStatusBlocked, TaskStatusFailed, TaskStatusMerged}"
  shows "guard_reason now d t s \<noteq> ''''"
  using assms by (auto simp: guard_reason_def EvalMaxRetries_def Let_def split: prod.splits)

lemma limits_positive: "0 < fst (guard_limits d t)" "0 < snd (guard_limits d t)"
  by (auto simp: guard_limits_def split: sum.splits)

lemma write_status_within:
  assumes "find_row (db_tasks (os_db st)) i = Some t"
    and "within_retries (fst (guard_limits (os_db st) t)) t"
    and "fst (write_status now st i s) = Inr t'"
  shows "within_retries (fst (guard_limits (os_db st) t)) t'"
proof -
  let ?m = "fst (guard_limits (os_db st) t)"
  let ?s' = "if guard_reason now (os_db st) t s \<noteq> '''' then TaskStatusBlocked else s"
  note w = write_status_cases [OF assms(1), of now s]
  have t': "t' = apply_update ((fst (applyGuardrails now (os_db st) t s))\<lparr>ui_status := Some ?s'\<rparr>) t"
    using w assms(3) by (cases "ValidateTaskTransition (t_status t) ?s'") (auto simp: Let_def)
  have "?s' \<in> {TaskStatusBlocked, TaskStatusFailed, TaskStatusMerged}" if "guard_retry t s = ?m"
  proof (cases "s \<in> {TaskStatusBlocked, TaskStatusFailed, TaskStatusMerged}")
    case True
    then show ?thesis by auto
  next
    case False
    from guard_trips_at_limit [OF that limits_positive(1) this] show ?thesis by simp
  qed
  with guard_retry_bounds [OF assms(2) limits_positive(1), of s] show ?thesis
    unfolding within_retries_def t' guard_fields by blast
qed

section \<open>Properties\<close>

text \<open>
  C23: The retry limit holds: whatever status is written, a task whose retry count is within the
  project's limit stays within it, and one that reaches the limit is left blocked, failed or merged,
  never running.
\<close>
theorem retry_limit_invariant:
  assumes "find_row (db_tasks (os_db st)) i = Some t"
    and "within_retries (fst (guard_limits (os_db st) t)) t"
    and "write_status now st i s = (r, st')" and "find_row (db_tasks (os_db st')) i = Some t'"
  shows "within_retries (fst (guard_limits (os_db st) t)) t'"
proof -
  let ?s' = "if guard_reason now (os_db st) t s \<noteq> '''' then TaskStatusBlocked else s"
  note w = write_status_cases [OF assms(1), of now s]
  show ?thesis
  proof (cases "ValidateTaskTransition (t_status t) ?s'")
    case None
    with w obtain u where u: "fst (write_status now st i s) = Inr u"
      "find_row (db_tasks (os_db (snd (write_status now st i s)))) i = Some u"
      by (auto simp: Let_def)
    with assms(3,4) have "t' = u" by simp
    with write_status_within [OF assms(1,2) u(1)] show ?thesis by simp
  next
    case (Some e)
    with w have "os_db (snd (write_status now st i s)) = os_db st" by (simp add: Let_def)
    with assms have "t' = t" by simp
    with assms(2) show ?thesis by simp
  qed
qed

definition demo_running :: "string \<Rightarrow> int \<Rightarrow> task" where
  "demo_running st n = (demo_task ''t'' st)\<lparr>t_retry_count := n\<rparr>"

definition demo_state :: "task \<Rightarrow> orch_state" where
  "demo_state t =
     \<lparr>os_db = demo_db [t], os_jobs = [], os_checkpoints = [], os_attempts = [], os_summaries = [],
      os_effects = [], os_next = 0\<rparr>"

theorem retry_limit_invariant_witness:
  "\<exists>t'. fst (write_status 0 (demo_state (demo_running TaskStatusTesting 4)) ''t'' TaskStatusFixing) = Inr t' \<and>
     within_retries 5 t' \<and> t_status t' = TaskStatusBlocked"
proof -
  let ?t = "demo_running TaskStatusTesting 4"
  let ?st = "demo_state ?t"
  let ?w = "write_status 0 ?st ''t'' TaskStatusFixing"
  have f: "find_row (db_tasks (os_db ?st)) ''t'' = Some ?t"
    by (simp add: demo_state_def demo_running_def find_row_def)
  have l: "fst (guard_limits (os_db ?st) ?t) = 5" by code_simp
  have i: "within_retries (fst (guard_limits (os_db ?st) ?t)) ?t" unfolding l by code_simp
  have st: "map_option t_status (case fst ?w of Inr t' \<Rightarrow> Some t' | Inl _ \<Rightarrow> None) = Some TaskStatusBlocked"
    by code_simp
  then obtain t' where t': "fst ?w = Inr t'" "t_status t' = TaskStatusBlocked"
    by (auto split: sum.splits)
  from write_status_cases [OF f, of 0 TaskStatusFixing] t'(1)
  have row: "find_row (db_tasks (os_db (snd ?w))) ''t'' = Some t'"
    by (auto simp: Let_def split: option.splits if_splits)
  from retry_limit_invariant [OF f i surjective_pairing row] l t' show ?thesis by auto
qed

text \<open>
  A guardrail cannot stop a task everywhere. In the statuses from which blocked is not an
  allowed next status, a tripped guardrail makes the write fail: the task keeps its status, and
  every further write but to failed or merged fails the same way.
\<close>
theorem tripped_guardrail_rejects:
  assumes "find_row (db_tasks (os_db st)) i = Some t"
    and "t_status t \<in> {TaskStatusTodo, TaskStatusContextLoading, TaskStatusAnalyzing, TaskStatusSpecReview,
           TaskStatusPrReady, TaskStatusHumanReview, TaskStatusFailed}"
    and "guard_reason now (os_db st) t s \<noteq> ''''"
  shows "fst (write_status now st i s) =
      Inl (Invalid (BadTransition (InvalidTaskTransition (t_status t) TaskStatusBlocked))) \<and>
    os_db (snd (write_status now st i s)) = os_db st"
proof -
  have "list_all (\<lambda>s. ValidateTaskTransition s TaskStatusBlocked = Some (InvalidTaskTransition s TaskStatusBlocked))
      [TaskStatusTodo, TaskStatusContextLoading, TaskStatusAnalyzing, TaskStatusSpecReview,
       TaskStatusPrReady, TaskStatusHumanReview, TaskStatusFailed]" by code_simp
  with assms(2) have "ValidateTaskTransition (t_status t) TaskStatusBlocked =
      Some (InvalidTaskTransition (t_status t) TaskStatusBlocked)"
    unfolding list_all_iff by (metis (no_types, lifting) list.simps(15) empty_set)
  with write_status_cases [OF assms(1), of now s] assms(3) show ?thesis by (simp add: Let_def)
qed

theorem tripped_guardrail_rejects_witness:
  "fst (write_status 10000000000000 (demo_state ((demo_task ''t'' TaskStatusAnalyzing)\<lparr>t_execution_started_at := Some 0\<rparr>))
     ''t'' TaskStatusCoding) =
   Inl (Invalid (BadTransition (InvalidTaskTransition TaskStatusAnalyzing TaskStatusBlocked)))"
proof -
  let ?t = "(demo_task ''t'' TaskStatusAnalyzing)\<lparr>t_execution_started_at := Some 0\<rparr>"
  have f: "find_row (db_tasks (os_db (demo_state ?t))) ''t'' = Some ?t"
    by (simp add: demo_state_def find_row_def)
  have "guard_reason 10000000000000 (os_db (demo_state ?t)) ?t TaskStatusCoding = GuardrailReasonExecutionTime"
    by code_simp
  then have g: "guard_reason 10000000000000 (os_db (demo_state ?t)) ?t TaskStatusCoding \<noteq> ''''" by simp
  from tripped_guardrail_rejects [OF f _ g] show ?thesis by simp
qed

text \<open>
  A task blocked at its retry limit cannot be resumed: writing coding or fixing, the two
  statuses meant for that, leaves it blocked, for the count is not reset on the way.
\<close>
theorem blocked_at_limit_stays_blocked:
  assumes "find_row (db_tasks (os_db st)) i = Some t" and "t_status t = TaskStatusBlocked"
    and "t_retry_count t \<ge> fst (guard_limits (os_db st) t)"
    and "s = TaskStatusCoding \<or> s = TaskStatusFixing"
  shows "\<exists>t'. fst (write_status now st i s) = Inr t' \<and> t_status t' = TaskStatusBlocked \<and>
    t_block_reason t' = GuardrailReasonMaxRetries \<and> t_retry_count t' = t_retry_count t"
proof -
  have r: "guard_retry t s = t_retry_count t" using assms(2) by (simp add: guard_retry_def Let_def)
  have s: "s \<noteq> TaskStatusBlocked" "s \<noteq> TaskStatusFailed" "s \<noteq> TaskStatusMerged" using assms(4) by auto
  have g: "guard_reason now (os_db st) t s = GuardrailReasonMaxRetries"
    using s r assms(3) limits_positive(1) [of "os_db st" t]
    by (auto simp: guard_reason_def EvalMaxRetries_def Let_def split: prod.splits)
  from write_status_cases [OF assms(1), of now s] g assms(2)
  obtain t' where "fst (write_status now st i s) = Inr t'"
    "t' = apply_update ((fst (applyGuardrails now (os_db st) t s))\<lparr>ui_status := Some TaskStatusBlocked\<rparr>) t"
    by (auto simp: Let_def)
  with g r show ?thesis by (simp add: guard_fields)
qed

theorem blocked_at_limit_stays_blocked_witness:
  "\<exists>t'. fst (write_status 0 (demo_state (demo_running TaskStatusBlocked 5)) ''t'' TaskStatusFixing) = Inr t' \<and>
     t_status t' = TaskStatusBlocked"
proof -
  let ?t = "demo_running TaskStatusBlocked 5"
  have f: "find_row (db_tasks (os_db (demo_state ?t))) ''t'' = Some ?t"
    by (simp add: demo_state_def demo_running_def find_row_def)
  have s: "t_status ?t = TaskStatusBlocked" by (simp add: demo_running_def)
  have l: "t_retry_count ?t \<ge> fst (guard_limits (os_db (demo_state ?t)) ?t)" by code_simp
  from blocked_at_limit_stays_blocked [OF f s l] show ?thesis by blast
qed

text \<open>
  The timeout check is exact, as long as the limit in nanoseconds fits 64 bits: a run is over
  time exactly when more than the limit has passed since it started.
\<close>
theorem EvalExecutionTimeout_exact:
  assumes "0 < maxMinutes" and "maxMinutes \<le> 153722867"
  shows "EvalExecutionTimeout startedAt now maxMinutes \<longleftrightarrow>
    (\<exists>s. startedAt = Some s \<and> now - s > maxMinutes * 60000000000)"
proof -
  have b: "0 < maxMinutes * 60000000000" "maxMinutes * 60000000000 < 2 ^ 63 - 1" using assms by simp_all
  then have "wrap64 (maxMinutes * 60000000000) = maxMinutes * 60000000000"
    unfolding wrap64_def by (intro signed_take_bit_int_eq_self) simp_all
  moreover have "sat64 x > maxMinutes * 60000000000 \<longleftrightarrow> x > maxMinutes * 60000000000" for x
    using b by (auto simp: sat64_def)
  ultimately show ?thesis using assms(1) by (auto simp: EvalExecutionTimeout_def split: option.splits)
qed

theorem EvalExecutionTimeout_exact_witness:
  "EvalExecutionTimeout (Some 0) 7200000000001 120"
  by (subst EvalExecutionTimeout_exact) simp_all

end
