(* ===== verification/Reduce.thy ===== *)
theory Reduce
  imports Task_Properties "HOL-Library.List_Lexorder" "HOL-Library.Char_ord"
begin

text \<open>
  The aggregation of a decomposed task (\<^verbatim>\<open>internal/orchestrator/steps/reduce.go\<close>). Costs are exact
  rationals and seconds exact quotients; the source computes both in \<^verbatim>\<open>float64\<close>. The order of a
  range over a set of file names does not show, for the names are sorted after it.
\<close>

section \<open>Definitions\<close>

definition SortBySequenceIndex :: "task list \<Rightarrow> task list" where
  "SortBySequenceIndex children =
     sort_key (\<lambda>c. or_zero 0 (t_sequence_index c)) (filter (\<lambda>c. t_sequence_index c \<noteq> None) children) @
     filter (\<lambda>c. t_sequence_index c = None) children"

definition analysis_of :: "task \<Rightarrow> task_analysis" where
  "analysis_of t = snd (unmarshal zero_analysis (t_analysis t))"

definition sorted_names :: "string list \<Rightarrow> string list" where
  "sorted_names fs = sort (remdups fs)"

text \<open>\<^verbatim>\<open>int(d.Seconds())\<close>: whole seconds, towards zero.\<close>

definition whole_seconds :: "int \<Rightarrow> int" where
  "whole_seconds ns = (if ns < 0 then - ((- ns) div 1000000000) else ns div 1000000000)"

definition attempt_cost :: "task_attempt \<Rightarrow> rat" where
  "attempt_cost a = or_zero 0 (ta_cost_usd a)"

definition attempt_duration :: "task_attempt \<Rightarrow> int" where
  "attempt_duration a =
     (case ta_finished_at a of None \<Rightarrow> 0 | Some f \<Rightarrow> whole_seconds (f - ta_started_at a))"

definition attempt_tokens :: "task_attempt \<Rightarrow> int" where
  "attempt_tokens a = or_zero 0 (ta_tokens_in a) + or_zero 0 (ta_tokens_out a)"

definition summarizeChild :: "task \<Rightarrow> task_attempt list \<Rightarrow> child_task_summary" where
  "summarizeChild child attempts =
     \<lparr>cts_task_id = t_id child,
      cts_sequence_index = or_zero 0 (t_sequence_index child),
      cts_changed_files = sorted_names (map af_file (an_affected_files (analysis_of child))),
      cts_tests_passed = 0, cts_tests_failed = 0,
      cts_cost_usd = sum_list (map attempt_cost attempts),
      cts_duration_seconds = sum_list (map attempt_duration attempts),
      cts_one_line_outcome =
        (if t_status child = TaskStatusMerged then ''Completed: '' @ t_title child
         else ''Did not complete (status='' @ t_status child @ ''): '' @ t_title child),
      cts_contract_deviation = None\<rparr>"

text \<open>The deviation message carries the number of missing files and their names.\<close>

definition contractDeviation :: "child_task_summary \<Rightarrow> string list \<Rightarrow> (nat \<times> string list) option" where
  "contractDeviation summary expected =
     (if expected = [] then None
      else (let missing = filter (\<lambda>f. f \<notin> set (cts_changed_files summary)) expected
            in if missing = [] then None else Some (length missing, missing)))"

definition expected_by_seq :: "child_task_spec list \<Rightarrow> int \<Rightarrow> string list option" where
  "expected_by_seq split i =
     (if 0 \<le> i \<and> i < int (length split) then Some (output_expected (spec_contract (split ! nat i))) else None)"

definition child_summary ::
  "child_task_spec list \<Rightarrow> task_attempt list \<Rightarrow> task \<Rightarrow> child_task_summary" where
  "child_summary split allAttempts child =
     (let s = summarizeChild child (filter (\<lambda>a. ta_task_id a = t_id child) allAttempts)
      in case expected_by_seq split (cts_sequence_index s) of
           None \<Rightarrow> s
         | Some expected \<Rightarrow> s\<lparr>cts_contract_deviation := contractDeviation s expected\<rparr>)"

definition Reduce :: "task \<Rightarrow> task list \<Rightarrow> task_attempt list \<Rightarrow> decomposed_task_summary" where
  "Reduce parent children allAttempts =
     (let analysis = analysis_of parent;
          cs = map (child_summary (an_proposed_split analysis) allAttempts) (SortBySequenceIndex children);
          duration = sum_list (map cts_duration_seconds cs)
      in \<lparr>ds_changed_files = sorted_names (concat (map cts_changed_files cs)),
          ds_tests_passed = sum_list (map cts_tests_passed cs),
          ds_tests_failed = sum_list (map cts_tests_failed cs),
          ds_cost_usd = sum_list (map cts_cost_usd cs),
          ds_duration_seconds = duration,
          ds_children = cs,
          ds_tokens_before_split =
            (case an_complexity_score analysis of None \<Rightarrow> 0 | Some s \<Rightarrow> cs_tokens s),
          ds_tokens_after_split = sum_list (map attempt_tokens allAttempts),
          ds_duration_single_est = duration,
          ds_cost_saved_usd = 0\<rparr>)"

text \<open>
  The column after the summary is merged into it, as a \<^verbatim>\<open>TaskAnalysis\<close>: the key it adds is no field
  of that type, and a column that is no JSON object is replaced. (The column is never JSON
  \<^verbatim>\<open>null\<close>; the source would write into a nil map.)
\<close>

definition MarshalAnalysisPatch :: "task_analysis raw_json \<Rightarrow> task_analysis raw_json" where
  "MarshalAnalysisPatch existing =
     (case existing of
        NoJson \<Rightarrow> Json zero_analysis
      | BadJson \<Rightarrow> Json zero_analysis
      | MisfitJson x \<Rightarrow> MisfitJson x
      | Json x \<Rightarrow> Json x)"

section \<open>Properties\<close>

lemma SortBySequenceIndex_mset: "mset (SortBySequenceIndex children) = mset children"
  by (simp add: SortBySequenceIndex_def)

lemma SortBySequenceIndex_set [simp]: "set (SortBySequenceIndex children) = set children"
  by (metis SortBySequenceIndex_mset set_mset_mset)

lemma sorted_names_set [simp]: "set (sorted_names fs) = set fs"
  by (simp add: sorted_names_def)

lemma sorted_names_sorted [simp]: "sorted (sorted_names fs)" "distinct (sorted_names fs)"
  by (simp_all add: sorted_names_def)

lemma child_summary_fields [simp]:
  "cts_cost_usd (child_summary sp as c) = sum_list (map attempt_cost (filter (\<lambda>a. ta_task_id a = t_id c) as))"
  "cts_changed_files (child_summary sp as c) = sorted_names (map af_file (an_affected_files (analysis_of c)))"
  "cts_task_id (child_summary sp as c) = t_id c"
  by (simp_all add: child_summary_def summarizeChild_def Let_def split: option.splits)

lemma sum_by_owner:
  fixes f :: "task_attempt \<Rightarrow> rat"
  assumes "distinct ids" and "\<forall>a\<in>set as. ta_task_id a \<in> set ids"
  shows "sum_list (map (\<lambda>i. sum_list (map f (filter (\<lambda>a. ta_task_id a = i) as))) ids) = sum_list (map f as)"
  using assms(2)
proof (induction as)
  case Nil
  then show ?case by (induction ids) simp_all
next
  case (Cons a as)
  have "sum_list (map (\<lambda>i. sum_list (map f (filter (\<lambda>x. ta_task_id x = i) (a # as)))) ids) =
      sum_list (map (\<lambda>i. (if ta_task_id a = i then f a else 0) +
        sum_list (map f (filter (\<lambda>x. ta_task_id x = i) as))) ids)"
    by (intro arg_cong [where f = sum_list] map_cong) auto
  also have "\<dots> = sum_list (map (\<lambda>i. if ta_task_id a = i then f a else 0) ids) +
      sum_list (map (\<lambda>i. sum_list (map f (filter (\<lambda>x. ta_task_id x = i) as))) ids)"
    by (rule sum_list_addf)
  also have "sum_list (map (\<lambda>i. if ta_task_id a = i then f a else 0) ids) = f a"
    using assms(1) Cons.prems by (simp add: sum_list_distinct_conv_sum_set)
  finally show ?case using Cons by simp
qed

lemma SortBySequenceIndex_sorted:
  "sorted (map (\<lambda>c. or_zero 0 (t_sequence_index c))
     (filter (\<lambda>c. t_sequence_index c \<noteq> None) (SortBySequenceIndex children)))"
proof -
  have "filter (\<lambda>c. t_sequence_index c \<noteq> None) (SortBySequenceIndex children) =
      sort_key (\<lambda>c. or_zero 0 (t_sequence_index c)) (filter (\<lambda>c. t_sequence_index c \<noteq> None) children)"
    by (simp add: SortBySequenceIndex_def filter_sort) (auto simp: filter_empty_conv)
  then show ?thesis by simp
qed

lemma sum_list_mset_cong:
  fixes f :: "'a \<Rightarrow> 'b::comm_monoid_add"
  assumes "mset xs = mset ys"
  shows "sum_list (map f xs) = sum_list (map f ys)"
  using assms by (metis mset_map sum_mset_sum_list)

text \<open>
  The summary of a decomposed task accounts for every attempt of its children once: its cost and
  tokens are the totals over the attempts, its files the union of the children's files, without
  repetition and sorted, and its children are listed in sequence order.
\<close>
theorem Reduce_totals:
  assumes "distinct (map t_id children)"
    and "\<forall>a\<in>set attempts. ta_task_id a \<in> t_id ` set children"
  shows "ds_cost_usd (Reduce parent children attempts) = sum_list (map attempt_cost attempts) \<and>
    ds_tokens_after_split (Reduce parent children attempts) = sum_list (map attempt_tokens attempts) \<and>
    set (ds_changed_files (Reduce parent children attempts)) =
      (\<Union>c\<in>set children. af_file ` set (an_affected_files (analysis_of c))) \<and>
    sorted (ds_changed_files (Reduce parent children attempts)) \<and>
    distinct (ds_changed_files (Reduce parent children attempts)) \<and>
    map cts_task_id (ds_children (Reduce parent children attempts)) = map t_id (SortBySequenceIndex children)"
proof -
  let ?f = "\<lambda>i. sum_list (map attempt_cost (filter (\<lambda>a. ta_task_id a = i) attempts))"
  have "sum_list (map (\<lambda>c. ?f (t_id c)) (SortBySequenceIndex children)) = sum_list (map (\<lambda>c. ?f (t_id c)) children)"
    by (rule sum_list_mset_cong [OF SortBySequenceIndex_mset])
  also have "\<dots> = sum_list (map ?f (map t_id children))" by (simp add: comp_def)
  also have "\<dots> = sum_list (map attempt_cost attempts)" by (rule sum_by_owner) (use assms in auto)
  finally have cost: "ds_cost_usd (Reduce parent children attempts) = sum_list (map attempt_cost attempts)"
    by (simp add: Reduce_def Let_def comp_def)
  then show ?thesis by (simp add: Reduce_def Let_def comp_def)
qed

definition demo_attempt :: "string \<Rightarrow> rat \<Rightarrow> task_attempt" where
  "demo_attempt i cost =
     \<lparr>ta_id = ''a'', ta_task_id = i, ta_attempt_number = 1, ta_started_at = 0, ta_finished_at = None,
      ta_exit_status = None, ta_tokens_in = Some 10, ta_tokens_out = None, ta_cost_usd = Some cost,
      ta_sandbox_ref = '''', ta_created_at = 0, ta_updated_at = 0\<rparr>"

theorem Reduce_totals_witness:
  "ds_cost_usd (Reduce (demo_task ''p'' TaskStatusCoding)
     [demo_task ''b'' TaskStatusMerged, demo_task ''a'' TaskStatusMerged]
     [demo_attempt ''a'' 2, demo_attempt ''b'' 3, demo_attempt ''a'' 4]) = 9"
  using Reduce_totals [of "[demo_task ''b'' TaskStatusMerged, demo_task ''a'' TaskStatusMerged]"
    "[demo_attempt ''a'' 2, demo_attempt ''b'' 3, demo_attempt ''a'' 4]" "demo_task ''p'' TaskStatusCoding"]
  by (simp add: demo_attempt_def attempt_cost_def)

text \<open>
  A child is marked as deviating exactly when its contract names a file it did not change, and
  the mark lists those files; a child with no contract is never marked.
\<close>
theorem Reduce_deviation:
  "cts_contract_deviation (child_summary split attempts child) =
    (case expected_by_seq split (or_zero 0 (t_sequence_index child)) of
       None \<Rightarrow> None
     | Some expected \<Rightarrow>
         (let missing = filter (\<lambda>f. f \<notin> af_file ` set (an_affected_files (analysis_of child))) expected
          in if missing = [] then None else Some (length missing, missing)))"
  by (auto simp: child_summary_def summarizeChild_def contractDeviation_def Let_def split: option.splits)

end
