(* ===== verification/Decomposition.thy ===== *)
theory Decomposition
  imports Guardrails Reduce
begin

text \<open>
  The writes of task statuses with their hook for decomposed parents, and the operations that are
  mutually recursive with them: \<^verbatim>\<open>updateTaskStatus\<close> (\<^verbatim>\<open>orchestrator/tracker.go\<close>), the hook and the
  dispatch of children (\<^verbatim>\<open>orchestrator/decomposition.go\<close>), \<^verbatim>\<open>Execute\<close> and \<^verbatim>\<open>RetryFromLastStep\<close>
  (\<^verbatim>\<open>orchestrator/orchestrator.go\<close>).

  The recursion goes up the chain of parents, which nothing keeps free of cycles. The operations take
  the status write they call as an argument; the recursive write ties the knot with fuel, and no
  result (\<open>None\<close>) is what a chain longer than the fuel gives. The lemma on ranked parents shows that
  fuel above the depth of a task is enough. Calls run one at a time; what a log line does beyond its
  text is the check of the event volume.
\<close>

section \<open>The surroundings of the orchestrator\<close>

record orch_env =
  oe_now :: int
  oe_id :: "nat \<Rightarrow> string"
  oe_events :: "orch_state \<Rightarrow> string \<Rightarrow> int option"
  oe_live :: "string list"

datatype orch_error =
    TaskRead repo_error
  | StatusWrite svc_error
  | JobWrite job_error
  | NotRetryable string
  | NotBlocked string
  | NoFailingChild
  | RetryChild string orch_error
  | JobRead repo_error
  | JobNotRunning string
  | JobNotActive string
  | NotAwaitingApproval
  | NoPullRequest
  | RepositoryList string
  | NoMatchingRepository string
  | MergeFailed string string
  | NotPrReady
  | ReviewLoopLimit int
  | SpecReviewLoopLimit int
  | NoTaskForPR string

type_synonym status_writer =
  "orch_state \<Rightarrow> string \<Rightarrow> string \<Rightarrow> ((svc_error + task) \<times> orch_state) option"

type_synonym 'a orch_result = "((orch_error + 'a) \<times> orch_state) option"

definition o_log :: "orch_env \<Rightarrow> string \<Rightarrow> orch_state \<Rightarrow> orch_state" where
  "o_log env taskID st = checkEventVolumeGuardrail (oe_events env st) st taskID"

definition cancel_run :: "orch_env \<Rightarrow> string \<Rightarrow> orch_state \<Rightarrow> orch_state" where
  "cancel_run env jobID st = (if jobID \<in> set (oe_live env) then add_effect (CancelRun jobID) st else st)"

section \<open>Execution and retry\<close>

text \<open>A task that has not started, or has failed, is moved to context loading first.\<close>

definition start_task :: "status_writer \<Rightarrow> orch_state \<Rightarrow> task \<Rightarrow> (svc_error option \<times> orch_state) option" where
  "start_task upd st t =
     (if t_status t = TaskStatusTodo \<or> t_status t = TaskStatusFailed \<or> t_status t = '''' then
        (case upd st (t_id t) TaskStatusContextLoading of
           None \<Rightarrow> None
         | Some (Inl e, st1) \<Rightarrow> Some (Some e, st1)
         | Some (Inr _, st1) \<Rightarrow> Some (None, st1))
      else Some (None, st))"

definition resume_paused ::
  "status_writer \<Rightarrow> orch_env \<Rightarrow> orch_state \<Rightarrow> task \<Rightarrow> workflow_job \<Rightarrow> workflow_job orch_result" where
  "resume_paused upd env st t job =
     (case UpdateJob (oe_now env) st (j_id job) (no_job_update\<lparr>ju_status := Some WorkflowJobStatusQueued\<rparr>) of
        (Inl e, st1) \<Rightarrow> Some (Inl (JobWrite e), st1)
      | (Inr updated, st1) \<Rightarrow>
          (case start_task upd st1 t of
             None \<Rightarrow> None
           | Some (Some e, st2) \<Rightarrow> Some (Inl (StatusWrite e), st2)
           | Some (None, st2) \<Rightarrow> Some (Inr updated, add_effect WakeWorker (o_log env (t_id t) st2))))"

definition enqueue_task ::
  "status_writer \<Rightarrow> orch_env \<Rightarrow> orch_state \<Rightarrow> task \<Rightarrow> workflow_job orch_result" where
  "enqueue_task upd env st t =
     (case start_task upd st t of
        None \<Rightarrow> None
      | Some (Some e, st1) \<Rightarrow> Some (Inl (StatusWrite e), st1)
      | Some (None, st1) \<Rightarrow>
          (let (job, st2) = Enqueue (oe_id env) (oe_now env) st1 (t_id t)
           in Some (Inr job, add_effect WakeWorker (o_log env (t_id t) st2))))"

definition Execute :: "status_writer \<Rightarrow> orch_env \<Rightarrow> orch_state \<Rightarrow> string \<Rightarrow> workflow_job orch_result" where
  "Execute upd env st taskID =
     (case get_task (os_db st) taskID of
        Inl e \<Rightarrow> Some (Inl (TaskRead e), st)
      | Inr t \<Rightarrow>
          (case LatestByTaskID st taskID of
             Inr job \<Rightarrow>
               if j_status job = WorkflowJobStatusRunning \<or> j_status job = WorkflowJobStatusQueued
                 then Some (Inr job, st)
               else if j_status job = WorkflowJobStatusPaused then resume_paused upd env st t job
               else enqueue_task upd env st t
           | Inl _ \<Rightarrow> enqueue_task upd env st t))"

text \<open>A job that is still active is failed and its lock released before the task is queued again.\<close>

definition supersede :: "orch_env \<Rightarrow> orch_state \<Rightarrow> string \<Rightarrow> orch_state" where
  "supersede env st taskID =
     (case LatestByTaskID st taskID of
        Inl _ \<Rightarrow> st
      | Inr job \<Rightarrow>
          if j_status job \<in> {WorkflowJobStatusRunning, WorkflowJobStatusQueued, WorkflowJobStatusPaused} then
            (let st1 = snd (UpdateJob (oe_now env) (cancel_run env (j_id job) st) (j_id job)
                   (no_job_update\<lparr>ju_status := Some WorkflowJobStatusFailed,
                                  ju_last_error := Some ''superseded by retry''\<rparr>))
             in add_effect (ReleaseLock taskID) st1)
          else st)"

definition RetryFromLastStep ::
  "status_writer \<Rightarrow> orch_env \<Rightarrow> orch_state \<Rightarrow> string \<Rightarrow> workflow_job orch_result" where
  "RetryFromLastStep upd env st taskID =
     (case get_task (os_db st) taskID of
        Inl e \<Rightarrow> Some (Inl (TaskRead e), st)
      | Inr t \<Rightarrow>
          if t_status t \<noteq> TaskStatusFailed \<and> t_status t \<noteq> TaskStatusSpecReview \<and> t_status t \<noteq> TaskStatusAnalyzing
            then Some (Inl (NotRetryable (t_status t)), st)
          else (case upd (supersede env st taskID) taskID TaskStatusAnalyzing of
                  None \<Rightarrow> None
                | Some (Inl e, st2) \<Rightarrow> Some (Inl (StatusWrite e), st2)
                | Some (Inr _, st2) \<Rightarrow>
                    (let (job, st3) = Enqueue (oe_id env) (oe_now env) st2 taskID
                     in Some (Inr job, add_effect WakeWorker (o_log env taskID st3)))))"

section \<open>Decomposed parents\<close>

definition write_task :: "orch_state \<Rightarrow> string \<Rightarrow> update_task_input \<Rightarrow> repo_error option \<times> orch_state" where
  "write_task st i u =
     (case repo_Update (os_db st) i u of
        (Inl e, _) \<Rightarrow> (Some e, st)
      | (Inr _, d) \<Rightarrow> (None, st\<lparr>os_db := d\<rparr>))"

text \<open>The summary goes into the analysis column of the parent; the four metric lines are logged.\<close>

definition save_summary :: "orch_env \<Rightarrow> orch_state \<Rightarrow> task \<Rightarrow> task list \<Rightarrow> orch_state" where
  "save_summary env st parent children =
     (let summary = Reduce parent children (attempt_ListByTaskIDs st (map t_id children));
          st1 = (case write_task st (t_id parent)
                        (no_update\<lparr>ui_analysis := Some (MarshalAnalysisPatch (t_analysis parent))\<rparr>) of
                   (Some e, st1) \<Rightarrow> o_log env (t_id parent) st1
                 | (None, st1) \<Rightarrow> st1\<lparr>os_summaries := os_summaries st1 @ [(t_id parent, summary)]\<rparr>)
      in ((o_log env (t_id parent)) ^^ 4) st1)"

definition completeDecomposedParent ::
  "status_writer \<Rightarrow> orch_env \<Rightarrow> orch_state \<Rightarrow> string \<Rightarrow> task list \<Rightarrow> orch_state option" where
  "completeDecomposedParent upd env st parentID children =
     (case get_task (os_db st) parentID of
        Inl _ \<Rightarrow> Some (o_log env parentID st)
      | Inr parent \<Rightarrow>
          (case upd (save_summary env st parent children) parentID TaskStatusMerged of
             None \<Rightarrow> None
           | Some (Inl e, st2) \<Rightarrow> Some (add_effect (CleanupWorkspace parentID) (o_log env parentID st2))
           | Some (Inr _, st2) \<Rightarrow> Some (add_effect (CleanupWorkspace parentID) st2)))"

definition dispatchNextChildOrReduce ::
  "status_writer \<Rightarrow> orch_env \<Rightarrow> orch_state \<Rightarrow> string \<Rightarrow> orch_state option" where
  "dispatchNextChildOrReduce upd env st parentID =
     (let ordered = SortBySequenceIndex (repo_ListSubTasks (os_db st) parentID)
      in case find (\<lambda>c. t_status c \<noteq> TaskStatusMerged) ordered of
           Some c \<Rightarrow>
             if t_status c = TaskStatusFailed then Some st
             else if t_status c = TaskStatusTodo \<or> t_status c = '''' then
               (case Execute upd env st (t_id c) of
                  None \<Rightarrow> None
                | Some (_, st1) \<Rightarrow> Some (o_log env parentID st1))
             else Some st
         | None \<Rightarrow>
             if ordered \<noteq> [] then completeDecomposedParent upd env st parentID ordered else Some st)"

definition DispatchDecomposedParent ::
  "status_writer \<Rightarrow> orch_env \<Rightarrow> orch_state \<Rightarrow> string \<Rightarrow> orch_state option" where
  "DispatchDecomposedParent upd env st parentID = dispatchNextChildOrReduce upd env st parentID"

definition block_parent :: "status_writer \<Rightarrow> orch_env \<Rightarrow> orch_state \<Rightarrow> string \<Rightarrow> string \<Rightarrow> orch_state option" where
  "block_parent upd env st parentID childID =
     (let st1 = (case write_task st parentID (no_update\<lparr>ui_blocked_child_id := Some childID\<rparr>) of
                   (Some e, st1) \<Rightarrow> o_log env parentID st1
                 | (None, st1) \<Rightarrow> st1)
      in case upd st1 parentID TaskStatusBlocked of
           None \<Rightarrow> None
         | Some (Inl e, st2) \<Rightarrow> Some (o_log env parentID (o_log env parentID st2))
         | Some (Inr _, st2) \<Rightarrow> Some (o_log env parentID st2))"

definition onChildTaskTerminal ::
  "status_writer \<Rightarrow> orch_env \<Rightarrow> orch_state \<Rightarrow> task \<Rightarrow> bool \<Rightarrow> orch_state option" where
  "onChildTaskTerminal upd env st child success =
     (case t_parent_task_id child of
        None \<Rightarrow> Some st
      | Some p \<Rightarrow>
          (case get_task (os_db st) p of
             Inl _ \<Rightarrow> Some st
           | Inr parent \<Rightarrow>
               if t_decomposition_mode parent = None then Some st
               else if \<not> success then block_parent upd env st (t_id parent) (t_id child)
               else dispatchNextChildOrReduce upd env st (t_id parent)))"

definition terminal_status :: "string \<Rightarrow> bool" where
  "terminal_status s \<longleftrightarrow> s = TaskStatusMerged \<or> s = TaskStatusFailed"

fun updateTaskStatus :: "nat \<Rightarrow> orch_env \<Rightarrow> status_writer" where
  "updateTaskStatus 0 env st taskID newStatus = None"
| "updateTaskStatus (Suc n) env st taskID newStatus =
     (case write_status (oe_now env) st taskID newStatus of
        (Inl e, st1) \<Rightarrow> Some (Inl e, st1)
      | (Inr updated, st1) \<Rightarrow>
          if t_parent_task_id updated \<noteq> None \<and> terminal_status (t_status updated) then
            map_option (Pair (Inr updated))
              (onChildTaskTerminal (updateTaskStatus n env) env st1 updated (t_status updated = TaskStatusMerged))
          else Some (Inr updated, st1))"

definition RetryBlockedParent ::
  "status_writer \<Rightarrow> orch_env \<Rightarrow> orch_state \<Rightarrow> string \<Rightarrow> task orch_result" where
  "RetryBlockedParent upd env st parentID =
     (case get_task (os_db st) parentID of
        Inl e \<Rightarrow> Some (Inl (TaskRead e), st)
      | Inr parent \<Rightarrow>
          if t_status parent \<noteq> TaskStatusBlocked then Some (Inl (NotBlocked (t_status parent)), st)
          else (case t_blocked_child_id parent of
                  None \<Rightarrow> Some (Inl NoFailingChild, st)
                | Some failedChildID \<Rightarrow>
                    (case upd st parentID TaskStatusCoding of
                       None \<Rightarrow> None
                     | Some (Inl e, st1) \<Rightarrow> Some (Inl (StatusWrite e), st1)
                     | Some (Inr _, st1) \<Rightarrow>
                         (let st2 = (case write_task st1 parentID (no_update\<lparr>ui_clear_blocked_child := True\<rparr>) of
                                       (Some e, st2) \<Rightarrow> o_log env parentID st2
                                     | (None, st2) \<Rightarrow> st2)
                          in case RetryFromLastStep upd env st2 failedChildID of
                               None \<Rightarrow> None
                             | Some (Inl e, st3) \<Rightarrow> Some (Inl (RetryChild failedChildID e), st3)
                             | Some (Inr _, st3) \<Rightarrow>
                                 (case get_task (os_db st3) parentID of
                                    Inl e \<Rightarrow> Some (Inl (TaskRead e), st3)
                                  | Inr t \<Rightarrow> Some (Inr t, st3))))))"

end
