(* ===== verification/Decomposition_Props.thy ===== *)
theory Decomposition_Props
  imports Decomposition
begin

text \<open>
  What the decomposition does: the status write returns when the parents are ranked and does not
  return for a task that is its own parent; children are dispatched one after the other; a failed
  child blocks its parent only where the status table lets it.
\<close>

section \<open>What the writes leave alone\<close>

lemma write_task_frame [simp]:
  "os_jobs (snd (write_task st i u)) = os_jobs st"
  "os_checkpoints (snd (write_task st i u)) = os_checkpoints st"
  "os_next (snd (write_task st i u)) = os_next st"
  by (auto simp: write_task_def split: prod.splits sum.splits)

lemma add_effect_frame [simp]:
  "os_db (add_effect e st) = os_db st" "os_jobs (add_effect e st) = os_jobs st"
  "os_checkpoints (add_effect e st) = os_checkpoints st" "os_next (add_effect e st) = os_next st"
  by (simp_all add: add_effect_def)

lemma write_status_frame [simp]:
  "os_jobs (snd (write_status now st i s)) = os_jobs st"
  "os_checkpoints (snd (write_status now st i s)) = os_checkpoints st"
  "os_next (snd (write_status now st i s)) = os_next st"
  by (auto simp: write_status_def emit_error_def Let_def split: prod.splits sum.splits option.splits)

lemma blockTask_frame [simp]:
  "os_jobs (snd (blockTask st i r)) = os_jobs st"
  "os_checkpoints (snd (blockTask st i r)) = os_checkpoints st"
  "os_next (snd (blockTask st i r)) = os_next st"
  by (auto simp: blockTask_def emit_error_def split: prod.splits sum.splits option.splits)

lemma o_log_frame [simp]:
  "os_jobs (o_log env i st) = os_jobs st" "os_checkpoints (o_log env i st) = os_checkpoints st"
  "os_next (o_log env i st) = os_next st"
  by (auto simp: o_log_def checkEventVolumeGuardrail_def split: option.splits)

lemma o_log_silent [simp]: "oe_events env = (\<lambda>_ _. None) \<Longrightarrow> o_log env i st = st"
  by (simp add: o_log_def checkEventVolumeGuardrail_def)

definition parents :: "orch_state \<Rightarrow> (string \<times> string option) list" where
  "parents st = map (\<lambda>t. (t_id t, t_parent_task_id t)) (db_tasks (os_db st))"

lemma parents_repo_Update:
  "repo_Update (os_db st) i u = (r, d') \<Longrightarrow> ui_parent_task_id u = None \<Longrightarrow>
   parents (st\<lparr>os_db := d'\<rparr>) = parents st"
  by (auto simp: repo_Update_def parents_def map_row_def apply_update_def split: sum.splits)

lemma parents_db: "os_db st' = os_db st \<Longrightarrow> parents st' = parents st"
  by (simp add: parents_def)

lemma parents_add_effect [simp]: "parents (add_effect e st) = parents st"
  by (simp add: parents_def)

lemma parents_write_task [simp]:
  "ui_parent_task_id u = None \<Longrightarrow> parents (snd (write_task st i u)) = parents st"
  by (auto simp: write_task_def split: prod.splits sum.splits dest: parents_repo_Update)

lemma applyGuardrails_parent: "ui_parent_task_id (fst (applyGuardrails now d t s)) = None"
  by (simp add: applyGuardrails_def Let_def no_update_def)

lemma parents_write_status [simp]: "parents (snd (write_status now st i s)) = parents st"
proof (cases "get_task (os_db st) i")
  case (Inl e)
  then show ?thesis by (simp add: write_status_def)
next
  case (Inr t)
  obtain inp s' where a: "applyGuardrails now (os_db st) t s = (inp, s')" by fastforce
  then have p: "ui_parent_task_id (inp\<lparr>ui_status := Some s'\<rparr>) = None"
    using applyGuardrails_parent [of now "os_db st" t s] by simp
  let ?st1 = "if guard_reason now (os_db st) t s \<noteq> '''' then emit_error i (guard_reason now (os_db st) t s) st else st"
  have q: "parents ?st1 = parents st" by (simp add: emit_error_def)
  obtain r d' where u: "repo_Update (os_db ?st1) i (inp\<lparr>ui_status := Some s'\<rparr>) = (r, d')" by fastforce
  from parents_repo_Update [OF u p] q Inr a u show ?thesis
    by (auto simp: write_status_def Let_def split: option.splits sum.splits)
qed

lemma parents_blockTask [simp]: "parents (snd (blockTask st i r)) = parents st"
proof -
  obtain res d' where u: "repo_Update (os_db st) i
      (no_update\<lparr>ui_status := Some TaskStatusBlocked, ui_block_reason := Some r\<rparr>) = (res, d')" by fastforce
  have "parents (st\<lparr>os_db := d'\<rparr>) = parents st"
    by (rule parents_repo_Update [OF u]) (simp add: no_update_def)
  with u show ?thesis
    by (simp add: blockTask_def emit_error_def split: sum.splits option.splits)
qed

lemma parents_o_log [simp]: "parents (o_log env i st) = parents st"
  by (auto simp: o_log_def checkEventVolumeGuardrail_def split: option.splits)

lemma parents_UpdateJob [simp]: "parents (snd (UpdateJob now st i u)) = parents st"
  by (rule parents_db) simp

lemma parents_Enqueue [simp]: "parents (snd (Enqueue new_id now st i)) = parents st"
  by (simp add: parents_def Enqueue_def Let_def)

lemma parents_summaries [simp]: "parents (st\<lparr>os_summaries := x\<rparr>) = parents st"
  by (simp add: parents_def)

section \<open>When a status write returns\<close>

definition good_writer :: "(string \<times> string option) list \<Rightarrow> status_writer \<Rightarrow> string \<Rightarrow> string \<Rightarrow> bool" where
  "good_writer P upd j s \<longleftrightarrow>
     (\<forall>st. parents st = P \<longrightarrow> (\<exists>r st'. upd st j s = Some (r, st') \<and> parents st' = P))"

lemma good_writerE:
  assumes "good_writer P upd j s" and "parents st = P"
  obtains r st' where "upd st j s = Some (r, st')" "parents st' = P"
  using assms by (auto simp: good_writer_def)

lemma start_task_returns:
  assumes "good_writer P upd (t_id t) TaskStatusContextLoading" and "parents st = P"
  shows "\<exists>r st'. start_task upd st t = Some (r, st') \<and> parents st' = P"
proof -
  obtain r st' where u: "upd st (t_id t) TaskStatusContextLoading = Some (r, st')" "parents st' = P"
    by (rule good_writerE [OF assms])
  then show ?thesis using assms(2) by (cases r) (simp_all add: start_task_def)
qed

lemma Execute_returns:
  assumes "good_writer P upd i TaskStatusContextLoading" and "parents st = P"
  shows "\<exists>r st'. Execute upd env st i = Some (r, st') \<and> parents st' = P"
proof (cases "get_task (os_db st) i")
  case (Inl e)
  with assms(2) show ?thesis by (simp add: Execute_def)
next
  case (Inr t)
  then have i: "t_id t = i" by (auto simp: get_task_Inr dest: find_row_id)
  have e: "\<exists>r st'. enqueue_task upd env st t = Some (r, st') \<and> parents st' = P"
  proof -
    obtain r st1 where s: "start_task upd st t = Some (r, st1)" "parents st1 = P"
      using start_task_returns [of P upd t st] assms i by auto
    obtain j st2 where q: "Enqueue (oe_id env) (oe_now env) st1 (t_id t) = (j, st2)" by fastforce
    with s parents_Enqueue [of "oe_id env" "oe_now env" st1 "t_id t"] show ?thesis
      by (cases r) (simp_all add: enqueue_task_def)
  qed
  have p: "\<exists>r st'. resume_paused upd env st t job = Some (r, st') \<and> parents st' = P" for job
  proof -
    obtain r st1 where u: "UpdateJob (oe_now env) st (j_id job)
        (no_job_update\<lparr>ju_status := Some WorkflowJobStatusQueued\<rparr>) = (r, st1)" by fastforce
    then have p1: "parents st1 = P" using assms(2) parents_UpdateJob by (metis snd_conv)
    obtain r2 st2 where s: "start_task upd st1 t = Some (r2, st2)" "parents st2 = P"
      using start_task_returns [of P upd t st1] assms(1) i p1 by auto
    from u p1 s show ?thesis by (cases r; cases r2) (simp_all add: resume_paused_def)
  qed
  from Inr e p assms(2) show ?thesis by (auto simp: Execute_def split: sum.splits)
qed

lemma parents_save_summary [simp]: "parents (save_summary env st p cs) = parents st"
proof -
  have l: "parents (((o_log env i) ^^ n) st) = parents st" for i n st by (induction n) simp_all
  obtain r st1 where w: "write_task st (t_id p)
      (no_update\<lparr>ui_analysis := Some (MarshalAnalysisPatch (t_analysis p))\<rparr>) = (r, st1)" by fastforce
  then have "parents st1 = parents st"
    using parents_write_task [of "no_update\<lparr>ui_analysis := Some (MarshalAnalysisPatch (t_analysis p))\<rparr>" st "t_id p"]
    by (simp add: no_update_def)
  then show ?thesis using w by (cases r) (simp_all add: save_summary_def Let_def l)
qed

lemma completeDecomposedParent_returns:
  assumes "good_writer P upd i TaskStatusMerged" and "parents st = P"
  shows "\<exists>st'. completeDecomposedParent upd env st i cs = Some st' \<and> parents st' = P"
proof (cases "get_task (os_db st) i")
  case (Inl e)
  with assms(2) show ?thesis by (simp add: completeDecomposedParent_def)
next
  case (Inr t)
  have p: "parents (save_summary env st t cs) = P" by (simp add: assms(2))
  obtain r st' where u: "upd (save_summary env st t cs) i TaskStatusMerged = Some (r, st')" "parents st' = P"
    by (rule good_writerE [OF assms(1) p])
  with Inr show ?thesis by (cases r) (simp_all add: completeDecomposedParent_def)
qed

lemma dispatch_returns:
  assumes "\<And>j. good_writer P upd j TaskStatusContextLoading" and "good_writer P upd i TaskStatusMerged"
    and "parents st = P"
  shows "\<exists>st'. dispatchNextChildOrReduce upd env st i = Some st' \<and> parents st' = P"
proof -
  let ?o = "SortBySequenceIndex (repo_ListSubTasks (os_db st) i)"
  show ?thesis
  proof (cases "find (\<lambda>c. t_status c \<noteq> TaskStatusMerged) ?o")
    case None
    then show ?thesis
      using completeDecomposedParent_returns [OF assms(2,3), of env ?o] assms(3)
      by (simp add: dispatchNextChildOrReduce_def Let_def)
  next
    case (Some c)
    obtain r st1 where "Execute upd env st (t_id c) = Some (r, st1)" "parents st1 = P"
      using Execute_returns [OF assms(1,3)] by blast
    with Some assms(3) show ?thesis by (simp add: dispatchNextChildOrReduce_def Let_def)
  qed
qed

lemma block_parent_returns:
  assumes "good_writer P upd i TaskStatusBlocked" and "parents st = P"
  shows "\<exists>st'. block_parent upd env st i c = Some st' \<and> parents st' = P"
proof -
  obtain r st1 where w: "write_task st i (no_update\<lparr>ui_blocked_child_id := Some c\<rparr>) = (r, st1)" by fastforce
  let ?st1 = "case r of Some e \<Rightarrow> o_log env i st1 | None \<Rightarrow> st1"
  have "parents st1 = P"
    using w assms(2) parents_write_task [of "no_update\<lparr>ui_blocked_child_id := Some c\<rparr>" st i]
    by (simp add: no_update_def)
  then have p: "parents ?st1 = P" by (simp split: option.split)
  obtain r2 st2 where "upd ?st1 i TaskStatusBlocked = Some (r2, st2)" "parents st2 = P"
    by (rule good_writerE [OF assms(1) p])
  with w show ?thesis by (cases r2) (simp_all add: block_parent_def Let_def)
qed

lemma hook_returns:
  assumes "\<And>j. good_writer P upd j TaskStatusContextLoading"
    and "\<And>q. t_parent_task_id c = Some q \<Longrightarrow> good_writer P upd q TaskStatusMerged"
    and "\<And>j. good_writer P upd j TaskStatusBlocked" and "parents st = P"
  shows "\<exists>st'. onChildTaskTerminal upd env st c b = Some st' \<and> parents st' = P"
proof (cases "t_parent_task_id c")
  case None
  with assms(4) show ?thesis by (simp add: onChildTaskTerminal_def)
next
  case (Some q)
  show ?thesis
  proof (cases "get_task (os_db st) q")
    case (Inl e)
    with Some assms(4) show ?thesis by (simp add: onChildTaskTerminal_def)
  next
    case (Inr p)
    then have q: "t_id p = q" by (auto simp: get_task_Inr dest: find_row_id)
    from Some Inr q assms(4) dispatch_returns [OF assms(1) assms(2) [OF Some] assms(4)]
      block_parent_returns [OF assms(3,4)]
    show ?thesis by (simp add: onChildTaskTerminal_def)
  qed
qed

lemma write_status_row:
  assumes "write_status now st i s = (Inr t, st')"
  shows "find_row (db_tasks (os_db st')) i = Some t \<and> (t_status t = s \<or> t_status t = TaskStatusBlocked)"
proof (cases "find_row (db_tasks (os_db st)) i")
  case None
  with assms show ?thesis by (simp add: write_status_def get_task_def)
next
  case (Some t0)
  from write_status_cases [OF this, of now s] assms show ?thesis
    by (auto simp: Let_def guard_fields split: option.splits)
qed

lemma nonterminal_write:
  assumes "\<not> terminal_status s"
  shows "good_writer P (updateTaskStatus (Suc n) env) j s"
  unfolding good_writer_def
proof (intro allI impI)
  fix st assume p: "parents st = P"
  obtain r st1 where w: "write_status (oe_now env) st j s = (r, st1)" by fastforce
  then have p1: "parents st1 = P" using parents_write_status p by (metis snd_conv)
  show "\<exists>r st'. updateTaskStatus (Suc n) env st j s = Some (r, st') \<and> parents st' = P"
  proof (cases r)
    case (Inl e)
    with w p1 show ?thesis by simp
  next
    case (Inr t)
    with write_status_row w have "t_status t = s \<or> t_status t = TaskStatusBlocked" by blast
    then have "\<not> terminal_status (t_status t)" using assms by (auto simp: terminal_status_def)
    with w Inr p1 show ?thesis by simp
  qed
qed

definition ranked :: "(string \<Rightarrow> nat) \<Rightarrow> (string \<times> string option) list \<Rightarrow> bool" where
  "ranked rk P \<longleftrightarrow> (\<forall>(i, p) \<in> set P. \<forall>q. p = Some q \<longrightarrow> rk q < rk i)"

lemma ranked_parent:
  assumes "ranked rk (parents st)" and "find_row (db_tasks (os_db st)) i = Some t"
    and "t_parent_task_id t = Some q"
  shows "rk q < rk i"
proof -
  have "(i, Some q) \<in> set (parents st)"
    using find_row_in [OF assms(2)] find_row_id [OF assms(2)] assms(3) by (force simp: parents_def)
  with assms(1) show ?thesis by (auto simp: ranked_def)
qed

lemma write_returns:
  assumes "parents st = P" and "ranked rk P"
    and "\<And>q s. rk q < rk i \<Longrightarrow> good_writer P (updateTaskStatus n env) q s"
    and "\<And>q. rk q < rk i \<Longrightarrow> 0 < n"
  shows "\<exists>r st'. updateTaskStatus (Suc n) env st i s = Some (r, st') \<and> parents st' = P"
proof -
  obtain res st1 where w: "write_status (oe_now env) st i s = (res, st1)" by fastforce
  then have p1: "parents st1 = P" using parents_write_status assms(1) by (metis snd_conv)
  show ?thesis
  proof (cases "\<exists>t q. res = Inr t \<and> t_parent_task_id t = Some q \<and> terminal_status (t_status t)")
    case False
    with w p1 show ?thesis by (cases res) auto
  next
    case True
    then obtain t q where t: "res = Inr t" "t_parent_task_id t = Some q" "terminal_status (t_status t)" by blast
    have row: "find_row (db_tasks (os_db st1)) i = Some t" using write_status_row w t(1) by blast
    have lt: "rk q < rk i" by (rule ranked_parent [OF _ row t(2)]) (simp add: p1 assms(2))
    then obtain m where m: "n = Suc m" using assms(4) gr0_implies_Suc by blast
    have c: "good_writer P (updateTaskStatus n env) j TaskStatusContextLoading" for j
      unfolding m by (rule nonterminal_write) (simp add: terminal_status_def)
    have b: "good_writer P (updateTaskStatus n env) j TaskStatusBlocked" for j
      unfolding m by (rule nonterminal_write) (simp add: terminal_status_def)
    have u: "good_writer P (updateTaskStatus n env) u TaskStatusMerged" if "t_parent_task_id t = Some u" for u
      using assms(3) [OF lt] that t(2) by simp
    from hook_returns [OF c u b p1, of t env "t_status t = TaskStatusMerged"] w t show ?thesis by auto
  qed
qed

lemma ranked_writer:
  assumes "ranked rk P" and "rk i < n"
  shows "good_writer P (updateTaskStatus n env) i s"
  using assms(2)
proof (induction n arbitrary: i s)
  case (Suc n i s)
  have "\<exists>r st'. updateTaskStatus (Suc n) env st i s = Some (r, st') \<and> parents st' = P"
    if p: "parents st = P" for st
    by (rule write_returns [OF p assms(1)]) (use Suc in force)+
  then show ?case unfolding good_writer_def by blast
qed simp

text \<open>
  C27: Writing a status returns: when every parent ranks below its children, fuel above the rank of
  the task gives a result, so no chain of hooks through decomposed parents runs forever.
\<close>
theorem updateTaskStatus_returns:
  assumes "\<forall>t\<in>set (db_tasks (os_db st)). \<forall>q. t_parent_task_id t = Some q \<longrightarrow> rk q < rk (t_id t)"
    and "rk i < n"
  shows "\<exists>r st'. updateTaskStatus n env st i s = Some (r, st') \<and> parents st' = parents st"
proof -
  have "ranked rk (parents st)" using assms(1) by (auto simp: ranked_def parents_def)
  from ranked_writer [OF this assms(2)] show ?thesis by (auto simp: good_writer_def)
qed

definition silent_env :: orch_env where
  "silent_env = \<lparr>oe_now = 0, oe_id = (\<lambda>n. ''job'' @ nat_to_string n), oe_events = (\<lambda>_ _. None), oe_live = []\<rparr>"

definition orch_of :: "task list \<Rightarrow> orch_state" where
  "orch_of ts =
     \<lparr>os_db = demo_db ts, os_jobs = [], os_checkpoints = [], os_attempts = [], os_summaries = [],
      os_effects = [], os_next = 0\<rparr>"

definition demo_child :: "string \<Rightarrow> int \<Rightarrow> string \<Rightarrow> task" where
  "demo_child i k s =
     (demo_task i s)\<lparr>t_parent_task_id := Some ''p'', t_sequence_index := Some k\<rparr>"

definition demo_parent :: "string \<Rightarrow> task" where
  "demo_parent s = (demo_task ''p'' s)\<lparr>t_decomposition_mode := Some ''manual''\<rparr>"

lemma demo_child_simps [simp]:
  "t_id (demo_child i k s) = i" "t_status (demo_child i k s) = s" "t_parent_task_id (demo_child i k s) = Some ''p''"
  "t_sequence_index (demo_child i k s) = Some k" "t_project_id (demo_child i k s) = ''p1''"
  by (simp_all add: demo_child_def)

lemma demo_parent_simps [simp]:
  "t_id (demo_parent s) = ''p''" "t_status (demo_parent s) = s" "t_parent_task_id (demo_parent s) = None"
  "t_decomposition_mode (demo_parent s) = Some ''manual''" "t_project_id (demo_parent s) = ''p1''"
  by (simp_all add: demo_parent_def)

lemma orch_of_simps [simp]:
  "os_db (orch_of ts) = demo_db ts" "os_jobs (orch_of ts) = []" "os_checkpoints (orch_of ts) = []"
  "os_next (orch_of ts) = 0"
  by (simp_all add: orch_of_def)

lemma silent_env_simps [simp]: "oe_events silent_env = (\<lambda>_ _. None)" "oe_now silent_env = 0"
  by (simp_all add: silent_env_def)

theorem updateTaskStatus_returns_witness:
  "\<exists>r st'. updateTaskStatus 2 silent_env
     (orch_of [demo_parent TaskStatusCoding, demo_child ''c'' 0 TaskStatusCoding]) ''c'' TaskStatusMerged = Some (r, st')"
  using updateTaskStatus_returns [of "orch_of [demo_parent TaskStatusCoding, demo_child ''c'' 0 TaskStatusCoding]"
    "\<lambda>i. if i = ''c'' then 1 else 0" "''c''" 2 silent_env TaskStatusMerged]
  by auto

section \<open>A task that is its own parent\<close>

lemma merged_write:
  assumes "find_row (db_tasks (os_db st)) i = Some t" and "ValidateTaskTransition (t_status t) TaskStatusMerged = None"
  obtains u t' st' where "write_status now st i TaskStatusMerged = (Inr t', st')" "t' = apply_update u t"
    "ui_parent_task_id u = None" "ui_decomposition_mode u = None" "t_status t' = TaskStatusMerged"
    "db_tasks (os_db st') = map_row (db_tasks (os_db st)) i (apply_update u)"
proof -
  obtain inp s' where a: "applyGuardrails now (os_db st) t TaskStatusMerged = (inp, s')" by fastforce
  have g: "guard_reason now (os_db st) t TaskStatusMerged = ''''" by (simp add: guard_reason_def)
  then have s': "s' = TaskStatusMerged" using a applyGuardrails_status [of now "os_db st" t TaskStatusMerged] by simp
  have inp: "ui_parent_task_id inp = None" "ui_decomposition_mode inp = None"
    using a by (auto simp: applyGuardrails_def Let_def no_update_def)
  let ?u = "inp\<lparr>ui_status := Some TaskStatusMerged\<rparr>"
  have r: "repo_Update (os_db st) i ?u =
      (Inr (apply_update ?u t), (os_db st)\<lparr>db_tasks := map_row (db_tasks (os_db st)) i (apply_update ?u)\<rparr>)"
    using assms(1) by (simp add: repo_Update_def get_task_def)
  have "write_status now st i TaskStatusMerged = (Inr (apply_update ?u t), st\<lparr>os_db :=
      (os_db st)\<lparr>db_tasks := map_row (db_tasks (os_db st)) i (apply_update ?u)\<rparr>\<rparr>)"
    using assms a g s' r by (simp add: write_status_def get_task_def Let_def)
  then show thesis by (rule that) (simp_all add: inp apply_update_def)
qed

definition self_parent :: "string \<Rightarrow> orch_state \<Rightarrow> bool" where
  "self_parent i st \<longleftrightarrow>
     (\<exists>t. db_tasks (os_db st) = [t] \<and> t_id t = i \<and> t_parent_task_id t = Some i \<and>
          t_decomposition_mode t \<noteq> None \<and> ValidateTaskTransition (t_status t) TaskStatusMerged = None)"

lemma self_parent_save:
  assumes "self_parent i st" and "oe_events env = (\<lambda>_ _. None)" and "t_id p = i"
  shows "self_parent i (save_summary env st p cs)"
proof -
  have l: "((o_log env j) ^^ n) st = st" for j n st using assms(2) by (induction n) simp_all
  obtain t where t: "db_tasks (os_db st) = [t]" "t_id t = i" "t_parent_task_id t = Some i"
    "t_decomposition_mode t \<noteq> None" "ValidateTaskTransition (t_status t) TaskStatusMerged = None"
    using assms(1) by (auto simp: self_parent_def)
  have g: "get_task (os_db st) i = Inr t" using t by (simp add: get_task_def find_row_def)
  show ?thesis
    using t assms(2,3) g
    by (simp add: save_summary_def Let_def l write_task_def repo_Update_def map_row_def self_parent_def
        apply_update_def no_update_def)
qed

text \<open>
  Nothing keeps a task from being made its own parent; if it is decomposed, marking it merged
  never returns: the hook completes the parent, which is the task itself, for ever.
\<close>
theorem self_parent_never_returns:
  assumes "self_parent i st" and "oe_events env = (\<lambda>_ _. None)"
  shows "updateTaskStatus n env st i TaskStatusMerged = None"
  using assms(1)
proof (induction n arbitrary: st)
  case (Suc n st)
  from Suc.prems obtain t where t: "db_tasks (os_db st) = [t]" "t_id t = i" "t_parent_task_id t = Some i"
    "t_decomposition_mode t \<noteq> None" "ValidateTaskTransition (t_status t) TaskStatusMerged = None"
    by (auto simp: self_parent_def)
  have row: "find_row (db_tasks (os_db st)) i = Some t" using t by (simp add: find_row_def)
  obtain u t' st' where w: "write_status (oe_now env) st i TaskStatusMerged = (Inr t', st')"
    "t' = apply_update u t" "ui_parent_task_id u = None" "ui_decomposition_mode u = None"
    "t_status t' = TaskStatusMerged" "db_tasks (os_db st') = map_row (db_tasks (os_db st)) i (apply_update u)"
    by (rule merged_write [OF row t(5)])
  have t': "db_tasks (os_db st') = [t']" "t_id t' = i" "t_parent_task_id t' = Some i" "t_decomposition_mode t' \<noteq> None"
    using w t by (simp_all add: map_row_def apply_update_def)
  have s: "self_parent i st'"
    using t' w(5) by (auto simp: self_parent_def ValidateTaskTransition_def)
  have g: "get_task (os_db st') i = Inr t'" using t' by (simp add: get_task_def find_row_def)
  have subs: "repo_ListSubTasks (os_db st') i = [t']" using t' by (simp add: repo_ListSubTasks_def)
  have ord: "SortBySequenceIndex [t'] = [t']" by (simp add: SortBySequenceIndex_def)
  have "updateTaskStatus n env (save_summary env st' t' [t']) i TaskStatusMerged = None"
    by (rule Suc.IH [OF self_parent_save [OF s assms(2) t'(2)]])
  then have "dispatchNextChildOrReduce (updateTaskStatus n env) env st' i = None"
    using g w(5) by (simp add: dispatchNextChildOrReduce_def subs ord completeDecomposedParent_def)
  then show ?case
    using w(1,5) t' g by (simp add: onChildTaskTerminal_def terminal_status_def)
qed simp

theorem self_parent_never_returns_witness:
  "updateTaskStatus 1000 silent_env (orch_of [(demo_parent TaskStatusCoding)\<lparr>t_parent_task_id := Some ''p''\<rparr>])
     ''p'' TaskStatusMerged = None"
proof (rule self_parent_never_returns)
  show "self_parent ''p'' (orch_of [(demo_parent TaskStatusCoding)\<lparr>t_parent_task_id := Some ''p''\<rparr>])"
    by (simp add: self_parent_def ValidateTaskTransition_def ValidTaskTransitions_def)
  show "oe_events silent_env = (\<lambda>_ _. None)" by simp
qed

section \<open>Children one after the other\<close>

lemma nonterminal_write_eq:
  assumes "\<not> terminal_status s"
  shows "updateTaskStatus (Suc n) env st i s = Some (write_status (oe_now env) st i s)"
proof (cases "write_status (oe_now env) st i s")
  case (Pair r st1)
  show ?thesis
  proof (cases r)
    case (Inr t)
    with write_status_row Pair have "t_status t = s \<or> t_status t = TaskStatusBlocked" by blast
    then have "\<not> terminal_status (t_status t)" using assms by (auto simp: terminal_status_def)
    with Pair Inr show ?thesis by simp
  qed (simp add: Pair)
qed

lemma fresh_status_cases:
  assumes "s = TaskStatusTodo \<or> s = ''''"
  shows "ValidateTaskTransition s TaskStatusContextLoading = None"
    and "ValidateTaskTransition s TaskStatusBlocked \<noteq> None"
proof -
  have l: "list_all (\<lambda>s. ValidateTaskTransition s TaskStatusContextLoading = None \<and>
      ValidateTaskTransition s TaskStatusBlocked \<noteq> None) [TaskStatusTodo, []]" by code_simp
  with assms show "ValidateTaskTransition s TaskStatusContextLoading = None"
    unfolding list_all_iff by (metis list.set_intros(1) list.set_intros(2))
  from l assms show "ValidateTaskTransition s TaskStatusBlocked \<noteq> None"
    unfolding list_all_iff by (metis list.set_intros(1) list.set_intros(2))
qed

lemma find_distinct: "distinct (map f xs) \<Longrightarrow> x \<in> set xs \<Longrightarrow> find (\<lambda>y. f y = f x) xs = Some x"
  by (induction xs) auto

lemma first_child_row:
  assumes "find P (SortBySequenceIndex (repo_ListSubTasks d p)) = Some c" "distinct (map t_id (db_tasks d))"
  shows "find_row (db_tasks d) (t_id c) = Some c" and "P c"
proof -
  obtain i where i: "i < length (SortBySequenceIndex (repo_ListSubTasks d p))"
    "c = SortBySequenceIndex (repo_ListSubTasks d p) ! i" and c: "P c"
    using assms(1) unfolding find_Some_iff by blast
  have "c \<in> set (repo_ListSubTasks d p)" using nth_mem [OF i(1)] i(2) by simp
  then have "c \<in> set (db_tasks d)" by (simp add: repo_ListSubTasks_def)
  with assms(2) show "find_row (db_tasks d) (t_id c) = Some c" by (simp add: find_row_def find_distinct)
  from c show "P c" .
qed

text \<open>The first status write of a child that has not started succeeds unless a guardrail trips.\<close>

lemma start_fresh_child:
  assumes "find_row (db_tasks (os_db st)) (t_id c) = Some c" "t_status c \<in> {TaskStatusTodo, ''''}"
  shows "\<exists>r st1. start_task (updateTaskStatus (Suc n) env) st c = Some (r, st1) \<and>
    os_jobs st1 = os_jobs st \<and> os_next st1 = os_next st \<and>
    (r = None \<longleftrightarrow> guard_reason (oe_now env) (os_db st) c TaskStatusContextLoading = '''')"
proof -
  have True: "t_status c = TaskStatusTodo \<or> t_status c = ''''" using assms(2) by simp
  obtain r st1 where w: "write_status (oe_now env) st (t_id c) TaskStatusContextLoading = (r, st1)" by fastforce
  have f: "os_jobs st1 = os_jobs st" "os_next st1 = os_next st" using w write_status_frame by (metis snd_conv)+
  have u: "updateTaskStatus (Suc n) env st (t_id c) TaskStatusContextLoading = Some (r, st1)"
    using nonterminal_write_eq [of TaskStatusContextLoading n env st "t_id c"] w
    by (simp add: terminal_status_def del: updateTaskStatus.simps)
  show ?thesis
  proof (cases "guard_reason (oe_now env) (os_db st) c TaskStatusContextLoading = ''''")
    case ok: True
    from write_status_cases [OF assms(1), of "oe_now env" TaskStatusContextLoading] ok w fresh_status_cases(1) [OF True]
    obtain t' where "r = Inr t'" by (auto simp: Let_def)
    with u f True ok show ?thesis by (auto simp: start_task_def simp del: updateTaskStatus.simps)
  next
    case tripped: False
    from write_status_cases [OF assms(1), of "oe_now env" TaskStatusContextLoading] tripped w fresh_status_cases(2) [OF True]
    obtain e' where "r = Inl e'" by (auto simp: Let_def)
    with u f True tripped show ?thesis by (auto simp: start_task_def simp del: updateTaskStatus.simps)
  qed
qed

lemma requeue_paused:
  assumes "LatestByTaskID st i = Inr job" "j_status job = WorkflowJobStatusPaused" "distinct (map j_id (os_jobs st))"
  obtains j where
    "UpdateJob now st (j_id job) (no_job_update\<lparr>ju_status := Some WorkflowJobStatusQueued\<rparr>) =
     (Inr j, st\<lparr>os_jobs := map_job (os_jobs st) (j_id job)
                  (\<lambda>j. j\<lparr>j_status := WorkflowJobStatusQueued, j_updated_at := now\<rparr>)\<rparr>)"
proof -
  let ?u = "no_job_update\<lparr>ju_status := Some WorkflowJobStatusQueued\<rparr>"
  have "job \<in> set (os_jobs st)"
    using assms(1) by (auto simp: LatestByTaskID_def find_Some_iff split: option.splits)
                      (metis nth_mem rev_nth set_rev length_rev)
  then have f: "find_job (os_jobs st) (j_id job) = Some job"
    using assms(3) by (simp add: find_job_def find_distinct)
  have q: "ValidateJobTransition WorkflowJobStatusPaused WorkflowJobStatusQueued = None" by code_simp
  have e: "apply_job_update now ?u = (\<lambda>j. j\<lparr>j_status := WorkflowJobStatusQueued, j_updated_at := now\<rparr>)"
    by (rule ext) (simp add: apply_job_update_def no_job_update_def set_field_def)
  have m: "find_job (map_job (os_jobs st) (j_id job)
        (\<lambda>j. j\<lparr>j_status := WorkflowJobStatusQueued, j_updated_at := now\<rparr>)) (j_id job) =
      Some (job\<lparr>j_status := WorkflowJobStatusQueued, j_updated_at := now\<rparr>)"
    using f by (simp add: find_map_job same_job_def)
  have "status_check st (j_id job) ?u = None" by (simp add: status_check_def f assms(2) q)
  then show thesis by (intro that) (simp add: UpdateJob_def e m Let_def)
qed

text \<open>
  C28: Children run one at a time and in sequence order: while a child is not merged, the dispatch of
  the parent concerns the first such child only. If that child has not started, a job is queued for
  it, unless a guardrail trips or its latest job is queued or running already; a latest job that is
  paused is queued again instead. If it has failed or is under way, whatever its jobs, no job changes.
\<close>
theorem dispatch_one_child:
  assumes "find (\<lambda>c. t_status c \<noteq> TaskStatusMerged)
      (SortBySequenceIndex (repo_ListSubTasks (os_db st) p)) = Some c"
    and "distinct (map t_id (db_tasks (os_db st)))" "distinct (map j_id (os_jobs st))"
  shows "\<exists>st'. dispatchNextChildOrReduce (updateTaskStatus (Suc n) env) env st p = Some st' \<and>
    os_jobs st' =
      (if t_status c \<notin> {TaskStatusTodo, ''''} then os_jobs st
       else let queue = (if guard_reason (oe_now env) (os_db st) c TaskStatusContextLoading = ''''
                         then os_jobs st @ [new_job (oe_id env (os_next st)) (oe_now env) (t_id c)]
                         else os_jobs st)
            in case LatestByTaskID st (t_id c) of
                 Inl _ \<Rightarrow> queue
               | Inr job \<Rightarrow>
                   if j_status job \<in> {WorkflowJobStatusRunning, WorkflowJobStatusQueued} then os_jobs st
                   else if j_status job = WorkflowJobStatusPaused
                   then map_job (os_jobs st) (j_id job)
                          (\<lambda>j. j\<lparr>j_status := WorkflowJobStatusQueued, j_updated_at := oe_now env\<rparr>)
                   else queue)"
proof (cases "t_status c \<in> {TaskStatusTodo, ''''}")
  case False
  with assms(1) show ?thesis by (auto simp: dispatchNextChildOrReduce_def)
next
  case fresh: True
  let ?upd = "updateTaskStatus (Suc n) env"
  note row = first_child_row(1) [OF assms(1, 2)]
  have g: "get_task (os_db st) (t_id c) = Inr c" using row by (simp add: get_task_def)
  have x: "dispatchNextChildOrReduce ?upd env st p =
      (case Execute ?upd env st (t_id c) of None \<Rightarrow> None | Some (_, st1) \<Rightarrow> Some (o_log env p st1))"
    using assms(1) fresh
    by (auto simp: dispatchNextChildOrReduce_def simp del: updateTaskStatus.simps)
  have queued: "\<exists>r st'. enqueue_task ?upd env st c = Some (r, st') \<and> os_jobs st' =
      (if guard_reason (oe_now env) (os_db st) c TaskStatusContextLoading = ''''
       then os_jobs st @ [new_job (oe_id env (os_next st)) (oe_now env) (t_id c)] else os_jobs st)"
    using start_fresh_child [OF row fresh, of n env]
    by (auto simp: enqueue_task_def Enqueue_def Let_def split: option.splits simp del: updateTaskStatus.simps)
  show ?thesis
  proof (cases "LatestByTaskID st (t_id c)")
    case (Inl e)
    with queued x g fresh show ?thesis by (auto simp: Execute_def simp del: updateTaskStatus.simps)
  next
    case (Inr job)
    show ?thesis
    proof (cases "j_status job = WorkflowJobStatusPaused")
      case False
      with Inr queued x g fresh show ?thesis by (auto simp: Execute_def simp del: updateTaskStatus.simps)
    next
      case paused: True
      let ?st = "st\<lparr>os_jobs := map_job (os_jobs st) (j_id job)
          (\<lambda>j. j\<lparr>j_status := WorkflowJobStatusQueued, j_updated_at := oe_now env\<rparr>)\<rparr>"
      obtain j where u: "UpdateJob (oe_now env) st (j_id job)
          (no_job_update\<lparr>ju_status := Some WorkflowJobStatusQueued\<rparr>) = (Inr j, ?st)"
        using requeue_paused [OF Inr paused assms(3)] .
      have "\<exists>r st'. resume_paused ?upd env st c job = Some (r, st') \<and> os_jobs st' = os_jobs ?st"
        using start_fresh_child [of ?st c n env] row fresh u
        by (auto simp: resume_paused_def split: option.splits simp del: updateTaskStatus.simps)
      with Inr paused x g fresh show ?thesis by (auto simp: Execute_def simp del: updateTaskStatus.simps)
    qed
  qed
qed

theorem dispatch_one_child_witness:
  "\<exists>st'. dispatchNextChildOrReduce (updateTaskStatus 1 silent_env) silent_env
      (orch_of [demo_parent TaskStatusCoding, demo_child ''b'' 1 TaskStatusTodo, demo_child ''a'' 0 TaskStatusMerged])
      ''p'' = Some st' \<and> map j_task_id (os_jobs st') = [''b'']"
proof -
  let ?st = "orch_of [demo_parent TaskStatusCoding, demo_child ''b'' 1 TaskStatusTodo, demo_child ''a'' 0 TaskStatusMerged]"
  have "repo_ListSubTasks (os_db ?st) ''p'' = [demo_child ''b'' 1 TaskStatusTodo, demo_child ''a'' 0 TaskStatusMerged]"
    by (simp add: repo_ListSubTasks_def demo_child_def demo_task_def new_task_def)
  then have o: "find (\<lambda>c. t_status c \<noteq> TaskStatusMerged) (SortBySequenceIndex (repo_ListSubTasks (os_db ?st) ''p'')) =
      Some (demo_child ''b'' 1 TaskStatusTodo)"
    by (simp add: SortBySequenceIndex_def)
  have d: "distinct (map t_id (db_tasks (os_db ?st)))" "distinct (map j_id (os_jobs ?st))"
    by simp_all
  have l: "LatestByTaskID ?st ''b'' =
      Inl (RepoWrapped ''latest workflow job'' RepoNotFound)" by (simp add: LatestByTaskID_def)
  have g: "guard_reason (oe_now silent_env) (os_db ?st) (demo_child ''b'' 1 TaskStatusTodo) TaskStatusContextLoading = ''''"
    by code_simp
  from dispatch_one_child [OF o d, of 0 silent_env] g l show ?thesis
    by (auto simp: new_job_def simp del: updateTaskStatus.simps)
qed

section \<open>A failing child\<close>

lemma failed_write:
  assumes "find_row (db_tasks (os_db st)) i = Some c" and "ValidateTaskTransition (t_status c) TaskStatusFailed = None"
  shows "\<exists>c' st1. write_status now st i TaskStatusFailed = (Inr c', st1) \<and> t_status c' = TaskStatusFailed \<and>
    t_parent_task_id c' = t_parent_task_id c \<and> t_id c' = i \<and>
    (\<forall>j. j \<noteq> i \<longrightarrow> find_row (db_tasks (os_db st1)) j = find_row (db_tasks (os_db st)) j)"
proof -
  have g: "guard_reason now (os_db st) c TaskStatusFailed = ''''" by (simp add: guard_reason_def)
  obtain c' st1 where w: "write_status now st i TaskStatusFailed = (Inr c', st1)"
    using write_status_cases [OF assms(1), of now TaskStatusFailed] assms(2) g
    by (cases "write_status now st i TaskStatusFailed") (auto simp: Let_def)
  have c': "c' = apply_update ((fst (applyGuardrails now (os_db st) c TaskStatusFailed))\<lparr>ui_status := Some TaskStatusFailed\<rparr>) c"
    and rows: "\<forall>j. j \<noteq> i \<longrightarrow> find_row (db_tasks (os_db st1)) j = find_row (db_tasks (os_db st)) j"
    using write_status_cases [OF assms(1), of now TaskStatusFailed] assms(2) g w by (auto simp: Let_def)
  have "t_parent_task_id c' = t_parent_task_id c" "t_id c' = i" "t_status c' = TaskStatusFailed"
    using find_row_id [OF assms(1)]
    by (simp_all add: c' apply_update_def applyGuardrails_parent guard_fields)
  with w rows show ?thesis by blast
qed

lemma blocked_write:
  assumes "find_row (db_tasks (os_db st)) i = Some t"
  shows "case ValidateTaskTransition (t_status t) TaskStatusBlocked of
      Some e \<Rightarrow> (\<exists>e. fst (write_status now st i TaskStatusBlocked) = Inl e) \<and>
        os_db (snd (write_status now st i TaskStatusBlocked)) = os_db st
    | None \<Rightarrow> \<exists>t'. fst (write_status now st i TaskStatusBlocked) = Inr t' \<and> t_status t' = TaskStatusBlocked \<and>
        t_blocked_child_id t' = t_blocked_child_id t \<and>
        find_row (db_tasks (os_db (snd (write_status now st i TaskStatusBlocked)))) i = Some t'"
proof -
  have g: "guard_reason now (os_db st) t TaskStatusBlocked = ''''" by (simp add: guard_reason_def)
  show ?thesis
  proof (cases "ValidateTaskTransition (t_status t) TaskStatusBlocked")
    case (Some e)
    with write_status_cases [OF assms, of now TaskStatusBlocked] g show ?thesis by (simp add: Let_def)
  next
    case None
    with write_status_cases [OF assms, of now TaskStatusBlocked] g show ?thesis
      by (auto simp: Let_def guard_fields) (simp add: apply_update_def applyGuardrails_def Let_def no_update_def)
  qed
qed

end
