(* ===== verification/Job_Control.thy ===== *)
theory Job_Control
  imports Decomposition_Props
begin

text \<open>
  The operations of the orchestrator on the job of a task (\<^verbatim>\<open>orchestrator/orchestrator.go\<close>,
  \<^verbatim>\<open>orchestrator/pr_sync.go\<close>, \<^verbatim>\<open>orchestrator/recovery.go\<close>): pause, cancel, approval of a merge, the
  review loop limits and their checkpoints, the synchronisation with merged pull requests, failure.
  Every operation takes the status write it uses. The git host and the list of the repositories of a
  project are parameters.
\<close>

section \<open>Pause, cancel, fail\<close>

definition PauseJob :: "orch_env \<Rightarrow> orch_state \<Rightarrow> string \<Rightarrow> orch_error option \<times> orch_state" where
  "PauseJob env st taskID =
     (case LatestByTaskID st taskID of
        Inl e \<Rightarrow> (Some (JobRead e), st)
      | Inr job \<Rightarrow>
          if j_status job \<noteq> WorkflowJobStatusRunning then (Some (JobNotRunning (j_status job)), st)
          else (case UpdateJob (oe_now env) st (j_id job)
                       (no_job_update\<lparr>ju_status := Some WorkflowJobStatusPaused\<rparr>) of
                  (Inl e, st1) \<Rightarrow> (Some (JobWrite e), st1)
                | (Inr _, st1) \<Rightarrow> (None, add_effect WakeWorker (cancel_run env (j_id job) st1))))"

definition active_job :: "workflow_job \<Rightarrow> bool" where
  "active_job job \<longleftrightarrow>
     j_status job \<in> {WorkflowJobStatusRunning, WorkflowJobStatusQueued, WorkflowJobStatusPaused}"

definition CancelJob ::
  "status_writer \<Rightarrow> orch_env \<Rightarrow> orch_state \<Rightarrow> string \<Rightarrow> (orch_error option \<times> orch_state) option" where
  "CancelJob upd env st taskID =
     (case LatestByTaskID st taskID of
        Inl e \<Rightarrow> Some (Some (JobRead e), st)
      | Inr job \<Rightarrow>
          if \<not> active_job job then Some (Some (JobNotActive (j_status job)), st)
          else (case UpdateJob (oe_now env) st (j_id job)
                       (no_job_update\<lparr>ju_status := Some WorkflowJobStatusFailed,
                                      ju_last_error := Some ''cancelled by user''\<rparr>) of
                  (Inl e, st1) \<Rightarrow> Some (Some (JobWrite e), st1)
                | (Inr _, st1) \<Rightarrow>
                    (case upd st1 taskID TaskStatusFailed of
                       None \<Rightarrow> None
                     | Some (Inl e, st2) \<Rightarrow> Some (Some (StatusWrite e), st2)
                     | Some (Inr _, st2) \<Rightarrow>
                         Some (None, add_effect WakeWorker
                                (add_effect (ReleaseLock taskID) (cancel_run env (j_id job) st2))))))"

text \<open>
  Failure of a run. Nothing is done for a run that was cancelled (by its context or a killed
  process). The clean-up is deferred, so it comes last.
\<close>

definition fail ::
  "status_writer \<Rightarrow> orch_env \<Rightarrow> bool \<Rightarrow> orch_state \<Rightarrow> workflow_job \<Rightarrow> string \<Rightarrow> orch_state option" where
  "fail upd env cancelled st job msg =
     (if cancelled then Some st
      else (case upd st (j_task_id job) TaskStatusFailed of
              None \<Rightarrow> None
            | Some (_, st1) \<Rightarrow>
                (let st2 = snd (UpdateJob (oe_now env) st1 (j_id job)
                       (no_job_update\<lparr>ju_status := Some WorkflowJobStatusFailed, ju_last_error := Some msg\<rparr>))
                 in Some (add_effect (CleanupWorkspace (j_task_id job)) (o_log env (j_task_id job) st2)))))"

section \<open>Checkpoints of the review loops\<close>

definition SavePRRejectionFeedback :: "orch_state \<Rightarrow> string \<Rightarrow> string \<Rightarrow> orch_state" where
  "SavePRRejectionFeedback st taskID feedback =
     CreateCheckpoint st
       \<lparr>cp_task_id = taskID, cp_job_id = None, cp_step = ''pr_rejection'',
        cp_state = Json [(''feedback'', VString feedback)]\<rparr>"

definition SaveSpecReviewCycle :: "orch_state \<Rightarrow> string \<Rightarrow> string \<Rightarrow> orch_state" where
  "SaveSpecReviewCycle st taskID comment =
     CreateCheckpoint st
       \<lparr>cp_task_id = taskID, cp_job_id = None, cp_step = ''cli_spec_review_cycle'',
        cp_state = Json [(''comment'', VString comment)]\<rparr>"

definition repair_steps :: "string list" where
  "repair_steps = [''code_backend'', ''code_frontend'', ''review'', ''fix'', ''test'', ''pr'']"

definition ClearCheckpointsForRepair :: "orch_state \<Rightarrow> string \<Rightarrow> orch_error option \<times> orch_state" where
  "ClearCheckpointsForRepair st taskID =
     (case get_task (os_db st) taskID of
        Inl e \<Rightarrow> (Some (TaskRead e), st)
      | Inr _ \<Rightarrow> (None, DeleteCheckpoints st taskID repair_steps))"

definition max_cycles :: "db \<Rightarrow> task \<Rightarrow> int" where
  "max_cycles d t =
     (case get_project d (t_project_id t) of
        Inl _ \<Rightarrow> 3
      | Inr p \<Rightarrow> if p_max_review_fix_cycles p > 0 then p_max_review_fix_cycles p else 3)"

definition cycles :: "orch_state \<Rightarrow> string \<Rightarrow> string \<Rightarrow> int" where
  "cycles st taskID step =
     int (length (filter (\<lambda>cp. cp_step cp = step) (ListCheckpoints st taskID)))"

text \<open>The two limits differ in the step they count and in their error.\<close>

definition check_limit ::
  "string \<Rightarrow> (int \<Rightarrow> orch_error) \<Rightarrow> status_writer \<Rightarrow> orch_env \<Rightarrow> orch_state \<Rightarrow> string \<Rightarrow>
   (orch_error option \<times> orch_state) option" where
  "check_limit step err upd env st taskID =
     (case get_task (os_db st) taskID of
        Inl e \<Rightarrow> Some (Some (TaskRead e), st)
      | Inr t \<Rightarrow>
          if cycles st taskID step \<ge> max_cycles (os_db st) t then
            (case upd st taskID TaskStatusFailed of
               None \<Rightarrow> None
             | Some (_, st1) \<Rightarrow> Some (Some (err (max_cycles (os_db st) t)), o_log env taskID st1))
          else Some (None, st))"

definition CheckReviewLoopLimit ::
  "status_writer \<Rightarrow> orch_env \<Rightarrow> orch_state \<Rightarrow> string \<Rightarrow> (orch_error option \<times> orch_state) option" where
  "CheckReviewLoopLimit = check_limit ''pr_rejection'' ReviewLoopLimit"

definition CheckSpecReviewLoopLimit ::
  "status_writer \<Rightarrow> orch_env \<Rightarrow> orch_state \<Rightarrow> string \<Rightarrow> (orch_error option \<times> orch_state) option" where
  "CheckSpecReviewLoopLimit = check_limit ''cli_spec_review_cycle'' SpecReviewLoopLimit"

section \<open>Merged pull requests\<close>

record git_host =
  gh_repos :: "string \<Rightarrow> string + string list"
  gh_merge :: "string \<Rightarrow> string \<Rightarrow> string option"
  gh_is_merged :: "string \<Rightarrow> string \<Rightarrow> string + bool"

text \<open>The first repository whose URL, less \<^verbatim>\<open>.git\<close>, occurs in the URL of the pull request; empty if none.\<close>

definition match_repo :: "string list \<Rightarrow> string \<Rightarrow> string" where
  "match_repo repos prURL =
     or_zero '''' (find (\<lambda>r. str_contains prURL (trim_suffix r ''.git'')) repos)"

fun merge_prs ::
  "git_host \<Rightarrow> orch_env \<Rightarrow> string \<Rightarrow> string list \<Rightarrow> string list \<Rightarrow> orch_state \<Rightarrow> orch_error option \<times> orch_state" where
  "merge_prs git env taskID repos [] st = (None, st)"
| "merge_prs git env taskID repos (url # urls) st =
     (let repo = match_repo repos url
      in if repo = '''' then (Some (NoMatchingRepository url), st)
         else (case gh_merge git repo url of
                 None \<Rightarrow> merge_prs git env taskID repos urls (o_log env taskID st)
               | Some err \<Rightarrow>
                   if gh_is_merged git repo url = Inr True
                     then merge_prs git env taskID repos urls (o_log env taskID st)
                   else (Some (MergeFailed url err), o_log env taskID st)))"

text \<open>A paused job of a merged task is closed; the checkpoint is written whether or not that worked.\<close>

definition close_paused_job :: "orch_env \<Rightarrow> orch_state \<Rightarrow> string \<Rightarrow> orch_state" where
  "close_paused_job env st taskID =
     (case LatestByTaskID st taskID of
        Inl _ \<Rightarrow> st
      | Inr job \<Rightarrow>
          if j_status job = WorkflowJobStatusPaused then
            CreateCheckpoint
              (snd (UpdateJob (oe_now env) st (j_id job)
                 (no_job_update\<lparr>ju_status := Some WorkflowJobStatusDone, ju_step := Some ''done'',
                                ju_last_error := Some ''''\<rparr>)))
              \<lparr>cp_task_id = taskID, cp_job_id = Some (j_id job), cp_step = ''done'',
               cp_state = Json [(''status'', VString WorkflowJobStatusDone)]\<rparr>
          else st)"

definition merge_pull_requests ::
  "git_host option \<Rightarrow> orch_env \<Rightarrow> orch_state \<Rightarrow> task \<Rightarrow> orch_error option \<times> orch_state" where
  "merge_pull_requests git env st t =
     (case git of
        None \<Rightarrow> (None, st)
      | Some g \<Rightarrow>
          (case gh_repos g (t_project_id t) of
             Inl e \<Rightarrow> (Some (RepositoryList e), st)
           | Inr repos \<Rightarrow> merge_prs g env (t_id t) repos (t_pr_urls t) st))"

definition ApproveMerge ::
  "status_writer \<Rightarrow> git_host option \<Rightarrow> orch_env \<Rightarrow> orch_state \<Rightarrow> string \<Rightarrow> task orch_result" where
  "ApproveMerge upd git env st taskID =
     (case get_task (os_db st) taskID of
        Inl e \<Rightarrow> Some (Inl (TaskRead e), st)
      | Inr t \<Rightarrow>
          if t_status t \<noteq> TaskStatusHumanReview \<and> t_status t \<noteq> TaskStatusPrReady
            then Some (Inl NotAwaitingApproval, st)
          else if t_pr_urls t = [] then Some (Inl NoPullRequest, st)
          else (case merge_pull_requests git env st t of
                  (Some e, st1) \<Rightarrow> Some (Inl e, st1)
                | (None, st1) \<Rightarrow>
                    (case upd st1 taskID TaskStatusMerged of
                       None \<Rightarrow> None
                     | Some (Inl e, st2) \<Rightarrow> Some (Inl (StatusWrite e), st2)
                     | Some (Inr updated, st2) \<Rightarrow>
                         Some (Inr updated, add_effect (CleanupWorkspace taskID)
                           (o_log env taskID (close_paused_job env st2 taskID))))))"

definition StartReview :: "status_writer \<Rightarrow> orch_state \<Rightarrow> string \<Rightarrow> task orch_result" where
  "StartReview upd st taskID =
     (case get_task (os_db st) taskID of
        Inl e \<Rightarrow> Some (Inl (TaskRead e), st)
      | Inr t \<Rightarrow>
          if t_status t \<noteq> TaskStatusPrReady then Some (Inl NotPrReady, st)
          else (case upd st taskID TaskStatusHumanReview of
                  None \<Rightarrow> None
                | Some (Inl e, st1) \<Rightarrow> Some (Inl (StatusWrite e), st1)
                | Some (Inr u, st1) \<Rightarrow> Some (Inr u, st1)))"

text \<open>
  \<^verbatim>\<open>ListRecentByStatus\<close>: the update times that order the rows are not modelled, so the order is an
  argument.
\<close>

definition ListRecentByStatus :: "(task list \<Rightarrow> task list) \<Rightarrow> db \<Rightarrow> string list \<Rightarrow> nat \<Rightarrow> task list" where
  "ListRecentByStatus recent d statuses limit =
     take limit (recent (filter (\<lambda>t. t_status t \<in> set statuses) (db_tasks d)))"

definition awaiting_pr :: "(task list \<Rightarrow> task list) \<Rightarrow> db \<Rightarrow> task list" where
  "awaiting_pr recent d = ListRecentByStatus recent d [TaskStatusPrReady, TaskStatusHumanReview] 100"

definition all_merged :: "git_host \<Rightarrow> string list \<Rightarrow> string list \<Rightarrow> bool" where
  "all_merged git repos urls =
     list_all (\<lambda>url. match_repo repos url \<noteq> '''' \<and> gh_is_merged git (match_repo repos url) url = Inr True) urls"

text \<open>The tail shared by the poller and the webhook: the task was merged on the host.\<close>

definition mark_merged :: "status_writer \<Rightarrow> orch_env \<Rightarrow> orch_state \<Rightarrow> task \<Rightarrow> task orch_result" where
  "mark_merged upd env st t =
     (case upd (o_log env (t_id t) st) (t_id t) TaskStatusMerged of
        None \<Rightarrow> None
      | Some (Inl e, st1) \<Rightarrow> Some (Inl (StatusWrite e), st1)
      | Some (Inr u, st1) \<Rightarrow>
          Some (Inr u, add_effect (CleanupWorkspace (t_id t)) (close_paused_job env st1 (t_id t))))"

fun sync_tasks :: "status_writer \<Rightarrow> git_host option \<Rightarrow> orch_env \<Rightarrow> task list \<Rightarrow> orch_state \<Rightarrow> orch_state option" where
  "sync_tasks upd git env [] st = Some st"
| "sync_tasks upd git env (t # ts) st =
     (case git of
        None \<Rightarrow> sync_tasks upd git env ts st
      | Some g \<Rightarrow>
          if t_pr_urls t = [] then sync_tasks upd git env ts st
          else (case gh_repos g (t_project_id t) of
                  Inl _ \<Rightarrow> sync_tasks upd git env ts st
                | Inr repos \<Rightarrow>
                    if all_merged g repos (t_pr_urls t) then
                      (case mark_merged upd env st t of
                         None \<Rightarrow> None
                       | Some (_, st1) \<Rightarrow> sync_tasks upd git env ts st1)
                    else sync_tasks upd git env ts st))"

definition syncPRStatuses ::
  "status_writer \<Rightarrow> git_host option \<Rightarrow> (task list \<Rightarrow> task list) \<Rightarrow> orch_env \<Rightarrow> orch_state \<Rightarrow> orch_state option" where
  "syncPRStatuses upd git recent env st = sync_tasks upd git env (awaiting_pr recent (os_db st)) st"

definition SyncPRMerged ::
  "status_writer \<Rightarrow> (task list \<Rightarrow> task list) \<Rightarrow> orch_env \<Rightarrow> orch_state \<Rightarrow> string \<Rightarrow> task orch_result" where
  "SyncPRMerged upd recent env st prURL =
     (case find (\<lambda>t. prURL \<in> set (t_pr_urls t)) (awaiting_pr recent (os_db st)) of
        None \<Rightarrow> Some (Inl (NoTaskForPR prURL), st)
      | Some t \<Rightarrow> mark_merged upd env st t)"

end
