(* ===== verification/Task_Handlers.thy ===== *)
theory Task_Handlers
  imports Job_Control
begin

text \<open>
  The HTTP handlers that combine the task service with the orchestrator: \<^verbatim>\<open>handler/task.go\<close>,
  \<^verbatim>\<open>handler/pr.go\<close> and \<^verbatim>\<open>handler/webhook.go\<close>. A request body is given as the value it decodes to,
  \<open>None\<close> when decoding fails; \<open>orch\<close> says whether the handler has an orchestrator. The reply is the
  value or the kind of error, before it is turned into a status code (\<open>HBadOrch\<close> is a bad request with the
  text of an error of the orchestrator). The message
  authentication code of a webhook body is a parameter.
\<close>

section \<open>Replies\<close>

datatype 'a reply =
    HOk 'a
  | HBadRequest string
  | HConflict orch_error
  | HBadOrch orch_error
  | HSvc svc_error
  | HOrch orch_error
  | HUnauthorized
  | HNotFound
  | HIgnored
  | HServerError

type_synonym 'a handler = "('a reply \<times> orch_state) option"

definition run_svc :: "(db \<Rightarrow> 'a result) \<Rightarrow> orch_state \<Rightarrow> (svc_error + 'a) \<times> orch_state" where
  "run_svc f st = (let (r, d) = f (os_db st) in (r, st\<lparr>os_db := d\<rparr>))"

text \<open>The answer \<open>x\<close>, after the task has been handed to the orchestrator.\<close>

definition execute_then ::
  "status_writer \<Rightarrow> orch_env \<Rightarrow> bool \<Rightarrow> orch_state \<Rightarrow> string \<Rightarrow> 'a \<Rightarrow> 'a handler" where
  "execute_then upd env orch st taskID x =
     (if \<not> orch then Some (HOk x, st)
      else (case Execute upd env st taskID of
              None \<Rightarrow> None
            | Some (Inl e, st1) \<Rightarrow> Some (HOrch e, st1)
            | Some (Inr _, st1) \<Rightarrow> Some (HOk x, st1)))"

definition svc_then_execute ::
  "status_writer \<Rightarrow> orch_env \<Rightarrow> bool \<Rightarrow> (db \<Rightarrow> task result) \<Rightarrow> orch_state \<Rightarrow> string \<Rightarrow> task handler" where
  "svc_then_execute upd env orch f st taskID =
     (case run_svc f st of
        (Inl e, st1) \<Rightarrow> Some (HSvc e, st1)
      | (Inr t, st1) \<Rightarrow> execute_then upd env orch st1 taskID t)"

abbreviation invalid_body :: "orch_state \<Rightarrow> 'a handler" where
  "invalid_body st \<equiv> Some (HBadRequest ''invalid request body'', st)"

section \<open>Tasks\<close>

definition h_Analyze :: "status_writer \<Rightarrow> orch_env \<Rightarrow> bool \<Rightarrow> orch_state \<Rightarrow> string \<Rightarrow> task handler" where
  "h_Analyze upd env orch st taskID =
     (case run_svc (\<lambda>d. svc_Analyze d taskID) st of
        (Inl e, st1) \<Rightarrow> Some (HSvc e, st1)
      | (Inr t, st1) \<Rightarrow>
          execute_then upd env (t_spec_status t = TaskSpecStatusAutoApproved \<and> orch) st1 taskID t)"

definition h_Clarify ::
  "status_writer \<Rightarrow> orch_env \<Rightarrow> bool \<Rightarrow> orch_state \<Rightarrow> string \<Rightarrow> string option \<Rightarrow> task handler" where
  "h_Clarify upd env orch st taskID body =
     (case body of
        None \<Rightarrow> invalid_body st
      | Some ctx \<Rightarrow> svc_then_execute upd env orch (\<lambda>d. svc_Clarify (oe_now env) d taskID ctx) st taskID)"

definition h_ApproveAnalysis :: "status_writer \<Rightarrow> orch_env \<Rightarrow> bool \<Rightarrow> orch_state \<Rightarrow> string \<Rightarrow> task handler" where
  "h_ApproveAnalysis upd env orch st taskID =
     svc_then_execute upd env orch (\<lambda>d. svc_ApproveAnalysis d taskID) st taskID"

definition h_RequestAnalysisChanges ::
  "status_writer \<Rightarrow> orch_env \<Rightarrow> bool \<Rightarrow> orch_state \<Rightarrow> string \<Rightarrow> string option \<Rightarrow> task handler" where
  "h_RequestAnalysisChanges upd env orch st taskID body =
     (case body of
        None \<Rightarrow> invalid_body st
      | Some ctx \<Rightarrow> svc_then_execute upd env orch (\<lambda>d. svc_RequestAnalysisChanges d taskID ctx) st taskID)"

definition h_ApproveSplit ::
  "status_writer \<Rightarrow> orch_env \<Rightarrow> bool \<Rightarrow> orch_state \<Rightarrow> string \<Rightarrow> (child_task_spec list \<times> string) option \<Rightarrow>
   task list handler" where
  "h_ApproveSplit upd env orch st taskID body =
     (case body of
        None \<Rightarrow> invalid_body st
      | Some (specs, mode) \<Rightarrow>
          (case run_svc (\<lambda>d. svc_ApproveSplit (oe_id env) d taskID specs mode) st of
             (Inl e, st1) \<Rightarrow> Some (HSvc e, st1)
           | (Inr children, st1) \<Rightarrow>
               if \<not> orch then Some (HOk children, st1)
               else map_option (Pair (HOk children)) (DispatchDecomposedParent upd env st1 taskID)))"

definition h_RetryBlockedParent ::
  "status_writer \<Rightarrow> orch_env \<Rightarrow> bool \<Rightarrow> orch_state \<Rightarrow> string \<Rightarrow> task handler" where
  "h_RetryBlockedParent upd env orch st taskID =
     (if \<not> orch then Some (HNotFound, st)
      else (case RetryBlockedParent upd env st taskID of
              None \<Rightarrow> None
            | Some (Inl e, st1) \<Rightarrow> Some (HOrch e, st1)
            | Some (Inr t, st1) \<Rightarrow> Some (HOk t, st1)))"

definition request_changes ::
  "status_writer \<Rightarrow> orch_env \<Rightarrow> bool \<Rightarrow> orch_state \<Rightarrow> string \<Rightarrow> string \<Rightarrow> task handler" where
  "request_changes upd env orch st taskID comment =
     (case run_svc (\<lambda>d. svc_RequestAnalysisChanges d taskID comment) st of
        (Inl e, st1) \<Rightarrow> Some (HSvc e, st1)
      | (Inr t, st1) \<Rightarrow>
          if orch then execute_then upd env orch (SaveSpecReviewCycle st1 taskID comment) taskID t
          else Some (HOk t, st1))"

definition h_SpecReview ::
  "status_writer \<Rightarrow> orch_env \<Rightarrow> bool \<Rightarrow> orch_state \<Rightarrow> string \<Rightarrow> (string \<times> string) option \<Rightarrow> task handler" where
  "h_SpecReview upd env orch st taskID body =
     (case body of
        None \<Rightarrow> invalid_body st
      | Some (act, comment) \<Rightarrow>
          if act = ''approve'' then h_ApproveAnalysis upd env orch st taskID
          else if act = ''request_changes'' then
            (if orch then
               (case CheckSpecReviewLoopLimit upd env st taskID of
                  None \<Rightarrow> None
                | Some (Some e, st1) \<Rightarrow> Some (HConflict e, st1)
                | Some (None, st1) \<Rightarrow> request_changes upd env orch st1 taskID comment)
             else request_changes upd env orch st taskID comment)
          else Some (HBadRequest (''action must be 'approve' or 'request_changes'' @ [CHR 0x27]), st))"

definition h_UpdateAnalysis ::
  "orch_state \<Rightarrow> string \<Rightarrow> task_analysis raw_json option \<Rightarrow> task handler" where
  "h_UpdateAnalysis st taskID body =
     (case body of
        None \<Rightarrow> invalid_body st
      | Some raw \<Rightarrow>
          (case run_svc (\<lambda>d. svc_UpdateAnalysis d taskID raw) st of
             (Inl e, st1) \<Rightarrow> Some (HSvc e, st1)
           | (Inr t, st1) \<Rightarrow> Some (HOk t, st1)))"

definition h_CreateSubTask ::
  "status_writer \<Rightarrow> orch_env \<Rightarrow> bool \<Rightarrow> orch_state \<Rightarrow> string \<Rightarrow> create_task_input option \<Rightarrow> task handler" where
  "h_CreateSubTask upd env orch st parentID body =
     (case body of
        None \<Rightarrow> invalid_body st
      | Some input \<Rightarrow>
          (case run_svc (\<lambda>d. svc_CreateSubTask (oe_id env) d parentID input) st of
             (Inl e, st1) \<Rightarrow> Some (HSvc e, st1)
           | (Inr t, st1) \<Rightarrow> execute_then upd env orch st1 (t_id t) t))"

text \<open>A task that cannot be started is deleted again; otherwise it is read once more for the reply.\<close>

definition h_Create ::
  "status_writer \<Rightarrow> orch_env \<Rightarrow> bool \<Rightarrow> orch_state \<Rightarrow> string \<Rightarrow> create_task_input option \<Rightarrow> task handler" where
  "h_Create upd env orch st projectID body =
     (case body of
        None \<Rightarrow> invalid_body st
      | Some input \<Rightarrow>
          (case run_svc (\<lambda>d. svc_Create (oe_id env) d projectID input) st of
             (Inl e, st1) \<Rightarrow> Some (HSvc e, st1)
           | (Inr t, st1) \<Rightarrow>
               if \<not> orch then Some (HOk t, st1)
               else (case Execute upd env st1 (t_id t) of
                       None \<Rightarrow> None
                     | Some (Inl e, st2) \<Rightarrow>
                         Some (HOrch e, st2\<lparr>os_db := snd (svc_Delete (os_db st2) (t_id t))\<rparr>)
                     | Some (Inr _, st2) \<Rightarrow> Some (HOk (refresh (os_db st2) (t_id t) t), st2))))"

definition h_GetByID :: "orch_state \<Rightarrow> string \<Rightarrow> string option \<Rightarrow> task handler" where
  "h_GetByID st taskID role =
     (case svc_GetByID (os_db st) taskID of
        Inl e \<Rightarrow> Some (HSvc e, st)
      | Inr t \<Rightarrow>
          Some (HOk (case role of
                       None \<Rightarrow> t
                     | Some r \<Rightarrow> t\<lparr>t_available_actions := ApplyActionPolicy (t_available_actions t) r\<rparr>), st))"

definition h_Update :: "orch_state \<Rightarrow> string \<Rightarrow> update_task_input option \<Rightarrow> task handler" where
  "h_Update st taskID body =
     (case body of
        None \<Rightarrow> invalid_body st
      | Some input \<Rightarrow>
          (case run_svc (\<lambda>d. svc_Update d taskID input) st of
             (Inl e, st1) \<Rightarrow> Some (HSvc e, st1)
           | (Inr t, st1) \<Rightarrow> Some (HOk t, st1)))"

definition h_Delete :: "bool \<Rightarrow> orch_state \<Rightarrow> string \<Rightarrow> unit handler" where
  "h_Delete orch st taskID =
     (case svc_Delete (os_db st) taskID of
        (Some e, d) \<Rightarrow> Some (HSvc e, st\<lparr>os_db := d\<rparr>)
      | (None, d) \<Rightarrow>
          (let st1 = st\<lparr>os_db := d\<rparr>
           in Some (HOk (), if orch then add_effect (RemoveWorkspace taskID) st1 else st1)))"

section \<open>Pull requests\<close>

definition requireTaskStatus :: "task \<Rightarrow> string list \<Rightarrow> bool" where
  "requireTaskStatus t allowed = (t_status t \<in> set allowed)"

definition not_awaiting :: "task \<Rightarrow> string" where
  "not_awaiting t = ''task is not awaiting PR review (status: '' @ t_status t @ '')''"

definition audit :: "string \<Rightarrow> string \<Rightarrow> orch_state \<Rightarrow> orch_state" where
  "audit act taskID st = add_effect (AuditRecord act taskID) st"

definition set_status_audited ::
  "orch_state \<Rightarrow> string \<Rightarrow> string \<Rightarrow> string \<Rightarrow> task handler" where
  "set_status_audited st taskID status act =
     (case run_svc (\<lambda>d. svc_Update d taskID (no_update\<lparr>ui_status := Some status\<rparr>)) st of
        (Inl e, st1) \<Rightarrow> Some (HSvc e, st1)
      | (Inr t, st1) \<Rightarrow> Some (HOk t, audit act taskID st1))"

definition orch_audited :: "task orch_result \<Rightarrow> string \<Rightarrow> string \<Rightarrow> task handler" where
  "orch_audited res taskID act =
     (case res of
        None \<Rightarrow> None
      | Some (Inl e, st1) \<Rightarrow> Some (HOrch e, st1)
      | Some (Inr t, st1) \<Rightarrow> Some (HOk t, audit act taskID st1))"

definition pr_Approve ::
  "status_writer \<Rightarrow> git_host option \<Rightarrow> orch_env \<Rightarrow> bool \<Rightarrow> orch_state \<Rightarrow> string \<Rightarrow> task handler" where
  "pr_Approve upd git env orch st taskID =
     (case svc_GetByID (os_db st) taskID of
        Inl e \<Rightarrow> Some (HSvc e, st)
      | Inr t \<Rightarrow>
          if \<not> requireTaskStatus t [TaskStatusHumanReview, TaskStatusPrReady] then Some (HBadRequest (not_awaiting t), st)
          else if orch then orch_audited (ApproveMerge upd git env st taskID) taskID ''pr.approved''
          else set_status_audited st taskID TaskStatusMerged ''pr.approved'')"

text \<open>What follows the write of the fixing status: the feedback, the clean-up for the repair, the run.\<close>

definition start_repair ::
  "status_writer \<Rightarrow> orch_env \<Rightarrow> orch_state \<Rightarrow> string \<Rightarrow> string \<Rightarrow> task \<Rightarrow> task handler" where
  "start_repair upd env st taskID feedback t =
     (case ClearCheckpointsForRepair (SavePRRejectionFeedback st taskID feedback) taskID of
        (Some e, st1) \<Rightarrow> Some (HOrch e, st1)
      | (None, st1) \<Rightarrow> execute_then upd env True st1 taskID t)"

definition reject_pr ::
  "status_writer \<Rightarrow> orch_env \<Rightarrow> bool \<Rightarrow> orch_state \<Rightarrow> string \<Rightarrow> string \<Rightarrow> task handler" where
  "reject_pr upd env orch st taskID feedback =
     (case set_status_audited st taskID TaskStatusFixing ''pr.rejected'' of
        Some (HOk t, st1) \<Rightarrow>
          if orch then start_repair upd env st1 taskID feedback t else Some (HOk t, st1)
      | other \<Rightarrow> other)"

definition pr_Reject ::
  "status_writer \<Rightarrow> orch_env \<Rightarrow> bool \<Rightarrow> orch_state \<Rightarrow> string \<Rightarrow> string option \<Rightarrow> task handler" where
  "pr_Reject upd env orch st taskID body =
     (case svc_GetByID (os_db st) taskID of
        Inl e \<Rightarrow> Some (HSvc e, st)
      | Inr t \<Rightarrow>
          if \<not> requireTaskStatus t [TaskStatusHumanReview, TaskStatusPrReady] then Some (HBadRequest (not_awaiting t), st)
          else (case body of
                  None \<Rightarrow> invalid_body st
                | Some feedback \<Rightarrow>
                    if feedback = '''' then Some (HBadRequest ''feedback is required when rejecting a PR'', st)
                    else if orch then
                      (case CheckReviewLoopLimit upd env st taskID of
                         None \<Rightarrow> None
                       | Some (Some e, st1) \<Rightarrow> Some (HBadOrch e, st1)
                       | Some (None, st1) \<Rightarrow> reject_pr upd env orch st1 taskID feedback)
                    else reject_pr upd env orch st taskID feedback))"

definition pr_StartReview ::
  "status_writer \<Rightarrow> orch_env \<Rightarrow> bool \<Rightarrow> orch_state \<Rightarrow> string \<Rightarrow> task handler" where
  "pr_StartReview upd env orch st taskID =
     (case svc_GetByID (os_db st) taskID of
        Inl e \<Rightarrow> Some (HSvc e, st)
      | Inr t \<Rightarrow>
          if t_status t \<noteq> TaskStatusPrReady
            then Some (HBadRequest (''task is not in pr_ready state (status: '' @ t_status t @ '')''), st)
          else if orch then orch_audited (StartReview upd st taskID) taskID ''pr.review_started''
          else set_status_audited st taskID TaskStatusHumanReview ''pr.review_started'')"

section \<open>The GitHub webhook\<close>

text \<open>The code of a body under a secret, in hexadecimal; the comparison is of the whole strings.\<close>

definition verifyGitHubSignature :: "(string \<Rightarrow> string \<Rightarrow> string) \<Rightarrow> string \<Rightarrow> string \<Rightarrow> string \<Rightarrow> bool" where
  "verifyGitHubSignature mac secret body signatureHeader =
     (let sig = trim_prefix signatureHeader ''sha256=''
      in if sig = signatureHeader \<or> sig = '''' then False else mac secret body = sig)"

definition text_at :: "gomap \<Rightarrow> string \<Rightarrow> string" where
  "text_at m k = or_zero '''' (as_string (get_key m k))"

definition map_at :: "gomap \<Rightarrow> string \<Rightarrow> gomap option" where
  "map_at m k = as_map (get_key m k)"

definition github_task :: "string \<Rightarrow> string \<Rightarrow> string \<Rightarrow> create_task_input" where
  "github_task title desc label =
     \<lparr>ci_title = title, ci_description = desc, ci_complexity = TaskComplexityMedium, ci_priority = 0,
      ci_labels = [''github'', label], ci_parent_task_id = None, ci_agent_id = None,
      ci_repository_id = None, ci_require_spec_review = None\<rparr>"

definition githubPayloadToTask :: "string \<Rightarrow> gomap \<Rightarrow> create_task_input option" where
  "githubPayloadToTask event payload =
     (if event = ''issues'' then
        (if get_key payload ''action'' \<noteq> Some (VString ''opened'') then None
         else (let issue = or_zero [] (map_at payload ''issue''); title = text_at issue ''title''
               in if title = '''' then None
                  else Some (github_task (''GitHub issue: '' @ title)
                         (text_at issue ''body'' @ NL @ NL @ ''Source: '' @ text_at issue ''html_url'') ''issue'')))
      else if event = ''workflow_run'' \<or> event = ''check_suite'' then
        (let act = text_at payload ''action''
         in Some (github_task (''GitHub CI event: '' @ (if act = '''' then ''completed'' else act))
              ''A GitHub CI event was received. Review the run logs and create a fix if needed.'' ''ci''))
      else None)"

text \<open>The URL of a pull request that was closed by merging it.\<close>

definition merged_pr_url :: "gomap \<Rightarrow> string" where
  "merged_pr_url payload =
     (case map_at payload ''pull_request'' of
        None \<Rightarrow> ''''
      | Some pr \<Rightarrow>
          if text_at payload ''action'' = ''closed'' \<and> or_zero False (as_bool (get_key pr ''merged''))
          then text_at pr ''html_url'' else '''')"

text \<open>
  The request: the secret of the environment (empty if unset), the raw body, the signature and event
  headers, the payload the body decodes to, and the project of the query.
\<close>

definition webhook_GitHub ::
  "(string \<Rightarrow> string \<Rightarrow> string) \<Rightarrow> status_writer \<Rightarrow> (task list \<Rightarrow> task list) \<Rightarrow> orch_env \<Rightarrow> bool \<Rightarrow> orch_state \<Rightarrow>
   string \<Rightarrow> string \<Rightarrow> string \<Rightarrow> string \<Rightarrow> gomap option \<Rightarrow> string \<Rightarrow> task handler" where
  "webhook_GitHub mac upd recent env orch st secret body signature event decoded projectID =
     (if secret \<noteq> '''' \<and> \<not> verifyGitHubSignature mac secret body signature then Some (HUnauthorized, st)
      else (case decoded of
              None \<Rightarrow> Some (HBadRequest ''invalid webhook payload'', st)
            | Some payload \<Rightarrow>
                if event = ''pull_request'' then
                  (if merged_pr_url payload = '''' then Some (HIgnored, st)
                   else if \<not> orch then Some (HServerError, st)
                   else (case SyncPRMerged upd recent env st (merged_pr_url payload) of
                           None \<Rightarrow> None
                         | Some (Inl e, st1) \<Rightarrow> Some (HServerError, st1)
                         | Some (Inr t, st1) \<Rightarrow> Some (HOk t, st1)))
                else if projectID = '''' then Some (HIgnored, st)
                else (case githubPayloadToTask event payload of
                        None \<Rightarrow> Some (HIgnored, st)
                      | Some input \<Rightarrow>
                          (case run_svc (\<lambda>d. svc_Create (oe_id env) d projectID input) st of
                             (Inl e, st1) \<Rightarrow> Some (HSvc e, st1)
                           | (Inr t, st1) \<Rightarrow> Some (HOk t, st1)))))"

end
