(* ===== verification/Decomposition_Failure.thy ===== *)
theory Decomposition_Failure
  imports Decomposition_Props
begin

text \<open>
  A child of a decomposed parent that fails: where the status table lets the parent become blocked
  it is blocked and can be resumed; elsewhere the child is recorded on it and nothing else happens.
\<close>

section \<open>The parent after a child has failed\<close>

definition can_block :: "string list" where
  "can_block =
     [TaskStatusCoding, TaskStatusReviewing, TaskStatusFixing, TaskStatusTesting, TaskStatusBlocked]"

definition cannot_block :: "string list" where
  "cannot_block =
     [TaskStatusTodo, TaskStatusContextLoading, TaskStatusAnalyzing, TaskStatusSpecReview,
      TaskStatusPrReady, TaskStatusHumanReview, TaskStatusFailed, TaskStatusMerged]"

lemma can_block_valid: "s \<in> set can_block \<Longrightarrow> ValidateTaskTransition s TaskStatusBlocked = None"
proof -
  have "list_all (\<lambda>s. ValidateTaskTransition s TaskStatusBlocked = None) can_block" by code_simp
  then show "s \<in> set can_block \<Longrightarrow> ValidateTaskTransition s TaskStatusBlocked = None"
    unfolding list_all_iff by blast
qed

lemma cannot_block_valid: "s \<in> set cannot_block \<Longrightarrow> ValidateTaskTransition s TaskStatusBlocked \<noteq> None"
proof -
  have "list_all (\<lambda>s. ValidateTaskTransition s TaskStatusBlocked \<noteq> None) cannot_block" by code_simp
  then show "s \<in> set cannot_block \<Longrightarrow> ValidateTaskTransition s TaskStatusBlocked \<noteq> None"
    unfolding list_all_iff by blast
qed

lemma block_parent_effect:
  assumes "find_row (db_tasks (os_db st)) p = Some parent" and "oe_events env = (\<lambda>_ _. None)"
  shows "\<exists>st' parent'. block_parent (updateTaskStatus (Suc n) env) env st p c = Some st' \<and>
    find_row (db_tasks (os_db st')) p = Some parent' \<and> t_blocked_child_id parent' = Some c \<and>
    t_status parent' =
      (if ValidateTaskTransition (t_status parent) TaskStatusBlocked = None then TaskStatusBlocked
       else t_status parent)"
proof -
  let ?u = "no_update\<lparr>ui_blocked_child_id := Some c\<rparr>"
  let ?p1 = "apply_update ?u parent"
  obtain r st1 where w: "write_task st p ?u = (r, st1)" by fastforce
  have up: "repo_Update (os_db st) p ?u = (Inr ?p1, (os_db st)\<lparr>db_tasks := map_row (db_tasks (os_db st)) p (apply_update ?u)\<rparr>)"
    using assms(1) by (simp add: repo_Update_def get_task_def)
  have r: "r = None" and row: "find_row (db_tasks (os_db st1)) p = Some ?p1"
    using w up assms(1) by (auto simp: write_task_def rows.lookup_modify)
  have f: "t_status ?p1 = t_status parent" "t_blocked_child_id ?p1 = Some c"
    by (simp_all add: apply_update_def no_update_def)
  obtain res st2 where b: "write_status (oe_now env) st1 p TaskStatusBlocked = (res, st2)" by fastforce
  have run: "updateTaskStatus (Suc n) env st1 p TaskStatusBlocked = Some (res, st2)"
    using nonterminal_write_eq [of TaskStatusBlocked n env st1 p] b
    by (simp add: terminal_status_def del: updateTaskStatus.simps)
  then have x: "block_parent (updateTaskStatus (Suc n) env) env st p c = Some st2"
    using w r assms(2) by (cases res) (simp_all add: block_parent_def del: updateTaskStatus.simps)
  from blocked_write [OF row, of "oe_now env"] row f b show ?thesis
    by (intro exI [of _ st2]) (auto simp: x split: option.splits)
qed

lemma failing_child_step:
  assumes "find_row (db_tasks (os_db st)) c = Some child" and "t_parent_task_id child = Some p"
    and "p \<noteq> c" and "find_row (db_tasks (os_db st)) p = Some parent" and "t_decomposition_mode parent \<noteq> None"
    and "ValidateTaskTransition (t_status child) TaskStatusFailed = None"
    and "oe_events env = (\<lambda>_ _. None)"
  shows "\<exists>child' st' parent'.
    updateTaskStatus (Suc (Suc n)) env st c TaskStatusFailed = Some (Inr child', st') \<and>
    t_status child' = TaskStatusFailed \<and>
    find_row (db_tasks (os_db st')) p = Some parent' \<and> t_blocked_child_id parent' = Some c \<and>
    t_status parent' =
      (if ValidateTaskTransition (t_status parent) TaskStatusBlocked = None then TaskStatusBlocked
       else t_status parent)"
proof -
  obtain child' st1 where w: "write_status (oe_now env) st c TaskStatusFailed = (Inr child', st1)"
    "t_status child' = TaskStatusFailed" "t_parent_task_id child' = Some p" "t_id child' = c"
    "find_row (db_tasks (os_db st1)) p = Some parent"
    using failed_write [OF assms(1,6), of "oe_now env"] assms(2-4) by auto
  obtain st' parent' where b: "block_parent (updateTaskStatus (Suc n) env) env st1 p c = Some st'"
    "find_row (db_tasks (os_db st')) p = Some parent'" "t_blocked_child_id parent' = Some c"
    "t_status parent' = (if ValidateTaskTransition (t_status parent) TaskStatusBlocked = None
       then TaskStatusBlocked else t_status parent)"
    using block_parent_effect [OF w(5) assms(7)] by blast
  have "onChildTaskTerminal (updateTaskStatus (Suc n) env) env st1 child' False = Some st'"
    using w assms(5) b(1) find_row_id [OF w(5)]
    by (auto simp add: onChildTaskTerminal_def get_task_def del: updateTaskStatus.simps)
  then have "updateTaskStatus (Suc (Suc n)) env st c TaskStatusFailed = Some (Inr child', st')"
    using w by (subst updateTaskStatus.simps) (simp add: terminal_status_def del: updateTaskStatus.simps)
  with w b show ?thesis by blast
qed

text \<open>
  When a child fails while its decomposed parent is coding, reviewing, fixing or testing, the
  parent becomes blocked and records the child.
\<close>
theorem failed_child_blocks_parent:
  assumes "find_row (db_tasks (os_db st)) c = Some child" and "t_parent_task_id child = Some p"
    and "p \<noteq> c" and "find_row (db_tasks (os_db st)) p = Some parent" and "t_decomposition_mode parent \<noteq> None"
    and "ValidateTaskTransition (t_status child) TaskStatusFailed = None"
    and "oe_events env = (\<lambda>_ _. None)" and "t_status parent \<in> set can_block"
  shows "\<exists>child' st' parent'.
    updateTaskStatus (Suc (Suc n)) env st c TaskStatusFailed = Some (Inr child', st') \<and>
    find_row (db_tasks (os_db st')) p = Some parent' \<and> t_status parent' = TaskStatusBlocked \<and>
    t_blocked_child_id parent' = Some c"
  using failing_child_step [OF assms(1-7), of n] can_block_valid [OF assms(8)] by auto

lemma demo_family:
  "find_row (db_tasks (os_db (orch_of [demo_parent s, demo_child ''c'' 0 s']))) ''c'' = Some (demo_child ''c'' 0 s')"
  "find_row (db_tasks (os_db (orch_of [demo_parent s, demo_child ''c'' 0 s']))) ''p'' = Some (demo_parent s)"
  by (simp_all add: find_row_def)

lemma coding_may_fail: "ValidateTaskTransition TaskStatusCoding TaskStatusFailed = None"
  by code_simp

theorem failed_child_blocks_parent_witness:
  "\<exists>child' st' parent'.
    updateTaskStatus 2 silent_env (orch_of [demo_parent TaskStatusCoding, demo_child ''c'' 0 TaskStatusCoding])
      ''c'' TaskStatusFailed = Some (Inr child', st') \<and>
    find_row (db_tasks (os_db st')) ''p'' = Some parent' \<and> t_status parent' = TaskStatusBlocked"
proof -
  have "(''p'' :: string) \<noteq> ''c''" by simp
  from failed_child_blocks_parent [OF demo_family(1) [of TaskStatusCoding TaskStatusCoding] demo_child_simps(3) this
      demo_family(2) [of TaskStatusCoding TaskStatusCoding], where env = silent_env and n = 0]
    coding_may_fail show ?thesis
    by (auto simp: can_block_def numeral_2_eq_2 simp del: updateTaskStatus.simps)
qed

text \<open>
  When a child fails while its parent is in any other status, an analysing or reviewed
  parent among them, the parent keeps its status: the child is recorded on it, but it is not
  blocked, and the retry of a blocked parent refuses it.
\<close>
theorem failed_child_leaves_parent:
  assumes "find_row (db_tasks (os_db st)) c = Some child" and "t_parent_task_id child = Some p"
    and "p \<noteq> c" and "find_row (db_tasks (os_db st)) p = Some parent" and "t_decomposition_mode parent \<noteq> None"
    and "ValidateTaskTransition (t_status child) TaskStatusFailed = None"
    and "oe_events env = (\<lambda>_ _. None)" and "t_status parent \<in> set cannot_block"
  shows "\<exists>child' st' parent'.
    updateTaskStatus (Suc (Suc n)) env st c TaskStatusFailed = Some (Inr child', st') \<and>
    find_row (db_tasks (os_db st')) p = Some parent' \<and> t_status parent' = t_status parent \<and>
    t_blocked_child_id parent' = Some c \<and>
    RetryBlockedParent upd env st' p = Some (Inl (NotBlocked (t_status parent)), st')"
proof -
  obtain child' st' parent' where
    s: "updateTaskStatus (Suc (Suc n)) env st c TaskStatusFailed = Some (Inr child', st')"
      "find_row (db_tasks (os_db st')) p = Some parent'" "t_blocked_child_id parent' = Some c"
      "t_status parent' = t_status parent"
    using failing_child_step [OF assms(1-7), of n] cannot_block_valid [OF assms(8)] by auto
  have "t_status parent \<noteq> TaskStatusBlocked"
    using assms(8) cannot_block_valid [of TaskStatusBlocked] by (auto simp: ValidateTaskTransition_def)
  with s have "RetryBlockedParent upd env st' p = Some (Inl (NotBlocked (t_status parent)), st')"
    by (simp add: RetryBlockedParent_def get_task_def)
  with s show ?thesis by blast
qed

theorem failed_child_leaves_parent_witness:
  "\<exists>child' st' parent'.
    updateTaskStatus 2 silent_env (orch_of [demo_parent TaskStatusSpecReview, demo_child ''c'' 0 TaskStatusCoding])
      ''c'' TaskStatusFailed = Some (Inr child', st') \<and>
    find_row (db_tasks (os_db st')) ''p'' = Some parent' \<and> t_status parent' = TaskStatusSpecReview"
proof -
  have "(''p'' :: string) \<noteq> ''c''" by simp
  from failed_child_leaves_parent [OF demo_family(1) [of TaskStatusSpecReview TaskStatusCoding] demo_child_simps(3) this
      demo_family(2) [of TaskStatusSpecReview TaskStatusCoding], where env = silent_env and n = 0 and upd = "updateTaskStatus 0 silent_env"]
    coding_may_fail show ?thesis
    by (auto simp: cannot_block_def numeral_2_eq_2 simp del: updateTaskStatus.simps)
qed

end
