(* ===== verification/Control_Properties.thy ===== *)
theory Control_Properties
  imports Task_Handlers Decomposition_Failure
begin

text \<open>
  What the operations on jobs and the handlers promise: which checkpoints survive a rejection, the
  limits of the review loops, which blocked task can be resumed, when a task is merged, which job
  statuses are ever written.
\<close>

section \<open>Frames\<close>

lemma UpdateJob_checkpoints [simp]: "os_checkpoints (snd (UpdateJob now st i u)) = os_checkpoints st"
  by (simp add: UpdateJob_def Let_def split: option.splits)

lemma Enqueue_checkpoints [simp]: "os_checkpoints (snd (Enqueue new_id now st i)) = os_checkpoints st"
  by (simp add: Enqueue_def Let_def)

lemma start_task_idle:
  "t_status t \<notin> {TaskStatusTodo, TaskStatusFailed, ''''} \<Longrightarrow> start_task upd st t = Some (None, st)"
  by (simp add: start_task_def)

lemma Execute_idle:
  assumes "find_row (db_tasks (os_db st)) i = Some t" and "t_status t \<notin> {TaskStatusTodo, TaskStatusFailed, ''''}"
  shows "\<exists>r st'. Execute upd env st i = Some (r, st') \<and> os_checkpoints st' = os_checkpoints st"
proof -
  have g: "get_task (os_db st) i = Inr t" using assms(1) by (simp add: get_task_def)
  note s = start_task_idle [OF assms(2)]
  have e: "\<exists>r st'. enqueue_task upd env st t = Some (r, st') \<and> os_checkpoints st' = os_checkpoints st"
    by (simp add: enqueue_task_def s Enqueue_def Let_def)
  have p: "\<exists>r st'. resume_paused upd env st t job = Some (r, st') \<and> os_checkpoints st' = os_checkpoints st" for job
  proof -
    obtain r st1 where u: "UpdateJob (oe_now env) st (j_id job)
        (no_job_update\<lparr>ju_status := Some WorkflowJobStatusQueued\<rparr>) = (r, st1)" by fastforce
    then have "os_checkpoints st1 = os_checkpoints st" using UpdateJob_checkpoints by (metis snd_conv)
    with u s show ?thesis by (cases r) (simp_all add: resume_paused_def)
  qed
  from g e p show ?thesis by (auto simp: Execute_def split: sum.splits)
qed

section \<open>The rejection of a pull request\<close>

lemma deletes_rejection: "deletes repair_steps ''pr_rejection''"
  by code_simp

lemma cleared_no_rejection:
  "cp \<in> set (ListCheckpoints (DeleteCheckpoints st i repair_steps) i) \<Longrightarrow> cp_step cp \<noteq> ''pr_rejection''"
  using deletes_rejection by (auto simp: DeleteCheckpoints_def ListCheckpoints_def repair_steps_def)

lemma max_cycles_positive: "0 < max_cycles d t"
  by (simp add: max_cycles_def split: sum.splits)

lemma cycles_zero:
  "cycles st i step = 0 \<longleftrightarrow> (\<forall>cp\<in>set (ListCheckpoints st i). cp_step cp \<noteq> step)"
  by (auto simp: cycles_def filter_empty_conv)

lemma set_status_result:
  assumes "find_row (db_tasks (os_db st)) i = Some t" and "ValidateTaskTransition (t_status t) s = None"
  shows "\<exists>t' st'. set_status_audited st i s act = Some (HOk t', st') \<and>
    find_row (db_tasks (os_db st')) i = Some (apply_update (no_update\<lparr>ui_status := Some s\<rparr>) t) \<and>
    os_checkpoints st' = os_checkpoints st"
proof -
  let ?u = "no_update\<lparr>ui_status := Some s\<rparr>"
  have u: "repo_Update (os_db st) i ?u =
      (Inr (apply_update ?u t), (os_db st)\<lparr>db_tasks := map_row (db_tasks (os_db st)) i (apply_update ?u)\<rparr>)"
    using assms(1) by (simp add: repo_Update_def get_task_def)
  have "svc_Update (os_db st) i ?u = (Inr (with_actions (apply_update ?u t)),
      (os_db st)\<lparr>db_tasks := map_row (db_tasks (os_db st)) i (apply_update ?u)\<rparr>)"
    using assms u by (simp add: svc_Update_def get_task_def write_back_def lift_repo_def)
  then show ?thesis
    using assms(1) by (simp add: set_status_audited_def run_svc_def audit_def add_effect_def rows.lookup_modify)
qed

text \<open>
  A pull request can be rejected for ever. The feedback of a rejection is stored as a checkpoint
  and deleted again at once, for its step matches the pattern that clears the \<^verbatim>\<open>pr\<close> steps; so
  the limit, which counts these checkpoints, is never reached and the repair never sees the feedback.
\<close>
theorem rejection_forgotten:
  assumes "find_row (db_tasks (os_db st)) i = Some t"
    and "t_status t = TaskStatusHumanReview \<or> t_status t = TaskStatusPrReady"
    and "feedback \<noteq> ''''" and "cycles st i ''pr_rejection'' = 0"
  shows "\<exists>reply st'. pr_Reject upd env True st i (Some feedback) = Some (reply, st') \<and>
    (\<forall>e. reply \<noteq> HBadOrch e) \<and> cycles st' i ''pr_rejection'' = 0"
proof -
  have g: "get_task (os_db st) i = Inr t" using assms(1) by (simp add: get_task_def)
  have limit: "CheckReviewLoopLimit upd env st i = Some (None, st)"
    using g assms(4) max_cycles_positive [of "os_db st" t] by (simp add: CheckReviewLoopLimit_def check_limit_def)
  have v: "ValidateTaskTransition (t_status t) TaskStatusFixing = None"
  proof -
    have "list_all (\<lambda>s. ValidateTaskTransition s TaskStatusFixing = None) [TaskStatusHumanReview, TaskStatusPrReady]"
      by code_simp
    with assms(2) show ?thesis unfolding list_all_iff by (metis list.set_intros(1) list.set_intros(2))
  qed
  let ?t1 = "apply_update (no_update\<lparr>ui_status := Some TaskStatusFixing\<rparr>) t"
  obtain t' st1 where w: "set_status_audited st i TaskStatusFixing ''pr.rejected'' = Some (HOk t', st1)"
    "find_row (db_tasks (os_db st1)) i = Some ?t1" "os_checkpoints st1 = os_checkpoints st"
    using set_status_result [OF assms(1) v] by blast
  let ?st2 = "DeleteCheckpoints (SavePRRejectionFeedback st1 i feedback) i repair_steps"
  have d: "os_db ?st2 = os_db st1"
    by (simp add: DeleteCheckpoints_def SavePRRejectionFeedback_def CreateCheckpoint_def)
  then have row: "find_row (db_tasks (os_db ?st2)) i = Some ?t1" using w(2) by simp
  have s1: "t_status ?t1 \<notin> {TaskStatusTodo, TaskStatusFailed, ''''}" by (simp add: apply_update_def no_update_def)
  obtain r st3 where x: "Execute upd env ?st2 i = Some (r, st3)" "os_checkpoints st3 = os_checkpoints ?st2"
    using Execute_idle [OF row s1] by blast
  have c: "cycles st3 i ''pr_rejection'' = 0"
    using cleared_no_rejection [of _ "SavePRRejectionFeedback st1 i feedback" i] x(2)
    by (auto simp: cycles_zero ListCheckpoints_def)
  have cl: "ClearCheckpointsForRepair (SavePRRejectionFeedback st1 i feedback) i = (None, ?st2)"
    using w(2) by (simp add: ClearCheckpointsForRepair_def get_task_def SavePRRejectionFeedback_def CreateCheckpoint_def)
  have "\<exists>reply. start_repair upd env st1 i feedback t' = Some (reply, st3) \<and> (\<forall>e. reply \<noteq> HBadOrch e)"
    using cl x by (cases r) (simp_all add: start_repair_def execute_then_def)
  then have "\<exists>reply. reject_pr upd env True st i feedback = Some (reply, st3) \<and> (\<forall>e. reply \<noteq> HBadOrch e)"
    using w(1) by (simp add: reject_pr_def)
  moreover have "pr_Reject upd env True st i (Some feedback) = reject_pr upd env True st i feedback"
    using g assms(2,3) limit
    by (auto simp: pr_Reject_def svc_GetByID_def lift_repo_def requireTaskStatus_def with_actions_def)
  ultimately show ?thesis using c by auto
qed

theorem rejection_forgotten_witness:
  "\<exists>reply st'. pr_Reject (updateTaskStatus 1 silent_env) silent_env True
      (orch_of [demo_task ''t'' TaskStatusHumanReview]) ''t'' (Some ''no'') = Some (reply, st') \<and>
    cycles st' ''t'' ''pr_rejection'' = 0"
proof -
  let ?st = "orch_of [demo_task ''t'' TaskStatusHumanReview]"
  have f: "find_row (db_tasks (os_db ?st)) ''t'' = Some (demo_task ''t'' TaskStatusHumanReview)" by (simp add: find_row_def)
  have c: "cycles ?st ''t'' ''pr_rejection'' = 0" by (simp add: cycles_def ListCheckpoints_def)
  from rejection_forgotten [OF f _ _ c, of "''no''" "updateTaskStatus 1 silent_env" silent_env] show ?thesis by auto
qed

section \<open>The review of a specification\<close>

lemma requested_changes:
  assumes "svc_RequestAnalysisChanges d i c = (Inr t, d')"
  shows "find_row (db_tasks d') i = Some t \<and> t_status t = TaskStatusAnalyzing"
proof -
  obtain t0 where t0: "get_task d i = Inr t0" using assms
    by (auto simp: svc_RequestAnalysisChanges_def split: sum.splits)
  then have row: "find_row (db_tasks d) i = Some t0" by (simp add: get_task_Inr)
  obtain u where u: "write_back d i u = (Inr t, d')" "ui_status u = Some TaskStatusAnalyzing"
    using assms t0 by (auto simp: svc_RequestAnalysisChanges_def Let_def split: option.splits)
  then have "repo_Update d i u = (Inr t, d')"
    by (auto simp: write_back_def lift_repo_def split: prod.splits sum.splits)
  from find_after_update [OF this] row u(2) this show ?thesis
    by (auto simp: repo_Update_def get_task_def apply_update_def rows.lookup_modify)
qed

text \<open>
  The review of a specification is bounded: every accepted request for changes counts one cycle,
  and none is accepted once the cycles of the task have reached the limit of its project.
\<close>
theorem spec_review_bounded:
  assumes "find_row (db_tasks (os_db st)) i = Some t"
    and "h_SpecReview upd env True st i (Some (''request_changes'', comment)) = Some (HOk t', st')"
  shows "cycles st' i ''cli_spec_review_cycle'' = cycles st i ''cli_spec_review_cycle'' + 1 \<and>
    cycles st' i ''cli_spec_review_cycle'' \<le> max_cycles (os_db st) t"
proof -
  have g: "get_task (os_db st) i = Inr t" using assms(1) by (simp add: get_task_def)
  have below: "cycles st i ''cli_spec_review_cycle'' < max_cycles (os_db st) t"
  proof (rule ccontr)
    assume "\<not> ?thesis"
    with g assms(2) show False
      by (auto simp: h_SpecReview_def CheckSpecReviewLoopLimit_def check_limit_def split: option.splits prod.splits)
  qed
  then have lim: "CheckSpecReviewLoopLimit upd env st i = Some (None, st)"
    using g by (simp add: CheckSpecReviewLoopLimit_def check_limit_def)
  have req: "request_changes upd env True st i comment = Some (HOk t', st')"
    using assms(2) lim by (simp add: h_SpecReview_def)
  obtain r d' where s: "svc_RequestAnalysisChanges (os_db st) i comment = (r, d')" by fastforce
  then obtain t1 where t1: "r = Inr t1"
    using req by (cases r) (simp_all add: request_changes_def run_svc_def)
  let ?st1 = "SaveSpecReviewCycle (st\<lparr>os_db := d'\<rparr>) i comment"
  have row: "find_row (db_tasks (os_db ?st1)) i = Some t1" "t_status t1 \<notin> {TaskStatusTodo, TaskStatusFailed, ''''}"
    using requested_changes [of "os_db st" i comment t1 d'] s t1
    by (simp_all add: SaveSpecReviewCycle_def CreateCheckpoint_def)
  obtain r2 st2 where x: "Execute upd env ?st1 i = Some (r2, st2)" "os_checkpoints st2 = os_checkpoints ?st1"
    using Execute_idle [OF row] by blast
  have "st' = st2" using req s t1 x(1)
    by (cases r2) (simp_all add: request_changes_def run_svc_def execute_then_def)
  then have "cycles st' i ''cli_spec_review_cycle'' = cycles st i ''cli_spec_review_cycle'' + 1"
    using x(2) by (simp add: cycles_def ListCheckpoints_def SaveSpecReviewCycle_def CreateCheckpoint_def)
  with below show ?thesis by simp
qed

lemma Some_HOk: "(case x of None \<Rightarrow> False | Some (HOk t, _) \<Rightarrow> True | Some _ \<Rightarrow> False) \<Longrightarrow> \<exists>t st. x = Some (HOk t, st)"
  by (auto split: option.splits prod.splits reply.splits)

theorem spec_review_bounded_witness:
  "\<exists>t' st'. h_SpecReview (updateTaskStatus 1 silent_env) silent_env True
      (orch_of [demo_task ''t'' TaskStatusSpecReview]) ''t'' (Some (''request_changes'', ''more'')) = Some (HOk t', st') \<and>
    cycles st' ''t'' ''cli_spec_review_cycle'' = 1"
proof -
  let ?st = "orch_of [demo_task ''t'' TaskStatusSpecReview]"
  let ?r = "h_SpecReview (updateTaskStatus 1 silent_env) silent_env True ?st ''t'' (Some (''request_changes'', ''more''))"
  have "case ?r of None \<Rightarrow> False | Some (HOk t, _) \<Rightarrow> True | Some _ \<Rightarrow> False" by code_simp
  then obtain t' st' where r: "?r = Some (HOk t', st')" using Some_HOk by blast
  have f: "find_row (db_tasks (os_db ?st)) ''t'' = Some (demo_task ''t'' TaskStatusSpecReview)" by (simp add: find_row_def)
  have c: "cycles ?st ''t'' ''cli_spec_review_cycle'' = 0" by (simp add: cycles_def ListCheckpoints_def)
  from spec_review_bounded [OF f r] r c show ?thesis by auto
qed

section \<open>Resuming a blocked task\<close>

text \<open>
  A task blocked by a guardrail is offered the retry of a blocked task, but the orchestrator
  refuses it: without a failed child the action goes to the retry from the last step, which takes
  failed, reviewed and analysing tasks only.
\<close>
theorem guardrail_block_not_resumable:
  assumes "find_row (db_tasks (os_db st)) i = Some t" and "t_status t = TaskStatusBlocked"
  shows "''retry_blocked'' \<in> act_id ` set (computeAvailableActions t) \<and>
    RetryFromLastStep upd env st i = Some (Inl (NotRetryable TaskStatusBlocked), st) \<and>
    (t_blocked_child_id t = None \<longrightarrow> RetryBlockedParent upd env st i = Some (Inl NoFailingChild, st))"
  using assms by (simp add: computeAvailableActions_def action_def RetryFromLastStep_def RetryBlockedParent_def get_task_def)

theorem guardrail_block_not_resumable_witness:
  "RetryFromLastStep (updateTaskStatus 1 silent_env) silent_env (orch_of [demo_task ''t'' TaskStatusBlocked]) ''t'' =
     Some (Inl (NotRetryable TaskStatusBlocked), orch_of [demo_task ''t'' TaskStatusBlocked])"
  using guardrail_block_not_resumable [of "orch_of [demo_task ''t'' TaskStatusBlocked]" "''t''"
    "demo_task ''t'' TaskStatusBlocked" "updateTaskStatus 1 silent_env" silent_env]
  by (simp add: find_row_def)

section \<open>The statuses of jobs\<close>

definition no_sleeper :: "orch_state \<Rightarrow> bool" where
  "no_sleeper st \<longleftrightarrow> (\<forall>j\<in>set (os_jobs st). j_status j \<noteq> WorkflowJobStatusSleeping)"

text \<open>
  No job ever sleeps. The transition table has no entry for the sleeping status, so the update
  that puts a job to sleep until its credentials have cooled down always fails and the job stays
  running; the wake-up of sleeping jobs finds none.
\<close>
theorem jobs_never_sleep:
  assumes "no_sleeper st"
  shows "no_sleeper (snd (UpdateJob now st i u)) \<and>
    (ju_status u = Some WorkflowJobStatusSleeping \<longrightarrow>
       (\<exists>e. fst (UpdateJob now st i u) = Inl e) \<and> snd (UpdateJob now st i u) = st) \<and>
    no_sleeper (snd (Enqueue new_id now st i)) \<and> no_sleeper (snd (ClaimNext now st)) \<and>
    no_sleeper (ResetStuckJobs now st) \<and> WakeSleepingJobs now st = st"
proof -
  have u: "no_sleeper (snd (UpdateJob now st i u)) \<and>
    (ju_status u = Some WorkflowJobStatusSleeping \<longrightarrow>
       (\<exists>e. fst (UpdateJob now st i u) = Inl e) \<and> snd (UpdateJob now st i u) = st)"
  proof (cases "find_job (os_jobs st) i")
    case None
    then have m: "map_job (os_jobs st) i f = os_jobs st" for f
      by (induction "os_jobs st") (auto simp: find_job_def map_job_def find_None_iff intro: map_idI)
    have k: "st\<lparr>os_jobs := os_jobs st\<rparr> = st" by simp
    from None assms show ?thesis
      by (cases "ju_status u") (simp_all add: UpdateJob_def status_check_def m k)
  next
    case (Some j)
    then have j: "j_status j \<noteq> WorkflowJobStatusSleeping"
      using assms by (auto simp: no_sleeper_def find_job_def find_Some_iff)
    show ?thesis
    proof (cases "Option.bind (ju_status u) (ValidateJobTransition (j_status j))")
      case err: (Some e)
      with UpdateJob_found [OF Some, of now u] assms show ?thesis by simp
    next
      case ok: None
      then have n: "ju_status u \<noteq> Some WorkflowJobStatusSleeping"
        using no_sleep_transition [OF j] by auto
      then have "j_status r \<noteq> WorkflowJobStatusSleeping \<Longrightarrow>
          j_status (apply_job_update now u r) \<noteq> WorkflowJobStatusSleeping" for r
        by (cases "ju_status u") (simp_all add: apply_job_update_def)
      with UpdateJob_found [OF Some, of now u] ok n assms show ?thesis
        by (auto simp: no_sleeper_def map_job_def)
    qed
  qed
  have c: "no_sleeper (snd (ClaimNext now st))"
    using assms by (auto simp: ClaimNext_def no_sleeper_def map_job_def split: option.splits)
  have r: "no_sleeper (ResetStuckJobs now st)"
    using assms by (auto simp: ResetStuckJobs_def no_sleeper_def requeue_def Let_def)
  have w: "WakeSleepingJobs now st = st"
    using assms by (auto simp: WakeSleepingJobs_def no_sleeper_def overslept_def Let_def filter_empty_conv)
  have e: "no_sleeper (snd (Enqueue new_id now st i))"
    using assms by (auto simp: Enqueue_def no_sleeper_def new_job_def Let_def)
  from u c r w e show ?thesis by blast
qed

definition running_orch :: orch_state where
  "running_orch = (orch_of [])\<lparr>os_jobs := [(new_job ''j'' 0 ''t'')\<lparr>j_status := WorkflowJobStatusRunning\<rparr>]\<rparr>"

theorem jobs_never_sleep_witness:
  "snd (UpdateJob 5 running_orch ''j''
     (no_job_update\<lparr>ju_status := Some WorkflowJobStatusSleeping, ju_sleep_until := Some 9\<rparr>)) = running_orch"
  using jobs_never_sleep [of running_orch 5 "''j''"
    "no_job_update\<lparr>ju_status := Some WorkflowJobStatusSleeping, ju_sleep_until := Some 9\<rparr>"]
  by (simp add: running_orch_def no_sleeper_def)

definition keeps_status :: "string \<Rightarrow> workflow_job \<Rightarrow> orch_state \<Rightarrow> bool" where
  "keeps_status i j st \<longleftrightarrow> (\<exists>j'. find_job (os_jobs st) i = Some j' \<and> j_status j' = j_status j)"

lemma UpdateJob_keeps:
  assumes "find_job (os_jobs st) i = Some j" and "j_status j \<in> {WorkflowJobStatusDone, WorkflowJobStatusFailed}"
  shows "keeps_status i j (snd (UpdateJob now st k u))"
proof (cases "find_job (os_jobs st) k")
  case None
  then have "i \<noteq> k" using assms(1) by auto
  with None assms(1) show ?thesis
    by (cases "ju_status u") (simp_all add: UpdateJob_def status_check_def Let_def job_rows.lookup_modify keeps_status_def)
next
  case (Some r)
  show ?thesis
  proof (cases "i = k")
    case False
    with UpdateJob_found [OF Some, of now u] assms(1) show ?thesis
      by (auto simp: job_rows.lookup_modify keeps_status_def split: option.splits)
  next
    case True
    with Some assms(1) have "r = j" by simp
    have "s = j_status j" if "ju_status u = Some s" "ValidateJobTransition (j_status j) s = None" for s
      using job_final [OF assms(2), of s] that(2) by (auto simp: job_step_iff)
    with UpdateJob_found [OF Some, of now u] assms(1) True \<open>r = j\<close> show ?thesis
      by (cases "ju_status u")
        (auto simp: job_rows.lookup_modify apply_job_update_def keeps_status_def split: option.splits)
  qed
qed

lemma map_keeps:
  assumes "find_job (os_jobs st) i = Some j" and "os_jobs st' = map f (os_jobs st)"
    and "\<And>r. j_id (f r) = j_id r" and "j_status (f j) = j_status j"
  shows "keeps_status i j st'"
  using assms by (simp add: keeps_status_def find_job_map)

text \<open>
  A finished job stays finished: no update, queueing, claim or recovery changes the status of a
  job that is done or failed.
\<close>
theorem finished_job_stays:
  assumes "distinct (map j_id (os_jobs st))" and "find_job (os_jobs st) i = Some j"
    and "j_status j \<in> {WorkflowJobStatusDone, WorkflowJobStatusFailed}"
  shows "keeps_status i j (snd (UpdateJob now st k u)) \<and> keeps_status i j (snd (Enqueue new_id now st taskID)) \<and>
    keeps_status i j (snd (ClaimNext now st)) \<and> keeps_status i j (ResetStuckJobs now st) \<and>
    keeps_status i j (WakeSleepingJobs now st) \<and> keeps_status i j (ResetAllRunningJobs now st)"
proof -
  note uniq = find_job_unique [OF assms(1,2)]
  have q: "keeps_status i j (snd (Enqueue new_id now st taskID))"
    using assms(2) by (simp add: keeps_status_def Enqueue_def Let_def find_job_def find_append)
  have c: "keeps_status i j (snd (ClaimNext now st))"
  proof (cases "find (\<lambda>j. j_status j = WorkflowJobStatusQueued) (os_jobs st)")
    case None
    with assms(2) show ?thesis by (simp add: ClaimNext_def keeps_status_def)
  next
    case (Some r)
    then have r: "r \<in> set (os_jobs st)" "j_status r = WorkflowJobStatusQueued" by (auto simp: find_Some_iff)
    then have "j_id r \<noteq> i" using uniq assms(3) by auto
    with Some assms(2) show ?thesis
      by (simp add: ClaimNext_def keeps_status_def find_map_job same_job_def)
  qed
  have fin: "j_status j \<noteq> WorkflowJobStatusRunning" "j_status j \<noteq> WorkflowJobStatusSleeping" using assms(3) by auto
  have id: "j_id j = i" using assms(2) by (rule find_job_id)
  have s: "keeps_status i j (ResetStuckJobs now st)"
  proof (cases "filter (stuck now) (os_jobs st) = []")
    case True
    with assms(2) show ?thesis by (simp add: ResetStuckJobs_def keeps_status_def)
  next
    case False
    have "i \<notin> j_id ` {r \<in> set (os_jobs st). stuck now r}" using uniq fin by (auto simp: stuck_def)
    with False id show ?thesis
      by (intro map_keeps [OF assms(2), where f = "\<lambda>r. if j_id r \<in> set (map j_id (filter (stuck now) (os_jobs st)))
            then requeue now r else r"]) (auto simp: ResetStuckJobs_def Let_def requeue_def)
  qed
  have w: "keeps_status i j (WakeSleepingJobs now st)"
  proof (cases "filter (overslept now) (os_jobs st) = []")
    case True
    with assms(2) show ?thesis by (simp add: WakeSleepingJobs_def keeps_status_def)
  next
    case False
    have "i \<notin> j_id ` {r \<in> set (os_jobs st). overslept now r}" using uniq fin by (auto simp: overslept_def)
    with False id show ?thesis
      by (intro map_keeps [OF assms(2), where f = "\<lambda>r. if j_id r \<in> set (map j_id (filter (overslept now) (os_jobs st)))
            then (requeue now r)\<lparr>j_sleep_until := None\<rparr> else r"]) (auto simp: WakeSleepingJobs_def Let_def requeue_def)
  qed
  have a: "keeps_status i j (ResetAllRunningJobs now st)"
    using fin by (intro map_keeps [OF assms(2), where f = "\<lambda>r. if j_status r = WorkflowJobStatusRunning
          then requeue now r else r"]) (auto simp: ResetAllRunningJobs_def requeue_def)
  from UpdateJob_keeps [OF assms(2,3)] q c s w a show ?thesis by blast
qed

theorem finished_job_stays_witness:
  "keeps_status ''j'' ((new_job ''j'' 0 ''t'')\<lparr>j_status := WorkflowJobStatusDone\<rparr>)
     (ResetStuckJobs 9 ((orch_of [])\<lparr>os_jobs := [(new_job ''j'' 0 ''t'')\<lparr>j_status := WorkflowJobStatusDone\<rparr>]\<rparr>))"
  using finished_job_stays [of "(orch_of [])\<lparr>os_jobs := [(new_job ''j'' 0 ''t'')\<lparr>j_status := WorkflowJobStatusDone\<rparr>]\<rparr>"
    "''j''" "(new_job ''j'' 0 ''t'')\<lparr>j_status := WorkflowJobStatusDone\<rparr>"]
  by (simp add: find_job_def new_job_def)

section \<open>The approval of a merge\<close>

lemma merge_prs_all:
  "merge_prs git env i repos urls st = (None, st') \<Longrightarrow> url \<in> set urls \<Longrightarrow>
   match_repo repos url \<noteq> '''' \<and>
   (gh_merge git (match_repo repos url) url = None \<or> gh_is_merged git (match_repo repos url) url = Inr True)"
  by (induction git env i repos urls st rule: merge_prs.induct)
    (auto simp: Let_def split: if_splits option.splits)

text \<open>
  C25: A task is merged by approval only when it awaits review, has pull requests, and each of them
  belongs to a repository of the project and has been merged there, now or before.
\<close>
theorem ApproveMerge_safe:
  assumes "find_row (db_tasks (os_db st)) i = Some t"
    and "ApproveMerge upd (Some git) env st i = Some (Inr t', st')"
  shows "(t_status t = TaskStatusHumanReview \<or> t_status t = TaskStatusPrReady) \<and> t_pr_urls t \<noteq> [] \<and>
    (\<exists>repos. gh_repos git (t_project_id t) = Inr repos \<and>
      (\<forall>url\<in>set (t_pr_urls t). match_repo repos url \<noteq> '''' \<and>
        (gh_merge git (match_repo repos url) url = None \<or> gh_is_merged git (match_repo repos url) url = Inr True)))"
proof -
  have g: "get_task (os_db st) i = Inr t" using assms(1) by (simp add: get_task_def)
  from assms(2) g have s: "t_status t = TaskStatusHumanReview \<or> t_status t = TaskStatusPrReady" "t_pr_urls t \<noteq> []"
    by (auto simp: ApproveMerge_def split: if_splits)
  obtain e st1 where m: "merge_pull_requests (Some git) env st t = (e, st1)" by fastforce
  from assms(2) g s m have "e = None" by (cases e) (auto simp: ApproveMerge_def)
  with m obtain repos where "gh_repos git (t_project_id t) = Inr repos"
    "merge_prs git env (t_id t) repos (t_pr_urls t) st = (None, st1)"
    by (auto simp: merge_pull_requests_def split: sum.splits)
  with merge_prs_all s show ?thesis by blast
qed

definition demo_git :: git_host where
  "demo_git =
     \<lparr>gh_repos = (\<lambda>_. Inr [''https://git/a.git'']), gh_merge = (\<lambda>_ _. None), gh_is_merged = (\<lambda>_ _. Inr False)\<rparr>"

definition pr_task :: task where
  "pr_task = (demo_task ''t'' TaskStatusHumanReview)\<lparr>t_pr_urls := [''https://git/a/pull/1'']\<rparr>"

lemma Some_Inr: "(case x of None \<Rightarrow> False | Some (Inr t, _) \<Rightarrow> True | Some _ \<Rightarrow> False) \<Longrightarrow> \<exists>t st. x = Some (Inr t, st)"
  by (auto split: option.splits prod.splits sum.splits)

theorem ApproveMerge_safe_witness:
  "match_repo [''https://git/a.git''] ''https://git/a/pull/1'' \<noteq> ''''"
proof -
  have "case ApproveMerge (updateTaskStatus 1 silent_env) (Some demo_git) silent_env (orch_of [pr_task]) ''t'' of
      None \<Rightarrow> False | Some (Inr t, _) \<Rightarrow> True | Some _ \<Rightarrow> False" by code_simp
  then obtain t' st' where
    a: "ApproveMerge (updateTaskStatus 1 silent_env) (Some demo_git) silent_env (orch_of [pr_task]) ''t'' = Some (Inr t', st')"
    using Some_Inr by blast
  have f: "find_row (db_tasks (os_db (orch_of [pr_task]))) ''t'' = Some pr_task" by (simp add: find_row_def pr_task_def)
  from ApproveMerge_safe [OF f a] show ?thesis by (simp add: demo_git_def pr_task_def)
qed

section \<open>The webhook\<close>

lemma signature_exact:
  assumes "mac secret body \<noteq> ''''"
  shows "verifyGitHubSignature mac secret body signature \<longleftrightarrow> signature = ''sha256='' @ mac secret body"
proof
  assume v: "verifyGitHubSignature mac secret body signature"
  then have d: "trim_prefix signature ''sha256='' \<noteq> signature" "mac secret body = trim_prefix signature ''sha256=''"
    by (auto simp: verifyGitHubSignature_def Let_def split: if_splits)
  have "signature = ''sha256='' @ trim_prefix signature ''sha256=''"
    using d(1) by (auto simp: trim_prefix_def has_prefix_def split: if_splits elim: prefixE)
  with d(2) show "signature = ''sha256='' @ mac secret body" by simp
next
  assume s: "signature = ''sha256='' @ mac secret body"
  have "trim_prefix signature ''sha256='' = mac secret body" unfolding s by (rule trim_prefix_append)
  moreover have "mac secret body \<noteq> signature" unfolding s by (metis append_self_conv2 list.distinct(1))
  ultimately show "verifyGitHubSignature mac secret body signature"
    using assms by (simp add: verifyGitHubSignature_def)
qed

text \<open>
  With a secret set, a webhook request is refused, and changes nothing, exactly when its
  signature header is not \<^verbatim>\<open>sha256=\<close> followed by the code of its body under the secret.
\<close>
theorem webhook_authenticated:
  assumes "secret \<noteq> ''''" and "mac secret body \<noteq> ''''"
  shows "webhook_GitHub mac upd recent env orch st secret body signature event decoded projectID =
      Some (HUnauthorized, st) \<longleftrightarrow> signature \<noteq> ''sha256='' @ mac secret body"
proof (cases "signature = ''sha256='' @ mac secret body")
  case True
  then have v: "verifyGitHubSignature mac secret body signature" using signature_exact [of mac secret body signature] assms(2) by blast
  have "webhook_GitHub mac upd recent env orch st secret body signature event decoded projectID \<noteq> Some (HUnauthorized, st)"
    using v by (simp add: webhook_GitHub_def split: option.splits sum.splits prod.splits)
  with True show ?thesis by simp
next
  case False
  with signature_exact [where mac = mac and body = body and secret = secret and signature = signature] assms
  show ?thesis by (simp add: webhook_GitHub_def)
qed

theorem webhook_authenticated_witness:
  "webhook_GitHub (\<lambda>s b. ''ab'') (updateTaskStatus 1 silent_env) (\<lambda>ts. ts) silent_env True (orch_of [])
     ''k'' ''{}'' ''sha256=cd'' ''issues'' (Some []) ''p1'' = Some (HUnauthorized, orch_of [])"
  by (subst webhook_authenticated) simp_all

end
