(* ===== verification/Go_Path.thy ===== *)
theory Go_Path
  imports Go_Prelude
begin

text \<open>
  The functions of package \<^verbatim>\<open>path/filepath\<close> that the program calls, on a Unix system: lexical
  cleaning, joining, the last element, the directory, the relative path. A path is a string; its
  meaning is the list of its elements, and the lemmas relate the two: a clean path is the printed
  form of a list of elements in normal form, and every operation is a list operation on them.
\<close>

section \<open>Elements\<close>

abbreviation slash :: string where "slash \<equiv> ''/''"
abbreviation dotdot :: string where "dotdot \<equiv> ''..''"

definition split_path :: "string \<Rightarrow> string list" where
  "split_path p = split_char (CHR ''/'') p"

definition is_abs :: "string \<Rightarrow> bool" where
  "is_abs p = has_prefix p slash"

text \<open>One element of the path read by \<^verbatim>\<open>Clean\<close>; the output is a stack, last element first.\<close>

definition clean_step :: "bool \<Rightarrow> string \<Rightarrow> string list \<Rightarrow> string list" where
  "clean_step rooted e out =
     (if e = '''' \<or> e = ''.'' then out
      else if e = dotdot then
        (case out of
           [] \<Rightarrow> if rooted then [] else [dotdot]
         | o1 # os \<Rightarrow> if o1 = dotdot then dotdot # out else os)
      else e # out)"

definition clean_elems :: "bool \<Rightarrow> string list \<Rightarrow> string list" where
  "clean_elems rooted es = rev (fold (clean_step rooted) es [])"

definition path_elems :: "string \<Rightarrow> string list" where
  "path_elems p = clean_elems (is_abs p) (split_path p)"

definition show_path :: "bool \<Rightarrow> string list \<Rightarrow> string" where
  "show_path rooted es =
     (if rooted then slash @ join slash es else if es = [] then ''.'' else join slash es)"

definition path_clean :: "string \<Rightarrow> string" where
  "path_clean p = (if p = '''' then ''.'' else show_path (is_abs p) (path_elems p))"

text \<open>\<^verbatim>\<open>Join\<close> drops the leading empty arguments and cleans the rest, joined.\<close>

definition path_join :: "string list \<Rightarrow> string" where
  "path_join es =
     (case dropWhile (\<lambda>e. e = '''') es of
        [] \<Rightarrow> ''''
      | es' \<Rightarrow> path_clean (join slash es'))"

text \<open>\<^verbatim>\<open>Base\<close>, \<^verbatim>\<open>Dir\<close> and \<^verbatim>\<open>Ext\<close>.\<close>

definition path_base :: "string \<Rightarrow> string" where
  "path_base p =
     (if p = '''' then ''.''
      else let b = last (split_path (trim_right p slash)) in if b = '''' then slash else b)"

definition path_dir :: "string \<Rightarrow> string" where
  "path_dir p =
     (let es = butlast (split_path p)
      in path_clean (if es = [] then '''' else join slash es @ slash))"

fun ext_of :: "string \<Rightarrow> string \<Rightarrow> string" where
  "ext_of acc [] = ''''"
| "ext_of acc (c # cs) =
     (if c = CHR ''/'' then '''' else if c = CHR ''.'' then c # acc else ext_of (c # acc) cs)"

definition path_ext :: "string \<Rightarrow> string" where
  "path_ext p = ext_of [] (rev p)"

text \<open>\<^verbatim>\<open>Rel\<close>, which fails when one path is rooted and the other is not, or cannot be known.\<close>

fun drop_common :: "string list \<Rightarrow> string list \<Rightarrow> string list \<times> string list" where
  "drop_common (a # as) (b # bs) = (if a = b then drop_common as bs else (a # as, b # bs))"
| "drop_common as bs = (as, bs)"

definition path_rel :: "string \<Rightarrow> string \<Rightarrow> string option" where
  "path_rel base targ =
     (if is_abs base \<noteq> is_abs targ then None
      else let (b, t) = drop_common (path_elems base) (path_elems targ)
           in if b \<noteq> [] \<and> hd b = dotdot then None
              else Some (show_path False (replicate (length b) dotdot @ t)))"

text \<open>\<^verbatim>\<open>Abs\<close> joins a relative path to the working directory, which may be unknown.\<close>

definition path_abs :: "string option \<Rightarrow> string \<Rightarrow> string option" where
  "path_abs cwd p =
     (if is_abs p then Some (path_clean p) else map_option (\<lambda>d. path_join [d, p]) cwd)"

section \<open>Normal forms\<close>

definition plain_elem :: "string \<Rightarrow> bool" where
  "plain_elem e = (e \<noteq> '''' \<and> e \<noteq> ''.'' \<and> e \<noteq> dotdot \<and> CHR ''/'' \<notin> set e)"

fun normal :: "bool \<Rightarrow> string list \<Rightarrow> bool" where
  "normal rooted [] = True"
| "normal rooted (e # es) =
     (if e = dotdot then \<not> rooted \<and> normal rooted es else list_all plain_elem (e # es))"

lemma plain_elemD:
  "plain_elem e \<Longrightarrow> e \<noteq> ''''" "plain_elem e \<Longrightarrow> e \<noteq> ''.''" "plain_elem e \<Longrightarrow> e \<noteq> dotdot"
  "plain_elem e \<Longrightarrow> CHR ''/'' \<notin> set e"
  by (simp_all add: plain_elem_def)

lemma plain_not_dotdot [simp]: "\<not> plain_elem dotdot"
  by (simp add: plain_elem_def)

lemma normal_plain: "list_all plain_elem es \<Longrightarrow> normal r es"
  by (cases es) (auto simp: plain_elem_def)

lemma normal_rooted: "normal True es = list_all plain_elem es"
  by (cases es) auto

lemma normal_no_dotdot: "normal r es \<Longrightarrow> es = [] \<or> hd es \<noteq> dotdot \<Longrightarrow> list_all plain_elem es"
  by (cases es) auto

lemma normal_elem: "normal r es \<Longrightarrow> e \<in> set es \<Longrightarrow> e = dotdot \<or> plain_elem e"
  by (induction es) (auto simp: list_all_iff split: if_splits)

lemma normal_elem_no_slash: "normal r es \<Longrightarrow> e \<in> set es \<Longrightarrow> e \<noteq> '''' \<and> e \<noteq> ''.'' \<and> CHR ''/'' \<notin> set e"
  using normal_elem [of r es e] by (auto simp: plain_elem_def)

lemma normal_snoc_plain: "normal r es \<Longrightarrow> plain_elem e \<Longrightarrow> normal r (es @ [e])"
  by (induction es) (auto simp: plain_elem_def)

lemma normal_butlast: "normal r (es @ [e]) \<Longrightarrow> normal r es"
  by (induction es) (auto split: if_splits)

lemma normal_snoc_dotdot: "normal r (es @ [dotdot]) \<Longrightarrow> \<not> r \<and> set es \<subseteq> {dotdot}"
  by (induction es) (auto split: if_splits)

lemma normal_dotdots: "set es \<subseteq> {dotdot} \<Longrightarrow> \<not> r \<Longrightarrow> normal r (es @ [dotdot])"
  by (induction es) auto

text \<open>Cleaning yields a normal form and leaves a normal form alone.\<close>

lemma clean_step_normal:
  assumes "normal r (rev out)" "CHR ''/'' \<notin> set e"
  shows "normal r (rev (clean_step r e out))"
proof (cases out)
  case Nil
  with assms show ?thesis by (auto simp: clean_step_def plain_elem_def)
next
  case (Cons o1 os)
  show ?thesis
  proof (cases "e = dotdot \<and> o1 = dotdot")
    case True
    with Cons assms(1) have "\<not> r" "set (rev os) \<subseteq> {dotdot}"
      using normal_snoc_dotdot [of r "rev os"] by auto
    with True Cons show ?thesis
      using normal_dotdots [of "rev os @ [dotdot]" r] by (simp add: clean_step_def)
  next
    case False
    with Cons assms show ?thesis
      using normal_butlast [of r "rev os" o1] normal_snoc_plain [of r "rev out" e]
      by (auto simp: clean_step_def plain_elem_def)
  qed
qed

lemma fold_clean_normal:
  "normal r (rev out) \<Longrightarrow> \<forall>e \<in> set es. CHR ''/'' \<notin> set e \<Longrightarrow>
   normal r (rev (fold (clean_step r) es out))"
  by (induction es arbitrary: out) (auto intro: clean_step_normal)

lemma normal_clean_elems: "\<forall>e \<in> set es. CHR ''/'' \<notin> set e \<Longrightarrow> normal r (clean_elems r es)"
  using fold_clean_normal [of r "[]" es] by (simp add: clean_elems_def)

lemma normal_path_elems [simp]: "normal (is_abs p) (path_elems p)"
  unfolding path_elems_def split_path_def
  by (rule normal_clean_elems) (use split_char_no_sep in blast)

lemma fold_clean_plain:
  "list_all plain_elem es \<Longrightarrow> fold (clean_step r) es out = rev es @ out"
  by (induction es arbitrary: out) (auto simp: clean_step_def plain_elem_def)

lemma fold_clean_idle:
  "normal r es \<Longrightarrow> set out \<subseteq> {dotdot} \<Longrightarrow> fold (clean_step r) es out = rev es @ out"
proof (induction es arbitrary: out)
  case Nil
  then show ?case by simp
next
  case (Cons e es)
  show ?case
  proof (cases "e = dotdot")
    case True
    with Cons have "\<not> r" "normal r es" by auto
    moreover from this True Cons.prems have "clean_step r e out = e # out"
      by (cases out) (auto simp: clean_step_def)
    ultimately show ?thesis using Cons True by simp
  next
    case False
    with Cons.prems have "list_all plain_elem (e # es)" by simp
    then show ?thesis using fold_clean_plain [of "e # es" r out] by simp
  qed
qed

lemma clean_elems_idle: "normal r es \<Longrightarrow> clean_elems r es = es"
  using fold_clean_idle [of r es "[]"] by (simp add: clean_elems_def)

text \<open>Appending plain elements to a path appends them to its elements.\<close>

lemma clean_elems_append_plain:
  "list_all plain_elem bs \<Longrightarrow> clean_elems r (as @ bs) = clean_elems r as @ bs"
  by (simp add: clean_elems_def fold_clean_plain)

lemma clean_elems_skip: "clean_elems r ('''' # es) = clean_elems r es"
  by (simp add: clean_elems_def clean_step_def)

lemma clean_elems_skip_last: "clean_elems r (es @ ['''']) = clean_elems r es"
  by (simp add: clean_elems_def clean_step_def)

section \<open>Printing and reading back\<close>

lemma split_path_show:
  assumes "normal r es"
  shows "split_path (show_path r es) =
         (if r then '''' # (if es = [] then [''''] else es) else if es = [] then [''.''] else es)"
proof -
  have s: "split_char (CHR ''/'') (join slash es) = (if es = [] then [''''] else es)"
    by (simp add: split_char_join normal_elem_no_slash [OF assms])
  then show ?thesis
    using s by (auto simp: show_path_def split_path_def)
qed

lemma is_abs_slash [simp]: "is_abs (CHR ''/'' # s)"
  by (simp add: is_abs_def has_prefix_def)

lemma is_abs_Nil [simp]: "\<not> is_abs ''''"
  by (simp add: is_abs_def has_prefix_def)

lemma is_abs_iff: "is_abs p \<longleftrightarrow> (\<exists>s. p = CHR ''/'' # s)"
  by (auto simp: is_abs_def has_prefix_def prefix_def)

lemma join_hd_ne: "es \<noteq> [] \<Longrightarrow> hd es \<noteq> '''' \<Longrightarrow> \<exists>s. join sep es = hd (hd es) # s"
proof (cases es)
  case (Cons e es')
  assume "hd es \<noteq> ''''"
  with Cons obtain c s where "e = c # s" by (cases e) auto
  with Cons show ?thesis by (cases es') auto
qed simp

lemma is_abs_show: "normal r es \<Longrightarrow> is_abs (show_path r es) = r"
proof (cases "r \<or> es = []")
  case True
  then show ?thesis by (auto simp: show_path_def is_abs_iff)
next
  case False
  assume n: "normal r es"
  with False have "hd es \<in> set es" by simp
  with n have "hd es \<noteq> ''''" "CHR ''/'' \<notin> set (hd es)"
    using normal_elem_no_slash by auto
  moreover from this have "hd (hd es) \<noteq> CHR ''/''" by (metis hd_in_set)
  ultimately show ?thesis
    using False join_hd_ne [of es slash] by (auto simp: show_path_def is_abs_iff)
qed

lemma path_elems_show [simp]: "normal r es \<Longrightarrow> path_elems (show_path r es) = es"
  using clean_elems_idle [of r es]
  by (cases r) (auto simp: path_elems_def is_abs_show split_path_show clean_elems_skip,
      auto simp: clean_elems_def clean_step_def)

lemma show_path_ne [simp]: "normal r es \<Longrightarrow> show_path r es \<noteq> ''''"
  using normal_elem_no_slash [of r es "hd es"] join_hd_ne [of es slash]
  by (cases es) (auto simp: show_path_def)

lemma path_clean_show: "normal r es \<Longrightarrow> path_clean (show_path r es) = show_path r es"
  by (simp add: path_clean_def is_abs_show)

lemma path_clean_normal: "p \<noteq> '''' \<Longrightarrow> path_clean p = show_path (is_abs p) (path_elems p)"
  by (simp add: path_clean_def)

lemma path_elems_Nil [simp]: "path_elems '''' = []"
  by (simp add: path_elems_def split_path_def clean_elems_def clean_step_def)

lemma path_clean_is_show: "path_clean p = show_path (is_abs p) (path_elems p)"
  by (simp add: path_clean_def show_path_def)

lemma path_clean_idem [simp]: "path_clean (path_clean p) = path_clean p"
  by (simp add: path_clean_is_show [of p] path_clean_show)

lemma is_abs_clean [simp]: "is_abs (path_clean p) = is_abs p"
  by (simp add: path_clean_is_show is_abs_show)

lemma path_elems_clean [simp]: "path_elems (path_clean p) = path_elems p"
  by (simp add: path_clean_is_show)

lemma path_elems_abs_plain: "is_abs p \<Longrightarrow> list_all plain_elem (path_elems p)"
  using normal_path_elems [of p] by (simp add: normal_rooted)

lemma split_path_append: "split_path (a @ slash @ b) = split_path a @ split_path b"
  unfolding split_path_def
proof (induction a)
  case (Cons c a)
  then show ?case by (auto split: list.splits)
qed simp

lemma path_join2:
  assumes "is_abs r"
  shows "path_join [r, p] = path_clean (r @ slash @ p)"
  using assms by (auto simp: path_join_def)

text \<open>Joining a plain relative path to a rooted one appends its elements.\<close>

lemma path_join_plain:
  assumes "is_abs r" "\<not> is_abs p" "list_all plain_elem (path_elems p)" "path_clean p = p"
  shows "path_join [r, p] = show_path True (path_elems r @ path_elems p)"
proof -
  have a: "is_abs (r @ slash @ p)" using assms(1) by (auto simp: is_abs_iff)
  have "split_path p = (if path_elems p = [] then [''.''] else path_elems p)"
    using split_path_show [OF normal_path_elems [of p]] assms(2, 4) by (simp add: path_clean_is_show)
  then have "path_elems (r @ slash @ p) = path_elems r @ path_elems p"
    using clean_elems_append_plain [OF assms(3), of True "split_path r"] assms(1) a
    by (auto simp: path_elems_def [of r] path_elems_def [of "r @ slash @ p"] split_path_append
        simp del: append_Cons append_Nil)
       (simp add: clean_elems_def clean_step_def)
  with a show ?thesis
    by (simp add: path_join2 [OF assms(1)] path_clean_is_show)
qed

lemma path_abs_abs: "is_abs p \<Longrightarrow> path_abs cwd p = Some (path_clean p)"
  by (simp add: path_abs_def)

lemma drop_common_append [simp]: "drop_common as (as @ bs) = ([], bs)"
  by (induction as) (cases bs, auto)

lemma path_rel_below:
  assumes "is_abs base" "is_abs targ" "path_elems targ = path_elems base @ es"
  shows "path_rel base targ = Some (show_path False es)"
  using assms by (simp add: path_rel_def)

end
