(* ===== verification/Paths.thy ===== *)
theory Paths
  imports Go_Path
begin

text \<open>
  Package \<^verbatim>\<open>pkg/paths\<close>: the sandboxed path contexts of agents, the directory values that clamp
  escapes, the layout of a task workspace, branch names and the quoting of shell arguments.
  The working directory of \<^verbatim>\<open>filepath.Abs\<close> and the resolution of symbolic links are parameters.
\<close>

section \<open>agent_vfs.go\<close>

record path_ctx =
  pc_physicalRoot :: string
  pc_UseRepoPrefix :: bool
  pc_RepoName :: string
  pc_Role :: string

datatype path_error =
    OutsideRoot string string
  | NoRelative
  | AbsoluteNotAllowed string
  | TraversalViolation string
  | BoundaryViolation string string
  | NoAbsolute
  | TraversalAttempt

text \<open>\<^verbatim>\<open>if abs, err := filepath.Abs(p); err == nil { p = abs }\<close>.\<close>

definition abs_or_same :: "string option \<Rightarrow> string \<Rightarrow> string" where
  "abs_or_same cwd p = or_zero p (path_abs cwd p)"

definition NewAgentPathContext :: "string option \<Rightarrow> string \<Rightarrow> bool \<Rightarrow> string \<Rightarrow> string \<Rightarrow> path_ctx" where
  "NewAgentPathContext cwd root use_prefix repo role =
     \<lparr>pc_physicalRoot = abs_or_same cwd (path_clean root), pc_UseRepoPrefix = use_prefix,
      pc_RepoName = repo, pc_Role = role\<rparr>"

definition StripGitDiffArtifacts :: "string \<Rightarrow> string" where
  "StripGitDiffArtifacts p =
     (let q = trim_prefix (path_clean p) slash;
          q' = (if has_prefix q ''a/'' then trim_prefix q ''a/''
                else if has_prefix q ''b/'' then trim_prefix q ''b/'' else q)
      in path_clean q')"

definition ToLogical :: "string option \<Rightarrow> path_ctx \<Rightarrow> string \<Rightarrow> path_error + string" where
  "ToLogical cwd v physical0 =
     (let physical = abs_or_same cwd (path_clean physical0)
      in if \<not> has_prefix physical (pc_physicalRoot v)
         then Inl (OutsideRoot physical (pc_physicalRoot v))
         else (case path_rel (pc_physicalRoot v) physical of
                 None \<Rightarrow> Inl NoRelative
               | Some rel0 \<Rightarrow>
                   let rel = (if rel0 = ''.'' then '''' else rel0)
                   in if pc_UseRepoPrefix v
                      then (let parts = split_path rel
                            in if 4 \<le> length parts \<and> parts ! 1 = ''worktrees''
                               then Inr (parts ! 0 @ slash @ join slash (drop 3 parts))
                               else if pc_RepoName v \<noteq> '''' \<and> rel \<noteq> ''''
                               then Inr (path_join [pc_RepoName v, rel])
                               else Inr rel)
                      else Inr rel))"

definition role_folder :: "path_ctx \<Rightarrow> string" where
  "role_folder v =
     (if pc_Role v \<noteq> '''' then path_join [''worktrees'', pc_Role v] else ''main'')"

definition place_logical :: "path_ctx \<Rightarrow> string \<Rightarrow> string" where
  "place_logical v logical =
     (if pc_UseRepoPrefix v
      then (let parts = split_path logical
            in if 2 \<le> length parts
               then path_join [parts ! 0, role_folder v, join slash (drop 1 parts)]
               else if pc_RepoName v \<noteq> ''''
               then path_join [pc_RepoName v, role_folder v, logical]
               else logical)
      else if pc_RepoName v \<noteq> ''''
      then (let repo_prefix = pc_RepoName v @ slash
            in if has_prefix logical repo_prefix then drop (length repo_prefix) logical
               else if logical = pc_RepoName v then '''' else logical)
      else logical)"

definition ToPhysical :: "string option \<Rightarrow> path_ctx \<Rightarrow> string \<Rightarrow> path_error + string" where
  "ToPhysical cwd v logical0 =
     (if is_abs logical0 \<or> has_prefix logical0 slash \<or> has_prefix logical0 [CHR 0x5C]
      then Inl (AbsoluteNotAllowed logical0)
      else let logical = place_logical v (StripGitDiffArtifacts logical0);
               clean_logical = path_clean logical
           in if has_prefix clean_logical dotdot \<or> has_prefix clean_logical slash
              then Inl (TraversalViolation logical)
              else let physical =
                         abs_or_same cwd (path_clean (path_join [pc_physicalRoot v, clean_logical]))
                   in if \<not> has_prefix physical (pc_physicalRoot v) \<and> physical \<noteq> pc_physicalRoot v
                      then Inl (BoundaryViolation logical (pc_physicalRoot v))
                      else Inr physical)"

section \<open>types.go\<close>

typedef Directory = "{p. path_clean p = p}"
  by (rule exI [of _ "''.''"]) (simp add: path_clean_is_show path_elems_def split_path_def
      clean_elems_def clean_step_def is_abs_def has_prefix_def show_path_def)

setup_lifting type_definition_Directory

lift_definition NewDirectory :: "string \<Rightarrow> Directory" is path_clean
  by simp

lift_definition dir_path :: "Directory \<Rightarrow> string" is "\<lambda>p. p" .

text \<open>The test both constructors share: the joined path leaves the directory.\<close>

definition escapes :: "string \<Rightarrow> string \<Rightarrow> bool" where
  "escapes d cleaned =
     (d \<noteq> ''.'' \<and> d \<noteq> '''' \<and>
      (case path_rel d cleaned of None \<Rightarrow> True | Some rel \<Rightarrow> has_prefix rel dotdot))"

definition dir_Child :: "Directory \<Rightarrow> string list \<Rightarrow> Directory" where
  "dir_Child d es =
     (let cleaned = path_clean (path_join (dir_path d # es))
      in if escapes (dir_path d) cleaned then d else NewDirectory cleaned)"

definition dir_File :: "Directory \<Rightarrow> string \<Rightarrow> string" where
  "dir_File d name =
     (let cleaned = path_clean (path_join [dir_path d, name])
      in if escapes (dir_path d) cleaned
         then path_clean (path_join [dir_path d, path_base name])
         else cleaned)"

definition NewFile :: "string \<Rightarrow> string" where
  "NewFile p = path_clean p"

section \<open>workspace.go\<close>

definition ReposDirName :: string where "ReposDirName = ''code/repos''"

definition ReposPrefix :: string where "ReposPrefix = ReposDirName @ slash"

definition NewOSWorkspacePaths :: "string option \<Rightarrow> string \<Rightarrow> string \<Rightarrow> string" where
  "NewOSWorkspacePaths cwd tmp root0 =
     (let root = (if root0 = '''' then path_join [tmp, ''auto-code-os'', ''workspaces''] else root0)
      in path_clean (abs_or_same cwd root))"

definition TaskRoot :: "string \<Rightarrow> string \<Rightarrow> Directory" where
  "TaskRoot ws task_id = NewDirectory (path_join [ws, task_id])"

definition SpecsDir :: "string \<Rightarrow> string \<Rightarrow> Directory" where
  "SpecsDir ws task_id = dir_Child (TaskRoot ws task_id) [''specs'']"

definition ContextDir :: "string \<Rightarrow> string \<Rightarrow> Directory" where
  "ContextDir ws task_id = dir_Child (TaskRoot ws task_id) [''context'']"

definition ArtifactsDir :: "string \<Rightarrow> string \<Rightarrow> Directory" where
  "ArtifactsDir ws task_id = dir_Child (TaskRoot ws task_id) [''artifacts'']"

definition LogsDir :: "string \<Rightarrow> string \<Rightarrow> Directory" where
  "LogsDir ws task_id = dir_Child (TaskRoot ws task_id) [''logs'']"

definition PRDir :: "string \<Rightarrow> string \<Rightarrow> Directory" where
  "PRDir ws task_id = dir_Child (TaskRoot ws task_id) [''pr'']"

definition OpenSpecDir :: "string \<Rightarrow> string \<Rightarrow> string \<Rightarrow> Directory" where
  "OpenSpecDir ws task_id change = dir_Child (TaskRoot ws task_id) [''openspec'', ''changes'', change]"

definition CodeRoot :: "string \<Rightarrow> string \<Rightarrow> Directory" where
  "CodeRoot ws task_id = dir_Child (TaskRoot ws task_id) (split_path ReposDirName)"

definition RepoRoot :: "string \<Rightarrow> string \<Rightarrow> string \<Rightarrow> Directory" where
  "RepoRoot ws task_id repo = dir_Child (CodeRoot ws task_id) [repo]"

definition RepoMain :: "string \<Rightarrow> string \<Rightarrow> string \<Rightarrow> Directory" where
  "RepoMain ws task_id repo = dir_Child (RepoRoot ws task_id repo) [''main'']"

definition RepoMainRelative :: "string \<Rightarrow> string" where
  "RepoMainRelative repo = path_join [ReposDirName, repo, ''main'']"

definition RepoWorktreeDir :: "string \<Rightarrow> string \<Rightarrow> string \<Rightarrow> string \<Rightarrow> Directory" where
  "RepoWorktreeDir ws task_id repo role = dir_Child (RepoRoot ws task_id repo) [''worktrees'', role]"

definition RepoWorktreeRelative :: "string \<Rightarrow> string \<Rightarrow> string" where
  "RepoWorktreeRelative repo role = path_join [ReposDirName, repo, ''worktrees'', role]"

definition WorkspaceToRepoRelative :: "string \<Rightarrow> string" where
  "WorkspaceToRepoRelative path0 =
     (let path1 = path_clean (replace_all path0 [CHR 0x5C] slash);
          pre = slash @ ReposPrefix;
          found = (case index_of path1 pre of
                     Some i \<Rightarrow> Some (i, path1)
                   | None \<Rightarrow> if has_prefix path1 ReposPrefix then Some (0, slash @ path1) else None)
      in case found of
           None \<Rightarrow> path1
         | Some (idx, path) \<Rightarrow>
             let parts = split_path (drop (idx + length pre) path)
             in if length parts < 2
                then if length parts = 1 \<and> parts ! 0 \<noteq> '''' then parts ! 0
                     else trim_prefix path slash
                else if parts ! 1 = ''worktrees''
                then if 4 \<le> length parts then parts ! 0 @ slash @ join slash (drop 3 parts)
                     else parts ! 0
                else if 3 \<le> length parts then parts ! 0 @ slash @ join slash (drop 2 parts)
                else parts ! 0)"

section \<open>helpers.go\<close>

text \<open>A relative path that does not leave its base, as \<^verbatim>\<open>ContainerPathForHostPath\<close> tests it.\<close>

definition stays_below :: "string \<Rightarrow> string \<Rightarrow> string option" where
  "stays_below base targ =
     (case path_rel base targ of
        None \<Rightarrow> None
      | Some rel \<Rightarrow> if rel \<noteq> dotdot \<and> \<not> has_prefix rel ''../'' then Some rel else None)"

definition in_workspace :: "string \<Rightarrow> string" where
  "in_workspace rel = (if rel = ''.'' then ''/workspace'' else path_join [''/workspace'', rel])"

definition ContainerPathForHostPath :: "string \<Rightarrow> string \<Rightarrow> string \<Rightarrow> string" where
  "ContainerPathForHostPath local_path active host =
     (case stays_below local_path host of
        Some rel \<Rightarrow> in_workspace rel
      | None \<Rightarrow>
          (case stays_below active host of
             Some rel \<Rightarrow> in_workspace rel
           | None \<Rightarrow> ''/workspace''))"

abbreviation quote :: string where "quote \<equiv> [CHR 0x27]"
abbreviation backslash :: char where "backslash \<equiv> CHR 0x5C"

definition QuoteShellArg :: "string \<Rightarrow> string" where
  "QuoteShellArg s = quote @ replace_all s quote (quote @ [backslash] @ quote @ quote) @ quote"

text \<open>\<^verbatim>\<open>EvalSymlinks\<close>, and \<^verbatim>\<open>Abs\<close> where that fails.\<close>

definition eval_or_abs :: "(string \<Rightarrow> string option) \<Rightarrow> string option \<Rightarrow> string \<Rightarrow> string option" where
  "eval_or_abs evalsym cwd p =
     (case evalsym p of Some q \<Rightarrow> Some q | None \<Rightarrow> path_abs cwd p)"

definition ResolveSafePath ::
  "(string \<Rightarrow> string option) \<Rightarrow> string option \<Rightarrow> string \<Rightarrow> string \<Rightarrow> path_error + string" where
  "ResolveSafePath evalsym cwd root sub_path =
     (case eval_or_abs evalsym cwd root of
        None \<Rightarrow> Inl NoAbsolute
      | Some r \<Rightarrow>
          let abs_root = path_clean r
          in case eval_or_abs evalsym cwd (path_join [abs_root, sub_path]) of
               None \<Rightarrow> Inl NoAbsolute
             | Some t \<Rightarrow>
                 let abs_target = path_clean t
                 in case path_rel abs_root abs_target of
                      None \<Rightarrow> Inl TraversalAttempt
                    | Some rel \<Rightarrow>
                        if has_prefix rel dotdot \<or> is_abs rel then Inl TraversalAttempt
                        else Inr abs_target)"

definition IsSafeRelativeSourcePath :: "string \<Rightarrow> bool" where
  "IsSafeRelativeSourcePath p0 =
     (let p = path_clean (trim_space p0)
      in if p = '''' \<or> p = ''.'' \<or> is_abs p then False
         else p \<noteq> dotdot \<and> \<not> has_prefix p ''../'')"

text \<open>One round of the loop of \<^verbatim>\<open>CanonicalizeRepoRelative\<close>; \<open>None\<close> is the early return.\<close>

definition strip_code_repos :: "string \<Rightarrow> string \<Rightarrow> string option" where
  "strip_code_repos repo p =
     (if has_prefix p ''code/repos/''
      then if repo = '''' \<or> \<not> has_prefix p (''code/repos/'' @ repo @ slash) then None
           else Some (drop (length ''code/repos/'') p)
      else Some p)"

definition strip_diff_prefix :: "string \<Rightarrow> string" where
  "strip_diff_prefix p =
     (if has_prefix p ''a/'' then drop 2 p else if has_prefix p ''b/'' then drop 2 p else p)"

definition strip_worktree :: "string \<Rightarrow> string" where
  "strip_worktree p =
     (if has_prefix p ''worktrees/''
      then (case index_of (drop (length ''worktrees/'') p) slash of
              Some i \<Rightarrow> drop (length ''worktrees/'' + i + 1) p
            | None \<Rightarrow> p)
      else p)"

definition strip_branch :: "string \<Rightarrow> string \<Rightarrow> string" where
  "strip_branch branch p =
     (if branch \<noteq> '''' \<and> has_prefix p (branch @ slash) then drop (length branch + 1) p
      else if has_prefix p ''main/'' then drop (length ''main'' + 1) p else p)"

definition strip_repo :: "string \<Rightarrow> string \<Rightarrow> string \<Rightarrow> string" where
  "strip_repo repo branch p =
     (if repo \<noteq> '''' \<and> has_prefix p (repo @ slash)
      then strip_branch branch (strip_worktree (drop (length repo + 1) p)) else p)"

definition canon_round :: "string \<Rightarrow> string \<Rightarrow> string \<Rightarrow> string option" where
  "canon_round repo branch p =
     map_option (\<lambda>q. strip_repo repo branch (strip_diff_prefix q)) (strip_code_repos repo p)"

lemma drop_suffix: "suffix (drop n s) s"
  by (simp add: suffix_drop)

lemma strip_rounds:
  "strip_code_repos repo p = Some q \<Longrightarrow> suffix q p" "suffix (strip_diff_prefix p) p"
  "suffix (strip_worktree p) p" "suffix (strip_branch branch p) p"
  by (auto simp: strip_code_repos_def strip_diff_prefix_def strip_worktree_def strip_branch_def
      drop_suffix split: if_splits option.splits)

lemma strip_repo_suffix: "suffix (strip_repo repo branch p) p"
  by (simp add: strip_repo_def
      suffix_order.trans [OF strip_rounds(4) suffix_order.trans [OF strip_rounds(3) drop_suffix]])

lemma canon_round_suffix: "canon_round repo branch p = Some q \<Longrightarrow> suffix q p"
  unfolding canon_round_def
  by (auto intro: suffix_order.trans [OF strip_repo_suffix suffix_order.trans [OF strip_rounds(2)]]
      dest: strip_rounds(1))

function canon_loop :: "string \<Rightarrow> string \<Rightarrow> string \<Rightarrow> string option" where
  "canon_loop repo branch p =
     (case canon_round repo branch p of
        None \<Rightarrow> None
      | Some q \<Rightarrow> if q = p then Some p else canon_loop repo branch q)"
  by pat_completeness auto
termination
  by (relation "measure (\<lambda>(_, _, p). length p)")
     (auto dest!: canon_round_suffix simp: suffix_def)

declare canon_loop.simps [simp del]

definition CanonicalizeRepoRelative :: "string \<Rightarrow> string \<Rightarrow> string \<Rightarrow> string option" where
  "CanonicalizeRepoRelative p0 repo branch =
     (if p0 = '''' then None
      else let p = trim_prefix (replace_all p0 [backslash] slash) slash
           in if dotdot \<in> set (split_path p) then None
              else case canon_loop repo branch (path_clean p) of
                     None \<Rightarrow> None
                   | Some q \<Rightarrow>
                       if str_contains q ''code/repos/'' \<or> str_contains q ''worktrees/'' then None
                       else if q = '''' \<or> q = ''.'' then None else Some q)"

text \<open>
  \<^verbatim>\<open>Slugify\<close>: the loop over the lower-cased text, then \<^verbatim>\<open>strings.Trim(.., "-")\<close> around a cut at 30
  bytes. A rune outside ASCII is written as one dash, and so is each of its bytes after a dash.
\<close>

definition slug_char :: "char \<Rightarrow> bool" where
  "slug_char c =
     (let n = of_char c :: nat in (97 \<le> n \<and> n \<le> 122) \<or> (48 \<le> n \<and> n \<le> 57))"

fun slug_from :: "bool \<Rightarrow> string \<Rightarrow> string" where
  "slug_from last_dash [] = ''''"
| "slug_from last_dash (c # cs) =
     (if slug_char c then c # slug_from False cs
      else if last_dash then slug_from True cs
      else CHR ''-'' # slug_from True cs)"

definition trim_dashes :: "string \<Rightarrow> string" where
  "trim_dashes s = trim_right (trim_left s ''-'') ''-''"

definition Slugify :: "string \<Rightarrow> string" where
  "Slugify s = trim_dashes (take 30 (trim_dashes (slug_from False (to_lower s))))"

definition DeriveBranchName :: "string \<Rightarrow> string \<Rightarrow> string" where
  "DeriveBranchName task_id title =
     (let slug = Slugify title; short_id = take 8 task_id
      in if slug = '''' then ''feature/'' @ short_id else ''feature/'' @ slug @ ''-'' @ short_id)"

definition DeriveTaskSlug :: "string \<Rightarrow> string \<Rightarrow> string" where
  "DeriveTaskSlug task_id title =
     (let slug = Slugify title; short_id = take 8 task_id
      in if slug = '''' then short_id else slug @ ''-'' @ short_id)"

definition DeriveRoleBranchName :: "string \<Rightarrow> string \<Rightarrow> string \<Rightarrow> string" where
  "DeriveRoleBranchName task_id title role_suffix =
     (let branch = DeriveBranchName task_id title
      in if role_suffix = '''' then branch else branch @ ''-'' @ role_suffix)"

section \<open>Containment\<close>

text \<open>A rooted clean path below another one.\<close>

definition inside :: "string \<Rightarrow> string \<Rightarrow> bool" where
  "inside root p =
     (is_abs p \<and> path_clean p = p \<and> prefix (path_elems root) (path_elems p) \<and>
      list_all plain_elem (path_elems p))"

lemma drop_common_prefix:
  "drop_common as bs = (x, y) \<Longrightarrow> \<exists>c. as = c @ x \<and> bs = c @ y"
proof (induction as bs rule: drop_common.induct)
  case (1 a as b bs)
  then show ?case by (cases "a = b") (auto intro: exI [of _ "a # c" for c])
qed auto

lemma show_dotdots:
  "b \<noteq> [] \<Longrightarrow> has_prefix (show_path False (replicate (length b) dotdot @ t)) dotdot"
  by (cases b; cases "replicate (length (tl b)) dotdot @ t")
     (auto simp: show_path_def has_prefix_def)

lemma path_rel_inside:
  assumes "path_rel base targ = Some rel" "\<not> has_prefix rel dotdot"
  shows "prefix (path_elems base) (path_elems targ)"
proof -
  obtain b t where d: "drop_common (path_elems base) (path_elems targ) = (b, t)"
    by (cases "drop_common (path_elems base) (path_elems targ)")
  with assms have "rel = show_path False (replicate (length b) dotdot @ t)"
    by (auto simp: path_rel_def split: if_splits)
  with assms(2) have "b = []" using show_dotdots by blast
  with drop_common_prefix [OF d] show ?thesis by (auto simp: prefix_def)
qed

lemma insideI:
  "is_abs p \<Longrightarrow> path_clean p = p \<Longrightarrow> prefix (path_elems root) (path_elems p) \<Longrightarrow> inside root p"
  by (simp add: inside_def path_elems_abs_plain)

lemma inside_show: "is_abs root \<Longrightarrow> list_all plain_elem es \<Longrightarrow>
  inside root (show_path True (path_elems root @ es))"
  by (rule insideI)
     (simp_all add: is_abs_show path_clean_show normal_rooted path_elems_abs_plain)

text \<open>A relative clean path that does not begin with two dots has plain elements.\<close>

lemma show_hd_prefix: "es \<noteq> [] \<Longrightarrow> has_prefix (show_path False es) (hd es)"
  by (cases es; cases "tl es") (auto simp: show_path_def has_prefix_def)

lemma clean_rel_plain:
  assumes "\<not> is_abs p" "\<not> has_prefix (path_clean p) dotdot"
  shows "list_all plain_elem (path_elems p)"
proof (rule normal_no_dotdot [OF normal_path_elems])
  show "path_elems p = [] \<or> hd (path_elems p) \<noteq> dotdot"
    using assms show_hd_prefix [of "path_elems p"] by (auto simp: path_clean_is_show)
qed

lemma is_abs_has_prefix: "has_prefix p slash = is_abs p"
  by (simp add: is_abs_def)

text \<open>The path a successful \<open>ToPhysical\<close> returns.\<close>

lemma ToPhysical_path:
  assumes root: "is_abs (pc_physicalRoot v)"
    and ok: "ToPhysical cwd v l = Inr p"
  defines "q \<equiv> place_logical v (StripGitDiffArtifacts l)"
  shows "\<not> is_abs q \<and> list_all plain_elem (path_elems q) \<and>
         p = show_path True (path_elems (pc_physicalRoot v) @ path_elems q)"
proof -
  let ?r = "pc_physicalRoot v"
  from ok have rel: "\<not> is_abs q" "\<not> has_prefix (path_clean q) dotdot"
    by (auto simp: ToPhysical_def Let_def q_def is_abs_has_prefix split: if_splits)
  then have plain: "list_all plain_elem (path_elems q)" by (rule clean_rel_plain)
  have j: "path_join [?r, path_clean q] = show_path True (path_elems ?r @ path_elems q)"
    using path_join_plain [OF root, of "path_clean q"] rel plain by simp
  have n: "normal True (path_elems ?r @ path_elems q)"
    using plain root by (simp add: normal_rooted path_elems_abs_plain)
  have "p = show_path True (path_elems ?r @ path_elems q)"
    using ok j n
    by (auto simp: ToPhysical_def Let_def q_def abs_or_same_def path_clean_show path_abs_abs
        is_abs_show split: if_splits)
  with rel plain show ?thesis by simp
qed

lemma ToPhysical_inside:
  assumes "is_abs (pc_physicalRoot v)" "ToPhysical cwd v l = Inr p"
  shows "inside (pc_physicalRoot v) p"
  using ToPhysical_path [OF assms] inside_show [OF assms(1)] by metis

end
