(* ===== verification/Path_Properties.thy ===== *)
theory Path_Properties
  imports Paths
begin

text \<open>
  What the path package promises: an agent path resolves below the root of its context, physical
  and logical paths translate back and forth, a quoted argument is one shell word with the original
  text, and a slug is a safe name. The cases in which the clamps and the translation fail are
  theorems too.
\<close>

section \<open>Roots\<close>

definition cwd_ok :: "string option \<Rightarrow> bool" where
  "cwd_ok cwd = (case cwd of None \<Rightarrow> False | Some d \<Rightarrow> is_abs d)"

lemma path_join_abs: "is_abs d \<Longrightarrow> is_abs (path_join [d, p]) \<and> path_clean (path_join [d, p]) = path_join [d, p]"
  by (auto simp: path_join2 is_abs_iff [of d])

lemma abs_or_same_abs:
  "is_abs p \<or> cwd_ok cwd \<Longrightarrow> is_abs (abs_or_same cwd p) \<and> path_clean (abs_or_same cwd p) = abs_or_same cwd p"
  by (auto simp: abs_or_same_def path_abs_def cwd_ok_def path_join_abs split: option.splits)

lemma context_root:
  assumes "v = NewAgentPathContext cwd root u repo role" "is_abs root \<or> cwd_ok cwd"
  shows "is_abs (pc_physicalRoot v) \<and> path_clean (pc_physicalRoot v) = pc_physicalRoot v"
  using assms abs_or_same_abs [of "path_clean root" cwd] by (simp add: NewAgentPathContext_def)

text \<open>
  C21: whatever logical path an agent names, the physical path it is resolved to lies below the root
  of its context and has no parent component.
\<close>

theorem ToPhysical_contained:
  assumes "v = NewAgentPathContext cwd root u repo role" "is_abs root \<or> cwd_ok cwd"
    and "ToPhysical cwd v l = Inr p"
  shows "inside (pc_physicalRoot v) p"
  using ToPhysical_inside [OF _ assms(3)] context_root [OF assms(1, 2)] by blast

theorem ToPhysical_contained_witness:
  "inside ''/w/wt'' ''/w/wt/src/a.go''"
proof -
  let ?v = "NewAgentPathContext None ''/w/./wt/'' False ''api'' ''backend''"
  have r: "pc_physicalRoot ?v = ''/w/wt''" by code_simp
  have "ToPhysical None ?v ''b/api/src/x/../a.go'' = Inr ''/w/wt/src/a.go''" by code_simp
  then show ?thesis
    using ToPhysical_contained [of ?v None "''/w/./wt/''" False "''api''" "''backend''"]
    by (simp add: r)
qed

section \<open>Physical to logical and back\<close>

lemma show_path_prefix: "prefix (show_path True as) (show_path True (as @ bs))"
proof -
  have "prefix (join slash as) (join slash (as @ bs))" for as
  proof (induction as)
    case (Cons a as)
    then show ?case by (cases as; cases bs) auto
  qed simp
  then show ?thesis by (auto simp: show_path_def)
qed

lemma inside_elems:
  assumes "inside root p" "is_abs root"
  obtains es where "p = show_path True (path_elems root @ es)" "list_all plain_elem es"
    "path_elems p = path_elems root @ es"
proof -
  from assms(1) obtain es where e: "path_elems p = path_elems root @ es"
    by (auto simp: inside_def prefix_def)
  have "p = show_path True (path_elems p)"
    using assms(1) by (metis inside_def path_clean_is_show)
  with e assms(1) show thesis
    using that by (simp add: inside_def)
qed

lemma clean_is_show: "path_clean r = r \<Longrightarrow> is_abs r \<Longrightarrow> r = show_path True (path_elems r)"
  by (metis path_clean_is_show)

definition logical_of :: "string list \<Rightarrow> string" where
  "logical_of es = (if es = [] then '''' else show_path False es)"

lemma show_False_dot: "list_all plain_elem es \<Longrightarrow> (show_path False es = ''.'') = (es = [])"
  by (cases es; cases "tl es") (auto simp: show_path_def plain_elem_def append_eq_Cons_conv)

lemma ToLogical_below:
  assumes "is_abs (pc_physicalRoot v)" "path_clean (pc_physicalRoot v) = pc_physicalRoot v"
    and "list_all plain_elem es" "\<not> pc_UseRepoPrefix v"
  shows "ToLogical cwd v (show_path True (path_elems (pc_physicalRoot v) @ es)) = Inr (logical_of es)"
proof -
  let ?r = "pc_physicalRoot v" and ?p = "show_path True (path_elems (pc_physicalRoot v) @ es)"
  have n: "normal True (path_elems ?r @ es)"
    using assms by (simp add: normal_rooted path_elems_abs_plain)
  have a: "abs_or_same cwd (path_clean ?p) = ?p"
    using n by (simp add: abs_or_same_def path_clean_show path_abs_abs is_abs_show)
  have "has_prefix ?p ?r"
    using show_path_prefix [of "path_elems ?r" es] clean_is_show [OF assms(2, 1)]
    by (simp add: has_prefix_def)
  moreover have "path_rel ?r ?p = Some (show_path False es)"
    using n assms(1) by (intro path_rel_below) (simp_all add: is_abs_show)
  ultimately show ?thesis
    using a assms(3, 4) by (simp add: ToLogical_def Let_def logical_of_def show_False_dot)
qed

text \<open>
  A logical path that the resolution reads as it is: it does not begin like a git diff path, like
  the name of the repository, with two dots or with a backslash.
\<close>

definition unambiguous :: "path_ctx \<Rightarrow> string \<Rightarrow> bool" where
  "unambiguous v l =
     (\<not> has_prefix l ''a/'' \<and> \<not> has_prefix l ''b/'' \<and> \<not> has_prefix l dotdot \<and>
      \<not> has_prefix l [backslash] \<and>
      (pc_RepoName v \<noteq> '''' \<longrightarrow> \<not> has_prefix l (pc_RepoName v @ slash) \<and> l \<noteq> pc_RepoName v))"

lemma logical_of_clean:
  assumes "list_all plain_elem es"
  shows "path_clean (logical_of es) = show_path False es" "\<not> is_abs (logical_of es)"
    "path_elems (show_path False es) = es"
  using assms normal_plain [OF assms]
  by (auto simp: logical_of_def path_clean_show is_abs_show)
     (simp add: path_clean_def show_path_def)

lemma strip_unambiguous:
  assumes "list_all plain_elem es" "\<not> has_prefix (logical_of es) ''a/''"
    "\<not> has_prefix (logical_of es) ''b/''"
  shows "StripGitDiffArtifacts (logical_of es) = show_path False es"
proof -
  let ?s = "show_path False es"
  have n: "normal False es" by (rule normal_plain [OF assms(1)])
  have t: "trim_prefix ?s slash = ?s"
    using is_abs_show [OF n] by (simp add: trim_prefix_def is_abs_has_prefix)
  have "\<not> has_prefix ?s ''a/''" "\<not> has_prefix ?s ''b/''"
    using assms(2, 3) by (auto simp: logical_of_def show_path_def has_prefix_def split: if_splits)
  then show ?thesis
    by (simp add: StripGitDiffArtifacts_def Let_def logical_of_clean(1) [OF assms(1)] t
        path_clean_show [OF n])
qed

lemma place_unambiguous:
  assumes "\<not> pc_UseRepoPrefix v" "unambiguous v (logical_of es)" "list_all plain_elem es"
  shows "path_clean (place_logical v (show_path False es)) = show_path False es"
proof (cases "es = []")
  case True
  then show ?thesis
    using assms(1) by (auto simp: place_logical_def show_path_def has_prefix_def Let_def path_clean_def
        prefix_def path_elems_def split_path_def clean_elems_def clean_step_def is_abs_def
        append_eq_Cons_conv)
next
  case False
  with assms have "place_logical v (show_path False es) = show_path False es"
    by (auto simp: place_logical_def unambiguous_def logical_of_def Let_def)
  then show ?thesis
    using normal_plain [OF assms(3)] by (simp add: path_clean_show)
qed

lemma ToPhysical_below:
  assumes "is_abs (pc_physicalRoot v)" "path_clean (pc_physicalRoot v) = pc_physicalRoot v"
    and "list_all plain_elem es" "\<not> pc_UseRepoPrefix v" "unambiguous v (logical_of es)"
  shows "ToPhysical cwd v (logical_of es) =
         Inr (show_path True (path_elems (pc_physicalRoot v) @ es))"
proof -
  let ?r = "pc_physicalRoot v" and ?p = "show_path True (path_elems (pc_physicalRoot v) @ es)"
  have n: "normal True (path_elems ?r @ es)"
    using assms by (simp add: normal_rooted path_elems_abs_plain)
  have np: "normal False es" by (rule normal_plain [OF assms(3)])
  have c: "path_clean (place_logical v (StripGitDiffArtifacts (logical_of es))) = show_path False es"
    using assms(5) place_unambiguous [OF assms(4, 5, 3)] strip_unambiguous [OF assms(3)]
    by (simp add: unambiguous_def)
  have d: "\<not> has_prefix (show_path False es) dotdot"
    using assms(5) by (auto simp: unambiguous_def logical_of_def show_path_def has_prefix_def
        prefix_def split: if_splits)
  have j: "path_join [?r, show_path False es] = ?p"
    using path_join_plain [OF assms(1), of "show_path False es"] np assms(3)
    by (simp add: is_abs_show path_clean_show)
  have a: "abs_or_same cwd (path_clean ?p) = ?p"
    using n by (simp add: abs_or_same_def path_clean_show path_abs_abs is_abs_show)
  have "has_prefix ?p ?r"
    using show_path_prefix [of "path_elems ?r" es] clean_is_show [OF assms(2, 1)]
    by (simp add: has_prefix_def)
  moreover have "\<not> is_abs (place_logical v (StripGitDiffArtifacts (logical_of es)))"
    using is_abs_show [OF np] c is_abs_clean by metis
  ultimately show ?thesis
    using c d j a is_abs_show [OF np] logical_of_clean(2) [OF assms(3)] assms(5)
    by (simp add: ToPhysical_def Let_def is_abs_has_prefix unambiguous_def)
qed

text \<open>
  in a context of one repository every path below the root has a logical name, and the logical
  name, unless it is ambiguous, resolves to the path again.
\<close>

theorem logical_roundtrip:
  assumes "v = NewAgentPathContext cwd root False repo role" "is_abs root \<or> cwd_ok cwd"
    and "inside (pc_physicalRoot v) p"
  shows "\<exists>l. ToLogical cwd v p = Inr l \<and> (unambiguous v l \<longrightarrow> ToPhysical cwd v l = Inr p)"
proof -
  have u: "\<not> pc_UseRepoPrefix v" by (simp add: assms(1) NewAgentPathContext_def)
  note r = context_root [OF assms(1, 2)]
  obtain es where es: "p = show_path True (path_elems (pc_physicalRoot v) @ es)"
    "list_all plain_elem es"
    using inside_elems [OF assms(3)] r by blast
  with r u show ?thesis
    using ToLogical_below [of v es cwd] ToPhysical_below [of v es cwd] by blast
qed

theorem logical_roundtrip_witness:
  "\<exists>l. ToLogical None (NewAgentPathContext None ''/w/wt'' False ''api'' ''fix'') ''/w/wt/src/a.go'' = Inr l
     \<and> (unambiguous (NewAgentPathContext None ''/w/wt'' False ''api'' ''fix'') l \<longrightarrow>
        ToPhysical None (NewAgentPathContext None ''/w/wt'' False ''api'' ''fix'') l = Inr ''/w/wt/src/a.go'')"
proof (rule logical_roundtrip [where root = "''/w/wt''" and cwd = None])
  show "inside (pc_physicalRoot (NewAgentPathContext None ''/w/wt'' False ''api'' ''fix'')) ''/w/wt/src/a.go''"
    by code_simp
qed (auto simp: is_abs_def has_prefix_def)

text \<open>
  The check of \<open>ToLogical\<close> compares strings, so a sibling whose name extends the name of the root
  passes it and gets a logical name that leaves the root.
\<close>

lemma ToLogical_sibling:
  assumes "pc_physicalRoot v = show_path True (as @ [r])" "\<not> pc_UseRepoPrefix v"
    and "list_all plain_elem (as @ [r @ s] @ es)" "plain_elem r" "s \<noteq> ''''"
  shows "ToLogical cwd v (show_path True (as @ [r @ s] @ es)) =
         Inr (show_path False (dotdot # (r @ s) # es))"
proof -
  let ?p = "show_path True (as @ [r @ s] @ es)"
  have n: "normal True (as @ [r @ s] @ es)" "normal True (as @ [r])"
    using assms by (simp_all add: normal_rooted del: append_assoc) 
  have j: "prefix (join slash (as @ [r])) (join slash (as @ [r @ s] @ es))" for as
  proof (induction as)
    case Nil
    then show ?case by (cases es) auto
  next
    case (Cons a as)
    then show ?case by (cases as) auto
  qed
  have a: "abs_or_same cwd (path_clean ?p) = ?p"
    using n(1) by (simp only: abs_or_same_def path_clean_show path_abs_abs is_abs_show or_zero_simps)
  have "has_prefix ?p (pc_physicalRoot v)"
    using j [of as] assms(1) by (simp add: has_prefix_def show_path_def)
  moreover have "drop_common (as @ [r]) (as @ [r @ s] @ es) = ([r], (r @ s) # es)"
    using assms(5) by (induction as) auto
  then have "path_rel (pc_physicalRoot v) ?p = Some (show_path False (dotdot # (r @ s) # es))"
    using n assms(1, 4)
    by (simp only: path_rel_def is_abs_show path_elems_show) (auto simp: plain_elem_def)
  ultimately show ?thesis
    using a assms(2) by (simp add: ToLogical_def Let_def show_path_def)
qed

text \<open>
  a directory below another one, as \<^verbatim>\<open>Child\<close> builds it, stays inside it whatever the names are.
\<close>

lemma dir_path_clean: "path_clean (dir_path d) = dir_path d"
  by transfer simp

lemma not_escapes_inside:
  assumes "is_abs d" "path_clean d = d" "\<not> escapes d c" "path_clean c = c"
  shows "inside d c"
proof -
  from assms(1) have "d \<noteq> ''.''" "d \<noteq> ''''" by (auto simp: is_abs_iff)
  with assms(3) obtain rel where "path_rel d c = Some rel" "\<not> has_prefix rel dotdot"
    by (auto simp: escapes_def split: option.splits)
  then have "prefix (path_elems d) (path_elems c)" "is_abs c"
    using path_rel_inside assms(1) by (auto simp: path_rel_def split: if_splits)
  with assms(4) show ?thesis by (simp add: insideI)
qed

lemma inside_refl: "is_abs d \<Longrightarrow> path_clean d = d \<Longrightarrow> inside d d"
  by (rule insideI) auto

text \<open>
  C33: every child of a rooted directory, whatever elements it is asked for, is the directory itself
  or a clean path below it.
\<close>

theorem Child_contained:
  assumes "is_abs (dir_path d)"
  shows "inside (dir_path d) (dir_path (dir_Child d es))"
proof -
  have "dir_path (NewDirectory p) = path_clean p" for p by transfer simp
  then show ?thesis
    using assms inside_refl [OF assms dir_path_clean] not_escapes_inside [OF assms dir_path_clean]
    by (auto simp: dir_Child_def Let_def)
qed

theorem Child_contained_witness:
  "inside ''/w/t1'' (dir_path (dir_Child (NewDirectory ''/w/t1'') [''code'', ''../../../etc'']))"
proof -
  have "dir_path (NewDirectory ''/w/t1'') = ''/w/t1''" by transfer code_simp
  moreover from this have "is_abs (dir_path (NewDirectory ''/w/t1''))" by (simp add: is_abs_iff)
  ultimately show ?thesis
    using Child_contained [of "NewDirectory ''/w/t1''" "[''code'', ''../../../etc'']"] by simp
qed

text \<open>
  A file is clamped to the last element of its name instead, which may be the parent itself.
\<close>

lemma File_contained:
  assumes "is_abs (dir_path d)" "plain_elem (path_base name)"
  shows "inside (dir_path d) (dir_File d name)"
proof -
  let ?d = "dir_path d" and ?b = "path_base name"
  have b: "path_elems ?b = [?b]" "\<not> is_abs ?b" "path_clean ?b = ?b"
    using assms(2) path_elems_show [of False "[?b]"] is_abs_show [of False "[?b]"]
      path_clean_show [of False "[?b]"]
    by (simp_all add: show_path_def plain_elem_def)
  have "path_join [?d, ?b] = show_path True (path_elems ?d @ [?b])"
    using path_join_plain [OF assms(1) b(2)] b assms(2) by simp
  then have "inside ?d (path_clean (path_join [?d, ?b]))"
    using inside_show [OF assms(1), of "[?b]"] assms
    by (simp add: path_clean_show normal_rooted path_elems_abs_plain)
  then show ?thesis
    using not_escapes_inside [OF assms(1) dir_path_clean]
    by (auto simp: dir_File_def Let_def)
qed

lemma File_parent:
  assumes "dir_path d = show_path True (rs @ [r])" "list_all plain_elem (rs @ [r])"
  shows "dir_File d dotdot = show_path True rs"
proof -
  have n: "normal True (rs @ [r])" "normal True rs"
    using assms(2) by (auto simp: normal_rooted)
  have a: "is_abs (dir_path d)" using assms(1) n is_abs_show by simp
  have e: "split_path (dir_path d) = '''' # rs @ [r]"
    using split_path_show [OF n(1)] assms(1) by simp
  have "path_elems (dir_path d @ slash @ dotdot) = rs"
  proof -
    have "is_abs (dir_path d @ slash @ dotdot)" using a by (auto simp: is_abs_iff)
    then have "path_elems (dir_path d @ slash @ dotdot) = clean_elems True ('''' # rs @ [r, dotdot])"
      by (simp add: path_elems_def split_path_append e del: append_Cons append_Nil)
         (simp add: split_path_def)
    also have "\<dots> = rs"
      using assms(2) by (simp add: clean_elems_def fold_clean_plain clean_step_def plain_elem_def)
    finally show ?thesis .
  qed
  then have j: "path_join [dir_path d, dotdot] = show_path True rs"
    using a by (simp add: path_join2 path_clean_is_show) (auto simp: is_abs_iff)
  have "drop_common (rs @ [r]) rs = ([r], [])" by (induction rs) auto
  then have "path_rel (dir_path d) (show_path True rs) = Some dotdot"
    using n assms by (simp add: path_rel_def is_abs_show) (auto simp: plain_elem_def show_path_def)
  moreover have "path_base dotdot = dotdot" by code_simp
  ultimately show ?thesis
    using j n a by (auto simp: dir_File_def Let_def path_clean_show escapes_def has_prefix_def)
qed

section \<open>Shell words\<close>

text \<open>
  How a POSIX shell reads a word made of quoted and escaped text: between single quotes every
  character stands for itself, and a backslash outside quotes keeps the next one.
\<close>

fun sh_plain :: "string \<Rightarrow> string option" and sh_quoted :: "string \<Rightarrow> string option" where
  "sh_plain [] = Some []"
| "sh_plain (c # cs) =
     (if c = CHR 0x27 then sh_quoted cs
      else if c = backslash then
        (case cs of [] \<Rightarrow> None | d # ds \<Rightarrow> map_option ((#) d) (sh_plain ds))
      else if slug_char c then map_option ((#) c) (sh_plain cs)
      else None)"
| "sh_quoted [] = None"
| "sh_quoted (c # cs) = (if c = CHR 0x27 then sh_plain cs else map_option ((#) c) (sh_quoted cs))"

lemma split_on_char: "split_on [c] s = split_char c s"
proof (induction "[c]" s rule: split_on.induct)
  case (1 s)
  show ?case
  proof (cases "index_of s [c]")
    case None
    then have "c \<notin> set s"
      unfolding index_of_None_iff by (metis append_Cons append_Nil split_list sublist_appendI)
    with None show ?thesis by (simp add: split_on_None split_char_plain)
  next
    case (Some i)
    have nc: "c \<notin> set (take i s)"
    proof
      assume "c \<in> set (take i s)"
      then obtain j where "j < i" "j < length s" "s ! j = c" by (auto simp: in_set_conv_nth)
      then have "prefix [c] (drop j s)" by (simp add: Cons_nth_drop_Suc [symmetric])
      with index_of_first [OF Some \<open>j < i\<close>] show False by simp
    qed
    have s: "s = take i s @ c # drop (Suc i) s" using index_of_Some_split [OF Some] by simp
    have "split_char c s = take i s # split_char c (drop (Suc i) s)"
      by (subst s) (rule split_char_append_sep [OF nc])
    with 1 [OF _ Some] Some show ?thesis by (simp add: split_on_Some)
  qed
qed

lemma join_split_char_map:
  "join new (split_char c s) = concat (map (\<lambda>x. if x = c then new else [x]) s)"
proof (induction s)
  case (Cons x s)
  obtain l ls where "split_char c s = l # ls" by (cases "split_char c s") auto
  with Cons show ?case by (cases ls) (auto simp: join_Cons_ne)
qed simp

lemma replace_all_char:
  "replace_all s [c] new = concat (map (\<lambda>x. if x = c then new else [x]) s)"
  by (simp add: replace_all_def split_on_char join_split_char_map)

text \<open>a quoted argument is read by the shell as one word, the text that was quoted.\<close>

theorem QuoteShellArg_roundtrip: "sh_plain (QuoteShellArg s) = Some s"
proof -
  have "sh_quoted (concat (map (\<lambda>x. if x = CHR 0x27 then quote @ [backslash] @ quote @ quote
                                    else [x]) s) @ quote) = Some s"
    by (induction s) auto
  then show ?thesis by (simp only: QuoteShellArg_def replace_all_char) simp
qed

section \<open>Slugs\<close>

definition slug_text :: "string \<Rightarrow> bool" where
  "slug_text s = list_all (\<lambda>c. slug_char c \<or> c = CHR ''-'') s"

lemma dash_not_slug [simp]: "\<not> slug_char (CHR ''-'')"
  by code_simp

lemma slug_from_text: "slug_text (slug_from d s)"
  by (induction s arbitrary: d) (auto simp: slug_text_def)

lemma slug_from_dash: "slug_from True s = [] \<or> hd (slug_from True s) \<noteq> CHR ''-''"
  by (induction s) auto

fun single_dashes :: "string \<Rightarrow> bool" where
  "single_dashes (a # b # cs) = (\<not> (a = CHR ''-'' \<and> b = CHR ''-'') \<and> single_dashes (b # cs))"
| "single_dashes _ = True"

lemma single_dashes_Cons:
  "single_dashes (a # cs) = ((a = CHR ''-'' \<longrightarrow> cs = [] \<or> hd cs \<noteq> CHR ''-'') \<and> single_dashes cs)"
  by (cases cs) auto

lemma slug_from_single: "single_dashes (slug_from d s)"
  using slug_from_dash by (induction s arbitrary: d) (auto simp: single_dashes_Cons)

lemma single_dashes_append: "single_dashes (as @ bs) \<Longrightarrow> single_dashes as \<and> single_dashes bs"
  by (induction as) (auto simp: single_dashes_Cons)

lemma sublist_slug:
  assumes "sublist t s" "slug_text s" "single_dashes s"
  shows "slug_text t \<and> single_dashes t"
proof -
  from assms(1) obtain a b where "s = a @ t @ b" by (auto simp: sublist_def)
  with assms show ?thesis by (auto simp: slug_text_def dest!: single_dashes_append)
qed

lemma trim_right_prefix: "prefix (trim_right s cs) s"
  unfolding trim_right_def
  by (metis rev_rev_ident suffix_dropWhile suffix_to_prefix)

lemma trim_dashes_sublist: "sublist (trim_dashes s) s"
  unfolding trim_dashes_def trim_left_def
  by (meson prefix_imp_sublist sublist_order.order_trans suffix_dropWhile suffix_imp_sublist trim_right_prefix)

lemma trim_dashes_ends:
  "trim_dashes s \<noteq> [] \<Longrightarrow> hd (trim_dashes s) \<noteq> CHR ''-'' \<and> last (trim_dashes s) \<noteq> CHR ''-''"
proof -
  assume ne: "trim_dashes s \<noteq> []"
  let ?l = "trim_left s ''-''"
  have "last (trim_dashes s) \<noteq> CHR ''-''"
    using ne hd_dropWhile [of "\<lambda>c. c \<in> set ''-''" "rev ?l"]
    by (simp add: trim_dashes_def trim_right_def last_rev)
  moreover obtain r where "?l = trim_dashes s @ r"
    using trim_right_prefix [of ?l "''-''"] by (auto simp: trim_dashes_def prefix_def)
  with ne have "?l \<noteq> []" "hd (trim_dashes s) = hd ?l" by simp_all
  moreover from this have "hd ?l \<noteq> CHR ''-''"
    using hd_dropWhile [of "\<lambda>c. c \<in> set ''-''" s] by (simp add: trim_left_def)
  ultimately show ?thesis by simp
qed

text \<open>
  a slug has at most 30 characters, all of them lower-case letters, digits and dashes, with no
  dash at either end and never two in a row.
\<close>

theorem Slugify_type:
  "length (Slugify s) \<le> 30 \<and> slug_text (Slugify s) \<and> single_dashes (Slugify s) \<and>
   (Slugify s = '''' \<or> (hd (Slugify s) \<noteq> CHR ''-'' \<and> last (Slugify s) \<noteq> CHR ''-''))"
proof -
  let ?t = "slug_from False (to_lower s)"
  have sub: "sublist (Slugify s) (take 30 (trim_dashes ?t))"
    by (simp add: Slugify_def trim_dashes_sublist)
  then have "sublist (Slugify s) ?t"
    by (meson sublist_order.order_trans sublist_take trim_dashes_sublist)
  then have "slug_text (Slugify s)" "single_dashes (Slugify s)"
    using sublist_slug [OF _ slug_from_text slug_from_single] by auto
  moreover have "length (Slugify s) \<le> 30"
    using sublist_length_le [OF sub] by simp
  moreover have "Slugify s = '''' \<or> (hd (Slugify s) \<noteq> CHR ''-'' \<and> last (Slugify s) \<noteq> CHR ''-'')"
    unfolding Slugify_def using trim_dashes_ends by blast
  ultimately show ?thesis by simp
qed

section \<open>Resolved and canonical paths\<close>

text \<open>
  whatever the symbolic links below the root are, a path \<^verbatim>\<open>ResolveSafePath\<close> accepts lies inside
  the resolved root.
\<close>

theorem ResolveSafePath_contained:
  assumes "is_abs root" "\<And>p q. evalsym p = Some q \<Longrightarrow> is_abs p \<Longrightarrow> is_abs q"
    and "ResolveSafePath evalsym cwd root sub = Inr t"
  shows "\<exists>r. eval_or_abs evalsym cwd root = Some r \<and> inside (path_clean r) t"
proof -
  from assms(3) obtain r u rel where r: "eval_or_abs evalsym cwd root = Some r"
    and t: "t = path_clean u" "path_rel (path_clean r) t = Some rel" "\<not> has_prefix rel dotdot"
    by (auto simp: ResolveSafePath_def Let_def split: option.splits if_splits)
  have "is_abs r"
    using r assms(1, 2) by (auto simp: eval_or_abs_def path_abs_def split: option.splits)
  with t have "is_abs t" by (auto simp: path_rel_def split: if_splits)
  with r t path_rel_inside [OF t(2, 3)] show ?thesis by (auto intro!: insideI)
qed

theorem ResolveSafePath_contained_witness:
  "\<exists>r. eval_or_abs Some None ''/w/t1'' = Some r \<and> inside (path_clean r) ''/w/t1/specs/a.md''"
proof (rule ResolveSafePath_contained [where sub = "''specs/./a.md''"])
  show "ResolveSafePath Some None ''/w/t1'' ''specs/./a.md'' = Inr ''/w/t1/specs/a.md''" by code_simp
qed (auto simp: is_abs_iff)

text \<open>One leading slash is removed before the text is cleaned, so a second one makes it absolute.\<close>

lemma Canonicalize_double_slash:
  "CanonicalizeRepoRelative ''//etc/passwd'' ''api'' ''main'' = Some ''/etc/passwd''"
  by code_simp

text \<open>
  In a context of several repositories a path of the main checkout does not translate back: its
  logical name keeps the directory of the checkout, which the resolution inserts again.
\<close>

lemma main_checkout_not_translated:
  "ToPhysical None (NewAgentPathContext None ''/w/code/repos'' True '''' '''') ''api/x.go''
     = Inr ''/w/code/repos/api/main/x.go''"
  "ToLogical None (NewAgentPathContext None ''/w/code/repos'' True '''' '''') ''/w/code/repos/api/main/x.go''
     = Inr ''api/main/x.go''"
  by code_simp+

end
