(* ===== verification/Patch_Blocks.thy ===== *)
theory Patch_Blocks
  imports Go_Prelude
begin

text \<open>
  The text formats of package \<^verbatim>\<open>orchestrator/patch\<close>: search and replace blocks
  (\<^verbatim>\<open>search_replace.go\<close>), the extraction of a patch from a model answer and the clean-up of a diff
  (\<^verbatim>\<open>diff_helpers.go\<close>), and the count check of its hunks (\<^verbatim>\<open>validator.go\<close>).
\<close>

section \<open>Edit blocks\<close>

record edit_block =
  eb_Filepath :: string
  eb_Search :: string
  eb_Replace :: string

text \<open>The reason of a validation error: a fixed text, or the arguments of a formatted one.\<close>

datatype ve_reason =
    Reason string
  | HunkMismatch string int int int int
  | HunkStartBeyond int nat
  | AmbiguousMatch nat
  | CannotReadFile string
  | RedundantPrefix string
  | SecurityBoundary string

record validation_error =
  ve_RepoName :: string
  ve_Filepath :: string
  ve_Reason :: ve_reason
  ve_IsFatal :: bool

definition fatal_error :: "string \<Rightarrow> ve_reason \<Rightarrow> validation_error" where
  "fatal_error file reason =
     \<lparr>ve_RepoName = '''', ve_Filepath = file, ve_Reason = reason, ve_IsFatal = True\<rparr>"

datatype parse_mode = StateNormal | StateSearch | StateReplace

record parse_state =
  ps_mode :: parse_mode
  ps_search :: "string list"
  ps_replace :: "string list"
  ps_last :: string
  ps_block :: edit_block
  ps_blocks :: "edit_block list"

definition empty_block :: edit_block where
  "empty_block = \<lparr>eb_Filepath = '''', eb_Search = '''', eb_Replace = ''''\<rparr>"

definition parse_start :: parse_state where
  "parse_start =
     \<lparr>ps_mode = StateNormal, ps_search = [], ps_replace = [], ps_last = '''',
      ps_block = empty_block, ps_blocks = []\<rparr>"

abbreviation search_mark :: string where "search_mark \<equiv> ''<<<<<<< SEARCH''"
abbreviation divider_mark :: string where "divider_mark \<equiv> ''=======''"
abbreviation replace_mark :: string where "replace_mark \<equiv> ''>>>>>>> REPLACE''"
abbreviation fence :: string where "fence \<equiv> ''```''"

text \<open>The heuristic that finds the file name in the last non-empty line.\<close>

definition clean_file_line :: "string \<Rightarrow> string" where
  "clean_file_line l =
     trim_suffix (trim_prefix (trim_space
       (trim_prefix (trim_prefix (trim_prefix l ''File: '') ''File:'') ''file: '')) ''`'') ''`''"

text \<open>The lines of a side of a block, each with its newline.\<close>

definition block_text :: "string list \<Rightarrow> string" where
  "block_text ls = (if ls = [] then '''' else join NL ls @ NL)"

definition parse_line :: "string \<Rightarrow> parse_state \<Rightarrow> parse_state" where
  "parse_line line st =
     (let trimmed = trim_space line
      in case ps_mode st of
           StateNormal \<Rightarrow>
             if has_prefix trimmed search_mark
             then st\<lparr>ps_mode := StateSearch, ps_search := [], ps_replace := [],
                     ps_block := (if ps_last st \<noteq> ''''
                                  then empty_block\<lparr>eb_Filepath := clean_file_line (ps_last st)\<rparr>
                                  else empty_block)\<rparr>
             else if trimmed \<noteq> '''' \<and> trimmed \<noteq> fence \<and> trimmed \<noteq> ''```diff''
             then st\<lparr>ps_last := trimmed\<rparr>
             else st
         | StateSearch \<Rightarrow>
             if has_prefix trimmed divider_mark then st\<lparr>ps_mode := StateReplace\<rparr>
             else st\<lparr>ps_search := ps_search st @ [line]\<rparr>
         | StateReplace \<Rightarrow>
             if has_prefix trimmed replace_mark
             then (let b = (ps_block st)\<lparr>eb_Search := block_text (ps_search st),
                                         eb_Replace := block_text (ps_replace st)\<rparr>
                   in st\<lparr>ps_mode := StateNormal, ps_block := b, ps_blocks := ps_blocks st @ [b]\<rparr>)
             else st\<lparr>ps_replace := ps_replace st @ [line]\<rparr>)"

definition ParseSearchReplace :: "string \<Rightarrow> edit_block list" where
  "ParseSearchReplace data = ps_blocks (fold parse_line (split_lines data) parse_start)"

section \<open>Printing and parsing blocks\<close>

text \<open>The documented format of a block: the file name, then the two sides between the marks.\<close>

definition text_lines :: "string \<Rightarrow> string list" where
  "text_lines t = butlast (split_lines t)"

definition block_lines :: "edit_block \<Rightarrow> string list" where
  "block_lines b =
     [eb_Filepath b, search_mark] @ text_lines (eb_Search b) @ [divider_mark] @
     text_lines (eb_Replace b) @ [replace_mark]"

definition print_blocks :: "edit_block list \<Rightarrow> string" where
  "print_blocks bs = join NL (concat (map block_lines bs))"

definition whole_lines :: "string \<Rightarrow> bool" where
  "whole_lines t = (t = '''' \<or> last t = newline)"

definition printable :: "edit_block \<Rightarrow> bool" where
  "printable b =
     (let f = eb_Filepath b in
      f \<noteq> '''' \<and> f \<noteq> fence \<and> f \<noteq> ''```diff'' \<and> newline \<notin> set f \<and> trim_space f = f \<and>
      clean_file_line f = f \<and> \<not> has_prefix f search_mark \<and>
      whole_lines (eb_Search b) \<and> whole_lines (eb_Replace b) \<and>
      list_all (\<lambda>l. \<not> has_prefix (trim_space l) divider_mark) (text_lines (eb_Search b)) \<and>
      list_all (\<lambda>l. \<not> has_prefix (trim_space l) replace_mark) (text_lines (eb_Replace b)))"

lemma split_lines_snoc: "split_lines (s @ NL) = split_lines s @ [[]]"
  by (induction s) (auto split: list.splits)

lemma block_text_lines: "whole_lines t \<Longrightarrow> block_text (text_lines t) = t"
proof (cases "t = ''''")
  case False
  assume "whole_lines t"
  with False obtain s where t: "t = s @ NL"
    unfolding whole_lines_def by (metis append_butlast_last_id)
  then show ?thesis
    by (simp add: text_lines_def split_lines_snoc block_text_def join_split_char)
qed (simp add: block_text_def text_lines_def)

lemma text_lines_no_newline: "l \<in> set (text_lines t) \<Longrightarrow> newline \<notin> set l"
  unfolding text_lines_def using split_char_no_sep in_set_butlastD by metis

lemma trim_marks [simp]:
  "trim_space search_mark = search_mark" "trim_space divider_mark = divider_mark"
  "trim_space replace_mark = replace_mark"
  by code_simp+

lemma has_prefix_refl [simp]: "has_prefix s s"
  by (simp add: has_prefix_def)

lemma fold_search:
  "ps_mode st = StateSearch \<Longrightarrow> list_all (\<lambda>l. \<not> has_prefix (trim_space l) divider_mark) ls \<Longrightarrow>
   fold parse_line ls st = st\<lparr>ps_search := ps_search st @ ls\<rparr>"
  by (induction ls arbitrary: st) (auto simp: parse_line_def Let_def)

lemma fold_replace:
  "ps_mode st = StateReplace \<Longrightarrow> list_all (\<lambda>l. \<not> has_prefix (trim_space l) replace_mark) ls \<Longrightarrow>
   fold parse_line ls st = st\<lparr>ps_replace := ps_replace st @ ls\<rparr>"
  by (induction ls arbitrary: st) (auto simp: parse_line_def Let_def)

lemma parse_file_line:
  assumes "ps_mode st = StateNormal" "printable b"
  shows "parse_line (eb_Filepath b) st = st\<lparr>ps_last := eb_Filepath b\<rparr>"
  using assms by (simp add: parse_line_def printable_def Let_def)

lemma fold_body:
  assumes "ps_mode st = StateNormal" "ps_last st \<noteq> ''''" "printable b"
  defines "b' \<equiv> b\<lparr>eb_Filepath := clean_file_line (ps_last st)\<rparr>"
  shows "ps_mode (fold parse_line (tl (block_lines b)) st) = StateNormal \<and>
         ps_blocks (fold parse_line (tl (block_lines b)) st) = ps_blocks st @ [b']"
proof -
  let ?s2 = "st\<lparr>ps_mode := StateSearch, ps_search := [], ps_replace := [],
                ps_block := empty_block\<lparr>eb_Filepath := clean_file_line (ps_last st)\<rparr>\<rparr>"
  let ?s3 = "?s2\<lparr>ps_search := text_lines (eb_Search b)\<rparr>"
  let ?s4 = "?s3\<lparr>ps_mode := StateReplace\<rparr>"
  let ?s5 = "?s4\<lparr>ps_replace := text_lines (eb_Replace b)\<rparr>"
  have f: "whole_lines (eb_Search b)" "whole_lines (eb_Replace b)"
    "list_all (\<lambda>l. \<not> has_prefix (trim_space l) divider_mark) (text_lines (eb_Search b))"
    "list_all (\<lambda>l. \<not> has_prefix (trim_space l) replace_mark) (text_lines (eb_Replace b))"
    using assms(3) by (simp_all add: printable_def Let_def)
  have "parse_line search_mark st = ?s2"
    using assms(1, 2) by (simp add: parse_line_def)
  moreover have "fold parse_line (text_lines (eb_Search b)) ?s2 = ?s3"
    using fold_search [of ?s2] f by simp
  moreover have "parse_line divider_mark ?s3 = ?s4"
    by (simp add: parse_line_def)
  moreover have "fold parse_line (text_lines (eb_Replace b)) ?s4 = ?s5"
    using fold_replace [of ?s4] f by simp
  moreover have "tl (block_lines b) = [search_mark] @ text_lines (eb_Search b) @ [divider_mark] @
      text_lines (eb_Replace b) @ [replace_mark]"
    by (simp add: block_lines_def)
  ultimately have "fold parse_line (tl (block_lines b)) st = parse_line replace_mark ?s5"
    by (simp only: fold_append comp_apply fold.simps id_apply)
  moreover have "ps_mode (parse_line replace_mark ?s5) = StateNormal \<and>
      ps_blocks (parse_line replace_mark ?s5) = ps_blocks st @ [b']"
    using f(1, 2) by (simp add: parse_line_def Let_def block_text_lines empty_block_def b'_def)
  ultimately show ?thesis by simp
qed

lemma fold_block:
  assumes "ps_mode st = StateNormal" "printable b"
  shows "ps_mode (fold parse_line (block_lines b) st) = StateNormal \<and>
         ps_blocks (fold parse_line (block_lines b) st) = ps_blocks st @ [b]"
proof -
  have "block_lines b = eb_Filepath b # tl (block_lines b)" by (simp add: block_lines_def)
  then have "fold parse_line (block_lines b) st =
      fold parse_line (tl (block_lines b)) (st\<lparr>ps_last := eb_Filepath b\<rparr>)"
    by (metis fold_simps(2) parse_file_line [OF assms])
  moreover have "eb_Filepath b \<noteq> ''''" "clean_file_line (eb_Filepath b) = eb_Filepath b"
    using assms(2) by (simp_all add: printable_def Let_def)
  ultimately show ?thesis
    using fold_body [of "st\<lparr>ps_last := eb_Filepath b\<rparr>" b] assms by simp
qed

lemma fold_blocks:
  "ps_mode st = StateNormal \<Longrightarrow> list_all printable bs \<Longrightarrow>
   ps_blocks (fold parse_line (concat (map block_lines bs)) st) = ps_blocks st @ bs"
proof (induction bs arbitrary: st)
  case (Cons b bs)
  then show ?case using fold_block [of st b] by (simp add: fold_append)
qed simp

text \<open>
  C32: blocks printed in the documented format are parsed back unchanged, when no line of a search
  side starts with the divider, none of a replace side with the end mark, both sides end their
  lines, and the file name survives the clean-up of its line.
\<close>

theorem ParseSearchReplace_roundtrip:
  assumes "list_all printable bs"
  shows "ParseSearchReplace (print_blocks bs) = bs"
proof -
  let ?ls = "concat (map block_lines bs)"
  have "newline \<notin> set l" if "l \<in> set (block_lines b)" "printable b" for l b
    using that text_lines_no_newline by (auto simp: block_lines_def printable_def Let_def)
  then have "\<forall>l \<in> set ?ls. newline \<notin> set l"
    using assms by (auto simp: list_all_iff)
  then have "split_lines (print_blocks bs) = (if ?ls = [] then [''''] else ?ls)"
    by (cases "?ls = []") (simp_all add: print_blocks_def split_char_join del: concat_eq_Nil_conv)
  moreover have "bs = []" if "?ls = []"
    using that by (cases bs) (simp_all add: block_lines_def)
  moreover have "parse_line '''' parse_start = parse_start"
    by code_simp
  ultimately show ?thesis
    using fold_blocks [OF _ assms, of parse_start]
    by (auto simp: ParseSearchReplace_def) (auto simp: parse_start_def)
qed

theorem ParseSearchReplace_roundtrip_witness:
  "ParseSearchReplace (print_blocks
     [\<lparr>eb_Filepath = ''a/x.go'', eb_Search = ''old'' @ NL, eb_Replace = ''  new'' @ NL @ NL\<rparr>,
      \<lparr>eb_Filepath = ''b.go'', eb_Search = '''', eb_Replace = ''text'' @ NL\<rparr>]) =
     [\<lparr>eb_Filepath = ''a/x.go'', eb_Search = ''old'' @ NL, eb_Replace = ''  new'' @ NL @ NL\<rparr>,
      \<lparr>eb_Filepath = ''b.go'', eb_Search = '''', eb_Replace = ''text'' @ NL\<rparr>]"
  by (rule ParseSearchReplace_roundtrip) code_simp

text \<open>
  A fence with a language between the file name and the block is taken for the file name.
\<close>

lemma fence_taken_for_file:
  assumes "newline \<notin> set lang" "trim_space (fence @ lang) = fence @ lang" "lang \<noteq> ''''"
    "lang \<noteq> ''diff''" "\<not> has_suffix lang ''`''" "printable b"
  shows "ParseSearchReplace (join NL ([eb_Filepath b, fence @ lang] @ tl (block_lines b))) =
         [b\<lparr>eb_Filepath := ''``'' @ lang\<rparr>]"
proof -
  let ?ls = "[eb_Filepath b, fence @ lang] @ tl (block_lines b)"
  let ?st = "parse_start\<lparr>ps_last := fence @ lang\<rparr>"
  have "\<forall>l \<in> set ?ls. newline \<notin> set l"
    using assms(1, 6) text_lines_no_newline by (auto simp: block_lines_def printable_def Let_def)
  then have "split_lines (join NL ?ls) = ?ls" by (intro split_char_join) auto
  moreover have "ps_mode parse_start = StateNormal" by (simp add: parse_start_def)
  moreover have "parse_line (fence @ lang) (parse_start\<lparr>ps_last := eb_Filepath b\<rparr>) = ?st"
    using assms(2-4) by (simp add: parse_line_def parse_start_def has_prefix_def)
  ultimately have "ParseSearchReplace (join NL ?ls) = ps_blocks (fold parse_line (tl (block_lines b)) ?st)"
    using parse_file_line [of parse_start b] assms(6) by (simp add: ParseSearchReplace_def)
  moreover have "clean_file_line (fence @ lang) = ''``'' @ lang"
  proof -
    have "\<not> has_suffix (''``'' @ lang) ''`''"
      using assms(3, 5) by (cases lang rule: rev_cases) (auto simp: has_suffix_def suffix_def)
    then show ?thesis
      using assms(2) by (simp add: clean_file_line_def trim_prefix_def trim_suffix_def has_prefix_def)
  qed
  ultimately show ?thesis
    using fold_body [of ?st b] assms(6) by (simp add: parse_start_def)
qed

end
