(* ===== verification/Patch_Hunks.thy ===== *)
theory Patch_Hunks
  imports Patch_Blocks
begin

text \<open>
  Unified diffs: extracting a patch from a model answer and cleaning it (\<^verbatim>\<open>diff_helpers.go\<close>), and
  the check of its hunk counts (\<^verbatim>\<open>validator.go\<close>). The regular expressions of the source are matchers
  that read the text from left to right, which is what the expressions allow: every repetition in
  them is ended by a character it does not contain.
\<close>

section \<open>diff_helpers.go\<close>

text \<open>The first non-empty string among the keys a model may have used.\<close>

definition patch_field :: "gomap \<Rightarrow> string" where
  "patch_field m =
     (case as_string (get_key m ''patch'') of
        Some (c # cs) \<Rightarrow> c # cs
      | _ \<Rightarrow>
        (case as_string (get_key m ''patch_text'') of
           Some (c # cs) \<Rightarrow> c # cs
         | _ \<Rightarrow> (case as_string (get_key m ''diff'') of Some (c # cs) \<Rightarrow> c # cs | _ \<Rightarrow> '''')))"

text \<open>The last line, but not the first, that starts with a fence; or the last line.\<close>

definition fence_end :: "string list \<Rightarrow> nat" where
  "fence_end ls =
     (case find (\<lambda>i. has_prefix (trim_space (ls ! i)) fence) (rev [1..<length ls]) of
        None \<Rightarrow> length ls - 1
      | Some i \<Rightarrow> i)"

definition strip_fence :: "string \<Rightarrow> string" where
  "strip_fence p =
     (if has_prefix p fence
      then (let ls = split_lines p
            in if 2 \<le> length ls then join NL (drop 1 (take (fence_end ls) ls)) else p)
      else p)"

definition ExtractPatch :: "gomap option \<Rightarrow> string" where
  "ExtractPatch parsed =
     (case parsed of
        None \<Rightarrow> ''''
      | Some m \<Rightarrow>
          let p = patch_field m
          in if p = '''' then '''' else trim_space (strip_fence (trim_space p)) @ NL)"

text \<open>
  \<^verbatim>\<open>([ab])/code/repos/[^/]+/(?:worktrees/[^/]+|[^/]+)/\<close>: the text behind the match, if any.
\<close>

definition skip_segment :: "string \<Rightarrow> string option" where
  "skip_segment s =
     (case index_of s ''/'' of
        None \<Rightarrow> None
      | Some i \<Rightarrow> if i = 0 then None else Some (drop (Suc i) s))"

definition match_repo_prefix :: "string \<Rightarrow> string option" where
  "match_repo_prefix s =
     (if s \<noteq> '''' \<and> (hd s = CHR ''a'' \<or> hd s = CHR ''b'') \<and> has_prefix (tl s) ''/code/repos/''
      then (case skip_segment (drop 13 s) of
              None \<Rightarrow> None
            | Some r \<Rightarrow>
                if has_prefix r ''worktrees/'' \<and> skip_segment (drop 10 r) \<noteq> None
                then skip_segment (drop 10 r) else skip_segment r)
      else None)"

lemma skip_segment_shorter: "skip_segment s = Some r \<Longrightarrow> length r < length s"
  using index_of_Some_split [of s "''/''"]
  by (auto simp: skip_segment_def split: option.splits if_splits)
     (metis One_nat_def diff_less index_of.simps(1) length_greater_0_conv list.distinct(1) option.distinct(1)
        zero_less_Suc)

lemma match_repo_shorter: "match_repo_prefix s = Some r \<Longrightarrow> length r < length s"
  by (auto simp: match_repo_prefix_def split: if_splits option.splits
      dest!: skip_segment_shorter)

function CleanPatchPaths :: "string \<Rightarrow> string" where
  "CleanPatchPaths s =
     (case s of
        [] \<Rightarrow> []
      | c # cs \<Rightarrow>
          (case match_repo_prefix s of
             Some r \<Rightarrow> c # CHR ''/'' # CleanPatchPaths r
           | None \<Rightarrow> c # CleanPatchPaths cs))"
  by pat_completeness auto
termination
  by (relation "measure length") (auto dest!: match_repo_shorter)

declare CleanPatchPaths.simps [simp del]

definition validDiffHeaders :: "string list" where
  "validDiffHeaders =
     [''diff --git '', ''index '', ''--- '', ''+++ '', ''@@ '', ''new file mode '',
      ''deleted file mode '', ''similarity index '', ''rename from '', ''rename to '', ''copy from '',
      ''copy to '', ''old mode '', ''new mode '', [CHR 0x5C] @ '' No newline at end of file'']"

definition is_diff_header :: "string \<Rightarrow> bool" where
  "is_diff_header line = list_ex (has_prefix line) validDiffHeaders"

text \<open>One line: whether the next one is in a hunk, and whether the line is kept.\<close>

definition junk_line :: "bool \<Rightarrow> string \<Rightarrow> bool \<times> bool" where
  "junk_line in_hunk line =
     (if is_diff_header line then (has_prefix line ''@@ '', True)
      else if in_hunk then
        (let ok = has_prefix line ''+'' \<or> has_prefix line ''-'' \<or> has_prefix line '' '' \<or> line = ''''
         in (ok, ok))
      else (False, trim_space line = ''''))"

fun keep_lines :: "bool \<Rightarrow> string list \<Rightarrow> string list" where
  "keep_lines in_hunk [] = []"
| "keep_lines in_hunk (l # ls) =
     (let (h, kept) = junk_line in_hunk l
      in (if kept then [l] else []) @ keep_lines h ls)"

definition CleanJunkLines :: "string \<Rightarrow> string" where
  "CleanJunkLines text = join NL (keep_lines False (split_lines text)) @ NL"

section \<open>Hunk headers\<close>

definition is_digit :: "char \<Rightarrow> bool" where
  "is_digit c = (let n = of_char c :: nat in 48 \<le> n \<and> n \<le> 57)"

text \<open>\<^verbatim>\<open>(\d+)\<close>, \<^verbatim>\<open>(?:,(\d+))?\<close> and a literal.\<close>

definition take_digits :: "string \<Rightarrow> (string \<times> string) option" where
  "take_digits s =
     (let d = takeWhile is_digit s in if d = '''' then None else Some (d, dropWhile is_digit s))"

definition take_optional :: "string \<Rightarrow> string \<times> string" where
  "take_optional s =
     (case s of
        c # cs \<Rightarrow>
          if c = CHR '','' then (case take_digits cs of Some (d, r) \<Rightarrow> (d, r) | None \<Rightarrow> ('''', s))
          else ('''', s)
      | [] \<Rightarrow> ('''', s))"

definition hunk_header :: "string \<Rightarrow> (string \<times> string \<times> string \<times> string) option" where
  "hunk_header line =
     (case cut_prefix line ''@@ -'' of
        None \<Rightarrow> None
      | Some s1 \<Rightarrow>
          case take_digits s1 of
            None \<Rightarrow> None
          | Some (old_start, s2) \<Rightarrow>
              let (old_len, s3) = take_optional s2
              in case cut_prefix s3 '' +'' of
                   None \<Rightarrow> None
                 | Some s4 \<Rightarrow>
                     case take_digits s4 of
                       None \<Rightarrow> None
                     | Some (new_start, s5) \<Rightarrow>
                         let (new_len, s6) = take_optional s5
                         in if has_prefix s6 '' @@'' then Some (old_start, old_len, new_start, new_len)
                            else None)"

text \<open>\<^verbatim>\<open>fmt.Sscanf(s, "%d", &n)\<close> on digits: a number beyond 64 bits leaves the variable as it is.\<close>

definition digits_value :: "string \<Rightarrow> int" where
  "digits_value s = foldl (\<lambda>acc c. 10 * acc + (int (of_char c) - 48)) 0 s"

definition scan_int :: "string \<Rightarrow> int option" where
  "scan_int s = (let n = digits_value s in if n < 2 ^ 63 then Some n else None)"

definition scan_len :: "int \<Rightarrow> string \<Rightarrow> int" where
  "scan_len old s = (if s = '''' then 1 else or_zero old (scan_int s))"

text \<open>\<^verbatim>\<open>^\+\+\+ (?:b/)?(.*)$\<close> and the clean-up of the name.\<close>

definition header_file :: "string \<Rightarrow> string" where
  "header_file line =
     (let f = trim_prefix (trim_space (trim_prefix (drop 4 line) ''b/'')) ''b/''
      in if f = ''/dev/null'' then '''' else f)"

section \<open>Hunk counts\<close>

record hunk_state =
  hs_file :: string
  hs_inHunk :: bool
  hs_header :: string
  hs_expOld :: int
  hs_expNew :: int
  hs_old :: int
  hs_new :: int
  hs_errors :: "validation_error list"

definition hunk_start :: hunk_state where
  "hunk_start =
     \<lparr>hs_file = '''', hs_inHunk = False, hs_header = '''', hs_expOld = 0, hs_expNew = 0, hs_old = 0,
      hs_new = 0, hs_errors = []\<rparr>"

definition flushHunk :: "hunk_state \<Rightarrow> hunk_state" where
  "flushHunk s =
     (if \<not> hs_inHunk s then s
      else s\<lparr>hs_errors := hs_errors s @
               (if hs_old s \<noteq> hs_expOld s \<or> hs_new s \<noteq> hs_expNew s
                then [fatal_error (hs_file s)
                        (HunkMismatch (hs_header s) (hs_expOld s) (hs_expNew s) (hs_old s) (hs_new s))]
                else []),
             hs_inHunk := False\<rparr>)"

definition open_hunk :: "string \<Rightarrow> hunk_state \<Rightarrow> hunk_state" where
  "open_hunk line s =
     (case hunk_header line of
        None \<Rightarrow> s
      | Some (_, old_len, _, new_len) \<Rightarrow>
          s\<lparr>hs_inHunk := True, hs_header := trim_space line,
            hs_expOld := scan_len (hs_expOld s) old_len, hs_expNew := scan_len (hs_expNew s) new_len,
            hs_old := 0, hs_new := 0\<rparr>)"

definition count_line :: "string \<Rightarrow> hunk_state \<Rightarrow> hunk_state" where
  "count_line line s =
     (if has_prefix line ''-'' then s\<lparr>hs_old := hs_old s + 1\<rparr>
      else if has_prefix line ''+'' then s\<lparr>hs_new := hs_new s + 1\<rparr>
      else if has_prefix line '' '' then s\<lparr>hs_old := hs_old s + 1, hs_new := hs_new s + 1\<rparr>
      else if has_prefix line [CHR 0x5C] then s
      else if line = '''' \<and> (hs_old s < hs_expOld s \<or> hs_new s < hs_expNew s)
      then s\<lparr>hs_old := hs_old s + 1, hs_new := hs_new s + 1\<rparr>
      else s)"

definition hunk_line :: "string \<Rightarrow> hunk_state \<Rightarrow> hunk_state" where
  "hunk_line line s =
     (if has_prefix line ''+++ '' then (flushHunk s)\<lparr>hs_file := header_file line\<rparr>
      else if has_prefix line ''--- '' then flushHunk s
      else if has_prefix line ''diff '' then flushHunk s
      else if has_prefix line ''@@ '' then open_hunk line (flushHunk s)
      else if hs_inHunk s then count_line line s
      else s)"

definition ValidateHunkCounts :: "string \<Rightarrow> validation_error list" where
  "ValidateHunkCounts text = hs_errors (flushHunk (fold hunk_line (split_lines text) hunk_start))"

section \<open>What the count check finds\<close>

text \<open>The diff format: entries of a hunk, its header with the two lengths, a file with its hunks.\<close>

datatype hunk_entry = Context string | Removed string | Added string | NoNewline

fun entry_line :: "hunk_entry \<Rightarrow> string" where
  "entry_line (Context s) = '' '' @ s"
| "entry_line (Removed s) = ''-'' @ s"
| "entry_line (Added s) = ''+'' @ s"
| "entry_line NoNewline = [CHR 0x5C] @ '' No newline at end of file''"

fun entry_old :: "hunk_entry \<Rightarrow> int" where
  "entry_old (Context s) = 1" | "entry_old (Removed s) = 1" | "entry_old (Added s) = 0"
| "entry_old NoNewline = 0"

fun entry_new :: "hunk_entry \<Rightarrow> int" where
  "entry_new (Context s) = 1" | "entry_new (Removed s) = 0" | "entry_new (Added s) = 1"
| "entry_new NoNewline = 0"

text \<open>A removed or an added line whose text makes the diff line look like a file header.\<close>

fun entry_ok :: "hunk_entry \<Rightarrow> bool" where
  "entry_ok (Context s) = (newline \<notin> set s)"
| "entry_ok (Removed s) = (newline \<notin> set s \<and> \<not> has_prefix s ''-- '')"
| "entry_ok (Added s) = (newline \<notin> set s \<and> \<not> has_prefix s ''++ '')"
| "entry_ok NoNewline = True"

record diff_hunk =
  dh_oldStart :: nat
  dh_oldLen :: nat
  dh_newStart :: nat
  dh_newLen :: nat
  dh_heading :: string
  dh_body :: "hunk_entry list"

definition header_line :: "diff_hunk \<Rightarrow> string" where
  "header_line h =
     ''@@ -'' @ nat_to_string (dh_oldStart h) @ '','' @ nat_to_string (dh_oldLen h) @ '' +'' @
     nat_to_string (dh_newStart h) @ '','' @ nat_to_string (dh_newLen h) @ '' @@'' @ dh_heading h"

definition hunk_lines :: "diff_hunk \<Rightarrow> string list" where
  "hunk_lines h = header_line h # map entry_line (dh_body h)"

definition old_count :: "hunk_entry list \<Rightarrow> int" where
  "old_count es = sum_list (map entry_old es)"

definition new_count :: "hunk_entry list \<Rightarrow> int" where
  "new_count es = sum_list (map entry_new es)"

definition hunk_error :: "string \<Rightarrow> diff_hunk \<Rightarrow> validation_error list" where
  "hunk_error f h =
     (if old_count (dh_body h) = int (dh_oldLen h) \<and> new_count (dh_body h) = int (dh_newLen h) then []
      else [fatal_error f (HunkMismatch (trim_space (header_line h)) (int (dh_oldLen h))
              (int (dh_newLen h)) (old_count (dh_body h)) (new_count (dh_body h)))])"

definition header_ok :: "diff_hunk \<Rightarrow> bool" where
  "header_ok h = (dh_oldLen h < 2 ^ 63 \<and> dh_newLen h < 2 ^ 63 \<and> newline \<notin> set (dh_heading h))"

definition file_ok :: "string \<Rightarrow> bool" where
  "file_ok f =
     (trim_space f = f \<and> \<not> has_prefix f ''b/'' \<and> f \<noteq> ''/dev/null'' \<and> newline \<notin> set f)"

definition print_diff :: "string \<Rightarrow> diff_hunk list \<Rightarrow> string" where
  "print_diff f hs = join NL ([''--- a/'' @ f, ''+++ b/'' @ f] @ concat (map hunk_lines hs))"

text \<open>Numbers in a header are read back.\<close>

lemma digit_char_digit: "n < 10 \<Longrightarrow> is_digit (digit_char n) \<and> int (of_char (digit_char n)) = 48 + int n"
  by (simp add: is_digit_def digit_char_def Let_def)

lemma nat_to_string_digits: "nat_to_string n \<noteq> [] \<and> list_all is_digit (nat_to_string n)"
proof (induction n rule: nat_to_string.induct)
  case (1 n)
  then show ?case
    using digit_char_digit [of n] digit_char_digit [of "n mod 10"]
    by (subst (1 2) nat_to_string.simps) (simp add: nat_to_string.simps [of n])
qed

lemma digits_value_nat: "digits_value (nat_to_string n) = int n"
proof (induction n rule: nat_to_string.induct)
  case (1 n)
  have "int (n div 10) * 10 + int (n mod 10) = int n"
    by (metis div_mult_mod_eq of_nat_add of_nat_mult of_nat_numeral)
  with 1 show ?case
    using digit_char_digit [of n] digit_char_digit [of "n mod 10"]
    by (simp add: nat_to_string.simps [of n] digits_value_def)
qed

lemma take_digits_nat:
  assumes "\<not> is_digit c"
  shows "take_digits (nat_to_string n @ c # r) = Some (nat_to_string n, c # r)"
proof -
  have d: "\<forall>x \<in> set (nat_to_string n). is_digit x" "nat_to_string n \<noteq> []"
    using nat_to_string_digits [of n] by (auto simp: list_all_iff)
  then have "takeWhile is_digit (nat_to_string n @ c # r) = nat_to_string n"
    "dropWhile is_digit (nat_to_string n @ c # r) = c # r"
    using assms by (simp_all add: takeWhile_append dropWhile_append)
  with d show ?thesis by (simp add: take_digits_def)
qed

lemma not_digits [simp]: "\<not> is_digit (CHR '','')" "\<not> is_digit (CHR '' '')"
  by code_simp+

lemma hunk_header_line:
  "hunk_header (header_line h) =
     Some (nat_to_string (dh_oldStart h), nat_to_string (dh_oldLen h),
           nat_to_string (dh_newStart h), nat_to_string (dh_newLen h))"
  by (simp add: hunk_header_def header_line_def cut_prefix_def has_prefix_def take_digits_nat
      take_optional_def)

lemma scan_len_nat: "n < 2 ^ 63 \<Longrightarrow> scan_len old (nat_to_string n) = int n"
proof -
  assume "n < 2 ^ 63"
  then have "int n < 2 ^ 63" by (metis of_nat_less_iff of_nat_numeral of_nat_power)
  then show ?thesis
    using nat_to_string_digits [of n]
    by (simp add: scan_len_def scan_int_def digits_value_nat)
qed

lemma count_entries:
  "hs_inHunk s \<Longrightarrow> list_all entry_ok es \<Longrightarrow>
   fold hunk_line (map entry_line es) s =
     s\<lparr>hs_old := hs_old s + old_count es, hs_new := hs_new s + new_count es\<rparr>"
proof (induction es arbitrary: s)
  case Nil
  then show ?case by (simp add: old_count_def new_count_def)
next
  case (Cons e es)
  have "hunk_line (entry_line e) s =
      s\<lparr>hs_old := hs_old s + entry_old e, hs_new := hs_new s + entry_new e\<rparr>"
    using Cons.prems by (cases e) (auto simp: hunk_line_def count_line_def has_prefix_def)
  with Cons show ?case by (simp add: old_count_def new_count_def algebra_simps)
qed

lemma open_line:
  assumes "header_ok h"
  shows "hunk_line (header_line h) s =
         (flushHunk s)\<lparr>hs_inHunk := True, hs_header := trim_space (header_line h),
           hs_expOld := int (dh_oldLen h), hs_expNew := int (dh_newLen h), hs_old := 0, hs_new := 0\<rparr>"
proof -
  have "has_prefix (header_line h) ''@@ ''" "\<not> has_prefix (header_line h) ''+++ ''"
    "\<not> has_prefix (header_line h) ''--- ''" "\<not> has_prefix (header_line h) ''diff ''"
    by (simp_all add: header_line_def has_prefix_def)
  then show ?thesis
    using assms
    by (simp add: hunk_line_def open_hunk_def hunk_header_line scan_len_nat header_ok_def)
qed

definition all_errors :: "hunk_state \<Rightarrow> validation_error list" where
  "all_errors s = hs_errors (flushHunk s)"

lemma flush_keeps [simp]: "hs_file (flushHunk s) = hs_file s" "\<not> hs_inHunk (flushHunk s)"
  by (simp_all add: flushHunk_def)

lemma fold_hunk:
  assumes "header_ok h" "list_all entry_ok (dh_body h)"
  shows "all_errors (fold hunk_line (hunk_lines h) s) = all_errors s @ hunk_error (hs_file s) h \<and>
         hs_file (fold hunk_line (hunk_lines h) s) = hs_file s"
  using assms(2)
  by (simp add: hunk_lines_def open_line [OF assms(1)] count_entries all_errors_def hunk_error_def
      flushHunk_def)

lemma fold_hunks:
  "list_all (\<lambda>h. header_ok h \<and> list_all entry_ok (dh_body h)) hs \<Longrightarrow>
   all_errors (fold hunk_line (concat (map hunk_lines hs)) s) =
     all_errors s @ concat (map (hunk_error (hs_file s)) hs)"
  by (induction hs arbitrary: s) (simp_all add: fold_append fold_hunk)

lemma nat_to_string_no_newline: "newline \<notin> set (nat_to_string n)"
  using nat_to_string_digits [of n] by (auto simp: list_all_iff is_digit_def)

lemma header_no_newline: "header_ok h \<Longrightarrow> newline \<notin> set (header_line h)"
  by (auto simp: header_line_def header_ok_def nat_to_string_no_newline)

lemma entry_no_newline: "entry_ok e \<Longrightarrow> newline \<notin> set (entry_line e)"
  by (cases e) auto

lemma header_file_line: "file_ok f \<Longrightarrow> header_file (''+++ b/'' @ f) = f"
  by (simp add: header_file_def file_ok_def trim_prefix_def has_prefix_def)

lemma split_diff:
  assumes "file_ok f" "\<forall>l \<in> set ls. newline \<notin> set l"
  shows "split_lines (join NL ([''--- a/'' @ f, ''+++ b/'' @ f] @ ls)) =
         [''--- a/'' @ f, ''+++ b/'' @ f] @ ls"
  using assms by (intro split_char_join) (auto simp: file_ok_def)

lemma fold_file_lines:
  "file_ok f \<Longrightarrow> fold hunk_line [''--- a/'' @ f, ''+++ b/'' @ f] hunk_start = hunk_start\<lparr>hs_file := f\<rparr>"
  using header_file_line [of f]
  by (simp add: hunk_line_def flushHunk_def hunk_start_def has_prefix_def)

text \<open>
  for a diff of one file the check reports exactly the hunks whose entries do not add up to the
  lengths of their header, in order, when no removed or added line looks like a file header.
\<close>

theorem ValidateHunkCounts_exact:
  assumes "file_ok f" "list_all (\<lambda>h. header_ok h \<and> list_all entry_ok (dh_body h)) hs"
  shows "ValidateHunkCounts (print_diff f hs) = concat (map (hunk_error f) hs)"
proof -
  have "\<forall>l \<in> set (concat (map hunk_lines hs)). newline \<notin> set l"
    using assms(2)
    by (auto simp: hunk_lines_def list_all_iff header_no_newline intro!: entry_no_newline)
  from split_diff [OF assms(1) this] have
    "ValidateHunkCounts (print_diff f hs) =
       all_errors (fold hunk_line (concat (map hunk_lines hs)) (hunk_start\<lparr>hs_file := f\<rparr>))"
    by (simp only: ValidateHunkCounts_def print_diff_def all_errors_def fold_append comp_apply
        fold_file_lines [OF assms(1)])
  also have "\<dots> = concat (map (hunk_error f) hs)"
    using fold_hunks [OF assms(2)] by (simp add: all_errors_def flushHunk_def hunk_start_def)
  finally show ?thesis .
qed

theorem ValidateHunkCounts_exact_witness:
  "ValidateHunkCounts (print_diff ''src/a.go''
     [\<lparr>dh_oldStart = 3, dh_oldLen = 2, dh_newStart = 3, dh_newLen = 2, dh_heading = '' func f'',
       dh_body = [Context ''x'', Removed ''y'', Added ''z'']\<rparr>,
      \<lparr>dh_oldStart = 9, dh_oldLen = 1, dh_newStart = 9, dh_newLen = 1, dh_heading = '''',
       dh_body = [Context ''x'', NoNewline]\<rparr>]) = []"
proof -
  let ?hs = "[\<lparr>dh_oldStart = 3, dh_oldLen = 2, dh_newStart = 3, dh_newLen = 2, dh_heading = '' func f'',
       dh_body = [Context ''x'', Removed ''y'', Added ''z'']\<rparr>,
      \<lparr>dh_oldStart = 9, dh_oldLen = 1, dh_newStart = 9, dh_newLen = 1, dh_heading = '''',
       dh_body = [Context ''x'', NoNewline]\<rparr>]"
  have "ValidateHunkCounts (print_diff ''src/a.go'' ?hs) = concat (map (hunk_error ''src/a.go'') ?hs)"
  proof (rule ValidateHunkCounts_exact)
    show "file_ok ''src/a.go''" by code_simp
    show "list_all (\<lambda>h. header_ok h \<and> list_all entry_ok (dh_body h)) ?hs"
      by (simp add: header_ok_def has_prefix_def)
  qed
  then show ?thesis by (simp add: hunk_error_def old_count_def new_count_def)
qed

text \<open>Errors once found stay.\<close>

lemma flush_errors: "prefix (hs_errors s) (hs_errors (flushHunk s))"
  by (simp add: flushHunk_def)

lemma hunk_line_errors: "prefix (hs_errors s) (hs_errors (hunk_line l s))"
  using flush_errors [of s]
  by (auto simp: hunk_line_def open_hunk_def count_line_def split: option.splits)

lemma fold_errors: "prefix (hs_errors s) (hs_errors (fold hunk_line ls s))"
  by (induction ls arbitrary: s) (auto intro: prefix_order.trans hunk_line_errors)

text \<open>
  a hunk that removes a line starting with two dashes and a space (a comment in SQL, Lua or
  Haskell) is refused although its counts are right, for its diff line reads like a file header.
\<close>

theorem removed_comment_refused:
  assumes "file_ok f" "header_ok h" "dh_body h = pre @ Removed (''-- '' @ s) # post"
    and "list_all entry_ok (pre @ post)" "newline \<notin> set s"
    and "int (dh_oldLen h) = old_count (dh_body h)" "int (dh_newLen h) = new_count (dh_body h)"
  shows "ValidateHunkCounts (print_diff f [h]) \<noteq> []"
proof -
  let ?s0 = "hunk_start\<lparr>hs_file := f\<rparr>"
  let ?s1 = "fold hunk_line (header_line h # map entry_line pre) ?s0"
  let ?s2 = "hunk_line (''--- '' @ s) ?s1"
  have c: "old_count pre < int (dh_oldLen h)"
  proof -
    have "0 \<le> entry_old e" for e by (cases e) auto
    then have "0 \<le> old_count post"
      unfolding old_count_def by (intro sum_list_nonneg) auto
    with assms(3, 6) show ?thesis by (simp add: old_count_def)
  qed
  have "hs_inHunk ?s1 \<and> hs_old ?s1 = old_count pre \<and> hs_expOld ?s1 = int (dh_oldLen h)"
    using assms(4) by (simp add: open_line [OF assms(2)] count_entries)
  with c have "hs_errors (flushHunk ?s1) \<noteq> []" by (simp add: flushHunk_def)
  then have e2: "hs_errors ?s2 \<noteq> []" by (simp add: hunk_line_def has_prefix_def)
  have ls: "hunk_lines h = (header_line h # map entry_line pre) @ [''--- '' @ s] @ map entry_line post"
    by (simp add: hunk_lines_def assms(3))
  have "\<forall>l \<in> set (hunk_lines h). newline \<notin> set l"
    using assms(2, 4, 5)
    by (auto simp: ls header_no_newline list_all_iff dest!: entry_no_newline)
  from split_diff [OF assms(1) this] have
    "ValidateHunkCounts (print_diff f [h]) =
       hs_errors (flushHunk (fold hunk_line (map entry_line post) ?s2))"
    by (simp only: ValidateHunkCounts_def print_diff_def fold_append comp_apply concat.simps
        list.map append_Nil2 fold_file_lines [OF assms(1)] ls) simp
  then show ?thesis
    using e2 fold_errors [of ?s2 "map entry_line post"]
      flush_errors [of "fold hunk_line (map entry_line post) ?s2"]
    by (metis prefix_Nil)
qed

theorem removed_comment_refused_witness:
  "ValidateHunkCounts (print_diff ''q.sql''
     [\<lparr>dh_oldStart = 1, dh_oldLen = 2, dh_newStart = 1, dh_newLen = 1, dh_heading = '''',
       dh_body = [Context ''x'', Removed ''-- y'']\<rparr>]) \<noteq> []"
proof (rule removed_comment_refused [where pre = "[Context ''x'']" and s = "''y''" and post = "[]"])
  show "file_ok ''q.sql''" by code_simp
qed (simp_all add: header_ok_def old_count_def new_count_def)

end
