(* ===== verification/Patch_Fuzzy.thy ===== *)
theory Patch_Fuzzy
  imports Patch_Blocks Complex_Main
begin

text \<open>
  The fallback matchers of \<^verbatim>\<open>search_replace_fuzzy.go\<close>: the window search over whole lines at three
  tiers of tolerance, the re-indentation of the replacement, and the nearest range that an error
  message shows. Scores are exact rationals instead of floats.
\<close>

section \<open>Lines\<close>

fun splitLinesKeepEnds :: "string \<Rightarrow> string list" where
  "splitLinesKeepEnds [] = []"
| "splitLinesKeepEnds (c # cs) =
     (if c = newline then [c] # splitLinesKeepEnds cs
      else (case splitLinesKeepEnds cs of [] \<Rightarrow> [[c]] | l # ls \<Rightarrow> (c # l) # ls))"

definition stripLineEnding :: "string \<Rightarrow> string" where
  "stripLineEnding l = trim_suffix l NL"

definition lineOffset :: "string list \<Rightarrow> nat \<Rightarrow> nat" where
  "lineOffset ls idx = sum_list (map length (take idx ls))"

abbreviation blanks :: string where "blanks \<equiv> [CHR '' '', tab]"

definition indentLen :: "string \<Rightarrow> nat" where
  "indentLen line = length line - length (trim_left line blanks)"

definition indentDeltas :: "string list \<Rightarrow> string list \<Rightarrow> int list" where
  "indentDeltas search_lines content_lines =
     map (\<lambda>(s, c). int (indentLen (stripLineEnding c)) - int (indentLen (stripLineEnding s)))
         (zip search_lines content_lines)"

fun detectIndentChar :: "string list \<Rightarrow> char" where
  "detectIndentChar [] = CHR '' ''"
| "detectIndentChar (l # ls) =
     (let body = stripLineEnding l
      in if length (trim_left body blanks) < length body then hd body else detectIndentChar ls)"

text \<open>One line of \<^verbatim>\<open>reindentReplace\<close>, with the delta that applies to it.\<close>

definition reindent_line :: "char \<Rightarrow> int \<Rightarrow> string \<Rightarrow> string" where
  "reindent_line ch delta l =
     (let ending = (if has_suffix l NL then NL else '''');
          body = (if has_suffix l NL then take (length l - 1) l else l);
          trimmed = trim_left body blanks;
          indent = take (length body - length trimmed) body;
          new_len = max (int (length indent) + delta) 0
      in replicate (nat new_len) ch @ trimmed @ ending)"

definition delta_at :: "int list \<Rightarrow> nat \<Rightarrow> int" where
  "delta_at deltas i = deltas ! min i (length deltas - 1)"

definition reindentReplace :: "string \<Rightarrow> int list \<Rightarrow> char \<Rightarrow> string" where
  "reindentReplace repl deltas ch0 =
     (if deltas = [] then repl
      else let ch = (if ch0 = CHR 0x00 then CHR '' '' else ch0); ls = splitLinesKeepEnds repl
           in concat (map (\<lambda>(i, l). reindent_line ch (delta_at deltas i) l) (enumerate 0 ls)))"

text \<open>\<^verbatim>\<open>relativeIndent\<close>: the change of indentation from line to line, with the trimmed text.\<close>

fun rel_indent :: "int option \<Rightarrow> string list \<Rightarrow> string list" where
  "rel_indent prev [] = []"
| "rel_indent prev (l # ls) =
     (let ind = int (indentLen l); delta = (case prev of None \<Rightarrow> 0 | Some p \<Rightarrow> ind - p)
      in (itoa delta @ [CHR 0x00] @ trim_left l blanks) # rel_indent (Some ind) ls)"

definition relativeIndent :: "string list \<Rightarrow> string list" where
  "relativeIndent ls = rel_indent None ls"

definition relIndentEqual :: "string list \<Rightarrow> string list \<Rightarrow> bool" where
  "relIndentEqual a b = (length a = length b \<and> list_all (\<lambda>(x, y). x = y) (zip a b))"

section \<open>The window search\<close>

record match_result =
  mr_start :: nat
  mr_end :: nat
  mr_deltas :: "int list"
  mr_indent :: char
  mr_ok :: bool
  mr_count :: nat

definition no_match :: "nat \<Rightarrow> match_result" where
  "no_match n =
     \<lparr>mr_start = 0, mr_end = 0, mr_deltas = [], mr_indent = CHR 0x00, mr_ok = False, mr_count = n\<rparr>"

text \<open>The windows of \<open>n\<close> lines that a test accepts, by their first line.\<close>

definition windows :: "nat \<Rightarrow> (string list \<Rightarrow> bool) \<Rightarrow> string list \<Rightarrow> nat list" where
  "windows n ok ls = filter (\<lambda>i. ok (take n (drop i ls))) [0..<Suc (length ls) - n]"

text \<open>What the three matchers do with the windows they found.\<close>

definition unique_match :: "string list \<Rightarrow> string list \<Rightarrow> nat list \<Rightarrow> match_result" where
  "unique_match search_lines content_lines found =
     (if length found \<noteq> 1 then no_match (length found)
      else let i = hd found; j = i + length search_lines;
               window = take (length search_lines) (drop i content_lines)
           in \<lparr>mr_start = lineOffset content_lines i, mr_end = lineOffset content_lines j,
               mr_deltas = indentDeltas search_lines window, mr_indent = detectIndentChar window,
               mr_ok = True, mr_count = 1\<rparr>)"

definition trailingWSMatch :: "string \<Rightarrow> string \<Rightarrow> match_result" where
  "trailingWSMatch content search =
     (let sl = splitLinesKeepEnds search; cl = splitLinesKeepEnds content;
          trimmed = map (\<lambda>l. trim_right (stripLineEnding l) blanks) sl
      in if sl = [] then no_match 0
         else unique_match sl cl
                (windows (length sl)
                   (\<lambda>w. map (\<lambda>l. trim_right (stripLineEnding l) blanks) w = trimmed) cl))"

definition relativeIndentMatch :: "string \<Rightarrow> string \<Rightarrow> match_result" where
  "relativeIndentMatch content search =
     (let sl = splitLinesKeepEnds search; cl = splitLinesKeepEnds content;
          search_rel = relativeIndent (map stripLineEnding sl)
      in if sl = [] then no_match 0
         else unique_match sl cl
                (windows (length sl)
                   (\<lambda>w. relIndentEqual (relativeIndent (map stripLineEnding w)) search_rel) cl))"

definition trimmedLineMatch :: "string \<Rightarrow> string \<Rightarrow> match_result" where
  "trimmedLineMatch content search =
     (let sl = splitLinesKeepEnds search; cl = splitLinesKeepEnds content;
          trimmed = map (\<lambda>l. trim_space (stripLineEnding l)) sl
      in if sl = [] then no_match 0
         else unique_match sl cl
                (windows (length sl)
                   (\<lambda>w. map (\<lambda>l. trim_space (stripLineEnding l)) w = trimmed) cl))"

section \<open>The nearest range\<close>

definition lineTokenSet :: "string \<Rightarrow> string list" where
  "lineTokenSet s = remdups (Go_Prelude.fields s)"

definition tokenOverlapScore :: "string list \<Rightarrow> string list \<Rightarrow> rat" where
  "tokenOverlapScore a b =
     (if a = [] \<or> b = [] then 0
      else let shared = length (filter (\<lambda>t. t \<in> set b) a); union = length a + length b - shared
           in if union = 0 then 0 else of_nat shared / of_nat union)"

text \<open>The first of the windows with the highest score, with that score.\<close>

definition best_window :: "(nat \<Rightarrow> rat) \<Rightarrow> nat list \<Rightarrow> rat \<times> nat" where
  "best_window score is =
     fold (\<lambda>i (best, start). if score i > best then (score i, i) else (best, start)) is (-1, 0)"

definition nearestSimilarRange :: "string \<Rightarrow> string \<Rightarrow> nat \<times> nat \<times> string" where
  "nearestSimilarRange content search =
     (let sl = splitLinesKeepEnds search; cl = splitLinesKeepEnds content;
          size = min (length sl) (length cl)
      in if sl = [] \<or> cl = [] \<or> size = 0 then (0, 0, '''')
         else let toks = lineTokenSet search;
                  score = (\<lambda>i. tokenOverlapScore toks
                                 (lineTokenSet (concat (take size (drop i cl)))));
                  (best, start) = best_window score [0..<Suc (length cl) - size]
              in if best \<le> 0 then (0, 0, '''')
                 else (start + 1, start + size, concat (take size (drop start cl))))"

section \<open>Lemmas\<close>

lemma concat_splitLines [simp]: "concat (splitLinesKeepEnds s) = s"
  by (induction s) (auto split: list.splits)

lemma splitLines_Nil_iff [simp]: "splitLinesKeepEnds s = [] \<longleftrightarrow> s = ''''"
  by (cases s) (auto split: list.splits)

lemma splitLines_ne: "l \<in> set (splitLinesKeepEnds s) \<Longrightarrow> l \<noteq> ''''"
  by (induction s arbitrary: l) (auto split: list.splits if_splits)

lemma lineOffset_concat: "lineOffset ls i = length (concat (take i ls))"
  by (simp add: lineOffset_def length_concat)

lemma take_lineOffset: "take (lineOffset ls i) (concat ls) = concat (take i ls)"
proof -
  have "concat ls = concat (take i ls) @ concat (drop i ls)"
    by (metis append_take_drop_id concat_append)
  then show ?thesis by (simp add: lineOffset_concat)
qed

lemma drop_lineOffset: "drop (lineOffset ls i) (concat ls) = concat (drop i ls)"
proof -
  have "concat ls = concat (take i ls) @ concat (drop i ls)"
    by (metis append_take_drop_id concat_append)
  then show ?thesis by (simp add: lineOffset_concat)
qed

lemma windows_in: "i \<in> set (windows n ok ls) \<longleftrightarrow> i + n < Suc (length ls) \<and> ok (take n (drop i ls))"
  by (auto simp: windows_def)

lemma distinct_windows [simp]: "distinct (windows n ok ls)"
  by (simp add: windows_def)

text \<open>What a tier compares, as a function of the lines of a window.\<close>

definition tier_key :: "nat \<Rightarrow> string list \<Rightarrow> string list" where
  "tier_key tier w =
     (if tier = 1 then map (\<lambda>l. trim_right (stripLineEnding l) blanks) w
      else if tier = 2 then relativeIndent (map stripLineEnding w)
      else map (\<lambda>l. trim_space (stripLineEnding l)) w)"

definition tier_match :: "nat \<Rightarrow> string \<Rightarrow> string \<Rightarrow> match_result" where
  "tier_match tier =
     (if tier = 1 then trailingWSMatch else if tier = 2 then relativeIndentMatch
      else trimmedLineMatch)"

definition tier_windows :: "nat \<Rightarrow> string list \<Rightarrow> string list \<Rightarrow> nat list" where
  "tier_windows tier sl cl = windows (length sl) (\<lambda>w. tier_key tier w = tier_key tier sl) cl"

lemma relIndentEqual_iff: "relIndentEqual a b \<longleftrightarrow> a = b"
proof (induction a arbitrary: b)
  case (Cons x a)
  then show ?case by (cases b) (auto simp: relIndentEqual_def)
qed (auto simp: relIndentEqual_def)

lemma tier_match_unique:
  "search \<noteq> '''' \<Longrightarrow>
   tier_match tier content search =
     unique_match (splitLinesKeepEnds search) (splitLinesKeepEnds content)
       (tier_windows tier (splitLinesKeepEnds search) (splitLinesKeepEnds content))"
  by (simp add: tier_match_def tier_windows_def tier_key_def trailingWSMatch_def Let_def
      relativeIndentMatch_def trimmedLineMatch_def relIndentEqual_iff)

lemma unique_match_ok:
  "mr_ok (unique_match sl cl found) \<longleftrightarrow> length found = 1"
  "mr_count (unique_match sl cl found) = length found"
  by (simp_all add: unique_match_def no_match_def Let_def)

text \<open>
  A match of any tier splits the content at line boundaries into what is before the window, the
  window and what is behind it; the window is the only one with the key of the search lines.
\<close>

lemma tier_match_splits:
  assumes "search \<noteq> ''''" "mr_ok (tier_match tier content search)"
  defines "r \<equiv> tier_match tier content search" and "sl \<equiv> splitLinesKeepEnds search"
    and "cl \<equiv> splitLinesKeepEnds content"
  obtains i where "tier_windows tier sl cl = [i]" "i + length sl \<le> length cl"
    "take (mr_start r) content = concat (take i cl)"
    "drop (mr_end r) content = concat (drop (i + length sl) cl)"
    "mr_deltas r = indentDeltas sl (take (length sl) (drop i cl))"
    "mr_indent r = detectIndentChar (take (length sl) (drop i cl))"
proof -
  have r: "r = unique_match sl cl (tier_windows tier sl cl)"
    using tier_match_unique [OF assms(1)] by (simp add: r_def sl_def cl_def)
  with assms(2) have "length (tier_windows tier sl cl) = 1"
    using unique_match_ok(1) by (metis r_def)
  then obtain i where i: "tier_windows tier sl cl = [i]" by (auto simp: length_Suc_conv)
  then have "i + length sl \<le> length cl"
    using windows_in [of i "length sl" _ cl] unfolding tier_windows_def
    by (metis less_Suc_eq_le list.set_intros(1))
  moreover have "content = concat cl" by (simp add: cl_def)
  ultimately show thesis
    using that [OF i] by (simp add: r i unique_match_def take_lineOffset drop_lineOffset Let_def)
qed

end
