(* ===== verification/Patch_Apply.thy ===== *)
theory Patch_Apply
  imports Patch_Hunks Patch_Fuzzy Paths
begin

text \<open>
  Applying and validating edit blocks on the file system (\<^verbatim>\<open>search_replace.go\<close>, \<^verbatim>\<open>validator.go\<close>), and
  the two engines behind the patch interface (\<^verbatim>\<open>engine.go\<close>). A file system maps the paths of
  regular files, free of symbolic links, to contents; an environment says where the operating system
  is led by the links on a path and which of its calls fail. The order in which the map of files is
  visited is a parameter.
\<close>

section \<open>Files\<close>

type_synonym files = "string \<rightharpoonup> string"

text \<open>
  What the operating system does with a path: the file it opens after following the symbolic links
  (neither reading, creating directories nor writing adds or removes a link, so this does not change
  while a patch is applied), and its errors: reading (other than a missing file), creating the
  directories, and writing, where a failed write leaves some content behind.
\<close>

record fs_env =
  fe_real :: "string \<Rightarrow> string"
  fe_read :: "string \<Rightarrow> string option"
  fe_mkdir :: "string \<Rightarrow> string option"
  fe_write :: "string \<Rightarrow> (string \<times> string option) option"

definition no_faults :: fs_env where
  "no_faults = \<lparr>fe_real = (\<lambda>p. p), fe_read = (\<lambda>p. None), fe_mkdir = (\<lambda>p. None), fe_write = (\<lambda>p. None)\<rparr>"

datatype read_result = ReadOk string | ReadNotExist | ReadFailed string

definition read_file :: "fs_env \<Rightarrow> files \<Rightarrow> string \<Rightarrow> read_result" where
  "read_file env fs p =
     (case fe_read env (path_clean p) of
        Some e \<Rightarrow> ReadFailed e
      | None \<Rightarrow> (case fs (fe_real env (path_clean p)) of None \<Rightarrow> ReadNotExist | Some c \<Rightarrow> ReadOk c))"

definition normalize_newlines :: "string \<Rightarrow> string" where
  "normalize_newlines s = replace_all s [CHR 0x0D, newline] NL"

section \<open>Applying blocks\<close>

datatype apply_error =
    MissingFilepath
  | CannotRead string string
  | Ambiguous string nat
  | AmbiguousTier string string nat
  | NotFound string
  | NotFoundClosest string nat nat string
  | CannotMkdir string string
  | CannotWrite string string
  | PolicyViolation string
  | NoRepoPath string

definition tierNames :: "string list" where
  "tierNames = [''exact'', ''trailing-whitespace'', ''relative-indent'', ''line-trim'']"

text \<open>The tiers in order: the first that matches once is used, one that matches more fails.\<close>

fun fuzzy_tiers ::
  "nat list \<Rightarrow> string \<Rightarrow> string \<Rightarrow> string \<Rightarrow> string \<Rightarrow> apply_error + string option" where
  "fuzzy_tiers [] rel content search repl = Inr None"
| "fuzzy_tiers (t # ts) rel content search repl =
     (let r = tier_match t content search
      in if mr_count r > 1 then Inl (AmbiguousTier rel (tierNames ! t) (mr_count r))
         else if mr_ok r
         then Inr (Some (take (mr_start r) content @
                         reindentReplace repl (mr_deltas r) (mr_indent r) @
                         drop (mr_end r) content))
         else fuzzy_tiers ts rel content search repl)"

definition not_found :: "string \<Rightarrow> string \<Rightarrow> string \<Rightarrow> apply_error" where
  "not_found rel content search =
     (let (a, b, snippet) = nearestSimilarRange content search
      in if snippet = '''' then NotFound rel else NotFoundClosest rel a b snippet)"

definition apply_block :: "string \<Rightarrow> edit_block \<Rightarrow> string \<Rightarrow> apply_error + string" where
  "apply_block rel b content =
     (let search = normalize_newlines (eb_Search b); repl = normalize_newlines (eb_Replace b)
      in if search = '''' then Inr repl
         else let n = str_count content search
              in if n = 1 then Inr (replace_first content search repl)
                 else if n > 1 then Inl (Ambiguous rel n)
                 else bind_err (fuzzy_tiers [1, 2, 3] rel content search repl)
                        (\<lambda>m. case m of Some c \<Rightarrow> Inr c | None \<Rightarrow> Inl (not_found rel content search)))"

fun apply_blocks :: "string \<Rightarrow> edit_block list \<Rightarrow> string \<Rightarrow> apply_error + string" where
  "apply_blocks rel [] content = Inr content"
| "apply_blocks rel (b # bs) content = bind_err (apply_block rel b content) (apply_blocks rel bs)"

definition full_path :: "string \<Rightarrow> string \<Rightarrow> string" where
  "full_path base rel = (if base = '''' then rel else path_join [base, rel])"

definition write_file :: "fs_env \<Rightarrow> string \<Rightarrow> string \<Rightarrow> string \<Rightarrow> files \<Rightarrow> apply_error option \<times> files" where
  "write_file env rel full content fs =
     (case fe_mkdir env (path_dir full) of
        Some e \<Rightarrow> (Some (CannotMkdir rel e), fs)
      | None \<Rightarrow>
          (case fe_write env (path_clean full) of
             Some (e, left) \<Rightarrow> (Some (CannotWrite rel e), fs(fe_real env (path_clean full) := left))
           | None \<Rightarrow> (None, fs(fe_real env (path_clean full) \<mapsto> content))))"

definition apply_file ::
  "fs_env \<Rightarrow> string \<Rightarrow> string \<Rightarrow> edit_block list \<Rightarrow> files \<Rightarrow> apply_error option \<times> files" where
  "apply_file env base rel bs fs =
     (let go = (\<lambda>content.
                  case apply_blocks rel bs (normalize_newlines content) of
                    Inl e \<Rightarrow> (Some e, fs)
                  | Inr c \<Rightarrow> write_file env rel (full_path base rel) c fs)
      in case read_file env fs (full_path base rel) of
           ReadFailed e \<Rightarrow> (Some (CannotRead rel e), fs)
         | ReadNotExist \<Rightarrow> go ''''
         | ReadOk c \<Rightarrow> go c)"

fun apply_files ::
  "fs_env \<Rightarrow> string \<Rightarrow> edit_block list \<Rightarrow> string list \<Rightarrow> files \<Rightarrow> apply_error option \<times> files" where
  "apply_files env base bs [] fs = (None, fs)"
| "apply_files env base bs (rel # rels) fs =
     (case apply_file env base rel (filter (\<lambda>b. eb_Filepath b = rel) bs) fs of
        (Some e, fs') \<Rightarrow> (Some e, fs')
      | (None, fs') \<Rightarrow> apply_files env base bs rels fs')"

definition ApplySearchReplace ::
  "(string list \<Rightarrow> string list) \<Rightarrow> fs_env \<Rightarrow> edit_block list \<Rightarrow> string \<Rightarrow> files \<Rightarrow>
   apply_error option \<times> files" where
  "ApplySearchReplace order env bs base fs =
     (if list_ex (\<lambda>b. eb_Filepath b = '''') bs then (Some MissingFilepath, fs)
      else apply_files env base bs (order (remdups (map eb_Filepath bs))) fs)"

section \<open>Validating\<close>

definition validate_block :: "fs_env \<Rightarrow> files \<Rightarrow> string \<Rightarrow> edit_block \<Rightarrow> validation_error list" where
  "validate_block env fs base b =
     (if eb_Filepath b = '''' then [fatal_error '''' (Reason ''Missing file path in edit block'')]
      else case read_file env fs (path_join [base, eb_Filepath b]) of
             ReadNotExist \<Rightarrow>
               if trim_space (eb_Search b) \<noteq> ''''
               then [fatal_error (eb_Filepath b)
                       (Reason ''File does not exist, but search block is not empty'')]
               else []
           | ReadFailed e \<Rightarrow> [fatal_error (eb_Filepath b) (CannotReadFile e)]
           | ReadOk content \<Rightarrow>
               if eb_Search b = '''' then []
               else let n = str_count (normalize_newlines content) (normalize_newlines (eb_Search b))
                    in if n = 0
                       then [fatal_error (eb_Filepath b) (Reason ''Search block not found in file'')]
                       else if n > 1 then [fatal_error (eb_Filepath b) (AmbiguousMatch n)]
                       else [])"

definition ValidateSearchReplace ::
  "fs_env \<Rightarrow> files \<Rightarrow> edit_block list \<Rightarrow> string \<Rightarrow> validation_error list" where
  "ValidateSearchReplace env fs bs base = concat (map (validate_block env fs base) bs)"

text \<open>The start line of a hunk against the length of the file it names.\<close>

definition start_errors :: "fs_env \<Rightarrow> files \<Rightarrow> string \<Rightarrow> string \<Rightarrow> string \<Rightarrow> validation_error list" where
  "start_errors env fs base file line =
     (case hunk_header line of
        None \<Rightarrow> []
      | Some (old_start, _, _, _) \<Rightarrow>
          if file = '''' then []
          else case scan_int old_start of
                 None \<Rightarrow> []
               | Some n \<Rightarrow>
                   case read_file env fs (path_join [base, file]) of
                     ReadOk content \<Rightarrow>
                       let len = length (split_lines content)
                       in if n > int len \<and> len > 0
                          then [fatal_error file (HunkStartBeyond n len)] else []
                   | _ \<Rightarrow> [])"

fun unified_lines ::
  "fs_env \<Rightarrow> files \<Rightarrow> string \<Rightarrow> string \<Rightarrow> string list \<Rightarrow> validation_error list" where
  "unified_lines env fs base file [] = []"
| "unified_lines env fs base file (l # ls) =
     (if has_prefix l ''+++ '' then unified_lines env fs base (header_file l) ls
      else if has_prefix l ''@@ '' then start_errors env fs base file l @ unified_lines env fs base file ls
      else unified_lines env fs base file ls)"

definition ValidateUnifiedDiff ::
  "fs_env \<Rightarrow> files \<Rightarrow> string \<Rightarrow> string \<Rightarrow> validation_error list" where
  "ValidateUnifiedDiff env fs text base =
     ValidateHunkCounts text @ unified_lines env fs base '''' (split_lines text)"

section \<open>The engines\<close>

text \<open>The check of one path against the context of the agent, shared by both engines.\<close>

definition path_errors :: "string option \<Rightarrow> path_ctx \<Rightarrow> string \<Rightarrow> validation_error list" where
  "path_errors cwd v file =
     (if \<not> pc_UseRepoPrefix v \<and> pc_RepoName v \<noteq> '''' \<and>
         (has_prefix file (pc_RepoName v @ slash) \<or> file = pc_RepoName v)
      then [\<lparr>ve_RepoName = '''', ve_Filepath = file, ve_Reason = RedundantPrefix (pc_RepoName v),
             ve_IsFatal = False\<rparr>]
      else []) @
     (case ToPhysical cwd v file of
        Inl e \<Rightarrow> [fatal_error file (SecurityBoundary file)]
      | Inr p \<Rightarrow> [])"

definition diff_line_file :: "string \<Rightarrow> string" where
  "diff_line_file line =
     (if has_prefix line ''--- '' then trim_prefix (trim_space (trim_prefix line ''--- '')) ''a/''
      else if has_prefix line ''+++ '' then trim_prefix (trim_space (trim_prefix line ''+++ '')) ''b/''
      else '''')"

definition legacy_Validate ::
  "string option \<Rightarrow> fs_env \<Rightarrow> files \<Rightarrow> path_ctx option \<Rightarrow> string \<Rightarrow> string \<Rightarrow> validation_error list" where
  "legacy_Validate cwd env fs ctx data base =
     (case ctx of
        None \<Rightarrow> []
      | Some v \<Rightarrow>
          concat (map (\<lambda>line. let file = diff_line_file line
                              in if file \<noteq> '''' \<and> file \<noteq> ''/dev/null'' then path_errors cwd v file else [])
                   (split_lines data))) @
     ValidateUnifiedDiff env fs data base"

definition sr_Validate ::
  "string option \<Rightarrow> fs_env \<Rightarrow> files \<Rightarrow> path_ctx option \<Rightarrow> string \<Rightarrow> string \<Rightarrow> validation_error list" where
  "sr_Validate cwd env fs ctx data base =
     (let bs = ParseSearchReplace data
      in (case ctx of
            None \<Rightarrow> []
          | Some v \<Rightarrow>
              concat (map (\<lambda>b. if eb_Filepath b \<noteq> '''' then path_errors cwd v (eb_Filepath b) else [])
                       bs)) @
         ValidateSearchReplace env fs bs base)"

text \<open>The blocks with their files resolved, or the first error.\<close>

fun resolve_blocks ::
  "string option \<Rightarrow> path_ctx \<Rightarrow> edit_block list \<Rightarrow> apply_error + edit_block list" where
  "resolve_blocks cwd v [] = Inr []"
| "resolve_blocks cwd v (b # bs) =
     (if eb_Filepath b = '''' then Inl MissingFilepath
      else case ToPhysical cwd v (eb_Filepath b) of
             Inl e \<Rightarrow> Inl (PolicyViolation (eb_Filepath b))
           | Inr p \<Rightarrow>
               (case resolve_blocks cwd v bs of
                  Inl e \<Rightarrow> Inl e
                | Inr bs' \<Rightarrow> Inr (b\<lparr>eb_Filepath := p\<rparr> # bs')))"

text \<open>
  Without a context the blocks are applied below the worktree of the repository of the task, which
  the workspace resolves (or fails to), or below the root of the workspace.
\<close>

definition sr_Apply ::
  "(string list \<Rightarrow> string list) \<Rightarrow> string option \<Rightarrow> fs_env \<Rightarrow> path_ctx option \<Rightarrow>
   (string + string) \<Rightarrow> string \<Rightarrow> files \<Rightarrow> apply_error option \<times> files" where
  "sr_Apply order cwd env ctx base data fs =
     (let bs = ParseSearchReplace data
      in case ctx of
           Some v \<Rightarrow>
             (case resolve_blocks cwd v bs of
                Inl e \<Rightarrow> (Some e, fs)
              | Inr bs' \<Rightarrow> ApplySearchReplace order env bs' '''' fs)
         | None \<Rightarrow>
             (case base of
                Inl e \<Rightarrow> (Some (NoRepoPath e), fs)
              | Inr b \<Rightarrow> ApplySearchReplace order env bs b fs))"

end
