(* ===== verification/Patch_Properties.thy ===== *)
theory Patch_Properties
  imports Patch_Apply Path_Properties
begin

text \<open>
  What applying a patch promises: a block edits one place of one file, validated blocks apply, and
  nothing but the files named, which lie inside the root of the agent up to symbolic links, is
  touched.
\<close>

section \<open>One block\<close>

text \<open>
  The specification of an edit. An empty search text replaces the whole content. Otherwise the search
  text occurs once and is replaced there, or it does not occur and at the first tier at which any
  window of whole lines has its key there is exactly one: that window is replaced by the re-indented
  text.
\<close>

definition local_edit :: "string \<Rightarrow> string \<Rightarrow> string \<Rightarrow> string \<Rightarrow> bool" where
  "local_edit content search repl result =
     (if search = '''' then result = repl
      else if str_contains content search
      then str_count content search = 1 \<and>
           (\<exists>a b. content = a @ search @ b \<and> result = a @ repl @ b)
      else (\<exists>tier \<in> {1, 2, 3}. \<exists>i.
              (let sl = splitLinesKeepEnds search; cl = splitLinesKeepEnds content;
                   w = take (length sl) (drop i cl)
               in (\<forall>t \<in> {1..<tier}. tier_windows t sl cl = []) \<and> tier_windows tier sl cl = [i] \<and>
                  content = concat (take i cl) @ concat w @ concat (drop (i + length sl) cl) \<and>
                  result = concat (take i cl) @
                           reindentReplace repl (indentDeltas sl w) (detectIndentChar w) @
                           concat (drop (i + length sl) cl))))"

lemma concat_take_drop3:
  "concat ls = concat (take i ls) @ concat (take n (drop i ls)) @ concat (drop (i + n) ls)"
  by (metis append_take_drop_id concat_append drop_drop add.commute)

text \<open>A search over tiers stops at the first that has a window, and only when it has one.\<close>

lemma fuzzy_tiers_first:
  assumes "search \<noteq> ''''" "fuzzy_tiers ts rel content search repl = Inr (Some result)"
  shows "\<exists>earlier tier later i.
           ts = earlier @ tier # later \<and>
           (let sl = splitLinesKeepEnds search; cl = splitLinesKeepEnds content;
                w = take (length sl) (drop i cl)
            in (\<forall>t \<in> set earlier. tier_windows t sl cl = []) \<and> tier_windows tier sl cl = [i] \<and>
               content = concat (take i cl) @ concat w @ concat (drop (i + length sl) cl) \<and>
               result = concat (take i cl) @
                        reindentReplace repl (indentDeltas sl w) (detectIndentChar w) @
                        concat (drop (i + length sl) cl))"
  using assms(2)
proof (induction ts)
  case (Cons t ts)
  let ?r = "tier_match t content search"
  let ?sl = "splitLinesKeepEnds search" and ?cl = "splitLinesKeepEnds content"
  note found = unique_match_ok [of ?sl ?cl "tier_windows t ?sl ?cl",
      folded tier_match_unique [OF assms(1)]]
  show ?case
  proof (cases "mr_ok ?r")
    case False
    with Cons.prems found have "length (tier_windows t ?sl ?cl) \<noteq> 1"
      "\<not> length (tier_windows t ?sl ?cl) > 1" by (auto simp: Let_def split: if_splits)
    then have "tier_windows t ?sl ?cl = []" by (metis length_0_conv less_one linorder_neqE_nat)
    moreover from False Cons.prems have "fuzzy_tiers ts rel content search repl = Inr (Some result)"
      by (auto simp: Let_def split: if_splits)
    ultimately show ?thesis using Cons.IH unfolding Let_def
      by (metis append_Cons set_ConsD)
  next
    case True
    then obtain i where i: "tier_windows t ?sl ?cl = [i]"
      "take (mr_start ?r) content = concat (take i ?cl)"
      "drop (mr_end ?r) content = concat (drop (i + length ?sl) ?cl)"
      "mr_deltas ?r = indentDeltas ?sl (take (length ?sl) (drop i ?cl))"
      "mr_indent ?r = detectIndentChar (take (length ?sl) (drop i ?cl))"
      using tier_match_splits [OF assms(1), of t content] by metis
    from True found Cons.prems have "result = take (mr_start ?r) content @
        reindentReplace repl (mr_deltas ?r) (mr_indent ?r) @ drop (mr_end ?r) content"
      by (simp add: Let_def)
    moreover have "content = concat (take i ?cl) @ concat (take (length ?sl) (drop i ?cl)) @
        concat (drop (i + length ?sl) ?cl)"
      using concat_take_drop3 [of ?cl i "length ?sl"] by simp
    ultimately show ?thesis using i unfolding Let_def
      by (intro exI [of _ "[]"] exI [of _ t] exI [of _ ts] exI [of _ i]) simp
  qed
qed simp

lemma fuzzy_tiers_edit:
  assumes "search \<noteq> ''''" "\<not> str_contains content search"
    and "fuzzy_tiers [1, 2, 3] rel content search repl = Inr (Some result)"
  shows "local_edit content search repl result"
proof -
  have tiers: "tier \<in> {1, 2, 3} \<and> set earlier = {1..<tier}"
    if "[1, 2, 3] = earlier @ tier # later" for earlier later and tier :: nat
    using that by (auto simp: Cons_eq_append_conv)
  from fuzzy_tiers_first [OF assms(1, 3)] show ?thesis
    using assms(1, 2) unfolding local_edit_def Let_def by (metis tiers)
qed

lemma str_count_one_edit:
  assumes "search \<noteq> ''''" "str_count content search = 1"
  shows "str_contains content search \<and>
         (\<exists>a b. content = a @ search @ b \<and> replace_first content search repl = a @ repl @ b)"
proof -
  from assms have c: "str_contains content search"
    by (metis str_count_zero_iff zero_neq_one)
  then obtain i where i: "index_of content search = Some i" by (auto simp: str_contains_def)
  with index_of_Some_split [OF i] c show ?thesis
    by (auto simp: replace_first_def)
qed

text \<open>
  C31: a block with a search text that applies is a local edit of the content: the text occurs once
  and is replaced there, or it does not occur and the one window of lines is replaced that the first
  tier with any window has; what is before and behind the edited place stays byte for byte. A block
  without a search text replaces the whole content.
\<close>

theorem apply_block_local:
  assumes "apply_block rel b content = Inr result"
  shows "local_edit content (normalize_newlines (eb_Search b)) (normalize_newlines (eb_Replace b)) result"
proof -
  let ?s = "normalize_newlines (eb_Search b)" and ?r = "normalize_newlines (eb_Replace b)"
  consider (empty) "?s = ''''" "result = ?r"
    | (exact) "?s \<noteq> ''''" "str_count content ?s = 1" "result = replace_first content ?s ?r"
    | (fuzzy) "?s \<noteq> ''''" "str_count content ?s = 0"
        "fuzzy_tiers [1, 2, 3] rel content ?s ?r = Inr (Some result)"
    using assms
    by (auto simp: apply_block_def Let_def bind_err_Inr simp del: fuzzy_tiers.simps
        split: if_splits option.splits)
  then show ?thesis
  proof cases
    case empty
    then show ?thesis by (simp add: local_edit_def)
  next
    case exact
    with str_count_one_edit [OF exact(1, 2), of ?r] show ?thesis by (simp add: local_edit_def)
  next
    case fuzzy
    then have "\<not> str_contains content ?s" by (simp add: str_count_zero_iff)
    from fuzzy_tiers_edit [OF fuzzy(1) this fuzzy(3)] show ?thesis .
  qed
qed

theorem apply_block_local_witness:
  "local_edit (''f {'' @ NL @ ''  x;'' @ NL @ ''}'' @ NL) (normalize_newlines (''x; '' @ NL))
     (normalize_newlines (''y;'' @ NL)) (''f {'' @ NL @ ''  y;'' @ NL @ ''}'' @ NL)"
proof -
  let ?b = "\<lparr>eb_Filepath = ''a'', eb_Search = ''x; '' @ NL, eb_Replace = ''y;'' @ NL\<rparr>"
  have "apply_block ''a'' ?b (''f {'' @ NL @ ''  x;'' @ NL @ ''}'' @ NL) =
        Inr (''f {'' @ NL @ ''  y;'' @ NL @ ''}'' @ NL)" by code_simp
  from apply_block_local [OF this] show ?thesis by simp
qed

section \<open>Files that are not named\<close>

lemma write_file_frame:
  "write_file env rel full c fs = (e, fs') \<Longrightarrow> p \<noteq> fe_real env (path_clean full) \<Longrightarrow>
   fs' p = fs p"
  by (auto simp: write_file_def split: option.splits)

lemma apply_file_frame:
  assumes "apply_file env base rel bs fs = (e, fs')" "p \<noteq> fe_real env (path_clean (full_path base rel))"
  shows "fs' p = fs p"
  using assms write_file_frame [OF _ assms(2)]
  by (auto simp: apply_file_def Let_def split: read_result.splits sum.splits)

lemma apply_files_frame:
  "apply_files env base bs rels fs = (e, fs') \<Longrightarrow>
   p \<notin> (\<lambda>rel. fe_real env (path_clean (full_path base rel))) ` set rels \<Longrightarrow> fs' p = fs p"
proof (induction rels arbitrary: fs)
  case (Cons rel rels)
  obtain e1 fs1 where s: "apply_file env base rel (filter (\<lambda>b. eb_Filepath b = rel) bs) fs = (e1, fs1)"
    by (cases "apply_file env base rel (filter (\<lambda>b. eb_Filepath b = rel) bs) fs")
  then have "fs1 p = fs p" using Cons.prems(2) apply_file_frame by auto
  with s Cons show ?case by (cases e1) auto
qed simp

definition block_paths :: "fs_env \<Rightarrow> string \<Rightarrow> edit_block list \<Rightarrow> string set" where
  "block_paths env base bs = (\<lambda>b. fe_real env (path_clean (full_path base (eb_Filepath b)))) ` set bs"

lemma ApplySearchReplace_frame:
  assumes "permuting order" "ApplySearchReplace order env bs base fs = (e, fs')"
    and "p \<notin> block_paths env base bs"
  shows "fs' p = fs p"
proof (cases "list_ex (\<lambda>b. eb_Filepath b = '''') bs")
  case True
  with assms(2) show ?thesis by (simp add: ApplySearchReplace_def)
next
  case False
  then have a: "apply_files env base bs (order (remdups (map eb_Filepath bs))) fs = (e, fs')"
    using assms(2) by (simp add: ApplySearchReplace_def)
  have "p \<notin> (\<lambda>rel. fe_real env (path_clean (full_path base rel))) ` set (order (remdups (map eb_Filepath bs)))"
    using assms(1, 3) by (auto simp: block_paths_def)
  from apply_files_frame [OF a this] show ?thesis .
qed

lemma resolve_blocks_files:
  "resolve_blocks cwd v bs = Inr bs' \<Longrightarrow> b \<in> set bs' \<Longrightarrow>
   \<exists>a \<in> set bs. ToPhysical cwd v (eb_Filepath a) = Inr (eb_Filepath b)"
proof (induction bs arbitrary: bs')
  case (Cons a bs)
  then show ?case by (fastforce split: if_splits sum.splits)
qed simp

text \<open>
  C22: a file that a search and replace patch of an agent changes is the one the operating system
  finds at a path that the patch names and that lies inside the root of the context, whatever the
  blocks say and whether the application succeeds or stops at an error. Nothing resolves the symbolic
  links on that path: the file itself is inside the root when no link inside the root leads out of it.
\<close>

theorem agent_patch_contained:
  assumes "permuting order" "v = NewAgentPathContext cwd root0 u repo role"
    and "is_abs root0 \<or> cwd_ok cwd"
    and "sr_Apply order cwd env (Some v) base data fs = (e, fs')" "fs' p \<noteq> fs p"
  shows "\<exists>b \<in> set (ParseSearchReplace data). \<exists>q.
           ToPhysical cwd v (eb_Filepath b) = Inr q \<and> inside (pc_physicalRoot v) q \<and>
           p = fe_real env (path_clean q) \<and>
           ((\<forall>r. inside (pc_physicalRoot v) r \<longrightarrow> inside (pc_physicalRoot v) (fe_real env r)) \<longrightarrow>
            inside (pc_physicalRoot v) p)"
proof -
  let ?bs = "ParseSearchReplace data"
  obtain bs' where r: "resolve_blocks cwd v ?bs = Inr bs'"
    "ApplySearchReplace order env bs' '''' fs = (e, fs')"
    using assms(4, 5) by (auto simp: sr_Apply_def Let_def split: sum.splits)
  with ApplySearchReplace_frame [OF assms(1) r(2)] assms(5)
  obtain b where b: "b \<in> set bs'" "p = fe_real env (path_clean (eb_Filepath b))"
    by (auto simp: block_paths_def full_path_def)
  obtain a where a: "a \<in> set ?bs" "ToPhysical cwd v (eb_Filepath a) = Inr (eb_Filepath b)"
    using resolve_blocks_files [OF r(1) b(1)] by blast
  have q: "inside (pc_physicalRoot v) (eb_Filepath b)"
    using a(2) ToPhysical_inside context_root [OF assms(2, 3)] by blast
  then have "inside (pc_physicalRoot v) (path_clean (eb_Filepath b))" by (simp add: inside_def)
  with a q b(2) show ?thesis by blast
qed

definition demo_data :: string where
  "demo_data = join NL [''src/../a.go'', search_mark, ''x'', divider_mark, ''y'', replace_mark]"

text \<open>The links of a machine on which \<^verbatim>\<open>a.go\<close> inside the root leads to a file outside of it.\<close>

definition linked :: fs_env where
  "linked = no_faults\<lparr>fe_real := (\<lambda>p. if p = ''/w/wt/a.go'' then ''/etc/a'' else p)\<rparr>"

abbreviation demo_ctx :: path_ctx where
  "demo_ctx \<equiv> NewAgentPathContext None ''/w/wt'' False ''api'' ''backend''"

lemma demo_patch_applies:
  "sr_Apply id None linked (Some demo_ctx) (Inr '''') demo_data [''/etc/a'' \<mapsto> ''x'' @ NL] =
     (None, [''/etc/a'' \<mapsto> ''y'' @ NL])"
proof -
  let ?fs = "[''/etc/a'' \<mapsto> ''x'' @ NL]"
  have p: "ParseSearchReplace demo_data =
      [\<lparr>eb_Filepath = ''src/../a.go'', eb_Search = ''x'' @ NL, eb_Replace = ''y'' @ NL\<rparr>]"
    by code_simp
  have t: "ToPhysical None demo_ctx ''src/../a.go'' = Inr ''/w/wt/a.go''" by code_simp
  have c: "path_clean ''/w/wt/a.go'' = ''/w/wt/a.go''" by code_simp
  let ?b = "\<lparr>eb_Filepath = ''/w/wt/a.go'', eb_Search = ''x'' @ NL, eb_Replace = ''y'' @ NL\<rparr>"
  have b: "apply_blocks ''/w/wt/a.go'' [?b] (normalize_newlines (''x'' @ NL)) = Inr (''y'' @ NL)"
    by code_simp
  have "apply_file linked '''' ''/w/wt/a.go'' [?b] ?fs = (None, ?fs(''/etc/a'' \<mapsto> ''y'' @ NL))"
    unfolding apply_file_def read_file_def full_path_def write_file_def linked_def no_faults_def Let_def
    by (simp only: simp_thms if_True c fs_env.simps fun_upd_same option.case read_result.case b sum.case)
  moreover have "resolve_blocks None demo_ctx
      [\<lparr>eb_Filepath = ''src/../a.go'', eb_Search = ''x'' @ NL, eb_Replace = ''y'' @ NL\<rparr>] = Inr [?b]"
    by (simp only: resolve_blocks.simps t sum.case edit_block.simps) simp
  ultimately show ?thesis
    by (simp add: sr_Apply_def p ApplySearchReplace_def Let_def del: resolve_blocks.simps)
qed

theorem agent_patch_contained_witness:
  "\<exists>b \<in> set (ParseSearchReplace demo_data). \<exists>q.
     ToPhysical None demo_ctx (eb_Filepath b) = Inr q \<and> inside (pc_physicalRoot demo_ctx) q \<and>
     ''/etc/a'' = fe_real linked (path_clean q)"
proof -
  have "[''/etc/a'' \<mapsto> ''y'' @ NL] ''/etc/a'' \<noteq> [''/etc/a'' \<mapsto> ''x'' @ NL] ''/etc/a''" by simp
  moreover have "is_abs ''/w/wt'' \<or> cwd_ok None" by (rule disjI1) code_simp
  ultimately show ?thesis
    using agent_patch_contained [OF permuting_id(2) refl _ demo_patch_applies] by blast
qed

text \<open>
  The links matter: here the patch of an agent with the root \<^verbatim>\<open>/w/wt\<close> changes a file outside of it.
\<close>

lemma link_leads_out:
  "pc_physicalRoot demo_ctx = ''/w/wt''" "\<not> inside ''/w/wt'' ''/etc/a''"
  "sr_Apply id None linked (Some demo_ctx) (Inr '''') demo_data [''/etc/a'' \<mapsto> ''x'' @ NL] =
     (None, [''/etc/a'' \<mapsto> ''y'' @ NL])"
proof -
  show "pc_physicalRoot demo_ctx = ''/w/wt''" by code_simp
  show "\<not> inside ''/w/wt'' ''/etc/a''" by code_simp
qed (rule demo_patch_applies)

section \<open>Validated blocks apply\<close>

text \<open>Normalising line ends keeps a text empty or non-empty.\<close>

lemma replace_all_empty_iff:
  assumes "old \<noteq> ''''" "new \<noteq> ''''"
  shows "replace_all s old new = '''' \<longleftrightarrow> s = ''''"
proof (cases "index_of s old")
  case None
  then show ?thesis using assms by (simp add: replace_all_def split_on_None)
next
  case (Some i)
  then have "s \<noteq> ''''" using assms(1) by (auto split: if_splits)
  with Some assms show ?thesis
    by (simp add: replace_all_def split_on_Some join_Cons_ne split_on_ne)
qed

lemma normalize_empty [simp]: "normalize_newlines s = '''' \<longleftrightarrow> s = ''''"
  by (simp add: normalize_newlines_def replace_all_empty_iff)

definition block_key :: "string \<Rightarrow> edit_block \<Rightarrow> string" where
  "block_key base b = path_clean (full_path base (eb_Filepath b))"

text \<open>The content an exact block leaves in a file that holds \<open>c\<close>.\<close>

definition edited :: "edit_block \<Rightarrow> string \<Rightarrow> string" where
  "edited b c =
     (if eb_Search b = '''' then normalize_newlines (eb_Replace b)
      else replace_first (normalize_newlines c) (normalize_newlines (eb_Search b))
             (normalize_newlines (eb_Replace b)))"

lemma path_clean_join: "path_clean (path_join [base, rel]) = path_clean (full_path base rel)"
  by (auto simp: full_path_def path_join_def)

lemma read_file_join: "read_file env fs (path_join [base, rel]) = read_file env fs (full_path base rel)"
  unfolding read_file_def path_clean_join ..

lemma filter_only: "distinct xs \<Longrightarrow> x \<in> set xs \<Longrightarrow> filter (\<lambda>y. y = x) xs = [x]"
proof (induction xs)
  case (Cons y ys)
  then show ?case by (cases "y = x") (auto simp: filter_empty_conv)
qed simp

lemma validated_named: "validate_block env fs base b = [] \<Longrightarrow> eb_Filepath b \<noteq> ''''"
  by (auto simp: validate_block_def)

lemma validated_block_applies:
  assumes "validate_block no_faults fs base b = []"
    and "fs (block_key base b) = None \<Longrightarrow> eb_Search b = ''''"
  shows "eb_Filepath b \<noteq> '''' \<and>
         apply_file no_faults base (eb_Filepath b) [b] fs =
           (None, fs(block_key base b \<mapsto> edited b (or_zero '''' (fs (block_key base b)))))"
proof (cases "fs (block_key base b)")
  case None
  then have "read_file no_faults fs (full_path base (eb_Filepath b)) = ReadNotExist"
    by (simp add: read_file_def no_faults_def block_key_def)
  with assms None show ?thesis
    by (auto simp: validate_block_def apply_file_def apply_block_def Let_def write_file_def
        no_faults_def block_key_def edited_def split: if_splits)
next
  case (Some c)
  then have r: "read_file no_faults fs (full_path base (eb_Filepath b)) = ReadOk c"
    by (simp add: read_file_def no_faults_def block_key_def)
  let ?n = "str_count (normalize_newlines c) (normalize_newlines (eb_Search b))"
  have n: "eb_Search b = '''' \<or> ?n = 1" and f: "eb_Filepath b \<noteq> ''''"
    using assms(1) r by (auto simp: validate_block_def read_file_join Let_def split: if_splits)
  have "apply_block (eb_Filepath b) b (normalize_newlines c) = Inr (edited b c)"
    using n by (auto simp: apply_block_def Let_def edited_def)
  with r f Some show ?thesis
    by (simp add: apply_file_def Let_def write_file_def no_faults_def block_key_def)
qed

lemma validated_blocks_apply:
  assumes "\<And>b. b \<in> set todo \<Longrightarrow> b \<in> set bs \<and> validate_block no_faults fs base b = [] \<and>
             (fs (block_key base b) = None \<longrightarrow> eb_Search b = '''')"
    and "distinct (map (block_key base) bs)" "distinct todo"
    and "\<And>b. b \<in> set todo \<Longrightarrow> fs1 (block_key base b) = fs (block_key base b)"
  shows "\<exists>fs'. apply_files no_faults base bs (map eb_Filepath todo) fs1 = (None, fs') \<and>
           (\<forall>b \<in> set todo. fs' (block_key base b) =
              Some (edited b (or_zero '''' (fs (block_key base b))))) \<and>
           (\<forall>p. p \<notin> block_key base ` set todo \<longrightarrow> fs' p = fs1 p)"
  using assms(1, 3, 4)
proof (induction todo arbitrary: fs1)
  case (Cons b todo)
  let ?fs2 = "fs1(block_key base b \<mapsto> edited b (or_zero '''' (fs (block_key base b))))"
  have b: "b \<in> set bs" "validate_block no_faults fs base b = []"
    "fs (block_key base b) = None \<longrightarrow> eb_Search b = ''''" "fs1 (block_key base b) = fs (block_key base b)"
    using Cons.prems by auto
  have inj: "x \<in> set bs \<Longrightarrow> y \<in> set bs \<Longrightarrow> block_key base x = block_key base y \<Longrightarrow> x = y" for x y
    using assms(2) by (auto simp: distinct_map dest: inj_onD)
  have fb: "filter (\<lambda>x. eb_Filepath x = eb_Filepath b) bs = [b]"
  proof -
    have "filter (\<lambda>x. eb_Filepath x = eb_Filepath b) bs = filter (\<lambda>x. x = b) bs"
      using inj b(1) by (intro filter_cong) (auto simp: block_key_def)
    also have "\<dots> = [b]"
      using assms(2) b(1) by (simp add: distinct_map filter_only)
    finally show ?thesis .
  qed
  have "read_file no_faults fs1 (full_path base (eb_Filepath b)) =
      read_file no_faults fs (full_path base (eb_Filepath b))"
    using b(4) by (simp add: read_file_def block_key_def no_faults_def)
  then have "validate_block no_faults fs1 base b = []"
    using b(2) by (simp only: validate_block_def read_file_join)
  then have ap: "apply_file no_faults base (eb_Filepath b) [b] fs1 = (None, ?fs2)"
    using validated_block_applies [of fs1 base b] b(3, 4) by simp
  have "?fs2 (block_key base x) = fs (block_key base x)" if "x \<in> set todo" for x
  proof -
    from that Cons.prems have "x \<in> set bs" "x \<noteq> b" by auto
    with inj b(1) have "block_key base x \<noteq> block_key base b" by blast
    with that Cons.prems(3) show ?thesis by simp
  qed
  then have "\<exists>fs'. apply_files no_faults base bs (map eb_Filepath todo) ?fs2 = (None, fs') \<and>
      (\<forall>x \<in> set todo. fs' (block_key base x) =
         Some (edited x (or_zero '''' (fs (block_key base x))))) \<and>
      (\<forall>p. p \<notin> block_key base ` set todo \<longrightarrow> fs' p = ?fs2 p)"
    by (intro Cons.IH) (use Cons.prems in auto)
  then obtain fs' where fs': "apply_files no_faults base bs (map eb_Filepath todo) ?fs2 = (None, fs')"
    "\<forall>x \<in> set todo. fs' (block_key base x) = Some (edited x (or_zero '''' (fs (block_key base x))))"
    "\<forall>p. p \<notin> block_key base ` set todo \<longrightarrow> fs' p = ?fs2 p" by blast
  have "block_key base b \<notin> block_key base ` set todo"
  proof
    assume "block_key base b \<in> block_key base ` set todo"
    then obtain x where "x \<in> set todo" "block_key base x = block_key base b" by auto
    with inj b(1) Cons.prems show False by auto
  qed
  with fs' have "(\<forall>x \<in> set (b # todo). fs' (block_key base x) =
      Some (edited x (or_zero '''' (fs (block_key base x))))) \<and>
      (\<forall>p. p \<notin> block_key base ` set (b # todo) \<longrightarrow> fs' p = fs1 p)" by simp
  moreover have "apply_files no_faults base bs (map eb_Filepath (b # todo)) fs1 = (None, fs')"
    using fs'(1) by (simp only: list.map apply_files.simps fb ap prod.case option.case)
  ultimately show ?case by blast
qed auto

text \<open>
  blocks for different files that pass the validation apply: every file gets its edit and
  nothing else changes, when files with a search text exist and the operating system does not fail.
\<close>

theorem validated_patch_applies:
  assumes "permuting order" "ValidateSearchReplace no_faults fs bs base = []"
    and "distinct (map (block_key base) bs)"
    and "\<forall>b \<in> set bs. fs (block_key base b) = None \<longrightarrow> eb_Search b = ''''"
  shows "\<exists>fs'. ApplySearchReplace order no_faults bs base fs = (None, fs') \<and>
           (\<forall>b \<in> set bs. fs' (block_key base b) =
              Some (edited b (or_zero '''' (fs (block_key base b))))) \<and>
           (\<forall>p. p \<notin> block_key base ` set bs \<longrightarrow> fs' p = fs p)"
proof -
  have v: "validate_block no_faults fs base b = []" if "b \<in> set bs" for b
    using assms(2) that by (auto simp: ValidateSearchReplace_def)
  have named: "\<not> list_ex (\<lambda>b. eb_Filepath b = '''') bs"
    using v validated_named unfolding list_ex_iff by blast
  have inj: "inj_on eb_Filepath (set bs)"
    using assms(3) by (auto simp: distinct_map block_key_def inj_on_def)
  let ?rels = "order (remdups (map eb_Filepath bs))"
  let ?todo = "map (the_inv_into (set bs) eb_Filepath) ?rels"
  have rels: "set ?rels = eb_Filepath ` set bs" "distinct ?rels"
    using assms(1) by simp_all
  have m: "map eb_Filepath ?todo = ?rels"
    using rels(1) f_the_inv_into_f [OF inj] by (auto intro: map_idI)
  have st: "set ?todo = set bs"
    using rels(1) the_inv_into_f_f [OF inj] by (force simp: image_iff)
  have dt: "distinct ?todo"
    using rels(2) m distinct_map by metis
  have "\<exists>fs'. apply_files no_faults base bs (map eb_Filepath ?todo) fs = (None, fs') \<and>
           (\<forall>b \<in> set ?todo. fs' (block_key base b) =
              Some (edited b (or_zero '''' (fs (block_key base b))))) \<and>
           (\<forall>p. p \<notin> block_key base ` set ?todo \<longrightarrow> fs' p = fs p)"
    by (rule validated_blocks_apply [OF _ assms(3) dt]) (use st v assms(4) in auto)
  then show ?thesis
    by (simp only: m st ApplySearchReplace_def named if_False)
qed

definition demo_blocks :: "edit_block list" where
  "demo_blocks =
     [\<lparr>eb_Filepath = ''a.go'', eb_Search = ''x'' @ NL, eb_Replace = ''y'' @ NL\<rparr>,
      \<lparr>eb_Filepath = ''new.go'', eb_Search = '''', eb_Replace = ''z'' @ NL\<rparr>]"

definition demo_files :: files where
  "demo_files = [''/w/a.go'' \<mapsto> ''x'' @ NL]"

theorem validated_patch_applies_witness:
  "\<exists>fs'. ApplySearchReplace rev no_faults demo_blocks ''/w'' demo_files = (None, fs') \<and>
     (\<forall>b \<in> set demo_blocks. fs' (block_key ''/w'' b) =
        Some (edited b (or_zero '''' (demo_files (block_key ''/w'' b))))) \<and>
     (\<forall>p. p \<notin> block_key ''/w'' ` set demo_blocks \<longrightarrow> fs' p = demo_files p)"
proof (rule validated_patch_applies)
  have k: "map (block_key ''/w'') demo_blocks = [''/w/a.go'', ''/w/new.go'']" by code_simp
  then show "distinct (map (block_key ''/w'') demo_blocks)" by simp
  show "ValidateSearchReplace no_faults demo_files demo_blocks ''/w'' = []" by code_simp
  show "\<forall>b \<in> set demo_blocks. demo_files (block_key ''/w'' b) = None \<longrightarrow> eb_Search b = ''''"
    using k by (simp add: demo_blocks_def demo_files_def)
qed simp

text \<open>
  For a missing file the validation asks for a blank search text and the application for an empty
  one: a block whose search text is a blank line passes the first and fails in the second.
\<close>

lemma blank_search_refused:
  "ValidateSearchReplace no_faults Map.empty
     [\<lparr>eb_Filepath = ''n.go'', eb_Search = NL, eb_Replace = ''z'' @ NL\<rparr>] ''/w'' = []"
  "ApplySearchReplace id no_faults
     [\<lparr>eb_Filepath = ''n.go'', eb_Search = NL, eb_Replace = ''z'' @ NL\<rparr>] ''/w'' Map.empty =
     (Some (NotFound ''n.go''), Map.empty)"
proof -
  let ?b = "\<lparr>eb_Filepath = ''n.go'', eb_Search = NL, eb_Replace = ''z'' @ NL\<rparr>"
  show "ValidateSearchReplace no_faults Map.empty [?b] ''/w'' = []" by code_simp
  have "apply_blocks ''n.go'' [?b] (normalize_newlines '''') = Inl (NotFound ''n.go'')" by code_simp
  then show "ApplySearchReplace id no_faults [?b] ''/w'' Map.empty = (Some (NotFound ''n.go''), Map.empty)"
    by (simp add: ApplySearchReplace_def apply_file_def read_file_def no_faults_def Let_def)
qed

text \<open>
  The application is not atomic: an error in a later file leaves the earlier files written.
\<close>

lemma apply_not_atomic:
  assumes "apply_file env base r1 (filter (\<lambda>b. eb_Filepath b = r1) bs) fs = (None, fs1)"
    and "apply_file env base r2 (filter (\<lambda>b. eb_Filepath b = r2) bs) fs1 = (Some e, fs2)"
  shows "apply_files env base bs [r1, r2] fs = (Some e, fs2)"
  using assms by simp

end
