(* ===== verification/Patch_Policy.thy ===== *)
theory Patch_Policy
  imports Patch_Apply Task_Model
begin

text \<open>
  The policy of \<^verbatim>\<open>orchestrator/patch/policy_engine.go\<close> and its use before a patch is applied
  (\<^verbatim>\<open>ApplyPatch\<close> in \<^verbatim>\<open>applier.go\<close>): the security review of the changed paths, the boundary of the
  agent and the execution boundaries of the analysis. The patches of the repositories are given as
  the split of the source leaves them, an association list from repository names.
\<close>

section \<open>Decisions\<close>

datatype severity = SeverityInfo | SeverityWarning | SeverityError | SeverityCritical

text \<open>The reasons, with the arguments that their texts format.\<close>

datatype policy_reason =
    WorkspacePrefixed string
  | SensitiveFile string
  | DependencyByCapability string
  | DependencyInSpec string
  | DependencyExpanded string
  | AuthorizedUnder string string
  | ExpandedUnder string string string
  | MissingCapability string string string
  | OutsidePreApproved string
  | OutsideAll string

record policy_decision =
  pd_Severity :: severity
  pd_Reason :: policy_reason
  pd_Capability :: string
  pd_Risk :: string

definition criticalPatterns :: "(string \<Rightarrow> bool) list" where
  "criticalPatterns =
     [\<lambda>f. has_prefix f ''.github/'', \<lambda>f. str_contains (to_lower f) ''dockerfile'',
      \<lambda>f. str_contains (to_lower f) ''makefile'', \<lambda>f. str_contains (to_lower f) ''docker-compose'',
      \<lambda>f. has_prefix f ''terraform/'', \<lambda>f. has_prefix f ''scripts/'', \<lambda>f. has_prefix f ''.env'',
      \<lambda>f. str_contains (to_lower f) ''credential'', \<lambda>f. str_contains (to_lower f) ''secret'']"

definition is_critical :: "string \<Rightarrow> bool" where
  "is_critical f = list_ex (\<lambda>pat. pat f) criticalPatterns"

definition clean_root :: "execution_boundary \<Rightarrow> string" where
  "clean_root b = (let r = path_clean (eb_root b) in if r = ''.'' \<or> r = slash then '''' else r)"

text \<open>Whether a file lies in a boundary, as the two loops of \<open>EvaluatePolicy\<close> test it.\<close>

definition boundary_match :: "string \<Rightarrow> execution_boundary \<Rightarrow> bool" where
  "boundary_match file b =
     (let root = clean_root b; repo = eb_repo_name b;
          m1 = (root = '''' \<or> file = root \<or> has_prefix file (root @ slash));
          m2 = (if \<not> m1 \<and> repo \<noteq> ''''
                then if has_prefix file (repo @ slash)
                     then (let stripped = trim_prefix file (repo @ slash)
                           in root = '''' \<or> stripped = root \<or> has_prefix stripped (root @ slash))
                     else file = repo \<and> root = ''''
                else m1)
      in if \<not> m2 \<and> repo \<noteq> '''' \<and> root \<noteq> ''''
         then (let repo_root = repo @ slash @ root
               in file = repo_root \<or> has_prefix file (repo_root @ slash))
         else m2)"

definition pre_approved :: "string \<Rightarrow> task_analysis \<Rightarrow> bool" where
  "pre_approved file an =
     list_ex (\<lambda>af. let f = path_clean (trim_space (af_file af))
                    in file = f \<or> has_suffix file (slash @ f) \<or> has_suffix f (slash @ file))
       (an_affected_files an)"

definition infra_capability :: "execution_boundary \<Rightarrow> bool" where
  "infra_capability b =
     (let root = clean_root b; specific = (root \<noteq> '''' \<and> root \<noteq> ''.'' \<and> root \<noteq> slash)
      in list_ex (\<lambda>cap. cap = ''modify_infrastructure'' \<or> cap = ''modify_sensitive'' \<or>
                          (specific \<and> (cap = ''modify_existing'' \<or> cap = ''create_helper'')))
           (eb_capabilities b))"

definition infra_allowed :: "string \<Rightarrow> task_analysis option \<Rightarrow> bool" where
  "infra_allowed file analysis =
     (case analysis of
        None \<Rightarrow> False
      | Some an \<Rightarrow>
          list_ex (\<lambda>b. boundary_match file b \<and> (pre_approved file an \<or> infra_capability b))
            (an_execution_boundaries an))"

definition config_names :: "string list" where
  "config_names =
     [''go.mod'', ''go.sum'', ''package.json'', ''yarn.lock'', ''package-lock.json'', ''pnpm-lock.yaml'',
      ''Cargo.toml'', ''Cargo.lock'', ''requirements.txt'', ''poetry.lock'', ''pyproject.toml'']"

definition decide_config :: "string \<Rightarrow> task_analysis \<Rightarrow> policy_decision" where
  "decide_config file an =
     (let dec = (\<lambda>sev reason. \<lparr>pd_Severity = sev, pd_Reason = reason, pd_Capability = ''add_dependency'',
                                pd_Risk = ''MEDIUM''\<rparr>)
      in if list_ex (\<lambda>b. ''add_dependency'' \<in> set (eb_capabilities b)) (an_execution_boundaries an)
         then dec SeverityInfo (DependencyByCapability file)
         else if pre_approved file an then dec SeverityInfo (DependencyInSpec file)
         else dec SeverityWarning (DependencyExpanded file))"

definition required_capability :: "string \<Rightarrow> bool \<Rightarrow> string" where
  "required_capability base is_new =
     (if has_suffix base ''_test.go'' \<or> str_contains base ''.test.'' \<or> str_contains base ''.spec.''
      then ''create_test''
      else if str_contains (to_lower base) ''mock'' then ''generate_mock''
      else if base = ''index.ts'' \<or> base = ''mod.rs'' \<or> base = ''__init__.py'' then ''modify_exports''
      else if is_new then ''create_helper'' else ''modify_existing'')"

definition decide_boundary :: "string \<Rightarrow> string \<Rightarrow> task_analysis \<Rightarrow> policy_decision" where
  "decide_boundary file cap an =
     (let dec = (\<lambda>sev reason risk. \<lparr>pd_Severity = sev, pd_Reason = reason, pd_Capability = cap,
                                     pd_Risk = risk\<rparr>)
      in case find (boundary_match file) (an_execution_boundaries an) of
           Some b \<Rightarrow>
             if cap \<in> set (eb_capabilities b)
             then dec SeverityInfo (AuthorizedUnder (eb_module b) cap) ''LOW''
             else if cap \<in> {''create_test'', ''create_helper'', ''generate_mock''}
             then dec SeverityInfo (ExpandedUnder cap (eb_module b) file) ''LOW''
             else dec SeverityWarning (MissingCapability cap (eb_module b) file) ''LOW''
         | None \<Rightarrow>
             if pre_approved file an then dec SeverityWarning (OutsidePreApproved file) ''MEDIUM''
             else dec SeverityError (OutsideAll file) ''HIGH'')"

text \<open>
  \<open>None\<close> is the panic of a missing analysis, which the checks behind the first one dereference.
\<close>

definition EvaluatePolicy ::
  "string \<Rightarrow> string \<Rightarrow> task_analysis option \<Rightarrow> bool \<Rightarrow> policy_decision option" where
  "EvaluatePolicy file0 old_file analysis is_repo_root =
     (let file = path_clean (trim_space file0);
          is_new = (old_file = ''/dev/null'' \<or> old_file = '''');
          base = path_base file
      in if is_repo_root \<and> has_prefix (trim_prefix file slash) ''code/repos/''
         then Some \<lparr>pd_Severity = SeverityError, pd_Reason = WorkspacePrefixed file,
                    pd_Capability = '''', pd_Risk = ''HIGH''\<rparr>
         else if is_critical file \<and> \<not> infra_allowed file analysis
         then Some \<lparr>pd_Severity = SeverityCritical, pd_Reason = SensitiveFile file,
                    pd_Capability = '''', pd_Risk = ''CRITICAL''\<rparr>
         else case analysis of
                None \<Rightarrow> None
              | Some an \<Rightarrow>
                  if base \<in> set config_names then Some (decide_config file an)
                  else Some (decide_boundary file (required_capability base is_new) an))"

section \<open>The gate before a patch is applied\<close>

record policy_violation =
  pv_Severity :: severity
  pv_Reason :: string
  pv_AllowedRoot :: string
  pv_Violations :: "string list"

definition plus_file :: "string \<Rightarrow> string" where
  "plus_file line =
     (if has_prefix line ''+++ '' then trim_prefix (trim_space (trim_prefix line ''+++ '')) ''b/'' else '''')"

definition names_file :: "string \<Rightarrow> bool" where
  "names_file f = (f \<noteq> '''' \<and> f \<noteq> ''/dev/null'')"

text \<open>The security review: the paths of the new sides, prefixed with their repository.\<close>

definition repo_changed_paths :: "string \<times> string \<Rightarrow> string list" where
  "repo_changed_paths = (\<lambda>(repo, text).
     map (\<lambda>f. if repo \<noteq> '''' \<and> \<not> has_prefix f (repo @ slash) then repo @ slash @ f else f)
       (filter names_file (map plus_file (split_lines text))))"

definition security_gate ::
  "(string list \<Rightarrow> string \<Rightarrow> bool \<times> string) option \<Rightarrow> (string \<times> string) list \<Rightarrow> string \<Rightarrow>
   policy_violation option" where
  "security_gate check patches patch_text =
     (case check of
        None \<Rightarrow> None
      | Some chk \<Rightarrow>
          let changed = concat (map repo_changed_paths patches)
          in if fst (chk changed patch_text)
             then Some \<lparr>pv_Severity = SeverityCritical, pv_Reason = ''security_review_required'',
                        pv_AllowedRoot = '''', pv_Violations = changed\<rparr>
             else None)"

text \<open>The boundary of the agent, for the old and the new side of every file.\<close>

definition logical_file :: "path_ctx \<Rightarrow> string \<Rightarrow> string \<Rightarrow> string" where
  "logical_file v repo f =
     (if pc_UseRepoPrefix v \<and> repo \<noteq> '''' \<and> \<not> has_prefix f (repo @ slash) then repo @ slash @ f else f)"

definition context_gate ::
  "string option \<Rightarrow> path_ctx option \<Rightarrow> (string \<times> string) list \<Rightarrow> policy_violation option" where
  "context_gate cwd ctx patches =
     (case ctx of
        None \<Rightarrow> None
      | Some v \<Rightarrow>
          map_option (\<lambda>f. \<lparr>pv_Severity = SeverityCritical, pv_Reason = ''unauthorized_path'',
                           pv_AllowedRoot = '''', pv_Violations = [f]\<rparr>)
            (find (\<lambda>f. is_err (ToPhysical cwd v f))
               (concat (map (\<lambda>(repo, text). map (logical_file v repo)
                               (filter names_file (map diff_line_file (split_lines text))))
                          patches))))"

text \<open>The boundaries a patch is checked against: those of the analysis, or one per directory.\<close>

fun derived_boundaries :: "string list \<Rightarrow> affected_file list \<Rightarrow> execution_boundary list" where
  "derived_boundaries seen [] = []"
| "derived_boundaries seen (af # afs) =
     (let d = path_dir (af_file af); dir = (if d = ''.'' \<or> d = slash then '''' else d)
      in if dir \<in> set seen then derived_boundaries seen afs
         else \<lparr>eb_module = path_base dir, eb_root = dir,
               eb_capabilities = [''modify_existing'', ''create_test'', ''create_helper''],
               eb_repo_name = '''', eb_repository_id = ''''\<rparr>
              # derived_boundaries (dir # seen) afs)"

definition effective_analysis :: "task_analysis \<Rightarrow> task_analysis" where
  "effective_analysis an =
     (if an_execution_boundaries an = [] \<and> an_affected_files an \<noteq> []
      then an\<lparr>an_execution_boundaries := derived_boundaries [] (an_affected_files an)\<rparr>
      else an)"

text \<open>
  One line of a repository: the file of the old side is remembered, the one of the new side is
  evaluated. The scan stops at a critical decision.
\<close>

record scan_state =
  sc_old :: string
  sc_errs :: "string list"
  sc_expansions :: "(string \<times> policy_decision) list"

definition scan_line ::
  "task_analysis \<Rightarrow> string \<Rightarrow> string \<Rightarrow> scan_state \<Rightarrow> string + scan_state" where
  "scan_line an repo line st =
     (if has_prefix line ''--- ''
      then Inr (st\<lparr>sc_old := trim_prefix (trim_space (trim_prefix line ''--- '')) ''a/''\<rparr>)
      else if names_file (plus_file line)
      then (let rel = (if repo \<noteq> '''' then repo @ slash @ plus_file line else plus_file line)
            in case EvaluatePolicy rel (sc_old st) (Some an) False of
                 None \<Rightarrow> Inr st
               | Some d \<Rightarrow>
                   (case pd_Severity d of
                      SeverityCritical \<Rightarrow> Inl rel
                    | SeverityError \<Rightarrow> Inr (st\<lparr>sc_errs := sc_errs st @ [rel]\<rparr>)
                    | _ \<Rightarrow> Inr (st\<lparr>sc_expansions := sc_expansions st @ [(rel, d)]\<rparr>)))
      else Inr st)"

fun scan_lines :: "task_analysis \<Rightarrow> string \<Rightarrow> string list \<Rightarrow> scan_state \<Rightarrow> string + scan_state" where
  "scan_lines an repo [] st = Inr st"
| "scan_lines an repo (l # ls) st = bind_err (scan_line an repo l st) (scan_lines an repo ls)"

fun scan_repos :: "task_analysis \<Rightarrow> (string \<times> string) list \<Rightarrow> scan_state \<Rightarrow> string + scan_state" where
  "scan_repos an [] st = Inr st"
| "scan_repos an ((repo, text) # ps) st =
     bind_err (scan_lines an repo (split_lines text) (st\<lparr>sc_old := ''''\<rparr>)) (scan_repos an ps)"

definition scan_start :: scan_state where
  "scan_start = \<lparr>sc_old = '''', sc_errs = [], sc_expansions = []\<rparr>"

text \<open>
  The violation, or the boundaries that were expanded and the analysis is extended with. A missing
  or unreadable analysis and a restoring step skip the check.
\<close>

definition boundary_gate ::
  "string \<Rightarrow> task_analysis option \<Rightarrow> (string \<times> string) list \<Rightarrow>
   policy_violation + (string \<times> policy_decision) list" where
  "boundary_gate sid analysis patches =
     (case analysis of
        None \<Rightarrow> Inr []
      | Some an0 \<Rightarrow>
          if has_suffix sid ''_restore'' then Inr []
          else let an = effective_analysis an0
               in case scan_repos an patches scan_start of
                    Inl rel \<Rightarrow>
                      Inl \<lparr>pv_Severity = SeverityCritical, pv_Reason = ''critical_violation'',
                           pv_AllowedRoot = '''', pv_Violations = [rel]\<rparr>
                  | Inr st \<Rightarrow>
                      if sc_errs st \<noteq> []
                      then Inl \<lparr>pv_Severity = SeverityError, pv_Reason = ''outside_module'',
                                pv_AllowedRoot = join '', '' (map eb_root (an_execution_boundaries an)),
                                pv_Violations = sc_errs st\<rparr>
                      else Inr (sc_expansions st))"

definition patch_gate ::
  "(string list \<Rightarrow> string \<Rightarrow> bool \<times> string) option \<Rightarrow> string option \<Rightarrow> path_ctx option \<Rightarrow> string \<Rightarrow>
   task_analysis option \<Rightarrow> (string \<times> string) list \<Rightarrow> string \<Rightarrow>
   policy_violation + (string \<times> policy_decision) list" where
  "patch_gate check cwd ctx sid analysis patches patch_text =
     (case security_gate check patches patch_text of
        Some v \<Rightarrow> Inl v
      | None \<Rightarrow>
          (case context_gate cwd ctx patches of
             Some v \<Rightarrow> Inl v
           | None \<Rightarrow> boundary_gate sid analysis patches))"

end
