(* ===== verification/Policy_Gate.thy ===== *)
theory Policy_Gate
  imports Patch_Policy Guardrails
begin

text \<open>
  What the gate before a patch guarantees: every file on the new side of an accepted patch is
  authorised. And what it does not: the old side, that is deletions, is not evaluated at all, and
  an affected file at the top of a repository opens the whole workspace.
\<close>

section \<open>Authorised files\<close>

text \<open>
  The specification: an infrastructure file needs a boundary that allows it; any other file is a
  dependency list, or lies in a boundary, or is named by the analysis.
\<close>

definition authorised :: "task_analysis \<Rightarrow> string \<Rightarrow> bool" where
  "authorised an file =
     (let f = path_clean (trim_space file)
      in (is_critical f \<longrightarrow> infra_allowed f (Some an)) \<and>
         (path_base f \<in> set config_names \<or>
          list_ex (boundary_match f) (an_execution_boundaries an) \<or> pre_approved f an))"

definition lets_pass :: "policy_decision \<Rightarrow> bool" where
  "lets_pass d = (pd_Severity d \<noteq> SeverityCritical \<and> pd_Severity d \<noteq> SeverityError)"

lemma find_list_ex: "list_ex P xs = (find P xs \<noteq> None)"
  by (induction xs) auto

lemma decide_config_pass [simp]: "lets_pass (decide_config file an)"
  by (simp add: decide_config_def lets_pass_def Let_def)

lemma decide_boundary_pass:
  "lets_pass (decide_boundary file cap an) \<longleftrightarrow>
   list_ex (boundary_match file) (an_execution_boundaries an) \<or> pre_approved file an"
  by (simp add: find_list_ex decide_boundary_def lets_pass_def Let_def split: option.split)

lemma EvaluatePolicy_authorised:
  "EvaluatePolicy file old (Some an) False = Some d \<Longrightarrow> lets_pass d \<longleftrightarrow> authorised an file"
  by (auto simp: EvaluatePolicy_def authorised_def Let_def decide_boundary_pass split: if_splits)
     (auto simp: lets_pass_def)

lemma EvaluatePolicy_Some: "EvaluatePolicy file old (Some an) b \<noteq> None"
  by (auto simp: EvaluatePolicy_def Let_def)

definition repo_file :: "string \<Rightarrow> string \<Rightarrow> string" where
  "repo_file repo f = (if repo \<noteq> '''' then repo @ slash @ f else f)"

lemma scan_line_ok:
  assumes "scan_line an repo l st = Inr st'"
  shows "(\<exists>es. sc_errs st' = sc_errs st @ es) \<and>
         (sc_errs st' = sc_errs st \<longrightarrow> \<not> has_prefix l ''--- '' \<longrightarrow> names_file (plus_file l) \<longrightarrow>
          authorised an (repo_file repo (plus_file l)))"
proof -
  let ?rel = "repo_file repo (plus_file l)"
  obtain d where d: "EvaluatePolicy ?rel (sc_old st) (Some an) False = Some d"
    using EvaluatePolicy_Some [of ?rel "sc_old st" an False] by auto
  show ?thesis
    using assms d EvaluatePolicy_authorised [OF d]
    by (auto simp: scan_line_def Let_def repo_file_def lets_pass_def split: if_splits severity.splits)
qed

lemma plus_not_minus: "names_file (plus_file l) \<Longrightarrow> \<not> has_prefix l ''--- ''"
  by (auto simp: plus_file_def names_file_def has_prefix_def prefix_def split: if_splits)

lemma scan_lines_ok:
  "scan_lines an repo ls st = Inr st' \<Longrightarrow>
   (\<exists>es. sc_errs st' = sc_errs st @ es) \<and>
   (sc_errs st' = [] \<longrightarrow>
    (\<forall>l \<in> set ls. names_file (plus_file l) \<longrightarrow> authorised an (repo_file repo (plus_file l))))"
proof (induction ls arbitrary: st)
  case (Cons l ls)
  then obtain st1 where s: "scan_line an repo l st = Inr st1" "scan_lines an repo ls st1 = Inr st'"
    by (auto simp: bind_err_Inr)
  from scan_line_ok [OF s(1)] obtain es1 where "sc_errs st1 = sc_errs st @ es1" by auto
  with Cons.IH [OF s(2)] scan_line_ok [OF s(1)] plus_not_minus show ?case by auto
qed simp

lemma scan_repos_ok:
  "scan_repos an ps st = Inr st' \<Longrightarrow>
   (\<exists>es. sc_errs st' = sc_errs st @ es) \<and>
   (sc_errs st' = [] \<longrightarrow>
    (\<forall>(repo, body) \<in> set ps. \<forall>l \<in> set (split_lines body).
       names_file (plus_file l) \<longrightarrow> authorised an (repo_file repo (plus_file l))))"
proof (induction ps arbitrary: st)
  case (Cons p ps)
  obtain repo body where p: "p = (repo, body)" by (cases p)
  with Cons.prems obtain st1 where s: "scan_lines an repo (split_lines body) (st\<lparr>sc_old := ''''\<rparr>) = Inr st1"
    "scan_repos an ps st1 = Inr st'"
    by (auto simp: bind_err_Inr)
  from scan_lines_ok [OF s(1)] obtain es1 where "sc_errs st1 = sc_errs st @ es1" by auto
  with Cons.IH [OF s(2)] scan_lines_ok [OF s(1)] p show ?case by auto
qed simp


definition demo_analysis :: task_analysis where
  "demo_analysis = zero_analysis\<lparr>an_execution_boundaries :=
     [\<lparr>eb_module = ''svc'', eb_root = ''internal/svc'', eb_capabilities = [''modify_existing''],
       eb_repo_name = '''', eb_repository_id = ''''\<rparr>]\<rparr>"

definition demo_patch :: "(string \<times> string) list" where
  "demo_patch =
     [('''', join NL [''--- a/internal/svc/a.go'', ''+++ b/internal/svc/a.go'', ''@@ -1 +1 @@''])]"


section \<open>What is not evaluated\<close>

text \<open>
  a patch whose new sides are all missing, one that only deletes files, has no changed path for
  the security review and passes the boundary check, whatever files it deletes.
\<close>

lemma no_names_scan:
  assumes "\<forall>l \<in> set ls. \<not> names_file (plus_file l)"
  shows "\<exists>old. scan_lines an repo ls st = Inr (st\<lparr>sc_old := old\<rparr>)"
  using assms
proof (induction ls arbitrary: st)
  case Nil
  then show ?case by (intro exI [of _ "sc_old st"]) simp
next
  case (Cons l ls)
  then have "scan_line an repo l st =
      Inr (st\<lparr>sc_old := (if has_prefix l ''--- ''
                         then trim_prefix (trim_space (trim_prefix l ''--- '')) ''a/'' else sc_old st)\<rparr>)"
    by (simp add: scan_line_def)
  with Cons.IH [of "st\<lparr>sc_old := x\<rparr>" for x] Cons.prems show ?case by simp
qed

lemma no_names_repos:
  "\<forall>(repo, body) \<in> set ps. \<forall>l \<in> set (split_lines body). \<not> names_file (plus_file l) \<Longrightarrow>
   \<exists>old. scan_repos an ps st = Inr (st\<lparr>sc_old := old\<rparr>)"
proof (induction ps arbitrary: st)
  case Nil
  then show ?case by (intro exI [of _ "sc_old st"]) simp
next
  case (Cons p ps)
  obtain repo body where p: "p = (repo, body)" by (cases p)
  with Cons.prems obtain old where
    "scan_lines an repo (split_lines body) (st\<lparr>sc_old := ''''\<rparr>) = Inr (st\<lparr>sc_old := old\<rparr>)"
    using no_names_scan [of "split_lines body" an repo "st\<lparr>sc_old := ''''\<rparr>"] by auto
  with p Cons.IH [of "st\<lparr>sc_old := old\<rparr>"] Cons.prems show ?case by auto
qed

text \<open>
  a patch that names no file on the new side of a diff, so one that only deletes files or only
  renames them without edits, and that shows no secret passes all three gates (without a path context),
  whatever files it names on the old side.
\<close>

theorem deletions_unchecked:
  assumes "\<forall>(repo, body) \<in> set patches. \<forall>l \<in> set (split_lines body). \<not> names_file (plus_file l)"
    and "scanForHardcodedSecret patterns patch_text = ''''"
  shows "patch_gate (Some (checkSecurityReview patterns)) cwd None sid (Some an) patches patch_text = Inr []"
proof -
  have "filter names_file (map plus_file (split_lines body)) = []" if "(repo, body) \<in> set patches" for repo body
    using assms(1) that by (auto simp: filter_empty_conv)
  then have ch: "concat (map repo_changed_paths patches) = []"
    by (auto simp: repo_changed_paths_def)
  have "fst (checkSecurityReview patterns [] patch_text) = False"
    using assms(2) by (simp add: checkSecurityReview_def EvalSecurityReview_def deny_match_def)
  then have "security_gate (Some (checkSecurityReview patterns)) patches patch_text = None"
    by (simp only: security_gate_def option.case Let_def ch if_False)
  moreover have "boundary_gate sid (Some an) patches = Inr []"
    using no_names_repos [OF assms(1), of "effective_analysis an" scan_start]
    by (auto simp: boundary_gate_def Let_def scan_start_def)
  ultimately show ?thesis by (simp add: patch_gate_def context_gate_def)
qed

definition delete_workflow :: string where
  "delete_workflow = join NL
     [''diff --git a/.github/workflows/ci.yml b/.github/workflows/ci.yml'', ''deleted file mode 100644'',
      ''--- a/.github/workflows/ci.yml'', ''+++ /dev/null'', ''@@ -1 +0,0 @@'', ''-on: push'']"

theorem deletions_unchecked_witness:
  "patch_gate (Some (checkSecurityReview [])) None None ''code'' (Some demo_analysis)
     [('''', delete_workflow)] delete_workflow = Inr []"
proof (rule deletions_unchecked)
  have "list_all (\<lambda>l. \<not> names_file (plus_file l)) (split_lines delete_workflow)" by code_simp
  then show "\<forall>(repo, body) \<in> set [('''', delete_workflow)]. \<forall>l \<in> set (split_lines body).
      \<not> names_file (plus_file l)"
    by (simp add: list_all_iff)
qed (simp add: scanForHardcodedSecret_def)

text \<open>
  without boundaries in the analysis, one affected file at the top of a repository gives every
  file of the workspace a boundary, and no decision on an ordinary file is an error.
\<close>

lemma path_dir_ne: "'''' \<noteq> path_dir p"
proof -
  have "path_clean q \<noteq> ''''" for q by (simp add: path_clean_is_show)
  then show ?thesis unfolding path_dir_def Let_def by metis
qed

lemma derived_root:
  "path_dir (af_file af) = ''.'' \<Longrightarrow> af \<in> set afs \<Longrightarrow> '''' \<notin> set seen \<Longrightarrow>
   \<exists>b \<in> set (derived_boundaries seen afs). eb_root b = ''''"
proof (induction afs arbitrary: seen)
  case (Cons a afs)
  note IH = Cons.IH [OF Cons.prems(1)]
  from Cons.prems show ?case
    using IH [of seen] IH [of "path_dir (af_file a) # seen"] path_dir_ne
    by (auto simp: Let_def)
qed simp

theorem root_file_opens_workspace:
  assumes "an_execution_boundaries an = []" "af \<in> set (an_affected_files an)"
    and "path_dir (af_file af) = ''.''" "\<not> is_critical (path_clean (trim_space file))"
  shows "authorised (effective_analysis an) file"
proof -
  obtain b where "b \<in> set (derived_boundaries [] (an_affected_files an))" "eb_root b = ''''"
    using derived_root [OF assms(3, 2), of "[]"] by auto
  moreover from this have "clean_root b = ''''" by (simp add: clean_root_def path_clean_def)
  then have "boundary_match f b" for f by (simp add: boundary_match_def)
  moreover have "an_execution_boundaries (effective_analysis an) =
      derived_boundaries [] (an_affected_files an)"
    using assms(1, 2) by (auto simp: effective_analysis_def)
  ultimately show ?thesis
    using assms(4) by (auto simp: authorised_def Let_def list_ex_iff)
qed

theorem root_file_opens_workspace_witness:
  "authorised (effective_analysis (zero_analysis\<lparr>an_affected_files :=
     [\<lparr>af_repo = '''', af_file = ''README.md'', af_confidence = 1, af_reason = ''''\<rparr>]\<rparr>))
     ''internal/auth/login.go''"
proof (rule root_file_opens_workspace)
  show "path_dir (af_file \<lparr>af_repo = '''', af_file = ''README.md'', af_confidence = 1, af_reason = ''''\<rparr>) = ''.''"
    by simp code_simp
  show "\<not> is_critical (path_clean (trim_space ''internal/auth/login.go''))" by code_simp
qed (simp_all add: zero_analysis_def)

end
