(* ===== verification/Credentials.thy ===== *)
theory Credentials
  imports Task_Store "HOL-Library.List_Lexorder" "HOL-Library.Char_ord"
begin

text \<open>
  The pool of CLI credentials: the rows and queries of \<^verbatim>\<open>repository/provider_credential.go\<close>, the service
  operations of \<^verbatim>\<open>service/credential_pool.go\<close>, and the selection and cooldown rules of
  \<^verbatim>\<open>service/credential_router.go\<close>. Times are integers (nanoseconds), read once per operation; the
  database and the process share a clock. The database may be down (\<open>cs_up\<close>), which the code handles
  where it reads cooldowns. The cipher (AES-GCM) is a parameter.
\<close>

section \<open>Rows and state\<close>

abbreviation CredActive :: string where "CredActive \<equiv> ''active''"
abbreviation CredRateLimited :: string where "CredRateLimited \<equiv> ''rate_limited''"
abbreviation CredDisabled :: string where "CredDisabled \<equiv> ''disabled''"
abbreviation CredNeedsReauth :: string where "CredNeedsReauth \<equiv> ''needs_reauth''"

definition IsAllowedProvider :: "string \<Rightarrow> bool" where
  "IsAllowedProvider p = (4 < length p \<and> take 4 p = ''cli:'')"

record provider_credential =
  pr_id :: string
  pr_org :: string
  pr_provider :: string
  pr_label :: string
  pr_key :: string
  pr_base_url :: string
  pr_status :: string
  pr_priority :: int
  pr_cooldown :: "int option"
  pr_metadata :: string

record create_credential_input =
  cc_provider :: string
  cc_label :: string
  cc_api_key :: string
  cc_base_url :: string
  cc_priority :: int
  cc_metadata :: string

record update_credential_input =
  uc_label :: "string option"
  uc_api_key :: "string option"
  uc_base_url :: "string option"
  uc_status :: "string option"
  uc_priority :: "int option"
  uc_metadata :: "string option"

text \<open>The response never carries the key, only whether there is one and a suffix.\<close>

record credential_response =
  cr_id :: string
  cr_provider :: string
  cr_label :: string
  cr_base_url :: string
  cr_status :: string
  cr_priority :: int
  cr_configured :: bool
  cr_key_suffix :: string
  cr_cooldown :: "int option"
  cr_model_cooldowns :: "(string \<times> int) list"
  cr_metadata :: string

definition ToResponse :: "provider_credential \<Rightarrow> string \<Rightarrow> credential_response" where
  "ToResponse c sfx =
     \<lparr>cr_id = pr_id c, cr_provider = pr_provider c, cr_label = pr_label c, cr_base_url = pr_base_url c,
      cr_status = pr_status c, cr_priority = pr_priority c, cr_configured = (pr_key c \<noteq> ''''),
      cr_key_suffix = sfx, cr_cooldown = pr_cooldown c, cr_model_cooldowns = [],
      cr_metadata = pr_metadata c\<rparr>"

record organization =
  og_id :: string
  og_default_providers :: "execution_provider_config list raw_json"
  og_web_search :: bool

record cred_state =
  cs_creds :: "provider_credential list"
  cs_cooldowns :: "((string \<times> string) \<times> int) list"
  cs_cache :: "(string \<times> (int \<times> int)) list"
  cs_rr :: "string \<Rightarrow> nat"
  cs_orgs :: "organization list"
  cs_audit :: "(string \<times> string) list"
  cs_recovered :: int
  cs_next :: nat
  cs_up :: bool

datatype cred_error =
    CredRepo repo_error
  | CredDown
  | CredValidation string
  | CredCipher string
  | CredFormat string
  | NoCredentialsAvailable

definition db_call :: "cred_state \<Rightarrow> cred_error + 'a \<Rightarrow> cred_error + 'a" where
  "db_call s r = (if cs_up s then r else Inl CredDown)"

definition find_cred :: "provider_credential list \<Rightarrow> string \<Rightarrow> provider_credential option" where
  "find_cred cs i = find (\<lambda>c. pr_id c = i) cs"

definition map_cred ::
  "provider_credential list \<Rightarrow> string \<Rightarrow> (provider_credential \<Rightarrow> provider_credential) \<Rightarrow>
   provider_credential list" where
  "map_cred cs i f = map (\<lambda>c. if pr_id c = i then f c else c) cs"

definition same_cred :: "string \<Rightarrow> (provider_credential \<Rightarrow> provider_credential) \<Rightarrow> bool" where
  "same_cred i f \<longleftrightarrow> (\<forall>c. pr_id (f c) = pr_id c)"

lemma find_map_cred:
  "same_cred i f \<Longrightarrow>
   find_cred (map_cred cs i f) k = (if k = i then map_option f (find_cred cs i) else find_cred cs k)"
  by (induction cs) (auto simp: find_cred_def map_cred_def same_cred_def)

interpretation cred_rows: row_store find_cred map_cred same_cred
  by unfold_locales (simp add: find_map_cred)

section \<open>repository/provider_credential.go\<close>

definition cred_Create ::
  "(nat \<Rightarrow> string) \<Rightarrow> string \<Rightarrow> create_credential_input \<Rightarrow> cred_state \<Rightarrow>
   cred_error + (provider_credential \<times> cred_state)" where
  "cred_Create new_id org input s =
     (let c = \<lparr>pr_id = new_id (cs_next s), pr_org = org, pr_provider = cc_provider input,
               pr_label = (if cc_label input = '''' then ''default'' else cc_label input),
               pr_key = cc_api_key input, pr_base_url = cc_base_url input, pr_status = CredActive,
               pr_priority = cc_priority input, pr_cooldown = None,
               pr_metadata = (if cc_metadata input = '''' then ''{}'' else cc_metadata input)\<rparr>
      in db_call s (Inr (c, s\<lparr>cs_creds := cs_creds s @ [c], cs_next := Suc (cs_next s)\<rparr>)))"

definition cred_missing :: "string \<Rightarrow> cred_error" where
  "cred_missing msg = CredRepo (RepoWrapped msg RepoNotFound)"

definition cred_GetByID :: "cred_state \<Rightarrow> string \<Rightarrow> cred_error + provider_credential" where
  "cred_GetByID s i =
     db_call s (case find_cred (cs_creds s) i of
                  None \<Rightarrow> Inl (cred_missing ''get provider credential'')
                | Some c \<Rightarrow> Inr c)"

definition cred_GetByIDAndOrg :: "cred_state \<Rightarrow> string \<Rightarrow> string \<Rightarrow> cred_error + provider_credential" where
  "cred_GetByIDAndOrg s org i =
     db_call s (case find (\<lambda>c. pr_id c = i \<and> pr_org c = org) (cs_creds s) of
                  None \<Rightarrow> Inl (cred_missing ''get provider credential'')
                | Some c \<Rightarrow> Inr c)"

definition cred_ListByOrg :: "cred_state \<Rightarrow> string \<Rightarrow> cred_error + provider_credential list" where
  "cred_ListByOrg s org =
     db_call s (Inr (sort_key pr_provider (sort_key pr_priority
                       (filter (\<lambda>c. pr_org c = org) (cs_creds s)))))"

definition selectable :: "int \<Rightarrow> string \<Rightarrow> string \<Rightarrow> provider_credential \<Rightarrow> bool" where
  "selectable now org provider c =
     (pr_org c = org \<and> pr_provider c = provider \<and> pr_status c = CredActive \<and>
      (case pr_cooldown c of None \<Rightarrow> True | Some u \<Rightarrow> u < now))"

definition ListActiveByOrgAndProvider ::
  "int \<Rightarrow> cred_state \<Rightarrow> string \<Rightarrow> string \<Rightarrow> cred_error + provider_credential list" where
  "ListActiveByOrgAndProvider now s org provider =
     db_call s (Inr (sort_key pr_priority (filter (selectable now org provider) (cs_creds s))))"

definition set_opt :: "'a option \<Rightarrow> 'a \<Rightarrow> 'a" where
  "set_opt x old = (case x of None \<Rightarrow> old | Some y \<Rightarrow> y)"

definition update_cred :: "update_credential_input \<Rightarrow> provider_credential \<Rightarrow> provider_credential" where
  "update_cred input c =
     c\<lparr>pr_label := set_opt (uc_label input) (pr_label c), pr_key := set_opt (uc_api_key input) (pr_key c),
       pr_base_url := set_opt (uc_base_url input) (pr_base_url c),
       pr_status := set_opt (uc_status input) (pr_status c),
       pr_priority := set_opt (uc_priority input) (pr_priority c),
       pr_metadata := set_opt (uc_metadata input) (pr_metadata c)\<rparr>"

definition cred_Update ::
  "cred_state \<Rightarrow> string \<Rightarrow> string \<Rightarrow> update_credential_input \<Rightarrow>
   cred_error + (provider_credential \<times> cred_state)" where
  "cred_Update s org i input =
     bind_err (cred_GetByIDAndOrg s org i) (\<lambda>c.
       let s' = s\<lparr>cs_creds := map_cred (cs_creds s) i (update_cred input)\<rparr>
       in bind_err (cred_GetByIDAndOrg s' org i) (\<lambda>c'. Inr (c', s')))"

text \<open>An update by id: the rows, and whether any was affected.\<close>

definition update_by_id ::
  "string \<Rightarrow> cred_state \<Rightarrow> string \<Rightarrow> (provider_credential \<Rightarrow> provider_credential) \<Rightarrow>
   cred_error + cred_state" where
  "update_by_id msg s i f =
     db_call s (if find_cred (cs_creds s) i = None then Inl (cred_missing msg)
                else Inr (s\<lparr>cs_creds := map_cred (cs_creds s) i f\<rparr>))"

definition limit_until :: "int \<Rightarrow> provider_credential \<Rightarrow> provider_credential" where
  "limit_until until_t c = c\<lparr>pr_status := CredRateLimited, pr_cooldown := Some until_t\<rparr>"

definition repo_SetCooldown :: "cred_state \<Rightarrow> string \<Rightarrow> int \<Rightarrow> cred_error + cred_state" where
  "repo_SetCooldown s i until_t =
     update_by_id ''set provider credential cooldown'' s i (limit_until until_t)"

definition need_reauth :: "provider_credential \<Rightarrow> provider_credential" where
  "need_reauth c = c\<lparr>pr_status := CredNeedsReauth\<rparr>"

definition MarkNeedsReauth :: "cred_state \<Rightarrow> string \<Rightarrow> cred_error + cred_state" where
  "MarkNeedsReauth s i = update_by_id ''mark provider credential needs reauth'' s i need_reauth"

definition cooled_down :: "int \<Rightarrow> provider_credential \<Rightarrow> bool" where
  "cooled_down now c =
     (pr_status c = CredRateLimited \<and> (case pr_cooldown c of None \<Rightarrow> False | Some u \<Rightarrow> u < now))"

definition repo_ClearExpiredCooldowns :: "int \<Rightarrow> cred_state \<Rightarrow> cred_error + (nat \<times> cred_state)" where
  "repo_ClearExpiredCooldowns now s =
     db_call s (Inr (length (filter (cooled_down now) (cs_creds s)),
                     s\<lparr>cs_creds := map (\<lambda>c. if cooled_down now c
                                            then c\<lparr>pr_status := CredActive, pr_cooldown := None\<rparr> else c)
                                     (cs_creds s)\<rparr>))"

definition GetExpiredCooldowns :: "int \<Rightarrow> cred_state \<Rightarrow> cred_error + provider_credential list" where
  "GetExpiredCooldowns now s = db_call s (Inr (filter (cooled_down now) (cs_creds s)))"

definition UpsertModelCooldown ::
  "cred_state \<Rightarrow> string \<Rightarrow> string \<Rightarrow> int \<Rightarrow> cred_error + cred_state" where
  "UpsertModelCooldown s i model until_t =
     db_call s (Inr (s\<lparr>cs_cooldowns := AList.update (i, model) until_t (cs_cooldowns s)\<rparr>))"

text \<open>\<^verbatim>\<open>time.Time{}\<close>, the first of January of the year one.\<close>

definition zero_time :: int where "zero_time = - 62135596800 * 10 ^ 9"

definition repo_GetModelCooldown :: "cred_state \<Rightarrow> string \<Rightarrow> string \<Rightarrow> cred_error + int" where
  "repo_GetModelCooldown s i model =
     db_call s (Inr (or_zero zero_time (map_of (cs_cooldowns s) (i, model))))"

definition ListActiveModelCooldowns ::
  "int \<Rightarrow> cred_state \<Rightarrow> string list \<Rightarrow> cred_error + ((string \<times> string) \<times> int) list" where
  "ListActiveModelCooldowns now s ids =
     (if ids = [] then Inr []
      else db_call s (Inr (filter (\<lambda>((i, m), u). i \<in> set ids \<and> u > now) (cs_cooldowns s))))"

definition cred_Delete :: "cred_state \<Rightarrow> string \<Rightarrow> string \<Rightarrow> cred_error + cred_state" where
  "cred_Delete s org i =
     db_call s (if list_ex (\<lambda>c. pr_id c = i \<and> pr_org c = org) (cs_creds s)
                then Inr (s\<lparr>cs_creds := filter (\<lambda>c. \<not> (pr_id c = i \<and> pr_org c = org)) (cs_creds s)\<rparr>)
                else Inl (cred_missing ''delete provider credential''))"

section \<open>Execution provider rows\<close>

definition DefaultExecutionProviderRows :: "execution_provider_config list" where
  "DefaultExecutionProviderRows =
     map (\<lambda>(i, r). \<lparr>ep_type = ''cli'', ep_ref = r, ep_credential_id = '''', ep_priority = int i,
                    ep_enabled = False, ep_cli_config = None\<rparr>)
       (enumerate 0 [''claude_code'', ''antigravity'', ''openai_codex'', ''custom''])"

definition executionProviderRowForCredential :: "string \<Rightarrow> (string \<times> string) option" where
  "executionProviderRowForCredential p =
     (if p = ''cli:claude'' then Some (''cli'', ''claude_code'')
      else if p = ''cli:codex'' then Some (''cli'', ''openai_codex'')
      else if p = ''cli:antigravity'' then Some (''cli'', ''antigravity'')
      else None)"

text \<open>The loop over the rows: the first row of the provider is enabled, unless it already is.\<close>

fun enable_row ::
  "string \<Rightarrow> string \<Rightarrow> execution_provider_config list \<Rightarrow> (execution_provider_config list \<times> bool) option" where
  "enable_row ty ref [] = None"
| "enable_row ty ref (r # rs) =
     (if ep_type r = ty \<and> ep_ref r = ref
      then if ep_enabled r then Some (r # rs, False) else Some (r\<lparr>ep_enabled := True\<rparr> # rs, True)
      else map_option (\<lambda>(rs', ch). (r # rs', ch)) (enable_row ty ref rs))"

definition AutoEnableExecutionProviderRow ::
  "execution_provider_config list \<Rightarrow> string \<Rightarrow> execution_provider_config list \<times> bool" where
  "AutoEnableExecutionProviderRow list0 provider =
     (case executionProviderRowForCredential provider of
        None \<Rightarrow> (list0, False)
      | Some (ty, ref) \<Rightarrow>
          let rows = (if list0 = [] then DefaultExecutionProviderRows else list0)
          in case enable_row ty ref rows of
               Some r \<Rightarrow> r
             | None \<Rightarrow> (rows @ [\<lparr>ep_type = ty, ep_ref = ref, ep_credential_id = '''',
                                 ep_priority = int (length rows), ep_enabled = True,
                                 ep_cli_config = None\<rparr>], True))"

definition validExecutionProviderTypes :: "string list" where
  "validExecutionProviderTypes = [''cli'']"

definition validCLIProviderRefs :: "string list" where
  "validCLIProviderRefs = [''claude_code'', ''openai_codex'', ''antigravity'', ''custom'']"

datatype provider_error =
    ProvidersInvalidJSON
  | ProviderBadType nat string
  | ProviderBadRef nat string
  | CustomNeedsCommand nat
  | CustomNeedsCredential nat

definition validate_provider :: "nat \<Rightarrow> execution_provider_config \<Rightarrow> provider_error option" where
  "validate_provider i p =
     (if ep_type p \<notin> set validExecutionProviderTypes then Some (ProviderBadType i (ep_type p))
      else if ep_ref p \<notin> set validCLIProviderRefs then Some (ProviderBadRef i (ep_ref p))
      else if ep_enabled p \<and> ep_ref p = ''custom'' \<and>
              (case ep_cli_config p of None \<Rightarrow> True | Some c \<Rightarrow> trim_space (cli_command c) = '''')
      then Some (CustomNeedsCommand i)
      else if ep_enabled p \<and> ep_ref p = ''custom'' \<and> trim_space (ep_credential_id p) = ''''
      then Some (CustomNeedsCredential i)
      else None)"

fun validate_rows :: "nat \<Rightarrow> execution_provider_config list \<Rightarrow> provider_error option" where
  "validate_rows i [] = None"
| "validate_rows i (p # ps) =
     (case validate_provider i p of Some e \<Rightarrow> Some e | None \<Rightarrow> validate_rows (Suc i) ps)"

definition ValidateExecutionProviders ::
  "execution_provider_config list raw_json \<Rightarrow> provider_error + execution_provider_config list" where
  "ValidateExecutionProviders raw =
     (case raw of
        NoJson \<Rightarrow> Inr []
      | BadJson \<Rightarrow> Inl ProvidersInvalidJSON
      | MisfitJson rows \<Rightarrow> Inl ProvidersInvalidJSON
      | Json rows \<Rightarrow> (case validate_rows 0 rows of Some e \<Rightarrow> Inl e | None \<Rightarrow> Inr rows))"

definition HasEnabledProvider :: "execution_provider_config list \<Rightarrow> bool" where
  "HasEnabledProvider ps = list_ex ep_enabled ps"

definition ValidReviewHarnessPolicies :: "string list" where
  "ValidReviewHarnessPolicies = [''same'', ''different_model'', ''different_provider'']"

definition ValidateReviewHarnessPolicy :: "string \<Rightarrow> bool" where
  "ValidateReviewHarnessPolicy policy = (policy = '''' \<or> policy \<in> set ValidReviewHarnessPolicies)"

end
