(* ===== verification/Credential_Pool.thy ===== *)
theory Credential_Pool
  imports Credentials
begin

text \<open>
  The service of the credential pool: creating, updating and selecting credentials
  (\<^verbatim>\<open>service/credential_pool.go\<close>, \<^verbatim>\<open>service/credential_router.go\<close>). The cipher is a record of two
  functions. Between the read and the write of the compare-and-swap loop other writers may change the
  organizations: what they do at each attempt is a parameter.
\<close>

record cipher =
  ci_encrypt :: "string \<Rightarrow> string option"
  ci_decrypt :: "string \<Rightarrow> string option"

definition encrypt_key :: "cipher \<Rightarrow> string \<Rightarrow> cred_error + string" where
  "encrypt_key ci k = (case ci_encrypt ci k of None \<Rightarrow> Inl (CredCipher ''encrypt'') | Some e \<Rightarrow> Inr e)"

definition decrypt_key :: "cipher \<Rightarrow> string \<Rightarrow> cred_error + string" where
  "decrypt_key ci k = (case ci_decrypt ci k of None \<Rightarrow> Inl (CredCipher ''decrypt'') | Some e \<Rightarrow> Inr e)"

section \<open>credential_pool.go\<close>

abbreviation StrategyFillFirst :: string where "StrategyFillFirst \<equiv> ''fill_first''"
abbreviation StrategyRoundRobin :: string where "StrategyRoundRobin \<equiv> ''round_robin''"

definition cooldownCacheTTL :: int where "cooldownCacheTTL = 15 * 10 ^ 9"

definition autoEnableGlobalRoutingMaxAttempts :: nat where "autoEnableGlobalRoutingMaxAttempts = 5"

definition isAllowedProvider :: "string \<Rightarrow> bool" where
  "isAllowedProvider p = IsAllowedProvider (to_lower (trim_space p))"

definition isAllowedCredentialStatus :: "string \<Rightarrow> bool" where
  "isAllowedCredentialStatus st = (st \<in> {CredActive, CredRateLimited, CredDisabled, CredNeedsReauth})"

definition keySuffix :: "string \<Rightarrow> string" where
  "keySuffix k = (if length k \<le> 4 then k else drop (length k - 4) k)"

definition recordAudit :: "string \<Rightarrow> provider_credential \<Rightarrow> cred_state \<Rightarrow> cred_state" where
  "recordAudit action c s = s\<lparr>cs_audit := cs_audit s @ [(action, pr_id c)]\<rparr>"

definition find_org :: "organization list \<Rightarrow> string \<Rightarrow> organization option" where
  "find_org os i = find (\<lambda>g. og_id g = i) os"

text \<open>
  \<^verbatim>\<open>CompareAndSwapDefaultExecutionProviders\<close>: comparing an absent value is an error of the query
  (an empty text is no \<^verbatim>\<open>jsonb\<close>), otherwise whether a row was changed.
\<close>

definition CompareAndSwap ::
  "string \<Rightarrow> execution_provider_config list raw_json \<Rightarrow> execution_provider_config list raw_json \<Rightarrow>
   organization list \<Rightarrow> (bool \<times> organization list) option" where
  "CompareAndSwap org old_val new_val os =
     (if \<not> json_valid old_val then None
      else Some (list_ex (\<lambda>g. og_id g = org \<and> og_default_providers g = old_val) os,
                 map (\<lambda>g. if og_id g = org \<and> og_default_providers g = old_val
                          then g\<lparr>og_default_providers := new_val\<rparr> else g) os))"

fun auto_enable_loop ::
  "(nat \<Rightarrow> organization list \<Rightarrow> organization list) \<Rightarrow> nat \<Rightarrow> string \<Rightarrow> string \<Rightarrow>
   organization list \<Rightarrow> organization list" where
  "auto_enable_loop others 0 org provider os = os"
| "auto_enable_loop others (Suc n) org provider os =
     (case find_org os org of
        None \<Rightarrow> os
      | Some g \<Rightarrow>
          (case ValidateExecutionProviders (og_default_providers g) of
             Inl e \<Rightarrow> os
           | Inr existing \<Rightarrow>
               (case AutoEnableExecutionProviderRow existing provider of
                  (updated, changed) \<Rightarrow>
                    if \<not> changed then os
                    else (case CompareAndSwap org (og_default_providers g) (Json updated) (others n os) of
                            None \<Rightarrow> others n os
                          | Some (True, os') \<Rightarrow> os'
                          | Some (False, os') \<Rightarrow> auto_enable_loop others n org provider os'))))"

definition autoEnableGlobalRouting ::
  "(nat \<Rightarrow> organization list \<Rightarrow> organization list) \<Rightarrow> string \<Rightarrow> string \<Rightarrow> cred_state \<Rightarrow> cred_state" where
  "autoEnableGlobalRouting others org provider s =
     s\<lparr>cs_orgs := auto_enable_loop others autoEnableGlobalRoutingMaxAttempts org provider (cs_orgs s)\<rparr>"

definition pool_Create ::
  "(nat \<Rightarrow> string) \<Rightarrow> cipher \<Rightarrow> (nat \<Rightarrow> organization list \<Rightarrow> organization list) \<Rightarrow> string \<Rightarrow>
   create_credential_input \<Rightarrow> cred_state \<Rightarrow> (cred_error + credential_response) \<times> cred_state" where
  "pool_Create new_id ci others org input s =
     (if \<not> isAllowedProvider (cc_provider input) then (Inl (CredValidation ''unsupported provider''), s)
      else if trim_space (cc_api_key input) = '''' then (Inl (CredValidation ''api_key is required''), s)
      else case encrypt_key ci (cc_api_key input) of
             Inl e \<Rightarrow> (Inl e, s)
           | Inr k \<Rightarrow>
               (case cred_Create new_id org
                       (input\<lparr>cc_provider := to_lower (trim_space (cc_provider input)),
                              cc_api_key := k\<rparr>) s of
                  Inl e \<Rightarrow> (Inl e, s)
                | Inr (c, s') \<Rightarrow>
                    (Inr (ToResponse c (keySuffix (cc_api_key input))),
                     autoEnableGlobalRouting others org (pr_provider c)
                       (recordAudit ''provider_credential.created'' c s'))))"

definition model_cooldowns :: "((string \<times> string) \<times> int) list \<Rightarrow> string \<Rightarrow> (string \<times> int) list" where
  "model_cooldowns cds i = map (\<lambda>((_, m), u). (m, u)) (filter (\<lambda>((j, m), u). j = i) cds)"

definition pool_GetByID :: "int \<Rightarrow> cred_state \<Rightarrow> string \<Rightarrow> cred_error + credential_response" where
  "pool_GetByID now s i =
     bind_err (cred_GetByID s i) (\<lambda>c.
       Inr (case ListActiveModelCooldowns now s [i] of
              Inl e \<Rightarrow> ToResponse c ''''
            | Inr cds \<Rightarrow> (ToResponse c '''')\<lparr>cr_model_cooldowns := model_cooldowns cds i\<rparr>))"

definition pool_ListByOrg :: "int \<Rightarrow> cred_state \<Rightarrow> string \<Rightarrow> cred_error + credential_response list" where
  "pool_ListByOrg now s org =
     bind_err (cred_ListByOrg s org) (\<lambda>creds.
       let cds = (case ListActiveModelCooldowns now s (map pr_id creds) of Inl e \<Rightarrow> [] | Inr cds \<Rightarrow> cds)
       in Inr (map (\<lambda>c. (ToResponse c '''')\<lparr>cr_model_cooldowns := model_cooldowns cds (pr_id c)\<rparr>) creds))"

definition encrypt_update :: "cipher \<Rightarrow> update_credential_input \<Rightarrow> cred_error + update_credential_input" where
  "encrypt_update ci input =
     (case uc_api_key input of
        None \<Rightarrow> Inr input
      | Some k \<Rightarrow> bind_err (encrypt_key ci k) (\<lambda>e. Inr (input\<lparr>uc_api_key := Some e\<rparr>)))"

definition pool_Update ::
  "cipher \<Rightarrow> cred_state \<Rightarrow> string \<Rightarrow> string \<Rightarrow> update_credential_input \<Rightarrow>
   cred_error + (credential_response \<times> cred_state)" where
  "pool_Update ci s org i input0 =
     bind_err (encrypt_update ci input0) (\<lambda>input.
       if (case uc_status input of None \<Rightarrow> False | Some st \<Rightarrow> \<not> isAllowedCredentialStatus st)
       then Inl (CredValidation ''unsupported credential status'')
       else bind_err (cred_Update s org i input) (\<lambda>(c, s').
              Inr (ToResponse c '''', recordAudit ''provider_credential.updated'' c s')))"

definition pool_Delete :: "cred_state \<Rightarrow> string \<Rightarrow> string \<Rightarrow> cred_error + cred_state" where
  "pool_Delete s org i =
     bind_err (cred_GetByIDAndOrg s org i) (\<lambda>c.
       bind_err (cred_Delete s org i) (\<lambda>s'. Inr (recordAudit ''provider_credential.deleted'' c s')))"

text \<open>
  A stored payload is a JSON object of files, or the raw key; the decoder of the payload is a
  parameter.
\<close>

definition GetDecryptedCredential ::
  "cipher \<Rightarrow> (string \<Rightarrow> (string \<times> string) list option) \<Rightarrow> cred_state \<Rightarrow> string \<Rightarrow> string \<Rightarrow>
   cred_error + (string \<times> (string \<times> string) list)" where
  "GetDecryptedCredential ci decode s org i =
     bind_err (cred_GetByIDAndOrg s org i) (\<lambda>c.
       bind_err (decrypt_key ci (pr_key c)) (\<lambda>payload.
         case decode payload of
           Some files \<Rightarrow> Inr (pr_provider c, files)
         | None \<Rightarrow>
             if 4 < length (pr_provider c) \<and> take 4 (pr_provider c) = ''cli:''
             then Inl (CredFormat ''invalid credential format'')
             else Inr (pr_provider c, [(''key'', payload)])))"

section \<open>credential_router.go\<close>

record decrypted_credential =
  dc_id :: string
  dc_provider :: string
  dc_api_key :: string
  dc_base_url :: string

definition cache_key :: "string \<Rightarrow> string \<Rightarrow> string" where
  "cache_key i model = i @ '':'' @ model"

text \<open>The cooldown of a credential for a model: the cache while fresh, else the store.\<close>

definition getModelCooldown ::
  "int \<Rightarrow> string \<Rightarrow> string \<Rightarrow> cred_state \<Rightarrow> (int \<times> bool) \<times> cred_state" where
  "getModelCooldown now i model s =
     (let entry = map_of (cs_cache s) (cache_key i model);
          from_cache = (\<lambda>e. (fst e, fst e > now))
      in case entry of
           Some e \<Rightarrow>
             if now - snd e < cooldownCacheTTL then (from_cache e, s)
             else (case repo_GetModelCooldown s i model of
                     Inl er \<Rightarrow> (from_cache e, s)
                   | Inr u \<Rightarrow> ((u, u > now),
                                s\<lparr>cs_cache := AList.update (cache_key i model) (u, now) (cs_cache s)\<rparr>))
         | None \<Rightarrow>
             (case repo_GetModelCooldown s i model of
                Inl er \<Rightarrow> ((zero_time, False), s)
              | Inr u \<Rightarrow> ((u, u > now),
                           s\<lparr>cs_cache := AList.update (cache_key i model) (u, now) (cs_cache s)\<rparr>)))"

text \<open>The credentials that may be used now, in order; looking up cooldowns fills the cache.\<close>

fun usable ::
  "int \<Rightarrow> string \<Rightarrow> string list \<Rightarrow> provider_credential list \<Rightarrow> cred_state \<Rightarrow>
   provider_credential list \<times> cred_state" where
  "usable now model excluded [] s = ([], s)"
| "usable now model excluded (c # cs) s =
     (if pr_id c \<in> set excluded then usable now model excluded cs s
      else if (case pr_cooldown c of None \<Rightarrow> False | Some u \<Rightarrow> u > now)
      then usable now model excluded cs s
      else if model \<noteq> ''''
      then (case getModelCooldown now (pr_id c) model s of
              ((u, on), s1) \<Rightarrow>
                if on \<and> u > now then usable now model excluded cs s1
                else (case usable now model excluded cs s1 of (rest, s2) \<Rightarrow> (c # rest, s2)))
      else (case usable now model excluded cs s of (rest, s2) \<Rightarrow> (c # rest, s2)))"

definition pick ::
  "string \<Rightarrow> string \<Rightarrow> provider_credential list \<Rightarrow> cred_state \<Rightarrow> provider_credential \<times> cred_state" where
  "pick strategy key available s =
     (if strategy = StrategyRoundRobin
      then (available ! (cs_rr s key mod length available),
            s\<lparr>cs_rr := (cs_rr s)(key := Suc (cs_rr s key))\<rparr>)
      else (hd available, s))"

definition rr_key :: "string \<Rightarrow> string \<Rightarrow> string" where
  "rr_key org provider = org @ '':'' @ provider"

definition SelectCredential ::
  "cipher \<Rightarrow> int \<Rightarrow> string \<Rightarrow> string \<Rightarrow> string \<Rightarrow> string \<Rightarrow> string list \<Rightarrow> cred_state \<Rightarrow>
   (cred_error + decrypted_credential) \<times> cred_state" where
  "SelectCredential ci now org provider model strategy excluded s =
     (case ListActiveByOrgAndProvider now s org (to_lower provider) of
        Inl e \<Rightarrow> (Inl e, s)
      | Inr creds \<Rightarrow>
          (case usable now model excluded creds s of
             (available, s1) \<Rightarrow>
               if available = [] then (Inl NoCredentialsAvailable, s1)
               else (case pick strategy (rr_key org provider) available s1 of
                       (c, s2) \<Rightarrow>
                         (case decrypt_key ci (pr_key c) of
                            Inl e \<Rightarrow> (Inl e, s2)
                          | Inr k \<Rightarrow>
                              (Inr \<lparr>dc_id = pr_id c, dc_provider = pr_provider c, dc_api_key = k,
                                    dc_base_url = pr_base_url c\<rparr>,
                               recordAudit ''provider_credential.used'' c s2)))))"

text \<open>
  A cooldown for a model is written through to the store and cached, also when the store fails;
  expired entries leave the cache. A cooldown without a model marks the row.
\<close>

definition SetCooldown ::
  "int \<Rightarrow> string \<Rightarrow> string \<Rightarrow> int \<Rightarrow> cred_state \<Rightarrow> cred_error + cred_state" where
  "SetCooldown now i model until_t s =
     (if model \<noteq> ''''
      then (let s1 = (case UpsertModelCooldown s i model until_t of Inl e \<Rightarrow> s | Inr s1 \<Rightarrow> s1);
                cache = AList.update (cache_key i model) (until_t, now) (cs_cache s1)
            in Inr (s1\<lparr>cs_cache := filter (\<lambda>(k, u, f). \<not> now > u) cache\<rparr>))
      else bind_err (cred_GetByID s i) (\<lambda>c.
             bind_err (repo_SetCooldown s i until_t) (\<lambda>s'.
               Inr (recordAudit ''provider_credential.rate_limited'' c s'))))"

definition ClearExpiredCooldowns :: "int \<Rightarrow> cred_state \<Rightarrow> cred_error + (nat \<times> cred_state)" where
  "ClearExpiredCooldowns now s =
     (let expired = (case GetExpiredCooldowns now s of Inl e \<Rightarrow> [] | Inr cs \<Rightarrow> cs)
      in bind_err (repo_ClearExpiredCooldowns now s) (\<lambda>(n, s1).
           let s2 = (if 0 < n \<and> expired \<noteq> []
                     then s1\<lparr>cs_recovered := cs_recovered s1 + int (length expired)\<rparr> else s1)
           in Inr (n, if 0 < n then s2\<lparr>cs_audit := cs_audit s2 @ [(''provider_credential.recovered'', '''')]\<rparr>
                      else s2)))"

text \<open>The remaining cooldown of one credential, and the smallest one with its credential.\<close>

definition cooldown_of ::
  "int \<Rightarrow> string \<Rightarrow> provider_credential \<Rightarrow> cred_state \<Rightarrow> int \<times> cred_state" where
  "cooldown_of now model c s =
     (let base = (if pr_status c = CredRateLimited
                  then (case pr_cooldown c of None \<Rightarrow> zero_time | Some u \<Rightarrow> if u > now then u else zero_time)
                  else zero_time);
          (u, s') = (if model \<noteq> ''''
                     then (case getModelCooldown now (pr_id c) model s of
                             ((mc, ok), s1) \<Rightarrow> (if ok \<and> mc > now \<and> mc > base then mc else base, s1))
                     else (base, s))
      in (if u \<noteq> zero_time \<and> u > now then u - now else 0, s'))"

definition less_cooldown :: "(int \<times> string) option \<Rightarrow> int \<Rightarrow> string \<Rightarrow> (int \<times> string) option" where
  "less_cooldown best cd i =
     (case best of
        None \<Rightarrow> Some (cd, i)
      | Some (m, j) \<Rightarrow> if cd < m then Some (cd, i) else Some (m, j))"

fun min_cooldown ::
  "int \<Rightarrow> string \<Rightarrow> string \<Rightarrow> provider_credential list \<Rightarrow> (int \<times> string) option \<Rightarrow> cred_state \<Rightarrow>
   (int \<times> string) option \<times> cred_state" where
  "min_cooldown now provider model [] best s = (best, s)"
| "min_cooldown now provider model (c # cs) best s =
     (if to_lower (pr_provider c) \<noteq> to_lower provider \<or> pr_status c = CredDisabled
      then min_cooldown now provider model cs best s
      else (case cooldown_of now model c s of
              (cd, s1) \<Rightarrow> min_cooldown now provider model cs (less_cooldown best cd (pr_id c)) s1))"

definition GetMinCooldown ::
  "int \<Rightarrow> string \<Rightarrow> string \<Rightarrow> string \<Rightarrow> cred_state \<Rightarrow> (cred_error + int \<times> string) \<times> cred_state" where
  "GetMinCooldown now org provider model s =
     (case cred_ListByOrg s org of
        Inl e \<Rightarrow> (Inl e, s)
      | Inr creds \<Rightarrow>
          (case min_cooldown now provider model creds None s of
             (None, s') \<Rightarrow> (Inr (0, ''''), s')
           | (Some r, s') \<Rightarrow> (Inr r, s')))"

section \<open>Refreshed payloads\<close>

text \<open>
  A payload of several files is marshalled, which cannot fail for a map of strings, and stored
  through \<open>pool_Update\<close>; how it is marshalled is a parameter.
\<close>

definition UpdateCredentialPayload ::
  "cipher \<Rightarrow> ((string \<times> string) list \<Rightarrow> string) \<Rightarrow> cred_state \<Rightarrow> string \<Rightarrow> string \<Rightarrow>
   (string \<times> string) list \<Rightarrow> cred_error + cred_state" where
  "UpdateCredentialPayload ci marshal s org i payload =
     bind_err (pool_Update ci s org i
                 \<lparr>uc_label = None, uc_api_key = Some (marshal payload), uc_base_url = None,
                  uc_status = None, uc_priority = None, uc_metadata = None\<rparr>)
       (\<lambda>(r, s'). Inr s')"

definition GetRecoveryCount :: "cred_state \<Rightarrow> int" where
  "GetRecoveryCount s = cs_recovered s"

end
