(* ===== verification/Execution_Router.thy ===== *)
theory Execution_Router
  imports Credential_Pool
begin

text \<open>
  The choice of the CLI harness a task runs on (\<^verbatim>\<open>orchestrator/execution_router.go\<close>): the project's
  list, else the organization's, in priority order, with the credential of each candidate. The
  registry of CLI profiles belongs to a package outside the repository and is a parameter: for a
  reference, its command, arguments, check, time limit and credential provider.
\<close>

record cli_profile =
  cp_Command :: string
  cp_Args :: "string list"
  cp_AuthCheckCommand :: string
  cp_TimeoutMinutes :: int
  cp_CredentialProvider :: string

record resolved_provider =
  rp_Ref :: string
  rp_CredentialID :: string
  rp_CLIConfig :: cli_engine_config

datatype router_error =
    RouterConfig provider_error
  | AllCredentialsInCooldown int
  | NoneAvailable
  | NotConfigured
  | NoDistinctHarness

text \<open>
  What the orchestrator is wired with: the cipher of the pool, the profiles, and whether there is a
  credential pool and an organization repository.
\<close>

record router_env =
  re_cipher :: cipher
  re_profile :: "string \<Rightarrow> cli_profile option"
  re_has_pool :: bool
  re_has_orgs :: bool

text \<open>Appending to the comma-separated value behind the first \<^verbatim>\<open>--allowedTools\<close>.\<close>

fun appendClaudeAllowedTools :: "string list \<Rightarrow> string list \<Rightarrow> string list" where
  "appendClaudeAllowedTools tools (a # v # as) =
     (if a = ''--allowedTools'' then a # join '','' (split_char (CHR '','') v @ tools) # as
      else a # appendClaudeAllowedTools tools (v # as))"
| "appendClaudeAllowedTools tools as = as"

definition find_organization :: "router_env \<Rightarrow> cred_state \<Rightarrow> string \<Rightarrow> organization option" where
  "find_organization env s org =
     (if re_has_orgs env \<and> cs_up s then find_org (cs_orgs s) org else None)"

definition orgAllowsAgentWebSearch :: "router_env \<Rightarrow> cred_state \<Rightarrow> string \<Rightarrow> bool" where
  "orgAllowsAgentWebSearch env s org =
     (case find_organization env s org of None \<Rightarrow> False | Some g \<Rightarrow> og_web_search g)"

definition hasAvailableCredential ::
  "router_env \<Rightarrow> int \<Rightarrow> string \<Rightarrow> string \<Rightarrow> string \<Rightarrow> cred_state \<Rightarrow> bool \<times> cred_state" where
  "hasAvailableCredential env now org provider cred_id s =
     (if \<not> re_has_pool env then (True, s)
      else if cred_id \<noteq> ''''
      then (case pool_GetByID now s cred_id of
              Inl e \<Rightarrow> (False, s)
            | Inr r \<Rightarrow>
                (cr_provider r = provider \<and> cr_status r = CredActive \<and>
                 (case cr_cooldown r of None \<Rightarrow> True | Some u \<Rightarrow> u < now), s))
      else (case SelectCredential (re_cipher env) now org provider '''' StrategyFillFirst [] s of
              (r, s') \<Rightarrow> (\<not> is_err r, s')))"

definition profile_config :: "cli_profile \<Rightarrow> cli_engine_config" where
  "profile_config p =
     \<lparr>cli_command = cp_Command p, cli_args = cp_Args p, cli_credential_id = '''', cli_env = [],
      cli_timeout_minutes = cp_TimeoutMinutes p, cli_auth_check_command = cp_AuthCheckCommand p,
      cli_allow_noop = False, cli_underlying_provider = '''', cli_profile_ref = ''''\<rparr>"

text \<open>The configuration and the credential provider of a candidate.\<close>

definition candidate_config ::
  "router_env \<Rightarrow> execution_provider_config \<Rightarrow> (cli_engine_config \<times> string) option" where
  "candidate_config env p =
     (if ep_ref p = ''custom'' then map_option (\<lambda>c. (c, '''')) (ep_cli_config p)
      else map_option (\<lambda>pr. (profile_config pr, cp_CredentialProvider pr)) (re_profile env (ep_ref p)))"

definition finish_config ::
  "router_env \<Rightarrow> cred_state \<Rightarrow> string \<Rightarrow> execution_provider_config \<Rightarrow> cli_engine_config \<Rightarrow>
   cli_engine_config" where
  "finish_config env s org p c =
     (let c1 = c\<lparr>cli_profile_ref := ep_ref p\<rparr>
      in if ep_ref p = ''claude_code'' \<and> orgAllowsAgentWebSearch env s org
         then c1\<lparr>cli_args := appendClaudeAllowedTools [''WebSearch'', ''WebFetch''] (cli_args c1)\<rparr>
         else c1)"

definition resolveCLICandidate ::
  "router_env \<Rightarrow> int \<Rightarrow> string \<Rightarrow> execution_provider_config \<Rightarrow> cred_state \<Rightarrow>
   (cli_engine_config \<times> string) option \<times> cred_state" where
  "resolveCLICandidate env now org p s =
     (case candidate_config env p of
        None \<Rightarrow> (None, s)
      | Some (c0, cred_provider) \<Rightarrow>
          let cfg = finish_config env s org p c0; cred_id = ep_credential_id p
          in if cred_id \<noteq> ''''
             then (case hasAvailableCredential env now org cred_provider cred_id s of
                     (ok, s') \<Rightarrow>
                       (if ok then Some (cfg\<lparr>cli_credential_id := cred_id\<rparr>, cred_id) else None, s'))
             else if \<not> re_has_pool env then (Some (cfg\<lparr>cli_credential_id := ''''\<rparr>, ''''), s)
             else (case SelectCredential (re_cipher env) now org cred_provider '''' StrategyFillFirst [] s of
                     (Inl e, s') \<Rightarrow> (None, s')
                   | (Inr d, s') \<Rightarrow> (Some (cfg\<lparr>cli_credential_id := dc_id d\<rparr>, dc_id d), s')))"

definition candidate_cooldown ::
  "router_env \<Rightarrow> int \<Rightarrow> string \<Rightarrow> execution_provider_config \<Rightarrow> cred_state \<Rightarrow> int option \<times> cred_state" where
  "candidate_cooldown env now org p s =
     (case re_profile env (ep_ref p) of
        None \<Rightarrow> (None, s)
      | Some pr \<Rightarrow>
          if cp_CredentialProvider pr \<noteq> '''' \<and> re_has_pool env
          then (case GetMinCooldown now org (cp_CredentialProvider pr) '''' s of
                  (Inl e, s') \<Rightarrow> (None, s')
                | (Inr (d, i), s') \<Rightarrow> (if d > 0 then Some (now + d) else None, s'))
          else (None, s))"

definition earlier :: "int option \<Rightarrow> int option \<Rightarrow> int option" where
  "earlier m t =
     (case t of None \<Rightarrow> m | Some u \<Rightarrow> (case m of None \<Rightarrow> Some u | Some v \<Rightarrow> if u < v then Some u else m))"

fun try_providers ::
  "router_env \<Rightarrow> int \<Rightarrow> string \<Rightarrow> string \<Rightarrow> int option \<Rightarrow> execution_provider_config list \<Rightarrow> cred_state \<Rightarrow>
   (router_error + resolved_provider) \<times> cred_state" where
  "try_providers env now org exclude sleep [] s =
     (Inl (case sleep of None \<Rightarrow> NoneAvailable | Some u \<Rightarrow> AllCredentialsInCooldown u), s)"
| "try_providers env now org exclude sleep (p # ps) s =
     (if \<not> ep_enabled p \<or> (exclude \<noteq> '''' \<and> ep_ref p = exclude)
      then try_providers env now org exclude sleep ps s
      else (case resolveCLICandidate env now org p s of
              (Some (cfg, cred_id), s') \<Rightarrow>
                (Inr \<lparr>rp_Ref = ep_ref p, rp_CredentialID = cred_id, rp_CLIConfig = cfg\<rparr>, s')
            | (None, s') \<Rightarrow>
                (case candidate_cooldown env now org p s' of
                   (cd, s'') \<Rightarrow> try_providers env now org exclude (earlier sleep cd) ps s'')))"

text \<open>
  \<^verbatim>\<open>sort.Slice\<close> is not stable: how it orders rows of one priority is a parameter, a function that
  sorts by priority.
\<close>

definition sorts_by_priority :: "(execution_provider_config list \<Rightarrow> execution_provider_config list) \<Rightarrow> bool" where
  "sorts_by_priority srt = (\<forall>ps. mset (srt ps) = mset ps \<and> sorted (map ep_priority (srt ps)))"

definition resolveFromProviderList ::
  "(execution_provider_config list \<Rightarrow> execution_provider_config list) \<Rightarrow> router_env \<Rightarrow> int \<Rightarrow> string \<Rightarrow>
   execution_provider_config list \<Rightarrow> string \<Rightarrow> cred_state \<Rightarrow>
   (router_error + resolved_provider) \<times> cred_state" where
  "resolveFromProviderList srt env now org ps exclude s =
     try_providers env now org exclude None (srt ps) s"

definition resolveFromOrgDefault ::
  "(execution_provider_config list \<Rightarrow> execution_provider_config list) \<Rightarrow> router_env \<Rightarrow> int \<Rightarrow> project \<Rightarrow>
   string \<Rightarrow> cred_state \<Rightarrow> resolved_provider option \<times> cred_state" where
  "resolveFromOrgDefault srt env now pj exclude s =
     (case find_organization env s (p_org_id pj) of
        None \<Rightarrow> (None, s)
      | Some g \<Rightarrow>
          (case ValidateExecutionProviders (og_default_providers g) of
             Inl e \<Rightarrow> (None, s)
           | Inr ps \<Rightarrow>
               if ps = [] then (None, s)
               else (case resolveFromProviderList srt env now (p_org_id pj) ps exclude s of
                       (Inl e, s') \<Rightarrow> (None, s')
                     | (Inr r, s') \<Rightarrow> (Some r, s'))))"

definition resolveExecutionProvider ::
  "(execution_provider_config list \<Rightarrow> execution_provider_config list) \<Rightarrow> router_env \<Rightarrow> int \<Rightarrow> project \<Rightarrow>
   string \<Rightarrow> cred_state \<Rightarrow> (router_error + resolved_provider) \<times> cred_state" where
  "resolveExecutionProvider srt env now pj exclude s =
     (case ValidateExecutionProviders (p_execution_providers pj) of
        Inl e \<Rightarrow> (Inl (RouterConfig e), s)
      | Inr ps \<Rightarrow>
          if HasEnabledProvider ps
          then resolveFromProviderList srt env now (p_org_id pj) ps exclude s
          else (case resolveFromOrgDefault srt env now pj exclude s of
                  (Some r, s') \<Rightarrow> (Inr r, s')
                | (None, s') \<Rightarrow> (Inl NotConfigured, s')))"

definition ResolveReviewProvider ::
  "(execution_provider_config list \<Rightarrow> execution_provider_config list) \<Rightarrow> router_env \<Rightarrow> int \<Rightarrow> project \<Rightarrow>
   string \<Rightarrow> cred_state \<Rightarrow> (router_error + resolved_provider) \<times> cred_state" where
  "ResolveReviewProvider srt env now pj exclude s =
     (case resolveExecutionProvider srt env now pj exclude s of
        (Inl (AllCredentialsInCooldown u), s') \<Rightarrow> (Inl (AllCredentialsInCooldown u), s')
      | (Inl e, s') \<Rightarrow> (Inl NoDistinctHarness, s')
      | (Inr r, s') \<Rightarrow> (Inr r, s'))"

end
