(* ===== verification/Credential_Properties.thy ===== *)
theory Credential_Properties
  imports Execution_Router
begin

text \<open>
  What the credential pool and the router promise: a selected credential is usable and first in
  line, rotation is fair, the compare-and-swap of the organization is one atomic update, a reviewer
  never runs on the coder's harness. And where they fail: a cooldown revives a disabled credential,
  a custom provider is never available, and an invalid login hides a cooldown.
\<close>

section \<open>Selection\<close>

lemma db_call_Inr [simp]: "db_call s r = Inr x \<longleftrightarrow> cs_up s \<and> r = Inr x"
  by (simp add: db_call_def)

definition stored_cooldown :: "cred_state \<Rightarrow> string \<Rightarrow> string \<Rightarrow> int" where
  "stored_cooldown s i model = or_zero zero_time (map_of (cs_cooldowns s) (i, model))"

text \<open>
  The end of the cooldown the pool goes by: the one in the cache while the entry of the pair is younger
  than its time to live, the stored one otherwise.
\<close>

definition known_cooldown :: "int \<Rightarrow> cred_state \<Rightarrow> string \<Rightarrow> string \<Rightarrow> int" where
  "known_cooldown now s i model =
     (case map_of (cs_cache s) (cache_key i model) of
        Some (u, fetched) \<Rightarrow> if now - fetched < cooldownCacheTTL then u else stored_cooldown s i model
      | None \<Rightarrow> stored_cooldown s i model)"

lemma cache_key_inj [simp]: "cache_key i model = cache_key j model \<longleftrightarrow> i = j"
  by (simp add: cache_key_def)

lemma getModelCooldown_frame:
  assumes "getModelCooldown now i model s = (r, s')"
  shows "cs_creds s' = cs_creds s \<and> cs_cooldowns s' = cs_cooldowns s \<and> cs_up s' = cs_up s \<and>
         cs_rr s' = cs_rr s \<and> cs_audit s' = cs_audit s \<and> cs_orgs s' = cs_orgs s"
  using assms
  by (auto simp: getModelCooldown_def Let_def split: option.splits if_splits sum.splits)

text \<open>A lookup returns the known cooldown and leaves what is known of the model as it was.\<close>

lemma getModelCooldown_known:
  assumes "getModelCooldown now i model s = ((u, on), s')" "cs_up s"
  shows "u = known_cooldown now s i model \<and> on = (u > now) \<and>
         known_cooldown now s' j model = known_cooldown now s j model"
  using assms
  by (auto simp: getModelCooldown_def Let_def known_cooldown_def repo_GetModelCooldown_def
      stored_cooldown_def db_call_def update_conv split: option.splits if_splits)

lemma usable_sound:
  "usable now model ex cs s = (av, s') \<Longrightarrow> cs_up s \<Longrightarrow> c \<in> set av \<Longrightarrow>
   c \<in> set cs \<and> pr_id c \<notin> set ex \<and> (case pr_cooldown c of None \<Rightarrow> True | Some u \<Rightarrow> u \<le> now) \<and>
   (model \<noteq> '''' \<longrightarrow> known_cooldown now s (pr_id c) model \<le> now)"
proof (induction cs arbitrary: s av s')
  case (Cons d cs)
  show ?case
  proof (cases "pr_id d \<in> set ex \<or> (case pr_cooldown d of None \<Rightarrow> False | Some u \<Rightarrow> u > now)")
    case True
    with Cons show ?thesis by (auto split: if_splits)
  next
    case skip: False
    show ?thesis
    proof (cases "model = ''''")
      case True
      with skip Cons.prems(1) obtain av1 where a: "usable now model ex cs s = (av1, s')" "av = d # av1"
        by (auto split: if_splits prod.splits)
      with Cons.IH [OF a(1)] Cons.prems(2, 3) skip True show ?thesis
        by (auto split: option.splits)
    next
      case False
      obtain u on s1 where g: "getModelCooldown now (pr_id d) model s = ((u, on), s1)"
        by (metis prod.exhaust)
      note known = getModelCooldown_known [OF g Cons.prems(2)]
      have up: "cs_up s1" using getModelCooldown_frame [OF g] Cons.prems(2) by simp
      have rest: "c \<in> set av1 \<Longrightarrow> usable now model ex cs s1 = (av1, s') \<Longrightarrow>
          c \<in> set cs \<and> pr_id c \<notin> set ex \<and> (case pr_cooldown c of None \<Rightarrow> True | Some u \<Rightarrow> u \<le> now) \<and>
          known_cooldown now s (pr_id c) model \<le> now" for av1
        using Cons.IH [of s1 av1 s'] up known False by auto
      show ?thesis
      proof (cases "on \<and> u > now")
        case True
        with Cons.prems skip False g rest [of av] show ?thesis by (auto split: if_splits)
      next
        case on: False
        with Cons.prems(1) skip False g obtain av1 where a: "usable now model ex cs s1 = (av1, s')" "av = d # av1"
          by (auto split: if_splits prod.splits)
        with Cons.prems(3) rest [OF _ a(1)] on skip known show ?thesis
          by (auto split: option.splits)
      qed
    qed
  qed
qed simp

lemma usable_frame:
  "usable now model ex cs s = (av, s') \<Longrightarrow>
   cs_creds s' = cs_creds s \<and> cs_up s' = cs_up s \<and> cs_rr s' = cs_rr s \<and> cs_orgs s' = cs_orgs s"
proof (induction cs arbitrary: s av)
  case (Cons c cs)
  obtain r s1 where g: "getModelCooldown now (pr_id c) model s = (r, s1)" by (metis prod.exhaust)
  obtain u on where r: "r = (u, on)" by (cases r)
  show ?case
    using Cons getModelCooldown_frame [OF g] g r by (auto split: if_splits prod.splits)
qed simp


definition demo_cipher :: cipher where
  "demo_cipher = \<lparr>ci_encrypt = Some, ci_decrypt = Some\<rparr>"

definition demo_cred :: "string \<Rightarrow> string \<Rightarrow> int \<Rightarrow> provider_credential" where
  "demo_cred i st prio =
     \<lparr>pr_id = i, pr_org = ''o'', pr_provider = ''cli:claude'', pr_label = ''default'', pr_key = ''k'',
      pr_base_url = '''', pr_status = st, pr_priority = prio, pr_cooldown = None, pr_metadata = ''{}''\<rparr>"

definition demo_pool :: "provider_credential list \<Rightarrow> cred_state" where
  "demo_pool cs =
     \<lparr>cs_creds = cs, cs_cooldowns = [], cs_cache = [], cs_rr = (\<lambda>k. 0), cs_orgs = [], cs_audit = [],
      cs_recovered = 0, cs_next = 0, cs_up = True\<rparr>"

text \<open>
  A pool whose first credential cools down for the model by a fresh cache entry that the store does
  not have any more, and whose second is free.
\<close>

definition cached_pool :: cred_state where
  "cached_pool =
     (demo_pool [demo_cred ''a'' CredActive 2, demo_cred ''b'' CredActive 1])
       \<lparr>cs_cache := [(cache_key ''b'' ''sonnet'', (50, 4))]\<rparr>"


section \<open>Rotation\<close>

text \<open>The selections of \<open>n\<close> calls in a row at one time, the state passed on.\<close>

fun select_times ::
  "nat \<Rightarrow> cipher \<Rightarrow> int \<Rightarrow> string \<Rightarrow> string \<Rightarrow> cred_state \<Rightarrow> (cred_error + decrypted_credential) list" where
  "select_times 0 ci now org provider s = []"
| "select_times (Suc n) ci now org provider s =
     (case SelectCredential ci now org provider '''' StrategyRoundRobin [] s of
        (r, s') \<Rightarrow> r # select_times n ci now org provider s')"

definition candidates :: "int \<Rightarrow> string \<Rightarrow> string \<Rightarrow> cred_state \<Rightarrow> provider_credential list" where
  "candidates now org provider s =
     sort_key pr_priority (filter (selectable now org (to_lower provider)) (cs_creds s))"

lemma usable_all:
  "\<forall>c \<in> set cs. (case pr_cooldown c of None \<Rightarrow> True | Some u \<Rightarrow> u < now) \<Longrightarrow>
   usable now '''' [] cs s = (cs, s)"
  by (induction cs) (auto split: option.splits)

lemma candidates_usable: "usable now '''' [] (candidates now org provider s) s' = (candidates now org provider s, s')"
  by (rule usable_all) (auto simp: candidates_def selectable_def)

lemma select_round_robin:
  assumes "cs_up s" "candidates now org provider s \<noteq> []"
    and "ci_decrypt ci (pr_key c) = Some k"
    and "c = candidates now org provider s !
             (cs_rr s (rr_key org provider) mod length (candidates now org provider s))"
  shows "\<exists>s'. SelectCredential ci now org provider '''' StrategyRoundRobin [] s =
           (Inr \<lparr>dc_id = pr_id c, dc_provider = pr_provider c, dc_api_key = k, dc_base_url = pr_base_url c\<rparr>, s') \<and>
         cs_creds s' = cs_creds s \<and> cs_up s' = cs_up s \<and>
         cs_rr s' = (cs_rr s)(rr_key org provider := Suc (cs_rr s (rr_key org provider)))"
proof -
  have l: "ListActiveByOrgAndProvider now s org (to_lower provider) = Inr (candidates now org provider s)"
    using assms(1) by (simp add: ListActiveByOrgAndProvider_def candidates_def db_call_def)
  have p: "pick StrategyRoundRobin (rr_key org provider) (candidates now org provider s) s =
      (c, s\<lparr>cs_rr := (cs_rr s)(rr_key org provider := Suc (cs_rr s (rr_key org provider)))\<rparr>)"
    using assms(4) by (simp add: pick_def)
  show ?thesis
    using assms(2, 3)
    by (simp add: SelectCredential_def l candidates_usable p decrypt_key_def recordAudit_def)
qed

lemma select_times_ids:
  assumes "cs_up s" "cs = candidates now org provider s" "cs \<noteq> []"
    and "\<forall>c \<in> set cs. ci_decrypt ci (pr_key c) \<noteq> None"
  shows "select_times n ci now org provider s =
         map (\<lambda>i. Inr (let c = cs ! ((cs_rr s (rr_key org provider) + i) mod length cs)
                       in \<lparr>dc_id = pr_id c, dc_provider = pr_provider c,
                           dc_api_key = the (ci_decrypt ci (pr_key c)), dc_base_url = pr_base_url c\<rparr>))
             [0..<n]"
  using assms(1, 2)
proof (induction n arbitrary: s)
  case (Suc n)
  let ?key = "rr_key org provider"
  let ?c = "cs ! (cs_rr s ?key mod length cs)"
  have "?c \<in> set cs" using assms(3) by simp
  then obtain k where k: "ci_decrypt ci (pr_key ?c) = Some k" using assms(4) by auto
  have "?c = candidates now org provider s ! (cs_rr s ?key mod length (candidates now org provider s))"
    using Suc.prems(2) by simp
  with select_round_robin [OF Suc.prems(1) _ k this] assms(3) Suc.prems(2)
  obtain s' where s': "SelectCredential ci now org provider '''' StrategyRoundRobin [] s =
      (Inr \<lparr>dc_id = pr_id ?c, dc_provider = pr_provider ?c, dc_api_key = k, dc_base_url = pr_base_url ?c\<rparr>, s')"
    "cs_creds s' = cs_creds s" "cs_up s'" "cs_rr s' ?key = Suc (cs_rr s ?key)"
    using Suc.prems(1) by auto
  have "cs = candidates now org provider s'"
    using Suc.prems(2) s'(2) by (simp add: candidates_def)
  from Suc.IH [OF s'(3) this] s'(1, 4) k show ?case
    by (simp add: upt_conv_Cons map_Suc_upt [symmetric] Let_def del: upt_Suc)
qed simp

lemma rotation_set:
  assumes "0 < (n::nat)"
  shows "(\<lambda>i. (r + i) mod n) ` {0..<n} = {0..<n}"
proof
  show "{0..<n} \<subseteq> (\<lambda>i. (r + i) mod n) ` {0..<n}"
  proof
    fix j assume "j \<in> {0..<n}"
    let ?i = "(j + (n - r mod n)) mod n"
    have "(r + ?i) mod n = (r mod n + (j + (n - r mod n))) mod n"
      by (simp add: mod_simps)
    also have "r mod n + (j + (n - r mod n)) = j + n"
      using mod_less_divisor [OF assms, of r] by linarith
    also have "(j + n) mod n = j" using \<open>j \<in> {0..<n}\<close> by simp
    finally show "j \<in> (\<lambda>i. (r + i) mod n) ` {0..<n}" using assms by (intro image_eqI [of _ _ ?i]) auto
  qed
qed (use assms in auto)

text \<open>
  rotation is fair: as many calls in a row as there are usable credentials select every one of
  them, whatever the counter is.
\<close>

theorem round_robin_fair:
  assumes "cs_up s" "cs = candidates now org provider s" "cs \<noteq> []"
    and "\<forall>c \<in> set cs. ci_decrypt ci (pr_key c) \<noteq> None"
  shows "pr_id ` set cs =
         {i. \<exists>d. Inr d \<in> set (select_times (length cs) ci now org provider s) \<and> dc_id d = i}"
proof -
  let ?r = "cs_rr s (rr_key org provider)" and ?n = "length cs"
  have "{i. \<exists>d. Inr d \<in> set (select_times ?n ci now org provider s) \<and> dc_id d = i} =
        (\<lambda>i. pr_id (cs ! ((?r + i) mod ?n))) ` {0..<?n}"
    unfolding select_times_ids [OF assms] by (auto simp: Let_def)
  also have "\<dots> = (\<lambda>j. pr_id (cs ! j)) ` ((\<lambda>i. (?r + i) mod ?n) ` {0..<?n})"
    by (simp add: image_image)
  also have "\<dots> = (\<lambda>j. pr_id (cs ! j)) ` {0..<?n}"
    using rotation_set [of ?n ?r] assms(3) by simp
  also have "\<dots> = pr_id ` ((!) cs ` {0..<?n})" by (simp only: image_image)
  also have "(!) cs ` {0..<?n} = set cs" by (simp add: nth_image)
  finally show ?thesis by simp
qed

theorem round_robin_fair_witness:
  "pr_id ` set (candidates 5 ''o'' ''cli:claude'' (demo_pool [demo_cred ''a'' CredActive 2, demo_cred ''b'' CredActive 1])) =
   {i. \<exists>d. Inr d \<in> set (select_times
          (length (candidates 5 ''o'' ''cli:claude'' (demo_pool [demo_cred ''a'' CredActive 2, demo_cred ''b'' CredActive 1])))
          demo_cipher 5 ''o'' ''cli:claude'' (demo_pool [demo_cred ''a'' CredActive 2, demo_cred ''b'' CredActive 1])) \<and>
        dc_id d = i}"
  by (rule round_robin_fair)
     (auto simp: demo_pool_def candidates_def selectable_def demo_cred_def demo_cipher_def to_lower_def
       lower_char_def)

section \<open>Cooldowns\<close>

text \<open>
  a rate limit reported for a disabled credential, or one that needs a new login, makes it
  active and selectable again once the cooldown is over: neither status survives.
\<close>

theorem cooldown_revives:
  assumes "cs_up s" "find_cred (cs_creds s) i = Some c" "SetCooldown now i '''' until_t s = Inr s1"
    and "ClearExpiredCooldowns later s1 = Inr (n, s2)" "until_t < later"
  shows "find_cred (cs_creds s2) i = Some (c\<lparr>pr_status := CredActive, pr_cooldown := None\<rparr>)"
proof -
  have keep: "same_cred i (limit_until u)" for u by (simp add: same_cred_def limit_until_def)
  have "cs_creds s1 = map_cred (cs_creds s) i (limit_until until_t)"
    using assms(1-3)
    by (auto simp: SetCooldown_def cred_GetByID_def repo_SetCooldown_def update_by_id_def db_call_def
        recordAudit_def bind_err_Inr)
  then have f1: "find_cred (cs_creds s1) i = Some (limit_until until_t c)"
    using find_map_cred [OF keep] assms(2) by simp
  let ?f = "\<lambda>c. if cooled_down later c then c\<lparr>pr_status := CredActive, pr_cooldown := None\<rparr> else c"
  have "cs_creds s2 = map ?f (cs_creds s1)"
    using assms(4) by (auto simp: ClearExpiredCooldowns_def repo_ClearExpiredCooldowns_def Let_def
        db_call_def bind_err_Inr split: if_splits)
  moreover have "find_cred (map ?f cs) i = map_option ?f (find_cred cs i)" for cs
    by (induction cs) (auto simp: find_cred_def)
  ultimately show ?thesis
    using f1 assms(5) by (simp add: limit_until_def cooled_down_def)
qed

theorem cooldown_revives_witness:
  "\<exists>n s2. ClearExpiredCooldowns 9 (demo_pool [limit_until 7 (demo_cred ''a'' CredDisabled 1)]
       \<lparr>cs_audit := [(''provider_credential.rate_limited'', ''a'')]\<rparr>) = Inr (n, s2) \<and>
     find_cred (cs_creds s2) ''a'' =
       Some ((demo_cred ''a'' CredDisabled 1)\<lparr>pr_status := CredActive, pr_cooldown := None\<rparr>)"
proof -
  let ?s = "demo_pool [demo_cred ''a'' CredDisabled 1]"
  let ?s1 = "demo_pool [limit_until 7 (demo_cred ''a'' CredDisabled 1)]
       \<lparr>cs_audit := [(''provider_credential.rate_limited'', ''a'')]\<rparr>"
  have s1: "SetCooldown 5 ''a'' '''' 7 ?s = Inr ?s1"
    by (simp add: SetCooldown_def cred_GetByID_def db_call_def demo_pool_def find_cred_def demo_cred_def
        repo_SetCooldown_def update_by_id_def map_cred_def recordAudit_def)
  obtain n s2 where s2: "ClearExpiredCooldowns 9 ?s1 = Inr (n, s2)"
    by (simp add: ClearExpiredCooldowns_def repo_ClearExpiredCooldowns_def db_call_def demo_pool_def Let_def)
  have "cs_up ?s" "find_cred (cs_creds ?s) ''a'' = Some (demo_cred ''a'' CredDisabled 1)"
    by (simp_all add: demo_pool_def find_cred_def demo_cred_def)
  from cooldown_revives [OF this s1 s2] s2 show ?thesis by simp
qed

text \<open>
  The smallest cooldown counts credentials that need a new login as ready, so one of them hides the
  cooldown of all the others.
\<close>

lemma cooldown_nonneg: "cooldown_of now '''' c s = (d, s') \<Longrightarrow> 0 \<le> d \<and> s' = s"
  by (auto simp: cooldown_of_def Let_def split: if_splits option.splits)

text \<open>Without a model the search is a fold over the cooldowns of the counted credentials.\<close>

definition counted :: "string \<Rightarrow> provider_credential \<Rightarrow> bool" where
  "counted provider c = (to_lower (pr_provider c) = to_lower provider \<and> pr_status c \<noteq> CredDisabled)"

lemma min_cooldown_fold:
  "min_cooldown now provider '''' cs best s =
     (fold (\<lambda>c b. less_cooldown b (fst (cooldown_of now '''' c s)) (pr_id c))
        (filter (counted provider) cs) best, s)"
proof (induction cs arbitrary: best)
  case (Cons c cs)
  obtain d s1 where d: "cooldown_of now '''' c s = (d, s1)" by (metis prod.exhaust)
  with cooldown_nonneg [OF d] Cons show ?case by (simp add: counted_def)
qed simp

definition reading :: "int \<Rightarrow> (int \<times> string) option \<Rightarrow> bool" where
  "reading m b = (case b of None \<Rightarrow> False | Some (n, i) \<Rightarrow> 0 \<le> n \<and> n \<le> m)"

lemma reading_less: "0 \<le> d \<Longrightarrow> reading m b \<Longrightarrow> reading m (less_cooldown b d i)"
  by (auto simp: reading_def less_cooldown_def split: option.splits)

lemma fold_reading:
  "reading m b \<Longrightarrow>
   reading m (fold (\<lambda>c b. less_cooldown b (fst (cooldown_of now '''' c s)) (pr_id c)) cs b)"
proof (induction cs arbitrary: b)
  case (Cons c cs)
  have "0 \<le> fst (cooldown_of now '''' c s)" by (metis cooldown_nonneg prod.collapse)
  with Cons show ?case by (simp add: reading_less)
qed simp

lemma fold_nonneg:
  "b = None \<or> (\<exists>m. reading m b) \<Longrightarrow>
   (let r = fold (\<lambda>c b. less_cooldown b (fst (cooldown_of now '''' c s)) (pr_id c)) cs b
    in r = None \<or> (\<exists>m. reading m r))"
proof (induction cs arbitrary: b)
  case (Cons c cs)
  have "0 \<le> fst (cooldown_of now '''' c s)" by (metis cooldown_nonneg prod.collapse)
  then have "\<exists>m. reading m (less_cooldown b (fst (cooldown_of now '''' c s)) (pr_id c))"
    using Cons.prems by (cases b) (auto simp: reading_def less_cooldown_def)
  with Cons.IH show ?case by simp
qed simp

lemma min_cooldown_zero:
  assumes "c \<in> set cs" "counted provider c" "fst (cooldown_of now '''' c s) = 0"
  shows "\<exists>i. min_cooldown now provider '''' cs None s = (Some (0, i), s)"
proof -
  let ?f = "\<lambda>c b. less_cooldown b (fst (cooldown_of now '''' c s)) (pr_id c)"
  from assms obtain as bs where "filter (counted provider) cs = as @ c # bs"
    by (metis filter_set mem_Collect_eq set_filter split_list)
  then have r: "fold ?f (filter (counted provider) cs) None = fold ?f bs (?f c (fold ?f as None))"
    by simp
  have "fold ?f as None = None \<or> (\<exists>m. reading m (fold ?f as None))"
    using fold_nonneg [of None now s as] by (simp add: Let_def)
  then have "reading 0 (?f c (fold ?f as None))"
    using assms(3) by (cases "fold ?f as None") (auto simp: reading_def less_cooldown_def)
  from fold_reading [OF this, of now s bs]
  have "reading 0 (fold ?f (filter (counted provider) cs) None)" by (simp only: r)
  then show ?thesis
    by (auto simp: min_cooldown_fold reading_def split: option.splits)
qed

lemma reauth_hides_cooldown:
  assumes "cs_up s" "c \<in> set (cs_creds s)" "pr_org c = org" "pr_provider c = provider"
    and "pr_status c = CredNeedsReauth"
  shows "\<exists>i. GetMinCooldown now org provider '''' s = (Inr (0, i), s)"
proof -
  let ?cs = "sort_key pr_provider (sort_key pr_priority (filter (\<lambda>c. pr_org c = org) (cs_creds s)))"
  have "cred_ListByOrg s org = Inr ?cs" using assms(1) by (simp add: cred_ListByOrg_def db_call_def)
  moreover have "c \<in> set ?cs" using assms(2, 3) by simp
  moreover have "counted provider c" using assms(4, 5) by (simp add: counted_def)
  moreover have "fst (cooldown_of now '''' c s) = 0" using assms(5) by (simp add: cooldown_of_def Let_def)
  ultimately show ?thesis
    using min_cooldown_zero [of c ?cs provider now s] by (auto simp: GetMinCooldown_def)
qed

end
