(* ===== verification/Routing_Properties.thy ===== *)
theory Routing_Properties
  imports Credential_Properties
begin

text \<open>
  Properties that join the credential pool with the organization rows and the execution router: the
  compare-and-swap loop refines one atomic update, no custom provider is ever available, and a
  review never runs on the harness it must avoid.
\<close>

section \<open>The compare-and-swap loop\<close>

text \<open>The abstract update: enable the row of a provider in the current value of one organization.\<close>

definition enable_providers :: "string \<Rightarrow> organization \<Rightarrow> organization" where
  "enable_providers provider g =
     (case ValidateExecutionProviders (og_default_providers g) of
        Inl e \<Rightarrow> g
      | Inr ps \<Rightarrow> (case AutoEnableExecutionProviderRow ps provider of
                     (updated, changed) \<Rightarrow>
                       if changed then g\<lparr>og_default_providers := Json updated\<rparr> else g))"

definition enable_org :: "string \<Rightarrow> string \<Rightarrow> organization list \<Rightarrow> organization list" where
  "enable_org org provider os = map (\<lambda>g. if og_id g = org then enable_providers provider g else g) os"

text \<open>The rows after \<open>j\<close> rounds of the other writers, of \<open>n\<close> rounds in all.\<close>

definition rounds :: "(nat \<Rightarrow> 'a \<Rightarrow> 'a) \<Rightarrow> nat \<Rightarrow> nat \<Rightarrow> 'a \<Rightarrow> 'a" where
  "rounds others n j x = fold others (rev [n - j..<n]) x"

lemma rounds_0 [simp]: "rounds others n 0 x = x"
  by (simp add: rounds_def)

lemma rounds_Suc: "j \<le> n \<Longrightarrow> rounds others (Suc n) (Suc j) x = rounds others n j (others n x)"
  by (simp add: rounds_def)

lemma find_org_id: "find_org os org = Some g \<Longrightarrow> og_id g = org"
  by (auto simp: find_org_def find_Some_iff)

lemma swap_is_enable:
  assumes "distinct (map og_id os)" "og_id h = org" "h \<in> set os" "og_default_providers h = old"
    and "ValidateExecutionProviders old = Inr ps" "AutoEnableExecutionProviderRow ps provider = (new, True)"
  shows "map (\<lambda>g. if og_id g = org \<and> og_default_providers g = old
                  then g\<lparr>og_default_providers := Json new\<rparr> else g) os = enable_org org provider os"
  unfolding enable_org_def
proof (rule map_cong [OF refl])
  fix g assume g: "g \<in> set os"
  show "(if og_id g = org \<and> og_default_providers g = old
         then g\<lparr>og_default_providers := Json new\<rparr> else g) =
        (if og_id g = org then enable_providers provider g else g)"
  proof (cases "og_id g = org")
    case True
    then have "g = h"
      using inj_onD [of og_id "set os" g h] assms(1-3) g by (simp add: distinct_map)
    then show ?thesis using assms(2, 4-6) by (simp add: enable_providers_def)
  qed simp
qed

lemma CompareAndSwap_cases:
  "CompareAndSwap org old new os = r \<Longrightarrow>
   r = None \<or>
   (\<exists>h \<in> set os. og_id h = org \<and> og_default_providers h = old \<and>
      r = Some (True, map (\<lambda>g. if og_id g = org \<and> og_default_providers g = old
                               then g\<lparr>og_default_providers := new\<rparr> else g) os)) \<or>
   r = Some (False, os)"
proof (cases "\<exists>h \<in> set os. og_id h = org \<and> og_default_providers h = old")
  case False
  then have "map (\<lambda>g. if og_id g = org \<and> og_default_providers g = old
                      then g\<lparr>og_default_providers := new\<rparr> else g) os = os"
    by (intro map_idI) auto
  then show "CompareAndSwap org old new os = r \<Longrightarrow> ?thesis"
    using False by (auto simp: CompareAndSwap_def list_ex_iff split: if_splits)
qed (auto simp: CompareAndSwap_def list_ex_iff split: if_splits)

text \<open>
  C29: the loop that enables a provider row refines one atomic update. Whatever other writers
  do between its reads and its writes, its result is the rows they left, or those rows
  with the enabling applied to the value they hold then: no update of another writer is lost.
\<close>

theorem auto_enable_atomic:
  assumes "distinct (map og_id os)"
    and "\<forall>k xs. distinct (map og_id xs) \<longrightarrow> distinct (map og_id (others k xs))"
  shows "\<exists>j \<le> n. auto_enable_loop others n org provider os \<in>
           {rounds others n j os, enable_org org provider (rounds others n j os)}"
  using assms(1)
proof (induction n arbitrary: os)
  case (Suc n)
  let ?os = "others n os"
  have d: "distinct (map og_id ?os)" using assms(2) Suc.prems by blast
  have one: "rounds others (Suc n) (Suc 0) os = ?os" by (simp add: rounds_Suc)
  have stop: ?case if "auto_enable_loop others (Suc n) org provider os = os"
    using that by (intro exI [of _ 0]) simp
  have now: ?case if "auto_enable_loop others (Suc n) org provider os \<in> {?os, enable_org org provider ?os}"
    using that one by (intro exI [of _ "Suc 0"]) simp
  show ?case
  proof (cases "find_org os org")
    case (Some g)
    show ?thesis
    proof (cases "ValidateExecutionProviders (og_default_providers g)")
      case (Inr ps)
      obtain new ch where a: "AutoEnableExecutionProviderRow ps provider = (new, ch)" by fastforce
      note loop = Some Inr a
      show ?thesis
      proof (cases ch)
        case True
        from CompareAndSwap_cases [OF refl, of org "og_default_providers g" "Json new" ?os]
        consider "CompareAndSwap org (og_default_providers g) (Json new) ?os = None"
          | h where "h \<in> set ?os" "og_id h = org" "og_default_providers h = og_default_providers g"
              "CompareAndSwap org (og_default_providers g) (Json new) ?os = Some (True, enable_org org provider ?os)"
          | "CompareAndSwap org (og_default_providers g) (Json new) ?os = Some (False, ?os)"
          using swap_is_enable [OF d _ _ _ Inr] a True by fastforce
        then show ?thesis
        proof cases
          case 3
          obtain j where "j \<le> n" "auto_enable_loop others n org provider ?os \<in>
              {rounds others n j ?os, enable_org org provider (rounds others n j ?os)}"
            using Suc.IH [OF d] by blast
          with 3 loop True show ?thesis
            by (intro exI [of _ "Suc j"]) (simp add: rounds_Suc)
        qed (use now loop True in simp_all)
      qed (use stop loop in simp)
    qed (use stop Some in simp)
  qed (use stop in simp)
qed simp
definition demo_org :: "execution_provider_config list raw_json \<Rightarrow> organization" where
  "demo_org raw = \<lparr>og_id = ''o'', og_default_providers = raw, og_web_search = False\<rparr>"

text \<open>Another writer switches web search on in its first round and leaves the providers.\<close>

definition web_writer :: "nat \<Rightarrow> organization list \<Rightarrow> organization list" where
  "web_writer k os = (if k = 4 then map (\<lambda>g. g\<lparr>og_web_search := True\<rparr>) os else os)"

theorem auto_enable_atomic_witness:
  "\<exists>j \<le> 5. auto_enable_loop web_writer 5 ''o'' ''cli:claude'' [demo_org (Json [])] \<in>
     {rounds web_writer 5 j [demo_org (Json [])],
      enable_org ''o'' ''cli:claude'' (rounds web_writer 5 j [demo_org (Json [])])}"
  by (rule auto_enable_atomic) (auto simp: demo_org_def web_writer_def comp_def)

lemma web_writer_kept:
  "auto_enable_loop web_writer 5 ''o'' ''cli:claude'' [demo_org (Json [])] =
   enable_org ''o'' ''cli:claude'' [(demo_org (Json []))\<lparr>og_web_search := True\<rparr>]"
  by code_simp

section \<open>Every credential belongs to a CLI provider\<close>

text \<open>
  The operations of the pool as steps of one state. The outage step changes whether the database
  answers.
\<close>

inductive pool_step :: "cred_state \<Rightarrow> cred_state \<Rightarrow> bool" where
  create: "pool_Create new_id ci others org input s = (r, s') \<Longrightarrow> pool_step s s'"
| update: "pool_Update ci s org i uinput = Inr (c, s') \<Longrightarrow> pool_step s s'"
| delete: "pool_Delete s org i = Inr s' \<Longrightarrow> pool_step s s'"
| cooldown: "SetCooldown now i model until_t s = Inr s' \<Longrightarrow> pool_step s s'"
| clear: "ClearExpiredCooldowns now s = Inr (n, s') \<Longrightarrow> pool_step s s'"
| reauth: "MarkNeedsReauth s i = Inr s' \<Longrightarrow> pool_step s s'"
| select: "SelectCredential ci now org provider model strategy excluded s = (d, s') \<Longrightarrow> pool_step s s'"
| outage: "pool_step s (s\<lparr>cs_up := up\<rparr>)"

definition all_cli :: "provider_credential list \<Rightarrow> bool" where
  "all_cli cs = (\<forall>c \<in> set cs. IsAllowedProvider (pr_provider c))"

lemma all_cli_map:
  "all_cli cs \<Longrightarrow> (\<And>c. pr_provider (f c) = pr_provider c) \<Longrightarrow> all_cli (map f cs)"
  by (auto simp: all_cli_def)

lemma all_cli_map_cred:
  "all_cli cs \<Longrightarrow> (\<And>c. pr_provider (f c) = pr_provider c) \<Longrightarrow> all_cli (map_cred cs i f)"
  unfolding map_cred_def by (rule all_cli_map) auto

lemma recordAudit_creds [simp]: "cs_creds (recordAudit a c s) = cs_creds s"
  by (simp add: recordAudit_def)

lemma autoEnable_creds [simp]: "cs_creds (autoEnableGlobalRouting others org p s) = cs_creds s"
  by (simp add: autoEnableGlobalRouting_def)

lemma create_all_cli:
  assumes "pool_Create new_id ci others org input s = (r, s')" "all_cli (cs_creds s)"
  shows "all_cli (cs_creds s')"
  using assms
  by (auto simp: pool_Create_def encrypt_key_def cred_Create_def Let_def all_cli_def isAllowedProvider_def
      db_call_def split: if_splits option.splits sum.splits)

lemma SelectCredential_creds:
  "SelectCredential ci now org provider model strategy excluded s = (d, s') \<Longrightarrow> cs_creds s' = cs_creds s"
  by (auto simp: SelectCredential_def pick_def db_call_def split: sum.splits if_splits prod.splits
      dest!: usable_frame)

lemma pool_step_all_cli: "pool_step s s' \<Longrightarrow> all_cli (cs_creds s) \<Longrightarrow> all_cli (cs_creds s')"
proof (induction rule: pool_step.induct)
  case (update ci s org i uinput c s')
  then obtain input where "cs_creds s' = map_cred (cs_creds s) i (update_cred input)"
    by (auto simp: pool_Update_def cred_Update_def Let_def bind_err_Inr split: if_splits)
  with update.prems show ?case by (auto intro!: all_cli_map_cred simp: update_cred_def)
next
  case (delete s org i s')
  then show ?case
    by (auto simp: pool_Delete_def cred_Delete_def db_call_def bind_err_Inr all_cli_def split: if_splits)
next
  case (cooldown now i model until_t s s')
  then show ?case
    by (auto simp: SetCooldown_def UpsertModelCooldown_def repo_SetCooldown_def update_by_id_def db_call_def
        Let_def bind_err_Inr limit_until_def intro!: all_cli_map_cred split: if_splits)
next
  case (clear now s n s')
  then have "cs_creds s' = map (\<lambda>c. if cooled_down now c
      then c\<lparr>pr_status := CredActive, pr_cooldown := None\<rparr> else c) (cs_creds s)"
    by (auto simp: ClearExpiredCooldowns_def repo_ClearExpiredCooldowns_def Let_def db_call_def
        bind_err_Inr split: if_splits)
  with clear.prems show ?case by (auto intro!: all_cli_map)
next
  case (reauth s i s')
  then show ?case
    by (auto simp: MarkNeedsReauth_def update_by_id_def db_call_def need_reauth_def
        intro!: all_cli_map_cred split: if_splits)
qed (auto dest: create_all_cli SelectCredential_creds)

section \<open>Custom providers\<close>

lemma custom_row_has_credential:
  "validate_rows k ps = None \<Longrightarrow> p \<in> set ps \<Longrightarrow> ep_enabled p \<Longrightarrow> ep_ref p = ''custom'' \<Longrightarrow>
   ep_credential_id p \<noteq> ''''"
proof (induction k ps rule: validate_rows.induct)
  case (2 i q ps)
  have "trim_space '''' = ''''" by code_simp
  with 2 show ?case
    by (auto simp: validate_provider_def simp del: trim_space_def split: option.splits if_splits)
qed simp

lemma pool_GetByID_row:
  assumes "pool_GetByID now s i = Inr r"
  shows "\<exists>c \<in> set (cs_creds s). cr_provider r = pr_provider c"
proof -
  obtain c where c: "cred_GetByID s i = Inr c" "cr_provider r = pr_provider c"
    using assms by (cases "ListActiveModelCooldowns now s [i]")
      (auto simp: pool_GetByID_def bind_err_Inr ToResponse_def)
  then have "c \<in> set (cs_creds s)"
    by (auto simp: cred_GetByID_def db_call_def find_cred_def find_Some_iff split: if_splits option.splits)
  with c show ?thesis by blast
qed

lemma pinned_provider:
  assumes "hasAvailableCredential env now org provider i s = (True, s')" "re_has_pool env" "i \<noteq> ''''"
  shows "s' = s \<and> (\<exists>c \<in> set (cs_creds s). pr_provider c = provider)"
  using assms by (auto simp: hasAvailableCredential_def split: sum.splits dest!: pool_GetByID_row)

lemma custom_unavailable:
  assumes "re_has_pool env" "all_cli (cs_creds s)" "ep_ref p = ''custom''" "ep_credential_id p \<noteq> ''''"
  shows "resolveCLICandidate env now org p s = (None, s)"
proof -
  have no_empty: "pr_provider c \<noteq> ''''" if "c \<in> set (cs_creds s)" for c
    using that assms(2) by (auto simp: all_cli_def IsAllowedProvider_def)
  obtain ok s' where h: "hasAvailableCredential env now org '''' (ep_credential_id p) s = (ok, s')"
    by fastforce
  have "\<not> ok" using pinned_provider [of env now org "''''" _ s s'] h assms(1, 4) no_empty by (cases ok) auto
  moreover have "s' = s"
    using h assms(1, 4) by (auto simp: hasAvailableCredential_def split: sum.splits)
  ultimately show ?thesis
    using assms(3, 4) h by (auto simp: resolveCLICandidate_def candidate_config_def split: option.splits)
qed

lemma min_cooldown_state: "min_cooldown now provider '''' cs best s = (b, s') \<Longrightarrow> s' = s"
proof (induction cs arbitrary: best s)
  case (Cons c cs)
  then show ?case
    by (auto split: if_splits prod.splits dest: cooldown_nonneg)
qed simp

lemma candidate_cooldown_state: "candidate_cooldown env now org p s = (cd, s') \<Longrightarrow> s' = s"
  by (auto simp: candidate_cooldown_def GetMinCooldown_def split: option.splits if_splits prod.splits
      sum.splits dest: min_cooldown_state)

lemma try_none:
  assumes "\<forall>p \<in> set ps. ep_enabled p \<and> (exclude = '''' \<or> ep_ref p \<noteq> exclude) \<longrightarrow>
             resolveCLICandidate env now org p s = (None, s)"
  shows "\<exists>e. try_providers env now org exclude sleep ps s = (Inl e, s)"
  using assms
proof (induction ps arbitrary: sleep)
  case (Cons p ps)
  obtain cd where cd: "candidate_cooldown env now org p s = (cd, s)"
    using candidate_cooldown_state by (metis prod.exhaust)
  from Cons have "\<exists>e. try_providers env now org exclude sl ps s = (Inl e, s)" for sl by auto
  with Cons.prems cd show ?case by auto
qed (auto split: option.splits)

text \<open>
  a project whose enabled providers are all custom never gets a provider, in any state the
  pool reaches: a custom row must pin a credential, and the pinned credential is compared with
  the empty provider name although every stored credential has a provider name.
\<close>

theorem custom_never_available:
  assumes "pool_step\<^sup>*\<^sup>* s0 s" "cs_creds s0 = []" "re_has_pool env"
    and "sorts_by_priority srt"
    and "ValidateExecutionProviders (p_execution_providers pj) = Inr ps" "HasEnabledProvider ps"
    and "\<forall>p \<in> set ps. ep_enabled p \<longrightarrow> ep_ref p = ''custom''"
  shows "\<exists>e. resolveExecutionProvider srt env now pj exclude s = (Inl e, s)"
proof -
  have inv: "all_cli (cs_creds s)"
    using assms(1)
  proof (induction rule: rtranclp_induct)
    case base
    show ?case by (simp add: all_cli_def assms(2))
  next
    case (step y z)
    then show ?case by (rule_tac pool_step_all_cli)
  qed
  have sorted: "set (srt ps) = set ps"
    using assms(4) by (metis sorts_by_priority_def set_mset_mset)
  have "validate_rows 0 ps = None \<or> ps = []"
    using assms(5) by (auto simp: ValidateExecutionProviders_def split: raw_json.splits option.splits)
  then have "\<forall>p \<in> set (srt ps). ep_enabled p \<longrightarrow> resolveCLICandidate env now (p_org_id pj) p s = (None, s)"
    using custom_unavailable [OF assms(3) inv] custom_row_has_credential [of 0 ps] assms(7) sorted by fastforce
  then show ?thesis
    using try_none [of "srt ps" exclude env now "p_org_id pj" s None] assms(5, 6)
    by (auto simp: resolveExecutionProvider_def resolveFromProviderList_def)
qed

definition routed_project :: "execution_provider_config list raw_json \<Rightarrow> project" where
  "routed_project raw =
     \<lparr>p_id = ''p'', p_org_id = ''o'', p_name = ''p'', p_description = '''',
      p_default_model_level = ''balanced'', p_default_autonomy = ''supervised'',
      p_auto_review_policy = ''complexity_based'', p_require_spec_review = False, p_max_retries = 3,
      p_max_review_fix_cycles = 3, p_default_branch = ''main'', p_execution_providers = raw,
      p_review_harness_policy = ''different_model'', p_smart_routing = True, p_pipeline_config = NoJson,
      p_max_task_retry_count = 5, p_max_execution_minutes = 120, p_max_event_count = 20000,
      p_cost_budget = None, p_repositories_count = 0, p_agents_count = 0, p_tasks_done_count = 0,
      p_tasks_total_count = 0, p_created_at = 0, p_updated_at = 0\<rparr>"

definition custom_row :: execution_provider_config where
  "custom_row =
     \<lparr>ep_type = ''cli'', ep_ref = ''custom'', ep_credential_id = ''a'', ep_priority = 0, ep_enabled = True,
      ep_cli_config = Some \<lparr>cli_command = ''mytool'', cli_args = [], cli_credential_id = '''', cli_env = [],
        cli_timeout_minutes = 30, cli_auth_check_command = '''', cli_allow_noop = False,
        cli_underlying_provider = '''', cli_profile_ref = ''''\<rparr>\<rparr>"

definition demo_env :: "(string \<Rightarrow> cli_profile option) \<Rightarrow> router_env" where
  "demo_env prof = \<lparr>re_cipher = demo_cipher, re_profile = prof, re_has_pool = True, re_has_orgs = True\<rparr>"

lemma insort_sorts: "sorts_by_priority (sort_key ep_priority)"
  by (simp add: sorts_by_priority_def)

definition custom_pool :: cred_state where
  "custom_pool = snd (pool_Create (\<lambda>n. ''a'') demo_cipher (\<lambda>k os. os) ''o''
     \<lparr>cc_provider = ''cli:mytool'', cc_label = '''', cc_api_key = ''k'', cc_base_url = '''', cc_priority = 0,
      cc_metadata = ''''\<rparr> (demo_pool []))"

lemma custom_pool_row: "map pr_provider (cs_creds custom_pool) = [''cli:mytool'']"
  by code_simp

theorem custom_never_available_witness:
  "\<exists>e. resolveExecutionProvider (sort_key ep_priority) (demo_env (\<lambda>r. None)) 5
         (routed_project (Json [custom_row])) '''' custom_pool = (Inl e, custom_pool)"
proof (rule custom_never_available)
  show "pool_step\<^sup>*\<^sup>* (demo_pool []) custom_pool"
    unfolding custom_pool_def by (rule r_into_rtranclp, rule pool_step.create, rule surjective_pairing)
  show "ValidateExecutionProviders (p_execution_providers (routed_project (Json [custom_row]))) = Inr [custom_row]"
    by (simp add: ValidateExecutionProviders_def routed_project_def) code_simp
  show "sorts_by_priority (sort_key ep_priority)" by (rule insort_sorts)
qed (simp_all add: demo_pool_def demo_env_def HasEnabledProvider_def custom_row_def)

section \<open>Cross review\<close>

lemma try_result:
  "try_providers env now org exclude sleep ps s = (Inr r, s') \<Longrightarrow>
   \<exists>p \<in> set ps. ep_enabled p \<and> (exclude = '''' \<or> ep_ref p \<noteq> exclude) \<and> rp_Ref r = ep_ref p \<and>
     cli_profile_ref (rp_CLIConfig r) = ep_ref p \<and> cli_credential_id (rp_CLIConfig r) = rp_CredentialID r"
proof (induction ps arbitrary: sleep s)
  case (Cons p ps)
  then show ?case
    by (fastforce simp: resolveCLICandidate_def finish_config_def Let_def
        split: if_splits prod.splits option.splits sum.splits)
qed simp

text \<open>
  a review never runs on the profile it must avoid: the profile it gets is an enabled row of the
  project's list, or of the organization's when the project enables none, with another reference.
  The list of the project is never mixed with the one of the organization.
\<close>

theorem review_harness_differs:
  assumes "ResolveReviewProvider srt env now pj exclude s = (Inr r, s')" "exclude \<noteq> ''''"
    and "sorts_by_priority srt"
    and "ValidateExecutionProviders (p_execution_providers pj) = Inr ps"
  shows "rp_Ref r \<noteq> exclude \<and> cli_profile_ref (rp_CLIConfig r) = rp_Ref r \<and>
         (\<exists>p. ep_enabled p \<and> ep_ref p = rp_Ref r \<and>
            (if HasEnabledProvider ps then p \<in> set ps
             else \<exists>g qs. find_organization env s (p_org_id pj) = Some g \<and>
                    ValidateExecutionProviders (og_default_providers g) = Inr qs \<and> p \<in> set qs))"
proof -
  have same: "set (srt xs) = set xs" for xs
    using assms(3) by (metis sorts_by_priority_def set_mset_mset)
  have r: "resolveExecutionProvider srt env now pj exclude s = (Inr r, s')"
    using assms(1) by (auto simp: ResolveReviewProvider_def split: prod.splits sum.splits router_error.splits)
  show ?thesis
  proof (cases "HasEnabledProvider ps")
    case True
    with r assms(4) have "try_providers env now (p_org_id pj) exclude None (srt ps) s = (Inr r, s')"
      by (simp add: resolveExecutionProvider_def resolveFromProviderList_def)
    from try_result [OF this] assms(2) True same show ?thesis by auto
  next
    case False
    with r assms(4) obtain g qs where "find_organization env s (p_org_id pj) = Some g"
      "ValidateExecutionProviders (og_default_providers g) = Inr qs"
      "try_providers env now (p_org_id pj) exclude None (srt qs) s = (Inr r, s')"
      by (auto simp: resolveExecutionProvider_def resolveFromOrgDefault_def resolveFromProviderList_def
          split: option.splits prod.splits sum.splits if_splits)
    with try_result [OF this(3)] assms(2) False same show ?thesis by auto
  qed
qed

definition demo_profile :: "string \<Rightarrow> cli_profile option" where
  "demo_profile ref =
     (if ref = ''claude_code''
      then Some \<lparr>cp_Command = ''claude'', cp_Args = [''-p''], cp_AuthCheckCommand = '''', cp_TimeoutMinutes = 30,
                 cp_CredentialProvider = ''cli:claude''\<rparr>
      else if ref = ''openai_codex''
      then Some \<lparr>cp_Command = ''codex'', cp_Args = [''exec''], cp_AuthCheckCommand = '''', cp_TimeoutMinutes = 30,
                 cp_CredentialProvider = ''cli:codex''\<rparr>
      else None)"

definition all_enabled :: "execution_provider_config list" where
  "all_enabled = map (\<lambda>p. p\<lparr>ep_enabled := ep_ref p \<noteq> ''custom''\<rparr>) DefaultExecutionProviderRows"

definition two_tools :: cred_state where
  "two_tools = demo_pool [demo_cred ''a'' CredActive 1, (demo_cred ''b'' CredActive 1)\<lparr>pr_provider := ''cli:codex''\<rparr>]"

lemma review_runs_on_codex:
  "map_sum id rp_Ref (fst (ResolveReviewProvider (sort_key ep_priority) (demo_env demo_profile) 5
     (routed_project (Json all_enabled)) ''claude_code'' two_tools)) = Inr ''openai_codex''"
  by code_simp

theorem review_harness_differs_witness:
  "\<exists>r :: resolved_provider. rp_Ref r \<noteq> ''claude_code'' \<and> cli_profile_ref (rp_CLIConfig r) = rp_Ref r \<and>
     (\<exists>p. ep_enabled p \<and> ep_ref p = rp_Ref r \<and>
        (if HasEnabledProvider all_enabled then p \<in> set all_enabled
         else \<exists>g qs. find_organization (demo_env demo_profile) two_tools (p_org_id (routed_project (Json all_enabled))) = Some g \<and>
                ValidateExecutionProviders (og_default_providers g) = Inr qs \<and> p \<in> set qs))"
proof -
  let ?run = "ResolveReviewProvider (sort_key ep_priority) (demo_env demo_profile) 5
     (routed_project (Json all_enabled)) ''claude_code'' two_tools"
  obtain r s' where r: "?run = (Inr r, s')"
    using review_runs_on_codex by (cases ?run; cases "fst ?run") auto
  have v: "ValidateExecutionProviders (p_execution_providers (routed_project (Json all_enabled))) = Inr all_enabled"
    by (simp add: ValidateExecutionProviders_def routed_project_def) code_simp
  show ?thesis
    by (rule exI [of _ r], rule review_harness_differs [OF r _ insort_sorts v]) simp
qed

text \<open>
  The list of the organization loses the reason of a failure: a project without rows of its own is
  told that nothing is configured, and never that the credentials cool down.
\<close>

lemma org_default_never_cooldown:
  assumes "ValidateExecutionProviders (p_execution_providers pj) = Inr ps" "\<not> HasEnabledProvider ps"
    and "resolveExecutionProvider srt env now pj exclude s = (Inl e, s')"
  shows "e = NotConfigured"
  using assms by (auto simp: resolveExecutionProvider_def split: prod.splits option.splits)

end
