(* ===== verification/Agents.thy ===== *)
theory Agents
  imports Job_Store
begin

text \<open>
  The agents of a project and how a run gets one: the claims of \<^verbatim>\<open>repository/agent.go\<close> and the choice
  of roles in \<^verbatim>\<open>orchestrator/agent_manager.go\<close>. A row is the id and the status of an agent, in the order
  of creation; its organization, role, strategy and projects do not change in these operations, so they
  are looked up in a directory, an argument. A claim is one transaction that skips rows others hold,
  hence one step here.
\<close>

section \<open>Claims\<close>

abbreviation AgentStatusIdle :: string where "AgentStatusIdle \<equiv> ''idle''"
abbreviation AgentStatusAssigned :: string where "AgentStatusAssigned \<equiv> ''assigned''"
abbreviation AgentStatusRunning :: string where "AgentStatusRunning \<equiv> ''running''"

record agent_info =
  ag_org :: string
  ag_role :: string
  ag_auto_join :: bool
  ag_projects :: "string list"

type_synonym agent_dir = "string \<Rightarrow> agent_info"

definition claimable :: "agent_dir \<Rightarrow> db \<Rightarrow> string \<Rightarrow> string option \<Rightarrow> string \<times> string \<Rightarrow> bool" where
  "claimable dir d projectID role a =
     (case get_project d projectID of
        Inl e \<Rightarrow> False
      | Inr p \<Rightarrow>
          ag_org (dir (fst a)) = p_org_id p \<and> snd a \<in> {AgentStatusIdle, ''''} \<and>
          (ag_auto_join (dir (fst a)) \<or> projectID \<in> set (ag_projects (dir (fst a)))) \<and>
          (case role of None \<Rightarrow> True | Some r \<Rightarrow> ag_role (dir (fst a)) = r))"

definition agent_UpdateStatus :: "db \<Rightarrow> string \<Rightarrow> string \<Rightarrow> db" where
  "agent_UpdateStatus d i status =
     d\<lparr>db_agents := map (\<lambda>(k, st). (k, if k = i then status else st)) (db_agents d)\<rparr>"

definition claimAvailable ::
  "agent_dir \<Rightarrow> db \<Rightarrow> string \<Rightarrow> string option \<Rightarrow> (repo_error + string) \<times> db" where
  "claimAvailable dir d projectID role =
     (case find (claimable dir d projectID role) (db_agents d) of
        None \<Rightarrow> (Inl RepoNotFound, d)
      | Some a \<Rightarrow> (Inr (fst a), agent_UpdateStatus d (fst a) AgentStatusAssigned))"

definition ClaimAvailableByRole ::
  "agent_dir \<Rightarrow> db \<Rightarrow> string \<Rightarrow> string \<Rightarrow> (repo_error + string) \<times> db" where
  "ClaimAvailableByRole dir d projectID role =
     (case claimAvailable dir d projectID (Some role) of
        (Inl e, d') \<Rightarrow> (Inl (RepoWrapped ''claim available agent by role'' e), d')
      | (Inr a, d') \<Rightarrow> (Inr a, d'))"

definition ClaimAnyAvailable :: "agent_dir \<Rightarrow> db \<Rightarrow> string \<Rightarrow> (repo_error + string) \<times> db" where
  "ClaimAnyAvailable dir d projectID =
     (case claimAvailable dir d projectID None of
        (Inl e, d') \<Rightarrow> (Inl (RepoWrapped ''claim any available agent'' e), d')
      | (Inr a, d') \<Rightarrow> (Inr a, d'))"

definition ResetAllStatuses :: "db \<Rightarrow> db" where
  "ResetAllStatuses d =
     d\<lparr>db_agents := map (\<lambda>(k, st). (k, if st \<in> {AgentStatusAssigned, AgentStatusRunning}
                                         then AgentStatusIdle else st)) (db_agents d)\<rparr>"

text \<open>The update times of the agents are not columns of the model: which agents are old is an argument.\<close>

definition ResetStuckAgents :: "(string \<Rightarrow> bool) \<Rightarrow> db \<Rightarrow> string list \<times> db" where
  "ResetStuckAgents old d =
     (let ids = map fst (filter (\<lambda>(k, st). st \<in> {AgentStatusAssigned, AgentStatusRunning} \<and> old k) (db_agents d))
      in if ids = [] then ([], d)
         else (ids, d\<lparr>db_agents :=
                map (\<lambda>(k, st). (k, if k \<in> set ids then AgentStatusIdle else st)) (db_agents d)\<rparr>))"

section \<open>The manager\<close>

definition primary_role :: "task_analysis raw_json \<Rightarrow> string" where
  "primary_role raw =
     (case raw of
        Json a \<Rightarrow>
          (let c = to_lower (an_primary_category a)
           in if c \<in> {''frontend'', ''ui'', ''ux''} then ''frontend''
              else if c \<in> {''database'', ''db''} then ''db-architect''
              else if c \<in> {''qa'', ''testing''} then ''qa''
              else if c = ''security'' then ''security-auditor''
              else if c \<in> {''documentation'', ''readme'', ''markdown''} then ''documentation-writer''
              else ''backend'')
      | _ \<Rightarrow> ''backend'')"

definition rolesForTask :: "task \<Rightarrow> string list" where
  "rolesForTask t =
     (if t_status t \<in> {'''', TaskStatusTodo, TaskStatusContextLoading, TaskStatusAnalyzing, TaskStatusSpecReview}
      then [''planner'', ''backend'', ''frontend'']
      else if t_status t \<in> {TaskStatusReviewing, TaskStatusHumanReview}
      then [''reviewer'', ''planner'', ''backend'']
      else (let r = primary_role (t_analysis t)
            in [r, ''planner''] @ (if r \<noteq> ''backend'' then [''backend''] else [])))"

text \<open>The roles in order; a missing agent leads to the next role, any other error ends the loop.\<close>

fun claim_roles ::
  "agent_dir \<Rightarrow> db \<Rightarrow> string \<Rightarrow> string list \<Rightarrow> (repo_error + string option) \<times> db" where
  "claim_roles dir d projectID [] = (Inr None, d)"
| "claim_roles dir d projectID (r # rs) =
     (case ClaimAvailableByRole dir d projectID r of
        (Inr a, d') \<Rightarrow> (Inr (Some a), d')
      | (Inl e, d') \<Rightarrow>
          if \<not> repo_is e RepoNotFound then (Inl e, d') else claim_roles dir d' projectID rs)"

definition Assign :: "agent_dir \<Rightarrow> db \<Rightarrow> task \<Rightarrow> (repo_error + string) \<times> db" where
  "Assign dir d t =
     (case claim_roles dir d (t_project_id t) (rolesForTask t) of
        (Inl e, d') \<Rightarrow> (Inl e, d')
      | (Inr (Some a), d') \<Rightarrow> (Inr a, d')
      | (Inr None, d') \<Rightarrow> ClaimAnyAvailable dir d' (t_project_id t))"

definition assignByRole :: "agent_dir \<Rightarrow> db \<Rightarrow> task \<Rightarrow> string \<Rightarrow> (repo_error + string) \<times> db" where
  "assignByRole dir d t role =
     (case ClaimAvailableByRole dir d (t_project_id t) role of
        (Inl e, d') \<Rightarrow> (Inl (RepoWrapped (''no available agent with role '' @ role) e), d')
      | (Inr a, d') \<Rightarrow> (Inr a, d'))"

definition MarkRunning :: "db \<Rightarrow> string \<Rightarrow> db" where
  "MarkRunning d a = agent_UpdateStatus d a AgentStatusRunning"

definition Release :: "db \<Rightarrow> string \<Rightarrow> db" where
  "Release d a = agent_UpdateStatus d a AgentStatusIdle"

section \<open>An agent serves one run at a time\<close>

definition agent_status :: "db \<Rightarrow> string \<Rightarrow> string option" where
  "agent_status d a = map_of (db_agents d) a"

lemma agent_status_update [simp]:
  "agent_status (agent_UpdateStatus d i s) a =
   (if a = i then map_option (\<lambda>_. s) (agent_status d a) else agent_status d a)"
proof -
  have "map_of (map (\<lambda>(k, st). (k, if k = i then s else st)) xs) a =
        (if a = i then map_option (\<lambda>_. s) (map_of xs a) else map_of xs a)" for xs
    by (induction xs) auto
  then show ?thesis by (simp add: agent_status_def agent_UpdateStatus_def)
qed

lemma agent_ids_update [simp]: "map fst (db_agents (agent_UpdateStatus d i s)) = map fst (db_agents d)"
  by (simp add: agent_UpdateStatus_def case_prod_beta comp_def)

lemma agent_update_rest [simp]:
  "db_tasks (agent_UpdateStatus d i s) = db_tasks d" "db_projects (agent_UpdateStatus d i s) = db_projects d"
  by (simp_all add: agent_UpdateStatus_def)

text \<open>The agent of a successful claim was free and is assigned, and no other row changes.\<close>

definition claims :: "db \<Rightarrow> string \<Rightarrow> db \<Rightarrow> bool" where
  "claims d a d' \<longleftrightarrow>
     agent_status d a \<in> {Some AgentStatusIdle, Some ''''} \<and> d' = agent_UpdateStatus d a AgentStatusAssigned"

lemma claimAvailable_cases:
  assumes "distinct (map fst (db_agents d))" "claimAvailable dir d p role = (r, d')"
  shows "case r of Inl e \<Rightarrow> d' = d | Inr a \<Rightarrow> claims d a d'"
  using assms
  by (auto simp: claimAvailable_def claims_def claimable_def agent_status_def find_Some_iff
      split: option.splits sum.splits) (metis map_of_eq_Some_iff nth_mem prod.collapse)+

lemma claim_roles_cases:
  assumes "distinct (map fst (db_agents d))" "claim_roles dir d p rs = (r, d')"
  shows "case r of Inr (Some a) \<Rightarrow> claims d a d' | _ \<Rightarrow> d' = d"
  using assms
proof (induction dir d p rs rule: claim_roles.induct)
  case (2 dir d p r0 rs)
  obtain c d1 where c: "claimAvailable dir d p (Some r0) = (c, d1)" by fastforce
  with claimAvailable_cases [OF 2(2) c] 2 show ?case
    by (auto simp: ClaimAvailableByRole_def split: sum.splits if_splits option.splits)
qed auto

lemma Assign_claims:
  assumes "distinct (map fst (db_agents d))" "Assign dir d t = (Inr a, d')"
  shows "claims d a d'"
proof -
  obtain r d1 where r: "claim_roles dir d (t_project_id t) (rolesForTask t) = (r, d1)" by fastforce
  note roles = claim_roles_cases [OF assms(1) r]
  show ?thesis
  proof (cases "r = Inr None")
    case True
    with roles r assms(2) have "ClaimAnyAvailable dir d (t_project_id t) = (Inr a, d')"
      by (simp add: Assign_def)
    then show ?thesis
      using claimAvailable_cases [OF assms(1)]
      by (auto simp: ClaimAnyAvailable_def split: prod.splits sum.splits) fastforce
  next
    case False
    with roles r assms(2) show ?thesis
      by (auto simp: Assign_def split: sum.splits option.splits)
  qed
qed

text \<open>
  two runs that are assigned agents one after the other, with no release in between, get different
  agents, and both agents are then assigned.
\<close>

theorem Assign_exclusive:
  assumes "distinct (map fst (db_agents d))" "Assign dir d t = (Inr a, d1)" "Assign dir d1 u = (Inr b, d2)"
  shows "a \<noteq> b \<and> agent_status d2 a = Some AgentStatusAssigned \<and> agent_status d2 b = Some AgentStatusAssigned"
proof -
  note c1 = Assign_claims [OF assms(1, 2)]
  then have "distinct (map fst (db_agents d1))" using assms(1) by (simp add: claims_def)
  note c2 = Assign_claims [OF this assms(3)]
  from c1 c2 show ?thesis by (auto simp: claims_def)
qed

end
