(* ===== verification/Review_Verdict.thy ===== *)
theory Review_Verdict
  imports Job_Store
begin

text \<open>
  The checkpoint reader (\<^verbatim>\<open>orchestrator/checkpoint/checkpoint.go\<close>) and the review verdicts
  (\<^verbatim>\<open>orchestrator/steps/review_verdict.go\<close>): parsing of a reviewer's answer, comparison of the
  violations of two cycles, and what a step reads of an earlier review. Overlaps are exact rationals;
  the source compares their \<^verbatim>\<open>float64\<close> quotient with 0.6, which decides the same for word sets
  that fit in memory.
\<close>

section \<open>Reading checkpoints\<close>

definition state_of :: "wf_checkpoint \<Rightarrow> gomap option" where
  "state_of cp = (case cp_state cp of Json m \<Rightarrow> Some m | _ \<Rightarrow> None)"

definition state_status :: "gomap \<Rightarrow> string" where
  "state_status m = or_zero '''' (as_string (get_key m ''status''))"

definition succeeded :: "string \<Rightarrow> wf_checkpoint \<Rightarrow> bool" where
  "succeeded step cp \<longleftrightarrow>
     cp_step cp = step \<and> (case state_of cp of None \<Rightarrow> False | Some m \<Rightarrow> state_status m = ''success'')"

definition GetSuccessful :: "orch_state \<Rightarrow> string \<Rightarrow> string \<Rightarrow> gomap option" where
  "GetSuccessful st taskID step =
     map_option (\<lambda>cp. case state_of cp of
                        None \<Rightarrow> []
                      | Some m \<Rightarrow> or_zero [] (as_map (get_key m ''output'')))
       (find (succeeded step) (rev (ListCheckpoints st taskID)))"

definition CountSuccessful :: "orch_state \<Rightarrow> string \<Rightarrow> string \<Rightarrow> nat" where
  "CountSuccessful st taskID step = length (filter (succeeded step) (ListCheckpoints st taskID))"

section \<open>Findings and verdicts\<close>

record review_finding =
  rf_repo :: string
  rf_file :: string
  rf_line :: int
  rf_severity :: string
  rf_recommendation :: string
  rf_requires_fix :: bool

definition actionable_severities :: "string list" where
  "actionable_severities = [''warning'', ''error'', ''high'', ''blocking'', ''critical'', ''medium'']"

definition hasActionableFindings :: "review_finding list \<Rightarrow> bool" where
  "hasActionableFindings fs =
     list_ex (\<lambda>f. rf_requires_fix f \<or> to_lower (trim_space (rf_severity f)) \<in> set actionable_severities) fs"

record spec_violation =
  sv_requirement :: string
  sv_observed :: string
  sv_severity :: string

record quality_issue =
  qi_file :: string
  qi_line :: int
  qi_issue :: string
  qi_suggestion :: string

record review_verdict =
  rv_spec :: string
  rv_violations :: "spec_violation list"
  rv_quality :: string
  rv_issues :: "quality_issue list"
  rv_summary :: string

definition str_field :: "gomap \<Rightarrow> string \<Rightarrow> string" where
  "str_field m k = or_zero '''' (as_string (get_key m k))"

definition line_field :: "gomap \<Rightarrow> int" where
  "line_field m =
     (case get_key m ''line'' of Some (VFloat64 n) \<Rightarrow> n | Some (VInt n) \<Rightarrow> n | _ \<Rightarrow> 0)"

text \<open>The elements of a slice that are maps, the others are passed over.\<close>

definition map_items :: "goval option \<Rightarrow> gomap list" where
  "map_items v = List.map_filter (\<lambda>x. as_map (Some x)) (or_zero [] (as_slice v))"

definition read_violation :: "gomap \<Rightarrow> spec_violation" where
  "read_violation m =
     \<lparr>sv_requirement = str_field m ''requirement'', sv_observed = str_field m ''observed'',
      sv_severity = str_field m ''severity''\<rparr>"

definition read_issue :: "gomap \<Rightarrow> quality_issue" where
  "read_issue m =
     \<lparr>qi_file = str_field m ''file'', qi_line = line_field m, qi_issue = str_field m ''issue'',
      qi_suggestion = str_field m ''suggestion''\<rparr>"

definition ParseReviewVerdict :: "gomap \<Rightarrow> review_verdict option" where
  "ParseReviewVerdict parsed =
     (let spec = as_map (get_key parsed ''spec_compliance''); qual = as_map (get_key parsed ''code_quality'')
      in if spec = None \<and> qual = None then None
         else Some
           \<lparr>rv_spec = (case spec of None \<Rightarrow> '''' | Some m \<Rightarrow> str_field m ''verdict''),
            rv_violations =
              (case spec of None \<Rightarrow> [] | Some m \<Rightarrow> map read_violation (map_items (get_key m ''violations''))),
            rv_quality = (case qual of None \<Rightarrow> '''' | Some m \<Rightarrow> str_field m ''verdict''),
            rv_issues =
              (case qual of None \<Rightarrow> [] | Some m \<Rightarrow> map read_issue (map_items (get_key m ''issues''))),
            rv_summary = str_field parsed ''summary''\<rparr>)"

text \<open>The verdict as the map its JSON decodes to; empty optional fields are left out.\<close>

definition opt_field :: "string \<Rightarrow> string \<Rightarrow> gomap" where
  "opt_field k v = (if v = '''' then [] else [(k, VString v)])"

definition violation_map :: "spec_violation \<Rightarrow> goval" where
  "violation_map v =
     VMap ([(''requirement'', VString (sv_requirement v)), (''observed'', VString (sv_observed v))] @
           opt_field ''severity'' (sv_severity v))"

definition issue_map :: "quality_issue \<Rightarrow> goval" where
  "issue_map i =
     VMap (opt_field ''file'' (qi_file i) @
           (if qi_line i = 0 then [] else [(''line'', VFloat64 (qi_line i))]) @
           [(''issue'', VString (qi_issue i))] @ opt_field ''suggestion'' (qi_suggestion i))"

definition verdictAsMap :: "review_verdict \<Rightarrow> gomap" where
  "verdictAsMap v =
     [(''spec_compliance'',
         VMap ([(''verdict'', VString (rv_spec v))] @
               (if rv_violations v = [] then []
                else [(''violations'', VSlice (map violation_map (rv_violations v)))]))),
      (''code_quality'',
         VMap ([(''verdict'', VString (rv_quality v))] @
               (if rv_issues v = [] then [] else [(''issues'', VSlice (map issue_map (rv_issues v)))])))] @
     opt_field ''summary'' (rv_summary v)"

section \<open>Repeated violations\<close>

definition tokenSet :: "string \<Rightarrow> string list" where
  "tokenSet s = remdups (Go_Prelude.fields (to_lower (trim_space s)))"

definition tokenSetOverlap :: "string \<Rightarrow> string \<Rightarrow> rat" where
  "tokenSetOverlap a b =
     (let A = tokenSet a; B = tokenSet b; inter = length (filter (\<lambda>t. t \<in> set B) A)
      in if A = [] \<or> B = [] then 0
         else if length A + length B - inter = 0 then 0
         else of_nat inter / of_nat (length A + length B - inter))"

definition hasRepeatViolation :: "spec_violation list \<Rightarrow> spec_violation list \<Rightarrow> bool" where
  "hasRepeatViolation prev cur =
     list_ex (\<lambda>c. list_ex (\<lambda>p. tokenSetOverlap (sv_requirement c) (sv_requirement p) \<ge> 3 / 5) prev) cur"

section \<open>Earlier reviews\<close>

definition review_output :: "wf_checkpoint \<Rightarrow> gomap option" where
  "review_output cp = map_option (\<lambda>m. or_zero [] (as_map (get_key m ''output''))) (state_of cp)"

definition stored_violations :: "wf_checkpoint \<Rightarrow> spec_violation list option" where
  "stored_violations cp =
     Option.bind (review_output cp) (\<lambda>out.
       Option.bind (as_map (get_key out ''review_verdict'')) (\<lambda>v.
         Option.bind (as_map (get_key v ''spec_compliance'')) (\<lambda>s.
           map_option (\<lambda>_. map read_violation (map_items (get_key s ''violations'')))
             (as_slice (get_key s ''violations'')))))"

text \<open>The latest checkpoint of the step that stores violations.\<close>

definition previousReviewViolationsForStep :: "orch_state \<Rightarrow> string \<Rightarrow> string \<Rightarrow> spec_violation list" where
  "previousReviewViolationsForStep st taskID step =
     (case List.map_filter stored_violations
             (filter (\<lambda>cp. cp_step cp = step) (rev (ListCheckpoints st taskID))) of
        [] \<Rightarrow> []
      | vs # _ \<Rightarrow> vs)"

definition previousReviewViolations :: "orch_state \<Rightarrow> string \<Rightarrow> spec_violation list" where
  "previousReviewViolations st taskID = previousReviewViolationsForStep st taskID ''review''"

text \<open>The latest checkpoint of the step that can be decoded.\<close>

definition previousSelfReviewFallback :: "orch_state \<Rightarrow> string \<Rightarrow> string \<Rightarrow> bool" where
  "previousSelfReviewFallback st taskID step =
     (case List.map_filter review_output
             (filter (\<lambda>cp. cp_step cp = step) (rev (ListCheckpoints st taskID))) of
        [] \<Rightarrow> False
      | out # _ \<Rightarrow> or_zero False (as_bool (get_key out ''self_review_fallback'')))"

definition coder_field :: "string \<Rightarrow> wf_checkpoint \<Rightarrow> string option" where
  "coder_field k cp =
     (if cp_step cp \<in> {''code_backend'', ''code_frontend'', ''fix''}
      then (case state_of cp of
              None \<Rightarrow> None
            | Some m \<Rightarrow>
                (let inner = (case as_map (get_key m ''output'') of None \<Rightarrow> '''' | Some out \<Rightarrow> str_field out k)
                 in if inner \<noteq> '''' then Some inner
                    else if str_field m k \<noteq> '''' then Some (str_field m k) else None))
      else None)"

definition getCoderField :: "orch_state \<Rightarrow> string \<Rightarrow> string \<Rightarrow> string" where
  "getCoderField st taskID k =
     (case List.map_filter (coder_field k) (rev (ListCheckpoints st taskID)) of [] \<Rightarrow> '''' | v # _ \<Rightarrow> v)"

section \<open>Findings of the older format\<close>

definition raw_findings :: "gomap \<Rightarrow> goval list" where
  "raw_findings parsed =
     (let items = (\<lambda>v. case v of Some (VSlice xs) \<Rightarrow> xs | Some (VMap m) \<Rightarrow> [VMap m] | _ \<Rightarrow> [])
      in if get_key parsed ''findings'' \<noteq> None then items (get_key parsed ''findings'')
         else if get_key parsed ''array'' \<noteq> None then items (get_key parsed ''array'')
         else if get_key parsed ''file'' \<noteq> None \<or> get_key parsed ''recommendation'' \<noteq> None then [VMap parsed]
         else [])"

definition read_finding :: "gomap \<Rightarrow> review_finding" where
  "read_finding m =
     \<lparr>rf_repo = str_field m ''repo'', rf_file = str_field m ''file'', rf_line = line_field m,
      rf_severity = str_field m ''severity'',
      rf_recommendation =
        (case as_string (get_key m ''recommendation'') of
           Some r \<Rightarrow> r
         | None \<Rightarrow> (case as_string (get_key m ''recommendation_text'') of
                       Some r \<Rightarrow> r | None \<Rightarrow> str_field m ''message'')),
      rf_requires_fix = or_zero False (as_bool (get_key m ''requires_fix''))\<rparr>"

definition ParseReviewFindings :: "gomap option \<Rightarrow> review_finding list" where
  "ParseReviewFindings parsed =
     (case parsed of
        None \<Rightarrow> []
      | Some p \<Rightarrow> map read_finding (map_items (Some (VSlice (raw_findings p)))))"

section \<open>Laws\<close>

lemma map_items_map: "map_items (Some (VSlice (map (\<lambda>x. VMap (f x)) xs))) = map f xs"
  by (induction xs) (simp_all add: map_items_def map_filter_simps)

lemma read_violation_map: "violation_map v = VMap m \<Longrightarrow> read_violation m = v"
  by (cases v) (auto simp: violation_map_def read_violation_def opt_field_def str_field_def get_key_def)

lemma read_issue_map: "issue_map i = VMap m \<Longrightarrow> read_issue m = i"
  by (cases i) (auto simp: issue_map_def read_issue_def opt_field_def str_field_def line_field_def get_key_def)

lemma read_violations: "map read_violation (map_items (Some (VSlice (map violation_map vs)))) = vs"
proof (induction vs)
  case (Cons v vs)
  obtain m where m: "violation_map v = VMap m" by (simp add: violation_map_def)
  with Cons read_violation_map [OF m] show ?case by (simp add: map_items_def map_filter_simps)
qed (simp add: map_items_def map_filter_simps)

lemma read_issues: "map read_issue (map_items (Some (VSlice (map issue_map is)))) = is"
proof (induction "is")
  case (Cons i "is")
  obtain m where m: "issue_map i = VMap m" by (simp add: issue_map_def)
  with Cons read_issue_map [OF m] show ?case by (simp add: map_items_def map_filter_simps)
qed (simp add: map_items_def map_filter_simps)

text \<open>
  a verdict that was stored with the output of a review is read back unchanged.
\<close>

theorem verdict_roundtrip: "ParseReviewVerdict (verdictAsMap v) = Some v"
proof -
  have none: "map_items None = []" by (simp add: map_items_def map_filter_simps)
  show ?thesis
    by (cases v)
       (auto simp: ParseReviewVerdict_def verdictAsMap_def Let_def opt_field_def str_field_def get_key_def
         read_violations read_issues none)
qed

lemma tokenSetOverlap_self: "tokenSet a \<noteq> [] \<Longrightarrow> tokenSetOverlap a a = 1"
  by (simp add: tokenSetOverlap_def Let_def)

text \<open>A violation that comes back with the same words, in whatever case and order, is a repeat.\<close>

lemma same_words_repeat:
  assumes "p \<in> set prev" "c \<in> set cur" "set (tokenSet (sv_requirement c)) = set (tokenSet (sv_requirement p))"
    and "tokenSet (sv_requirement c) \<noteq> []"
  shows "hasRepeatViolation prev cur"
proof -
  let ?A = "tokenSet (sv_requirement c)" and ?B = "tokenSet (sv_requirement p)"
  have "distinct ?A" "distinct ?B" by (simp_all add: tokenSet_def)
  with assms(3) have "length ?A = length ?B" by (metis distinct_card)
  moreover have "filter (\<lambda>t. t \<in> set ?B) ?A = ?A" using assms(3) by simp
  ultimately have "tokenSetOverlap (sv_requirement c) (sv_requirement p) = 1"
    using assms(3, 4) by (auto simp: tokenSetOverlap_def Let_def)
  then have "3 / 5 \<le> tokenSetOverlap (sv_requirement c) (sv_requirement p)" by simp
  with assms(1, 2) show ?thesis
    unfolding hasRepeatViolation_def list_ex_iff by blast
qed

end
