(* ===== verification/Cross_Review.thy ===== *)
theory Cross_Review
  imports Review_Verdict Job_Control Governance
begin

text \<open>
  The step that has another harness review the code (\<^verbatim>\<open>orchestrator/steps/cross_review.go\<close>). The run
  of the reviewing agent is a parameter: no second harness, an error, or the review file it wrote with
  the references of reviewer and coder. How a file is parsed as JSON, and the pipeline configuration of
  a project once \<open>ValidateConfig\<close> has accepted it, are arguments too. The instruction text and the
  artifacts are not modelled.
\<close>

datatype review_run =
    NoSecondHarness
  | ReviewError step_error
  | Reviewed "string option" string string

record review_env =
  xe_update :: status_writer
  xe_orch :: orch_env
  xe_config :: "project \<Rightarrow> gov_config option"
  xe_parse :: "string \<Rightarrow> gomap option"

definition cross_StatusOnResume :: "gomap \<Rightarrow> string" where
  "cross_StatusOnResume output =
     (if as_bool (get_key output ''cycle_limit_reached'') = Some True then TaskStatusHumanReview
      else (case Option.bind (as_map (get_key output ''review_verdict'')) (\<lambda>v. as_map (get_key v ''spec_compliance'')) of
              Some spec \<Rightarrow>
                if equal_fold (str_field spec ''verdict'') ''fail'' then TaskStatusCoding else TaskStatusHumanReview
            | None \<Rightarrow> TaskStatusHumanReview))"

text \<open>The limit of review cycles: the project's, overridden by its pipeline configuration.\<close>

definition review_max_cycles :: "review_env \<Rightarrow> orch_state \<Rightarrow> task \<Rightarrow> int" where
  "review_max_cycles env st t =
     (case get_project (os_db st) (t_project_id t) of
        Inl _ \<Rightarrow> 3
      | Inr p \<Rightarrow>
          (let base = (if p_max_review_fix_cycles p > 0 then p_max_review_fix_cycles p else 3)
           in if p_pipeline_config p \<noteq> NoJson
              then or_zero base (MaxReviewFixCyclesOverride (xe_config env p)) else base))"

definition review_policy :: "review_env \<Rightarrow> orch_state \<Rightarrow> task \<Rightarrow> string" where
  "review_policy env st t =
     (case get_project (os_db st) (t_project_id t) of
        Inl _ \<Rightarrow> ''different_model''
      | Inr p \<Rightarrow>
          (let base = (if p_review_harness_policy p \<noteq> '''' then p_review_harness_policy p else ''different_model'')
           in if p_pipeline_config p \<noteq> NoJson
              then or_zero base (ReviewHarnessOverride (xe_config env p)) else base))"

text \<open>Whether the reviewer is told to audit the code adversarially.\<close>

definition adversarial :: "review_env \<Rightarrow> orch_state \<Rightarrow> task \<Rightarrow> bool" where
  "adversarial env st t =
     (review_policy env st t = ''same'' \<or> previousSelfReviewFallback st (t_id t) StepCrossReview)"

text \<open>The status write of the step: an error of it is the error of the step.\<close>

definition set_review_status ::
  "review_env \<Rightarrow> orch_state \<Rightarrow> task \<Rightarrow> string \<Rightarrow> step_error + gomap \<Rightarrow>
   ((step_error + gomap) \<times> orch_state) option" where
  "set_review_status env st t status r =
     (case xe_update env st (t_id t) status of
        None \<Rightarrow> None
      | Some (Inl e, st') \<Rightarrow> Some (Inl (StepFailed ''update task status''), st')
      | Some (Inr _, st') \<Rightarrow> Some (r, st'))"

text \<open>The output of a finished review, before its verdict is judged.\<close>

definition review_parsed :: "review_env \<Rightarrow> string option \<Rightarrow> gomap option" where
  "review_parsed env file =
     (case file of
        None \<Rightarrow> None
      | Some raw \<Rightarrow> if trim_space raw = '''' then None else xe_parse env raw)"

definition base_output :: "bool \<Rightarrow> gomap option \<Rightarrow> string \<Rightarrow> string \<Rightarrow> gomap" where
  "base_output allowSame parsed reviewer coder =
     [(''status'', VString ''success'')] @
     (case parsed of None \<Rightarrow> [] | Some m \<Rightarrow> [(''parsed'', VMap m)]) @
     (if allowSame \<and> reviewer = coder
      then [(''self_review_fallback'', VBool True), (''self_review_fallback_model'', VString reviewer)] else []) @
     [(''coded_by'', VMap [(''engine'', VString ''cli''), (''provider'', VString coder), (''model'', VString '''')]),
      (''reviewed_by'', VMap [(''engine'', VString ''cli''), (''provider'', VString reviewer)])]"

definition verdict_fails :: "string \<Rightarrow> bool" where
  "verdict_fails s = equal_fold (trim_space s) ''fail''"

definition review_logs :: "review_env \<Rightarrow> string \<Rightarrow> nat \<Rightarrow> orch_state \<Rightarrow> orch_state" where
  "review_logs env taskID n st = (o_log (xe_orch env) taskID ^^ n) st"

text \<open>
  What the step does with a verdict: escalate a repeated violation, give up at the limit, send the code
  back, or pass it on.
\<close>

definition judge ::
  "review_env \<Rightarrow> orch_state \<Rightarrow> task \<Rightarrow> nat \<Rightarrow> gomap \<Rightarrow> review_verdict option \<Rightarrow>
   ((step_error + gomap) \<times> orch_state) option" where
  "judge env st t ncycles out0 verdict =
     (let out = (case verdict of None \<Rightarrow> out0 | Some v \<Rightarrow> out0 @ [(''review_verdict'', VMap (verdictAsMap v))]);
          specFail = (case verdict of None \<Rightarrow> False | Some v \<Rightarrow> verdict_fails (rv_spec v));
          hasFindings = (case verdict of None \<Rightarrow> False | Some v \<Rightarrow> verdict_fails (rv_spec v) \<or> verdict_fails (rv_quality v));
          repeated = (case verdict of
                        None \<Rightarrow> False
                      | Some v \<Rightarrow> hasRepeatViolation (previousReviewViolationsForStep st (t_id t) StepCrossReview)
                                   (rv_violations v))
      in if specFail \<and> repeated
         then set_review_status env (review_logs env (t_id t) 1 st) t TaskStatusHumanReview
                (Inl (PauseError StepCrossReview
                  ''awaiting_review_escalation: same spec violation repeated across consecutive cross-review cycles''))
         else if hasFindings \<and> int ncycles \<ge> review_max_cycles env st t
         then set_review_status env (review_logs env (t_id t) 1 st) t TaskStatusHumanReview
                (Inr (out @ [(''cycle_limit_reached'', VBool True)]))
         else if hasFindings
         then set_review_status env st t TaskStatusCoding (Inl ErrCrossReviewFixLoop)
         else set_review_status env st t TaskStatusHumanReview (Inr out))"

definition cross_Execute ::
  "review_env \<Rightarrow> (bool \<Rightarrow> review_run) \<Rightarrow> orch_state \<Rightarrow> task \<Rightarrow> ((step_error + gomap) \<times> orch_state) option" where
  "cross_Execute env runner st t =
     (let ncycles = CountSuccessful st (t_id t) StepCrossReview;
          allowSame = (review_policy env st t = ''same'')
      in case runner allowSame of
           NoSecondHarness \<Rightarrow>
             set_review_status env (review_logs env (t_id t) 1 st) t TaskStatusHumanReview
               (Inr [(''status'', VString ''skipped''), (''skipped_reason'', VString ''single_harness'')])
         | ReviewError e \<Rightarrow> Some (Inl e, st)
         | Reviewed file reviewer coder \<Rightarrow>
             (let parsed = review_parsed env file;
                  n = (if parsed = None then 1 else 0) + (if allowSame \<and> reviewer = coder then 1 else 0)
              in judge env (review_logs env (t_id t) n st) t ncycles (base_output allowSame parsed reviewer coder)
                   (Option.bind parsed ParseReviewVerdict)))"

section \<open>The feedback for the next implementation\<close>

text \<open>How a number is printed is an argument; the feedback is empty exactly when nothing is listed.\<close>

definition feedback_text :: "(int \<Rightarrow> string) \<Rightarrow> review_verdict \<Rightarrow> string" where
  "feedback_text int_text v =
     concat (map (\<lambda>x. ''- [spec] '' @ sv_requirement x @ '' (observed: '' @ sv_observed x @ '', severity: '' @
                      sv_severity x @ '')'' @ NL) (rv_violations v)) @
     concat (map (\<lambda>x. ''- [quality] '' @ qi_file x @ '':'' @ int_text (qi_line x) @ '' '' @ qi_issue x @
                      '' (suggestion: '' @ qi_suggestion x @ '')'' @ NL) (rv_issues v))"

definition stored_verdict :: "wf_checkpoint \<Rightarrow> review_verdict option" where
  "stored_verdict cp =
     Option.bind (state_of cp) (\<lambda>m.
       Option.bind (as_map (get_key m ''output'')) (\<lambda>out.
         map_option (\<lambda>vm. or_zero \<lparr>rv_spec = '''', rv_violations = [], rv_quality = '''', rv_issues = [],
                                    rv_summary = ''''\<rparr> (ParseReviewVerdict vm))
           (as_map (get_key out ''review_verdict''))))"

definition crossReviewFeedback :: "(int \<Rightarrow> string) \<Rightarrow> orch_state \<Rightarrow> string \<Rightarrow> string" where
  "crossReviewFeedback int_text st taskID =
     (case List.map_filter stored_verdict
             (filter (\<lambda>cp. cp_step cp = StepCrossReview) (rev (ListCheckpoints st taskID))) of
        [] \<Rightarrow> ''''
      | v # _ \<Rightarrow> feedback_text int_text v)"

end
