(* ===== verification/Checkpoint_Store.thy ===== *)
theory Checkpoint_Store
  imports Review_Verdict Decomposition Workflow_Steps
begin

text \<open>
  The rest of the checkpoint store (\<^verbatim>\<open>orchestrator/checkpoint\<close>): the artifacts of a task and the wrapper
  that lets a step that already succeeded be skipped, with the runner \<^verbatim>\<open>stepRunners\<close> puts inside it
  (\<^verbatim>\<open>orchestrator/step_registry.go\<close>). Artifacts are kept in the order of their creation
  (\<^verbatim>\<open>repository/artifact.go\<close>); the payload is the value its JSON decodes to.
\<close>

section \<open>Artifacts\<close>

record wf_artifact =
  wa_job_id :: string
  wa_task_id :: string
  wa_step :: string
  wa_type :: string
  wa_payload :: goval

definition artifact_ListByTaskID :: "wf_artifact list \<Rightarrow> string \<Rightarrow> wf_artifact list" where
  "artifact_ListByTaskID arts taskID = filter (\<lambda>a. wa_task_id a = taskID) arts"

definition artifact_ListByJobID :: "wf_artifact list \<Rightarrow> string \<Rightarrow> wf_artifact list" where
  "artifact_ListByJobID arts jobID = filter (\<lambda>a. wa_job_id a = jobID) arts"

definition artifact_DeleteByTaskID :: "wf_artifact list \<Rightarrow> string \<Rightarrow> wf_artifact list" where
  "artifact_DeleteByTaskID arts taskID = filter (\<lambda>a. wa_task_id a \<noteq> taskID) arts"

definition of_step :: "string \<Rightarrow> string \<Rightarrow> wf_artifact \<Rightarrow> bool" where
  "of_step step artType a \<longleftrightarrow>
     (wa_step a = step \<or> has_prefix (wa_step a) (step @ ''_cycle_'')) \<and> wa_type a = artType"

text \<open>The first artifact of a step and a type keeps the name of the step, later ones count on.\<close>

definition SaveArtifact ::
  "wf_artifact list \<Rightarrow> string \<Rightarrow> string \<Rightarrow> string \<Rightarrow> string \<Rightarrow> goval \<Rightarrow> wf_artifact list" where
  "SaveArtifact arts jobID taskID step artType payload =
     (let n = length (filter (of_step step artType) (artifact_ListByTaskID arts taskID));
          name = (if n > 0 then step @ ''_cycle_'' @ nat_to_string (n + 1) else step)
      in arts @ [\<lparr>wa_job_id = jobID, wa_task_id = taskID, wa_step = name, wa_type = artType,
                   wa_payload = payload\<rparr>])"

definition latest_artifact :: "wf_artifact list \<Rightarrow> string \<Rightarrow> string \<Rightarrow> string \<Rightarrow> wf_artifact option" where
  "latest_artifact arts taskID step artType =
     find (of_step step artType) (rev (artifact_ListByTaskID arts taskID))"

text \<open>\<^verbatim>\<open>json.Unmarshal\<close> into a string; \<^verbatim>\<open>null\<close> leaves it empty.\<close>

definition payload_string :: "goval \<Rightarrow> string option" where
  "payload_string v = (case v of VString s \<Rightarrow> Some s | VNil \<Rightarrow> Some '''' | _ \<Rightarrow> None)"

text \<open>The text of a payload that is no JSON string is an argument.\<close>

definition GetSavedPatch :: "(goval \<Rightarrow> string) \<Rightarrow> wf_artifact list \<Rightarrow> string \<Rightarrow> string \<Rightarrow> string option" where
  "GetSavedPatch raw arts taskID step =
     (case latest_artifact arts taskID step ''patch'' of
        None \<Rightarrow> None
      | Some a \<Rightarrow> Some (or_zero (raw (wa_payload a)) (payload_string (wa_payload a))))"

definition GetLatestExecutionSnapshot :: "(goval \<Rightarrow> 's option) \<Rightarrow> wf_artifact list \<Rightarrow> string \<Rightarrow> string \<Rightarrow> 's option" where
  "GetLatestExecutionSnapshot decode arts taskID step =
     Option.bind (latest_artifact arts taskID step ''execution_snapshot'') (\<lambda>a. decode (wa_payload a))"

section \<open>Skipping finished steps\<close>

type_synonym live_runner = "orch_state \<Rightarrow> step_context \<Rightarrow> ((step_error + gomap option) \<times> orch_state) option"

text \<open>
  With the state machine flag the runner always runs. Otherwise a stored success is returned in its
  place and the status for it restored; an error of that write is only logged.
\<close>

definition WithCheckpointRecovery ::
  "bool \<Rightarrow> status_writer \<Rightarrow> orch_env \<Rightarrow> string \<Rightarrow> (gomap \<Rightarrow> string) \<Rightarrow> string \<Rightarrow> live_runner \<Rightarrow> live_runner" where
  "WithCheckpointRecovery state_machine upd env stepID statusOnResume taskID runner st sc =
     (let actual = (if ctx_step_id sc = '''' then stepID else ctx_step_id sc)
      in if state_machine then runner st sc
         else (case GetSuccessful st taskID actual of
                 None \<Rightarrow> runner st sc
               | Some out \<Rightarrow>
                   (let st1 = o_log env taskID st; status = statusOnResume out
                    in if status = '''' then Some (Inr (Some out), st1)
                       else (case upd st1 taskID status of
                               None \<Rightarrow> None
                             | Some (Inl _, st2) \<Rightarrow> Some (Inr (Some out), o_log env taskID st2)
                             | Some (Inr _, st2) \<Rightarrow> Some (Inr (Some out), st2)))))"

text \<open>The session a step resumes: only the step that is retried gets it.\<close>

definition step_session :: "string \<Rightarrow> step_context \<Rightarrow> string option" where
  "step_session stepID sc =
     (case as_string (get_key (ctx_initial sc) ''resume_session_id'') of
        None \<Rightarrow> None
      | Some v \<Rightarrow>
          if v \<noteq> '''' \<and> as_string (get_key (ctx_initial sc) ''retried_step_id'') = Some stepID
          then Some v else None)"

definition step_runner ::
  "bool \<Rightarrow> status_writer \<Rightarrow> orch_env \<Rightarrow> string \<Rightarrow> (gomap \<Rightarrow> string) \<Rightarrow> string \<Rightarrow>
   (string option \<Rightarrow> live_runner) \<Rightarrow> live_runner" where
  "step_runner state_machine upd env stepID statusOnResume taskID execute =
     WithCheckpointRecovery state_machine upd env stepID statusOnResume taskID
       (\<lambda>st sc. execute (step_session stepID sc) st sc)"

section \<open>Which session a retry finds\<close>

text \<open>What the worker looks for among the artifacts of a task: the exact name of the step.\<close>

definition find_session :: "wf_artifact list \<Rightarrow> string \<Rightarrow> string option" where
  "find_session arts step =
     (case find (\<lambda>a. wa_step a = step \<and> wa_type a = ''cli_session_id'') (rev arts) of
        None \<Rightarrow> None
      | Some a \<Rightarrow> (case payload_string (wa_payload a) of Some s \<Rightarrow> if s = '''' then None else Some s | None \<Rightarrow> None))"

definition save_sessions :: "string \<Rightarrow> string \<Rightarrow> string \<Rightarrow> string list \<Rightarrow> wf_artifact list \<Rightarrow> wf_artifact list" where
  "save_sessions jobID taskID step ids arts =
     fold (\<lambda>i as. SaveArtifact as jobID taskID step ''cli_session_id'' (VString i)) ids arts"

lemma cycle_name_differs: "step @ ''_cycle_'' @ n \<noteq> step"
  by simp

lemma save_again:
  assumes "\<exists>a \<in> set (artifact_ListByTaskID arts taskID). of_step step ty a"
  shows "\<exists>a. SaveArtifact arts jobID taskID step ty v = arts @ [a] \<and> wa_step a \<noteq> step \<and> wa_task_id a = taskID"
proof -
  have "filter (of_step step ty) (artifact_ListByTaskID arts taskID) \<noteq> []"
    using assms by (auto simp: filter_empty_conv)
  then show ?thesis by (simp add: SaveArtifact_def Let_def)
qed

lemma save_sessions_later:
  "\<exists>a \<in> set (artifact_ListByTaskID arts taskID). of_step step ''cli_session_id'' a \<Longrightarrow>
   find_session (artifact_ListByTaskID (save_sessions jobID taskID step ids arts) taskID) step =
   find_session (artifact_ListByTaskID arts taskID) step"
proof (induction ids arbitrary: arts)
  case (Cons i ids)
  let ?arts = "SaveArtifact arts jobID taskID step ''cli_session_id'' (VString i)"
  from save_again [OF Cons.prems] obtain a where a: "?arts = arts @ [a]" "wa_step a \<noteq> step" "wa_task_id a = taskID"
    by metis
  then have "find_session (artifact_ListByTaskID ?arts taskID) step = find_session (artifact_ListByTaskID arts taskID) step"
    by (simp add: artifact_ListByTaskID_def find_session_def)
  moreover have "\<exists>a \<in> set (artifact_ListByTaskID ?arts taskID). of_step step ''cli_session_id'' a"
    using Cons.prems a by (auto simp: artifact_ListByTaskID_def)
  ultimately show ?case using Cons.IH [of ?arts] by (simp add: save_sessions_def)
qed (simp add: save_sessions_def)

text \<open>
  A retry resumes the first session a step ever saved, however many were saved after it: later ones
  are stored under the name of a cycle, which the worker does not look for.
\<close>
theorem resumed_session_is_first:
  assumes "\<forall>a \<in> set (artifact_ListByTaskID arts taskID). \<not> of_step step ''cli_session_id'' a" and "i \<noteq> ''''"
  shows "find_session (artifact_ListByTaskID (save_sessions jobID taskID step (i # ids) arts) taskID) step = Some i"
proof -
  let ?a = "\<lparr>wa_job_id = jobID, wa_task_id = taskID, wa_step = step, wa_type = ''cli_session_id'', wa_payload = VString i\<rparr>"
  have "filter (of_step step ''cli_session_id'') (artifact_ListByTaskID arts taskID) = []"
    using assms(1) by (simp add: filter_empty_conv)
  then have s: "SaveArtifact arts jobID taskID step ''cli_session_id'' (VString i) = arts @ [?a]"
    by (simp add: SaveArtifact_def Let_def)
  then have "find_session (artifact_ListByTaskID (SaveArtifact arts jobID taskID step ''cli_session_id'' (VString i)) taskID) step = Some i"
    using assms(2) by (simp add: artifact_ListByTaskID_def find_session_def payload_string_def)
  moreover have "\<exists>a \<in> set (artifact_ListByTaskID (arts @ [?a]) taskID). of_step step ''cli_session_id'' a"
    by (auto simp: artifact_ListByTaskID_def of_step_def)
  ultimately show ?thesis
    using save_sessions_later [of "arts @ [?a]" taskID step jobID ids] s by (simp add: save_sessions_def)
qed

theorem resumed_session_is_first_witness:
  "find_session (artifact_ListByTaskID (save_sessions ''j'' ''t'' ''cli_implement'' [''s1'', ''s2'', ''s3''] []) ''t'')
     ''cli_implement'' = Some ''s1''"
  using resumed_session_is_first [of "[]" "''t''" "''cli_implement''" "''s1''" "''j''" "[''s2'', ''s3'']"]
  by (simp add: artifact_ListByTaskID_def)

end
