(* ===== verification/Worker.thy ===== *)
theory Worker
  imports Job_Control Agents Checkpoint_Store "HOL-Library.Word"
begin

text \<open>
  The run of a job (\<^verbatim>\<open>orchestrator/worker.go\<close>): preparation, the event handler given to the engine, the
  reading of checkpoints, the attempts, the final status and the deferred releases.

  The engine calls the handler while step runners and requests of users change the database. What they
  change before the \<open>k\<close>-th event of attempt \<open>n\<close> is a parameter, a function on the state and on the task
  object that the runners hold. The runners themselves, git, the CLI session artifacts and the
  classification of errors of other packages are parameters too. Timeline files, memory hooks, the
  learning engine after the run and the search index are not modelled. A cancelled context shows where
  the code tests it; that database calls fail under it is not modelled.
\<close>

section \<open>Small decisions\<close>

definition dueForLearningNudge :: "int \<Rightarrow> int \<Rightarrow> bool" where
  "dueForLearningNudge successStepCount interval \<longleftrightarrow>
     interval > 0 \<and> successStepCount > 0 \<and> successStepCount mod interval = 0"

definition isCLIImplementFixLoopCheckpoint :: "string \<Rightarrow> string \<Rightarrow> bool" where
  "isCLIImplementFixLoopCheckpoint jobStep cpStep \<longleftrightarrow>
     jobStep = StepCLIImplement \<and>
     cpStep \<in> {StepCLIImplement, StepCLIImplementBackend, StepCLIImplementFrontend, StepMerge, StepCrossReview}"

text \<open>The shift and the doubling wrap at 64 bits, as does the conversion to nanoseconds.\<close>

definition calculateBackoff :: "nat \<Rightarrow> int" where
  "calculateBackoff attempt =
     (let power = push_bit attempt (1 :: 64 word);
          seconds = sint (power * 2);
          capped = (if seconds > 60 then 60 else seconds)
      in sint (word_of_int capped * 1000000000 :: 64 word))"

definition isFrontendFile :: "string \<Rightarrow> bool" where
  "isFrontendFile file \<longleftrightarrow>
     list_ex (has_prefix file) [''web/'', ''frontend/'', ''src/''] \<or>
     list_ex (has_suffix file)
       [''.tsx'', ''.jsx'', ''.css'', ''.html'', ''.vue'', ''.scss'', ''.sass'', ''.svelte'']"

text \<open>The files are those of the analysis column read as the report of the analysis step, if it can be.\<close>

definition CLIAnalysisNeedsParallelTracks :: "(task \<Rightarrow> string list option) \<Rightarrow> task \<Rightarrow> bool" where
  "CLIAnalysisNeedsParallelTracks files t =
     (case files t of
        None \<Rightarrow> False
      | Some fs \<Rightarrow> list_ex isFrontendFile fs \<and> list_ex (\<lambda>f. \<not> isFrontendFile f) fs)"

text \<open>
  A value written as JSON and read back into a map: every number is then a \<^verbatim>\<open>float64\<close> (whole numbers
  beyond 53 bits would be rounded, which the model does not do).
\<close>

fun json_value :: "goval \<Rightarrow> goval" where
  "json_value (VInt n) = VFloat64 n"
| "json_value (VInt64 n) = VFloat64 n"
| "json_value (VFloat32 n) = VFloat64 n"
| "json_value (VStrings ss) = VSlice (map VString ss)"
| "json_value (VSlice vs) = VSlice (map json_value vs)"
| "json_value (VMap m) = VMap (map (\<lambda>(k, v). (k, json_value v)) m)"
| "json_value v = v"

definition json_map :: "gomap \<Rightarrow> gomap" where
  "json_map m = map (\<lambda>(k, v). (k, json_value v)) m"

section \<open>The surroundings of a run\<close>

datatype commit_result =
    CommitFailed
  | NoCommit
  | Committed string bool

record worker_env =
  we_orch :: orch_env
  we_update :: status_writer
  we_dir :: agent_dir
  we_clone :: "orch_state \<Rightarrow> task \<Rightarrow> string option \<times> orch_state"
  we_confidence :: gomap
  we_learning :: bool
  we_world :: "nat \<Rightarrow> nat \<Rightarrow> orch_state \<times> task \<Rightarrow> orch_state \<times> task"
  we_runners :: "nat \<Rightarrow> (string \<Rightarrow> string option) \<Rightarrow> runner_map"
  we_arrive :: "nat \<Rightarrow> arrival"
  we_order :: "string list \<Rightarrow> string list"
  we_commit :: "nat \<Rightarrow> string \<Rightarrow> string \<Rightarrow> commit_result"
  we_restore :: "string \<Rightarrow> string \<Rightarrow> bool"
  we_sessions :: "nat \<Rightarrow> wf_artifact list option"
  we_files :: "task \<Rightarrow> string list option"
  we_typed :: "gomap \<Rightarrow> (string \<Rightarrow> string list) option"
  we_text :: "engine_err \<Rightarrow> string"
  we_repo_text :: "repo_error \<Rightarrow> string"
  we_job_text :: "job_error \<Rightarrow> string"
  we_write_text :: "svc_error \<Rightarrow> string"
  we_cooldown :: "step_error \<Rightarrow> int option"
  we_invalid :: "step_error \<Rightarrow> bool"
  we_canceled :: "step_error \<Rightarrow> bool"
  we_cancelled :: bool

text \<open>
  What stays the same during the attempts. Restoring a status replaces the task object the handler
  reads, while the runners keep the one they were built with: \<open>rc_pinned\<close> is the new object.
\<close>

record run_ctx =
  rc_job :: workflow_job
  rc_agent :: string
  rc_pinned :: "task option"
  rc_parallel :: bool
  rc_cross :: bool
  rc_resumed :: string
  rc_max :: nat

record worker_state =
  ws_st :: orch_state
  ws_task :: task
  ws_successes :: nat

definition handler_task :: "run_ctx \<Rightarrow> worker_state \<Rightarrow> task" where
  "handler_task C ws = or_zero (ws_task ws) (rc_pinned C)"

definition spec_hash_of :: "task \<Rightarrow> string" where
  "spec_hash_of t = (case t_analysis t of Json a \<Rightarrow> an_spec_hash a | _ \<Rightarrow> '''')"

definition world_moves :: "worker_env \<Rightarrow> nat \<Rightarrow> nat \<Rightarrow> worker_state \<Rightarrow> worker_state" where
  "world_moves W n k ws =
     (case we_world W n k (ws_st ws, ws_task ws) of (st, t) \<Rightarrow> ws\<lparr>ws_st := st, ws_task := t\<rparr>)"

definition w_log :: "worker_env \<Rightarrow> string \<Rightarrow> orch_state \<Rightarrow> orch_state" where
  "w_log W taskID st = o_log (we_orch W) taskID st"

definition w_job :: "worker_env \<Rightarrow> orch_state \<Rightarrow> string \<Rightarrow> job_update \<Rightarrow> (job_error + workflow_job) \<times> orch_state" where
  "w_job W st jobID u = UpdateJob (oe_now (we_orch W)) st jobID u"

text \<open>\<^verbatim>\<open>Orchestrator.checkpoint\<close>\<close>

definition w_checkpoint :: "string \<Rightarrow> string \<Rightarrow> string \<Rightarrow> gomap \<Rightarrow> orch_state \<Rightarrow> orch_state" where
  "w_checkpoint taskID jobID step state st =
     CreateCheckpoint st
       \<lparr>cp_task_id = taskID, cp_job_id = Some jobID, cp_step = step, cp_state = Json (json_map state)\<rparr>"

section \<open>The event handler\<close>

definition is_code_step :: "string \<Rightarrow> bool" where
  "is_code_step s \<longleftrightarrow> has_prefix s ''code_backend'' \<or> has_prefix s ''code_frontend'' \<or> s = ''fix''"

definition worktree_suffix :: "string \<Rightarrow> string" where
  "worktree_suffix s =
     (if has_prefix s ''code_backend'' then ''-be-worktree''
      else if has_prefix s ''code_frontend'' then ''-fe-worktree'' else '''')"

definition step_was_skipped :: "wf_event \<Rightarrow> bool" where
  "step_was_skipped ev \<longleftrightarrow>
     (case ev_output ev of None \<Rightarrow> False | Some out \<Rightarrow> as_string (get_key out ''status'') = Some ''skipped'')"

definition git_commit :: "worker_env \<Rightarrow> nat \<Rightarrow> wf_event \<Rightarrow> commit_result option" where
  "git_commit W n ev =
     (if ev_status ev = Success \<and> is_code_step (ev_step ev) \<and> \<not> step_was_skipped ev
      then Some (we_commit W n (ev_step ev) (worktree_suffix (ev_step ev))) else None)"

definition commit_fields :: "commit_result option \<Rightarrow> gomap" where
  "commit_fields c =
     (case c of
        Some CommitFailed \<Rightarrow> [(''checkpoint_failed'', VBool True)]
      | Some (Committed hash emptyCommit) \<Rightarrow>
          (if emptyCommit then [(''empty'', VBool True)] else []) @ [(''commit_hash'', VString hash)]
      | _ \<Rightarrow> [])"

definition commit_logs :: "commit_result option \<Rightarrow> nat" where
  "commit_logs c = (case c of None \<Rightarrow> 0 | Some NoCommit \<Rightarrow> 1 | _ \<Rightarrow> 2)"

definition event_error :: "worker_env \<Rightarrow> wf_event \<Rightarrow> string" where
  "event_error W ev = (case ev_error ev of None \<Rightarrow> '''' | Some e \<Rightarrow> we_text W (StepError e))"

definition event_state :: "worker_env \<Rightarrow> nat \<Rightarrow> task \<Rightarrow> wf_event \<Rightarrow> gomap" where
  "event_state W n t ev =
     [(''status'', VString (status_string (ev_status ev)))] @
     (case ev_output ev of None \<Rightarrow> [] | Some out \<Rightarrow> [(''output'', VMap out)]) @
     opt_field ''error'' (event_error W ev) @
     opt_field ''spec_hash'' (spec_hash_of t) @
     [(''attempt'', VInt (int n))] @
     commit_fields (git_commit W n ev)"

definition event_update :: "worker_env \<Rightarrow> wf_event \<Rightarrow> job_update" where
  "event_update W ev =
     (let u = no_job_update\<lparr>ju_step := Some (ev_step ev)\<rparr>
      in if ev_status ev = Paused
         then u\<lparr>ju_status := Some WorkflowJobStatusPaused, ju_last_error := Some (event_error W ev)\<rparr>
         else if ev_status ev = Failed then u\<lparr>ju_last_error := Some (event_error W ev)\<rparr>
         else u)"

definition any_items :: "goval option \<Rightarrow> bool" where
  "any_items v \<longleftrightarrow> (case as_slice v of None \<Rightarrow> False | Some xs \<Rightarrow> xs \<noteq> [])"

definition has_subtasks :: "worker_env \<Rightarrow> gomap \<Rightarrow> bool" where
  "has_subtasks W out \<longleftrightarrow>
     (case we_typed W out of
        Some m \<Rightarrow> m ''backend'' \<noteq> [] \<or> m ''frontend'' \<noteq> []
      | None \<Rightarrow>
          (case as_map (get_key out ''subtasks'') of
             None \<Rightarrow> False
           | Some m \<Rightarrow> any_items (get_key m ''backend'') \<or> any_items (get_key m ''frontend'')))"

definition graph_changed :: "worker_env \<Rightarrow> task \<Rightarrow> wf_event \<Rightarrow> bool" where
  "graph_changed W t ev \<longleftrightarrow>
     ev_status ev = Success \<and>
     (ev_step ev = ''plan'' \<and> has_subtasks W (or_zero [] (ev_output ev)) \<or>
      ev_step ev = StepCLIAnalyze \<and> CLIAnalysisNeedsParallelTracks (we_files W) t)"

text \<open>The checkpoint is written before the step of the job.\<close>

definition handle_event ::
  "worker_env \<Rightarrow> run_ctx \<Rightarrow> nat \<Rightarrow> nat \<Rightarrow> wf_event \<Rightarrow> worker_state \<Rightarrow> step_error option \<times> worker_state" where
  "handle_event W C n k ev ws0 =
     (let ws = world_moves W n k ws0; t = handler_task C ws; job = rc_job C;
          st1 = (w_log W (t_id t) ^^ commit_logs (git_commit W n ev)) (ws_st ws);
          st2 = w_checkpoint (t_id t) (j_id job) (ev_step ev) (event_state W n t ev) st1
      in case w_job W st2 (j_id job) (event_update W ev) of
           (Inl e, st3) \<Rightarrow> (Some (StepFailed (we_job_text W e)), ws\<lparr>ws_st := st3\<rparr>)
         | (Inr _, st3) \<Rightarrow>
             (let st4 = w_log W (t_id t) st3;
                  c = (if ev_status ev = Success then Suc (ws_successes ws) else ws_successes ws);
                  st5 = (if ev_status ev = Success \<and> we_learning W \<and> dueForLearningNudge (int c) 4
                         then add_effect (DetectPatterns (rc_agent C)) st4 else st4)
              in (if graph_changed W t ev then Some ErrGraphChanged else None,
                  ws\<lparr>ws_st := st5, ws_successes := c\<rparr>)))"

text \<open>The state after a run of events of attempt \<open>n\<close>, from the \<open>k\<close>-th.\<close>

fun replay :: "worker_env \<Rightarrow> run_ctx \<Rightarrow> nat \<Rightarrow> nat \<Rightarrow> wf_event list \<Rightarrow> worker_state \<Rightarrow> worker_state" where
  "replay W C n k [] ws = ws"
| "replay W C n k (ev # evs) ws = replay W C n (Suc k) evs (snd (handle_event W C n k ev ws))"

definition OnEvent :: "worker_env \<Rightarrow> run_ctx \<Rightarrow> nat \<Rightarrow> worker_state \<Rightarrow> event_handler" where
  "OnEvent W C n ws evs ev = fst (handle_event W C n (length evs) ev (replay W C n 0 evs ws))"

definition engine_of :: "worker_env \<Rightarrow> run_ctx \<Rightarrow> nat \<Rightarrow> step_outputs \<Rightarrow> worker_state \<Rightarrow> engine" where
  "engine_of W C n completed ws =
     \<lparr>max_parallel = 2,
      on_event = Some (OnEvent W C n ws),
      completed_steps = completed\<rparr>"

section \<open>Reading the checkpoints\<close>

definition hash_mismatch :: "string \<Rightarrow> gomap \<Rightarrow> bool" where
  "hash_mismatch current m \<longleftrightarrow>
     str_field m ''spec_hash'' \<noteq> '''' \<and> current \<noteq> '''' \<and> str_field m ''spec_hash'' \<noteq> current"

definition marked_empty :: "gomap \<Rightarrow> bool" where
  "marked_empty m \<longleftrightarrow> as_bool (get_key m ''empty'') = Some True"

text \<open>The checkpoints a job that was sent back must not reuse.\<close>

definition to_redo :: "string \<Rightarrow> string \<Rightarrow> bool" where
  "to_redo jobStep cpStep \<longleftrightarrow>
     jobStep = ''review'' \<and> cpStep \<in> {''review'', ''fix''} \<or> isCLIImplementFixLoopCheckpoint jobStep cpStep"

definition readable :: "string \<Rightarrow> wf_checkpoint \<Rightarrow> gomap option" where
  "readable current cp =
     (case state_of cp of
        None \<Rightarrow> None
      | Some m \<Rightarrow> if hash_mismatch current m \<or> marked_empty m then None else Some m)"

definition completed_output :: "string \<Rightarrow> string \<Rightarrow> wf_checkpoint \<Rightarrow> gomap option" where
  "completed_output jobStep current cp =
     (case readable current cp of
        None \<Rightarrow> None
      | Some m \<Rightarrow>
          if state_status m = ''success'' \<and> \<not> to_redo jobStep (cp_step cp)
          then Some (or_zero [] (as_map (get_key m ''output''))) else None)"

definition note_completed :: "string \<Rightarrow> string \<Rightarrow> wf_checkpoint \<Rightarrow> step_outputs \<Rightarrow> step_outputs" where
  "note_completed jobStep current cp done_steps =
     (case completed_output jobStep current cp of
        None \<Rightarrow> done_steps
      | Some out \<Rightarrow> done_steps(cp_step cp \<mapsto> out))"

definition completed_of :: "string \<Rightarrow> string \<Rightarrow> wf_checkpoint list \<Rightarrow> step_outputs" where
  "completed_of jobStep current cps = fold (note_completed jobStep current) cps Map.empty"

definition halted_at :: "string \<Rightarrow> wf_checkpoint \<Rightarrow> bool" where
  "halted_at current cp \<longleftrightarrow>
     (case readable current cp of
        None \<Rightarrow> False
      | Some m \<Rightarrow> state_status m \<in> {''paused'', ''waiting_approval''})"

definition resumed_step :: "string \<Rightarrow> wf_checkpoint list \<Rightarrow> string" where
  "resumed_step current cps =
     (case find (halted_at current) (rev cps) of None \<Rightarrow> '''' | Some cp \<Rightarrow> cp_step cp)"

definition is_success :: "wf_checkpoint \<Rightarrow> bool" where
  "is_success cp \<longleftrightarrow> (case state_of cp of None \<Rightarrow> False | Some m \<Rightarrow> state_status m = ''success'')"

definition latest_completed_step :: "wf_checkpoint list \<Rightarrow> string" where
  "latest_completed_step cps = (case find is_success (rev cps) of None \<Rightarrow> '''' | Some cp \<Rightarrow> cp_step cp)"

definition resume_status :: "task \<Rightarrow> string \<Rightarrow> string" where
  "resume_status t s =
     (if has_prefix s ''context_load'' \<or> has_prefix s ''analyze'' then
        (if t_complexity t = TaskComplexityEasy then TaskStatusCoding else TaskStatusAnalyzing)
      else if list_ex (has_prefix s) [''plan'', ''code_backend'', ''code_frontend'', ''fix'', StepCLIImplement]
        then TaskStatusCoding
      else if has_prefix s StepMerge then TaskStatusReviewing
      else if has_prefix s ''test'' then TaskStatusTesting
      else if has_prefix s ''pr'' then TaskStatusHumanReview
      else '''')"

text \<open>The latest commit of every worktree; the entries keep the order in which they first appear.\<close>

definition restore_suffix :: "string \<Rightarrow> string" where
  "restore_suffix s =
     (if has_prefix s ''code_backend'' \<or> has_prefix s StepCLIImplementBackend then ''-be-worktree''
      else if has_prefix s ''code_frontend'' \<or> has_prefix s StepCLIImplementFrontend then ''-fe-worktree''
      else '''')"

definition note_commit :: "wf_checkpoint \<Rightarrow> (string \<times> string) list \<Rightarrow> (string \<times> string) list" where
  "note_commit cp latest =
     (case state_of cp of
        None \<Rightarrow> latest
      | Some m \<Rightarrow>
          if state_status m = ''success'' \<and> str_field m ''commit_hash'' \<noteq> ''''
          then AList.update (restore_suffix (cp_step cp)) (str_field m ''commit_hash'') latest else latest)"

definition latest_commits :: "wf_checkpoint list \<Rightarrow> (string \<times> string) list" where
  "latest_commits cps = fold note_commit cps []"

fun restore_worktrees ::
  "worker_env \<Rightarrow> string \<Rightarrow> (string \<times> string) list \<Rightarrow> string list \<Rightarrow> orch_state \<Rightarrow> orch_state" where
  "restore_worktrees W taskID latest [] st = st"
| "restore_worktrees W taskID latest (sfx # sfxs) st =
     (let hash = or_zero '''' (map_of latest sfx);
          st1 = add_effect (RestoreWorktree sfx hash) (w_log W taskID st);
          st2 = (if we_restore W hash sfx then st1 else w_log W taskID st1)
      in restore_worktrees W taskID latest sfxs st2)"

section \<open>Resuming\<close>

record resumption =
  re_completed :: step_outputs
  re_resumed :: string
  re_pinned :: "task option"
  re_st :: orch_state

text \<open>The status of the task after its latest step; the new task object is kept when the write succeeds.\<close>

definition restore_status ::
  "worker_env \<Rightarrow> orch_state \<Rightarrow> task \<Rightarrow> string \<Rightarrow> (task option \<times> orch_state) option" where
  "restore_status W st t status =
     (if status = '''' \<or> t_status t = status then Some (None, st)
      else (case we_update W (w_log W (t_id t) st) (t_id t) status of
              None \<Rightarrow> None
            | Some (Inl _, st1) \<Rightarrow> Some (None, st1)
            | Some (Inr u, st1) \<Rightarrow> Some (Some u, st1)))"

definition restore_commits :: "worker_env \<Rightarrow> orch_state \<Rightarrow> string \<Rightarrow> wf_checkpoint list \<Rightarrow> orch_state" where
  "restore_commits W st taskID cps =
     (let latest = latest_commits cps
      in if latest = [] then st
         else (w_log W taskID ^^ 2) (restore_worktrees W taskID latest (we_order W (map fst latest)) st))"

definition mismatches :: "string \<Rightarrow> wf_checkpoint list \<Rightarrow> nat" where
  "mismatches current cps =
     length (filter (\<lambda>cp. case state_of cp of None \<Rightarrow> False | Some m \<Rightarrow> hash_mismatch current m) cps)"

definition resume_run :: "worker_env \<Rightarrow> orch_state \<Rightarrow> workflow_job \<Rightarrow> task \<Rightarrow> resumption option" where
  "resume_run W st job t =
     (let cps = ListCheckpoints st (t_id t); current = spec_hash_of t;
          completed = completed_of (j_step job) current cps;
          resumed = resumed_step current cps;
          st1 = (w_log W (t_id t) ^^ mismatches current cps) st
      in if list_all (\<lambda>cp. completed (cp_step cp) = None) cps
         then Some \<lparr>re_completed = Map.empty, re_resumed = resumed, re_pinned = None, re_st = st1\<rparr>
         else (case restore_status W (w_log W (t_id t) st1) t (resume_status t (latest_completed_step cps)) of
                 None \<Rightarrow> None
               | Some (pinned, st2) \<Rightarrow>
                   Some \<lparr>re_completed = completed, re_resumed = resumed, re_pinned = pinned,
                         re_st = restore_commits W st2 (t_id t) cps\<rparr>))"

section \<open>The attempts\<close>

definition attempt_completed :: "run_ctx \<Rightarrow> worker_state \<Rightarrow> step_outputs \<Rightarrow> step_outputs" where
  "attempt_completed C ws completed =
     (let t = handler_task C ws; cps = ListCheckpoints (ws_st ws) (t_id t)
      in if cps = [] then completed else completed_of (j_step (rc_job C)) (spec_hash_of t) cps)"

text \<open>The session of an earlier attempt, if the artifacts of the task can be read and hold one.\<close>

definition resume_session :: "worker_env \<Rightarrow> run_ctx \<Rightarrow> nat \<Rightarrow> gomap" where
  "resume_session W C n =
     (if n \<le> 1 then []
      else (case Option.bind (we_sessions W n) (\<lambda>arts. find_session arts (j_step (rc_job C))) of
              None \<Rightarrow> []
            | Some s \<Rightarrow> [(''resume_session_id'', VString s)]))"

definition attempt_inputs :: "worker_env \<Rightarrow> run_ctx \<Rightarrow> nat \<Rightarrow> task \<Rightarrow> gomap" where
  "attempt_inputs W C n t =
     [(''task_id'', VString (t_id t)), (''agent_id'', VString (rc_agent C)),
      (''job_id'', VString (j_id (rc_job C))), (''retried_step_id'', VString (j_step (rc_job C)))] @
     resume_session W C n"

definition pipeline_of :: "bool \<Rightarrow> bool \<Rightarrow> runner_map \<Rightarrow> wf_definition" where
  "pipeline_of tracks cross runners =
     (if tracks then CLISpecFirstParallelWorkflow runners cross else CLISpecFirstWorkflow runners cross)"

type_synonym run_result = "run_state option \<times> engine_err option"

text \<open>The failed steps of the attempt before, each with the error of the attempt.\<close>

definition previous_errors :: "worker_env \<Rightarrow> run_result \<Rightarrow> string \<Rightarrow> string option" where
  "previous_errors W res s =
     (case res of
        (Some rs, Some e) \<Rightarrow> if rs_status rs s = Some Failed then Some (we_text W e) else None
      | _ \<Rightarrow> None)"

definition run_engine ::
  "worker_env \<Rightarrow> run_ctx \<Rightarrow> nat \<Rightarrow> step_outputs \<Rightarrow> run_result \<Rightarrow> worker_state \<Rightarrow> run_state \<times> engine_err option" where
  "run_engine W C n completed prev ws =
     (let e = engine_of W C n completed ws;
          def = pipeline_of (rc_parallel C) (rc_cross C) (we_runners W n (previous_errors W prev));
          inputs = attempt_inputs W C n (handler_task C ws)
      in if rc_resumed C \<noteq> '''' then Resume e (we_order W) (we_arrive W n) def inputs (rc_resumed C)
         else Run e (we_order W) (we_arrive W n) def inputs)"

text \<open>The state when the engine has returned: its events handled, then what the runners did last.\<close>

definition after_engine :: "worker_env \<Rightarrow> run_ctx \<Rightarrow> nat \<Rightarrow> run_state \<Rightarrow> worker_state \<Rightarrow> worker_state" where
  "after_engine W C n rs ws = world_moves W n (length (rs_events rs)) (replay W C n 0 (rs_events rs) ws)"

text \<open>The error a step or the handler gave, as \<^verbatim>\<open>errors.Is\<close> and \<^verbatim>\<open>errors.As\<close> see it.\<close>

definition cause :: "engine_err option \<Rightarrow> step_error option" where
  "cause err = (case err of Some (StepError e) \<Rightarrow> Some e | Some (EmitError e) \<Rightarrow> Some e | _ \<Rightarrow> None)"

definition halts :: "engine_err option \<Rightarrow> bool" where
  "halts err \<longleftrightarrow> (case cause err of None \<Rightarrow> False | Some e \<Rightarrow> is_paused e \<or> is_waiting e)"

datatype attempt_verdict =
    SendBack "string option"
  | SleepUntil int
  | Stop
  | GiveUp
  | RetryNow
  | RetryLater

definition judge_attempt :: "worker_env \<Rightarrow> nat \<Rightarrow> nat \<Rightarrow> engine_err option \<Rightarrow> attempt_verdict" where
  "judge_attempt W n max_tries err =
     (if cause err = Some ErrReviewFixLoop then SendBack (Some ''review'')
      else if cause err = Some ErrCrossReviewFixLoop then SendBack (Some StepCLIImplement)
      else if cause err = Some ErrGraphChanged then SendBack None
      else (case Option.bind (cause err) (we_cooldown W) of
              Some until \<Rightarrow> SleepUntil until
            | None \<Rightarrow>
                if err = None \<or> halts err then Stop
                else if cause err = Some ErrNoProgress \<and> n \<ge> 2 then GiveUp
                else if (case cause err of None \<Rightarrow> False | Some e \<Rightarrow> we_invalid W e) then
                  (if n < max_tries then RetryNow else GiveUp)
                else RetryLater))"

datatype attempts_end =
    Left_run
  | Ended run_result

definition send_back :: "worker_env \<Rightarrow> run_ctx \<Rightarrow> string option \<Rightarrow> worker_state \<Rightarrow> worker_state" where
  "send_back W C step ws =
     ws\<lparr>ws_st := snd (w_job W (w_log W (t_id (handler_task C ws)) (ws_st ws)) (j_id (rc_job C))
          (no_job_update\<lparr>ju_status := Some WorkflowJobStatusQueued, ju_step := step, ju_last_error := Some ''''\<rparr>))\<rparr>"

definition put_to_sleep :: "worker_env \<Rightarrow> run_ctx \<Rightarrow> int \<Rightarrow> engine_err option \<Rightarrow> worker_state \<Rightarrow> worker_state" where
  "put_to_sleep W C until err ws =
     ws\<lparr>ws_st := snd (w_job W (w_log W (t_id (handler_task C ws)) (ws_st ws)) (j_id (rc_job C))
          (no_job_update\<lparr>ju_status := Some WorkflowJobStatusSleeping, ju_sleep_until := Some until,
                         ju_last_error := map_option (we_text W) err\<rparr>))\<rparr>"

definition log_attempt :: "worker_env \<Rightarrow> run_ctx \<Rightarrow> worker_state \<Rightarrow> worker_state" where
  "log_attempt W C ws = ws\<lparr>ws_st := w_log W (t_id (handler_task C ws)) (ws_st ws)\<rparr>"

text \<open>
  The loop over the attempts: \<open>left\<close> are still to be made, the next one is number \<open>n\<close>. Left are the
  map of completed steps the engine holds and the result of the attempt before.
\<close>

fun run_attempts ::
  "worker_env \<Rightarrow> run_ctx \<Rightarrow> nat \<Rightarrow> nat \<Rightarrow> step_outputs \<Rightarrow> run_result \<Rightarrow> worker_state \<Rightarrow> attempts_end \<times> worker_state"
where
  "run_attempts W C 0 n completed prev ws = (Ended prev, ws)"
| "run_attempts W C (Suc left) n completed prev ws =
     (let completed1 = attempt_completed C ws completed;
          (rs, err) = run_engine W C n completed1 prev ws;
          ws1 = after_engine W C n rs ws
      in case judge_attempt W n (rc_max C) err of
           SendBack step \<Rightarrow> (Left_run, send_back W C step ws1)
         | SleepUntil until \<Rightarrow> (Left_run, put_to_sleep W C until err ws1)
         | Stop \<Rightarrow> (Ended (Some rs, err), ws1)
         | GiveUp \<Rightarrow> (Ended (Some rs, err), log_attempt W C ws1)
         | RetryNow \<Rightarrow> run_attempts W C left (Suc n) (rs_completed rs) (Some rs, err) (log_attempt W C ws1)
         | RetryLater \<Rightarrow>
             run_attempts W C left (Suc n) (rs_completed rs) (Some rs, err)
               (if n < rc_max C then log_attempt W C ws1 else ws1))"

section \<open>The end of a run\<close>

text \<open>\<^verbatim>\<open>finalizeTaskAttempt\<close> of \<^verbatim>\<open>orchestrator/decomposition.go\<close>\<close>

definition finalizeTaskAttempt ::
  "worker_env \<Rightarrow> task_attempt \<Rightarrow> workflow_job \<Rightarrow> int \<Rightarrow> orch_state \<Rightarrow> orch_state" where
  "finalizeTaskAttempt W att job exitStatus st =
     (case attempt_Finalize (oe_now (we_orch W)) st (ta_id att)
             \<lparr>fi_exit_status = Some exitStatus, fi_tokens_in = Some (j_total_tokens_used job),
              fi_tokens_out = None, fi_cost_usd = Some (j_total_cost_usd job)\<rparr> of
        (Inl _, st1) \<Rightarrow> w_log W (ta_task_id att) st1
      | (Inr _, st1) \<Rightarrow> st1)"

definition killed_text :: "string \<Rightarrow> bool" where
  "killed_text s \<longleftrightarrow> str_contains s ''signal: killed'' \<or> str_contains s ''context canceled''"

definition was_cancelled :: "worker_env \<Rightarrow> engine_err \<Rightarrow> bool" where
  "was_cancelled W e \<longleftrightarrow>
     (case cause (Some e) of None \<Rightarrow> False | Some x \<Rightarrow> we_canceled W x) \<or> we_cancelled W \<or>
     killed_text (we_text W e)"

definition final_status :: "worker_env \<Rightarrow> orch_state \<Rightarrow> string \<Rightarrow> engine_err option \<Rightarrow> string \<times> string" where
  "final_status W st taskID err =
     (case err of
        None \<Rightarrow> (WorkflowJobStatusDone, '''')
      | Some e \<Rightarrow>
          if halts err then (WorkflowJobStatusPaused, we_text W e)
          else if was_cancelled W e then
            (case LatestByTaskID st taskID of
               Inl _ \<Rightarrow> (WorkflowJobStatusFailed, ''workflow context cancelled'')
             | Inr j \<Rightarrow>
                 if j_status j = WorkflowJobStatusPaused then (WorkflowJobStatusPaused, ''workflow paused by user'')
                 else (WorkflowJobStatusFailed, ''workflow cancelled by user''))
          else (WorkflowJobStatusFailed, we_text W e))"

definition w_fail :: "worker_env \<Rightarrow> workflow_job \<Rightarrow> string \<Rightarrow> orch_state \<Rightarrow> orch_state option" where
  "w_fail W job msg st = fail (we_update W) (we_orch W) (we_cancelled W \<or> killed_text msg) st job msg"

definition latest_or :: "orch_state \<Rightarrow> string \<Rightarrow> workflow_job \<Rightarrow> workflow_job" where
  "latest_or st taskID job = (case LatestByTaskID st taskID of Inl _ \<Rightarrow> job | Inr j \<Rightarrow> j)"

definition step_report :: "run_ctx \<Rightarrow> run_state option \<Rightarrow> goval" where
  "step_report C res =
     (case res of
        None \<Rightarrow> VNil
      | Some rs \<Rightarrow>
          VMap (List.map_filter (\<lambda>s. map_option (\<lambda>v. (s, VString (status_string v))) (rs_status rs s))
                 (step_ids (pipeline_of (rc_parallel C) (rc_cross C) (\<lambda>_. None)))))"

definition finish_done :: "worker_env \<Rightarrow> run_ctx \<Rightarrow> task_attempt \<Rightarrow> run_state option \<Rightarrow> string \<Rightarrow> orch_state \<Rightarrow> orch_state option" where
  "finish_done W C att res taskID st =
     (let job = rc_job C;
          st1 = finalizeTaskAttempt W att (latest_or st taskID job) 0 st
      in map_option (add_effect (CleanupWorkspace taskID))
           (case w_job W st1 (j_id job)
                   (no_job_update\<lparr>ju_status := Some WorkflowJobStatusDone, ju_step := Some ''done'',
                                  ju_last_error := Some ''''\<rparr>) of
              (Inl e, st2) \<Rightarrow> w_fail W job (we_job_text W e) st2
            | (Inr _, st2) \<Rightarrow>
                Some (w_log W taskID (w_checkpoint taskID (j_id job) ''done''
                  [(''status'', VString WorkflowJobStatusDone), (''steps'', step_report C res)] st2))))"

definition end_run :: "worker_env \<Rightarrow> run_ctx \<Rightarrow> task_attempt \<Rightarrow> run_result \<Rightarrow> worker_state \<Rightarrow> orch_state option" where
  "end_run W C att res ws =
     (let st = ws_st ws; taskID = t_id (handler_task C ws); job = rc_job C
      in case final_status W st taskID (snd res) of (status, msg) \<Rightarrow>
           if snd res = None then finish_done W C att (fst res) taskID st
           else if status = WorkflowJobStatusPaused then
             Some (w_log W taskID (snd (w_job W st (j_id job)
               (no_job_update\<lparr>ju_status := Some WorkflowJobStatusPaused, ju_last_error := Some msg\<rparr>))))
           else w_fail W job msg (finalizeTaskAttempt W att (latest_or st taskID job) 1 st))"

section \<open>Preparation and the whole run\<close>

text \<open>The error of the preparation or the task and the agent; in any case the agent to release.\<close>

definition prepare ::
  "worker_env \<Rightarrow> orch_state \<Rightarrow> workflow_job \<Rightarrow> ((string + task) \<times> string option \<times> orch_state) option" where
  "prepare W st job =
     (case get_task (os_db st) (j_task_id job) of
        Inl e \<Rightarrow> Some (Inl (we_repo_text W e), None, st)
      | Inr t \<Rightarrow>
          (let st1 = w_checkpoint (t_id t) (j_id job) ''assign'' [(''status'', VString ''running'')] st
           in case Assign (we_dir W) (os_db st1) t of
                (Inl e, d) \<Rightarrow> Some (Inl (we_repo_text W e), None, st1\<lparr>os_db := d\<rparr>)
              | (Inr a, d) \<Rightarrow>
                  (case w_job W (st1\<lparr>os_db := d\<rparr>) (j_id job)
                          (no_job_update\<lparr>ju_agent_id := Some a, ju_step := Some ''assign''\<rparr>) of
                     (Inl e, st2) \<Rightarrow> Some (Inl (we_job_text W e), Some a, st2)
                   | (Inr _, st2) \<Rightarrow>
                       (case write_task st2 (t_id t) (no_update\<lparr>ui_agent_id := Some a\<rparr>) of
                          (Some e, st3) \<Rightarrow> Some (Inl (we_repo_text W e), Some a, st3)
                        | (None, st3) \<Rightarrow>
                            (case we_clone W (w_log W (t_id t) st3) t of
                               (Some e, st4) \<Rightarrow> Some (Inl (''workspace clone failed: '' @ e), Some a, st4)
                             | (None, st4) \<Rightarrow>
                                 (case start_task (we_update W) st4 t of
                                    None \<Rightarrow> None
                                  | Some (Some e, st5) \<Rightarrow> Some (Inl (we_write_text W e), Some a, st5)
                                  | Some (None, st5) \<Rightarrow>
                                      Some (Inr t, Some a,
                                        w_checkpoint (t_id t) (j_id job) ''agent_confidence'' (we_confidence W)
                                          (st5\<lparr>os_db := MarkRunning (os_db st5) a\<rparr>))))))))"

definition max_attempts :: "db \<Rightarrow> task \<Rightarrow> nat" where
  "max_attempts d t =
     (case get_project d (t_project_id t) of
        Inl _ \<Rightarrow> 1
      | Inr p \<Rightarrow> if p_max_retries p > 0 then nat (p_max_retries p) else 1)"

definition include_cross_review :: "db \<Rightarrow> task \<Rightarrow> bool" where
  "include_cross_review d t =
     (case get_project d (t_project_id t) of
        Inl _ \<Rightarrow> False
      | Inr p \<Rightarrow> p_review_harness_policy p \<noteq> ''same'')"

definition context_of :: "worker_env \<Rightarrow> workflow_job \<Rightarrow> string \<Rightarrow> orch_state \<Rightarrow> task \<Rightarrow> resumption \<Rightarrow> run_ctx" where
  "context_of W job agent st t r =
     \<lparr>rc_job = job, rc_agent = agent, rc_pinned = re_pinned r,
      rc_parallel = CLIAnalysisNeedsParallelTracks (we_files W) t,
      rc_cross = include_cross_review (os_db st) t, rc_resumed = re_resumed r,
      rc_max = max_attempts (os_db (re_st r)) (or_zero t (re_pinned r))\<rparr>"

definition work :: "worker_env \<Rightarrow> workflow_job \<Rightarrow> task_attempt \<Rightarrow> string \<Rightarrow> task \<Rightarrow> orch_state \<Rightarrow> orch_state option" where
  "work W job att agent t st =
     (case resume_run W st job t of
        None \<Rightarrow> None
      | Some r \<Rightarrow>
          (let C = context_of W job agent st t r
           in case run_attempts W C (rc_max C) 1 (re_completed r) (None, None)
                     \<lparr>ws_st = re_st r, ws_task = t, ws_successes = 0\<rparr> of
                (Left_run, ws) \<Rightarrow> Some (ws_st ws)
              | (Ended res, ws) \<Rightarrow> end_run W C att res ws))"

text \<open>The deferred releases: the agent, if one was assigned, and the lock of the workspace.\<close>

definition release_all :: "string option \<Rightarrow> string \<Rightarrow> orch_state \<Rightarrow> orch_state" where
  "release_all agent taskID st =
     add_effect (ReleaseLock taskID)
       (case agent of None \<Rightarrow> st | Some a \<Rightarrow> st\<lparr>os_db := Release (os_db st) a\<rparr>)"

definition run_job :: "worker_env \<Rightarrow> orch_state \<Rightarrow> string \<Rightarrow> orch_state option" where
  "run_job W st jobID =
     (case w_job W st jobID (no_job_update\<lparr>ju_status := Some WorkflowJobStatusRunning\<rparr>) of
        (Inl _, st1) \<Rightarrow> Some st1
      | (Inr job, st1) \<Rightarrow>
          (let (att, st2) = attempt_Create (oe_id (we_orch W)) (oe_now (we_orch W)) st1 (j_task_id job) (j_id job)
           in case prepare W st2 job of
                None \<Rightarrow> None
              | Some (Inl msg, agent, st3) \<Rightarrow>
                  map_option (release_all agent (j_task_id job)) (w_fail W job msg st3)
              | Some (Inr t, agent, st3) \<Rightarrow>
                  map_option (release_all agent (j_task_id job)) (work W job att (or_zero '''' agent) t st3)))"

text \<open>A panic on the goroutine of the run: what the deferred function does when it recovers one.\<close>

definition recover_run ::
  "worker_env \<Rightarrow> string option \<Rightarrow> string option \<Rightarrow> string \<Rightarrow> string \<Rightarrow> orch_state \<Rightarrow> orch_state option" where
  "recover_run W taskID agent jobID msg st =
     (let failed = no_job_update\<lparr>ju_status := Some WorkflowJobStatusFailed, ju_last_error := Some msg\<rparr>
      in case taskID of
           None \<Rightarrow> Some (snd (w_job W st jobID failed))
         | Some i \<Rightarrow>
             (case we_update W (add_effect (CleanupWorkspace i) st) i TaskStatusFailed of
                None \<Rightarrow> None
              | Some (_, st1) \<Rightarrow>
                  Some (release_all agent i (snd (w_job W (w_log W i st1) jobID failed)))))"

end
