(* ===== verification/Worker_Properties.thy ===== *)
theory Worker_Properties
  imports Worker Control_Properties Workflow_Properties
begin

text \<open>
  What the runs of a job guarantee: finished steps stay finished, every exit releases what the run
  holds, a pause is never a failure, and what a rejected pull request really starts.
\<close>

section \<open>What the reading of checkpoints gives\<close>

lemma get_json_map [simp]: "get_key (json_map m) k = map_option json_value (get_key m k)"
  by (induction m) (auto simp: get_key_def json_map_def)

lemma fold_note:
  "fold (note_completed j h) cps m s \<noteq> None \<longleftrightarrow>
   m s \<noteq> None \<or> (\<exists>cp \<in> set cps. cp_step cp = s \<and> completed_output j h cp \<noteq> None)"
  by (induction cps arbitrary: m) (auto simp: note_completed_def split: option.splits if_splits)

lemma completed_of_iff:
  "completed_of j h cps s \<noteq> None \<longleftrightarrow> (\<exists>cp \<in> set cps. cp_step cp = s \<and> completed_output j h cp \<noteq> None)"
  using fold_note [of j h cps Map.empty s] by (simp add: completed_of_def)

lemma json_string [simp]: "as_string (map_option json_value v) = as_string v"
proof (cases v)
  case (Some x)
  then show ?thesis by (cases x) auto
qed simp

lemma json_bool [simp]: "as_bool (map_option json_value v) = as_bool v"
proof (cases v)
  case (Some x)
  then show ?thesis by (cases x) auto
qed simp

lemma event_state_fields:
  "get_key (event_state W n t ev) ''status'' = Some (VString (status_string (ev_status ev)))"
  "str_field (event_state W n t ev) ''spec_hash'' = spec_hash_of t"
  "as_bool (get_key (event_state W n t ev) ''empty'') = Some True \<longleftrightarrow>
     (\<exists>hash. git_commit W n ev = Some (Committed hash True))"
  by (auto simp: event_state_def get_key_def str_field_def opt_field_def commit_fields_def
      split: option.splits commit_result.splits)

text \<open>The checkpoint the handler writes for an event.\<close>

definition event_checkpoint :: "worker_env \<Rightarrow> run_ctx \<Rightarrow> nat \<Rightarrow> task \<Rightarrow> wf_event \<Rightarrow> wf_checkpoint" where
  "event_checkpoint W C n t ev =
     \<lparr>cp_task_id = t_id t, cp_job_id = Some (j_id (rc_job C)), cp_step = ev_step ev,
      cp_state = Json (json_map (event_state W n t ev))\<rparr>"

lemma event_checkpoint_status:
  "state_of (event_checkpoint W C n t ev) = Some (json_map (event_state W n t ev))"
  "state_status (json_map (event_state W n t ev)) = status_string (ev_status ev)"
  by (simp_all add: event_checkpoint_def state_of_def state_status_def event_state_fields)

lemma success_checkpoint_counts:
  assumes "ev_status ev = Success" and "\<not> to_redo j (ev_step ev)" and "spec_hash_of t = h"
    and "\<forall>hash. git_commit W n ev \<noteq> Some (Committed hash True)"
  shows "completed_output j h (event_checkpoint W C n t ev) \<noteq> None"
proof -
  have "\<not> hash_mismatch h (json_map (event_state W n t ev))"
    using assms(3) event_state_fields(2) [of W n t ev] by (auto simp: hash_mismatch_def str_field_def)
  moreover have "\<not> marked_empty (json_map (event_state W n t ev))"
    using assms(4) by (simp add: marked_empty_def event_state_fields)
  moreover have "cp_step (event_checkpoint W C n t ev) = ev_step ev" by (simp add: event_checkpoint_def)
  ultimately show ?thesis using assms(1,2)
    by (simp add: completed_output_def readable_def event_checkpoint_status)
qed

section \<open>What the handler leaves\<close>

lemma w_log_frame [simp]:
  "os_jobs (w_log W i st) = os_jobs st" "os_checkpoints (w_log W i st) = os_checkpoints st"
  by (simp_all add: w_log_def)

lemma w_logs_frame [simp]:
  "os_jobs ((w_log W i ^^ n) st) = os_jobs st" "os_checkpoints ((w_log W i ^^ n) st) = os_checkpoints st"
  by (induction n) simp_all

lemma w_job_checkpoints [simp]: "os_checkpoints (snd (w_job W st i u)) = os_checkpoints st"
  by (simp add: w_job_def)

lemma w_checkpoint_frame [simp]:
  "os_jobs (w_checkpoint i j s m st) = os_jobs st" "os_db (w_checkpoint i j s m st) = os_db st"
  "os_effects (w_checkpoint i j s m st) = os_effects st"
  by (simp_all add: w_checkpoint_def CreateCheckpoint_def)

lemma handle_event_checkpoints:
  "os_checkpoints (ws_st (snd (handle_event W C n k ev ws))) =
     os_checkpoints (ws_st (world_moves W n k ws)) @
     [event_checkpoint W C n (handler_task C (world_moves W n k ws)) ev]"
proof -
  let ?w = "world_moves W n k ws"
  let ?t = "handler_task C ?w"
  let ?st = "w_checkpoint (t_id ?t) (j_id (rc_job C)) (ev_step ev) (event_state W n ?t ev)
               ((w_log W (t_id ?t) ^^ commit_logs (git_commit W n ev)) (ws_st ?w))"
  obtain r st3 where u: "w_job W ?st (j_id (rc_job C)) (event_update W ev) = (r, st3)" by fastforce
  have "os_checkpoints st3 = os_checkpoints (ws_st ?w) @ [event_checkpoint W C n ?t ev]"
    using arg_cong [OF u, of "\<lambda>x. os_checkpoints (snd x)"]
    by (simp add: w_checkpoint_def CreateCheckpoint_def event_checkpoint_def)
  with u show ?thesis by (cases r) (simp_all add: handle_event_def Let_def)
qed

lemma handle_event_task:
  "handler_task C (snd (handle_event W C n k ev ws)) = handler_task C (world_moves W n k ws)"
  by (auto simp: handle_event_def Let_def handler_task_def split: prod.splits sum.splits)

text \<open>A world that deletes no checkpoint and does not give the task another specification.\<close>

definition keeps_progress :: "worker_env \<Rightarrow> bool" where
  "keeps_progress W \<longleftrightarrow>
     (\<forall>n k st t. set (os_checkpoints st) \<subseteq> set (os_checkpoints (fst (we_world W n k (st, t)))) \<and>
                 t_id (snd (we_world W n k (st, t))) = t_id t \<and>
                 spec_hash_of (snd (we_world W n k (st, t))) = spec_hash_of t)"

lemma world_keeps:
  assumes "keeps_progress W"
  shows "set (os_checkpoints (ws_st ws)) \<subseteq> set (os_checkpoints (ws_st (world_moves W n k ws)))"
    and "t_id (handler_task C (world_moves W n k ws)) = t_id (handler_task C ws)"
    and "spec_hash_of (handler_task C (world_moves W n k ws)) = spec_hash_of (handler_task C ws)"
  using assms [unfolded keeps_progress_def, rule_format, of "ws_st ws" n k "ws_task ws"]
  by (cases "rc_pinned C"; auto simp: world_moves_def handler_task_def split: prod.splits)+

lemma replay_keeps:
  assumes "keeps_progress W"
  shows "set (os_checkpoints (ws_st ws)) \<subseteq> set (os_checkpoints (ws_st (replay W C n k evs ws))) \<and>
    t_id (handler_task C (replay W C n k evs ws)) = t_id (handler_task C ws) \<and>
    spec_hash_of (handler_task C (replay W C n k evs ws)) = spec_hash_of (handler_task C ws)"
proof (induction evs arbitrary: k ws)
  case (Cons ev evs)
  from Cons [where k = "Suc k" and ws = "snd (handle_event W C n k ev ws)"] world_keeps [OF assms, where ws = ws and n = n and k = k]
  show ?case by (auto simp: handle_event_checkpoints handle_event_task)
qed simp

lemma replay_writes:
  assumes "keeps_progress W" and "ev \<in> set evs"
  shows "\<exists>t. event_checkpoint W C n t ev \<in> set (os_checkpoints (ws_st (replay W C n k evs ws))) \<and>
    t_id t = t_id (handler_task C ws) \<and> spec_hash_of t = spec_hash_of (handler_task C ws)"
  using assms(2)
proof (induction evs arbitrary: k ws)
  case (Cons e evs)
  let ?ws = "snd (handle_event W C n k e ws)"
  note w = world_keeps [OF assms(1), where ws = ws and n = n and k = k]
  show ?case
  proof (cases "ev = e")
    case True
    have "event_checkpoint W C n (handler_task C (world_moves W n k ws)) e \<in> set (os_checkpoints (ws_st ?ws))"
      by (simp add: handle_event_checkpoints)
    with replay_keeps [OF assms(1), where ws = ?ws and k = "Suc k" and evs = evs and C = C and n = n] True w show ?thesis by auto
  next
    case False
    with Cons.prems have "ev \<in> set evs" by simp
    from Cons.IH [OF this, where k = "Suc k" and ws = ?ws] w show ?thesis by (auto simp: handle_event_task)
  qed
qed simp

section \<open>The engine run of an attempt\<close>

lemma run_engine_internal:
  "run_engine W C n d prev ws =
     runInternal (engine_of W C n d ws) (we_order W) (we_arrive W n)
       (pipeline_of (rc_parallel C) (rc_cross C) (we_runners W n (previous_errors W prev)))
       (attempt_inputs W C n (handler_task C ws)) (rc_resumed C)"
  by (simp add: run_engine_def Resume_def Run_def Let_def)

lemma pipeline_valid: "valid_definition (pipeline_of tracks cross runners)"
  by (simp add: pipeline_of_def pipelines_valid)

lemma pipeline_ids:
  "step_ids (pipeline_of tracks cross r) =
     [StepCLIAnalyze, StepCLISpec] @
     (if tracks then [StepCLIImplementBackend, StepCLIImplementFrontend, StepMerge] else [StepCLIImplement]) @
     (if cross then [StepCrossReview] else []) @ [StepCLIMR]"
  by (cases tracks; cases cross; simp add: pipeline_of_def CLISpecFirstWorkflow_def CLISpecFirstParallelWorkflow_def)

lemma started_not_completed:
  assumes "\<And>i. permuting (arrive i)" and "runInternal e ord arrive def initial paused = (rs, r)"
    and "x \<in> fst ` set (rs_started rs)"
  shows "completed_steps e x = None"
  using runInternal_facts [OF assms(1,2)] assms(3) by (fastforce simp: engine_inv_def)

lemma all_done_run:
  assumes "permuting ord" and "valid_definition def" and "\<forall>x \<in> set (step_ids def). completed_steps e x \<noteq> None"
  shows "runInternal e ord arrive def initial paused = (seed e def, None)"
proof -
  have "\<forall>s \<in> set (wf_steps def). rs_status (seed e def) (step_id s) = Some Success"
    using assms(3) by (simp add: seed_def)
  then have "readySteps (wf_steps def) (rs_status (seed e def)) = []"
    and "finish def (seed e def) = (seed e def, None)"
    by (auto simp: readySteps_def is_ready_def filter_empty_conv finish_def satisfied_def list_all_iff)
  then show ?thesis
    using validateDefinition_valid [OF assms(1), of def] assms(2) by (simp add: runInternal_def run_loop.simps)
qed

lemma attempt_completed_from:
  assumes "cp \<in> set (ListCheckpoints (ws_st ws) (t_id (handler_task C ws)))"
    and "completed_output (j_step (rc_job C)) (spec_hash_of (handler_task C ws)) cp \<noteq> None"
  shows "attempt_completed C ws d (cp_step cp) \<noteq> None"
  using assms completed_of_iff by (fastforce simp: attempt_completed_def Let_def)

section \<open>Finished steps stay finished\<close>

lemma event_checkpoint_listed:
  "event_checkpoint W C n t ev \<in> set (os_checkpoints st) \<Longrightarrow>
   event_checkpoint W C n t ev \<in> set (ListCheckpoints st (t_id t))"
  by (simp add: ListCheckpoints_def event_checkpoint_def)

lemma after_engine_writes:
  assumes "keeps_progress W" and "ev \<in> set (rs_events rs)"
  shows "\<exists>t. event_checkpoint W C n t ev \<in> set (os_checkpoints (ws_st (after_engine W C n rs ws))) \<and>
    t_id t = t_id (handler_task C ws) \<and> spec_hash_of t = spec_hash_of (handler_task C ws)"
  using replay_writes [OF assms, where C = C and n = n and ws = ws and k = 0] world_keeps(1) [OF assms(1)]
  unfolding after_engine_def by blast

text \<open>
  C5: Once the engine has reported a step as succeeded, no later attempt starts it again, be it of
  the same run or of another run of the task after a crash, as long as the checkpoint of its success
  is still stored when the later attempt begins and the attempt is of the same task with the same
  specification: unless the job was sent back to redo it, or its commit was empty. What other requests
  do while the engine runs may add checkpoints but delete none, and changes neither the task the run
  holds nor its specification. (A repair after a rejection, the deletion of a workspace and the pruner do
  delete checkpoints.)
\<close>
theorem finished_steps_stay:
  assumes "keeps_progress W" and "\<And>m i. permuting (we_arrive W m i)"
    and "run_engine W C n d prev ws = (rs, err)" and "ev \<in> set (rs_events rs)" and "ev_status ev = Success"
    and "\<forall>hash. git_commit W n ev \<noteq> Some (Committed hash True)"
    and "set (os_checkpoints (ws_st (after_engine W C n rs ws))) \<subseteq> set (os_checkpoints (ws_st ws'))"
    and "t_id (handler_task C' ws') = t_id (handler_task C ws)"
    and "spec_hash_of (handler_task C' ws') = spec_hash_of (handler_task C ws)"
    and "\<not> to_redo (j_step (rc_job C')) (ev_step ev)"
  shows "ev_step ev \<notin> fst ` set (rs_started (fst (run_engine W C' m (attempt_completed C' ws' d') prev' ws')))"
proof
  assume started: "ev_step ev \<in> fst ` set (rs_started (fst (run_engine W C' m (attempt_completed C' ws' d') prev' ws')))"
  obtain t where t: "event_checkpoint W C n t ev \<in> set (os_checkpoints (ws_st ws'))"
    "t_id t = t_id (handler_task C' ws')" "spec_hash_of t = spec_hash_of (handler_task C' ws')"
    using after_engine_writes [OF assms(1,4), where C = C and n = n and ws = ws] assms(7,8,9) by (metis subsetD)
  have "attempt_completed C' ws' d' (cp_step (event_checkpoint W C n t ev)) \<noteq> None"
    using attempt_completed_from [of "event_checkpoint W C n t ev" ws' C' d']
      event_checkpoint_listed [OF t(1)] t(2) success_checkpoint_counts [OF assms(5,10) t(3) assms(6)] by simp
  moreover have "completed_steps (engine_of W C' m (attempt_completed C' ws' d') ws') (ev_step ev) = None"
    using started_not_completed [OF assms(2) prod.collapse [symmetric], OF started [unfolded run_engine_internal]] .
  ultimately show False by (simp add: engine_of_def event_checkpoint_def)
qed

section \<open>A rejected pull request\<close>

lemma pipeline_kept:
  assumes "s \<in> set (step_ids (pipeline_of tracks cross r))"
  shows "\<not> deletes repair_steps s"
proof -
  have "list_all (\<lambda>s. \<not> deletes repair_steps s)
    [StepCLIAnalyze, StepCLISpec, StepCLIImplement, StepCLIImplementBackend, StepCLIImplementFrontend,
     StepMerge, StepCrossReview, StepCLIMR]"
    by code_simp
  with assms show ?thesis by (auto simp: pipeline_ids simp del: list.set_map split: if_splits)
qed

lemma repair_keeps:
  assumes "cp \<in> set (ListCheckpoints st i)" and "\<not> deletes repair_steps (cp_step cp)"
  shows "cp \<in> set (ListCheckpoints (snd (ClearCheckpointsForRepair (SavePRRejectionFeedback st i feedback) i)) i)"
  using assms
  by (auto simp: ClearCheckpointsForRepair_def SavePRRejectionFeedback_def CreateCheckpoint_def
      DeleteCheckpoints_def ListCheckpoints_def split: sum.splits)

text \<open>
  C7: The repair after a rejected pull request repairs nothing. Of a task whose pipeline has
  finished, every step still has its checkpoint after the rejection has saved the feedback and cleared the
  checkpoints, so the next run ends at once as a success, without starting a step or emitting an event.
\<close>
theorem rejected_pr_runs_nothing:
  assumes "permuting (we_order W)"
    and "\<forall>s \<in> set (step_ids (pipeline_of (rc_parallel C) (rc_cross C) r)).
      \<exists>cp \<in> set (ListCheckpoints st (t_id (handler_task C ws))).
        cp_step cp = s \<and> completed_output (j_step (rc_job C)) (spec_hash_of (handler_task C ws)) cp \<noteq> None"
    and "ws_st ws = snd (ClearCheckpointsForRepair (SavePRRejectionFeedback st i feedback) i)"
    and "i = t_id (handler_task C ws)"
  shows "\<exists>rs. run_attempts W C (Suc left) n d prev ws = (Ended (Some rs, None), world_moves W n 0 ws) \<and>
    rs_started rs = [] \<and> rs_events rs = []"
proof -
  let ?d = "attempt_completed C ws d"
  let ?def = "pipeline_of (rc_parallel C) (rc_cross C) (we_runners W n (previous_errors W prev))"
  have "?d s \<noteq> None" if s: "s \<in> set (step_ids ?def)" for s
  proof -
    from s have "s \<in> set (step_ids (pipeline_of (rc_parallel C) (rc_cross C) r))"
      by (simp add: pipeline_ids del: list.set_map)
    with assms(2) obtain cp where cp: "cp \<in> set (ListCheckpoints st i)" "cp_step cp = s"
      "completed_output (j_step (rc_job C)) (spec_hash_of (handler_task C ws)) cp \<noteq> None"
      using assms(4) by auto
    with pipeline_kept [OF s] have "cp \<in> set (ListCheckpoints (ws_st ws) (t_id (handler_task C ws)))"
      using repair_keeps assms(3,4) by metis
    from attempt_completed_from [OF this cp(3)] cp(2) show ?thesis by simp
  qed
  then have "run_engine W C n ?d prev ws = (seed (engine_of W C n ?d ws) ?def, None)"
    unfolding run_engine_internal using all_done_run [OF assms(1) pipeline_valid] by (simp add: engine_of_def)
  then show ?thesis
    by (simp add: Let_def judge_attempt_def cause_def after_engine_def seed_def halts_def)
qed

section \<open>A run to try it on\<close>

definition demo_worker :: worker_env where
  "demo_worker =
     \<lparr>we_orch = silent_env, we_update = updateTaskStatus 1 silent_env,
      we_dir = (\<lambda>_. \<lparr>ag_org = '''', ag_role = ''backend'', ag_auto_join = True, ag_projects = []\<rparr>),
      we_clone = (\<lambda>st _. (None, st)), we_confidence = [], we_learning = False, we_world = (\<lambda>_ _ s. s),
      we_runners = (\<lambda>_ _. demo_runners), we_arrive = (\<lambda>_ _. rev), we_order = (\<lambda>x. x),
      we_commit = (\<lambda>_ _ _. NoCommit), we_restore = (\<lambda>_ _. True), we_sessions = (\<lambda>_. None),
      we_files = (\<lambda>_. None), we_typed = (\<lambda>_. None), we_text = (\<lambda>_. ''failed''),
      we_repo_text = (\<lambda>_. ''''), we_job_text = (\<lambda>_. ''''), we_write_text = (\<lambda>_. ''''),
      we_cooldown = (\<lambda>_. None), we_invalid = (\<lambda>_. False), we_canceled = (\<lambda>_. False), we_cancelled = False\<rparr>"

definition demo_ctx :: run_ctx where
  "demo_ctx =
     \<lparr>rc_job = (new_job ''j'' 0 ''t'')\<lparr>j_status := WorkflowJobStatusRunning\<rparr>, rc_agent = ''a'', rc_pinned = None,
      rc_parallel = False, rc_cross = True, rc_resumed = '''', rc_max = 3\<rparr>"

definition demo_ws :: worker_state where
  "demo_ws =
     \<lparr>ws_st = (orch_of [demo_task ''t'' TaskStatusAnalyzing])\<lparr>os_jobs := [rc_job demo_ctx]\<rparr>,
      ws_task = demo_task ''t'' TaskStatusAnalyzing, ws_successes = 0\<rparr>"

definition all_but_last :: step_outputs where
  "all_but_last s = (if s = StepCLIMR then None else Some [])"

definition demo_run1 :: "run_state \<times> engine_err option" where
  "demo_run1 = run_engine demo_worker demo_ctx 1 all_but_last (None, None) demo_ws"

lemma demo_worker_simps [simp]:
  "we_arrive demo_worker m i = rev" "we_order demo_worker = (\<lambda>x. x)" "we_commit demo_worker m s x = NoCommit"
  "keeps_progress demo_worker"
  by (simp_all add: demo_worker_def keeps_progress_def)

lemma demo_run1_events: "success_event StepCLIMR [] \<in> set (rs_events (fst demo_run1))"
proof -
  have "map (\<lambda>ev. (ev_step ev, ev_status ev, ev_output ev, ev_error ev)) (rs_events (fst demo_run1)) =
      [(StepCLIMR, Running, None, None), (StepCLIMR, Success, Some [], None)]"
    by code_simp
  then show ?thesis by (auto simp: map_eq_Cons_conv success_event_def intro: wf_event.equality)
qed

theorem finished_steps_stay_witness:
  "StepCLIMR \<notin> fst ` set (rs_started (fst
     (run_engine demo_worker demo_ctx 2
       (attempt_completed demo_ctx (after_engine demo_worker demo_ctx 1 (fst demo_run1) demo_ws) Map.empty)
       (None, None) (after_engine demo_worker demo_ctx 1 (fst demo_run1) demo_ws))))"
proof -
  let ?ws = "after_engine demo_worker demo_ctx 1 (fst demo_run1) demo_ws"
  have run: "run_engine demo_worker demo_ctx 1 all_but_last (None, None) demo_ws = (fst demo_run1, snd demo_run1)"
    by (simp add: demo_run1_def)
  have nocommit: "\<forall>hash. git_commit demo_worker 1 (success_event StepCLIMR []) \<noteq> Some (Committed hash True)"
    by (simp add: git_commit_def)
  have "t_id (handler_task demo_ctx ?ws) = t_id (handler_task demo_ctx demo_ws)"
    "spec_hash_of (handler_task demo_ctx ?ws) = spec_hash_of (handler_task demo_ctx demo_ws)"
    using replay_keeps [of demo_worker demo_ws demo_ctx 1 0 "rs_events (fst demo_run1)"]
      world_keeps [of demo_worker] by (simp_all add: after_engine_def)
  moreover have "\<not> to_redo (j_step (rc_job demo_ctx)) StepCLIMR" by code_simp
  ultimately show ?thesis
    using finished_steps_stay [OF _ _ run demo_run1_events _ nocommit, of ?ws demo_ctx 2 Map.empty "(None, None)"]
    by (simp add: success_event_def permuting_id)
qed

text \<open>The task with every step finished, then rejected.\<close>

definition finished_st :: orch_state where
  "finished_st = (ws_st demo_ws)\<lparr>os_checkpoints :=
     map (\<lambda>s. \<lparr>cp_task_id = ''t'', cp_job_id = Some ''j'', cp_step = s,
                cp_state = Json [(''status'', VString ''success'')]\<rparr>)
       [StepCLIAnalyze, StepCLISpec, StepCLIImplement, StepCrossReview, StepCLIMR]\<rparr>"

definition rejected_ws :: worker_state where
  "rejected_ws = demo_ws\<lparr>ws_st :=
     snd (ClearCheckpointsForRepair (SavePRRejectionFeedback finished_st ''t'' ''please redo'') ''t'')\<rparr>"

theorem rejected_pr_runs_nothing_witness:
  "\<exists>rs. fst (run_attempts demo_worker demo_ctx 3 1 Map.empty (None, None) rejected_ws) = Ended (Some rs, None) \<and>
     rs_started rs = []"
proof -
  let ?st = finished_st
  have "list_all (\<lambda>s. list_ex (\<lambda>cp. cp_step cp = s \<and>
      completed_output (j_step (rc_job demo_ctx)) (spec_hash_of (handler_task demo_ctx rejected_ws)) cp \<noteq> None)
      (ListCheckpoints ?st (t_id (handler_task demo_ctx rejected_ws))))
      (step_ids (pipeline_of (rc_parallel demo_ctx) (rc_cross demo_ctx) demo_runners))"
    by code_simp
  then have "\<forall>s \<in> set (step_ids (pipeline_of (rc_parallel demo_ctx) (rc_cross demo_ctx) demo_runners)).
      \<exists>cp \<in> set (ListCheckpoints ?st (t_id (handler_task demo_ctx rejected_ws))). cp_step cp = s \<and>
      completed_output (j_step (rc_job demo_ctx)) (spec_hash_of (handler_task demo_ctx rejected_ws)) cp \<noteq> None"
    by (simp add: list_all_iff list_ex_iff)
  moreover have "ws_st rejected_ws = snd (ClearCheckpointsForRepair (SavePRRejectionFeedback ?st ''t'' ''please redo'') ''t'')"
    by (simp add: rejected_ws_def)
  moreover have "''t'' = t_id (handler_task demo_ctx rejected_ws)" by code_simp
  moreover have "permuting (we_order demo_worker)" by (simp add: permuting_id)
  ultimately show ?thesis
    using rejected_pr_runs_nothing [of demo_worker demo_ctx demo_runners ?st rejected_ws "''t''" "''please redo''" 2 1 Map.empty "(None, None)"]
    by (auto simp: numeral_3_eq_3 numeral_2_eq_2)
qed

section \<open>Waiting between attempts\<close>

lemma sint_small: "0 \<le> x \<Longrightarrow> x < 2 ^ 63 \<Longrightarrow> sint (word_of_int x :: 64 word) = x"
  by (simp add: sint_sbintrunc' signed_take_bit_int_eq_self)

lemma shifted_seconds:
  assumes "n \<le> 61"
  shows "sint (push_bit n (1 :: 64 word) * 2) = 2 ^ n * 2"
proof -
  have "push_bit n (1 :: 64 word) * 2 = word_of_int (2 ^ n * 2)" by (simp add: push_bit_eq_mult)
  moreover have "(2::int) ^ n \<le> 2 ^ 61" using assms by (intro power_increasing) auto
  ultimately show ?thesis using sint_small [of "2 ^ n * 2"] by simp
qed

lemma nanoseconds:
  assumes "0 \<le> c" "c \<le> 60"
  shows "sint (word_of_int c * 1000000000 :: 64 word) = c * 1000000000"
proof -
  have "(word_of_int c * 1000000000 :: 64 word) = word_of_int (c * 1000000000)" by simp
  with assms show ?thesis using sint_small [of "c * 1000000000"] by simp
qed

lemma shifted_out:
  assumes "63 \<le> n"
  shows "push_bit n (1 :: 64 word) * 2 = 0"
proof -
  obtain m where m: "n = 63 + m" using assms le_Suc_ex by blast
  have "push_bit n (1 :: 64 word) * 2 = 2 ^ 64 * 2 ^ m" by (simp add: m push_bit_eq_mult power_add)
  also have "(2 :: 64 word) ^ 64 = 0" by simp
  finally show ?thesis by simp
qed

text \<open>
  The wait after attempt \<open>n\<close> is \<open>2^n * 2\<close> seconds, at most 60, as long as the shift fits in 64 bits; from
  attempt 62 on it has wrapped and there is no wait at all.
\<close>
theorem calculateBackoff_exact:
  "calculateBackoff n = (if n \<le> 61 then min (2 ^ n * 2) 60 * 1000000000 else 0)"
proof (cases "n \<le> 61")
  case True
  have "(if (2 :: int) ^ n * 2 > 60 then 60 else 2 ^ n * 2 :: int) = min (2 ^ n * 2) 60" by (simp add: min_def)
  then show ?thesis
    unfolding calculateBackoff_def Let_def shifted_seconds [OF True]
    using nanoseconds [of "min (2 ^ n * 2) 60"] True by simp
next
  case False
  have "calculateBackoff 62 = 0" by code_simp
  with False shifted_out [of n] show ?thesis by (cases "n = 62") (auto simp: calculateBackoff_def)
qed

section \<open>Every exit releases what the run holds\<close>

lemma release_all_spec:
  "os_effects (release_all agent i st) = os_effects st @ [ReleaseLock i]"
  "agent = Some a \<Longrightarrow> agent_status (os_db (release_all agent i st)) a \<in> {None, Some AgentStatusIdle}"
  by (auto simp: release_all_def add_effect_def Release_def split: option.splits)

text \<open>
  However a run that does not panic ends, by an error of the preparation, sent back, asleep, paused,
  failed or done, the agent it was assigned is idle afterwards and releasing the workspace is the last
  thing it did.
\<close>
theorem run_releases:
  assumes "w_job W st jobID (no_job_update\<lparr>ju_status := Some WorkflowJobStatusRunning\<rparr>) = (Inr job, st1)"
    and "attempt_Create (oe_id (we_orch W)) (oe_now (we_orch W)) st1 (j_task_id job) (j_id job) = (att, st2)"
    and "prepare W st2 job = Some (r, Some a, st3)"
    and "run_job W st jobID = Some st'"
  shows "(\<exists>done. os_effects st' = done @ [ReleaseLock (j_task_id job)]) \<and>
    agent_status (os_db st') a \<in> {None, Some AgentStatusIdle}"
proof -
  obtain x where "st' = release_all (Some a) (j_task_id job) x"
    using assms by (cases r) (auto simp: run_job_def split: option.splits)
  then show ?thesis using release_all_spec [of "Some a"] by auto
qed

text \<open>A run whose clone fails.\<close>

definition no_clone :: worker_env where
  "no_clone = demo_worker\<lparr>we_clone := (\<lambda>st _. (Some ''no remote'', st))\<rparr>"

definition queued_st :: orch_state where
  "queued_st = (orch_of [demo_task ''t'' TaskStatusTodo])
     \<lparr>os_jobs := [new_job ''j'' 0 ''t''], os_db := (demo_db [demo_task ''t'' TaskStatusTodo])\<lparr>db_agents := [(''a'', ''idle'')]\<rparr>\<rparr>"

definition prepared :: "((string + task) \<times> string option \<times> orch_state) option" where
  "prepared =
     (case w_job no_clone queued_st ''j'' (no_job_update\<lparr>ju_status := Some WorkflowJobStatusRunning\<rparr>) of
        (Inl e, st) \<Rightarrow> None
      | (Inr job, st) \<Rightarrow>
          prepare no_clone (snd (attempt_Create (oe_id (we_orch no_clone)) (oe_now (we_orch no_clone)) st
            (j_task_id job) (j_id job))) job)"

theorem run_releases_witness:
  "\<exists>st'. run_job no_clone queued_st ''j'' = Some st' \<and>
     agent_status (os_db st') ''a'' \<in> {None, Some AgentStatusIdle}"
proof -
  have 1: "case prepared of Some (r, Some a, st) \<Rightarrow> a = ''a'' | _ \<Rightarrow> False" by code_simp
  have 2: "run_job no_clone queued_st ''j'' \<noteq> None" by code_simp
  obtain r st1 where u: "w_job no_clone queued_st ''j'' (no_job_update\<lparr>ju_status := Some WorkflowJobStatusRunning\<rparr>) = (r, st1)"
    by fastforce
  with 1 obtain job where job: "r = Inr job" by (cases r) (auto simp: prepared_def)
  obtain att st2 where att: "attempt_Create (oe_id (we_orch no_clone)) (oe_now (we_orch no_clone)) st1
      (j_task_id job) (j_id job) = (att, st2)" by fastforce
  from 1 u job att obtain q st3 where p: "prepare no_clone st2 job = Some (q, Some ''a'', st3)"
    by (auto simp: prepared_def split: option.splits)
  from 2 obtain st' where run: "run_job no_clone queued_st ''j'' = Some st'" by auto
  from run_releases [OF u [unfolded job] att p run] run show ?thesis by blast
qed

end
