(* ===== verification/Review_Loop.thy ===== *)
theory Review_Loop
  imports Worker_Properties Cross_Review
begin

text \<open>
  The worker and the cross review together: what a review that sends the code back leaves behind for
  the next one.
\<close>

section \<open>Checkpoints without a verdict\<close>

definition verdict_free :: "wf_checkpoint \<Rightarrow> bool" where
  "verdict_free cp \<longleftrightarrow>
     cp_step cp = StepCrossReview \<longrightarrow>
     (case state_of cp of None \<Rightarrow> True | Some m \<Rightarrow> state_status m \<noteq> ''success'' \<and> get_key m ''output'' = None)"

definition no_verdict :: "orch_state \<Rightarrow> string \<Rightarrow> bool" where
  "no_verdict st i \<longleftrightarrow> list_all verdict_free (ListCheckpoints st i)"

lemma map_filter_none: "(\<forall>x \<in> set xs. f x = None) \<Longrightarrow> List.map_filter f xs = []"
  by (induction xs) (simp_all add: map_filter_simps)

lemma no_verdict_count: "no_verdict st i \<Longrightarrow> CountSuccessful st i StepCrossReview = 0"
  by (auto simp: no_verdict_def list_all_iff CountSuccessful_def filter_empty_conv succeeded_def verdict_free_def
      split: option.splits)

lemma verdict_free_stored:
  assumes "verdict_free cp" "cp_step cp = StepCrossReview"
  shows "stored_violations cp = None" "stored_verdict cp = None"
  using assms
  by (cases "state_of cp"; simp add: verdict_free_def stored_violations_def review_output_def stored_verdict_def get_key_def)+

lemma no_verdict_violations:
  assumes "no_verdict st i"
  shows "previousReviewViolationsForStep st i StepCrossReview = []"
proof -
  have "\<forall>cp \<in> set (filter (\<lambda>cp. cp_step cp = StepCrossReview) (rev (ListCheckpoints st i))). stored_violations cp = None"
    using assms by (auto simp: no_verdict_def list_all_iff intro: verdict_free_stored(1))
  then show ?thesis by (simp add: previousReviewViolationsForStep_def map_filter_none)
qed

lemma no_verdict_feedback:
  assumes "no_verdict st i"
  shows "crossReviewFeedback int_text st i = ''''"
proof -
  have "\<forall>cp \<in> set (filter (\<lambda>cp. cp_step cp = StepCrossReview) (rev (ListCheckpoints st i))). stored_verdict cp = None"
    using assms by (auto simp: no_verdict_def list_all_iff intro: verdict_free_stored(2))
  then show ?thesis by (simp add: crossReviewFeedback_def map_filter_none)
qed

lemma no_verdict_checkpoints:
  "os_checkpoints st' = os_checkpoints st \<Longrightarrow> no_verdict st' i = no_verdict st i"
  by (simp add: no_verdict_def ListCheckpoints_def)

section \<open>Only a success carries an output\<close>

definition plain_events :: "run_state \<Rightarrow> bool" where
  "plain_events st \<longleftrightarrow> (\<forall>ev \<in> set (rs_events st). ev_status ev \<noteq> Success \<longrightarrow> ev_output ev = None)"

lemma emit_plain:
  "emit e ev st = (st', r) \<Longrightarrow> plain_events st \<Longrightarrow> ev_status ev \<noteq> Success \<longrightarrow> ev_output ev = None \<Longrightarrow> plain_events st'"
  by (auto simp: emit_def plain_events_def)

lemma plain_updates [simp]:
  "plain_events (mark_running s st) = plain_events st" "plain_events (spawn s st) = plain_events st"
  "plain_events (record_failure s err st) = plain_events st" "plain_events (record_success s out st) = plain_events st"
  by (simp_all add: plain_events_def mark_running_def spawn_def record_failure_def record_success_def)

lemma start_one_plain:
  "start_one e paused s st = (st', r) \<Longrightarrow> plain_events st \<Longrightarrow> plain_events st'"
  by (auto simp: start_one_def running_event_def split: if_splits prod.splits option.splits dest: emit_plain)

lemma start_round_plain:
  "start_round e paused ss st = (st', r) \<Longrightarrow> plain_events st \<Longrightarrow> plain_events st'"
proof (induction ss arbitrary: st)
  case (Cons s ss)
  obtain st1 r1 where one: "start_one e paused s st = (st1, r1)" by fastforce
  with Cons start_one_plain [OF one] show ?case by (cases r1) auto
qed simp

lemma collect_plain:
  "collect e items st failed = (st', r) \<Longrightarrow> plain_events st \<Longrightarrow> plain_events st'"
proof (induction e items st failed rule: collect.induct)
  case (2 e s err items st failed)
  have "plain_events (fst (emit e (failure_event s (failure_status err) err) (record_failure s err st)))"
    by (rule emit_plain [OF prod.collapse [symmetric]]) (simp_all add: 2 failure_event_def)
  with 2 show ?case by simp
next
  case (3 e s out items st failed)
  obtain st0 er where em: "emit e (success_event s out) (record_success s out st) = (st0, er)" by fastforce
  from emit_plain [OF em] 3(3) have p: "plain_events st0" by (simp add: success_event_def)
  show ?case
  proof (cases er)
    case None
    with em 3(2) have "collect e items st0 failed = (st', r)" by simp
    from 3(1) [OF em [symmetric] None this p] show ?thesis .
  next
    case (Some err)
    with em 3(2) p show ?thesis by auto
  qed
qed simp

lemma run_round_plain:
  "run_round e def initial paused arrive n ready st = (st', r) \<Longrightarrow> plain_events st \<Longrightarrow> plain_events st'"
  by (auto simp: run_round_def split: prod.splits option.splits dest!: start_round_plain collect_plain)

lemma run_loop_plain:
  "run_loop e def initial paused arrive n st = (st', r) \<Longrightarrow> plain_events st \<Longrightarrow> plain_events st'"
proof (induction e def initial paused arrive n st rule: run_loop.induct)
  case (1 e def initial paused arrive n st)
  show ?case
  proof (cases "take (round_limit e) (readySteps (wf_steps def) (rs_status st))")
    case Nil
    with 1(2,3) show ?thesis by (simp add: run_loop.simps [of e def initial paused arrive n st] finish_def)
  next
    case (Cons s ss)
    obtain st1 r1 where rnd: "run_round e def initial paused arrive n (s # ss) st = (st1, r1)" by fastforce
    note p = run_round_plain [OF rnd 1(3)]
    show ?thesis
    proof (cases r1)
      case None
      with Cons rnd 1(2) have "run_loop e def initial paused arrive (Suc n) st1 = (st', r)"
        by (simp add: run_loop.simps [of e def initial paused arrive n st])
      from 1(1) [OF Cons rnd [symmetric] None this p] show ?thesis .
    next
      case (Some err)
      with Cons rnd 1(2) p show ?thesis by (simp add: run_loop.simps [of e def initial paused arrive n st])
    qed
  qed
qed

lemma runInternal_plain: "runInternal e ord arrive def initial paused = (st', r) \<Longrightarrow> plain_events st'"
  using run_loop_plain [of e def initial paused arrive 0 "seed e def"]
  by (auto simp: runInternal_def plain_events_def seed_def empty_result_def split: option.splits)

section \<open>Attempts in which the review does not succeed\<close>

text \<open>A world that writes no verdict: only the handler writes checkpoints of the review step.\<close>

definition writes_no_verdict :: "worker_env \<Rightarrow> bool" where
  "writes_no_verdict W \<longleftrightarrow>
     (\<forall>n k st t i. no_verdict st i \<longrightarrow> no_verdict (fst (we_world W n k (st, t))) i)"

definition unsettled :: "wf_event \<Rightarrow> bool" where
  "unsettled ev \<longleftrightarrow> (ev_step ev = StepCrossReview \<longrightarrow> ev_status ev \<noteq> Success \<and> ev_output ev = None)"

lemma unsettled_checkpoint:
  assumes "unsettled ev"
  shows "verdict_free (event_checkpoint W C n t ev)"
proof (cases "ev_step ev = StepCrossReview")
  case True
  with assms have "ev_status ev \<noteq> Success" "ev_output ev = None" by (simp_all add: unsettled_def)
  moreover have "git_commit W n ev = None" using True by (simp add: git_commit_def is_code_step_def has_prefix_def)
  ultimately have "get_key (event_state W n t ev) ''output'' = None"
    by (simp add: event_state_def get_key_def opt_field_def commit_fields_def)
  moreover have "status_string (ev_status ev) \<noteq> ''success''"
    using \<open>ev_status ev \<noteq> Success\<close> status_string_inj [of "ev_status ev" Success] by simp
  ultimately show ?thesis by (simp add: verdict_free_def event_checkpoint_status)
next
  case False
  then show ?thesis by (simp add: verdict_free_def event_checkpoint_def)
qed

lemma handle_event_verdict:
  assumes "writes_no_verdict W" "no_verdict (ws_st ws) i" "unsettled ev"
  shows "no_verdict (ws_st (snd (handle_event W C n k ev ws))) i"
proof -
  have "no_verdict (ws_st (world_moves W n k ws)) i"
    using assms(1,2) by (auto simp: writes_no_verdict_def world_moves_def split: prod.splits) (metis fst_conv)
  with unsettled_checkpoint [OF assms(3)] show ?thesis
    by (auto simp: no_verdict_def ListCheckpoints_def handle_event_checkpoints)
qed

lemma replay_verdict:
  "writes_no_verdict W \<Longrightarrow> no_verdict (ws_st ws) i \<Longrightarrow> \<forall>ev \<in> set evs. unsettled ev \<Longrightarrow>
   no_verdict (ws_st (replay W C n k evs ws)) i"
  by (induction evs arbitrary: k ws) (simp_all add: handle_event_verdict)

lemma after_engine_verdict:
  assumes "writes_no_verdict W" "no_verdict (ws_st ws) i" "\<forall>ev \<in> set (rs_events rs). unsettled ev"
  shows "no_verdict (ws_st (after_engine W C n rs ws)) i"
  using replay_verdict [OF assms, of C n 0] assms(1)
  by (auto simp: after_engine_def writes_no_verdict_def world_moves_def split: prod.splits) (metis fst_conv)

text \<open>
  Attempts of any runs, none of which reports the review as succeeded; and whatever happens between
  them, as long as it writes no checkpoint of the review step.
\<close>

definition no_new_review :: "orch_state \<Rightarrow> orch_state \<Rightarrow> bool" where
  "no_new_review st st' \<longleftrightarrow>
     (\<forall>cp \<in> set (os_checkpoints st'). cp \<in> set (os_checkpoints st) \<or> cp_step cp \<noteq> StepCrossReview)"

inductive review_round :: "worker_env \<Rightarrow> orch_state \<Rightarrow> orch_state \<Rightarrow> bool" for W where
  attempt: "run_engine W C n d prev ws = (rs, err) \<Longrightarrow>
    \<forall>ev \<in> set (rs_events rs). ev_step ev = StepCrossReview \<longrightarrow> ev_status ev \<noteq> Success \<Longrightarrow>
    review_round W (ws_st ws) (ws_st (after_engine W C n rs ws))"
| between: "no_new_review st st' \<Longrightarrow> review_round W st st'"

inductive_cases review_roundE: "review_round W st st'"

lemma no_new_review_verdict: "no_new_review st st' \<Longrightarrow> no_verdict st i \<Longrightarrow> no_verdict st' i"
  by (auto simp: no_new_review_def no_verdict_def ListCheckpoints_def list_all_iff verdict_free_def)

lemma no_new_review_same: "os_checkpoints st' = os_checkpoints st \<Longrightarrow> no_new_review st st'"
  by (simp add: no_new_review_def)

lemma no_new_review_trans: "no_new_review st st1 \<Longrightarrow> no_new_review st1 st2 \<Longrightarrow> no_new_review st st2"
  by (auto simp: no_new_review_def)

lemma no_new_review_checkpoint: "step \<noteq> StepCrossReview \<Longrightarrow> no_new_review st (w_checkpoint i j step m st)"
  by (auto simp: no_new_review_def w_checkpoint_def CreateCheckpoint_def)

text \<open>The preparation of a run is such a change, when the clone and the status write are.\<close>

lemma no_new_review_frames [simp]:
  "no_new_review s (x\<lparr>os_db := d\<rparr>) = no_new_review s x" "no_new_review s (w_log W i x) = no_new_review s x"
  "no_new_review s s"
  by (simp_all add: no_new_review_def)

lemma prepare_no_review:
  assumes "prepare W st job = Some (r, a, st')"
    and clone: "\<And>s t e s'. we_clone W s t = (e, s') \<Longrightarrow> no_new_review s s'"
    and update: "\<And>s i u r s'. we_update W s i u = Some (r, s') \<Longrightarrow> no_new_review s s'"
  shows "no_new_review st st'"
proof -
  have job: "w_job W s i u = (e, s') \<Longrightarrow> no_new_review st s \<Longrightarrow> no_new_review st s'" for s i u e s'
    using w_job_checkpoints [of W s i u] by (simp add: no_new_review_def)
  have task: "write_task s i u = (e, s') \<Longrightarrow> no_new_review st s \<Longrightarrow> no_new_review st s'" for s i u e s'
    by (auto simp: write_task_def split: sum.splits prod.splits)
  have cl: "we_clone W s t = (e, s') \<Longrightarrow> no_new_review st s \<Longrightarrow> no_new_review st s'" for s t e s'
    using clone no_new_review_trans by blast
  have upd: "we_update W s i u = Some (r, s') \<Longrightarrow> no_new_review st s \<Longrightarrow> no_new_review st s'" for s i u r s'
    using update no_new_review_trans by blast
  have start: "start_task (we_update W) s t = Some (e, s') \<Longrightarrow> no_new_review st s \<Longrightarrow> no_new_review st s'" for s t e s'
    by (auto simp: start_task_def split: if_splits option.splits sum.splits dest: upd)
  have cp: "no_new_review st s \<Longrightarrow> no_new_review st (w_checkpoint i j ''assign'' m s)"
    "no_new_review st s \<Longrightarrow> no_new_review st (w_checkpoint i j ''agent_confidence'' m s)" for s i j m
    by (rule no_new_review_trans, assumption, rule no_new_review_checkpoint, simp)+
  show ?thesis
    using assms(1)
    by (auto simp: prepare_def Let_def intro!: cp split: sum.splits prod.splits option.splits)
       (auto dest!: job task cl start simp: cp)
qed

lemma review_round_verdict:
  assumes "review_round W st st'" "writes_no_verdict W" "no_verdict st i"
  shows "no_verdict st' i"
  using assms(1)
proof (cases rule: review_round.cases)
  case (attempt C n d prev ws rs err)
  have "plain_events rs" using attempt(3) unfolding run_engine_internal by (rule runInternal_plain)
  with attempt(4) have events: "\<forall>ev \<in> set (rs_events rs). unsettled ev"
    by (auto simp: plain_events_def unsettled_def)
  have "no_verdict (ws_st ws) i" using assms(3) unfolding attempt(1) .
  then show ?thesis unfolding attempt(2) by (rule after_engine_verdict [OF assms(2) _ events])
next
  case between
  from no_new_review_verdict [OF this assms(3)] show ?thesis .
qed

lemma review_rounds_verdict:
  assumes "(review_round W)\<^sup>*\<^sup>* st st'" "writes_no_verdict W" "no_verdict st i"
  shows "no_verdict st' i"
  using assms(1)
proof (induction rule: rtranclp_induct)
  case base
  show ?case by (rule assms(3))
next
  case (step y z)
  show ?case by (rule review_round_verdict [OF step(2) assms(2) step(3)])
qed

section \<open>The review loop has no end\<close>

lemma review_logs_checkpoints [simp]: "os_checkpoints (review_logs env i n st) = os_checkpoints st"
  unfolding review_logs_def by (induction n) simp_all

definition positive_limits :: "review_env \<Rightarrow> bool" where
  "positive_limits env \<longleftrightarrow> (\<forall>p k. MaxReviewFixCyclesOverride (xe_config env p) = Some k \<longrightarrow> k > 0)"

lemma review_max_cycles_positive: "positive_limits env \<Longrightarrow> review_max_cycles env st t > 0"
  by (cases "get_project (os_db st) (t_project_id t)")
     (auto simp: review_max_cycles_def positive_limits_def Let_def or_zero_def split: option.splits)

lemma nothing_repeats: "\<not> hasRepeatViolation [] cur"
  by (simp add: hasRepeatViolation_def list_ex_iff)

lemma judge_sends_back:
  assumes "no_verdict st (t_id t)" "positive_limits env" "verdict_fails (rv_spec v) \<or> verdict_fails (rv_quality v)"
  shows "judge env st t 0 out (Some v) = set_review_status env st t TaskStatusCoding (Inl ErrCrossReviewFixLoop)"
proof -
  have "\<not> review_max_cycles env st t \<le> 0" using review_max_cycles_positive [OF assms(2), of st t] by simp
  with assms(3) show ?thesis
    by (simp add: judge_def Let_def no_verdict_violations [OF assms(1)] nothing_repeats)
qed

text \<open>A write that the table allows and no guardrail stops.\<close>

lemma allowed_write:
  assumes "get_task (os_db st) i = Inr row" and "ValidateTaskTransition (t_status row) s = None"
    and "guard_reason now (os_db st) row s = ''''"
  shows "\<exists>row' st'. write_status now st i s = (Inr row', st') \<and> get_task (os_db st') i = Inr row' \<and> t_status row' = s"
proof -
  have f: "find_row (db_tasks (os_db st)) i = Some row" using assms(1) by (simp add: get_task_Inr)
  from write_status_cases [OF f, of now s] assms(2,3)
  obtain row' where r: "fst (write_status now st i s) = Inr row'" "t_status row' = s"
      "find_row (db_tasks (os_db (snd (write_status now st i s)))) i = Some row'"
    by (auto simp: Let_def apply_update_def)
  then have "write_status now st i s = (Inr row', snd (write_status now st i s))" by (simp add: prod_eq_iff)
  with r show ?thesis by (auto simp: get_task_Inr)
qed

text \<open>
  C6: The limit of review cycles is never reached. However many attempts of however many runs of a task
  have ended with a failing review, the next failing review by another harness sends the code back once
  more: the task goes back to coding and the worker queues the job for the implementation. The cycles are
  counted and the violations compared on successful reviews only, and a review that sends the code
  back is reported as failed and without its verdict; so the implementation that follows gets no
  feedback either. Only a configured limit of zero or less, a status from which the table does not allow
  coding, or a guardrail can stop the loop, and these are excluded.
\<close>
theorem review_loop_unbounded:
  assumes "(review_round W)\<^sup>*\<^sup>* st0 st" and "writes_no_verdict W" and "no_verdict st0 (t_id t)"
    and "positive_limits env" and "xe_update env = updateTaskStatus (Suc k) oenv"
    and "\<And>same. runner same = Reviewed (Some file) reviewer coder" and "reviewer \<noteq> coder"
    and "Option.bind (review_parsed env (Some file)) ParseReviewVerdict = Some v"
    and "verdict_fails (rv_spec v) \<or> verdict_fails (rv_quality v)"
    and "get_task (os_db st) (t_id t) = Inr row" and "ValidateTaskTransition (t_status row) TaskStatusCoding = None"
    and "guard_reason (oe_now oenv) (os_db st) row TaskStatusCoding = ''''"
  shows "(\<exists>st' row'. cross_Execute env runner st t = Some (Inl ErrCrossReviewFixLoop, st') \<and>
            get_task (os_db st') (t_id t) = Inr row' \<and> t_status row' = TaskStatusCoding) \<and>
    judge_attempt W n m (Some (StepError ErrCrossReviewFixLoop)) = SendBack (Some StepCLIImplement) \<and>
    crossReviewFeedback int_text st (t_id t) = ''''"
proof (intro conjI)
  have nv: "no_verdict st (t_id t)" by (rule review_rounds_verdict [OF assms(1,2,3)])
  have "review_parsed env (Some file) \<noteq> None" using assms(8) by (cases "review_parsed env (Some file)") simp_all
  with assms(7) have "cross_Execute env runner st t =
      judge env st t 0 (base_output (review_policy env st t = ''same'') (review_parsed env (Some file)) reviewer coder) (Some v)"
    by (auto simp: cross_Execute_def Let_def assms(6,8) no_verdict_count [OF nv] review_logs_def)
  also have "\<dots> = set_review_status env st t TaskStatusCoding (Inl ErrCrossReviewFixLoop)"
    by (rule judge_sends_back [OF nv assms(4,9)])
  finally have step: "cross_Execute env runner st t = \<dots>" .
  obtain row' st' where "write_status (oe_now oenv) st (t_id t) TaskStatusCoding = (Inr row', st')"
    "get_task (os_db st') (t_id t) = Inr row'" "t_status row' = TaskStatusCoding"
    using allowed_write [OF assms(10,11,12)] by blast
  with step show "\<exists>st' row'. cross_Execute env runner st t = Some (Inl ErrCrossReviewFixLoop, st') \<and>
      get_task (os_db st') (t_id t) = Inr row' \<and> t_status row' = TaskStatusCoding"
    by (simp add: set_review_status_def assms(5) nonterminal_write_eq terminal_status_def del: updateTaskStatus.simps)
  show "judge_attempt W n m (Some (StepError ErrCrossReviewFixLoop)) = SendBack (Some StepCLIImplement)"
    by (simp add: judge_attempt_def cause_def)
  show "crossReviewFeedback int_text st (t_id t) = ''''" by (rule no_verdict_feedback [OF nv])
qed

section \<open>A loop to try it on\<close>

definition failing_verdict :: review_verdict where
  "failing_verdict =
     \<lparr>rv_spec = ''fail'', rv_violations = [\<lparr>sv_requirement = ''sort the list'', sv_observed = ''unsorted'', sv_severity = ''''\<rparr>],
      rv_quality = ''pass'', rv_issues = [], rv_summary = ''''\<rparr>"

definition demo_review :: review_env where
  "demo_review =
     \<lparr>xe_update = updateTaskStatus 1 silent_env, xe_orch = silent_env, xe_config = (\<lambda>_. None),
      xe_parse = (\<lambda>_. Some (verdictAsMap failing_verdict))\<rparr>"

text \<open>Runners of which only the review fails: it asks for a fix.\<close>

definition fixing_runners :: runner_map where
  "fixing_runners s =
     (if s = StepCrossReview then Some (\<lambda>_. Inl ErrCrossReviewFixLoop) else Some (\<lambda>_. Inr None))"

definition fixing_worker :: worker_env where
  "fixing_worker = demo_worker\<lparr>we_runners := (\<lambda>_ _. fixing_runners)\<rparr>"

definition implemented :: step_outputs where
  "implemented s = (if s \<in> {StepCrossReview, StepCLIMR} then None else Some [])"

definition fix_run :: "worker_state \<Rightarrow> run_state \<times> engine_err option" where
  "fix_run ws = run_engine fixing_worker demo_ctx 1 implemented (None, None) ws"

definition after_fix :: "worker_state \<Rightarrow> worker_state" where
  "after_fix ws = after_engine fixing_worker demo_ctx 1 (fst (fix_run ws)) ws"

text \<open>Two runs that end with a failing review, the second with the checkpoint of its preparation.\<close>

definition next_run :: "worker_state \<Rightarrow> worker_state" where
  "next_run ws = ws\<lparr>ws_st := w_checkpoint ''t'' ''j'' ''assign'' [(''status'', VString ''running'')] (ws_st ws)\<rparr>"

definition coding_ws :: worker_state where
  "coding_ws = demo_ws\<lparr>ws_st := (ws_st demo_ws)\<lparr>os_db := demo_db [demo_task ''t'' TaskStatusCoding]\<rparr>\<rparr>"

definition reviewed_twice :: orch_state where
  "reviewed_twice = ws_st (after_fix (next_run (after_fix (next_run coding_ws))))"

lemma fix_run_round:
  assumes "map (\<lambda>ev. (ev_step ev, ev_status ev)) (rs_events (fst (fix_run ws))) =
      [(StepCrossReview, Running), (StepCrossReview, Failed)]"
  shows "review_round fixing_worker (ws_st ws) (ws_st (after_fix ws))"
  unfolding after_fix_def
proof (rule review_round.attempt)
  show "run_engine fixing_worker demo_ctx 1 implemented (None, None) ws = (fst (fix_run ws), snd (fix_run ws))"
    by (simp add: fix_run_def)
  show "\<forall>ev \<in> set (rs_events (fst (fix_run ws))). ev_step ev = StepCrossReview \<longrightarrow> ev_status ev \<noteq> Success"
    using assms by (auto simp: map_eq_Cons_conv)
qed

lemma next_run_round: "review_round W (ws_st ws) (ws_st (next_run ws))"
  unfolding next_run_def by (simp add: review_round.between no_new_review_checkpoint)

lemma fix_run_events:
  "map (\<lambda>ev. (ev_step ev, ev_status ev)) (rs_events (fst (fix_run (next_run coding_ws)))) =
     [(StepCrossReview, Running), (StepCrossReview, Failed)]"
  "map (\<lambda>ev. (ev_step ev, ev_status ev)) (rs_events (fst (fix_run (next_run (after_fix (next_run coding_ws)))))) =
     [(StepCrossReview, Running), (StepCrossReview, Failed)]"
  by code_simp+

lemma two_rounds: "(review_round fixing_worker)\<^sup>*\<^sup>* (ws_st coding_ws) reviewed_twice"
proof -
  let ?W = fixing_worker and ?ws1 = "next_run coding_ws"
  let ?ws2 = "next_run (after_fix ?ws1)"
  have "review_round ?W (ws_st coding_ws) (ws_st ?ws1)" "review_round ?W (ws_st (after_fix ?ws1)) (ws_st ?ws2)"
    by (rule next_run_round)+
  moreover have "review_round ?W (ws_st ?ws1) (ws_st (after_fix ?ws1))" by (rule fix_run_round [OF fix_run_events(1)])
  moreover have "review_round ?W (ws_st ?ws2) reviewed_twice"
    unfolding reviewed_twice_def by (rule fix_run_round [OF fix_run_events(2)])
  ultimately show ?thesis by (meson rtranclp.rtrancl_into_rtrancl r_into_rtranclp)
qed

theorem review_loop_unbounded_witness:
  "\<exists>st'. cross_Execute demo_review (\<lambda>_. Reviewed (Some ''{}'') ''codex'' ''claude'') reviewed_twice
      (demo_task ''t'' TaskStatusCoding) = Some (Inl ErrCrossReviewFixLoop, st')"
proof -
  let ?t = "demo_task ''t'' TaskStatusCoding"
  have w: "writes_no_verdict fixing_worker"
    by (simp add: fixing_worker_def demo_worker_def writes_no_verdict_def)
  have nv: "no_verdict (ws_st coding_ws) (t_id ?t)" by code_simp
  have lim: "positive_limits demo_review"
    by (simp add: positive_limits_def demo_review_def MaxReviewFixCyclesOverride_def)
  have upd: "xe_update demo_review = updateTaskStatus (Suc 0) silent_env" by (simp add: demo_review_def)
  have v: "Option.bind (review_parsed demo_review (Some ''{}'')) ParseReviewVerdict = Some failing_verdict"
    by code_simp
  have f: "verdict_fails (rv_spec failing_verdict) \<or> verdict_fails (rv_quality failing_verdict)" by code_simp
  have row: "map_sum id t_status (get_task (os_db reviewed_twice) (t_id ?t)) = Inr TaskStatusCoding"
    "map_sum id (\<lambda>r. guard_reason (oe_now silent_env) (os_db reviewed_twice) r TaskStatusCoding)
       (get_task (os_db reviewed_twice) (t_id ?t)) = Inr ''''"
    by code_simp+
  then obtain r where r: "get_task (os_db reviewed_twice) (t_id ?t) = Inr r" "t_status r = TaskStatusCoding"
    "guard_reason (oe_now silent_env) (os_db reviewed_twice) r TaskStatusCoding = ''''"
    by (cases "get_task (os_db reviewed_twice) (t_id ?t)") auto
  have tr: "ValidateTaskTransition (t_status r) TaskStatusCoding = None" unfolding r(2) by code_simp
  have ne: "''codex'' \<noteq> ''claude''" by simp
  from review_loop_unbounded [OF two_rounds w nv lim upd _ ne v f r(1) tr r(3),
      where runner = "\<lambda>_. Reviewed (Some ''{}'') ''codex'' ''claude''"]
  show ?thesis by blast
qed

end
