(* ===== verification/CLI_Runner.thy ===== *)
theory CLI_Runner
  imports Execution_Router Checkpoint_Store
begin

text \<open>
  The runner of the CLI steps (\<^verbatim>\<open>orchestrator/cli_spec_step.go\<close>, with the helpers of
  \<^verbatim>\<open>orchestrator/cli_engine_step.go\<close>): one per run of a job, shared by its steps. It picks the harness
  through the execution router, checks it once per candidate, runs the step and writes back what the
  run showed of the credential. The engine that runs the process, the paths of the checkout and the list
  of changed files are parameters; the copying of specification files between host directories is not
  modelled.
\<close>

section \<open>Requests, results and state\<close>

record code_step_request =
  rq_task :: task
  rq_step_id :: string
  rq_job_id :: string
  rq_instruction :: string
  rq_work_dir :: string
  rq_network :: string
  rq_config :: cli_engine_config
  rq_capture :: "string list"
  rq_context :: "(string \<times> string) list"
  rq_org :: string
  rq_resume :: string
  rq_timeout :: int

record code_step_result =
  cr_success :: bool
  cr_output :: string
  cr_error :: string
  cr_exit_code :: int
  cr_command :: string
  cr_loop_killed :: bool
  cr_idle_timeout :: bool
  cr_quota_exceeded :: bool
  cr_quota_cooldown :: int
  cr_auth_invalid :: bool
  cr_auth_confirmed :: bool
  cr_awaiting :: bool
  cr_files :: "(string \<times> string) list"
  cr_telemetry :: "(rat \<times> int \<times> int) option"
  cr_session :: string

record cli_step_output =
  co_output :: string
  co_files :: "(string \<times> string) list"
  co_awaiting :: bool
  co_changed :: "string list"

datatype cli_error =
    ProjectsUnavailable
  | ProjectRead repo_error
  | RouterFailed router_error
  | NoDistinctCLIHarness
  | RepoPathError string
  | PreflightFailed string
  | RunFailed string
  | ConfigInvalid string
  | StepFailedWith string

text \<open>The fields of the runner: the cached check with its candidate, and what the last choice was.\<close>

record cli_runner =
  lr_preflight :: "(string \<times> string option) option"
  lr_cred_id :: string
  lr_candidate :: string
  lr_coder :: string

definition newCLIStepRunner :: cli_runner where
  "newCLIStepRunner = \<lparr>lr_preflight = None, lr_cred_id = '''', lr_candidate = '''', lr_coder = ''''\<rparr>"

record cli_state =
  ls_creds :: cred_state
  ls_orch :: orch_state
  ls_arts :: "wf_artifact list"
  ls_runner :: cli_runner

record cli_env =
  le_router :: router_env
  le_sort :: "execution_provider_config list \<Rightarrow> execution_provider_config list"
  le_orch :: orch_env
  le_has_projects :: bool
  le_no_network :: bool
  le_repo_path :: "task \<Rightarrow> string + string"
  le_worktree :: "string \<Rightarrow> string \<Rightarrow> string"
  le_container :: "string \<Rightarrow> string"
  le_preflight :: "code_step_request \<Rightarrow> string \<times> string option"
  le_run :: "code_step_request \<Rightarrow> string + code_step_result"
  le_changed :: "task \<Rightarrow> string \<Rightarrow> string list option"

definition cli_log :: "cli_env \<Rightarrow> string \<Rightarrow> cli_state \<Rightarrow> cli_state" where
  "cli_log env taskID s = s\<lparr>ls_orch := o_log (le_orch env) taskID (ls_orch s)\<rparr>"

definition worktreeSuffixForRole :: "string \<Rightarrow> string" where
  "worktreeSuffixForRole role =
     (if role = ''backend'' then ''-be-worktree'' else if role = ''frontend'' then ''-fe-worktree'' else '''')"

definition lastN :: "string \<Rightarrow> nat \<Rightarrow> string" where
  "lastN s n = (if length s \<le> n then s else drop (length s - n) s)"

section \<open>The choice of the harness\<close>

text \<open>Only a choice without an excluded profile is remembered as the coder.\<close>

definition resolve_provider ::
  "cli_env \<Rightarrow> project \<Rightarrow> string \<Rightarrow> cred_state \<Rightarrow> (router_error + resolved_provider) \<times> cred_state" where
  "resolve_provider env p excludeRef creds =
     (if excludeRef \<noteq> ''''
      then ResolveReviewProvider (le_sort env) (le_router env) (oe_now (le_orch env)) p excludeRef creds
      else resolveExecutionProvider (le_sort env) (le_router env) (oe_now (le_orch env)) p '''' creds)"

definition note_provider :: "string \<Rightarrow> resolved_provider \<Rightarrow> cli_runner \<Rightarrow> cli_runner" where
  "note_provider excludeRef r lr =
     lr\<lparr>lr_cred_id := rp_CredentialID r,
        lr_coder := (if excludeRef = '''' then rp_Ref r else lr_coder lr),
        lr_candidate := rp_Ref r @ ''|'' @ rp_CredentialID r\<rparr>"

definition resolveConfig ::
  "cli_env \<Rightarrow> task \<Rightarrow> string \<Rightarrow> cli_state \<Rightarrow> (cli_error + resolved_provider \<times> string) \<times> cli_state" where
  "resolveConfig env t excludeRef s =
     (if \<not> le_has_projects env then (Inl ProjectsUnavailable, s)
      else (case get_project (os_db (ls_orch s)) (t_project_id t) of
              Inl e \<Rightarrow> (Inl (ProjectRead e), s)
            | Inr p \<Rightarrow>
                (case resolve_provider env p excludeRef (ls_creds s) of
                   (Inl NoDistinctHarness, creds) \<Rightarrow> (Inl NoDistinctCLIHarness, s\<lparr>ls_creds := creds\<rparr>)
                 | (Inl e, creds) \<Rightarrow> (Inl (RouterFailed e), s\<lparr>ls_creds := creds\<rparr>)
                 | (Inr r, creds) \<Rightarrow>
                     (Inr (r, p_org_id p),
                      cli_log env (t_id t)
                        (s\<lparr>ls_creds := creds, ls_runner := note_provider excludeRef r (ls_runner s)\<rparr>)))))"

section \<open>The check before a run\<close>

definition cached_check :: "cli_runner \<Rightarrow> string option option" where
  "cached_check lr =
     (case lr_preflight lr of
        Some (key, e) \<Rightarrow> if key = lr_candidate lr then Some e else None
      | None \<Rightarrow> None)"

definition preflight_once :: "cli_env \<Rightarrow> code_step_request \<Rightarrow> cli_state \<Rightarrow> string option \<times> cli_state" where
  "preflight_once env req s =
     (case cached_check (ls_runner s) of
        Some e \<Rightarrow> (e, s)
      | None \<Rightarrow>
          (case le_preflight env req of
             (warning, e) \<Rightarrow>
               (let s1 = s\<lparr>ls_runner := (ls_runner s)\<lparr>lr_preflight := Some (lr_candidate (ls_runner s), e)\<rparr>\<rparr>
                in (e, if warning \<noteq> '''' then cli_log env (t_id (rq_task req)) s1 else s1))))"

section \<open>What a run leaves behind\<close>

definition buildCLIPromptArtifact :: "string \<Rightarrow> string \<Rightarrow> (string \<times> string) list \<Rightarrow> string" where
  "buildCLIPromptArtifact command instruction contextFiles =
     ''=== Command ==='' @ NL @ command @ NL @ NL @ ''=== Instruction (prompt.md) ==='' @ NL @ instruction @
     concat (map (\<lambda>p. NL @ NL @ ''=== Context File: '' @ p @ '' ==='' @ NL @ or_zero '''' (map_of contextFiles p))
       (sorted_names (map fst contextFiles)))"

definition artifact_body :: "code_step_result \<Rightarrow> string" where
  "artifact_body res =
     (if cr_output res = '''' then
        ''(cli produced no stdout/stderr; exit_code='' @ itoa (cr_exit_code res) @ '')'' @ NL @ ''command: '' @ cr_command res
      else cr_output res)"

text \<open>Errors of the write-backs are ignored. A suspected failure of the login is only logged.\<close>

definition write_back_credential :: "cli_env \<Rightarrow> string \<Rightarrow> code_step_result \<Rightarrow> cli_state \<Rightarrow> cli_state" where
  "write_back_credential env taskID res s =
     (let i = lr_cred_id (ls_runner s); now = oe_now (le_orch env);
          cd = (if cr_quota_cooldown res > 0 then cr_quota_cooldown res else 300000000000);
          creds1 = (if cr_quota_exceeded res \<and> i \<noteq> ''''
                    then (case SetCooldown now i '''' (now + cd) (ls_creds s) of Inl _ \<Rightarrow> ls_creds s | Inr c \<Rightarrow> c)
                    else ls_creds s)
      in if cr_auth_confirmed res \<and> i \<noteq> ''''
         then s\<lparr>ls_creds := (case MarkNeedsReauth creds1 i of Inl _ \<Rightarrow> creds1 | Inr c \<Rightarrow> c)\<rparr>
         else if cr_auth_invalid res then cli_log env taskID (s\<lparr>ls_creds := creds1\<rparr>)
         else s\<lparr>ls_creds := creds1\<rparr>)"

definition resumable :: "code_step_result \<Rightarrow> bool" where
  "resumable res \<longleftrightarrow> cr_session res \<noteq> '''' \<and> (cr_idle_timeout res \<or> cr_loop_killed res)"

definition save_run ::
  "string \<Rightarrow> string \<Rightarrow> string \<Rightarrow> string \<Rightarrow> (string \<times> string) list \<Rightarrow> code_step_result \<Rightarrow> wf_artifact list \<Rightarrow>
   wf_artifact list" where
  "save_run jobID taskID stepID instruction contextFiles res arts =
     (let a1 = SaveArtifact arts jobID taskID stepID ''cli_output'' (VString (artifact_body res));
          a2 = SaveArtifact a1 jobID taskID stepID ''cli_prompt''
                 (VString (buildCLIPromptArtifact (cr_command res) instruction contextFiles))
      in if resumable res then SaveArtifact a2 jobID taskID stepID ''cli_session_id'' (VString (cr_session res))
         else a2)"

definition save_telemetry :: "cli_env \<Rightarrow> string \<Rightarrow> code_step_result \<Rightarrow> cli_state \<Rightarrow> cli_state" where
  "save_telemetry env jobID res s =
     (case cr_telemetry res of
        None \<Rightarrow> s
      | Some (cost, duration, tokens) \<Rightarrow>
          s\<lparr>ls_orch := AccumulateJobTelemetry (oe_now (le_orch env)) (ls_orch s) jobID cost duration tokens\<rparr>)"

text \<open>\<^verbatim>\<open>finishCLIRun\<close>, the same write-back for the older coding steps: without telemetry and context files.\<close>

definition finishCLIRun ::
  "cli_env \<Rightarrow> string \<Rightarrow> string \<Rightarrow> string \<Rightarrow> string \<Rightarrow> string \<Rightarrow> code_step_result \<Rightarrow> cli_state \<Rightarrow> cli_state" where
  "finishCLIRun env taskID jobID stepID credID instruction res s =
     (let s0 = s\<lparr>ls_runner := (ls_runner s)\<lparr>lr_cred_id := credID\<rparr>\<rparr>;
          s1 = cli_log env taskID (write_back_credential env taskID res s0)
      in s1\<lparr>ls_arts := save_run jobID taskID stepID instruction [] res (ls_arts s1), ls_runner := ls_runner s\<rparr>)"

section \<open>Running a step\<close>

definition step_request ::
  "cli_env \<Rightarrow> task \<Rightarrow> string \<Rightarrow> string \<Rightarrow> string \<Rightarrow> string list \<Rightarrow> (string \<times> string) list \<Rightarrow> string \<Rightarrow> string option \<Rightarrow>
   string \<Rightarrow> resolved_provider \<Rightarrow> string \<Rightarrow> code_step_request" where
  "step_request env t jobID stepID instruction capture contextFiles worktreeSuffix session repoPath r org =
     \<lparr>rq_task = t, rq_step_id = stepID, rq_job_id = jobID, rq_instruction = instruction,
      rq_work_dir = le_container env
        (if worktreeSuffix \<noteq> '''' then le_worktree env repoPath worktreeSuffix else repoPath),
      rq_network = (if le_no_network env then ''none'' else ''bridge''),
      rq_config = rp_CLIConfig r, rq_capture = capture, rq_context = contextFiles, rq_org = org,
      rq_resume = or_zero '''' session,
      rq_timeout = (if cli_timeout_minutes (rp_CLIConfig r) > 0
                    then cli_timeout_minutes (rp_CLIConfig r) * 60000000000 else 0)\<rparr>"

definition step_outcome ::
  "cli_env \<Rightarrow> task \<Rightarrow> string \<Rightarrow> code_step_result \<Rightarrow> cli_error + cli_step_output" where
  "step_outcome env t worktreeSuffix res =
     (let out = \<lparr>co_output = cr_output res, co_files = cr_files res, co_awaiting = cr_awaiting res, co_changed = []\<rparr>;
          msg = (if cr_error res = '''' then ''cli engine: step failed'' else cr_error res)
      in if cr_awaiting res then Inr out
         else if \<not> cr_success res then Inl (if cr_auth_confirmed res then ConfigInvalid msg else StepFailedWith msg)
         else Inr (out\<lparr>co_changed := or_zero [] (le_changed env t worktreeSuffix)\<rparr>))"

text \<open>The output with the reference of the profile that ran, or the error.\<close>

definition runCLI ::
  "cli_env \<Rightarrow> task \<Rightarrow> string \<Rightarrow> string \<Rightarrow> string \<Rightarrow> string list \<Rightarrow> (string \<times> string) list \<Rightarrow> string \<Rightarrow> string option \<Rightarrow>
   string \<Rightarrow> cli_state \<Rightarrow> (cli_error + cli_step_output \<times> string) \<times> cli_state" where
  "runCLI env t jobID stepID instruction capture contextFiles worktreeSuffix session excludeRef s =
     (case resolveConfig env t excludeRef s of
        (Inl e, s1) \<Rightarrow> (Inl e, s1)
      | (Inr (r, org), s1) \<Rightarrow>
          (case le_repo_path env t of
             Inl e \<Rightarrow> (Inl (RepoPathError e), s1)
           | Inr repoPath \<Rightarrow>
               (let req = step_request env t jobID stepID instruction capture contextFiles worktreeSuffix session repoPath r org
                in case preflight_once env req s1 of
                     (Some e, s2) \<Rightarrow> (Inl (PreflightFailed e), s2)
                   | (None, s2) \<Rightarrow>
                       (case le_run env req of
                          Inl e \<Rightarrow> (Inl (RunFailed e), cli_log env (t_id t) s2)
                        | Inr res \<Rightarrow>
                            (let s3 = cli_log env (t_id t) (write_back_credential env (t_id t) res s2);
                                 s4 = s3\<lparr>ls_arts := save_run jobID (t_id t) stepID instruction contextFiles res (ls_arts s3)\<rparr>;
                                 s5 = save_telemetry env jobID res s4
                             in (map_sum id (\<lambda>out. (out, rp_Ref r)) (step_outcome env t worktreeSuffix res), s5))))))"

definition RunCLIStep ::
  "cli_env \<Rightarrow> task \<Rightarrow> string \<Rightarrow> string \<Rightarrow> string \<Rightarrow> string list \<Rightarrow> (string \<times> string) list \<Rightarrow> string \<Rightarrow> string option \<Rightarrow>
   cli_state \<Rightarrow> (cli_error + cli_step_output) \<times> cli_state" where
  "RunCLIStep env t jobID stepID instruction capture contextFiles worktreeSuffix session s =
     (case runCLI env t jobID stepID instruction capture contextFiles worktreeSuffix session '''' s of
        (r, s') \<Rightarrow> (map_sum id fst r, s'))"

record cli_review_output =
  cv_out :: cli_step_output
  cv_coder :: string
  cv_reviewer :: string

definition RunCLIReviewStep ::
  "cli_env \<Rightarrow> task \<Rightarrow> string \<Rightarrow> string \<Rightarrow> string \<Rightarrow> string list \<Rightarrow> (string \<times> string) list \<Rightarrow> bool \<Rightarrow> string option \<Rightarrow>
   cli_state \<Rightarrow> (cli_error + cli_review_output) \<times> cli_state" where
  "RunCLIReviewStep env t jobID stepID instruction capture contextFiles allowSameHarness session s =
     (let coder = lr_coder (ls_runner s)
      in case runCLI env t jobID stepID instruction capture contextFiles '''' session
                (if allowSameHarness then '''' else coder) s of
           (r, s') \<Rightarrow> (map_sum id (\<lambda>(out, ref). \<lparr>cv_out = out, cv_coder = coder, cv_reviewer = ref\<rparr>) r, s'))"

end
