(* ===== verification/Harness_Properties.thy ===== *)
theory Harness_Properties
  imports CLI_Runner Routing_Properties Decomposition_Props Cross_Review
begin

text \<open>
  Who reviews the code: the runner of the CLI steps with the execution router. Within one run the
  reviewer is another harness than the coder; a run that resumes after the implementation forgets
  who the coder was.
\<close>

section \<open>What a choice gives\<close>

lemma validated_ref:
  "validate_rows i ps = None \<Longrightarrow> p \<in> set ps \<Longrightarrow> ep_ref p \<noteq> ''''"
proof (induction i ps rule: validate_rows.induct)
  case (2 i q qs)
  have "validCLIProviderRefs \<noteq> [] \<and> '''' \<notin> set validCLIProviderRefs" by code_simp
  with 2 show ?case
    by (cases "validate_provider i q") (auto simp: validate_provider_def split: if_splits)
qed simp

lemma validated_providers:
  "ValidateExecutionProviders raw = Inr ps \<Longrightarrow> p \<in> set ps \<Longrightarrow> ep_ref p \<noteq> ''''"
  using validated_ref by (auto simp: ValidateExecutionProviders_def split: raw_json.splits option.splits)

lemma resolved_ref:
  assumes "resolveExecutionProvider srt env now pj exclude s = (Inr r, s')" "sorts_by_priority srt"
  shows "rp_Ref r \<noteq> '''' \<and> (exclude = '''' \<or> rp_Ref r \<noteq> exclude)"
proof -
  have same: "set (srt xs) = set xs" for xs
    using assms(2) by (metis sorts_by_priority_def set_mset_mset)
  obtain ps where ps: "ValidateExecutionProviders (p_execution_providers pj) = Inr ps"
    using assms(1) by (auto simp: resolveExecutionProvider_def split: sum.splits)
  show ?thesis
  proof (cases "HasEnabledProvider ps")
    case True
    with assms(1) ps have "try_providers env now (p_org_id pj) exclude None (srt ps) s = (Inr r, s')"
      by (simp add: resolveExecutionProvider_def resolveFromProviderList_def)
    from try_result [OF this] validated_providers [OF ps] same show ?thesis by metis
  next
    case False
    with assms(1) ps obtain g :: organization and qs where qs: "ValidateExecutionProviders (og_default_providers g) = Inr qs"
      "try_providers env now (p_org_id pj) exclude None (srt qs) s = (Inr r, s')"
      by (auto simp: resolveExecutionProvider_def resolveFromOrgDefault_def resolveFromProviderList_def
          split: option.splits prod.splits sum.splits if_splits)
    from try_result [OF qs(2)] validated_providers [OF qs(1)] same show ?thesis by metis
  qed
qed

lemma resolve_provider_ref:
  assumes "resolve_provider env p exclude creds = (Inr r, creds')" "sorts_by_priority (le_sort env)"
  shows "rp_Ref r \<noteq> '''' \<and> (exclude = '''' \<or> rp_Ref r \<noteq> exclude)"
  using assms(1) resolved_ref [OF _ assms(2)]
  by (auto simp: resolve_provider_def ResolveReviewProvider_def
      split: if_splits prod.splits sum.splits router_error.splits) (metis+)

lemma cli_log_runner [simp]: "ls_runner (cli_log env i s) = ls_runner s" "ls_creds (cli_log env i s) = ls_creds s"
  by (simp_all add: cli_log_def)

lemma write_back_runner [simp]: "ls_runner (write_back_credential env i res s) = ls_runner s"
  by (auto simp: write_back_credential_def Let_def)

lemma save_telemetry_runner [simp]: "ls_runner (save_telemetry env j res s) = ls_runner s"
  by (simp add: save_telemetry_def split: option.splits)

lemma preflight_coder:
  "preflight_once env req s = (e, s') \<Longrightarrow> lr_coder (ls_runner s') = lr_coder (ls_runner s)"
  by (auto simp: preflight_once_def Let_def split: option.splits prod.splits if_splits)

lemma resolveConfig_ok:
  assumes "resolveConfig env t exclude s = (Inr (r, org), s')"
  shows "\<exists>p creds. get_project (os_db (ls_orch s)) (t_project_id t) = Inr p \<and>
    resolve_provider env p exclude (ls_creds s) = (Inr r, creds) \<and>
    lr_coder (ls_runner s') = (if exclude = '''' then rp_Ref r else lr_coder (ls_runner s))"
  using assms by (auto simp: resolveConfig_def note_provider_def split: if_splits sum.splits prod.splits router_error.splits)

lemma map_sum_Inr: "map_sum id f x = Inr y \<longleftrightarrow> (\<exists>z. x = Inr z \<and> y = f z)"
  by (cases x) auto

lemma runCLI_ref:
  assumes "runCLI env t job step instr cap ctx sfx session exclude s = (Inr (out, ref), s')"
  shows "\<exists>p r creds. get_project (os_db (ls_orch s)) (t_project_id t) = Inr p \<and>
    resolve_provider env p exclude (ls_creds s) = (Inr r, creds) \<and> ref = rp_Ref r \<and>
    lr_coder (ls_runner s') = (if exclude = '''' then ref else lr_coder (ls_runner s))"
proof -
  obtain c s1 where c: "resolveConfig env t exclude s = (c, s1)" by fastforce
  with assms obtain r org where cr: "c = Inr (r, org)" by (cases c) (auto simp: runCLI_def)
  from assms c cr obtain repoPath where "le_repo_path env t = Inr repoPath"
    by (cases "le_repo_path env t") (auto simp: runCLI_def)
  moreover obtain e s2 where pre: "preflight_once env
      (step_request env t job step instr cap ctx sfx session repoPath r org) s1 = (e, s2)" by fastforce
  ultimately have "ref = rp_Ref r \<and> lr_coder (ls_runner s') = lr_coder (ls_runner s2)"
    using assms c cr by (auto simp: runCLI_def Let_def map_sum_Inr split: option.splits sum.splits)
  with preflight_coder [OF pre] resolveConfig_ok [OF c [unfolded cr]] show ?thesis by metis
qed

section \<open>Within one run\<close>

text \<open>
  C8: A review that follows a step of the same run names the harness that ran the step as the coder.
  Unless the review policy of the project is to allow the same harness, it is done by another one,
  and the next review will still know the coder. Under that policy nothing is excluded, and the harness
  that reviewed is taken for the coder from then on.
\<close>
theorem review_by_another_harness:
  assumes "runCLI env t job step instr cap ctx sfx session '''' s = (Inr (out, coder), s1)"
    and "RunCLIReviewStep env t' job' step' instr' cap' ctx' (review_policy renv st t' = ''same'') session' s1 = (Inr review, s2)"
    and "sorts_by_priority (le_sort env)"
  shows "cv_coder review = coder \<and>
    (if review_policy renv st t' = ''same'' then lr_coder (ls_runner s2) = cv_reviewer review
     else cv_reviewer review \<noteq> coder \<and> lr_coder (ls_runner s2) = coder)"
proof -
  let ?same = "review_policy renv st t' = ''same''"
  from runCLI_ref [OF assms(1)] obtain p r creds where r: "resolve_provider env p '''' (ls_creds s) = (Inr r, creds)"
    "coder = rp_Ref r" "lr_coder (ls_runner s1) = coder" by auto
  from resolve_provider_ref [OF r(1) assms(3)] r(2) have ne: "coder \<noteq> ''''" by simp
  let ?exclude = "if ?same then '''' else coder"
  obtain x s3 where x: "runCLI env t' job' step' instr' cap' ctx' '''' session' ?exclude s1 = (x, s3)" by fastforce
  with assms(2) r(3) obtain o' ref where o: "x = Inr (o', ref)" "s2 = s3" "cv_reviewer review = ref" "cv_coder review = coder"
    by (cases x) (auto simp: RunCLIReviewStep_def)
  from runCLI_ref [OF x [unfolded o(1)]] obtain p' r' creds' where r':
    "resolve_provider env p' ?exclude (ls_creds s1) = (Inr r', creds')" "ref = rp_Ref r'"
    "lr_coder (ls_runner s3) = (if ?exclude = '''' then ref else lr_coder (ls_runner s1))"
    by auto
  show ?thesis
  proof (cases ?same)
    case True
    with r' o show ?thesis by simp
  next
    case False
    with r' ne r(3) have "resolve_provider env p' coder (ls_creds s1) = (Inr r', creds')" "lr_coder (ls_runner s3) = coder"
      by simp_all
    with resolve_provider_ref [OF this(1) assms(3)] ne o r'(2) False show ?thesis by auto
  qed
qed

section \<open>After the implementation was done in an earlier run\<close>

text \<open>
  A run that resumes after the implementation starts with a new runner, which knows of no coder. Its
  review runs on the harness an implementation would have run on in the same state, names no coder, and
  takes the reviewer for the coder from then on.
\<close>
theorem resumed_review_same_harness:
  assumes "runCLI env t job step instr cap ctx sfx session '''' s = (Inr (out, coder), s1)"
    and "RunCLIReviewStep env t job' step' instr' cap' ctx' allowSame session' s' = (Inr review, s2)"
    and "ls_runner s' = newCLIStepRunner" and "ls_creds s' = ls_creds s"
    and "db_projects (os_db (ls_orch s')) = db_projects (os_db (ls_orch s))"
  shows "cv_reviewer review = coder \<and> cv_coder review = '''' \<and> lr_coder (ls_runner s2) = coder"
proof -
  from runCLI_ref [OF assms(1)] obtain p r creds where r: "get_project (os_db (ls_orch s)) (t_project_id t) = Inr p"
    "resolve_provider env p '''' (ls_creds s) = (Inr r, creds)" "coder = rp_Ref r" by auto
  have fresh: "lr_coder (ls_runner s') = ''''" using assms(3) by (simp add: newCLIStepRunner_def)
  obtain x s3 where x: "runCLI env t job' step' instr' cap' ctx' '''' session' '''' s' = (x, s3)" by fastforce
  with assms(2) fresh obtain o' ref where o: "x = Inr (o', ref)" "s2 = s3" "cv_reviewer review = ref" "cv_coder review = ''''"
    by (cases x) (auto simp: RunCLIReviewStep_def)
  from runCLI_ref [OF x [unfolded o(1)]] r assms(4,5) have "ref = coder \<and> lr_coder (ls_runner s3) = ref"
    by (auto simp: get_project_def)
  with o show ?thesis by simp
qed

section \<open>A runner to try it on\<close>

definition demo_result :: code_step_result where
  "demo_result =
     \<lparr>cr_success = True, cr_output = ''done'', cr_error = '''', cr_exit_code = 0, cr_command = ''claude -p'',
      cr_loop_killed = False, cr_idle_timeout = False, cr_quota_exceeded = False, cr_quota_cooldown = 0,
      cr_auth_invalid = False, cr_auth_confirmed = False, cr_awaiting = False, cr_files = [],
      cr_telemetry = None, cr_session = ''''\<rparr>"

definition demo_cli :: cli_env where
  "demo_cli =
     \<lparr>le_router = demo_env demo_profile, le_sort = sort_key ep_priority, le_orch = silent_env,
      le_has_projects = True, le_no_network = False, le_repo_path = (\<lambda>_. Inr ''/w/repo''),
      le_worktree = (\<lambda>p s. p @ s), le_container = (\<lambda>p. p), le_preflight = (\<lambda>_. ('''', None)),
      le_run = (\<lambda>_. Inr demo_result), le_changed = (\<lambda>_ _. None)\<rparr>"

definition fresh_cli :: cli_state where
  "fresh_cli =
     \<lparr>ls_creds = two_tools,
      ls_orch = (orch_of [])\<lparr>os_db := (demo_db [])\<lparr>db_projects := [(routed_project (Json all_enabled))\<lparr>p_id := ''p1''\<rparr>]\<rparr>\<rparr>,
      ls_arts = [], ls_runner = newCLIStepRunner\<rparr>"

definition coded :: "(cli_error + cli_step_output \<times> string) \<times> cli_state" where
  "coded = runCLI demo_cli (demo_task ''t'' TaskStatusCoding) ''j'' ''cli_implement'' ''do it'' [] [] '''' None '''' fresh_cli"

definition reviewed_in :: "cli_state \<Rightarrow> (cli_error + cli_review_output) \<times> cli_state" where
  "reviewed_in s = RunCLIReviewStep demo_cli (demo_task ''t'' TaskStatusCoding) ''j'' ''cross_review'' ''review it'' [] [] False None s"

lemma coded_by: "map_sum id snd (fst coded) = Inr ''claude_code''"
  by code_simp

lemma reviewed_by:
  "map_sum id cv_reviewer (fst (reviewed_in (snd coded))) = Inr ''openai_codex''"
  "map_sum id cv_reviewer (fst (reviewed_in fresh_cli)) = Inr ''claude_code''"
  by code_simp+

lemma coded_run:
  obtains out s1 where "coded = (Inr (out, ''claude_code''), s1)"
proof -
  from coded_by obtain z where z: "fst coded = Inr z" "snd z = ''claude_code''" unfolding map_sum_Inr by auto
  have "coded = (Inr (fst z, ''claude_code''), snd coded)"
    by (rule prod_eqI) (simp_all add: z(1) flip: z(2))
  then show thesis by (rule that)
qed

lemma review_run:
  assumes "map_sum id cv_reviewer (fst (reviewed_in s)) = Inr h"
  obtains review s2 where "reviewed_in s = (Inr review, s2)"
proof -
  from assms obtain review where "fst (reviewed_in s) = Inr review" unfolding map_sum_Inr by auto
  then have "reviewed_in s = (Inr review, snd (reviewed_in s))" by (intro prod_eqI) simp_all
  then show thesis by (rule that)
qed

lemma demo_cli_sorts: "sorts_by_priority (le_sort demo_cli)"
  by (simp add: demo_cli_def insort_sorts)

definition demo_policy :: review_env where
  "demo_policy =
     \<lparr>xe_update = updateTaskStatus 1 silent_env, xe_orch = silent_env, xe_config = (\<lambda>_. None),
      xe_parse = (\<lambda>_. None)\<rparr>"

theorem review_by_another_harness_witness:
  "\<exists>review. fst (reviewed_in (snd coded)) = Inr review \<and> cv_reviewer review \<noteq> ''claude_code'' \<and>
     cv_coder review = ''claude_code''"
proof -
  obtain out s1 where c: "coded = (Inr (out, ''claude_code''), s1)" by (rule coded_run)
  then have s1: "snd coded = s1" by (rule ssubst) (rule snd_conv)
  obtain review s2 where r: "reviewed_in s1 = (Inr review, s2)"
    using reviewed_by(1) [unfolded s1] by (rule review_run)
  have p: "(review_policy demo_policy (ls_orch fresh_cli) (demo_task ''t'' TaskStatusCoding) = ''same'') = False" by code_simp
  have r': "RunCLIReviewStep demo_cli (demo_task ''t'' TaskStatusCoding) ''j'' ''cross_review'' ''review it'' [] []
      (review_policy demo_policy (ls_orch fresh_cli) (demo_task ''t'' TaskStatusCoding) = ''same'') None s1 = (Inr review, s2)"
    by (subst p, rule r [unfolded reviewed_in_def])
  note q = review_by_another_harness [OF c [unfolded coded_def] r' demo_cli_sorts, unfolded p if_False]
  have "fst (reviewed_in (snd coded)) = Inr review" unfolding s1 r by (rule fst_conv)
  with q show ?thesis by blast
qed

theorem resumed_review_same_harness_witness:
  "\<exists>review. fst (reviewed_in fresh_cli) = Inr review \<and> cv_reviewer review = ''claude_code'' \<and> cv_coder review = ''''"
proof -
  obtain out s1 where c: "coded = (Inr (out, ''claude_code''), s1)" by (rule coded_run)
  obtain review s2 where r: "reviewed_in fresh_cli = (Inr review, s2)" using reviewed_by(2) by (rule review_run)
  have "ls_runner fresh_cli = newCLIStepRunner" by (simp add: fresh_cli_def)
  note t = resumed_review_same_harness [OF c [unfolded coded_def] r [unfolded reviewed_in_def] this refl refl]
  have "fst (reviewed_in fresh_cli) = Inr review" unfolding r by (rule fst_conv)
  with t show ?thesis by blast
qed

end
