(* ===== verification/Worker_Pool.thy ===== *)
theory Worker_Pool
  imports Control_Properties Agents
begin

text \<open>
  The pool of workers (\<^verbatim>\<open>orchestrator/queue.go\<close>): a loop that claims queued jobs while a slot of the
  semaphore is free, one goroutine per claimed job, and on every tick the recovery of jobs that look
  abandoned. A goroutine is the id of its job in the list of live runs; it leaves the list when the run
  returns.
\<close>

section \<open>The loop\<close>

record worker_pool =
  po_st :: orch_state
  po_live :: "string list"

text \<open>Intervals and counts that are not positive are replaced; a tick is 20 seconds then.\<close>

definition worker_interval :: "int \<Rightarrow> int" where
  "worker_interval interval = (if interval \<le> 0 then 20000000000 else interval)"

definition worker_slots :: "int \<Rightarrow> nat" where
  "worker_slots concurrency = (if concurrency \<le> 0 then 1 else nat concurrency)"

text \<open>One claim: no slot or no queued job ends the inner loop.\<close>

definition claim_one :: "int \<Rightarrow> nat \<Rightarrow> worker_pool \<Rightarrow> worker_pool option" where
  "claim_one now slots p =
     (if length (po_live p) < slots then
        (case ClaimNext now (po_st p) of
           (Inl _, _) \<Rightarrow> None
         | (Inr j, st) \<Rightarrow> Some \<lparr>po_st = st, po_live = po_live p @ [j_id j]\<rparr>)
      else None)"

lemma claim_one_live: "claim_one now slots p = Some q \<Longrightarrow> \<exists>i. po_live q = po_live p @ [i] \<and> length (po_live p) < slots"
  by (auto simp: claim_one_def split: if_splits prod.splits sum.splits)

function claim_all :: "int \<Rightarrow> nat \<Rightarrow> worker_pool \<Rightarrow> worker_pool" where
  "claim_all now slots p = (case claim_one now slots p of None \<Rightarrow> p | Some q \<Rightarrow> claim_all now slots q)"
  by pat_completeness auto
termination
  by (relation "measure (\<lambda>(now, slots, p). slots - length (po_live p))") (auto dest!: claim_one_live)

declare claim_all.simps [simp del]

definition worker_tick :: "int \<Rightarrow> worker_pool \<Rightarrow> worker_pool" where
  "worker_tick now p = p\<lparr>po_st := WakeSleepingJobs now (ResetStuckJobs now (po_st p))\<rparr>"

definition run_returns :: "string \<Rightarrow> worker_pool \<Rightarrow> worker_pool" where
  "run_returns i p = p\<lparr>po_live := remove1 i (po_live p)\<rparr>"

text \<open>\<^verbatim>\<open>StartAgentWatchdog\<close>: which agents were not updated for the given time is an argument.\<close>

definition watchdog_tick :: "(string \<Rightarrow> bool) \<Rightarrow> orch_state \<Rightarrow> orch_state" where
  "watchdog_tick old st = st\<lparr>os_db := snd (ResetStuckAgents old (os_db st))\<rparr>"

text \<open>The pool among everything else that writes the database.\<close>

inductive pool_step :: "nat \<Rightarrow> worker_pool \<Rightarrow> worker_pool \<Rightarrow> bool" for slots where
  claims: "pool_step slots p (claim_all now slots p)"
| ticks: "pool_step slots p (worker_tick now p)"
| watches: "pool_step slots p (p\<lparr>po_st := watchdog_tick old (po_st p)\<rparr>)"
| returns: "i \<in> set (po_live p) \<Longrightarrow> pool_step slots p (run_returns i p)"
| writes: "pool_step slots p (p\<lparr>po_st := st\<rparr>)"

inductive_cases pool_stepE: "pool_step slots p q"

section \<open>Slots\<close>

lemma claim_all_slots: "length (po_live p) \<le> slots \<Longrightarrow> length (po_live (claim_all now slots p)) \<le> slots"
proof (induction now slots p rule: claim_all.induct)
  case (1 now slots p)
  show ?case
  proof (cases "claim_one now slots p")
    case None
    with 1(2) show ?thesis by (simp add: claim_all.simps)
  next
    case (Some q)
    from claim_one_live [OF Some] have "length (po_live q) \<le> slots" by auto
    from 1(1) [OF Some this] Some show ?thesis by (simp add: claim_all.simps [of now slots p])
  qed
qed

text \<open>
  C34: However claims, ticks, returning runs and other writes interleave, no more runs are live than there are slots.\<close>
theorem pool_bounded:
  assumes "(pool_step slots)\<^sup>*\<^sup>* p q" and "length (po_live p) \<le> slots"
  shows "length (po_live q) \<le> slots"
  using assms
proof (induction rule: rtranclp_induct)
  case (step q r)
  from step(2) show ?case
    by (cases rule: pool_stepE)
       (use step in \<open>auto simp: claim_all_slots worker_tick_def run_returns_def length_remove1\<close>)
qed

section \<open>What a round of claims does\<close>

abbreviation queued :: "workflow_job \<Rightarrow> bool" where
  "queued j \<equiv> j_status j = WorkflowJobStatusQueued"

definition claimed :: "int \<Rightarrow> workflow_job \<Rightarrow> workflow_job" where
  "claimed now j = j\<lparr>j_status := WorkflowJobStatusRunning, j_attempts := j_attempts j + 1, j_updated_at := now\<rparr>"

lemma claimed_simps [simp]:
  "j_status (claimed now j) = WorkflowJobStatusRunning" "j_id (claimed now j) = j_id j"
  by (simp_all add: claimed_def)

text \<open>Specification of a round: the first \<open>n\<close> queued jobs are claimed.\<close>

fun claim_first :: "int \<Rightarrow> nat \<Rightarrow> workflow_job list \<Rightarrow> workflow_job list" where
  "claim_first now n [] = []"
| "claim_first now n (j # js) =
     (if queued j \<and> 0 < n then claimed now j # claim_first now (n - 1) js else j # claim_first now n js)"

lemma claim_first_0 [simp]: "claim_first now 0 js = js"
  by (induction js) simp_all

lemma claim_first_none: "find queued js = None \<Longrightarrow> claim_first now n js = js"
  by (induction js) (auto split: if_splits)

lemma map_job_fresh: "i \<notin> j_id ` set js \<Longrightarrow> map_job js i f = js"
  by (auto simp: map_job_def intro!: map_idI)

lemma claim_first_Suc:
  "find queued js = Some j \<Longrightarrow> distinct (map j_id js) \<Longrightarrow>
   claim_first now (Suc n) js = claim_first now n (map_job js (j_id j) (claimed now))"
proof (induction js)
  case (Cons r js)
  show ?case
  proof (cases "queued r")
    case True
    with Cons.prems have "j = r" by simp
    moreover have "map_job js (j_id r) (claimed now) = js" using Cons.prems(2) by (intro map_job_fresh) auto
    ultimately show ?thesis using True by (simp add: map_job_def)
  next
    case False
    with Cons.prems have "find queued js = Some j" "j_id j \<noteq> j_id r"
      by (auto simp: find_Some_iff) (metis image_eqI nth_mem)
    with False Cons show ?thesis by (simp add: map_job_def)
  qed
qed simp

lemma filter_after_claim:
  "find queued js = Some j \<Longrightarrow> distinct (map j_id js) \<Longrightarrow>
   filter queued js = j # filter queued (map_job js (j_id j) (claimed now))"
proof (induction js)
  case (Cons r js)
  show ?case
  proof (cases "queued r")
    case True
    with Cons.prems have "j = r" by simp
    moreover have "map_job js (j_id r) (claimed now) = js" using Cons.prems(2) by (intro map_job_fresh) auto
    ultimately show ?thesis using True by (simp add: map_job_def)
  next
    case False
    with Cons.prems have "find queued js = Some j" "j_id j \<noteq> j_id r"
      by (auto simp: find_Some_iff) (metis image_eqI nth_mem)
    with False Cons show ?thesis by (simp add: map_job_def)
  qed
qed simp

lemma claim_one_some:
  assumes "find queued (os_jobs (po_st p)) = Some j" "length (po_live p) < slots"
  shows "claim_one now slots p =
    Some \<lparr>po_st = (po_st p)\<lparr>os_jobs := map_job (os_jobs (po_st p)) (j_id j) (claimed now)\<rparr>, po_live = po_live p @ [j_id j]\<rparr>"
  using assms by (simp add: claim_one_def ClaimNext_def claimed_def [abs_def])

lemma claim_one_none:
  "find queued (os_jobs (po_st p)) = None \<or> slots \<le> length (po_live p) \<Longrightarrow> claim_one now slots p = None"
  by (auto simp: claim_one_def ClaimNext_def)

lemma claim_all_spec:
  assumes "distinct (map j_id (os_jobs (po_st p)))"
  shows "claim_all now slots p =
    \<lparr>po_st = (po_st p)\<lparr>os_jobs := claim_first now (slots - length (po_live p)) (os_jobs (po_st p))\<rparr>,
     po_live = po_live p @ map j_id (take (slots - length (po_live p)) (filter queued (os_jobs (po_st p))))\<rparr>"
  using assms
proof (induction now slots p rule: claim_all.induct)
  case (1 now slots p)
  let ?js = "os_jobs (po_st p)"
  show ?case
  proof (cases "find queued ?js = None \<or> slots \<le> length (po_live p)")
    case True
    then have "claim_all now slots p = p" by (simp add: claim_all.simps claim_one_none)
    moreover have "claim_first now (slots - length (po_live p)) ?js = ?js"
      using True by (auto simp: claim_first_none)
    moreover have "take (slots - length (po_live p)) (filter queued ?js) = []"
      using True by (auto simp: find_None_iff filter_empty_conv)
    ultimately show ?thesis by simp
  next
    case False
    then obtain j where j: "find queued ?js = Some j" and free: "length (po_live p) < slots" by auto
    let ?q = "\<lparr>po_st = (po_st p)\<lparr>os_jobs := map_job ?js (j_id j) (claimed now)\<rparr>, po_live = po_live p @ [j_id j]\<rparr>"
    note one = claim_one_some [OF j free, of now]
    have "map j_id (map_job ?js (j_id j) (claimed now)) = map j_id ?js"
      by (simp add: map_job_def)
    with 1(1) [OF one] 1(2) have IH: "claim_all now slots ?q =
        \<lparr>po_st = (po_st p)\<lparr>os_jobs := claim_first now (slots - Suc (length (po_live p))) (map_job ?js (j_id j) (claimed now))\<rparr>,
         po_live = po_live p @ [j_id j] @
           map j_id (take (slots - Suc (length (po_live p))) (filter queued (map_job ?js (j_id j) (claimed now))))\<rparr>"
      by simp
    have n: "slots - length (po_live p) = Suc (slots - Suc (length (po_live p)))" using free by simp
    have "claim_all now slots p = claim_all now slots ?q" by (simp add: claim_all.simps [of now slots p] one)
    then show ?thesis
      unfolding IH n claim_first_Suc [OF j 1(2)] by (subst filter_after_claim [OF j 1(2)]) simp
  qed
qed

text \<open>
  C40: A round of claims starts the oldest queued jobs, in the order of their creation, as many as
  there are free slots; they become running with one more attempt, and no other job changes.
\<close>
theorem claims_oldest_first:
  assumes "distinct (map j_id (os_jobs (po_st p)))"
  shows "claim_all now slots p =
    \<lparr>po_st = (po_st p)\<lparr>os_jobs := claim_first now (slots - length (po_live p)) (os_jobs (po_st p))\<rparr>,
     po_live = po_live p @ map j_id (take (slots - length (po_live p)) (filter queued (os_jobs (po_st p))))\<rparr>"
  by (rule claim_all_spec [OF assms])

section \<open>Jobs that look abandoned\<close>

lemma tick_jobs:
  "map j_id (os_jobs (po_st (worker_tick now p))) = map j_id (os_jobs (po_st p))"
  "po_live (worker_tick now p) = po_live p"
  by (auto simp: worker_tick_def WakeSleepingJobs_def ResetStuckJobs_def requeue_def Let_def)

lemma wake_maps:
  "\<exists>f. os_jobs (WakeSleepingJobs now st) = map f (os_jobs st) \<and>
     (\<forall>r. j_id (f r) = j_id r \<and> (queued r \<longrightarrow> queued (f r)))"
proof (cases "filter (overslept now) (os_jobs st) = []")
  case True
  then have "os_jobs (WakeSleepingJobs now st) = map (\<lambda>r. r) (os_jobs st)"
    by (simp add: WakeSleepingJobs_def Let_def)
  then show ?thesis by blast
next
  case False
  then have "os_jobs (WakeSleepingJobs now st) =
      map (\<lambda>j. if j_id j \<in> set (map j_id (filter (overslept now) (os_jobs st)))
               then (requeue now j)\<lparr>j_sleep_until := None\<rparr> else j) (os_jobs st)"
    by (simp add: WakeSleepingJobs_def Let_def)
  then show ?thesis by (intro exI conjI) (assumption, simp add: requeue_def)
qed

lemma tick_requeues:
  assumes "j \<in> set (os_jobs (po_st p))" "stuck now j"
  shows "\<exists>r \<in> set (os_jobs (po_st (worker_tick now p))). j_id r = j_id j \<and> queued r"
proof -
  let ?st = "ResetStuckJobs now (po_st p)"
  have j: "j \<in> set (filter (stuck now) (os_jobs (po_st p)))" using assms by simp
  then have "filter (stuck now) (os_jobs (po_st p)) \<noteq> []" by force
  with j have "requeue now j \<in> set (os_jobs ?st)"
    using assms(1) by (auto simp: ResetStuckJobs_def Let_def)
  moreover have "j_id (requeue now j) = j_id j \<and> queued (requeue now j)" by (simp add: requeue_def)
  ultimately have "\<exists>r \<in> set (os_jobs (WakeSleepingJobs now ?st)). j_id r = j_id j \<and> queued r"
    using wake_maps [of now ?st] by (metis image_eqI list.set_map)
  then show ?thesis by (simp add: worker_tick_def)
qed

text \<open>
  C35: One job, two runs, in a pool of more than one slot. A job whose run is live but has not written its
  row for ten minutes, because one step takes that long, is queued again by the tick; when the pool has
  a free slot for every queued job, the next round claims it and two runs of it are live at the same
  time. In a pool of one slot, as \<^verbatim>\<open>.env.example\<close> sets it, the live run holds the slot.
\<close>
theorem long_step_runs_twice:
  assumes "distinct (map j_id (os_jobs (po_st p)))"
    and "j \<in> set (os_jobs (po_st p))" and "stuck now j" and "j_id j \<in> set (po_live p)"
    and "length (filter queued (os_jobs (po_st (worker_tick now p)))) \<le> slots - length (po_live p)"
  shows "2 \<le> count_list (po_live (claim_all now' slots (worker_tick now p))) (j_id j)"
proof -
  let ?p = "worker_tick now p"
  have "distinct (map j_id (os_jobs (po_st ?p)))" using assms(1) by (simp only: tick_jobs(1))
  then have live: "po_live (claim_all now' slots ?p) = po_live p @ map j_id (filter queued (os_jobs (po_st ?p)))"
    using claim_all_spec [of ?p now' slots] assms(5) by (simp add: tick_jobs(2))
  have "j_id j \<in> set (map j_id (filter queued (os_jobs (po_st ?p))))"
    using tick_requeues [OF assms(2,3)] by (auto simp: image_iff)
  moreover have "1 \<le> count_list xs x" if "x \<in> set xs" for xs and x :: string
    using that count_list_0_iff [of xs x] by linarith
  ultimately have "1 \<le> count_list (map j_id (filter queued (os_jobs (po_st ?p)))) (j_id j)"
    and "1 \<le> count_list (po_live p) (j_id j)"
    using assms(4) by blast+
  then show ?thesis unfolding live by simp
qed

section \<open>A pool to try it on\<close>

definition busy_pool :: worker_pool where
  "busy_pool =
     \<lparr>po_st = (orch_of [])\<lparr>os_jobs := [(new_job ''j'' 0 ''t'')\<lparr>j_status := WorkflowJobStatusRunning\<rparr>, new_job ''k'' 1 ''u'']\<rparr>,
      po_live = [''j'']\<rparr>"

theorem pool_bounded_witness: "length (po_live (claim_all 5 2 busy_pool)) \<le> 2"
  using pool_bounded [OF r_into_rtranclp [where r = "pool_step 2", OF pool_step.claims [of 2 busy_pool 5]]]
  by (simp add: busy_pool_def)

theorem claims_oldest_first_witness: "po_live (claim_all 5 2 busy_pool) = [''j'', ''k'']"
proof -
  have "distinct (map j_id (os_jobs (po_st busy_pool)))" by code_simp
  note arg_cong [OF claims_oldest_first [OF this, of 5 2], of po_live]
  also have "po_live \<lparr>po_st = (po_st busy_pool)\<lparr>os_jobs := claim_first 5 (2 - length (po_live busy_pool)) (os_jobs (po_st busy_pool))\<rparr>,
     po_live = po_live busy_pool @ map j_id (take (2 - length (po_live busy_pool)) (filter queued (os_jobs (po_st busy_pool))))\<rparr> =
     [''j'', ''k'']" by code_simp
  finally show ?thesis .
qed

theorem long_step_runs_twice_witness:
  "2 \<le> count_list (po_live (claim_all 700000000000 3 (worker_tick 700000000000 busy_pool))) ''j''"
proof -
  let ?j = "(new_job ''j'' 0 ''t'')\<lparr>j_status := WorkflowJobStatusRunning\<rparr>"
  have 1: "distinct (map j_id (os_jobs (po_st busy_pool)))" by code_simp
  have 2: "?j \<in> set (os_jobs (po_st busy_pool))" by (simp add: busy_pool_def)
  have 3: "stuck 700000000000 ?j" by (simp add: stuck_def new_job_def)
  have 4: "j_id ?j \<in> set (po_live busy_pool)" by (simp add: busy_pool_def new_job_def)
  have 5: "length (filter queued (os_jobs (po_st (worker_tick 700000000000 busy_pool)))) \<le> 3 - length (po_live busy_pool)"
    by code_simp
  from long_step_runs_twice [OF 1 2 3 4 5, of 700000000000] show ?thesis by (simp add: new_job_def)
qed

definition any_agent :: agent_dir where
  "any_agent _ = \<lparr>ag_org = '''', ag_role = ''backend'', ag_auto_join = True, ag_projects = []\<rparr>"

definition two_free :: db where
  "two_free = (demo_db [])\<lparr>db_agents := [(''a'', ''idle''), (''b'', ''idle'')]\<rparr>"

theorem Assign_exclusive_witness:
  "\<exists>d1 d2. Assign any_agent two_free (demo_task ''t'' ''todo'') = (Inr ''a'', d1) \<and>
     Assign any_agent d1 (demo_task ''u'' ''todo'') = (Inr ''b'', d2) \<and> ''a'' \<noteq> ''b'' \<and>
     agent_status d2 ''a'' = Some AgentStatusAssigned"
proof -
  let ?r = "Assign any_agent two_free (demo_task ''t'' ''todo'')"
  have 1: "distinct (map fst (db_agents two_free))" by code_simp
  have "fst ?r = Inr ''a''" by code_simp
  then obtain d1 where 2: "?r = (Inr ''a'', d1)" by (metis prod.collapse)
  have "fst (Assign any_agent (snd ?r) (demo_task ''u'' ''todo'')) = Inr ''b''" by code_simp
  then obtain d2 where 3: "Assign any_agent d1 (demo_task ''u'' ''todo'') = (Inr ''b'', d2)"
    unfolding 2 snd_conv by (metis prod.collapse)
  from Assign_exclusive [OF 1 2 3] 2 3 show ?thesis by blast
qed

end
