(* ===== verification/Workspaces.thy ===== *)
theory Workspaces
  imports Paths Checkpoint_Store Task_Properties
begin

text \<open>
  The workspace of a task on disk: its metadata (\<^verbatim>\<open>pkg/models/workspace.go\<close>,
  \<^verbatim>\<open>orchestrator/wkspace/state.go\<close>), its creation and the clones in it
  (\<^verbatim>\<open>orchestrator/wkspace/create.go\<close>), and how the steps find repositories and worktrees
  (\<^verbatim>\<open>orchestrator/repoutil\<close>). A task that was split off shares the workspace of its parent. The disk of
  one workspace is a value that holds what these operations read back; git, the lock and the outcome of
  the writes are parameters. Directories, the task snapshot, the credential helper and the module cache
  have no effect on these results and are left out.
\<close>

section \<open>Repositories and metadata\<close>

record git_repo =
  gr_id :: string
  gr_project_id :: string
  gr_url :: string
  gr_branch :: string

record repo_workspace =
  rw_id :: string
  rw_name :: string
  rw_url :: string
  rw_default_branch :: string
  rw_merge_status :: string
  rw_test_status :: string
  rw_main :: string
  rw_worktrees :: "(string \<times> string) list"
  rw_integration :: string
  rw_roles :: "(string \<times> string) list"

record task_workspace =
  tw_root :: string
  tw_repos :: "repo_workspace list"

datatype disk_effect =
    ResetRepo string
  | CloneRepo string string string
  | RestorePatch string string

record wk_disk =
  wd_root_exists :: bool
  wd_meta :: "repo_workspace list raw_json option"
  wd_readable :: bool
  wd_git :: "string list"
  wd_effects :: "disk_effect list"

datatype wk_error =
    NoWorkspace
  | MetaUnreadable
  | MetaBroken
  | ReposUnknown
  | MetaUnwritable
  | LockRefused string
  | ResetFailed string
  | CloneFailed string string
  | NoRepoAtPath string
  | EmptyMainPath string
  | RepoUnknown string

record wk_env =
  ke_base :: string
  ke_cwd :: "string option"
  ke_repos :: "string \<Rightarrow> git_repo list option"
  ke_writable :: bool
  ke_lock :: "task \<Rightarrow> string \<Rightarrow> string option"
  ke_reset :: "string \<Rightarrow> bool"
  ke_clone :: "string \<Rightarrow> string \<Rightarrow> string \<Rightarrow> string + string"

definition disk_effect :: "disk_effect \<Rightarrow> wk_disk \<Rightarrow> wk_disk" where
  "disk_effect e d = d\<lparr>wd_effects := wd_effects d @ [e]\<rparr>"

definition GetTaskWorkspace :: "wk_env \<Rightarrow> task \<Rightarrow> task_workspace" where
  "GetTaskWorkspace env t = \<lparr>tw_root = dir_path (TaskRoot (ke_base env) (WorkspaceOwnerID t)), tw_repos = []\<rparr>"

definition SaveTaskWorkspaceMetadata :: "wk_env \<Rightarrow> repo_workspace list \<Rightarrow> wk_disk \<Rightarrow> wk_disk option" where
  "SaveTaskWorkspaceMetadata env repos d =
     (if ke_writable env then Some (d\<lparr>wd_meta := Some (Json repos), wd_root_exists := True\<rparr>) else None)"

section \<open>Creation\<close>

definition clean_url :: "string \<Rightarrow> string" where
  "clean_url url = trim_right (trim_space url) slash"

definition repo_dir_name :: "string \<Rightarrow> string" where
  "repo_dir_name url =
     (let name = trim_suffix (last (split_path url)) ''.git'' in if name = '''' then ''main'' else name)"

definition new_repo_workspace :: "task \<Rightarrow> git_repo \<Rightarrow> repo_workspace" where
  "new_repo_workspace t r =
     (let url = clean_url (gr_url r); name = repo_dir_name url
      in \<lparr>rw_id = gr_id r, rw_name = name, rw_url = url,
          rw_default_branch = (if gr_branch r = '''' then ''main'' else gr_branch r),
          rw_merge_status = ''pending'', rw_test_status = ''pending'',
          rw_main = RepoMainRelative name, rw_worktrees = [],
          rw_integration = DeriveBranchName (WorkspaceOwnerID t) (t_title t), rw_roles = []\<rparr>)"

definition InitTaskWorkspace :: "wk_env \<Rightarrow> task \<Rightarrow> wk_disk \<Rightarrow> (wk_error + task_workspace) \<times> wk_disk" where
  "InitTaskWorkspace env t d =
     (case ke_repos env (t_project_id t) of
        None \<Rightarrow> (Inl ReposUnknown, d)
      | Some rs \<Rightarrow>
          (let repos = map (new_repo_workspace t)
                 (filter (\<lambda>r. case t_repository_id t of None \<Rightarrow> True | Some i \<Rightarrow> i = gr_id r) rs)
           in case SaveTaskWorkspaceMetadata env repos d of
                None \<Rightarrow> (Inl MetaUnwritable, d)
              | Some d' \<Rightarrow> (Inr ((GetTaskWorkspace env t)\<lparr>tw_repos := repos\<rparr>), d')))"

section \<open>Loading\<close>

text \<open>A changed default branch of the project replaces the one in the metadata, and the path with it.\<close>

definition expected_branch :: "git_repo list \<Rightarrow> repo_workspace \<Rightarrow> string option" where
  "expected_branch rs w =
     map_option (\<lambda>r. if gr_branch r = '''' then ''main'' else gr_branch r)
       (find (\<lambda>r. gr_id r = rw_id w) (rev rs))"

definition reconcile :: "git_repo list \<Rightarrow> repo_workspace \<Rightarrow> repo_workspace" where
  "reconcile rs w =
     (case expected_branch rs w of
        None \<Rightarrow> w
      | Some b \<Rightarrow>
          if rw_default_branch w \<noteq> b
          then w\<lparr>rw_default_branch := b, rw_main := RepoMainRelative (rw_name w)\<rparr> else w)"

definition LoadTaskWorkspace :: "wk_env \<Rightarrow> task \<Rightarrow> wk_disk \<Rightarrow> (wk_error + task_workspace) \<times> wk_disk" where
  "LoadTaskWorkspace env t d =
     (if \<not> wd_readable d then (Inl MetaUnreadable, d)
      else (case wd_meta d of
        None \<Rightarrow> if wd_root_exists d then InitTaskWorkspace env t d else (Inl NoWorkspace, d)
      | Some raw \<Rightarrow>
          (case unmarshal [] raw of
             (True, _) \<Rightarrow> (Inl MetaBroken, d)
           | (False, repos) \<Rightarrow>
               (let ws = GetTaskWorkspace env t;
                    repos' = (case ke_repos env (t_project_id t) of None \<Rightarrow> repos | Some rs \<Rightarrow> map (reconcile rs) repos)
                in if repos' = repos then (Inr (ws\<lparr>tw_repos := repos\<rparr>), d)
                   else (case SaveTaskWorkspaceMetadata env repos' d of
                           None \<Rightarrow> (Inl MetaUnwritable, d)
                         | Some d' \<Rightarrow> (Inr (ws\<lparr>tw_repos := repos'\<rparr>), d'))))))"

section \<open>Finding repositories\<close>

definition RepoNameFromURL :: "string \<Rightarrow> string" where
  "RepoNameFromURL url = trim_suffix (last (split_path url)) ''.git''"

definition TargetRepositoriesForTask :: "task \<Rightarrow> git_repo list \<Rightarrow> git_repo list" where
  "TargetRepositoriesForTask t rs =
     (case t_repository_id t of
        None \<Rightarrow> rs
      | Some i \<Rightarrow> (case find (\<lambda>r. gr_id r = i) rs of None \<Rightarrow> [] | Some r \<Rightarrow> [r]))"

definition LoadTargetRepositories :: "wk_env \<Rightarrow> task \<Rightarrow> wk_error + git_repo list" where
  "LoadTargetRepositories env t =
     (case ke_repos env (t_project_id t) of
        None \<Rightarrow> Inl ReposUnknown
      | Some rs \<Rightarrow>
          (case t_repository_id t of
             Some i \<Rightarrow>
               if TargetRepositoriesForTask t rs = [] then Inl (RepoUnknown i)
               else Inr (TargetRepositoriesForTask t rs)
           | None \<Rightarrow> Inr (TargetRepositoriesForTask t rs)))"

definition RepoHostPath :: "wk_env \<Rightarrow> task \<Rightarrow> task_workspace option \<Rightarrow> git_repo \<Rightarrow> string" where
  "RepoHostPath env t ws r =
     (case Option.bind ws (\<lambda>w. map_option (\<lambda>x. path_join [tw_root w, rw_main x])
              (find (\<lambda>x. rw_id x = gr_id r) (tw_repos w))) of
        Some p \<Rightarrow> p
      | None \<Rightarrow> dir_path (RepoMain (ke_base env) (WorkspaceOwnerID t) (RepoNameFromURL (gr_url r))))"

definition GetTaskRepoHostPath :: "wk_env \<Rightarrow> task \<Rightarrow> wk_disk \<Rightarrow> (wk_error + string) \<times> wk_disk" where
  "GetTaskRepoHostPath env t d =
     (case LoadTaskWorkspace env t d of
        (loaded, d') \<Rightarrow>
          (let ws = (case loaded of Inl _ \<Rightarrow> None | Inr w \<Rightarrow> Some w);
               local = path_join [ke_base env, WorkspaceOwnerID t]
           in (case t_repository_id t of
                 None \<Rightarrow>
                   (case ws of
                      None \<Rightarrow> Inr local
                    | Some w \<Rightarrow>
                        (case filter (\<lambda>x. rw_main x \<noteq> '''') (tw_repos w) of
                           [x] \<Rightarrow> Inr (path_join [tw_root w, rw_main x])
                         | _ \<Rightarrow> Inr local))
               | Some i \<Rightarrow>
                   (case Option.bind ws (\<lambda>w. map_option (Pair w) (find (\<lambda>x. rw_id x = i) (tw_repos w))) of
                      Some (w, x) \<Rightarrow>
                        if rw_main x = '''' then Inl (EmptyMainPath i) else Inr (path_join [tw_root w, rw_main x])
                    | None \<Rightarrow>
                        (case Option.bind (ke_repos env (t_project_id t)) (find (\<lambda>r. gr_id r = i)) of
                           Some r \<Rightarrow> Inr (RepoHostPath env t ws r)
                         | None \<Rightarrow> Inl (RepoUnknown i))), d')))"

definition same_tree :: "string \<Rightarrow> string \<Rightarrow> bool" where
  "same_tree base p \<longleftrightarrow> stays_below base p \<noteq> None"

definition FindRepoWorkspaceByPath ::
  "wk_env \<Rightarrow> task \<Rightarrow> string \<Rightarrow> wk_disk \<Rightarrow> (wk_error + task_workspace \<times> repo_workspace) \<times> wk_disk" where
  "FindRepoWorkspaceByPath env t p d =
     (case LoadTaskWorkspace env t d of
        (Inl e, d') \<Rightarrow> (Inl e, d')
      | (Inr ws, d') \<Rightarrow>
          (let abs = or_zero p (path_abs (ke_cwd env) p);
               belongs = (\<lambda>w. same_tree (path_join [tw_root ws, rw_main w]) abs \<or>
                  list_ex (\<lambda>rel. same_tree (path_join [tw_root ws, rel]) abs) (map snd (rw_worktrees w)) \<or>
                  same_tree (dir_path (RepoRoot (ke_base env) (WorkspaceOwnerID t) (rw_name w))) abs)
           in (case find belongs (tw_repos ws) of
                 Some w \<Rightarrow> Inr (ws, w)
               | None \<Rightarrow> (case tw_repos ws of [w] \<Rightarrow> Inr (ws, w) | _ \<Rightarrow> Inl (NoRepoAtPath p)), d')))"

section \<open>Worktrees of the roles\<close>

definition GetRoleFromSuffix :: "string \<Rightarrow> string" where
  "GetRoleFromSuffix sfx =
     (let s = trim_suffix (trim_prefix sfx ''-'') ''-worktree''
      in if s \<in> {''be'', ''backend''} then ''backend''
         else if s \<in> {''fe'', ''frontend''} then ''frontend'' else s)"

definition role_token :: "string \<Rightarrow> string" where
  "role_token role = (if role = ''backend'' then ''be'' else if role = ''frontend'' then ''fe'' else role)"

definition put_pair :: "string \<Rightarrow> string \<Rightarrow> (string \<times> string) list \<Rightarrow> (string \<times> string) list" where
  "put_pair k v m = filter (\<lambda>x. fst x \<noteq> k) m @ [(k, v)]"

text \<open>The path of a role worktree, noted in the metadata when it is new; a failed note is ignored.\<close>

definition HostWorktreePath :: "wk_env \<Rightarrow> task \<Rightarrow> string \<Rightarrow> string \<Rightarrow> wk_disk \<Rightarrow> string \<times> wk_disk" where
  "HostWorktreePath env t repoPath sfx d =
     (if sfx = '''' then (repoPath, d)
      else (case FindRepoWorkspaceByPath env t repoPath d of
        (Inl _, d') \<Rightarrow>
          (let local = path_join [ke_base env, WorkspaceOwnerID t];
               plain = trim_suffix (trim_prefix sfx ''-'') ''-worktree''
           in (if t_repository_id t \<noteq> None then path_join [local, plain]
               else if repoPath = local then local else repoPath @ sfx, d'))
      | (Inr (ws, w), d') \<Rightarrow>
          (let role = GetRoleFromSuffix sfx; root = tw_root (GetTaskWorkspace env t)
           in case map_of (rw_worktrees w) role of
                Some (c # cs) \<Rightarrow> (path_join [root, c # cs], d')
              | _ \<Rightarrow>
                  (let rel = RepoWorktreeRelative (rw_name w) role;
                       w' = w\<lparr>rw_worktrees := put_pair role rel (rw_worktrees w),
                              rw_roles := put_pair role
                                (DeriveRoleBranchName (WorkspaceOwnerID t) (t_title t) (role_token role)) (rw_roles w)\<rparr>;
                       repos = map (\<lambda>x. if rw_id x = rw_id w then w' else x) (tw_repos ws)
                   in (path_join [root, rel], or_zero d' (SaveTaskWorkspaceMetadata env repos d'))))))"

text \<open>The branches \<^verbatim>\<open>SetupRoleWorktrees\<close> creates in every repository and checks out in the worktree.\<close>

definition role_branch :: "task \<Rightarrow> string \<Rightarrow> string" where
  "role_branch t role = DeriveRoleBranchName (WorkspaceOwnerID t) (t_title t) role"

definition integration_branch :: "task \<Rightarrow> string" where
  "integration_branch t = DeriveBranchName (WorkspaceOwnerID t) (t_title t)"

section \<open>Preparing the clones of a run\<close>

definition cp_status :: "wf_checkpoint \<Rightarrow> string" where
  "cp_status cp = (case state_of cp of None \<Rightarrow> '''' | Some m \<Rightarrow> state_status m)"

definition keeps_work :: "wf_checkpoint \<Rightarrow> bool" where
  "keeps_work cp \<longleftrightarrow>
     state_of cp \<noteq> None \<and>
     (cp_status cp = ''success'' \<and> cp_step cp \<in> {''code_backend'', ''code_frontend'', ''fix'', StepMerge} \<or>
      cp_step cp \<in> {StepCLISpec, StepCLIImplement, StepCLIImplementBackend, StepCLIImplementFrontend} \<and>
      cp_status cp \<in> {''success'', ''paused'', ''waiting_approval''})"

text \<open>The checkpoints as they were read, \<open>None\<close> when they could not be.\<close>

definition has_work :: "wf_checkpoint list option \<Rightarrow> bool" where
  "has_work cps = (case cps of None \<Rightarrow> False | Some cs \<Rightarrow> list_ex keeps_work cs)"

definition succeeded_steps :: "wf_checkpoint list option \<Rightarrow> string list" where
  "succeeded_steps cps =
     (case cps of None \<Rightarrow> [] | Some cs \<Rightarrow> map cp_step (filter (\<lambda>cp. cp_status cp = ''success'') cs))"

definition name_integration :: "task \<Rightarrow> repo_workspace \<Rightarrow> repo_workspace" where
  "name_integration t w =
     (if rw_integration w = '''' then w\<lparr>rw_integration := DeriveBranchName (WorkspaceOwnerID t) (t_title t)\<rparr> else w)"

text \<open>One repository: the metadata row, whether it was cloned anew, and the disk.\<close>

definition prepare_repo ::
  "wk_env \<Rightarrow> task \<Rightarrow> string \<Rightarrow> bool \<Rightarrow> repo_workspace \<Rightarrow> wk_disk \<Rightarrow> (wk_error + repo_workspace \<times> bool) \<times> wk_disk" where
  "prepare_repo env t base keep w d =
     (let p = path_join [base, rw_main w]
      in if p \<in> set (wd_git d) then
           (if \<not> keep \<and> t_parent_task_id t = None then
              (if ke_reset env p then (Inr (name_integration t w, False), disk_effect (ResetRepo p) d)
               else (Inl (ResetFailed p), d))
            else (Inr (name_integration t w, False), d))
         else (case ke_clone env (clean_url (rw_url w)) (rw_default_branch w) p of
                 Inl e \<Rightarrow> (Inl (CloneFailed (rw_name w) e), d)
               | Inr branch \<Rightarrow>
                   (Inr (name_integration t (if branch = '''' then w else w\<lparr>rw_default_branch := branch\<rparr>), True),
                    (disk_effect (CloneRepo (clean_url (rw_url w)) (rw_default_branch w) p) d)
                      \<lparr>wd_git := wd_git d @ [p]\<rparr>)))"

fun prepare_repos ::
  "wk_env \<Rightarrow> task \<Rightarrow> string \<Rightarrow> bool \<Rightarrow> repo_workspace list \<Rightarrow> wk_disk \<Rightarrow>
   (wk_error + repo_workspace list \<times> bool) \<times> wk_disk" where
  "prepare_repos env t base keep [] d = (Inr ([], False), d)"
| "prepare_repos env t base keep (w # ws) d =
     (case prepare_repo env t base keep w d of
        (Inl e, d1) \<Rightarrow> (Inl e, d1)
      | (Inr (w', new), d1) \<Rightarrow>
          (case prepare_repos env t base keep ws d1 of
             (Inl e, d2) \<Rightarrow> (Inl e, d2)
           | (Inr (ws', news), d2) \<Rightarrow> (Inr (w' # ws', new \<or> news), d2)))"

text \<open>The patches of finished steps that are applied to a new clone; a patch that fails is only logged.\<close>

definition patches_to_restore :: "string list \<Rightarrow> wf_artifact list option \<Rightarrow> (string \<times> string) list" where
  "patches_to_restore done_steps arts =
     (case arts of
        None \<Rightarrow> []
      | Some as \<Rightarrow>
          List.map_filter
            (\<lambda>a. if wa_step a \<in> set done_steps \<and> wa_type a = ''patch''
                 then (case payload_string (wa_payload a) of
                         Some s \<Rightarrow> if s = '''' then None else Some (wa_step a, s)
                       | None \<Rightarrow> None)
                 else None) as)"

definition EnsureWorkspaceCloned ::
  "wk_env \<Rightarrow> task \<Rightarrow> string \<Rightarrow> wf_checkpoint list option \<Rightarrow> wf_artifact list option \<Rightarrow> wk_disk \<Rightarrow>
   wk_error option \<times> wk_disk" where
  "EnsureWorkspaceCloned env t jobID cps arts d =
     (case (case LoadTaskWorkspace env t d of (Inl _, d1) \<Rightarrow> InitTaskWorkspace env t d1 | ok \<Rightarrow> ok) of
        (Inl e, d1) \<Rightarrow> (Some e, d1)
      | (Inr ws, d1) \<Rightarrow>
          (case ke_lock env t jobID of
             Some e \<Rightarrow> (Some (LockRefused e), d1)
           | None \<Rightarrow>
               (case prepare_repos env t (tw_root ws) (has_work cps) (tw_repos ws) d1 of
                  (Inl e, d2) \<Rightarrow> (Some e, d2)
                | (Inr (repos, cloned), d2) \<Rightarrow>
                    (case SaveTaskWorkspaceMetadata env repos d2 of
                       None \<Rightarrow> (Some MetaUnwritable, d2)
                     | Some d3 \<Rightarrow>
                         (None,
                          if has_work cps \<and> cloned
                          then fold (\<lambda>(s, p). disk_effect (RestorePatch s p)) (patches_to_restore (succeeded_steps cps) arts) d3
                          else d3)))))"

section \<open>What a new run keeps\<close>

text \<open>The resets and the clones among the effects.\<close>

fun is_reset :: "disk_effect \<Rightarrow> bool" where
  "is_reset (ResetRepo p) = True"
| "is_reset _ = False"

definition resets :: "wk_disk \<Rightarrow> disk_effect list" where
  "resets d = filter is_reset (wd_effects d)"

lemma resets_simps [simp]:
  "resets (disk_effect e d) = resets d @ (if is_reset e then [e] else [])"
  "resets (d\<lparr>wd_git := g\<rparr>) = resets d"
  by (simp_all add: resets_def disk_effect_def)

lemma disk_effect_frame [simp]:
  "wd_git (disk_effect e d) = wd_git d" "wd_effects (disk_effect e d) = wd_effects d @ [e]"
  by (simp_all add: disk_effect_def)

lemma save_frame:
  "SaveTaskWorkspaceMetadata env repos d = Some d' \<Longrightarrow> wd_effects d' = wd_effects d \<and> wd_git d' = wd_git d"
  by (auto simp: SaveTaskWorkspaceMetadata_def split: if_splits)

lemma save_resets: "SaveTaskWorkspaceMetadata env repos d = Some d' \<Longrightarrow> resets d' = resets d"
  by (simp add: resets_def save_frame)

lemma init_frame:
  "InitTaskWorkspace env t d = (r, d') \<Longrightarrow> wd_effects d' = wd_effects d \<and> wd_git d' = wd_git d"
  by (auto simp: InitTaskWorkspace_def Let_def dest!: save_frame split: option.splits)

lemma load_frame:
  "LoadTaskWorkspace env t d = (r, d') \<Longrightarrow> wd_effects d' = wd_effects d \<and> wd_git d' = wd_git d"
  by (auto simp: LoadTaskWorkspace_def Let_def dest!: save_frame init_frame
      split: if_splits option.splits prod.splits bool.splits)

lemma load_or_init_frame:
  "(case LoadTaskWorkspace env t d of (Inl _, d1) \<Rightarrow> InitTaskWorkspace env t d1 | ok \<Rightarrow> ok) = (r, d') \<Longrightarrow>
   wd_effects d' = wd_effects d \<and> wd_git d' = wd_git d"
  by (auto split: prod.splits sum.splits dest!: load_frame init_frame)

lemma prepare_repo_keeps:
  "prepare_repo env t base keep w d = (r, d') \<Longrightarrow> keep \<or> t_parent_task_id t \<noteq> None \<Longrightarrow> resets d' = resets d"
  by (auto simp: prepare_repo_def Let_def split: if_splits sum.splits)

lemma prepare_repos_keeps:
  "prepare_repos env t base keep ws d = (r, d') \<Longrightarrow> keep \<or> t_parent_task_id t \<noteq> None \<Longrightarrow> resets d' = resets d"
proof (induction env t base keep ws d arbitrary: r d' rule: prepare_repos.induct)
  case (2 env t base keep w ws d)
  obtain x d1 where p: "prepare_repo env t base keep w d = (x, d1)" by fastforce
  note k = prepare_repo_keeps [OF p "2.prems"(2)]
  show ?case
  proof (cases x)
    case (Inr y)
    obtain w' new where y: "y = (w', new)" by fastforce
    obtain z d2 where q: "prepare_repos env t base keep ws d1 = (z, d2)" by fastforce
    with "2.IH" [OF p [symmetric] Inr y [symmetric] q "2.prems"(2)] "2.prems"(1) p Inr y k show ?thesis
      by (auto split: sum.splits prod.splits)
  qed (use "2.prems"(1) p k in auto)
qed simp

lemma restores_keep: "resets (fold (\<lambda>(s, p). disk_effect (RestorePatch s p)) ps d) = resets d"
  by (induction ps arbitrary: d) auto

lemma work_keeps_clones:
  assumes "has_work cps \<or> t_parent_task_id t \<noteq> None"
    and "EnsureWorkspaceCloned env t jobID cps arts d = (r, d')"
  shows "resets d' = resets d"
proof -
  obtain x d1 where l: "(case LoadTaskWorkspace env t d of (Inl _, d1) \<Rightarrow> InitTaskWorkspace env t d1 | ok \<Rightarrow> ok) = (x, d1)"
    by fastforce
  have 1: "resets d1 = resets d" using load_or_init_frame [OF l] by (simp add: resets_def)
  show ?thesis
  proof (cases x)
    case (Inr ws)
    obtain y d2 where p: "prepare_repos env t (tw_root ws) (has_work cps) (tw_repos ws) d1 = (y, d2)" by fastforce
    have 2: "resets d2 = resets d" using prepare_repos_keeps [OF p assms(1)] 1 by simp
    from 1 2 l p Inr assms(2) show ?thesis
      by (auto simp: EnsureWorkspaceCloned_def restores_keep
          dest!: save_resets split: option.splits sum.splits prod.splits if_splits)
  qed (use l 1 assms(2) in \<open>auto simp: EnsureWorkspaceCloned_def\<close>)
qed

text \<open>
  C18: A run that can read the checkpoints of its task throws away no finished or reviewed work: when one
  of them says that a specification or implementation step succeeded or waits for a human, the
  preparation of the workspace resets no checkout, whether it succeeds or fails. (When the checkpoints
  cannot be read every checkout is reset, see \<^verbatim>\<open>unread_checkpoints_reset_all\<close>.)
\<close>
theorem work_survives_a_new_run:
  assumes "EnsureWorkspaceCloned env t jobID (Some cps) arts d = (r, d')" and "cp \<in> set cps"
    and "cp_step cp \<in> {StepCLISpec, StepCLIImplement, StepCLIImplementBackend, StepCLIImplementFrontend}"
    and "cp_status cp \<in> {''success'', ''paused'', ''waiting_approval''}"
  shows "resets d' = resets d"
proof (rule work_keeps_clones [OF _ assms(1)])
  have "keeps_work cp" using assms(3,4) by (auto simp: keeps_work_def cp_status_def split: option.splits)
  then show "has_work (Some cps) \<or> t_parent_task_id t \<noteq> None"
    using assms(2) by (auto simp: has_work_def list_ex_iff)
qed

section \<open>Without the list of checkpoints\<close>

lemma prepare_repos_resets:
  assumes "t_parent_task_id t = None" and "\<forall>w \<in> set ws. path_join [base, rw_main w] \<in> set (wd_git d)"
    and "\<forall>p. ke_reset env p"
  shows "prepare_repos env t base False ws d =
    (Inr (map (name_integration t) ws, False), fold (\<lambda>w. disk_effect (ResetRepo (path_join [base, rw_main w]))) ws d)"
  using assms by (induction ws arbitrary: d) (simp_all add: prepare_repo_def Let_def)

lemma fold_resets:
  "wd_effects (fold (\<lambda>w. disk_effect (ResetRepo (f w))) ws d) = wd_effects d @ map (\<lambda>w. ResetRepo (f w)) ws"
  by (induction ws arbitrary: d) simp_all

text \<open>
  An error while the checkpoints are read counts as no work: every checkout of the task is then
  reset, whatever its steps had finished.
\<close>
theorem unread_checkpoints_reset_all:
  assumes "LoadTaskWorkspace env t d = (Inr ws, d1)" and "ke_lock env t jobID = None"
    and "t_parent_task_id t = None" and "\<forall>p. ke_reset env p"
    and "\<forall>w \<in> set (tw_repos ws). path_join [tw_root ws, rw_main w] \<in> set (wd_git d)"
  shows "wd_effects (snd (EnsureWorkspaceCloned env t jobID None arts d)) =
    wd_effects d @ map (\<lambda>w. ResetRepo (path_join [tw_root ws, rw_main w])) (tw_repos ws)"
proof -
  note f = load_frame [OF assms(1)]
  have p: "prepare_repos env t (tw_root ws) False (tw_repos ws) d1 =
    (Inr (map (name_integration t) (tw_repos ws), False),
     fold (\<lambda>w. disk_effect (ResetRepo (path_join [tw_root ws, rw_main w]))) (tw_repos ws) d1)"
    by (rule prepare_repos_resets) (use assms(3-5) f in auto)
  show ?thesis
    using assms(1,2) f p
    by (auto simp: EnsureWorkspaceCloned_def has_work_def fold_resets dest!: save_frame split: option.splits)
qed

section \<open>Repositories of the same name\<close>

fun is_clone :: "disk_effect \<Rightarrow> bool" where
  "is_clone (CloneRepo u b p) = True"
| "is_clone _ = False"

definition clones :: "wk_disk \<Rightarrow> disk_effect list" where
  "clones d = filter is_clone (wd_effects d)"

lemma restores_clone: "clones (fold (\<lambda>(s, p). disk_effect (RestorePatch s p)) ps d) = clones d"
  by (induction ps arbitrary: d) (auto simp: clones_def)

lemma restores_meta [simp]:
  "wd_meta (fold (\<lambda>(s, p). disk_effect (RestorePatch s p)) ps d) = wd_meta d"
  by (induction ps arbitrary: d) (auto simp: disk_effect_def)

lemma name_integration_simps [simp]:
  "rw_id (name_integration t w) = rw_id w" "rw_main (name_integration t w) = rw_main w"
  by (simp_all add: name_integration_def)

lemma prepare_second:
  assumes "path_join [base, rw_main w2] = path_join [base, rw_main w1]" and "wd_git d = []"
    and "prepare_repos env t base keep [w1, w2] d = (Inr (ws, new), d')"
  shows "clones d' = clones d @ [CloneRepo (clean_url (rw_url w1)) (rw_default_branch w1) (path_join [base, rw_main w1])] \<and>
    map rw_id ws = [rw_id w1, rw_id w2] \<and> map rw_main ws = [rw_main w1, rw_main w2]"
  using assms
  by (auto simp: prepare_repo_def Let_def clones_def disk_effect_def split: if_splits sum.splits)

text \<open>
  Two repositories of a project whose addresses end in the same name share one directory: only the
  first is cloned, and the steps work for both in the clone of the first.
\<close>
theorem same_name_shares_checkout:
  assumes "ke_repos env (t_project_id t) = Some [r1, r2]" and "gr_id r1 \<noteq> gr_id r2"
    and "repo_dir_name (clean_url (gr_url r1)) = repo_dir_name (clean_url (gr_url r2))"
    and "t_repository_id t = None" and "wd_git d = []" and "wd_readable d" and "wd_meta d = None"
    and "EnsureWorkspaceCloned env t jobID cps arts d = (None, d')"
  shows "\<exists>p branch repos. wd_meta d' = Some (Json repos) \<and>
    clones d' = clones d @ [CloneRepo (clean_url (clean_url (gr_url r1))) branch p] \<and>
    RepoHostPath env t (Some ((GetTaskWorkspace env t)\<lparr>tw_repos := repos\<rparr>)) r1 = p \<and>
    RepoHostPath env t (Some ((GetTaskWorkspace env t)\<lparr>tw_repos := repos\<rparr>)) r2 = p"
proof -
  let ?w1 = "new_repo_workspace t r1" and ?w2 = "new_repo_workspace t r2"
  let ?p = "path_join [tw_root (GetTaskWorkspace env t), rw_main ?w1]"
  have same: "rw_main ?w2 = rw_main ?w1" using assms(3) by (simp add: new_repo_workspace_def Let_def)
  have init: "(case LoadTaskWorkspace env t d of (Inl _, d1) \<Rightarrow> InitTaskWorkspace env t d1 | ok \<Rightarrow> ok) =
      InitTaskWorkspace env t d"
    using assms(6,7)
    by (auto simp: LoadTaskWorkspace_def InitTaskWorkspace_def Let_def split: option.splits)
  obtain d1 where d1: "SaveTaskWorkspaceMetadata env [?w1, ?w2] d = Some d1"
    using assms(1,4,8) unfolding EnsureWorkspaceCloned_def init
    by (auto simp: InitTaskWorkspace_def Let_def split: option.splits)
  then have l: "InitTaskWorkspace env t d = (Inr ((GetTaskWorkspace env t)\<lparr>tw_repos := [?w1, ?w2]\<rparr>), d1)"
    using assms(1,4) by (simp add: InitTaskWorkspace_def)
  obtain ws new d2 where p:
    "prepare_repos env t (tw_root (GetTaskWorkspace env t)) (has_work cps) [?w1, ?w2] d1 = (Inr (ws, new), d2)"
    using assms(8) l unfolding EnsureWorkspaceCloned_def init
    by (auto split: option.splits sum.splits prod.splits)
  have q: "wd_git d1 = []" "clones d1 = clones d" using save_frame [OF d1] assms(5) by (simp_all add: clones_def)
  note r = prepare_second [OF arg_cong [OF same] q(1) p]
  obtain d3 where d3: "SaveTaskWorkspaceMetadata env ws d2 = Some d3" "clones d' = clones d3" "wd_meta d' = wd_meta d3"
    using assms(8) l p unfolding EnsureWorkspaceCloned_def init
    by (auto simp: restores_clone split: option.splits if_splits)
  have meta: "wd_meta d' = Some (Json ws)" "clones d' = clones d2"
    using d3 save_frame [OF d3(1)] by (auto simp: SaveTaskWorkspaceMetadata_def clones_def split: if_splits)
  obtain v1 v2 where v: "ws = [v1, v2]" "rw_id v1 = gr_id r1" "rw_id v2 = gr_id r2"
    "rw_main v1 = rw_main ?w1" "rw_main v2 = rw_main ?w1"
    using r same by (auto simp: map_eq_Cons_conv new_repo_workspace_def Let_def)
  have "RepoHostPath env t (Some ((GetTaskWorkspace env t)\<lparr>tw_repos := ws\<rparr>)) r1 = ?p"
    "RepoHostPath env t (Some ((GetTaskWorkspace env t)\<lparr>tw_repos := ws\<rparr>)) r2 = ?p"
    using v assms(2) by (auto simp: RepoHostPath_def)
  with meta r q show ?thesis by (auto simp: new_repo_workspace_def Let_def)
qed

section \<open>A workspace to try it on\<close>

definition repo_at :: "string \<Rightarrow> string \<Rightarrow> git_repo" where
  "repo_at i url = \<lparr>gr_id = i, gr_project_id = ''p1'', gr_url = url, gr_branch = ''main''\<rparr>"

definition demo_wk :: "git_repo list \<Rightarrow> wk_env" where
  "demo_wk rs =
     \<lparr>ke_base = ''/w'', ke_cwd = None, ke_repos = (\<lambda>_. Some rs), ke_writable = True, ke_lock = (\<lambda>_ _. None),
      ke_reset = (\<lambda>_. True), ke_clone = (\<lambda>_ _ _. Inr ''main'')\<rparr>"

definition empty_disk :: wk_disk where
  "empty_disk = \<lparr>wd_root_exists = True, wd_meta = None, wd_readable = True, wd_git = [], wd_effects = []\<rparr>"

definition used_disk :: wk_disk where
  "used_disk = snd (EnsureWorkspaceCloned (demo_wk [repo_at ''r'' ''https://git/a.git'']) (demo_task ''t'' ''todo'') ''j''
     (Some []) None empty_disk)"

definition spec_done :: wf_checkpoint where
  "spec_done =
     \<lparr>cp_task_id = ''t'', cp_job_id = None, cp_step = StepCLISpec, cp_state = Json [(''status'', VString ''paused'')]\<rparr>"

theorem work_survives_a_new_run_witness:
  "resets (snd (EnsureWorkspaceCloned (demo_wk [repo_at ''r'' ''https://git/a.git'']) (demo_task ''t'' ''todo'') ''k''
     (Some [spec_done]) None used_disk)) = resets used_disk"
  by (rule work_survives_a_new_run [OF prod.collapse [symmetric], of spec_done]) code_simp+

theorem unread_checkpoints_reset_all_witness:
  "wd_effects (snd (EnsureWorkspaceCloned (demo_wk [repo_at ''r'' ''https://git/a.git'']) (demo_task ''t'' ''todo'') ''k''
     None None used_disk)) = wd_effects used_disk @ [ResetRepo ''/w/t/code/repos/a/main'']"
proof -
  let ?env = "demo_wk [repo_at ''r'' ''https://git/a.git'']" and ?t = "demo_task ''t'' ''todo''"
  let ?ws = "(GetTaskWorkspace ?env ?t)\<lparr>tw_repos := [new_repo_workspace ?t (repo_at ''r'' ''https://git/a.git'')]\<rparr>"
  have l: "LoadTaskWorkspace ?env ?t used_disk = (Inr ?ws, used_disk)" by code_simp
  have g: "\<forall>w \<in> set (tw_repos ?ws). path_join [tw_root ?ws, rw_main w] \<in> set (wd_git used_disk)" by code_simp
  have "path_join [tw_root ?ws, rw_main (new_repo_workspace ?t (repo_at ''r'' ''https://git/a.git''))] =
    ''/w/t/code/repos/a/main''" by code_simp
  with unread_checkpoints_reset_all [OF l _ _ _ g, where jobID = "''k''" and arts = None] show ?thesis by (simp add: demo_wk_def)
qed

theorem same_name_shares_checkout_witness:
  "\<exists>p branch repos.
    RepoHostPath (demo_wk [repo_at ''r'' ''https://git/x/api.git'', repo_at ''s'' ''https://git/y/api''])
      (demo_task ''t'' ''todo'')
      (Some ((GetTaskWorkspace (demo_wk [repo_at ''r'' ''https://git/x/api.git'', repo_at ''s'' ''https://git/y/api''])
         (demo_task ''t'' ''todo''))\<lparr>tw_repos := repos\<rparr>)) (repo_at ''s'' ''https://git/y/api'') = p \<and>
    clones (snd (EnsureWorkspaceCloned (demo_wk [repo_at ''r'' ''https://git/x/api.git'', repo_at ''s'' ''https://git/y/api''])
      (demo_task ''t'' ''todo'') ''j'' (Some []) None empty_disk)) = [CloneRepo ''https://git/x/api.git'' branch p]"
proof -
  let ?env = "demo_wk [repo_at ''r'' ''https://git/x/api.git'', repo_at ''s'' ''https://git/y/api'']"
  let ?t = "demo_task ''t'' ''todo''"
  have n: "repo_dir_name (clean_url (gr_url (repo_at ''r'' ''https://git/x/api.git''))) =
    repo_dir_name (clean_url (gr_url (repo_at ''s'' ''https://git/y/api'')))" by code_simp
  have "fst (EnsureWorkspaceCloned ?env ?t ''j'' (Some []) None empty_disk) = None" by code_simp
  then obtain d' where e: "EnsureWorkspaceCloned ?env ?t ''j'' (Some []) None empty_disk = (None, d')"
    by (metis prod.collapse)
  have u: "clean_url (clean_url (gr_url (repo_at ''r'' ''https://git/x/api.git''))) = ''https://git/x/api.git''" by code_simp
  from same_name_shares_checkout [OF _ _ n _ _ _ _ e] u e show ?thesis
    by (auto simp: demo_wk_def repo_at_def empty_disk_def clones_def)
qed

end
