(* ===== verification/Workspace_Lock.thy ===== *)
theory Workspace_Lock
  imports Workspaces "HOL-Library.Word"
begin

text \<open>
  The lock of a workspace (\<^verbatim>\<open>orchestrator/wkspace/locking.go\<close>, the advisory lock of
  \<^verbatim>\<open>repository/workflow.go\<close>) and the removal of workspaces (\<^verbatim>\<open>cleanup.go\<close>, \<^verbatim>\<open>pruner.go\<close>). The advisory
  lock is named by a task, the lock file by the workspace, which split tasks share. The phases of the
  acquisition are separate definitions: other runs move between them. Times are nanoseconds.
\<close>

section \<open>State\<close>

text \<open>The key of the advisory lock: FNV-1a over the task id.\<close>

definition advisory_key :: "string \<Rightarrow> 64 word" where
  "advisory_key taskID = fold (\<lambda>c h. (xor h (word_of_nat (of_char c))) * 1099511628211) taskID 14695981039346656037"

record lock_file =
  lf_task :: string
  lf_job :: string
  lf_heartbeat :: int
  lf_ttl :: int

text \<open>A file that is not JSON: cut off, or empty because the writer stopped before writing.\<close>

datatype lock_content = Garbled | Lock lock_file

text \<open>
  The keys other connections find taken, the tasks this process holds a connection and a heartbeat for,
  and the lock files by owner of the workspace.
\<close>

record lock_state =
  lk_db :: "64 word \<Rightarrow> bool"
  lk_conns :: "string \<Rightarrow> bool"
  lk_beats :: "string \<Rightarrow> string option"
  lk_files :: "string \<Rightarrow> lock_content option"

record lock_env =
  xk_postgres :: bool
  xk_now :: int
  xk_writable :: bool
  xk_write_ok :: bool

datatype lock_error =
    LockedInDB
  | LockedByJob string
  | LockFileExists
  | LockNotCreated
  | LockNotWritten

section \<open>The advisory lock\<close>

definition AcquireAdvisoryLock :: "lock_env \<Rightarrow> string \<Rightarrow> lock_state \<Rightarrow> bool \<times> lock_state" where
  "AcquireAdvisoryLock env taskID st =
     (if \<not> xk_postgres env then (True, st)
      else if lk_db st (advisory_key taskID) then (False, st)
      else (True, st\<lparr>lk_db := (lk_db st)(advisory_key taskID := True)\<rparr>))"

definition ReleaseAdvisoryLock :: "lock_env \<Rightarrow> string \<Rightarrow> lock_state \<Rightarrow> lock_state" where
  "ReleaseAdvisoryLock env taskID st =
     (if xk_postgres env then st\<lparr>lk_db := (lk_db st)(advisory_key taskID := False)\<rparr> else st)"

definition drop_conn :: "lock_env \<Rightarrow> string \<Rightarrow> lock_state \<Rightarrow> lock_state" where
  "drop_conn env taskID st =
     (if lk_conns st taskID
      then ReleaseAdvisoryLock env taskID (st\<lparr>lk_conns := (lk_conns st)(taskID := False)\<rparr>) else st)"

text \<open>Up to fifteen tries, a second apart; what others do before try \<open>i\<close> is an argument.\<close>

fun try_advisory :: "lock_env \<Rightarrow> (nat \<Rightarrow> lock_state \<Rightarrow> lock_state) \<Rightarrow> string \<Rightarrow> nat \<Rightarrow> lock_state \<Rightarrow> bool \<times> lock_state" where
  "try_advisory env others taskID 0 st = (False, st)"
| "try_advisory env others taskID (Suc n) st =
     (case AcquireAdvisoryLock env taskID (others n st) of
        (True, st') \<Rightarrow> (True, st'\<lparr>lk_conns := (lk_conns st')(taskID := True)\<rparr>)
      | (False, st') \<Rightarrow> try_advisory env others taskID n st')"

section \<open>The lock file\<close>

definition lock_fresh :: "int \<Rightarrow> lock_file \<Rightarrow> bool" where
  "lock_fresh now f \<longleftrightarrow>
     now - lf_heartbeat f < (if lf_ttl f = 0 then 300 else lf_ttl f) * 1000000000"

text \<open>Refused, already held by the job, held by a job that stopped beating, or not held.\<close>

datatype lock_check = Refuse lock_error | AlreadyMine | Stale | Free

definition check_lock_file :: "lock_env \<Rightarrow> task \<Rightarrow> string \<Rightarrow> lock_state \<Rightarrow> lock_check" where
  "check_lock_file env t jobID st =
     (case lk_files st (WorkspaceOwnerID t) of
        Some (Lock f) \<Rightarrow>
          if lf_job f \<noteq> jobID then (if lock_fresh (xk_now env) f then Refuse (LockedByJob (lf_job f)) else Stale)
          else AlreadyMine
      | _ \<Rightarrow> Free)"

text \<open>The removal of a stale file removes whatever is at its path by then.\<close>

definition remove_lock_file :: "string \<Rightarrow> lock_state \<Rightarrow> lock_state" where
  "remove_lock_file owner st = st\<lparr>lk_files := (lk_files st)(owner := None)\<rparr>"

definition create_lock_file ::
  "lock_env \<Rightarrow> task \<Rightarrow> string \<Rightarrow> lock_state \<Rightarrow> lock_error option \<times> lock_state" where
  "create_lock_file env t jobID st =
     (if \<not> xk_writable env then (Some LockNotCreated, drop_conn env (t_id t) st)
      else if lk_files st (WorkspaceOwnerID t) \<noteq> None then (Some LockFileExists, drop_conn env (t_id t) st)
      else if \<not> xk_write_ok env
      then (Some LockNotWritten, st\<lparr>lk_files := (lk_files st)(WorkspaceOwnerID t := Some Garbled)\<rparr>)
      else (None,
        st\<lparr>lk_files := (lk_files st)(WorkspaceOwnerID t := Some (Lock
               \<lparr>lf_task = t_id t, lf_job = jobID, lf_heartbeat = xk_now env, lf_ttl = 300\<rparr>)),
           lk_beats := (lk_beats st)(t_id t := Some jobID)\<rparr>))"

definition AcquireWorkspaceLock ::
  "lock_env \<Rightarrow> (nat \<Rightarrow> lock_state \<Rightarrow> lock_state) \<Rightarrow> task \<Rightarrow> string \<Rightarrow> lock_state \<Rightarrow> lock_error option \<times> lock_state" where
  "AcquireWorkspaceLock env others t jobID st =
     (case try_advisory env others (t_id t) 15 st of
        (False, st1) \<Rightarrow> (Some LockedInDB, st1)
      | (True, st1) \<Rightarrow>
          (case check_lock_file env t jobID st1 of
             Refuse e \<Rightarrow> (Some e, drop_conn env (t_id t) st1)
           | AlreadyMine \<Rightarrow> (None, st1)
           | Stale \<Rightarrow> create_lock_file env t jobID (remove_lock_file (WorkspaceOwnerID t) st1)
           | Free \<Rightarrow> create_lock_file env t jobID st1))"

text \<open>The owner of the workspace is looked up; without a row the task is taken for it.\<close>

definition owner_of :: "db \<Rightarrow> string \<Rightarrow> string" where
  "owner_of d taskID = (case get_task d taskID of Inl _ \<Rightarrow> taskID | Inr t \<Rightarrow> WorkspaceOwnerID t)"

definition ReleaseWorkspaceLock :: "lock_env \<Rightarrow> db \<Rightarrow> string \<Rightarrow> lock_state \<Rightarrow> lock_state" where
  "ReleaseWorkspaceLock env d taskID st =
     (let held = lk_beats st taskID \<noteq> None \<or> lk_conns st taskID;
          st1 = drop_conn env taskID (st\<lparr>lk_beats := (lk_beats st)(taskID := None)\<rparr>)
      in if held then st1\<lparr>lk_files := (lk_files st1)(owner_of d taskID := None)\<rparr> else st1)"

text \<open>One beat: the file is read, and written back with the new time when it still names the job.\<close>

definition read_beat :: "string \<Rightarrow> string \<Rightarrow> lock_state \<Rightarrow> lock_file option" where
  "read_beat owner jobID st =
     (case lk_files st owner of Some (Lock f) \<Rightarrow> if lf_job f = jobID then Some f else None | _ \<Rightarrow> None)"

definition write_beat :: "int \<Rightarrow> string \<Rightarrow> lock_file \<Rightarrow> lock_state \<Rightarrow> lock_state" where
  "write_beat now owner f st = st\<lparr>lk_files := (lk_files st)(owner := Some (Lock (f\<lparr>lf_heartbeat := now\<rparr>)))\<rparr>"

section \<open>A lock that is respected\<close>

lemma drop_conn_files [simp]: "lk_files (drop_conn env i st) = lk_files st" "lk_beats (drop_conn env i st) = lk_beats st"
  by (simp_all add: drop_conn_def ReleaseAdvisoryLock_def)

lemma advisory_frame: "AcquireAdvisoryLock env i st = (b, st') \<Longrightarrow> lk_files st' = lk_files st \<and> lk_beats st' = lk_beats st"
  by (auto simp: AcquireAdvisoryLock_def split: if_splits)

text \<open>
  What may happen while a run waits for the workspace of \<open>owner\<close>, before the time \<open>now\<close> at which it reads
  the file: acquisitions by any job of any task, the beats of any lock, and releases of other workspaces.
  Only a release of this workspace is left out (a run that was refused does release it, see
  \<open>refused_run_unlocks\<close>), and a beat is one step.
\<close>

inductive fair_move :: "db \<Rightarrow> string \<Rightarrow> int \<Rightarrow> lock_state \<Rightarrow> lock_state \<Rightarrow> bool" for d owner now where
  acquires: "xk_now env \<le> now \<Longrightarrow> AcquireWorkspaceLock env (\<lambda>i s. s) t jobID st = (r, st') \<Longrightarrow> fair_move d owner now st st'"
| releases: "owner_of d i \<noteq> owner \<Longrightarrow> fair_move d owner now st (ReleaseWorkspaceLock env d i st)"
| beats: "read_beat o' jobID st = Some f \<Longrightarrow> lf_heartbeat f \<le> time \<Longrightarrow>
    fair_move d owner now st (write_beat time o' f st)"

text \<open>The file still is the holder's, with no older a heartbeat.\<close>

definition still_held :: "string \<Rightarrow> lock_file \<Rightarrow> lock_state \<Rightarrow> bool" where
  "still_held owner f st \<longleftrightarrow>
     (\<exists>f'. lk_files st owner = Some (Lock f') \<and> lf_job f' = lf_job f \<and> lf_ttl f' = lf_ttl f \<and>
       lf_heartbeat f \<le> lf_heartbeat f')"

lemma still_held_same: "lk_files st' = lk_files st \<Longrightarrow> still_held owner f st' = still_held owner f st"
  by (simp add: still_held_def)

lemma fresh_later:
  "lock_fresh now f \<Longrightarrow> lf_ttl f' = lf_ttl f \<Longrightarrow> lf_heartbeat f \<le> lf_heartbeat f' \<Longrightarrow> t \<le> now \<Longrightarrow> lock_fresh t f'"
  unfolding lock_fresh_def by (cases "lf_ttl f = 0") auto

lemma try_advisory_idle: "try_advisory env (\<lambda>i s. s) i n st = (b, st') \<Longrightarrow> lk_files st' = lk_files st"
  by (induction n arbitrary: st) (auto simp: AcquireAdvisoryLock_def split: if_splits)

lemma create_other_owner:
  "create_lock_file env t jobID st = (r, st') \<Longrightarrow> WorkspaceOwnerID t \<noteq> owner \<Longrightarrow>
   lk_files st' owner = lk_files st owner"
  by (auto simp: create_lock_file_def split: if_splits)

lemma acquire_still_held:
  assumes "AcquireWorkspaceLock env (\<lambda>i s. s) t jobID st = (r, st')" and "xk_now env \<le> now"
    and "still_held owner f st" and "lock_fresh now f"
  shows "still_held owner f st'"
proof -
  obtain b st1 where a: "try_advisory env (\<lambda>i s. s) (t_id t) 15 st = (b, st1)" by fastforce
  have files: "lk_files st1 = lk_files st" by (rule try_advisory_idle [OF a])
  have "lk_files st' owner = lk_files st1 owner"
  proof (cases "WorkspaceOwnerID t = owner")
    case True
    obtain f' where f': "lk_files st1 owner = Some (Lock f')" "lock_fresh (xk_now env) f'"
      using assms(2,3,4) fresh_later files by (auto simp: still_held_def)
    with True a assms(1) show ?thesis
      by (cases b) (auto simp: AcquireWorkspaceLock_def check_lock_file_def split: if_splits)
  next
    case False
    with a assms(1) show ?thesis
      by (cases b) (auto simp: AcquireWorkspaceLock_def remove_lock_file_def split: lock_check.splits
          dest!: create_other_owner [where owner = owner])
  qed
  with files assms(3) show ?thesis by (simp add: still_held_def)
qed

lemma fair_move_still_held:
  "fair_move d owner now st st' \<Longrightarrow> lock_fresh now f \<Longrightarrow> still_held owner f st \<Longrightarrow> still_held owner f st'"
proof (induction rule: fair_move.induct)
  case (acquires env t jobID st r st')
  then show ?case using acquire_still_held by blast
next
  case (releases i st env)
  then show ?case by (auto simp: ReleaseWorkspaceLock_def still_held_def Let_def)
next
  case (beats o' jobID st g time)
  then show ?case
    by (auto simp: still_held_def write_beat_def read_beat_def split: option.splits lock_content.splits if_splits)
qed

lemma fair_moves_still_held:
  assumes "(fair_move d owner now)\<^sup>*\<^sup>* st st'" and "lock_fresh now f" and "still_held owner f st"
  shows "still_held owner f st'"
  using assms by (induction rule: rtranclp_induct) (auto intro: fair_move_still_held)

lemma try_advisory_still_held:
  "try_advisory env others i n st = (b, st') \<Longrightarrow> (\<And>k s. (fair_move d owner now)\<^sup>*\<^sup>* s (others k s)) \<Longrightarrow>
   lock_fresh now f \<Longrightarrow> still_held owner f st \<Longrightarrow> still_held owner f st'"
proof (induction n arbitrary: st)
  case (Suc n)
  obtain c s1 where a: "AcquireAdvisoryLock env i (others n st) = (c, s1)" by fastforce
  have h: "still_held owner f s1"
    using advisory_frame [OF a] fair_moves_still_held [OF Suc.prems(2,3,4)] still_held_same by blast
  show ?case
  proof (cases c)
    case True
    with Suc.prems(1) a h show ?thesis by (auto simp: still_held_def)
  next
    case False
    with Suc.prems(1) a have "try_advisory env others i n s1 = (b, st')" by simp
    from Suc.IH [OF this Suc.prems(2,3) h] show ?thesis .
  qed
qed simp

text \<open>
  C19: While a job keeps its lock file fresh, no other job gets the workspace, neither one of the same
  task nor one of a task that shares it: the acquisition is refused, and the lock is still the holder's.
  Between its tries other runs may try to acquire this or another workspace, every lock may beat and
  other workspaces may be released, in any order; only a release of this very workspace is excluded.
\<close>
theorem fresh_lock_excludes:
  assumes "lk_files st (WorkspaceOwnerID t) = Some (Lock f)" and "lf_job f \<noteq> jobID" and "lock_fresh (xk_now env) f"
    and "\<And>i s. (fair_move d (WorkspaceOwnerID t) (xk_now env))\<^sup>*\<^sup>* s (others i s)"
    and "AcquireWorkspaceLock env others t jobID st = (r, st')"
  shows "r \<in> {Some LockedInDB, Some (LockedByJob (lf_job f))} \<and>
    (\<exists>f'. lk_files st' (WorkspaceOwnerID t) = Some (Lock f') \<and> lf_job f' = lf_job f \<and> lf_heartbeat f \<le> lf_heartbeat f')"
proof -
  obtain b st1 where a: "try_advisory env others (t_id t) 15 st = (b, st1)" by fastforce
  have "still_held (WorkspaceOwnerID t) f st" using assms(1) by (simp add: still_held_def)
  from try_advisory_still_held [OF a assms(4,3) this] have h: "still_held (WorkspaceOwnerID t) f st1" .
  then obtain f' where f': "lk_files st1 (WorkspaceOwnerID t) = Some (Lock f')" "lf_job f' = lf_job f"
    "lock_fresh (xk_now env) f'" "lf_heartbeat f \<le> lf_heartbeat f'"
    using fresh_later [OF assms(3)] by (auto simp: still_held_def)
  with a assms(2,5) show ?thesis
    by (cases b) (auto simp: AcquireWorkspaceLock_def check_lock_file_def)
qed

section \<open>A release that is not respected\<close>

text \<open>Nothing happens while a run waits.\<close>

definition quiet :: "nat \<Rightarrow> lock_state \<Rightarrow> lock_state" where
  "quiet i st = st"

lemma try_refused:
  "xk_postgres env \<Longrightarrow> lk_db st (advisory_key i) \<Longrightarrow> try_advisory env quiet i n st = (False, st)"
  by (induction n) (auto simp: AcquireAdvisoryLock_def quiet_def)

lemma try_granted:
  "\<not> lk_db st (advisory_key i) \<Longrightarrow>
   try_advisory env quiet i (Suc n) st =
     (True, st\<lparr>lk_db := (if xk_postgres env then (lk_db st)(advisory_key i := True) else lk_db st),
                lk_conns := (lk_conns st)(i := True)\<rparr>)"
  by (simp add: AcquireAdvisoryLock_def quiet_def)

text \<open>
  A run that is refused because its task is running releases the lock of the run that holds it:
  the deferred release looks the connection and the heartbeat up by the task. The next run then gets the
  workspace while the first one still works in it.
\<close>
theorem refused_run_unlocks:
  assumes "xk_postgres env" and "lk_db st (advisory_key (t_id t))" and "lk_conns st (t_id t)"
    and "get_task d (t_id t) = Inr t" and "xk_writable env" and "xk_write_ok env"
  shows "\<exists>st1 st2. AcquireWorkspaceLock env quiet t second st = (Some LockedInDB, st1) \<and>
    AcquireWorkspaceLock env quiet t third (ReleaseWorkspaceLock env d (t_id t) st1) = (None, st2)"
proof -
  have 1: "AcquireWorkspaceLock env quiet t second st = (Some LockedInDB, st)"
    using try_refused [OF assms(1,2)] by (simp add: AcquireWorkspaceLock_def)
  let ?s = "ReleaseWorkspaceLock env d (t_id t) st"
  have free: "\<not> lk_db ?s (advisory_key (t_id t))" "lk_files ?s (WorkspaceOwnerID t) = None"
    using assms(1,3,4) by (auto simp: ReleaseWorkspaceLock_def drop_conn_def ReleaseAdvisoryLock_def owner_of_def Let_def)
  have "15 = Suc 14" by simp
  then have "\<exists>st2. AcquireWorkspaceLock env quiet t third ?s = (None, st2)"
    using try_granted [OF free(1), of env 14] free(2) assms(5,6)
    by (simp add: AcquireWorkspaceLock_def check_lock_file_def create_lock_file_def)
  with 1 show ?thesis by blast
qed

section \<open>A shared workspace\<close>

text \<open>
  Two tasks that share a workspace can both get it. When both find the lock file of a stopped job
  before either has removed it, the second removes the file the first has just created, and both go on;
  the advisory locks do not meet, because each is named by its own task.
\<close>
theorem siblings_both_hold:
  assumes "WorkspaceOwnerID u = WorkspaceOwnerID t" and "advisory_key (t_id u) \<noteq> advisory_key (t_id t)"
    and "\<not> lk_db st (advisory_key (t_id t))" and "\<not> lk_db st (advisory_key (t_id u))"
    and "lk_files st (WorkspaceOwnerID t) = Some (Lock f)" and "\<not> lock_fresh (xk_now env) f" and "lf_job f \<notin> {j, k}"
    and "xk_writable env" and "xk_write_ok env"
  shows "\<exists>s1 s2 s3 s4. try_advisory env quiet (t_id t) 15 st = (True, s1) \<and> check_lock_file env t j s1 = Stale \<and>
    try_advisory env quiet (t_id u) 15 s1 = (True, s2) \<and> check_lock_file env u k s2 = Stale \<and>
    create_lock_file env t j (remove_lock_file (WorkspaceOwnerID t) s2) = (None, s3) \<and>
    create_lock_file env u k (remove_lock_file (WorkspaceOwnerID u) s3) = (None, s4)"
proof -
  have n: "15 = Suc 14" by simp
  let ?s1 = "st\<lparr>lk_db := (if xk_postgres env then (lk_db st)(advisory_key (t_id t) := True) else lk_db st),
    lk_conns := (lk_conns st)(t_id t := True)\<rparr>"
  have a: "try_advisory env quiet (t_id t) 15 st = (True, ?s1)"
    unfolding n by (rule try_granted [OF assms(3)])
  have "\<not> lk_db ?s1 (advisory_key (t_id u))" using assms(2,4) by simp
  from try_granted [OF this, of env 14] obtain s2 where
    b: "try_advisory env quiet (t_id u) 15 ?s1 = (True, s2)" "lk_files s2 = lk_files st"
    unfolding n by simp
  from assms(5,6,7) b(2) have c: "check_lock_file env t j ?s1 = Stale" "check_lock_file env u k s2 = Stale"
    using assms(1) by (auto simp: check_lock_file_def)
  obtain s3 where d: "create_lock_file env t j (remove_lock_file (WorkspaceOwnerID t) s2) = (None, s3)"
    using assms(8,9) by (simp add: create_lock_file_def remove_lock_file_def)
  obtain s4 where "create_lock_file env u k (remove_lock_file (WorkspaceOwnerID u) s3) = (None, s4)"
    using assms(8,9) by (simp add: create_lock_file_def remove_lock_file_def)
  with a b c d show ?thesis by blast
qed

section \<open>A file that was never written\<close>

text \<open>The runs of the tasks of a database on the locks: acquisitions, releases and beats in any order.\<close>

inductive lock_move :: "db \<Rightarrow> lock_state \<Rightarrow> lock_state \<Rightarrow> bool" for d where
  acquires: "get_task d (t_id t) = Inr t \<Longrightarrow> AcquireWorkspaceLock env quiet t jobID st = (r, st') \<Longrightarrow> lock_move d st st'"
| releases: "lock_move d st (ReleaseWorkspaceLock env d i st)"
| beats: "read_beat owner jobID st = Some f \<Longrightarrow> lock_move d st (write_beat now owner f st)"

inductive_cases lock_moveE: "lock_move d st st'"

text \<open>No task of the workspace has anything this process could release.\<close>

definition orphaned :: "db \<Rightarrow> string \<Rightarrow> lock_state \<Rightarrow> bool" where
  "orphaned d owner st \<longleftrightarrow>
     lk_files st owner = Some Garbled \<and>
     (\<forall>i. owner_of d i = owner \<longrightarrow> \<not> lk_conns st i \<and> lk_beats st i = None)"

lemma quiet_try:
  "try_advisory env quiet i n st = (b, st') \<Longrightarrow>
   lk_files st' = lk_files st \<and> lk_beats st' = lk_beats st \<and>
   (if b then lk_conns st' = (lk_conns st)(i := True) else lk_conns st' = lk_conns st)"
  by (induction n arbitrary: st) (auto simp: quiet_def AcquireAdvisoryLock_def split: if_splits)

lemma drop_conn_conns: "lk_conns (drop_conn env i st) = (lk_conns st)(i := False)"
  by (rule ext) (auto simp: drop_conn_def ReleaseAdvisoryLock_def)

lemma orphaned_acquire:
  assumes "orphaned d (WorkspaceOwnerID t) st" and "get_task d (t_id t) = Inr t"
    and "AcquireWorkspaceLock env quiet t jobID st = (r, st')"
  shows "r \<in> {Some LockedInDB, Some LockNotCreated, Some LockFileExists} \<and> orphaned d (WorkspaceOwnerID t) st'"
proof -
  obtain b s1 where a: "try_advisory env quiet (t_id t) 15 st = (b, s1)" by fastforce
  note q = quiet_try [OF a]
  show ?thesis
  proof (cases b)
    case True
    have "check_lock_file env t jobID s1 = Free" using assms(1) q by (simp add: check_lock_file_def orphaned_def)
    moreover have "lk_conns (drop_conn env (t_id t) s1) = (lk_conns st)(t_id t := False)"
      using q True by (simp add: drop_conn_conns)
    ultimately show ?thesis
      using a True assms q
      by (auto simp: AcquireWorkspaceLock_def create_lock_file_def orphaned_def split: if_splits)
  qed (use a q assms in \<open>auto simp: AcquireWorkspaceLock_def orphaned_def\<close>)
qed

lemma acquire_elsewhere:
  assumes "AcquireWorkspaceLock env quiet t jobID st = (r, st')" and "owner \<noteq> WorkspaceOwnerID t" and "i \<noteq> t_id t"
  shows "lk_files st' owner = lk_files st owner \<and> lk_conns st' i = lk_conns st i \<and> lk_beats st' i = lk_beats st i"
proof -
  obtain b s1 where a: "try_advisory env quiet (t_id t) 15 st = (b, s1)" by fastforce
  from quiet_try [OF a] a assms show ?thesis
    by (auto simp: AcquireWorkspaceLock_def create_lock_file_def remove_lock_file_def drop_conn_conns
        split: if_splits bool.splits lock_check.splits)
qed

lemma orphaned_move:
  assumes "lock_move d st st'" and "orphaned d owner st"
  shows "orphaned d owner st'"
  using assms(1)
proof cases
  case (acquires t env jobID r)
  note 1 = acquires
  have o: "owner_of d (t_id t) = WorkspaceOwnerID t" using 1(1) by (simp add: owner_of_def)
  show ?thesis
  proof (cases "owner = WorkspaceOwnerID t")
    case True
    then show ?thesis using orphaned_acquire [OF _ 1] assms(2) by simp
  next
    case False
    have "\<not> lk_conns st' i \<and> lk_beats st' i = None" if "owner_of d i = owner" for i
      using acquire_elsewhere [OF 1(2) False] assms(2) that o False by (metis orphaned_def)
    moreover have "lk_files st' owner = lk_files st owner"
      using acquire_elsewhere [OF 1(2) False, of "t_id t @ ''x''"] by simp
    ultimately show ?thesis using assms(2) by (simp add: orphaned_def)
  qed
next
  case (releases env i)
  then show ?thesis using assms(2)
    by (auto simp: ReleaseWorkspaceLock_def Let_def orphaned_def drop_conn_conns)
next
  case (beats ow jobID f now)
  then show ?thesis using assms(2)
    by (auto simp: orphaned_def read_beat_def write_beat_def)
qed

lemma orphaned_moves: "(lock_move d)\<^sup>*\<^sup>* st st' \<Longrightarrow> orphaned d owner st \<Longrightarrow> orphaned d owner st'"
  by (induction rule: rtranclp_induct) (auto intro: orphaned_move)

text \<open>
  A lock file that was created but never written blocks its workspace for good. When the server has
  stopped in between and starts again, no run of any task of the workspace gets it, however many have
  tried and released before: such a file is neither read nor removed as stale.
\<close>
theorem garbled_lock_blocks_forever:
  assumes "orphaned d (WorkspaceOwnerID t) st" and "(lock_move d)\<^sup>*\<^sup>* st st'" and "get_task d (t_id t) = Inr t"
    and "AcquireWorkspaceLock env quiet t jobID st' = (r, st'')"
  shows "r \<in> {Some LockedInDB, Some LockNotCreated, Some LockFileExists}"
  using orphaned_acquire [OF orphaned_moves [OF assms(2,1)] assms(3,4)] by simp

section \<open>A beat after the release\<close>

text \<open>
  A beat that has read the lock file before the release writes it back after: the workspace looks
  locked by the finished job, and other jobs are refused until the lock has aged.
\<close>
theorem late_beat_locks_again:
  assumes "read_beat (WorkspaceOwnerID t) finished st = Some f" and "lf_job f = finished" and "next_job \<noteq> finished"
    and "xk_now env < now + 300 * 1000000000" and "lf_ttl f = 300"
    and "AcquireWorkspaceLock env quiet t next_job
      (write_beat now (WorkspaceOwnerID t) f (ReleaseWorkspaceLock env' d taskID st)) = (r, st')"
  shows "r \<in> {Some LockedInDB, Some (LockedByJob finished)}"
proof -
  let ?s = "write_beat now (WorkspaceOwnerID t) f (ReleaseWorkspaceLock env' d taskID st)"
  have "lk_files ?s (WorkspaceOwnerID t) = Some (Lock (f\<lparr>lf_heartbeat := now\<rparr>))" by (simp add: write_beat_def)
  moreover have "lock_fresh (xk_now env) (f\<lparr>lf_heartbeat := now\<rparr>)"
    using assms(4,5) by (simp add: lock_fresh_def)
  moreover obtain b s1 where a: "try_advisory env quiet (t_id t) 15 ?s = (b, s1)" by fastforce
  ultimately show ?thesis
    using quiet_try [OF a] assms(2,3,6)
    by (cases b) (auto simp: AcquireWorkspaceLock_def check_lock_file_def)
qed

section \<open>Cleaning up\<close>

text \<open>
  \<^verbatim>\<open>PartialCleanupWorkspace\<close>: all clones of a workspace are removed and the worktrees are forgotten. Whether
  the directory of the clones exists is an argument. The diffs it stores beside are not read back.
\<close>

definition forget_worktrees :: "repo_workspace \<Rightarrow> repo_workspace" where
  "forget_worktrees w = w\<lparr>rw_worktrees := [], rw_roles := []\<rparr>"

definition PartialCleanupWorkspace ::
  "wk_env \<Rightarrow> db \<Rightarrow> bool \<Rightarrow> string \<Rightarrow> (string \<Rightarrow> wk_disk) \<Rightarrow> string \<Rightarrow> wk_disk" where
  "PartialCleanupWorkspace kenv d exists_dir taskID disks =
     (if \<not> exists_dir then disks
      else (let disks1 = disks(taskID := (disks taskID)\<lparr>wd_git := []\<rparr>)
            in case get_task d taskID of
                 Inl _ \<Rightarrow> disks1
               | Inr t \<Rightarrow>
                   (case LoadTaskWorkspace kenv t (disks1 (WorkspaceOwnerID t)) of
                      (Inl _, dk) \<Rightarrow> disks1(WorkspaceOwnerID t := dk)
                    | (Inr ws, dk) \<Rightarrow>
                        disks1(WorkspaceOwnerID t :=
                          or_zero dk (SaveTaskWorkspaceMetadata kenv (map forget_worktrees (tw_repos ws)) dk)))))"

text \<open>The lock is released at once; only the owner of a workspace takes its clones with it.\<close>

definition CleanupWorkspaceAfterFinalState ::
  "lock_env \<Rightarrow> wk_env \<Rightarrow> db \<Rightarrow> bool \<Rightarrow> string \<Rightarrow> lock_state \<times> (string \<Rightarrow> wk_disk) \<Rightarrow> lock_state \<times> (string \<Rightarrow> wk_disk)" where
  "CleanupWorkspaceAfterFinalState env kenv d exists_dir taskID s =
     (let locks = ReleaseWorkspaceLock env d taskID (fst s);
          child = (case get_task d taskID of Inl _ \<Rightarrow> False | Inr t \<Rightarrow> t_parent_task_id t \<noteq> None)
      in if child then (locks, snd s)
         else (ReleaseWorkspaceLock env d taskID locks, PartialCleanupWorkspace kenv d exists_dir taskID (snd s)))"

text \<open>What \<^verbatim>\<open>RemoveWorkspace\<close> deletes; how a task names its directory is the sandbox library's.\<close>

definition RemoveWorkspace ::
  "(string \<Rightarrow> string \<Rightarrow> string) \<Rightarrow> string option \<Rightarrow> string \<Rightarrow> string \<Rightarrow> string option" where
  "RemoveWorkspace workspace_path cwd base0 taskID =
     (let base = (if base0 = '''' then ''/tmp/auto-code-os/workspaces'' else base0)
      in if trim_space taskID = '''' then None
         else (case (path_abs cwd base, path_abs cwd (workspace_path base taskID)) of
                 (Some r, Some p) \<Rightarrow> if p \<noteq> r \<and> has_prefix p (r @ slash) then Some p else None
               | _ \<Rightarrow> None))"

datatype prune_action = RemoveAll | RemoveClones | KeepWorkspace

text \<open>The text of an error decides whether the task is gone.\<close>

definition prune_entry :: "(repo_error \<Rightarrow> string) \<Rightarrow> int \<Rightarrow> int \<Rightarrow> repo_error + task \<Rightarrow> prune_action" where
  "prune_entry text_of cutoff modified found =
     (if modified < cutoff then RemoveAll
      else (case found of
              Inl e \<Rightarrow> if str_contains (to_lower (text_of e)) ''not found'' then RemoveAll else KeepWorkspace
            | Inr t \<Rightarrow> if t_status t \<in> {TaskStatusMerged, TaskStatusFailed} then RemoveClones else KeepWorkspace))"

text \<open>Whatever the library makes of a task id, nothing outside the directory of the workspaces is removed.\<close>

lemma RemoveWorkspace_contained:
  "RemoveWorkspace wp cwd base0 taskID = Some p \<Longrightarrow>
   \<exists>r. path_abs cwd (if base0 = '''' then ''/tmp/auto-code-os/workspaces'' else base0) = Some r \<and>
     has_prefix p (r @ slash) \<and> p \<noteq> r"
  by (auto simp: RemoveWorkspace_def Let_def split: if_splits option.splits)

text \<open>Old means not changed in the directory itself: also the workspace of a task that waits is removed.\<close>

lemma prune_ignores_status: "modified < cutoff \<Longrightarrow> prune_entry text_of cutoff modified found = RemoveAll"
  by (simp add: prune_entry_def)

section \<open>Locks to try it on\<close>

definition pg_lock :: "int \<Rightarrow> lock_env" where
  "pg_lock now = \<lparr>xk_postgres = True, xk_now = now, xk_writable = True, xk_write_ok = True\<rparr>"

definition no_lock :: lock_state where
  "no_lock = \<lparr>lk_db = (\<lambda>_. False), lk_conns = (\<lambda>_. False), lk_beats = (\<lambda>_. None), lk_files = (\<lambda>_. None)\<rparr>"

definition held_by_j :: lock_state where
  "held_by_j = snd (AcquireWorkspaceLock (pg_lock 0) quiet (demo_task ''t'' ''coding'') ''j'' no_lock)"

lemma held_by_j_file:
  "lk_files held_by_j ''t'' = Some (Lock \<lparr>lf_task = ''t'', lf_job = ''j'', lf_heartbeat = 0, lf_ttl = 300\<rparr>)"
  by code_simp

text \<open>The holder beats before every try of the other job.\<close>

definition beating :: "nat \<Rightarrow> lock_state \<Rightarrow> lock_state" where
  "beating i s =
     (case read_beat ''t'' ''j'' s of
        None \<Rightarrow> s
      | Some f \<Rightarrow> if lf_heartbeat f \<le> 500 then write_beat 500 ''t'' f s else s)"

lemma beating_fair: "(fair_move d owner now)\<^sup>*\<^sup>* s (beating i s)"
  by (auto simp: beating_def split: option.split intro!: r_into_rtranclp fair_move.beats)

theorem fresh_lock_excludes_witness:
  "fst (AcquireWorkspaceLock (pg_lock 1000) beating (demo_task ''t'' ''coding'') ''k'' held_by_j) \<noteq> None"
proof -
  have f: "lk_files held_by_j (WorkspaceOwnerID (demo_task ''t'' ''coding'')) =
     Some (Lock \<lparr>lf_task = ''t'', lf_job = ''j'', lf_heartbeat = 0, lf_ttl = 300\<rparr>)" by code_simp
  from fresh_lock_excludes [where others = beating and jobID = "''k''" and env = "pg_lock 1000", OF f _ _ beating_fair prod.collapse [symmetric]] show ?thesis
    by (auto simp: lock_fresh_def pg_lock_def)
qed

definition one_task :: db where
  "one_task = demo_db [demo_task ''t'' ''coding'']"

lemma one_task_row: "get_task one_task (t_id (demo_task ''t'' ''coding'')) = Inr (demo_task ''t'' ''coding'')"
  by (simp add: one_task_def get_task_def find_row_def)

theorem refused_run_unlocks_witness:
  "\<exists>st1 st2. AcquireWorkspaceLock (pg_lock 1) quiet (demo_task ''t'' ''coding'') ''j'' held_by_j = (Some LockedInDB, st1) \<and>
    AcquireWorkspaceLock (pg_lock 1) quiet (demo_task ''t'' ''coding'') ''k''
      (ReleaseWorkspaceLock (pg_lock 1) one_task ''t'' st1) = (None, st2)"
proof -
  have "lk_db held_by_j (advisory_key (t_id (demo_task ''t'' ''coding'')))"
    "lk_conns held_by_j (t_id (demo_task ''t'' ''coding''))" by code_simp+
  from refused_run_unlocks [OF _ this one_task_row, of "pg_lock 1" "''j''" "''k''"] show ?thesis
    by (simp add: pg_lock_def)
qed

definition child_of :: "string \<Rightarrow> string \<Rightarrow> task" where
  "child_of p i = (demo_task i ''coding'')\<lparr>t_parent_task_id := Some p\<rparr>"

definition stale_lock :: lock_state where
  "stale_lock = no_lock\<lparr>lk_files := (\<lambda>_. None)(''p'' \<mapsto>
     Lock \<lparr>lf_task = ''x'', lf_job = ''old'', lf_heartbeat = 0, lf_ttl = 300\<rparr>)\<rparr>"

theorem siblings_both_hold_witness:
  "\<exists>s2 s3 s4. create_lock_file (pg_lock 1000000000000) (child_of ''p'' ''a'') ''j'' (remove_lock_file ''p'' s2) = (None, s3) \<and>
    create_lock_file (pg_lock 1000000000000) (child_of ''p'' ''b'') ''k'' (remove_lock_file ''p'' s3) = (None, s4)"
proof -
  have o: "WorkspaceOwnerID (child_of ''p'' ''b'') = WorkspaceOwnerID (child_of ''p'' ''a'')"
    "WorkspaceOwnerID (child_of ''p'' ''a'') = ''p''" by (simp_all add: child_of_def WorkspaceOwnerID_def)
  have k: "advisory_key (t_id (child_of ''p'' ''b'')) \<noteq> advisory_key (t_id (child_of ''p'' ''a''))" by code_simp
  have free: "\<not> lk_db stale_lock x" for x by (simp add: stale_lock_def no_lock_def)
  have f: "lk_files stale_lock (WorkspaceOwnerID (child_of ''p'' ''a'')) =
     Some (Lock \<lparr>lf_task = ''x'', lf_job = ''old'', lf_heartbeat = 0, lf_ttl = 300\<rparr>)"
    unfolding o by (simp add: stale_lock_def)
  from siblings_both_hold [OF o(1) k free free f, of "pg_lock 1000000000000" "''j''" "''k''"] show ?thesis
    unfolding o by (auto simp: lock_fresh_def pg_lock_def)
qed

theorem garbled_lock_blocks_forever_witness:
  "fst (AcquireWorkspaceLock (pg_lock 1) quiet (demo_task ''t'' ''coding'') ''k''
     (ReleaseWorkspaceLock (pg_lock 1) one_task ''t'' (no_lock\<lparr>lk_files := (\<lambda>_. None)(''t'' \<mapsto> Garbled)\<rparr>))) \<noteq> None"
proof -
  let ?s = "no_lock\<lparr>lk_files := (\<lambda>_. None)(''t'' \<mapsto> Garbled)\<rparr>"
  have "orphaned one_task (WorkspaceOwnerID (demo_task ''t'' ''coding'')) ?s"
    by (simp add: orphaned_def no_lock_def WorkspaceOwnerID_def)
  from garbled_lock_blocks_forever [OF this r_into_rtranclp [where r = "lock_move one_task", OF releases] one_task_row
      prod.collapse [symmetric], of "pg_lock 1" "''k''" "pg_lock 1" "''t''"]
  show ?thesis by auto
qed

theorem late_beat_locks_again_witness:
  "fst (AcquireWorkspaceLock (pg_lock 6) quiet (demo_task ''t'' ''coding'') ''k''
     (write_beat 5 ''t'' \<lparr>lf_task = ''t'', lf_job = ''j'', lf_heartbeat = 0, lf_ttl = 300\<rparr>
        (ReleaseWorkspaceLock (pg_lock 4) one_task ''t'' held_by_j))) \<noteq> None"
proof -
  have o: "WorkspaceOwnerID (demo_task ''t'' ''coding'') = ''t''" by code_simp
  have r: "read_beat (WorkspaceOwnerID (demo_task ''t'' ''coding'')) ''j'' held_by_j =
    Some \<lparr>lf_task = ''t'', lf_job = ''j'', lf_heartbeat = 0, lf_ttl = 300\<rparr>"
    unfolding o by (simp add: read_beat_def held_by_j_file)
  from late_beat_locks_again [OF r _ _ _ _ prod.collapse [symmetric], of "''k''" "pg_lock 6" 5 "pg_lock 4" one_task "''t''"]
  show ?thesis unfolding o by (auto simp: pg_lock_def)
qed

end
