(* ===== verification/Workspace_Runs.thy ===== *)
theory Workspace_Runs
  imports Workspace_Lock Worker_Properties
begin

text \<open>
  The workspace and the checkpoints of a task together: what a task that failed finds when it is run
  again. The failure removes the clones, the checkpoints stay.
\<close>

lemma cleanup_clears:
  assumes "CleanupWorkspaceAfterFinalState env kenv d True i s = (locks, disks)"
    and "get_task d i = Inr t" and "t_parent_task_id t = None" and "t_id t = i"
  shows "wd_git (disks i) = []"
proof -
  have o: "WorkspaceOwnerID t = i" using assms(3,4) by (simp add: WorkspaceOwnerID_def)
  let ?d = "(snd s i)\<lparr>wd_git := []\<rparr>"
  obtain r dk where l: "LoadTaskWorkspace kenv t ?d = (r, dk)" by fastforce
  then have g: "wd_git dk = []" using load_frame [OF l] by simp
  have "disks = PartialCleanupWorkspace kenv d True i (snd s)"
    using assms(1-3) by (auto simp: CleanupWorkspaceAfterFinalState_def Let_def)
  then show ?thesis
    using assms(2) o l g
    by (auto simp: PartialCleanupWorkspace_def Let_def or_zero_def dest!: save_frame split: sum.splits option.splits)
qed

definition cloned_to :: "disk_effect list \<Rightarrow> string set" where
  "cloned_to es = {p. \<exists>u b. CloneRepo u b p \<in> set es}"

lemma cloned_to_simps [simp]:
  "cloned_to [] = {}" "cloned_to (xs @ ys) = cloned_to xs \<union> cloned_to ys"
  "cloned_to [CloneRepo u b p] = {p}" "cloned_to [ResetRepo p] = {}"
  by (auto simp: cloned_to_def)

definition fresh_only :: "disk_effect list \<Rightarrow> bool" where
  "fresh_only es \<longleftrightarrow> list_all (\<lambda>e. is_reset e \<or> is_clone e) es"

lemma prepare_repo_new:
  assumes "prepare_repo env t base keep w d = (Inr x, d')"
  shows "\<exists>new. wd_effects d' = wd_effects d @ new \<and> fresh_only new \<and> set (wd_git d') = set (wd_git d) \<union> cloned_to new"
proof (cases "path_join [base, rw_main w] \<in> set (wd_git d)")
  case True
  with assms have "d' = d \<or> d' = disk_effect (ResetRepo (path_join [base, rw_main w])) d"
    by (auto simp: prepare_repo_def Let_def split: if_splits)
  then show ?thesis
    by (elim disjE; intro exI [where x = "drop (length (wd_effects d)) (wd_effects d')"]) (auto simp: fresh_only_def)
next
  case False
  with assms obtain b where "ke_clone env (clean_url (rw_url w)) (rw_default_branch w) (path_join [base, rw_main w]) = Inr b"
    and d: "d' = (disk_effect (CloneRepo (clean_url (rw_url w)) (rw_default_branch w) (path_join [base, rw_main w])) d)
      \<lparr>wd_git := wd_git d @ [path_join [base, rw_main w]]\<rparr>"
    by (auto simp: prepare_repo_def Let_def split: sum.splits)
  then show ?thesis
    by (intro exI [where x = "[CloneRepo (clean_url (rw_url w)) (rw_default_branch w) (path_join [base, rw_main w])]"])
      (auto simp: fresh_only_def)
qed

lemma prepare_repos_new:
  "prepare_repos env t base keep ws d = (Inr x, d') \<Longrightarrow>
   \<exists>new. wd_effects d' = wd_effects d @ new \<and> fresh_only new \<and> set (wd_git d') = set (wd_git d) \<union> cloned_to new"
proof (induction env t base keep ws d arbitrary: x d' rule: prepare_repos.induct)
  case (1 env t base keep d)
  then show ?case by (intro exI [where x = "[]"]) (auto simp: fresh_only_def)
next
  case (2 env t base keep w ws d)
  obtain w' new d1 where p: "prepare_repo env t base keep w d = (Inr (w', new), d1)"
    using 2(2) by (auto split: prod.splits sum.splits)
  obtain y where q: "prepare_repos env t base keep ws d1 = (Inr y, d')"
    using 2(2) p by (auto split: prod.splits sum.splits)
  from "2.IH" [OF p [symmetric] refl refl q] obtain es where e: "wd_effects d' = wd_effects d1 @ es" "fresh_only es"
    "set (wd_git d') = set (wd_git d1) \<union> cloned_to es" by blast
  from prepare_repo_new [OF p] obtain fs where f: "wd_effects d1 = wd_effects d @ fs" "fresh_only fs"
    "set (wd_git d1) = set (wd_git d) \<union> cloned_to fs" by blast
  from e f show ?case by (intro exI [where x = "fs @ es"]) (auto simp: fresh_only_def)
qed

lemma no_patches: "\<forall>a \<in> set arts. wa_type a \<noteq> ''patch'' \<Longrightarrow> patches_to_restore steps (Some arts) = []"
  by (induction arts) (auto simp: patches_to_restore_def List.map_filter_simps)

text \<open>
  Two facts about the next run of a task that failed. The final clean-up has removed its clones, so
  preparing the workspace clones the default branches anew and, when the artifacts have no patch,
  restores nothing; and a step whose success is among the checkpoints the run reads, the implementation
  too, is not run again.
\<close>
theorem failed_task_loses_code:
  assumes "CleanupWorkspaceAfterFinalState env kenv d True i s = (locks, disks)"
    and "get_task d i = Inr t" and "t_parent_task_id t = None" and "t_id t = i"
    and "EnsureWorkspaceCloned kenv t jobID cps (Some arts) (disks i) = (None, dk)"
    and "\<forall>a \<in> set arts. wa_type a \<noteq> ''patch''"
    and "\<And>m k. permuting (we_arrive W m k)"
    and "cp \<in> set (ListCheckpoints (ws_st ws) (t_id (handler_task C ws)))"
    and "completed_output (j_step (rc_job C)) (spec_hash_of (handler_task C ws)) cp \<noteq> None"
  shows "(\<exists>new. wd_effects dk = wd_effects (disks i) @ new \<and> fresh_only new \<and> set (wd_git dk) = cloned_to new) \<and>
    cp_step cp \<notin> fst ` set (rs_started (fst (run_engine W C n (attempt_completed C ws done_steps) prev ws)))"
proof
  have git: "wd_git (disks i) = []" by (rule cleanup_clears [OF assms(1-4)])
  let ?load = "case LoadTaskWorkspace kenv t (disks i) of (Inl _, d1) \<Rightarrow> InitTaskWorkspace kenv t d1 | ok \<Rightarrow> ok"
  obtain r d1 where l: "?load = (r, d1)" by fastforce
  note f = load_or_init_frame [OF l]
  have e: "EnsureWorkspaceCloned kenv t jobID cps (Some arts) (disks i) = (None, dk)" by (rule assms(5))
  obtain w where w: "r = Inr w" using e unfolding EnsureWorkspaceCloned_def l by (cases r) auto
  obtain y d2 where p0: "prepare_repos kenv t (tw_root w) (has_work cps) (tw_repos w) d1 = (y, d2)" by fastforce
  obtain x where x: "y = Inr x"
    using e p0 unfolding EnsureWorkspaceCloned_def l w by (cases y) (auto split: option.splits)
  note p = p0 [unfolded x]
  have s: "SaveTaskWorkspaceMetadata kenv (fst x) d2 = Some dk"
    using e p no_patches [OF assms(6)] unfolding EnsureWorkspaceCloned_def l w
    by (auto split: option.splits prod.splits if_splits)
  from prepare_repos_new [OF p] s f git
  show "\<exists>new. wd_effects dk = wd_effects (disks i) @ new \<and> fresh_only new \<and> set (wd_git dk) = cloned_to new"
    by (auto dest!: save_frame)
next
  have c: "attempt_completed C ws done_steps (cp_step cp) \<noteq> None" by (rule attempt_completed_from [OF assms(8,9)])
  show "cp_step cp \<notin> fst ` set (rs_started (fst (run_engine W C n (attempt_completed C ws done_steps) prev ws)))"
  proof
    assume "cp_step cp \<in> fst ` set (rs_started (fst (run_engine W C n (attempt_completed C ws done_steps) prev ws)))"
    from started_not_completed [OF assms(7) prod.collapse [symmetric], OF this [unfolded run_engine_internal]] c
    show False by (simp add: engine_of_def)
  qed
qed

section \<open>A failed task to try it on\<close>

definition implemented_cp :: wf_checkpoint where
  "implemented_cp =
     \<lparr>cp_task_id = ''t'', cp_job_id = None, cp_step = StepCLIImplement, cp_state = Json [(''status'', VString ''success'')]\<rparr>"

definition retried_ws :: worker_state where
  "retried_ws = demo_ws\<lparr>ws_st := (ws_st demo_ws)\<lparr>os_checkpoints := [implemented_cp]\<rparr>\<rparr>"

definition cleaned :: "lock_state \<times> (string \<Rightarrow> wk_disk)" where
  "cleaned = CleanupWorkspaceAfterFinalState (pg_lock 0) (demo_wk [repo_at ''r'' ''https://git/a.git'']) one_task True ''t''
     (no_lock, \<lambda>_. used_disk)"

theorem failed_task_loses_code_witness:
  "(\<exists>new. wd_effects (snd (EnsureWorkspaceCloned (demo_wk [repo_at ''r'' ''https://git/a.git''])
       (demo_task ''t'' ''coding'') ''k'' (Some [implemented_cp]) (Some []) (snd cleaned ''t''))) =
      wd_effects (snd cleaned ''t'') @ new \<and> fresh_only new) \<and>
   StepCLIImplement \<notin> fst ` set (rs_started (fst
     (run_engine demo_worker demo_ctx 1 (attempt_completed demo_ctx retried_ws Map.empty) (None, None) retried_ws)))"
proof -
  let ?env = "demo_wk [repo_at ''r'' ''https://git/a.git'']" and ?t = "demo_task ''t'' ''coding''"
  have 1: "CleanupWorkspaceAfterFinalState (pg_lock 0) ?env one_task True ''t'' (no_lock, \<lambda>_. used_disk) =
    (fst cleaned, snd cleaned)" by (simp add: cleaned_def)
  have 2: "get_task one_task ''t'' = Inr ?t" using one_task_row by simp
  have "fst (EnsureWorkspaceCloned ?env ?t ''k'' (Some [implemented_cp]) (Some []) (snd cleaned ''t'')) = None"
    by code_simp
  then have 3: "EnsureWorkspaceCloned ?env ?t ''k'' (Some [implemented_cp]) (Some []) (snd cleaned ''t'') =
    (None, snd (EnsureWorkspaceCloned ?env ?t ''k'' (Some [implemented_cp]) (Some []) (snd cleaned ''t'')))"
    by (metis prod.collapse)
  have 4: "implemented_cp \<in> set (ListCheckpoints (ws_st retried_ws) (t_id (handler_task demo_ctx retried_ws)))"
    by (simp add: retried_ws_def demo_ws_def demo_ctx_def handler_task_def ListCheckpoints_def implemented_cp_def or_zero_def)
  have 5: "completed_output (j_step (rc_job demo_ctx)) (spec_hash_of (handler_task demo_ctx retried_ws)) implemented_cp \<noteq> None"
    by code_simp
  from failed_task_loses_code [OF 1 2 _ _ 3 _ _ 4 5, of demo_worker 1 Map.empty "(None, None)"] show ?thesis
    by (auto simp: implemented_cp_def permuting_id)
qed

end
