(* ===== verification/Merge_Step.thy ===== *)
theory Merge_Step
  imports Workspaces Cross_Review "HOL-Library.Sublist"
begin

text \<open>
  The merge step (\<^verbatim>\<open>orchestrator/steps/merge.go\<close>), which reconciles the branches of the two parallel
  tracks in every repository of a task. The git operations of the sandbox are recorded in the order
  they are made; what git answers is a parameter that may depend on everything that was done before.
  The status writer, the workspace and the checkpoints are those of the other theories.
\<close>

section \<open>The operations\<close>

datatype merge_op =
    Checkout string string
  | AskBranch string string
  | MergeInto string string
  | CommitMerge string

datatype merge_result = MergedOk | MergeConflict string | MergeBroken

record merge_env =
  me_orch :: orch_env
  me_update :: status_writer
  me_wk :: wk_env
  me_container :: "string \<Rightarrow> string"
  me_checkout :: "merge_op list \<Rightarrow> string \<Rightarrow> string \<Rightarrow> bool"
  me_has :: "merge_op list \<Rightarrow> string \<Rightarrow> string \<Rightarrow> bool"
  me_merge :: "merge_op list \<Rightarrow> string \<Rightarrow> string \<Rightarrow> merge_result"
  me_commit :: "merge_op list \<Rightarrow> string \<Rightarrow> bool"
  me_diff :: "merge_op list \<Rightarrow> string option"

record merge_state =
  mg_st :: orch_state
  mg_disk :: wk_disk
  mg_arts :: "wf_artifact list"
  mg_ops :: "merge_op list"

section \<open>One repository\<close>

datatype repo_merge =
    RepoMerged
  | RepoConflict string string
  | RepoFailed string

text \<open>A branch that does not exist is passed over.\<close>

definition merge_role ::
  "merge_env \<Rightarrow> string \<Rightarrow> string \<Rightarrow> merge_op list \<Rightarrow> merge_result option \<times> merge_op list" where
  "merge_role env p branch ops =
     (if me_has env ops p branch
      then (Some (me_merge env (ops @ [AskBranch p branch]) p branch), ops @ [AskBranch p branch, MergeInto p branch])
      else (None, ops @ [AskBranch p branch]))"

text \<open>The names are derived from the id of the task.\<close>

definition merge_branch :: "task \<Rightarrow> string \<Rightarrow> string" where
  "merge_branch t role = DeriveRoleBranchName (t_id t) (t_title t) role"

definition merge_repo :: "merge_env \<Rightarrow> task \<Rightarrow> string \<Rightarrow> merge_op list \<Rightarrow> repo_merge \<times> merge_op list" where
  "merge_repo env t p ops =
     (let integ = DeriveBranchName (t_id t) (t_title t); ops1 = ops @ [Checkout p integ]
      in if \<not> me_checkout env ops p integ then (RepoFailed ''checkout integration branch failed'', ops1)
         else (case merge_role env p (merge_branch t ''be'') ops1 of
                 (Some MergeBroken, ops2) \<Rightarrow> (RepoFailed ''merge backend branch failed'', ops2)
               | (Some (MergeConflict e), ops2) \<Rightarrow> (RepoConflict ''backend'' e, ops2)
               | (_, ops2) \<Rightarrow>
                   (case merge_role env p (merge_branch t ''fe'') ops2 of
                      (Some MergeBroken, ops3) \<Rightarrow> (RepoFailed ''merge frontend branch failed'', ops3)
                    | (Some (MergeConflict e), ops3) \<Rightarrow> (RepoConflict ''frontend'' e, ops3)
                    | (_, ops3) \<Rightarrow>
                        if me_commit env ops3 p then (RepoMerged, ops3 @ [CommitMerge p])
                        else (RepoFailed ''failed to commit merge'', ops3 @ [CommitMerge p]))))"

section \<open>All repositories\<close>

definition mark_merge :: "string \<Rightarrow> string \<Rightarrow> repo_workspace list \<Rightarrow> repo_workspace list" where
  "mark_merge i status ws = map (\<lambda>w. if rw_id w = i then w\<lparr>rw_merge_status := status\<rparr> else w) ws"

text \<open>What the loop over the repositories carries: the metadata rows, the conflicts and the operations.\<close>

record merge_loop =
  ml_rows :: "repo_workspace list"
  ml_conflicts :: "string list"
  ml_ops :: "merge_op list"

fun merge_all ::
  "merge_env \<Rightarrow> task \<Rightarrow> task_workspace option \<Rightarrow> git_repo list \<Rightarrow> merge_loop \<Rightarrow> string option \<times> merge_loop" where
  "merge_all env t ws [] l = (None, l)"
| "merge_all env t ws (r # rs) l =
     (let p = me_container env (RepoHostPath (me_wk env) t ws r)
      in case merge_repo env t p (ml_ops l) of
           (RepoFailed e, ops) \<Rightarrow>
             (Some (e @ '' for repo '' @ gr_url r), l\<lparr>ml_rows := mark_merge (gr_id r) ''failed'' (ml_rows l), ml_ops := ops\<rparr>)
         | (RepoConflict role e, ops) \<Rightarrow>
             merge_all env t ws rs
               (l\<lparr>ml_rows := mark_merge (gr_id r) ''conflict'' (ml_rows l), ml_ops := ops,
                  ml_conflicts := ml_conflicts l @ [''Repo '' @ gr_url r @ '' ('' @ role @ ''):'' @ NL @ e]\<rparr>)
         | (RepoMerged, ops) \<Rightarrow>
             merge_all env t ws rs (l\<lparr>ml_rows := mark_merge (gr_id r) ''merged'' (ml_rows l), ml_ops := ops\<rparr>))"

section \<open>The step\<close>

definition save_rows :: "merge_env \<Rightarrow> task_workspace option \<Rightarrow> repo_workspace list \<Rightarrow> wk_disk \<Rightarrow> wk_disk" where
  "save_rows env ws rows d =
     (case ws of None \<Rightarrow> d | Some _ \<Rightarrow> or_zero d (SaveTaskWorkspaceMetadata (me_wk env) rows d))"

definition load_workspace :: "wk_env \<Rightarrow> task \<Rightarrow> wk_disk \<Rightarrow> task_workspace option \<times> wk_disk" where
  "load_workspace env t d =
     (case LoadTaskWorkspace env t d of (Inl _, d') \<Rightarrow> (None, d') | (Inr w, d') \<Rightarrow> (Some w, d'))"

definition skip_merge :: "merge_env \<Rightarrow> task \<Rightarrow> merge_state \<Rightarrow> merge_state" where
  "skip_merge env t s =
     (case load_workspace (me_wk env) t (mg_disk s) of
        (ws, d) \<Rightarrow>
          s\<lparr>mg_disk := save_rows env ws
               (map (\<lambda>w. w\<lparr>rw_merge_status := ''skipped''\<rparr>) (case ws of None \<Rightarrow> [] | Some w \<Rightarrow> tw_repos w)) d\<rparr>)"

text \<open>After a loop without conflicts: the diff is taken and stored, and the task goes on to review.\<close>

definition reconciled ::
  "merge_env \<Rightarrow> task \<Rightarrow> string \<Rightarrow> merge_state \<Rightarrow> ((step_error + gomap) \<times> merge_state) option" where
  "reconciled env t jobID s =
     (case me_diff env (mg_ops s) of
        None \<Rightarrow> Some (Inl (StepFailed ''merge check failed''), s)
      | Some diff \<Rightarrow>
          (let s1 = (if diff \<noteq> ''''
                     then s\<lparr>mg_arts := SaveArtifact (mg_arts s) jobID (t_id t) StepMerge ''diff'' (VString diff)\<rparr> else s)
           in case me_update env (mg_st s1) (t_id t) TaskStatusReviewing of
                None \<Rightarrow> None
              | Some (Inl _, st) \<Rightarrow> Some (Inl (StepFailed ''update task status''), s1\<lparr>mg_st := st\<rparr>)
              | Some (Inr _, st) \<Rightarrow>
                  Some (Inr [(''status'', VString ''changes_reconciled''), (''info'', VString ''local changes reconciled''),
                             (''diff_size'', VInt (int (length diff)))], s1\<lparr>mg_st := st\<rparr>)))"

definition is_easy :: "task \<Rightarrow> merge_state \<Rightarrow> bool" where
  "is_easy t s =
     (case get_task (os_db (mg_st s)) (t_id t) of Inl _ \<Rightarrow> False | Inr row \<Rightarrow> t_complexity row = TaskComplexityEasy)"

definition target_repos :: "merge_env \<Rightarrow> task \<Rightarrow> git_repo list" where
  "target_repos env t = (case LoadTargetRepositories (me_wk env) t of Inl _ \<Rightarrow> [] | Inr rs \<Rightarrow> rs)"

definition merge_Execute ::
  "merge_env \<Rightarrow> task \<Rightarrow> string \<Rightarrow> merge_state \<Rightarrow> ((step_error + gomap) \<times> merge_state) option" where
  "merge_Execute env t jobID s =
     (if is_easy t s
      then Some (Inr [(''status'', VString ''skipped''), (''info'', VString ''skipped merge step for easy task'')],
                 skip_merge env t s)
      else (case load_workspace (me_wk env) t (mg_disk s) of
              (ws, d) \<Rightarrow>
                (let rows = (case ws of None \<Rightarrow> [] | Some w \<Rightarrow> tw_repos w)
                 in case merge_all env t ws (target_repos env t)
                           \<lparr>ml_rows = rows, ml_conflicts = [], ml_ops = mg_ops s\<rparr> of
                      (failed, l) \<Rightarrow>
                        (let s1 = s\<lparr>mg_disk := save_rows env ws (ml_rows l) d, mg_ops := ml_ops l\<rparr>;
                             text_of = join NL (ml_conflicts l)
                         in case failed of
                              Some e \<Rightarrow> Some (Inl (StepFailed e), s1)
                            | None \<Rightarrow>
                                if ml_conflicts l \<noteq> []
                                then Some (Inl (PauseError StepMerge (''merge conflict in files:'' @ NL @ text_of @ NL @
                                              [CHR 0xE2, CHR 0x80, CHR 0x94] @ '' manual resolution required'')),
                                           s1\<lparr>mg_arts := SaveArtifact (mg_arts s1) jobID (t_id t) StepMerge ''conflict''
                                                (VString text_of)\<rparr>)
                                else reconciled env t jobID s1))))"

section \<open>What a successful merge has done\<close>

text \<open>
  In the recorded operations a repository is settled: each branch of a track was asked for and, where
  it exists, merged without a conflict, and the merge was committed.
\<close>

definition branch_settled :: "merge_env \<Rightarrow> merge_op list \<Rightarrow> string \<Rightarrow> string \<Rightarrow> bool" where
  "branch_settled env ops p b \<longleftrightarrow>
     (\<exists>pre. prefix (pre @ [AskBranch p b]) ops \<and>
        (me_has env pre p b \<longrightarrow>
           prefix (pre @ [AskBranch p b, MergeInto p b]) ops \<and> me_merge env (pre @ [AskBranch p b]) p b = MergedOk))"

definition repo_settled :: "merge_env \<Rightarrow> task \<Rightarrow> merge_op list \<Rightarrow> string \<Rightarrow> bool" where
  "repo_settled env t ops p \<longleftrightarrow>
     branch_settled env ops p (merge_branch t ''be'') \<and> branch_settled env ops p (merge_branch t ''fe'') \<and>
     (\<exists>pre. prefix (pre @ [CommitMerge p]) ops \<and> me_commit env pre p)"

lemma repo_settled_mono: "repo_settled env t ops p \<Longrightarrow> prefix ops ops' \<Longrightarrow> repo_settled env t ops' p"
  unfolding repo_settled_def branch_settled_def by (meson prefix_order.order_trans)

lemma merge_role_settles:
  assumes "merge_role env p b ops = (r, ops')" and "r \<in> {None, Some MergedOk}"
  shows "branch_settled env ops' p b" and "prefix ops ops'"
  using assms
  by (auto simp: merge_role_def branch_settled_def split: if_splits intro!: exI [where x = ops])

lemma branch_settled_mono: "branch_settled env ops p b \<Longrightarrow> prefix ops ops' \<Longrightarrow> branch_settled env ops' p b"
  unfolding branch_settled_def by (meson prefix_order.order_trans)

lemma merge_role_prefix: "merge_role env p b ops = (r, ops') \<Longrightarrow> prefix ops ops'"
  by (auto simp: merge_role_def split: if_splits)

text \<open>The course of the merge of one repository, by its result.\<close>

lemma merge_repo_cases:
  assumes "merge_repo env t p ops = (res, ops')"
  obtains (failed) e where "res = RepoFailed e" "prefix ops ops'"
    | (conflict) role e where "res = RepoConflict role e" "prefix ops ops'"
    | (merged) r2 r3 ops2 ops3 where "res = RepoMerged"
        "merge_role env p (merge_branch t ''be'') (ops @ [Checkout p (DeriveBranchName (t_id t) (t_title t))]) = (r2, ops2)"
        "merge_role env p (merge_branch t ''fe'') ops2 = (r3, ops3)" "{r2, r3} \<subseteq> {None, Some MergedOk}"
        "me_commit env ops3 p" "ops' = ops3 @ [CommitMerge p]"
proof -
  let ?c = "ops @ [Checkout p (DeriveBranchName (t_id t) (t_title t))]"
  obtain r2 ops2 where a: "merge_role env p (merge_branch t ''be'') ?c = (r2, ops2)" by fastforce
  obtain r3 ops3 where b: "merge_role env p (merge_branch t ''fe'') ops2 = (r3, ops3)" by fastforce
  have pa: "prefix ops ops2" using merge_role_prefix [OF a] by (meson append_prefixD)
  then have pb: "prefix ops ops3" using merge_role_prefix [OF b] by (meson prefix_order.order_trans)
  then have pc: "prefix ops (ops3 @ [CommitMerge p])" by simp
  show thesis
    using assms a b pa pb pc that
    by (auto simp: merge_repo_def Let_def split: if_splits option.splits merge_result.splits)
qed

lemma merge_repo_prefix: "merge_repo env t p ops = (res, ops') \<Longrightarrow> prefix ops ops'"
proof (erule merge_repo_cases)
  fix r2 r3 ops2 ops3
  assume "merge_role env p (merge_branch t ''be'') (ops @ [Checkout p (DeriveBranchName (t_id t) (t_title t))]) = (r2, ops2)"
    and "merge_role env p (merge_branch t ''fe'') ops2 = (r3, ops3)" and "ops' = ops3 @ [CommitMerge p]"
  then show ?thesis using merge_role_prefix by (metis append_prefixD prefix_order.order_trans prefixI)
qed

lemma merge_repo_settles:
  assumes "merge_repo env t p ops = (RepoMerged, ops')"
  shows "repo_settled env t ops' p"
  using assms
proof (cases rule: merge_repo_cases)
  case (merged r2 r3 ops2 ops3)
  have be: "branch_settled env ops2 p (merge_branch t ''be'')" by (rule merge_role_settles) (use merged in auto)
  have fe: "branch_settled env ops3 p (merge_branch t ''fe'')" by (rule merge_role_settles) (use merged in auto)
  have "prefix ops2 ops3" by (rule merge_role_prefix) (use merged in auto)
  then have "prefix ops2 ops'" "prefix ops3 ops'" using merged by (auto intro: prefix_order.order_trans)
  with be fe show ?thesis
    using branch_settled_mono merged by (fastforce simp: repo_settled_def)
qed auto

lemma merge_all_ops: "merge_all env t ws rs l = (r, l') \<Longrightarrow> prefix (ml_ops l) (ml_ops l')"
proof (induction env t ws rs l arbitrary: r l' rule: merge_all.induct)
  case (2 env t ws r0 rs l)
  obtain res ops where m: "merge_repo env t (me_container env (RepoHostPath (me_wk env) t ws r0)) (ml_ops l) = (res, ops)"
    by fastforce
  note p = merge_repo_prefix [OF m]
  show ?case
    using 2 m p by (cases res) (fastforce intro: prefix_order.order_trans)+
qed simp

lemma merge_all_conflicts: "merge_all env t ws rs l = (r, l') \<Longrightarrow> ml_conflicts l \<noteq> [] \<Longrightarrow> ml_conflicts l' \<noteq> []"
  by (induction env t ws rs l arbitrary: r l' rule: merge_all.induct)
    (auto simp: Let_def split: prod.splits repo_merge.splits)

lemma merge_all_settles:
  "merge_all env t ws rs l = (None, l') \<Longrightarrow> ml_conflicts l' = [] \<Longrightarrow> r \<in> set rs \<Longrightarrow>
   repo_settled env t (ml_ops l') (me_container env (RepoHostPath (me_wk env) t ws r))"
proof (induction env t ws rs l arbitrary: l' rule: merge_all.induct)
  case (2 env t ws r0 rs l)
  let ?p = "me_container env (RepoHostPath (me_wk env) t ws r0)"
  obtain res ops where m: "merge_repo env t ?p (ml_ops l) = (res, ops)" by fastforce
  show ?case
  proof (cases res)
    case RepoMerged
    let ?l = "l\<lparr>ml_rows := mark_merge (gr_id r0) ''merged'' (ml_rows l), ml_ops := ops\<rparr>"
    have rec: "merge_all env t ws rs ?l = (None, l')" using "2.prems"(1) m RepoMerged by simp
    show ?thesis
    proof (cases "r = r0")
      case True
      with merge_repo_settles [OF m [unfolded RepoMerged]] merge_all_ops [OF rec] show ?thesis
        by (auto intro: repo_settled_mono)
    next
      case False
      with "2.IH"(1) [OF refl m [symmetric] RepoMerged rec "2.prems"(2)] "2.prems"(3) show ?thesis by simp
    qed
  next
    case (RepoConflict role e)
    with "2.prems"(1,2) m merge_all_conflicts show ?thesis by fastforce
  next
    case (RepoFailed e)
    with "2.prems"(1) m show ?thesis by simp
  qed
qed simp


section \<open>Tasks of a shared workspace\<close>

lemma branch_of_other:
  assumes "take 8 i \<noteq> take 8 j"
  shows "DeriveRoleBranchName i title ''be'' \<noteq> DeriveRoleBranchName j title ''be''"
    and "DeriveRoleBranchName i title ''fe'' \<noteq> DeriveRoleBranchName j title ''fe''"
    and "DeriveRoleBranchName i title ''be'' \<noteq> DeriveRoleBranchName j title ''fe''"
    and "DeriveRoleBranchName i title ''fe'' \<noteq> DeriveRoleBranchName j title ''be''"
    and "DeriveBranchName i title \<noteq> DeriveBranchName j title"
proof -
  show d: "DeriveBranchName i title \<noteq> DeriveBranchName j title"
    using assms by (auto simp: DeriveBranchName_def Let_def split: if_splits)
  show "DeriveRoleBranchName i title ''be'' \<noteq> DeriveRoleBranchName j title ''be''"
    "DeriveRoleBranchName i title ''fe'' \<noteq> DeriveRoleBranchName j title ''fe''"
    using d by (simp_all add: DeriveRoleBranchName_def Let_def)
  have "last (butlast (x @ ''-be'')) \<noteq> last (butlast (y @ ''-fe''))" for x y :: string
    by (simp add: butlast_append)
  then show "DeriveRoleBranchName i title ''be'' \<noteq> DeriveRoleBranchName j title ''fe''"
    "DeriveRoleBranchName i title ''fe'' \<noteq> DeriveRoleBranchName j title ''be''"
    by (auto simp: DeriveRoleBranchName_def Let_def append_eq_append_conv2 append_eq_Cons_conv)
qed

definition touches :: "string \<Rightarrow> merge_op \<Rightarrow> bool" where
  "touches b op = (case op of Checkout p x \<Rightarrow> x = b | AskBranch p x \<Rightarrow> x = b | MergeInto p x \<Rightarrow> x = b | CommitMerge p \<Rightarrow> False)"

definition untouched :: "string \<Rightarrow> merge_op list \<Rightarrow> bool" where
  "untouched b ops = (\<not> list_ex (touches b) ops)"

lemma merge_role_untouched: "merge_role env p x ops = (r, ops') \<Longrightarrow> x \<noteq> b \<Longrightarrow> untouched b ops \<Longrightarrow> untouched b ops'"
  by (auto simp: merge_role_def untouched_def touches_def split: if_splits)

lemma merge_repo_untouched:
  assumes "merge_repo env t p ops = (res, ops')" and "untouched b ops"
    and "b \<notin> {merge_branch t ''be'', merge_branch t ''fe'', DeriveBranchName (t_id t) (t_title t)}"
  shows "untouched b ops'"
proof -
  let ?c = "ops @ [Checkout p (DeriveBranchName (t_id t) (t_title t))]"
  have c: "untouched b ?c" using assms(2,3) by (auto simp: untouched_def touches_def)
  obtain r2 ops2 where a: "merge_role env p (merge_branch t ''be'') ?c = (r2, ops2)" by fastforce
  obtain r3 ops3 where e: "merge_role env p (merge_branch t ''fe'') ops2 = (r3, ops3)" by fastforce
  have 2: "untouched b ops2" using merge_role_untouched [OF a _ c] assms(3) by auto
  have 3: "untouched b ops3" using merge_role_untouched [OF e _ 2] assms(3) by auto
  then have 4: "untouched b (ops3 @ [CommitMerge p])" by (simp add: untouched_def touches_def)
  show ?thesis
    using assms(1) a e c 2 3 4
    by (auto simp: merge_repo_def Let_def split: if_splits option.splits merge_result.splits)
qed

lemma merge_all_untouched:
  "merge_all env t ws rs l = (r, l') \<Longrightarrow> untouched b (ml_ops l) \<Longrightarrow>
   b \<notin> {merge_branch t ''be'', merge_branch t ''fe'', DeriveBranchName (t_id t) (t_title t)} \<Longrightarrow> untouched b (ml_ops l')"
proof (induction env t ws rs l arbitrary: r l' rule: merge_all.induct)
  case (2 env t ws r0 rs l)
  obtain res ops where m: "merge_repo env t (me_container env (RepoHostPath (me_wk env) t ws r0)) (ml_ops l) = (res, ops)"
    by fastforce
  note u = merge_repo_untouched [OF m "2.prems"(2,3)]
  show ?case using 2 m u by (cases res) fastforce+
qed simp

text \<open>
  The work of the parallel tracks of a split-off task is never merged. The tracks commit to
  branches named by the owner of the workspace, the parent; the merge step checks out, asks for and merges
  branches named by the task itself, and none of its operations touches the branches of the tracks.
\<close>
theorem child_tracks_never_merged:
  assumes "t_parent_task_id t = Some parent" and "take 8 parent \<noteq> take 8 (t_id t)" and "length parent = length (t_id t)"
    and "merge_Execute env t jobID s = Some (r, s')" and "mg_ops s = []"
    and "b \<in> {role_branch t ''be'', role_branch t ''fe''}"
  shows "untouched b (mg_ops s')"
proof -
  have "parent \<noteq> ''''" using assms(2,3) by auto
  then have o: "WorkspaceOwnerID t = parent" using assms(1) by (simp add: WorkspaceOwnerID_def)
  note d = branch_of_other [OF assms(2), of "t_title t"]
  have "length (DeriveBranchName parent (t_title t)) = length (DeriveBranchName (t_id t) (t_title t))"
    using assms(3) by (simp add: DeriveBranchName_def Let_def)
  then have int: "DeriveRoleBranchName parent (t_title t) x \<noteq> DeriveBranchName (t_id t) (t_title t)"
    if "x \<in> {''be'', ''fe''}" for x
    using that by (auto simp: DeriveRoleBranchName_def Let_def dest!: arg_cong [of _ _ length])
  have nb: "b \<notin> {merge_branch t ''be'', merge_branch t ''fe'', DeriveBranchName (t_id t) (t_title t)}"
    using d int assms(6) by (auto simp: role_branch_def merge_branch_def o)
  obtain ws dk where w: "load_workspace (me_wk env) t (mg_disk s) = (ws, dk)" by fastforce
  obtain f l where m: "merge_all env t ws (target_repos env t)
      \<lparr>ml_rows = (case ws of None \<Rightarrow> [] | Some w \<Rightarrow> tw_repos w), ml_conflicts = [], ml_ops = mg_ops s\<rparr> = (f, l)"
    by fastforce
  have "untouched b (ml_ops l)" by (rule merge_all_untouched [OF m _ nb]) (simp add: assms(5) untouched_def)
  moreover have "mg_ops s' \<in> {mg_ops s, ml_ops l}"
    using assms(4) w m
    by (auto simp: merge_Execute_def Let_def reconciled_def skip_merge_def split: option.splits if_splits prod.splits sum.splits)
  ultimately show ?thesis using assms(5) by (auto simp: untouched_def)
qed

text \<open>An easy task skips the step, also in the pipeline of parallel tracks: nothing is merged.\<close>

lemma easy_task_not_merged:
  "is_easy t s \<Longrightarrow> merge_Execute env t jobID s = Some (r, s') \<Longrightarrow>
   mg_ops s' = mg_ops s \<and> (\<exists>out. r = Inr out \<and> as_string (get_key out ''status'') = Some ''skipped'')"
  by (auto simp: merge_Execute_def skip_merge_def get_key_def split: prod.splits)

text \<open>When the repositories cannot be listed, the step succeeds without having done anything.\<close>

lemma unlisted_repos_not_merged:
  "ke_repos (me_wk env) (t_project_id t) = None \<Longrightarrow> merge_Execute env t jobID s = Some (Inr out, s') \<Longrightarrow>
   mg_ops s' = mg_ops s"
  by (auto simp: merge_Execute_def target_repos_def LoadTargetRepositories_def reconciled_def skip_merge_def Let_def
      split: option.splits if_splits prod.splits sum.splits)

section \<open>A merge to try it on\<close>

definition demo_merge :: merge_env where
  "demo_merge =
     \<lparr>me_orch = silent_env, me_update = (\<lambda>st i s. Some (Inr (demo_task i s), st)),
      me_wk = demo_wk [repo_at ''r'' ''https://git/a.git''], me_container = (\<lambda>p. p),
      me_checkout = (\<lambda>_ _ _. True), me_has = (\<lambda>_ _ _. True), me_merge = (\<lambda>_ _ _. MergedOk),
      me_commit = (\<lambda>_ _. True), me_diff = (\<lambda>_. Some ''diff'')\<rparr>"

definition split_task :: task where
  "split_task = (demo_task ''child-01'' TaskStatusCoding)\<lparr>t_parent_task_id := Some ''parent01''\<rparr>"

definition to_merge :: merge_state where
  "to_merge = \<lparr>mg_st = orch_of [], mg_disk = empty_disk, mg_arts = [], mg_ops = []\<rparr>"

definition merged_state :: merge_state where
  "merged_state = snd (the (merge_Execute demo_merge split_task ''j'' to_merge))"

lemma demo_merge_run: "\<exists>out. merge_Execute demo_merge split_task ''j'' to_merge = Some (Inr out, merged_state)"
proof -
  have "case merge_Execute demo_merge split_task ''j'' to_merge of Some (Inr _, _) \<Rightarrow> True | _ \<Rightarrow> False" by code_simp
  then show ?thesis by (auto simp: merged_state_def split: option.splits prod.splits sum.splits)
qed


theorem child_tracks_never_merged_witness: "untouched (role_branch split_task ''be'') (mg_ops merged_state)"
proof -
  obtain out where run: "merge_Execute demo_merge split_task ''j'' to_merge = Some (Inr out, merged_state)"
    using demo_merge_run by blast
  have "t_parent_task_id split_task = Some ''parent01''" "take 8 ''parent01'' \<noteq> take 8 (t_id split_task)"
    "length ''parent01'' = length (t_id split_task)" "mg_ops to_merge = []"
    by (simp_all add: split_task_def to_merge_def)
  from child_tracks_never_merged [OF this(1-3) run this(4)] show ?thesis by simp
qed

end
