(* ===== verification/PR_Summary.thy ===== *)
theory PR_Summary
  imports Task_Model
begin

text \<open>
  The summary of a pull request (\<^verbatim>\<open>orchestrator/gitops/pr_generator.go\<close>): what is read from a diff, the
  level of risk and the text. The signs in front of the lines are their UTF-8 bytes.
\<close>

section \<open>Reading a diff\<close>

record file_diff =
  fd_name :: string
  fd_added :: nat
  fd_deleted :: nat

text \<open>The counters are those of the file named last.\<close>

fun on_last :: "('a \<Rightarrow> 'a) \<Rightarrow> 'a list \<Rightarrow> 'a list" where
  "on_last f [] = []"
| "on_last f [x] = [f x]"
| "on_last f (x # y # xs) = x # on_last f (y # xs)"

definition diff_line :: "file_diff list \<Rightarrow> string \<Rightarrow> file_diff list" where
  "diff_line out line =
     (if has_prefix line ''diff --git ''
      then (case Go_Prelude.fields line of
              _ # _ # name # _ \<Rightarrow> out @ [\<lparr>fd_name = trim_prefix name ''a/'', fd_added = 0, fd_deleted = 0\<rparr>]
            | _ \<Rightarrow> out)
      else if has_prefix line ''+'' \<and> \<not> has_prefix line ''+++''
      then on_last (\<lambda>d. d\<lparr>fd_added := fd_added d + 1\<rparr>) out
      else if has_prefix line ''-'' \<and> \<not> has_prefix line ''---''
      then on_last (\<lambda>d. d\<lparr>fd_deleted := fd_deleted d + 1\<rparr>) out
      else out)"

definition parseDiff :: "string \<Rightarrow> file_diff list" where
  "parseDiff diffText = foldl diff_line [] (split_lines diffText)"

section \<open>Risk\<close>

text \<open>\<^verbatim>\<open>strings.Title\<close> on ASCII text.\<close>

definition upper_char :: "char \<Rightarrow> char" where
  "upper_char c = (let n = of_char c :: nat in if 97 \<le> n \<and> n \<le> 122 then char_of (n - 32) else c)"

definition word_char :: "char \<Rightarrow> bool" where
  "word_char c =
     (let n = of_char c :: nat
      in 65 \<le> n \<and> n \<le> 90 \<or> 97 \<le> n \<and> n \<le> 122 \<or> 48 \<le> n \<and> n \<le> 57 \<or> n = 95 \<or> 128 \<le> n)"

fun title_from :: "bool \<Rightarrow> string \<Rightarrow> string" where
  "title_from inside [] = []"
| "title_from inside (c # cs) = (if inside then c else upper_char c) # title_from (word_char c) cs"

definition title_case :: "string \<Rightarrow> string" where
  "title_case s = title_from False s"

abbreviation PRRiskLow :: string where "PRRiskLow \<equiv> ''low''"
abbreviation PRRiskMedium :: string where "PRRiskMedium \<equiv> ''medium''"
abbreviation PRRiskHigh :: string where "PRRiskHigh \<equiv> ''high''"
abbreviation PRRiskCritical :: string where "PRRiskCritical \<equiv> ''critical''"

definition touches_migration :: "string list \<Rightarrow> bool" where
  "touches_migration files = list_ex (\<lambda>f. str_contains f ''migration/'') files"

definition touches_config :: "string list \<Rightarrow> bool" where
  "touches_config files =
     list_ex (\<lambda>f. str_contains f ''config'' \<or> str_contains f ''.env'' \<or> str_contains f ''docker'') files"

definition affecting :: "task \<Rightarrow> string list \<Rightarrow> string" where
  "affecting t files =
     title_case (t_complexity t) @ '' complexity task affecting '' @ nat_to_string (length files) @ '' '' @
     (if length files = 1 then ''file'' else ''files'')"

definition assessRisk :: "task \<Rightarrow> string list \<Rightarrow> string \<times> string" where
  "assessRisk t files =
     (if touches_migration files \<and> t_complexity t = TaskComplexityHard
      then (PRRiskCritical, ''Hard complexity task containing database migration files'')
      else if touches_migration files then (PRRiskHigh, ''Contains database migration files'')
      else if t_complexity t = TaskComplexityHard \<or> length files > 15 then (PRRiskHigh, affecting t files)
      else if touches_config files then (PRRiskMedium, ''Modifies configuration or infrastructure files'')
      else if t_complexity t = TaskComplexityMedium \<or> length files > 5 then (PRRiskMedium, affecting t files)
      else (PRRiskLow,
        ''Simple change affecting '' @ nat_to_string (length files) @ '' '' @
        (if length files = 1 then ''file'' else ''files'')))"

section \<open>Test results\<close>

definition warn_sign :: string where
  "warn_sign = [CHR 0xE2, CHR 0x9A, CHR 0xA0, CHR 0xEF, CHR 0xB8, CHR 0x8F]"

definition check_sign :: string where
  "check_sign = [CHR 0xE2, CHR 0x9C, CHR 0x85]"

definition cross_sign :: string where
  "cross_sign = [CHR 0xE2, CHR 0x9D, CHR 0x8C]"

definition info_sign :: string where
  "info_sign = [CHR 0xE2, CHR 0x84, CHR 0xB9, CHR 0xEF, CHR 0xB8, CHR 0x8F]"

definition render_bullet :: "string \<Rightarrow> string \<Rightarrow> string" where
  "render_bullet label status =
     (if status = ''passed'' then ''- '' @ check_sign @ '' '' @ label @ '': passed'' @ NL
      else if status = ''failed'' then ''- '' @ cross_sign @ '' '' @ label @ '': failed'' @ NL
      else if status = ''not_configured'' then ''- '' @ info_sign @ '' '' @ label @ '': Not configured/no config found'' @ NL
      else ''- '' @ warn_sign @ '' '' @ label @ '': Not executed'' @ NL)"

definition passed_text :: "bool \<Rightarrow> string" where
  "passed_text b = (if b then ''passed'' else ''failed'')"

text \<open>A key that is present counts as failed unless it holds \<^verbatim>\<open>true\<close>.\<close>

definition targeted_status :: "gomap \<Rightarrow> string \<Rightarrow> string" where
  "targeted_status m k =
     (case get_key m k of None \<Rightarrow> ''not_executed'' | Some v \<Rightarrow> passed_text (as_bool (Some v) = Some True))"

definition post_code_status :: "gomap \<Rightarrow> string" where
  "post_code_status m =
     (let b = targeted_status m ''targeted_code_backend_passed''; f = targeted_status m ''targeted_code_frontend_passed''
      in if b \<noteq> ''not_executed'' \<or> f \<noteq> ''not_executed''
         then (if b = ''failed'' \<or> f = ''failed'' then ''failed'' else ''passed'')
         else ''not_executed'')"

definition full_suite_status :: "gomap \<Rightarrow> string" where
  "full_suite_status m = (case as_bool (get_key m ''passed'') of Some b \<Rightarrow> passed_text b | None \<Rightarrow> ''not_executed'')"

definition named_status :: "gomap \<Rightarrow> string \<Rightarrow> string \<Rightarrow> string" where
  "named_status m k k' =
     (case as_string (get_key m k) of
        Some s \<Rightarrow> s
      | None \<Rightarrow> (case as_bool (get_key m k') of Some b \<Rightarrow> passed_text b | None \<Rightarrow> ''not_executed''))"

definition test_section :: "gomap option \<Rightarrow> string" where
  "test_section tr =
     (let m = or_zero [] tr
      in render_bullet ''Targeted tests (post-code)'' (post_code_status m) @
         render_bullet ''Targeted tests (post-fix)'' (targeted_status m ''targeted_fix_passed'') @
         render_bullet ''Full test suite'' (full_suite_status m) @
         render_bullet ''Lint'' (named_status m ''lint_status'' ''lint_passed'') @
         render_bullet ''Build verification'' (named_status m ''build_status'' ''build_passed''))"

section \<open>The summary\<close>

record pr_summary =
  pm_title :: string
  pm_body :: string
  pm_url :: string
  pm_changed_files :: "string list"
  pm_risk_level :: string
  pm_risk_reason :: string
  pm_risk_domains :: "string list"
  pm_status :: string
  pm_review_limit_exceeded :: bool
  pm_self_review_fallback :: bool

definition change_row :: "file_diff \<Rightarrow> string" where
  "change_row d =
     (let action = (if fd_added d > 0 \<and> fd_deleted d = 0 then ''Added''
                    else if fd_deleted d > 0 \<and> fd_added d = 0 then ''Deleted'' else ''Modified'')
      in ''| '' @ fd_name d @ '' | '' @ action @ '' | +'' @ nat_to_string (fd_added d) @ '' / -'' @
         nat_to_string (fd_deleted d) @ '' |'' @ NL)"

definition change_table :: "string \<Rightarrow> string list \<Rightarrow> string" where
  "change_table diffText files =
     ''| File | Action | Lines Changed |'' @ NL @ ''|------|--------|---------------|'' @ NL @
     (let ds = parseDiff diffText
      in if ds \<noteq> [] then concat (map change_row ds)
         else concat (map (\<lambda>f. ''| '' @ f @ '' | Modified | +/- |'' @ NL) files)) @ NL"

definition risk_section :: "task \<Rightarrow> string list \<Rightarrow> string list \<Rightarrow> bool \<Rightarrow> bool \<Rightarrow> string" where
  "risk_section t files domains limit fallback =
     ''### Risk Assessment'' @ NL @ ''- **Level:** '' @ fst (assessRisk t files) @ NL @
     (if domains \<noteq> [] then ''- **Risk Domains:** '' @ join '', '' domains @ NL else '''') @
     ''- **Reason:** '' @ snd (assessRisk t files) @ NL @
     (if limit then ''- '' @ warn_sign @ '' **Review Limit Warning:** The review-fix cycle limit has been exceeded. Please review carefully.'' @ NL
      else '''') @
     (if fallback then ''- '' @ warn_sign @ '' **Self-Review Warning:** No alternative model was available, so this PR was reviewed by the same model that wrote the code (Harness Independence fallback). Please review carefully.'' @ NL
      else '''') @ NL"

definition harness_section :: "string \<Rightarrow> string \<Rightarrow> string" where
  "harness_section coded reviewed =
     (if coded = '''' \<and> reviewed = '''' then ''''
      else ''### Review Harness'' @ NL @
        (if coded \<noteq> '''' then ''- **Coded by:** '' @ coded @ NL else '''') @
        (if reviewed \<noteq> '''' then ''- **Reviewed by:** '' @ reviewed @ NL else '''') @ NL)"

text \<open>The agent is given by role and level of its model.\<close>

definition GenerateSummary ::
  "task \<Rightarrow> (string \<times> string) option \<Rightarrow> string list \<Rightarrow> string \<Rightarrow> gomap option \<Rightarrow> string list \<Rightarrow> bool \<Rightarrow> bool \<Rightarrow>
   string \<Rightarrow> string \<Rightarrow> pr_summary" where
  "GenerateSummary t agent files diffText testResult domains limit fallback coded reviewed =
     (let (role, level) = or_zero (''Unknown Agent'', ''unknown'') agent;
          body =
            ''## AutoCodeOS: '' @ t_title t @ NL @ NL @ ''**Task:** #'' @ t_id t @ NL @
            ''**Agent:** '' @ role @ '' ('' @ level @ '')'' @ NL @
            ''**Complexity:** '' @ t_complexity t @ NL @ NL @
            ''### Summary'' @ NL @
            (if t_description t \<noteq> '''' then t_description t
             else ''Automated changes implemented by Auto Code OS.'') @ NL @ NL @
            ''### Changes'' @ NL @ change_table diffText files @
            risk_section t files domains limit fallback @ harness_section coded reviewed @
            ''### Test Results'' @ NL @ test_section testResult @
            NL @ ''---'' @ NL @ ''*This PR was generated by Auto Code OS.*'' @ NL
      in \<lparr>pm_title = ''AutoCodeOS: '' @ t_title t, pm_body = body, pm_url = '''', pm_changed_files = files,
          pm_risk_level = fst (assessRisk t files), pm_risk_reason = snd (assessRisk t files),
          pm_risk_domains = domains, pm_status = ''open'', pm_review_limit_exceeded = limit,
          pm_self_review_fallback = fallback\<rparr>)"

section \<open>What is read from a diff\<close>

lemma on_last_append [simp]: "on_last f (xs @ [x]) = xs @ [f x]"
proof (induction xs)
  case (Cons y xs)
  then show ?case by (cases xs) auto
qed simp

definition is_added :: "string \<Rightarrow> bool" where
  "is_added l \<longleftrightarrow> has_prefix l ''+'' \<and> \<not> has_prefix l ''+++''"

definition is_deleted :: "string \<Rightarrow> bool" where
  "is_deleted l \<longleftrightarrow> has_prefix l ''-'' \<and> \<not> has_prefix l ''---''"

text \<open>The part of a diff about one file: its first line, the name in it, and the lines below.\<close>

record diff_part =
  dp_header :: string
  dp_name :: string
  dp_lines :: "string list"

definition part_ok :: "diff_part \<Rightarrow> bool" where
  "part_ok p \<longleftrightarrow>
     has_prefix (dp_header p) ''diff --git '' \<and>
     (case Go_Prelude.fields (dp_header p) of _ # _ # a # _ \<Rightarrow> trim_prefix a ''a/'' = dp_name p | _ \<Rightarrow> False) \<and>
     list_all (\<lambda>l. \<not> has_prefix l ''diff --git '') (dp_lines p) \<and>
     list_all (\<lambda>l. newline \<notin> set l) (dp_header p # dp_lines p)"

definition part_counts :: "diff_part \<Rightarrow> file_diff" where
  "part_counts p =
     \<lparr>fd_name = dp_name p, fd_added = length (filter is_added (dp_lines p)),
      fd_deleted = length (filter is_deleted (dp_lines p))\<rparr>"

lemma not_both: "is_added l \<Longrightarrow> \<not> is_deleted l"
  by (auto simp: is_added_def is_deleted_def elim!: has_prefixE)

lemma diff_line_body:
  assumes "\<not> has_prefix l ''diff --git ''"
  shows "diff_line (out @ [d]) l =
    out @ [d\<lparr>fd_added := fd_added d + (if is_added l then 1 else 0), fd_deleted := fd_deleted d + (if is_deleted l then 1 else 0)\<rparr>]"
  using assms not_both [of l] by (auto simp: diff_line_def is_added_def is_deleted_def)

lemma diff_body:
  "list_all (\<lambda>l. \<not> has_prefix l ''diff --git '') ls \<Longrightarrow>
   foldl diff_line (out @ [d]) ls =
     out @ [d\<lparr>fd_added := fd_added d + length (filter is_added ls), fd_deleted := fd_deleted d + length (filter is_deleted ls)\<rparr>]"
  by (induction ls arbitrary: d) (auto simp: diff_line_body)

lemma diff_part_read: "part_ok p \<Longrightarrow> foldl diff_line out (dp_header p # dp_lines p) = out @ [part_counts p]"
  using diff_body [of "dp_lines p" out "\<lparr>fd_name = dp_name p, fd_added = 0, fd_deleted = 0\<rparr>"]
  by (auto simp: part_ok_def diff_line_def part_counts_def split: list.splits)

lemma diff_parts_read:
  "list_all part_ok ps \<Longrightarrow>
   foldl diff_line out (concat (map (\<lambda>p. dp_header p # dp_lines p) ps)) = out @ map part_counts ps"
proof (induction ps arbitrary: out)
  case (Cons p ps)
  then show ?case using diff_part_read [of p out] by simp
qed simp

text \<open>
  A diff is read part by part: for every file, in order, its name and how many of its lines
  begin with a plus or a minus sign, those that look like file headers left out.
\<close>
theorem parseDiff_counts:
  assumes "list_all part_ok ps"
  shows "parseDiff (join NL (concat (map (\<lambda>p. dp_header p # dp_lines p) ps))) = map part_counts ps"
proof (cases "ps = []")
  case False
  let ?ls = "concat (map (\<lambda>p. dp_header p # dp_lines p) ps)"
  have "?ls \<noteq> []" using False by (cases ps) auto
  moreover have "\<forall>l\<in>set ?ls. newline \<notin> set l" using assms by (fastforce simp: part_ok_def list_all_iff)
  ultimately have "split_lines (join NL ?ls) = ?ls" by (intro split_char_join) auto
  then show ?thesis using diff_parts_read [OF assms, of "[]"] by (simp add: parseDiff_def)
qed (simp add: parseDiff_def diff_line_def has_prefix_def)

text \<open>A deleted line that itself begins with two minus signs is not counted.\<close>

lemma deleted_comment_uncounted: "\<not> is_deleted (''-'' @ ''-- a comment'')"
  by code_simp

section \<open>Risk grows with the change\<close>

definition risk_rank :: "string \<Rightarrow> nat" where
  "risk_rank level =
     (if level = PRRiskCritical then 3 else if level = PRRiskHigh then 2 else if level = PRRiskMedium then 1 else 0)"

lemma touches_mono:
  "set fs \<subseteq> set gs \<Longrightarrow> touches_migration fs \<Longrightarrow> touches_migration gs"
  "set fs \<subseteq> set gs \<Longrightarrow> touches_config fs \<Longrightarrow> touches_config gs"
  by (auto simp: touches_migration_def touches_config_def list_ex_iff)

text \<open>
  A change that contains another one, file by file, is never given a lower level of risk.
\<close>
theorem risk_monotone:
  assumes "set fs \<subseteq> set gs" and "length fs \<le> length gs"
  shows "risk_rank (fst (assessRisk t fs)) \<le> risk_rank (fst (assessRisk t gs))"
  using touches_mono [OF assms(1)] assms(2) by (auto simp: assessRisk_def risk_rank_def)

theorem risk_monotone_witness:
  "risk_rank (fst (assessRisk t [''a.go''])) \<le> risk_rank (fst (assessRisk t [''a.go'', ''migration/1.sql'']))"
  by (rule risk_monotone) simp_all

definition go_part :: diff_part where
  "go_part =
     \<lparr>dp_header = ''diff --git a/m.go b/m.go'', dp_name = ''m.go'',
      dp_lines = [''--- a/m.go'', ''+++ b/m.go'', ''@@ -1 +1,2 @@'', ''-x'', ''+y'', ''+z'']\<rparr>"

theorem parseDiff_counts_witness:
  "parseDiff (join NL (concat (map (\<lambda>p. dp_header p # dp_lines p) [go_part]))) =
   [\<lparr>fd_name = ''m.go'', fd_added = 2, fd_deleted = 1\<rparr>]"
proof -
  have "list_all part_ok [go_part]" by code_simp
  from parseDiff_counts [OF this] show ?thesis
    by (simp add: part_counts_def go_part_def is_added_def is_deleted_def has_prefix_def)
qed

end
