(* ===== verification/Base64.thy ===== *)
theory Base64
  imports Go_Prelude
begin

text \<open>
  Package \<^verbatim>\<open>encoding/base64\<close> as the program uses it: \<^verbatim>\<open>StdEncoding\<close>, padded, with the decoder that passes over
  line breaks and does not look at the unused low bits of the last character. A byte is a character.
\<close>

section \<open>The alphabet\<close>

definition b64_alphabet :: string where
  "b64_alphabet = ''ABCDEFGHIJKLMNOPQRSTUVWXYZabcdefghijklmnopqrstuvwxyz0123456789+/''"

definition b64_char :: "nat \<Rightarrow> char" where
  "b64_char n = b64_alphabet ! n"

definition b64_value :: "char \<Rightarrow> nat option" where
  "b64_value c = map_of (zip b64_alphabet [0..<64]) c"

definition byte_of :: "char \<Rightarrow> nat" where
  "byte_of c = of_char c"

lemma byte_of_less [simp]: "byte_of c < 256"
  by (simp add: byte_of_def)

lemma char_of_byte [simp]: "char_of (byte_of c) = c"
  by (simp add: byte_of_def)

lemma b64_value_all:
  "list_all (\<lambda>n. b64_value (b64_char n) = Some n \<and>
     b64_char n \<noteq> CHR ''='' \<and> b64_char n \<noteq> CHR 0x0A \<and> b64_char n \<noteq> CHR 0x0D) [0..<64]"
  by code_simp

lemma b64_char_facts:
  assumes "n < 64"
  shows "b64_value (b64_char n) = Some n" and "b64_char n \<noteq> CHR ''=''"
    and "b64_char n \<noteq> CHR 0x0A" and "b64_char n \<noteq> CHR 0x0D"
  using b64_value_all assms by (auto simp: list_all_iff)

lemmas b64_char_simps [simp] = b64_char_facts b64_char_facts(2-4) [symmetric]

section \<open>Encoding and decoding\<close>

text \<open>The four groups of six bits of three bytes; the encoder shifts in zeros for bytes that are missing.\<close>

definition sextet1 :: "char \<Rightarrow> nat" where
  "sextet1 a = byte_of a div 4"

definition sextet2 :: "char \<Rightarrow> char \<Rightarrow> nat" where
  "sextet2 a b = byte_of a mod 4 * 16 + byte_of b div 16"

definition sextet3 :: "char \<Rightarrow> char \<Rightarrow> nat" where
  "sextet3 b c = byte_of b mod 16 * 4 + byte_of c div 64"

definition sextet4 :: "char \<Rightarrow> nat" where
  "sextet4 c = byte_of c mod 64"

fun b64_encode :: "string \<Rightarrow> string" where
  "b64_encode [] = []"
| "b64_encode [a] = [b64_char (sextet1 a), b64_char (sextet2 a (CHR 0x00)), CHR ''='', CHR ''='']"
| "b64_encode [a, b] =
     [b64_char (sextet1 a), b64_char (sextet2 a b), b64_char (sextet3 b (CHR 0x00)), CHR ''='']"
| "b64_encode (a # b # c # rest) =
     [b64_char (sextet1 a), b64_char (sextet2 a b), b64_char (sextet3 b c), b64_char (sextet4 c)] @ b64_encode rest"

definition b64_first :: "nat \<Rightarrow> nat \<Rightarrow> char" where
  "b64_first w x = char_of (w * 4 + x div 16)"

definition b64_second :: "nat \<Rightarrow> nat \<Rightarrow> char" where
  "b64_second x y = char_of (x mod 16 * 16 + y div 4)"

definition b64_third :: "nat \<Rightarrow> nat \<Rightarrow> char" where
  "b64_third y z = char_of (y mod 4 * 64 + z)"

text \<open>Groups of four; padding is accepted in the last group only.\<close>

fun b64_groups :: "string \<Rightarrow> string option" where
  "b64_groups [] = Some []"
| "b64_groups (w # x # y # z # rest) =
     (case (b64_value w, b64_value x) of
        (Some p, Some q) \<Rightarrow>
          if rest = [] \<and> y = CHR ''='' \<and> z = CHR ''='' then Some [b64_first p q]
          else (case b64_value y of
                  None \<Rightarrow> None
                | Some r \<Rightarrow>
                    if rest = [] \<and> z = CHR ''='' then Some [b64_first p q, b64_second q r]
                    else (case (b64_value z, b64_groups rest) of
                            (Some s, Some out) \<Rightarrow> Some ([b64_first p q, b64_second q r, b64_third r s] @ out)
                          | _ \<Rightarrow> None))
      | _ \<Rightarrow> None)"
| "b64_groups _ = None"

definition b64_decode :: "string \<Rightarrow> string option" where
  "b64_decode s = b64_groups (filter (\<lambda>c. c \<noteq> CHR 0x0A \<and> c \<noteq> CHR 0x0D) s)"

section \<open>The round trip\<close>

lemma packed:
  assumes "y < k"
  shows "(x * k + y) div k = (x :: nat)" and "(x * k + y) mod k = y"
  using assms by simp_all

lemma high_bits: "byte_of b div 16 < 16" "byte_of c div 64 < 4" "byte_of a div 4 < 64"
  using byte_of_less [of a] byte_of_less [of b] byte_of_less [of c] by (simp_all only: div_less_iff_less_mult)

lemma sextets_less [simp]: "sextet1 a < 64" "sextet2 a b < 64" "sextet3 b c < 64" "sextet4 c < 64"
proof -
  show "sextet1 a < 64" by (simp only: sextet1_def high_bits)
  have "byte_of a mod 4 < 4" by simp
  with high_bits(1) [of b] show "sextet2 a b < 64" unfolding sextet2_def by linarith
  have "byte_of b mod 16 < 16" by simp
  with high_bits(2) [of c] show "sextet3 b c < 64" unfolding sextet3_def by linarith
  show "sextet4 c < 64" by (simp add: sextet4_def)
qed

lemma first_byte [simp]: "b64_first (sextet1 a) (sextet2 a b) = a"
  by (simp only: b64_first_def sextet1_def sextet2_def packed [OF high_bits(1)] div_mult_mod_eq char_of_byte)

lemma second_byte [simp]: "b64_second (sextet2 a b) (sextet3 b c) = b"
  by (simp only: b64_second_def sextet2_def sextet3_def packed [OF high_bits(1)] packed [OF high_bits(2)]
      div_mult_mod_eq char_of_byte)

lemma third_byte [simp]: "b64_third (sextet3 b c) (sextet4 c) = c"
  by (simp only: b64_third_def sextet3_def sextet4_def packed [OF high_bits(2)] div_mult_mod_eq char_of_byte)

lemma groups_encode: "b64_groups (b64_encode s) = Some s"
  by (induction s rule: b64_encode.induct) (simp_all)

lemma encode_no_breaks: "filter (\<lambda>c. c \<noteq> CHR 0x0A \<and> c \<noteq> CHR 0x0D) (b64_encode s) = b64_encode s"
  by (induction s rule: b64_encode.induct) simp_all

theorem b64_roundtrip [simp]: "b64_decode (b64_encode s) = Some s"
  by (simp add: b64_decode_def encode_no_breaks groups_encode)

lemma b64_encode_inject [simp]: "b64_encode s = b64_encode t \<longleftrightarrow> s = t"
  by (metis b64_roundtrip option.inject)

end
