(* ===== verification/Attestation.thy ===== *)
theory Attestation
  imports Base64 Task_Model
begin

text \<open>
  Signed attestations of commits: the envelopes of \<^verbatim>\<open>pkg/attest\<close>, the service and its repositories
  (\<^verbatim>\<open>internal/service/attestation.go\<close>, \<^verbatim>\<open>internal/repository/attestation.go\<close>) and the cipher the private
  keys are stored under (\<^verbatim>\<open>internal/service/crypto.go\<close>). The primitives of Go's crypto packages and of
  \<^verbatim>\<open>encoding/json\<close> are parameters, collected in a record; random bytes are arguments.
\<close>

section \<open>Statements and envelopes\<close>

record actor =
  ac_engine :: string
  ac_provider :: string
  ac_model :: string

record policy_snapshot =
  ps_autonomy :: string
  ps_review_harness :: string
  ps_fix_cycles_used :: int

record attest_predicate =
  ap_coded_by :: actor
  ap_reviewed_by :: "actor option"
  ap_prompt_hash :: string
  ap_policy :: policy_snapshot
  ap_task_id :: string
  ap_job_id :: string
  ap_timestamp :: int

record attest_subject =
  su_name :: string
  su_digest :: "(string \<times> string) list"

record attest_statement =
  sm_type :: string
  sm_subject :: "attest_subject list"
  sm_predicate_type :: string
  sm_predicate :: attest_predicate

definition BuildStatement :: "string \<Rightarrow> string \<Rightarrow> attest_predicate \<Rightarrow> attest_statement" where
  "BuildStatement repoName commitHash p =
     \<lparr>sm_type = ''https://in-toto.io/Statement/v1'',
      sm_subject = [\<lparr>su_name = repoName @ ''@'' @ commitHash, su_digest = [(''gitCommit'', commitHash)]\<rparr>],
      sm_predicate_type = ''https://autocode.os/attestation/v1'', sm_predicate = p\<rparr>"

record signature =
  sg_key_id :: string
  sg_sig :: string

record envelope =
  en_payload_type :: string
  en_payload :: string
  en_signatures :: "signature list"

section \<open>The primitives\<close>

text \<open>
  Ed25519 (by private key, the public one is a function of it), SHA-256, the authenticated
  encryption under the key of the deployment, and the two directions of JSON.
\<close>

record crypto =
  cy_public :: "string \<Rightarrow> string"
  cy_sign :: "string \<Rightarrow> string \<Rightarrow> string"
  cy_verify :: "string \<Rightarrow> string \<Rightarrow> string \<Rightarrow> bool"
  cy_sha256 :: "string \<Rightarrow> string"
  cy_nonce_size :: nat
  cy_seal :: "string \<Rightarrow> string \<Rightarrow> string"
  cy_open :: "string \<Rightarrow> string \<Rightarrow> string option"
  cy_marshal :: "attest_statement \<Rightarrow> string"
  cy_unmarshal :: "string \<Rightarrow> attest_statement option"

text \<open>What the documentation promises: a signature verifies under its own key, and what was sealed can be opened.\<close>

definition sound_crypto :: "crypto \<Rightarrow> bool" where
  "sound_crypto c \<longleftrightarrow>
     (\<forall>k m. cy_verify c (cy_public c k) m (cy_sign c k m)) \<and> (\<forall>n p. cy_open c n (cy_seal c n p) = Some p)"

section \<open>Envelopes\<close>

definition PayloadType :: string where
  "PayloadType = ''application/vnd.in-toto+json''"

definition pae :: "string \<Rightarrow> string \<Rightarrow> string" where
  "pae payloadType body =
     ''DSSEv1 '' @ nat_to_string (length payloadType) @ '' '' @ payloadType @ '' '' @
     nat_to_string (length body) @ '' '' @ body"

definition att_Sign :: "crypto \<Rightarrow> attest_statement \<Rightarrow> string \<Rightarrow> string \<Rightarrow> envelope" where
  "att_Sign c stm keyID priv =
     (let body = cy_marshal c stm
      in \<lparr>en_payload_type = PayloadType, en_payload = b64_encode body,
          en_signatures = [\<lparr>sg_key_id = keyID, sg_sig = b64_encode (cy_sign c priv (pae PayloadType body))\<rparr>]\<rparr>)"

datatype attest_error =
    PayloadUnreadable
  | NoSignatureFor string
  | SignatureUnreadable
  | SignatureWrong string
  | StatementUnreadable
  | CipherFailed string
  | KeyExists string
  | NoAttestation string
  | EnvelopeUnreadable
  | KeyUnknown string
  | KeyUnreadable string
  | CommitExists string

definition att_Verify :: "crypto \<Rightarrow> envelope \<Rightarrow> string \<Rightarrow> string \<Rightarrow> attest_error + unit" where
  "att_Verify c e keyID pub =
     (case b64_decode (en_payload e) of
        None \<Rightarrow> Inl PayloadUnreadable
      | Some body \<Rightarrow>
          (case find (\<lambda>s. sg_key_id s = keyID) (en_signatures e) of
             None \<Rightarrow> Inl (NoSignatureFor keyID)
           | Some s \<Rightarrow>
               (case b64_decode (sg_sig s) of
                  None \<Rightarrow> Inl SignatureUnreadable
                | Some sig \<Rightarrow>
                    if cy_verify c pub (pae (en_payload_type e) body) sig then Inr () else Inl (SignatureWrong keyID))))"

definition DecodeStatement :: "crypto \<Rightarrow> envelope \<Rightarrow> attest_error + attest_statement" where
  "DecodeStatement c e =
     (case b64_decode (en_payload e) of
        None \<Rightarrow> Inl PayloadUnreadable
      | Some body \<Rightarrow> (case cy_unmarshal c body of None \<Rightarrow> Inl StatementUnreadable | Some s \<Rightarrow> Inr s))"

section \<open>Keys\<close>

definition hex_digits :: string where
  "hex_digits = ''0123456789abcdef''"

definition hex_encode :: "string \<Rightarrow> string" where
  "hex_encode s = concat (map (\<lambda>x. [hex_digits ! (byte_of x div 16), hex_digits ! (byte_of x mod 16)]) s)"

definition KeyID :: "crypto \<Rightarrow> string \<Rightarrow> string" where
  "KeyID c pub = take 8 (hex_encode (cy_sha256 c pub))"

text \<open>\<^verbatim>\<open>SecretCipher\<close>: the nonce is put before the ciphertext.\<close>

definition cipher_Encrypt :: "crypto \<Rightarrow> string \<Rightarrow> string \<Rightarrow> string" where
  "cipher_Encrypt c nonce plain = b64_encode (nonce @ cy_seal c nonce plain)"

definition cipher_Decrypt :: "crypto \<Rightarrow> string \<Rightarrow> attest_error + string" where
  "cipher_Decrypt c encoded =
     (case b64_decode encoded of
        None \<Rightarrow> Inl (CipherFailed ''decode secret'')
      | Some ct \<Rightarrow>
          if length ct < cy_nonce_size c then Inl (CipherFailed ''secret ciphertext too short'')
          else (case cy_open c (take (cy_nonce_size c) ct) (drop (cy_nonce_size c) ct) of
                  None \<Rightarrow> Inl (CipherFailed ''decrypt secret'')
                | Some plain \<Rightarrow> Inr plain))"

datatype key_status = KeyActive | KeyRetired

record attest_key =
  ak_id :: string
  ak_public :: string
  ak_private_encrypted :: string
  ak_status :: key_status

record attestation =
  at_task_id :: string
  at_job_id :: string
  at_commit_hash :: string
  at_key_id :: string
  at_coded_by :: actor
  at_reviewed_by :: "actor option"
  at_prompt_hash :: string
  at_policy :: policy_snapshot
  at_envelope :: "envelope raw_json"

text \<open>The two tables, in the order their rows were created.\<close>

record attest_state =
  as_keys :: "attest_key list"
  as_rows :: "attestation list"

text \<open>The bytes a generated key and a nonce are made of.\<close>

record fresh_bytes =
  fb_private :: string
  fb_nonce :: string

section \<open>The repositories\<close>

definition key_Create :: "attest_key \<Rightarrow> attest_state \<Rightarrow> attest_error option \<times> attest_state" where
  "key_Create k st =
     (if ak_id k \<in> set (map ak_id (as_keys st)) then (Some (KeyExists (ak_id k)), st)
      else (None, st\<lparr>as_keys := as_keys st @ [k]\<rparr>))"

definition key_GetActive :: "attest_state \<Rightarrow> attest_key option" where
  "key_GetActive st = find (\<lambda>k. ak_status k = KeyActive) (rev (as_keys st))"

definition key_GetByKeyID :: "attest_state \<Rightarrow> string \<Rightarrow> attest_key option" where
  "key_GetByKeyID st i = find (\<lambda>k. ak_id k = i) (as_keys st)"

definition RetireActiveKeys :: "attest_state \<Rightarrow> attest_state" where
  "RetireActiveKeys st =
     st\<lparr>as_keys := map (\<lambda>k. if ak_status k = KeyActive then k\<lparr>ak_status := KeyRetired\<rparr> else k) (as_keys st)\<rparr>"

definition GetByCommitHash :: "attest_state \<Rightarrow> string \<Rightarrow> attestation option" where
  "GetByCommitHash st commit = find (\<lambda>r. at_commit_hash r = commit) (as_rows st)"

definition attest_ListByTaskID :: "attest_state \<Rightarrow> string \<Rightarrow> attestation list" where
  "attest_ListByTaskID st taskID = filter (\<lambda>r. at_task_id r = taskID) (as_rows st)"

text \<open>The index on the commit hash is unique.\<close>

definition attest_Create :: "attestation \<Rightarrow> attest_state \<Rightarrow> (attest_error + attestation) \<times> attest_state" where
  "attest_Create r st =
     (if at_commit_hash r \<in> set (map at_commit_hash (as_rows st)) then (Inl (CommitExists (at_commit_hash r)), st)
      else (Inr r, st\<lparr>as_rows := as_rows st @ [r]\<rparr>))"

section \<open>The service\<close>

definition new_active_key :: "crypto \<Rightarrow> fresh_bytes \<Rightarrow> attest_key" where
  "new_active_key c fr =
     (let pub = cy_public c (fb_private fr)
      in \<lparr>ak_id = KeyID c pub, ak_public = b64_encode pub,
          ak_private_encrypted = cipher_Encrypt c (fb_nonce fr) (b64_encode (fb_private fr)), ak_status = KeyActive\<rparr>)"

definition add_key :: "attest_key \<Rightarrow> attest_state \<Rightarrow> (attest_error + attest_key) \<times> attest_state" where
  "add_key k st = (case key_Create k st of (Some e, st') \<Rightarrow> (Inl e, st') | (None, st') \<Rightarrow> (Inr k, st'))"

definition EnsureActiveKey :: "crypto \<Rightarrow> fresh_bytes \<Rightarrow> attest_state \<Rightarrow> (attest_error + attest_key) \<times> attest_state" where
  "EnsureActiveKey c fr st =
     (case key_GetActive st of Some k \<Rightarrow> (Inr k, st) | None \<Rightarrow> add_key (new_active_key c fr) st)"

definition RotateKey :: "crypto \<Rightarrow> fresh_bytes \<Rightarrow> attest_state \<Rightarrow> (attest_error + attest_key) \<times> attest_state" where
  "RotateKey c fr st = add_key (new_active_key c fr) (RetireActiveKeys st)"

record sign_input =
  si_repo_name :: string
  si_commit_hash :: string
  si_task_id :: string
  si_job_id :: string
  si_coded_by :: actor
  si_reviewed_by :: "actor option"
  si_prompt_hash :: string
  si_policy :: policy_snapshot

definition statement_of :: "sign_input \<Rightarrow> int \<Rightarrow> attest_statement" where
  "statement_of i now =
     BuildStatement (si_repo_name i) (si_commit_hash i)
       \<lparr>ap_coded_by = si_coded_by i, ap_reviewed_by = si_reviewed_by i, ap_prompt_hash = si_prompt_hash i,
        ap_policy = si_policy i, ap_task_id = si_task_id i, ap_job_id = si_job_id i, ap_timestamp = now\<rparr>"

definition private_key :: "crypto \<Rightarrow> attest_key \<Rightarrow> attest_error + string" where
  "private_key c k =
     bind_err (cipher_Decrypt c (ak_private_encrypted k))
       (\<lambda>s. case b64_decode s of None \<Rightarrow> Inl (CipherFailed ''decode active signing key'') | Some p \<Rightarrow> Inr p)"

definition row_of :: "crypto \<Rightarrow> sign_input \<Rightarrow> int \<Rightarrow> string \<Rightarrow> string \<Rightarrow> attestation" where
  "row_of c i now keyID priv =
     \<lparr>at_task_id = si_task_id i, at_job_id = si_job_id i, at_commit_hash = si_commit_hash i, at_key_id = keyID,
      at_coded_by = si_coded_by i, at_reviewed_by = si_reviewed_by i, at_prompt_hash = si_prompt_hash i,
      at_policy = si_policy i, at_envelope = Json (att_Sign c (statement_of i now) keyID priv)\<rparr>"

definition SignCommit ::
  "crypto \<Rightarrow> fresh_bytes \<Rightarrow> int \<Rightarrow> sign_input \<Rightarrow> attest_state \<Rightarrow> (attest_error + attestation) \<times> attest_state" where
  "SignCommit c fr now i st =
     (case GetByCommitHash st (si_commit_hash i) of
        Some r \<Rightarrow> (Inr r, st)
      | None \<Rightarrow>
          (case EnsureActiveKey c fr st of
             (Inl e, st1) \<Rightarrow> (Inl e, st1)
           | (Inr k, st1) \<Rightarrow>
               (case private_key c k of
                  Inl e \<Rightarrow> (Inl e, st1)
                | Inr priv \<Rightarrow> attest_Create (row_of c i now (ak_id k) priv) st1)))"

record verify_result =
  vr_row :: attestation
  vr_envelope :: envelope
  vr_verified :: bool
  vr_key_id :: string

definition VerifyByCommitHash :: "crypto \<Rightarrow> string \<Rightarrow> attest_state \<Rightarrow> attest_error + verify_result" where
  "VerifyByCommitHash c commit st =
     (case GetByCommitHash st commit of
        None \<Rightarrow> Inl (NoAttestation commit)
      | Some r \<Rightarrow>
          (case at_envelope r of
             Json e \<Rightarrow>
               (case key_GetByKeyID st (at_key_id r) of
                  None \<Rightarrow> Inl (KeyUnknown (at_key_id r))
                | Some k \<Rightarrow>
                    (case b64_decode (ak_public k) of
                       None \<Rightarrow> Inl (KeyUnreadable (ak_id k))
                     | Some pub \<Rightarrow>
                         Inr \<lparr>vr_row = r, vr_envelope = e, vr_verified = (\<not> is_err (att_Verify c e (at_key_id r) pub)),
                              vr_key_id = at_key_id r\<rparr>))
           | _ \<Rightarrow> Inl EnvelopeUnreadable))"

text \<open>The exported key set: the public keys once more, in the URL alphabet and without padding.\<close>

definition b64_url :: "string \<Rightarrow> string" where
  "b64_url s =
     map (\<lambda>x. if x = CHR ''+'' then CHR ''-'' else if x = CHR ''/'' then CHR ''_'' else x)
       (filter (\<lambda>x. x \<noteq> CHR ''='') (b64_encode s))"

record jwk =
  jw_x :: string
  jw_key_id :: string
  jw_status :: key_status

definition JWKS :: "attest_state \<Rightarrow> jwk list" where
  "JWKS st =
     List.map_filter
       (\<lambda>k. map_option (\<lambda>pub. \<lparr>jw_x = b64_url pub, jw_key_id = ak_id k, jw_status = ak_status k\<rparr>)
              (b64_decode (ak_public k))) (as_keys st)"

end
