(* ===== verification/Attestation_Props.thy ===== *)
theory Attestation_Props
  imports Attestation
begin

text \<open>
  What the attestations show: the bytes that are signed determine the payload, every signature the
  service made verifies for good, however often the key is rotated, and the envelope of a record is
  a statement about the commit the record is filed under.
\<close>

section \<open>The signed bytes\<close>

lemma nat_to_string_no_space: "CHR '' '' \<notin> set (nat_to_string n)"
proof (induction n rule: nat_to_string.induct)
  case (1 n)
  have d: "CHR '' '' \<noteq> digit_char m" if "m < 10" for m
  proof
    assume e: "CHR '' '' = digit_char m"
    from arg_cong [OF e, of "of_char :: char \<Rightarrow> nat"] that show False by (simp add: digit_char_def)
  qed
  with 1 show ?case by (subst nat_to_string.simps) auto
qed

definition digits_of :: "string \<Rightarrow> nat" where
  "digits_of s = fold (\<lambda>c n. 10 * n + (of_char c - 48)) s 0"

lemma digits_of_nat: "digits_of (nat_to_string n) = n"
proof (induction n rule: nat_to_string.induct)
  case (1 n)
  have d: "of_char (digit_char m) - 48 = m" if "m < 10" for m :: nat
    using that by (simp add: digit_char_def)
  with 1 show ?case by (subst nat_to_string.simps) (simp add: digits_of_def)
qed

lemma nat_to_string_inject [simp]: "nat_to_string m = nat_to_string n \<longleftrightarrow> m = n"
  by (metis digits_of_nat)

text \<open>A number, a space and as many bytes as the number says: the bytes behind it are what is left.\<close>

lemma counted_inject:
  "nat_to_string (length t) @ '' '' @ t @ r = nat_to_string (length t') @ '' '' @ t' @ r' \<longleftrightarrow> t = t' \<and> r = r'"
proof
  assume e: "nat_to_string (length t) @ '' '' @ t @ r = nat_to_string (length t') @ '' '' @ t' @ r'"
  have "takeWhile (\<lambda>c. c \<noteq> CHR '' '') (nat_to_string n @ '' '' @ x) = nat_to_string n" for n x
    using nat_to_string_no_space [of n] by (subst takeWhile_append2) auto
  then have "length t = length t'" using arg_cong [OF e, of "takeWhile (\<lambda>c. c \<noteq> CHR '' '')"] by simp
  with e show "t = t' \<and> r = r'" by simp
qed simp

text \<open>
  The bytes that are signed determine the type and the payload: no two envelopes are signed alike.
\<close>
theorem pae_injective: "pae t body = pae t' body' \<longleftrightarrow> t = t' \<and> body = body'"
  using counted_inject [of body "[]" body' "[]"]
    counted_inject [of t "'' '' @ nat_to_string (length body) @ '' '' @ body" t' "'' '' @ nat_to_string (length body') @ '' '' @ body'"]
  by (simp add: pae_def)

section \<open>What is signed verifies\<close>

lemma Sign_verifies:
  assumes "sound_crypto c"
  shows "att_Verify c (att_Sign c stm keyID priv) keyID (cy_public c priv) = Inr ()"
  using assms by (simp add: att_Verify_def att_Sign_def Let_def sound_crypto_def)

lemma cipher_roundtrip:
  assumes "sound_crypto c" and "length nonce = cy_nonce_size c"
  shows "cipher_Decrypt c (cipher_Encrypt c nonce plain) = Inr plain"
  using assms by (simp add: cipher_Decrypt_def cipher_Encrypt_def sound_crypto_def)

section \<open>The moves of the service\<close>

inductive attest_move :: "crypto \<Rightarrow> attest_state \<Rightarrow> attest_state \<Rightarrow> bool" for c where
  Signs: "length (fb_nonce fr) = cy_nonce_size c \<Longrightarrow> attest_move c st (snd (SignCommit c fr now i st))"
| Rotates: "length (fb_nonce fr) = cy_nonce_size c \<Longrightarrow> attest_move c st (snd (RotateKey c fr st))"
| Ensures: "length (fb_nonce fr) = cy_nonce_size c \<Longrightarrow> attest_move c st (snd (EnsureActiveKey c fr st))"

definition key_ok :: "crypto \<Rightarrow> attest_key \<Rightarrow> bool" where
  "key_ok c k \<longleftrightarrow> (\<exists>priv. ak_public k = b64_encode (cy_public c priv) \<and> private_key c k = Inr priv)"

definition row_ok :: "crypto \<Rightarrow> attest_key list \<Rightarrow> attestation \<Rightarrow> bool" where
  "row_ok c ks r \<longleftrightarrow>
     (\<exists>priv i now. r = row_of c i now (at_key_id r) priv \<and>
        (\<exists>k\<in>set ks. ak_id k = at_key_id r \<and> ak_public k = b64_encode (cy_public c priv)))"

definition attest_inv :: "crypto \<Rightarrow> attest_state \<Rightarrow> bool" where
  "attest_inv c st \<longleftrightarrow>
     distinct (map ak_id (as_keys st)) \<and> (\<forall>k\<in>set (as_keys st). key_ok c k) \<and>
     length (filter (\<lambda>k. ak_status k = KeyActive) (as_keys st)) \<le> 1 \<and>
     distinct (map at_commit_hash (as_rows st)) \<and> (\<forall>r\<in>set (as_rows st). row_ok c (as_keys st) r)"

lemma row_ok_more: "row_ok c ks r \<Longrightarrow> set ks \<subseteq> set ks' \<Longrightarrow> row_ok c ks' r"
  by (auto simp: row_ok_def)

lemma new_key_ok:
  assumes "sound_crypto c" and "length (fb_nonce fr) = cy_nonce_size c"
  shows "key_ok c (new_active_key c fr)"
  using cipher_roundtrip [OF assms] by (simp add: key_ok_def new_active_key_def Let_def private_key_def)

lemma key_ok_status [simp]: "key_ok c (k\<lparr>ak_status := s\<rparr>) = key_ok c k"
  by (simp add: key_ok_def private_key_def)

lemma new_key_active [simp]: "ak_status (new_active_key c fr) = KeyActive"
  by (simp add: new_active_key_def Let_def)

lemma add_key_inv:
  assumes "attest_inv c st" and "filter (\<lambda>k. ak_status k = KeyActive) (as_keys st) = []" and "key_ok c k"
  shows "attest_inv c (snd (add_key k st))"
  using assms
  by (auto simp: add_key_def key_Create_def attest_inv_def intro: row_ok_more split: if_splits)

definition retire :: "attest_key \<Rightarrow> attest_key" where
  "retire k = (if ak_status k = KeyActive then k\<lparr>ak_status := KeyRetired\<rparr> else k)"

lemma retire_simps [simp]:
  "ak_id (retire k) = ak_id k" "ak_public (retire k) = ak_public k" "ak_status (retire k) = KeyRetired"
  "key_ok c (retire k) = key_ok c k"
  by (cases "ak_status k"; simp add: retire_def)+

lemma RetireActiveKeys_map: "RetireActiveKeys st = st\<lparr>as_keys := map retire (as_keys st)\<rparr>"
  by (simp add: RetireActiveKeys_def retire_def cong: map_cong)

lemma row_ok_retire: "row_ok c ks r \<Longrightarrow> row_ok c (map retire ks) r"
  by (auto simp: row_ok_def)

lemma retire_inv: "attest_inv c st \<Longrightarrow> attest_inv c (RetireActiveKeys st)"
  by (auto simp: attest_inv_def RetireActiveKeys_map comp_def filter_map intro: row_ok_retire)

lemma active_none: "key_GetActive st = None \<Longrightarrow> filter (\<lambda>k. ak_status k = KeyActive) (as_keys st) = []"
  by (auto simp: key_GetActive_def find_None_iff filter_empty_conv)

lemma EnsureActiveKey_inv:
  assumes "sound_crypto c" and "length (fb_nonce fr) = cy_nonce_size c" and "attest_inv c st"
  shows "attest_inv c (snd (EnsureActiveKey c fr st))"
  using assms add_key_inv [OF assms(3) active_none new_key_ok [OF assms(1,2)]]
  by (simp add: EnsureActiveKey_def split: option.split)

lemma RotateKey_inv:
  assumes "sound_crypto c" and "length (fb_nonce fr) = cy_nonce_size c" and "attest_inv c st"
  shows "attest_inv c (snd (RotateKey c fr st))"
proof -
  have "filter (\<lambda>k. ak_status k = KeyActive) (as_keys (RetireActiveKeys st)) = []"
    by (simp add: RetireActiveKeys_map filter_map comp_def)
  then show ?thesis
    unfolding RotateKey_def by (rule add_key_inv [OF retire_inv [OF assms(3)] _ new_key_ok [OF assms(1,2)]])
qed

lemma find_member: "find P xs = Some x \<Longrightarrow> x \<in> set xs \<and> P x"
  by (induction xs) (auto split: if_splits)

lemma EnsureActiveKey_key: "EnsureActiveKey c fr st = (Inr k, st1) \<Longrightarrow> k \<in> set (as_keys st1)"
  by (auto simp: EnsureActiveKey_def add_key_def key_Create_def key_GetActive_def
      split: option.splits if_splits dest: find_member)

lemma EnsureActiveKey_rows: "as_rows (snd (EnsureActiveKey c fr st)) = as_rows st"
  by (auto simp: EnsureActiveKey_def add_key_def key_Create_def split: option.splits)

lemma SignCommit_inv:
  assumes s: "sound_crypto c" and n: "length (fb_nonce fr) = cy_nonce_size c" and i: "attest_inv c st"
  shows "attest_inv c (snd (SignCommit c fr now inp st))"
proof -
  obtain r st1 where e: "EnsureActiveKey c fr st = (r, st1)" by fastforce
  have i1: "attest_inv c st1" using EnsureActiveKey_inv [OF s n i] e by simp
  show ?thesis
  proof (cases "GetByCommitHash st (si_commit_hash inp)")
    case None
    show ?thesis
    proof (cases r)
      case (Inr k)
      then have k: "k \<in> set (as_keys st1)" using e by (auto dest: EnsureActiveKey_key)
      then obtain priv where p: "ak_public k = b64_encode (cy_public c priv)" "private_key c k = Inr priv"
        using i1 by (auto simp: attest_inv_def key_ok_def)
      have "row_ok c (as_keys st1) (row_of c inp now (ak_id k) priv)"
        using k p(1) by (auto simp: row_ok_def row_of_def)
      with i1 show ?thesis
        using None Inr e p(2) by (auto simp: SignCommit_def attest_Create_def attest_inv_def row_of_def)
    qed (use None e i1 in \<open>simp add: SignCommit_def\<close>)
  qed (use i in \<open>simp add: SignCommit_def\<close>)
qed

lemma attest_move_inv: "attest_move c st st' \<Longrightarrow> sound_crypto c \<Longrightarrow> attest_inv c st \<Longrightarrow> attest_inv c st'"
  by (induction rule: attest_move.induct) (auto intro: SignCommit_inv RotateKey_inv EnsureActiveKey_inv)

lemma attest_moves_inv: "(attest_move c)\<^sup>*\<^sup>* st st' \<Longrightarrow> sound_crypto c \<Longrightarrow> attest_inv c st \<Longrightarrow> attest_inv c st'"
  by (induction rule: rtranclp_induct) (auto intro: attest_move_inv)

definition no_attestations :: attest_state where
  "no_attestations = \<lparr>as_keys = [], as_rows = []\<rparr>"

lemma no_attestations_inv: "attest_inv c no_attestations"
  by (simp add: attest_inv_def no_attestations_def)

text \<open>Records are only added, so the one found for a commit stays the one that is found.\<close>

lemma attest_move_rows: "attest_move c st st' \<Longrightarrow> prefix (as_rows st) (as_rows st')"
proof (induction rule: attest_move.induct)
  case (Signs fr st now i)
  show ?case
    using EnsureActiveKey_rows [of c fr st]
    by (auto simp: SignCommit_def attest_Create_def split: option.split prod.split sum.split)
qed (auto simp: RotateKey_def add_key_def key_Create_def RetireActiveKeys_def EnsureActiveKey_rows split: option.split)

lemma attest_moves_rows: "(attest_move c)\<^sup>*\<^sup>* st st' \<Longrightarrow> prefix (as_rows st) (as_rows st')"
  by (induction rule: rtranclp_induct) (auto intro: attest_move_rows prefix_order.order_trans)

lemma found_row_stays:
  "GetByCommitHash st commit = Some r \<Longrightarrow> prefix (as_rows st) (as_rows st') \<Longrightarrow> GetByCommitHash st' commit = Some r"
  by (auto simp: GetByCommitHash_def prefix_def find_append)

lemma key_found: "distinct (map ak_id ks) \<Longrightarrow> k \<in> set ks \<Longrightarrow> find (\<lambda>x. ak_id x = ak_id k) ks = Some k"
  by (induction ks) (auto simp: image_iff)

lemma created_found:
  assumes "attest_Create r st = (Inr a, st')"
  shows "a = r \<and> GetByCommitHash st' (at_commit_hash r) = Some r"
proof -
  have "at_commit_hash r \<notin> set (map at_commit_hash (as_rows st))" "st' = st\<lparr>as_rows := as_rows st @ [r]\<rparr>" "a = r"
    using assms by (auto simp: attest_Create_def split: if_splits)
  moreover from this(1) have "find (\<lambda>x. at_commit_hash x = at_commit_hash r) (as_rows st) = None"
    by (simp add: find_None_iff image_iff) metis
  ultimately show ?thesis by (simp add: GetByCommitHash_def find_append)
qed

lemma signed_found:
  assumes "SignCommit c fr now i st = (Inr a, st')"
  shows "GetByCommitHash st' (si_commit_hash i) = Some a"
  using assms created_found [of "row_of c i now k p" for k p]
  by (fastforce simp: SignCommit_def row_of_def split: option.splits prod.splits sum.splits)

text \<open>A record of a well-formed state verifies.\<close>

lemma ok_row_verifies:
  assumes s: "sound_crypto c" and i: "attest_inv c st" and r: "GetByCommitHash st commit = Some r"
  shows "\<exists>v. VerifyByCommitHash c commit st = Inr v \<and> vr_row v = r \<and> vr_verified v"
proof -
  have "r \<in> set (as_rows st)" using r by (auto simp: GetByCommitHash_def dest: find_member)
  then obtain priv inp now k where row: "r = row_of c inp now (at_key_id r) priv"
    and k: "k \<in> set (as_keys st)" "ak_id k = at_key_id r" "ak_public k = b64_encode (cy_public c priv)"
    using i by (auto simp: attest_inv_def row_ok_def)
  have f: "key_GetByKeyID st (at_key_id r) = Some k"
    using key_found k(1) k(2) i by (metis attest_inv_def key_GetByKeyID_def)
  have e: "at_envelope r = Json (att_Sign c (statement_of inp now) (at_key_id r) priv)"
    by (subst row) (simp add: row_of_def)
  show ?thesis using r f e k(3) Sign_verifies [OF s] by (simp add: VerifyByCommitHash_def)
qed

text \<open>
  C17: What was signed stays verifiable. The record \<^verbatim>\<open>SignCommit\<close> answers with is the one found and
  verified for its commit after any further signings and rotations of the key.
\<close>
theorem signed_commit_verifies:
  assumes "sound_crypto c" and "(attest_move c)\<^sup>*\<^sup>* no_attestations st" and "length (fb_nonce fr) = cy_nonce_size c"
    and "SignCommit c fr now i st = (Inr a, st1)" and "(attest_move c)\<^sup>*\<^sup>* st1 st2"
  shows "\<exists>v. VerifyByCommitHash c (si_commit_hash i) st2 = Inr v \<and> vr_row v = a \<and> vr_verified v"
proof -
  have m: "attest_move c st st1" using Signs [OF assms(3), of st now i] assms(4) by simp
  have i1: "attest_inv c st1"
    using attest_moves_inv [OF assms(2) assms(1) no_attestations_inv] attest_move_inv [OF m assms(1)] by simp
  then have i2: "attest_inv c st2" using attest_moves_inv [OF assms(5) assms(1)] by simp
  have "GetByCommitHash st1 (si_commit_hash i) = Some a" by (rule signed_found [OF assms(4)])
  then have "GetByCommitHash st2 (si_commit_hash i) = Some a"
    using found_row_stays [OF _ attest_moves_rows [OF assms(5)]] by simp
  then show ?thesis by (rule ok_row_verifies [OF assms(1) i2])
qed

text \<open>
  An envelope speaks about the commit it is filed under: in every reachable state the payload
  of each record is the encoding of a statement built for the commit hash of the record.
\<close>
theorem envelope_names_its_commit:
  assumes "sound_crypto c" and "(attest_move c)\<^sup>*\<^sup>* no_attestations st" and "r \<in> set (as_rows st)"
  shows "\<exists>e repo p. at_envelope r = Json e \<and>
    en_payload e = b64_encode (cy_marshal c (BuildStatement repo (at_commit_hash r) p))"
proof -
  have "row_ok c (as_keys st) r"
    using attest_moves_inv [OF assms(2,1) no_attestations_inv] assms(3) by (simp add: attest_inv_def)
  then obtain priv i now where row: "r = row_of c i now (at_key_id r) priv" by (auto simp: row_ok_def)
  then have "at_envelope r = Json (att_Sign c (statement_of i now) (at_key_id r) priv)"
    and "at_commit_hash r = si_commit_hash i"
    by (metis attestation.select_convs(9) row_of_def, metis attestation.select_convs(3) row_of_def)
  then show ?thesis by (auto simp: att_Sign_def Let_def statement_of_def)
qed

text \<open>
  There is never more than one active key, and the ids of keys and the commits of records are unique.
\<close>
theorem one_active_key:
  assumes "sound_crypto c" and "(attest_move c)\<^sup>*\<^sup>* no_attestations st"
  shows "length (filter (\<lambda>k. ak_status k = KeyActive) (as_keys st)) \<le> 1 \<and> distinct (map ak_id (as_keys st)) \<and>
    distinct (map at_commit_hash (as_rows st))"
  using attest_moves_inv [OF assms(2,1) no_attestations_inv] by (simp add: attest_inv_def)

text \<open>Two keys whose ids collide: the rotation has retired the old key, and no key is active.\<close>

lemma colliding_rotation:
  assumes "KeyID c (cy_public c (fb_private fr)) \<in> set (map ak_id (as_keys st))" and "RotateKey c fr st = (r, st')"
  shows "(\<exists>e. r = Inl e) \<and> key_GetActive st' = None"
  using assms
  by (auto simp: RotateKey_def add_key_def key_Create_def new_active_key_def Let_def RetireActiveKeys_map comp_def
      key_GetActive_def find_None_iff split: if_splits)

text \<open>The commit an envelope speaks about is not looked at: filed under another commit it verifies as well.\<close>

lemma commit_not_compared:
  assumes "VerifyByCommitHash c commit \<lparr>as_keys = ks, as_rows = [r]\<rparr> = Inr v"
  shows "\<exists>v'. VerifyByCommitHash c other \<lparr>as_keys = ks, as_rows = [r\<lparr>at_commit_hash := other\<rparr>]\<rparr> = Inr v' \<and>
    vr_verified v' = vr_verified v \<and> vr_envelope v' = vr_envelope v"
  using assms
  by (auto simp: VerifyByCommitHash_def GetByCommitHash_def key_GetByKeyID_def split: if_splits raw_json.splits option.splits)

section \<open>A service to try it on\<close>

definition plain_crypto :: crypto where
  "plain_crypto =
     \<lparr>cy_public = (\<lambda>k. k), cy_sign = (\<lambda>k m. k @ m), cy_verify = (\<lambda>p m s. s = p @ m), cy_sha256 = (\<lambda>s. s),
      cy_nonce_size = 1, cy_seal = (\<lambda>n p. n @ p), cy_open = (\<lambda>n s. Some (drop (length n) s)),
      cy_marshal = (\<lambda>s. concat (map su_name (sm_subject s))), cy_unmarshal = (\<lambda>_. None)\<rparr>"

lemma plain_crypto_sound: "sound_crypto plain_crypto"
  by (simp add: plain_crypto_def sound_crypto_def)

definition bytes_of :: "string \<Rightarrow> fresh_bytes" where
  "bytes_of k = \<lparr>fb_private = k, fb_nonce = ''n''\<rparr>"

definition commit_a :: sign_input where
  "commit_a =
     \<lparr>si_repo_name = ''r'', si_commit_hash = ''a1'', si_task_id = ''t'', si_job_id = ''j'',
      si_coded_by = \<lparr>ac_engine = ''cli'', ac_provider = ''p'', ac_model = ''m''\<rparr>, si_reviewed_by = None,
      si_prompt_hash = ''h'', si_policy = \<lparr>ps_autonomy = ''full'', ps_review_harness = '''', ps_fix_cycles_used = 0\<rparr>\<rparr>"

definition signed_a :: attest_state where
  "signed_a = snd (SignCommit plain_crypto (bytes_of ''k1'') 0 commit_a no_attestations)"

definition rotated_a :: attest_state where
  "rotated_a = snd (RotateKey plain_crypto (bytes_of ''k2'') signed_a)"

definition row_a :: attestation where
  "row_a = hd (as_rows signed_a)"

lemma sign_a: "SignCommit plain_crypto (bytes_of ''k1'') 0 commit_a no_attestations = (Inr row_a, signed_a)"
  by code_simp

lemma nonce_a: "length (fb_nonce (bytes_of k)) = cy_nonce_size plain_crypto"
  by (simp add: bytes_of_def plain_crypto_def)

lemma move_a: "attest_move plain_crypto no_attestations signed_a" "attest_move plain_crypto signed_a rotated_a"
  unfolding signed_a_def rotated_a_def by (rule Signs [OF nonce_a], rule Rotates [OF nonce_a])

theorem signed_commit_verifies_witness:
  "\<exists>v. VerifyByCommitHash plain_crypto ''a1'' rotated_a = Inr v \<and> vr_row v = row_a \<and> vr_verified v"
proof -
  have "(attest_move plain_crypto)\<^sup>*\<^sup>* signed_a rotated_a" using move_a(2) by blast
  from signed_commit_verifies [OF plain_crypto_sound rtranclp.rtrancl_refl nonce_a sign_a this]
  show ?thesis by (simp add: commit_a_def)
qed

theorem envelope_names_its_commit_witness:
  "\<exists>e repo p. at_envelope row_a = Json e \<and>
    en_payload e = b64_encode (cy_marshal plain_crypto (BuildStatement repo (at_commit_hash row_a) p))"
proof -
  have "as_rows signed_a \<noteq> []" by code_simp
  then have "row_a \<in> set (as_rows signed_a)" by (simp add: row_a_def)
  with envelope_names_its_commit [OF plain_crypto_sound] move_a(1) show ?thesis by blast
qed

theorem one_active_key_witness:
  "length (filter (\<lambda>k. ak_status k = KeyActive) (as_keys rotated_a)) \<le> 1 \<and> length (as_keys rotated_a) = 2"
proof -
  have m: "(attest_move plain_crypto)\<^sup>*\<^sup>* no_attestations rotated_a" using move_a by (meson rtranclp.simps)
  have "length (as_keys rotated_a) = 2" by code_simp
  with one_active_key [OF plain_crypto_sound m] show ?thesis by blast
qed

end
