(* ===== verification/PR_Step.thy ===== *)
theory PR_Step
  imports PR_Summary Attestation_Props Merge_Step
begin

text \<open>
  The step that opens the pull requests (\<^verbatim>\<open>orchestrator/steps/pr.go\<close>). As in the merge step the git
  operations are recorded, and what git and the host answer is a parameter that may depend on all of
  them. The text of the specification that is put in front of a body is an argument; the attestations
  are signed by the service of \<open>Attestation\<close>.
\<close>

section \<open>What the checkpoints of reviews say\<close>

text \<open>The outputs of the review checkpoints, the latest first.\<close>

definition review_outputs :: "wf_checkpoint list \<Rightarrow> gomap list" where
  "review_outputs cps =
     List.map_filter
       (\<lambda>cp. if cp_step cp = ''review'' then Option.bind (state_of cp) (\<lambda>m. as_map (get_key m ''output'')) else None)
       (rev cps)"

definition reviewSelfReviewFallback :: "wf_checkpoint list \<Rightarrow> bool" where
  "reviewSelfReviewFallback cps =
     list_ex (\<lambda>out. as_bool (get_key out ''self_review_fallback'') = Some True) (review_outputs cps)"

definition coded_by_text :: "gomap \<Rightarrow> string" where
  "coded_by_text out =
     (case as_map (get_key out ''coded_by'') of
        None \<Rightarrow> ''''
      | Some cb \<Rightarrow>
          if str_field cb ''provider'' \<noteq> '''' \<or> str_field cb ''model'' \<noteq> ''''
          then (if str_field cb ''engine'' = '''' then ''cli'' else str_field cb ''engine'') @ '':'' @
               str_field cb ''provider'' @ ''/'' @ str_field cb ''model''
          else '''')"

definition reviewed_by_text :: "gomap \<Rightarrow> string" where
  "reviewed_by_text out =
     (case as_map (get_key out ''reviewed_by'') of
        None \<Rightarrow> ''''
      | Some rb \<Rightarrow>
          if str_field rb ''provider'' \<noteq> '''' \<or> str_field rb ''model'' \<noteq> ''''
          then str_field rb ''provider'' @ ''/'' @ str_field rb ''model'' else '''')"

definition codedByReviewedBy :: "wf_checkpoint list \<Rightarrow> string \<times> string" where
  "codedByReviewedBy cps =
     (case find (\<lambda>out. coded_by_text out \<noteq> '''' \<or> reviewed_by_text out \<noteq> '''') (review_outputs cps) of
        None \<Rightarrow> ('''', '''')
      | Some out \<Rightarrow> (coded_by_text out, reviewed_by_text out))"

definition note_coder :: "gomap \<Rightarrow> actor \<Rightarrow> actor" where
  "note_coder out a =
     (case as_map (get_key out ''coded_by'') of
        None \<Rightarrow> a
      | Some cb \<Rightarrow>
          \<lparr>ac_engine = (if str_field cb ''engine'' = '''' then ''cli'' else str_field cb ''engine''),
           ac_provider = str_field cb ''provider'', ac_model = str_field cb ''model''\<rparr>)"

definition note_reviewer :: "gomap \<Rightarrow> actor option \<Rightarrow> actor option" where
  "note_reviewer out r =
     (case as_map (get_key out ''reviewed_by'') of
        None \<Rightarrow> r
      | Some rb \<Rightarrow>
          if str_field rb ''provider'' \<noteq> '''' \<or> str_field rb ''model'' \<noteq> ''''
          then Some \<lparr>ac_engine = '''', ac_provider = str_field rb ''provider'', ac_model = str_field rb ''model''\<rparr>
          else r)"

text \<open>Here the fields of an output that names nobody are kept until a later one overwrites them.\<close>

fun scan_actors :: "gomap list \<Rightarrow> actor \<Rightarrow> actor option \<Rightarrow> actor \<times> actor option" where
  "scan_actors [] a r = (a, r)"
| "scan_actors (out # outs) a r =
     (let a' = note_coder out a; r' = note_reviewer out r
      in if ac_provider a' \<noteq> '''' \<or> r' \<noteq> None then (a', r') else scan_actors outs a' r')"

definition nobody :: actor where
  "nobody = \<lparr>ac_engine = '''', ac_provider = '''', ac_model = ''''\<rparr>"

definition structuredCodedByReviewedBy :: "wf_checkpoint list \<Rightarrow> actor \<times> actor option" where
  "structuredCodedByReviewedBy cps = scan_actors (review_outputs cps) nobody None"

definition extractRiskDomains :: "task \<Rightarrow> string list" where
  "extractRiskDomains t = (case t_analysis t of Json a \<Rightarrow> an_risk_domains a | _ \<Rightarrow> [])"

section \<open>The results of targeted tests\<close>

definition test_artifact :: "string \<Rightarrow> wf_artifact \<Rightarrow> gomap option" where
  "test_artifact step a =
     (if wa_type a = ''targeted_test'' \<and> wa_step a = step then as_map (Some (wa_payload a)) else None)"

text \<open>Not run, or run, and passed as soon as one result was.\<close>

definition targeted_result :: "wf_artifact list \<Rightarrow> string \<Rightarrow> bool option" where
  "targeted_result arts step =
     (let ms = List.map_filter (test_artifact step) arts
      in if ms = [] then None else Some (list_ex (\<lambda>m. str_field m ''status'' = ''passed'') ms))"

definition put_result :: "string \<Rightarrow> bool option \<Rightarrow> gomap \<Rightarrow> gomap" where
  "put_result k r m = (case r of None \<Rightarrow> m | Some b \<Rightarrow> put_key k (VBool b) m)"

definition test_output :: "wf_artifact list \<Rightarrow> gomap option \<Rightarrow> gomap" where
  "test_output arts testOut =
     put_result ''targeted_fix_passed'' (targeted_result arts ''fix_test'')
       (put_result ''targeted_code_frontend_passed'' (targeted_result arts ''code_frontend_test'')
         (put_result ''targeted_code_backend_passed'' (targeted_result arts ''code_backend_test'') (or_zero [] testOut)))"

section \<open>Operations and environment\<close>

datatype pr_op =
    AskChanged string
  | NewBranch string string
  | SoftReset string string
  | Push string string string string
  | AskDiff string string
  | OpenPR string string string
  | AskHead string

record pr_env =
  pe_update :: status_writer
  pe_wk :: wk_env
  pe_container :: "string \<Rightarrow> string"
  pe_gitops :: bool
  pe_agent :: "string \<times> string"
  pe_tests :: "gomap option"
  pe_changed :: "pr_op list \<Rightarrow> string \<Rightarrow> string list option"
  pe_checkout :: "pr_op list \<Rightarrow> string \<Rightarrow> string \<Rightarrow> bool"
  pe_push :: "pr_op list \<Rightarrow> string \<Rightarrow> string \<Rightarrow> bool"
  pe_diff :: "pr_op list \<Rightarrow> string \<Rightarrow> string"
  pe_open :: "pr_op list \<Rightarrow> string \<Rightarrow> string \<Rightarrow> string \<Rightarrow> string \<Rightarrow> string option"
  pe_head :: "pr_op list \<Rightarrow> string \<Rightarrow> string option"
  pe_spec :: "pr_op list \<Rightarrow> string \<Rightarrow> string"
  pe_all_diff :: "pr_op list \<Rightarrow> string option"
  pe_crypto :: "crypto option"
  pe_fresh :: "pr_op list \<Rightarrow> fresh_bytes"
  pe_now :: int

record pr_state =
  pp_st :: orch_state
  pp_disk :: wk_disk
  pp_arts :: "wf_artifact list"
  pp_attest :: attest_state
  pp_ops :: "pr_op list"

section \<open>One repository\<close>

definition base_branch :: "task_workspace option \<Rightarrow> git_repo \<Rightarrow> string" where
  "base_branch ws r =
     (let b = (case Option.bind ws (\<lambda>w. find (\<lambda>x. rw_id x = gr_id r \<and> rw_default_branch x \<noteq> '''') (tw_repos w)) of
                 None \<Rightarrow> gr_branch r
               | Some x \<Rightarrow> rw_default_branch x)
      in if b = '''' then ''main'' else b)"

definition rejection_count :: "wf_checkpoint list \<Rightarrow> nat" where
  "rejection_count cps = length (filter (\<lambda>cp. cp_step cp = ''pr_rejection'') cps)"

definition pr_max_cycles :: "orch_state \<Rightarrow> task \<Rightarrow> int" where
  "pr_max_cycles st t =
     (case get_project (os_db st) (t_project_id t) of
        Inr p \<Rightarrow> if p_max_review_fix_cycles p > 0 then p_max_review_fix_cycles p else 3
      | Inl _ \<Rightarrow> 3)"

text \<open>The summary of one repository; the specification goes before the generated text.\<close>

definition repo_summary :: "pr_env \<Rightarrow> orch_state \<Rightarrow> wf_artifact list \<Rightarrow> task \<Rightarrow> string list \<Rightarrow> string \<Rightarrow> string \<Rightarrow> pr_summary" where
  "repo_summary env st jobArts t files diffText spec =
     (let cps = ListCheckpoints st (t_id t); (coded, reviewed) = codedByReviewedBy cps;
          s = GenerateSummary t (Some (pe_agent env)) files diffText (Some (test_output jobArts (pe_tests env)))
                (extractRiskDomains t) (int (rejection_count cps) \<ge> pr_max_cycles st t - 1)
                (reviewSelfReviewFallback cps) coded reviewed
      in s\<lparr>pm_body := spec @ pm_body s\<rparr>)"

definition pr_sign_input :: "crypto \<Rightarrow> orch_state \<Rightarrow> task \<Rightarrow> string \<Rightarrow> git_repo \<Rightarrow> string \<Rightarrow> string \<Rightarrow> sign_input" where
  "pr_sign_input c st t jobID r commit diffText =
     (let cps = ListCheckpoints st (t_id t); (coder, reviewer) = structuredCodedByReviewedBy cps;
          (autonomy, harness) = (case get_project (os_db st) (t_project_id t) of
                                   Inr p \<Rightarrow> (p_default_autonomy p, p_review_harness_policy p) | Inl _ \<Rightarrow> ('''', ''''))
      in \<lparr>si_repo_name = gr_url r, si_commit_hash = commit, si_task_id = t_id t, si_job_id = jobID,
          si_coded_by = coder, si_reviewed_by = reviewer,
          si_prompt_hash = ''sha256:'' @ hex_encode (cy_sha256 c diffText),
          si_policy = \<lparr>ps_autonomy = autonomy, ps_review_harness = harness,
                       ps_fix_cycles_used = int (rejection_count cps)\<rparr>\<rparr>)"

text \<open>Signing is never in the way: without a commit, or on an error, the step goes on.\<close>

definition attest_repo ::
  "pr_env \<Rightarrow> orch_state \<Rightarrow> task \<Rightarrow> string \<Rightarrow> git_repo \<Rightarrow> string \<Rightarrow> string \<Rightarrow> pr_op list \<Rightarrow> attest_state \<Rightarrow>
   attest_state \<times> pr_op list" where
  "attest_repo env st t jobID r p diffText ops ats =
     (case pe_crypto env of
        None \<Rightarrow> (ats, ops)
      | Some c \<Rightarrow>
          (let ops' = ops @ [AskHead p]
           in case pe_head env ops p of
                None \<Rightarrow> (ats, ops')
              | Some h \<Rightarrow>
                  if trim_space h = '''' then (ats, ops')
                  else (snd (SignCommit c (pe_fresh env ops') (pe_now env) (pr_sign_input c st t jobID r h diffText) ats), ops')))"

text \<open>What comes of one repository: passed over, an error that ends the step, or a branch and a summary.\<close>

datatype pr_result =
    PRPassed
  | PRFailed string
  | PRMade pr_summary

definition pr_branch :: "task \<Rightarrow> string" where
  "pr_branch t = DeriveBranchName (t_id t) (t_title t)"

definition commit_message :: "task \<Rightarrow> string" where
  "commit_message t = ''AutoCodeOS: implement task '' @ t_id t @ NL @ NL @ ''Title: '' @ t_title t"

text \<open>
  The branch has been pushed: a request is opened unless neither the diff nor the working tree shows
  a change. A host that answers with no address leaves the summary without one.
\<close>

definition open_request ::
  "pr_env \<Rightarrow> task \<Rightarrow> string \<Rightarrow> wf_artifact list \<Rightarrow> git_repo \<Rightarrow> string \<Rightarrow> string \<Rightarrow> string list \<Rightarrow> string \<Rightarrow> pr_state \<Rightarrow>
   pr_result \<times> pr_state" where
  "open_request env t jobID jobArts r p base files spec s =
     (let ops = pp_ops s @ [AskDiff p base]; diffText = pe_diff env (pp_ops s) p;
          sm = repo_summary env (pp_st s) jobArts t files diffText spec
      in if trim_space diffText = '''' \<and> files = []
         then (case attest_repo env (pp_st s) t jobID r p diffText ops (pp_attest s) of
                 (ats, ops') \<Rightarrow> (PRMade sm, s\<lparr>pp_ops := ops', pp_attest := ats\<rparr>))
         else (case pe_open env ops (gr_url r) (pr_branch t) (pm_title sm) (pm_body sm) of
                 None \<Rightarrow> (PRFailed (''create PR failed for '' @ gr_url r),
                          s\<lparr>pp_ops := ops @ [OpenPR (gr_url r) (pr_branch t) (pm_title sm)]\<rparr>)
               | Some url \<Rightarrow>
                   (case attest_repo env (pp_st s) t jobID r p diffText
                           (ops @ [OpenPR (gr_url r) (pr_branch t) (pm_title sm)]) (pp_attest s) of
                      (ats, ops') \<Rightarrow> (PRMade (sm\<lparr>pm_url := url\<rparr>), s\<lparr>pp_ops := ops', pp_attest := ats\<rparr>))))"

text \<open>A soft reset that fails is only logged; the workspace is loaded once more to copy the specification.\<close>

definition push_repo ::
  "pr_env \<Rightarrow> task \<Rightarrow> string \<Rightarrow> wf_artifact list \<Rightarrow> task_workspace option \<Rightarrow> git_repo \<Rightarrow> string list \<Rightarrow> pr_state \<Rightarrow>
   pr_result \<times> pr_state" where
  "push_repo env t jobID jobArts ws r files s =
     (let local = RepoHostPath (pe_wk env) t ws r; p = pe_container env local; base = base_branch ws r;
          ops1 = pp_ops s @ [NewBranch p (pr_branch t)]
      in if \<not> pe_checkout env (pp_ops s) p (pr_branch t)
         then (PRFailed (''checkout branch failed for '' @ gr_url r), s\<lparr>pp_ops := ops1\<rparr>)
         else (let ops2 = ops1 @ [SoftReset p base]; spec = pe_spec env ops2 local;
                   disk = snd (load_workspace (pe_wk env) t (pp_disk s));
                   ops3 = ops2 @ [Push local (gr_url r) (pr_branch t) (commit_message t)]
               in if \<not> pe_push env ops2 local (gr_url r)
                  then (PRFailed (''commit and push failed for '' @ gr_url r), s\<lparr>pp_ops := ops3, pp_disk := disk\<rparr>)
                  else open_request env t jobID jobArts r p base files spec (s\<lparr>pp_ops := ops3, pp_disk := disk\<rparr>)))"

definition pr_repo ::
  "pr_env \<Rightarrow> task \<Rightarrow> string \<Rightarrow> wf_artifact list \<Rightarrow> task_workspace option \<Rightarrow> git_repo \<Rightarrow> pr_state \<Rightarrow> pr_result \<times> pr_state" where
  "pr_repo env t jobID jobArts ws r s =
     (let p = pe_container env (RepoHostPath (pe_wk env) t ws r); s1 = s\<lparr>pp_ops := pp_ops s @ [AskChanged p]\<rparr>
      in case pe_changed env (pp_ops s) p of
           None \<Rightarrow> (PRPassed, s1)
         | Some files \<Rightarrow>
             if files = [] \<and> t_complexity t = TaskComplexityEasy then (PRPassed, s1)
             else push_repo env t jobID jobArts ws r files s1)"

section \<open>All repositories\<close>

fun pr_repos ::
  "pr_env \<Rightarrow> task \<Rightarrow> string \<Rightarrow> wf_artifact list \<Rightarrow> task_workspace option \<Rightarrow> git_repo list \<Rightarrow> pr_state \<Rightarrow>
   (string + pr_summary list) \<times> pr_state" where
  "pr_repos env t jobID jobArts ws [] s = (Inr [], s)"
| "pr_repos env t jobID jobArts ws (r # rs) s =
     (case pr_repo env t jobID jobArts ws r s of
        (PRPassed, s1) \<Rightarrow> pr_repos env t jobID jobArts ws rs s1
      | (PRFailed e, s1) \<Rightarrow> (Inl e, s1)
      | (PRMade sm, s1) \<Rightarrow>
          (case pr_repos env t jobID jobArts ws rs s1 of
             (Inl e, s2) \<Rightarrow> (Inl e, s2)
           | (Inr sms, s2) \<Rightarrow> (Inr (sm # sms), s2)))"

section \<open>The step\<close>

text \<open>\<^verbatim>\<open>json.Marshal\<close> of a summary.\<close>

definition strings_json :: "string list \<Rightarrow> goval" where
  "strings_json xs = (if xs = [] then VNil else VStrings xs)"

definition summary_json :: "pr_summary \<Rightarrow> gomap" where
  "summary_json s =
     [(''title'', VString (pm_title s)), (''body'', VString (pm_body s)), (''pr_url'', VString (pm_url s)),
      (''changed_files'', strings_json (pm_changed_files s)), (''risk_level'', VString (pm_risk_level s)),
      (''risk_reason'', VString (pm_risk_reason s))] @
     (if pm_risk_domains s = [] then [] else [(''risk_domains'', VStrings (pm_risk_domains s))]) @
     [(''status'', VString (pm_status s)), (''review_limit_exceeded'', VBool (pm_review_limit_exceeded s)),
      (''self_review_fallback'', VBool (pm_self_review_fallback s))]"

definition no_changes_summary :: pr_summary where
  "no_changes_summary =
     \<lparr>pm_title = ''No changes detected'', pm_body = ''No code modifications were required.'', pm_url = '''',
      pm_changed_files = [], pm_risk_level = '''', pm_risk_reason = '''', pm_risk_domains = [],
      pm_status = ''no_changes'', pm_review_limit_exceeded = False, pm_self_review_fallback = False\<rparr>"

definition created_urls :: "pr_summary list \<Rightarrow> string list" where
  "created_urls sms = filter (\<lambda>u. trim_space u \<noteq> '''') (map pm_url sms)"

text \<open>What is written to the task; an error of the write is only logged.\<close>

definition metadata_update :: "task \<Rightarrow> pr_summary list \<Rightarrow> update_task_input option" where
  "metadata_update t sms =
     (if sms \<noteq> []
      then Some (no_update\<lparr>ui_pr_metadata := Some (Json (map summary_json sms)),
                           ui_pr_urls := (if created_urls sms = [] then None else Some (created_urls sms))\<rparr>)
      else if t_pr_urls t = [] then Some (no_update\<lparr>ui_pr_metadata := Some (Json [summary_json no_changes_summary])\<rparr>)
      else None)"

definition save_metadata :: "task \<Rightarrow> pr_summary list \<Rightarrow> orch_state \<Rightarrow> orch_state" where
  "save_metadata t sms st =
     (case metadata_update t sms of None \<Rightarrow> st | Some u \<Rightarrow> snd (write_task st (t_id t) u))"

definition save_diff :: "pr_env \<Rightarrow> task \<Rightarrow> string \<Rightarrow> string \<Rightarrow> pr_state \<Rightarrow> pr_state" where
  "save_diff env t jobID stepID s =
     (case pe_all_diff env (pp_ops s) of
        Some d \<Rightarrow>
          if d = '''' then s
          else s\<lparr>pp_arts := SaveArtifact (pp_arts s) jobID (t_id t) stepID ''diff'' (VString d)\<rparr>
      | None \<Rightarrow> s)"

definition pr_already_created :: "task \<Rightarrow> bool" where
  "pr_already_created t \<longleftrightarrow>
     (t_pr_urls t \<noteq> [] \<or> t_pr_metadata t \<notin> {NoJson, Json []}) \<and>
     t_status t \<in> {TaskStatusPrReady, TaskStatusHumanReview}"

text \<open>
  The step hands its output over together with the error that makes the job wait: every end is an
  error, and the output is empty unless the step came to its last line.
\<close>

definition pr_Execute ::
  "pr_env \<Rightarrow> task \<Rightarrow> string \<Rightarrow> string \<Rightarrow> pr_state \<Rightarrow> ((step_error \<times> gomap) \<times> pr_state) option" where
  "pr_Execute env t jobID stepID s =
     (if pr_already_created t then Some ((ErrWaitingApproval, []), s)
      else if \<not> pe_gitops env then Some ((StepFailed ''gitops client is not configured'', []), s)
      else (case LoadTargetRepositories (pe_wk env) t of
              Inl _ \<Rightarrow> Some ((StepFailed ''list project repositories'', []), s)
            | Inr repos \<Rightarrow>
                if repos = [] then Some ((StepFailed (''no repository linked to project '' @ t_project_id t), []), s)
                else (case load_workspace (pe_wk env) t (pp_disk s) of
                        (ws, disk) \<Rightarrow>
                          (case pr_repos env t jobID (artifact_ListByJobID (pp_arts s) jobID) ws repos (s\<lparr>pp_disk := disk\<rparr>) of
                             (Inl e, s1) \<Rightarrow> Some ((StepFailed e, []), s1)
                           | (Inr sms, s1) \<Rightarrow>
                               (let s2 = save_diff env t jobID stepID s1; st = save_metadata t sms (pp_st s2)
                                in case pe_update env st (t_id t) TaskStatusPrReady of
                                     None \<Rightarrow> None
                                   | Some (Inl _, st') \<Rightarrow> Some ((StepFailed ''update task status'', []), s2\<lparr>pp_st := st'\<rparr>)
                                   | Some (Inr _, st') \<Rightarrow>
                                       Some ((ErrWaitingApproval,
                                              [(''status'', VString ''pr_created''),
                                               (''branches'', strings_json (map (\<lambda>_. pr_branch t) sms)),
                                               (''pr_urls'', strings_json (created_urls sms))]),
                                             s2\<lparr>pp_st := st'\<rparr>))))))"

section \<open>A request is opened for what was pushed\<close>

definition pushed :: "pr_env \<Rightarrow> pr_op list \<Rightarrow> string \<Rightarrow> string \<Rightarrow> bool" where
  "pushed env ops url b \<longleftrightarrow> (\<exists>pre p m. prefix (pre @ [Push p url b m]) ops \<and> pe_push env pre p url)"

definition pushed_first :: "pr_env \<Rightarrow> pr_op list \<Rightarrow> bool" where
  "pushed_first env ops \<longleftrightarrow> (\<forall>pre url b ti. prefix (pre @ [OpenPR url b ti]) ops \<longrightarrow> pushed env pre url b)"

fun opens :: "pr_op \<Rightarrow> bool" where
  "opens (OpenPR _ _ _) = True"
| "opens _ = False"

lemma pushed_first_Nil [simp]: "pushed_first env []"
  by (simp add: pushed_first_def)

lemma pushed_first_snoc:
  "pushed_first env (ops @ [x]) \<longleftrightarrow> pushed_first env ops \<and> (\<forall>url b ti. x = OpenPR url b ti \<longrightarrow> pushed env ops url b)"
  by (auto simp: pushed_first_def prefix_snoc)

lemma pushed_first_other: "\<not> opens x \<Longrightarrow> pushed_first env (ops @ [x]) = pushed_first env ops"
  by (auto simp: pushed_first_snoc)

lemma pushed_first_more: "pushed_first env ops \<Longrightarrow> \<not> opens x \<Longrightarrow> pushed_first env (ops @ [x])"
  by (simp add: pushed_first_other)

lemma pushed_snoc: "pe_push env ops p url \<Longrightarrow> pushed env (ops @ [Push p url b m]) url b"
  by (auto simp: pushed_def)

lemma pushed_more: "pushed env ops url b \<Longrightarrow> pushed env (ops @ [x]) url b"
  by (auto simp: pushed_def intro: prefix_order.order_trans)

lemma attest_repo_ops:
  "attest_repo env st t jobID r p d ops ats = (ats', ops') \<Longrightarrow> pushed_first env ops \<Longrightarrow> pushed_first env ops'"
  by (auto simp: attest_repo_def Let_def pushed_first_other split: option.splits if_splits)

lemma open_request_pushed:
  assumes "open_request env t jobID arts r p base files spec s = (res, s')"
    and "pushed_first env (pp_ops s)" and "pushed env (pp_ops s) (gr_url r) (pr_branch t)"
  shows "pushed_first env (pp_ops s')"
proof -
  let ?ops = "pp_ops s @ [AskDiff p base]"
  have "pushed_first env ?ops" using assms(2) by (simp add: pushed_first_other)
  moreover have "pushed_first env (?ops @ [OpenPR (gr_url r) (pr_branch t) ti])" for ti
    using calculation pushed_more [OF assms(3)] by (simp only: pushed_first_snoc [of env ?ops]) simp
  ultimately show ?thesis
    using assms(1) by (auto simp: open_request_def Let_def split: if_splits option.splits prod.splits dest: attest_repo_ops)
qed

lemma ops_set: "pp_ops (s\<lparr>pp_ops := ops, pp_disk := d\<rparr>) = ops"
  by simp

lemma push_repo_pushed:
  assumes "push_repo env t jobID arts ws r files s = (res, s')" and "pushed_first env (pp_ops s)"
  shows "pushed_first env (pp_ops s')"
proof -
  let ?local = "RepoHostPath (pe_wk env) t ws r"
  let ?p = "pe_container env ?local"
  let ?ops2 = "(pp_ops s @ [NewBranch ?p (pr_branch t)]) @ [SoftReset ?p (base_branch ws r)]"
  let ?ops3 = "?ops2 @ [Push ?local (gr_url r) (pr_branch t) (commit_message t)]"
  have 1: "pushed_first env (pp_ops s @ [NewBranch ?p (pr_branch t)])" by (rule pushed_first_more [OF assms(2)]) simp
  have 2: "pushed_first env ?ops2" by (rule pushed_first_more [OF 1]) simp
  have 3: "pushed_first env ?ops3" by (rule pushed_first_more [OF 2]) simp
  show ?thesis
  proof (cases "pe_checkout env (pp_ops s) ?p (pr_branch t) \<and> pe_push env ?ops2 ?local (gr_url r)")
    case True
    then have o: "open_request env t jobID arts r ?p (base_branch ws r) files (pe_spec env ?ops2 ?local)
        (s\<lparr>pp_ops := ?ops3, pp_disk := snd (load_workspace (pe_wk env) t (pp_disk s))\<rparr>) = (res, s')"
      using assms(1) by (simp add: push_repo_def Let_def)
    have "pushed env ?ops3 (gr_url r) (pr_branch t)" by (rule pushed_snoc) (use True in blast)
    with 3 show ?thesis by (intro open_request_pushed [OF o]) (simp_all only: ops_set)
  next
    case False
    with assms(1) 1 3 show ?thesis by (auto simp: push_repo_def Let_def split: if_splits)
  qed
qed

lemma pr_repo_pushed:
  assumes "pr_repo env t jobID arts ws r s = (res, s')" and "pushed_first env (pp_ops s)"
  shows "pushed_first env (pp_ops s')"
  using assms push_repo_pushed [of env t jobID arts ws r _ "s\<lparr>pp_ops := _\<rparr>" res s']
  by (auto simp: pr_repo_def Let_def pushed_first_other split: option.splits if_splits)

lemma pr_repos_pushed:
  "pr_repos env t jobID arts ws rs s = (res, s') \<Longrightarrow> pushed_first env (pp_ops s) \<Longrightarrow> pushed_first env (pp_ops s')"
proof (induction env t jobID arts ws rs s arbitrary: res s' rule: pr_repos.induct)
  case (2 env t jobID arts ws r rs s)
  obtain x s1 where x: "pr_repo env t jobID arts ws r s = (x, s1)" by fastforce
  from pr_repo_pushed [OF this "2.prems"(2)] 2 x show ?case
    by (cases x) (auto split: prod.splits sum.splits)
qed simp

text \<open>
  C16: No pull request is opened for work that did not reach the host: before every request the step
  opens, the same branch was pushed to the same repository, and the push succeeded.
\<close>
theorem opened_after_push:
  assumes "pr_Execute env t jobID stepID s = Some (res, s')" and "pp_ops s = []"
  shows "pushed_first env (pp_ops s')"
proof -
  obtain ws d where w: "load_workspace (pe_wk env) t (pp_disk s) = (ws, d)" by fastforce
  have "pushed_first env (pp_ops s1)"
    if "pr_repos env t jobID (artifact_ListByJobID (pp_arts s) jobID) ws rs (s\<lparr>pp_disk := d\<rparr>) = (x, s1)" for rs x s1
    using pr_repos_pushed [OF that] assms(2) by simp
  then show ?thesis
    using assms w
    by (auto simp: pr_Execute_def Let_def save_diff_def split: if_splits sum.splits prod.splits option.splits)
qed

section \<open>Easy tasks without uncommitted changes\<close>

text \<open>When git reports nothing uncommitted anywhere, an easy task passes every repository over.\<close>

lemma pr_repos_passed:
  assumes "t_complexity t = TaskComplexityEasy" and "\<And>ops p. pe_changed env ops p \<in> {None, Some []}"
  shows "\<exists>ops. pr_repos env t jobID arts ws rs s = (Inr [], s\<lparr>pp_ops := pp_ops s @ ops\<rparr>) \<and> \<not> list_ex opens ops"
proof (induction rs arbitrary: s)
  case Nil
  show ?case by (intro exI [of _ "[]"]) simp
next
  case (Cons r rs)
  let ?x = "AskChanged (pe_container env (RepoHostPath (pe_wk env) t ws r))"
  have "pr_repo env t jobID arts ws r s = (PRPassed, s\<lparr>pp_ops := pp_ops s @ [?x]\<rparr>)"
    using assms(1) assms(2) [of "pp_ops s" "pe_container env (RepoHostPath (pe_wk env) t ws r)"]
    by (auto simp: pr_repo_def Let_def)
  moreover obtain ops where "pr_repos env t jobID arts ws rs (s\<lparr>pp_ops := pp_ops s @ [?x]\<rparr>) =
      (Inr [], s\<lparr>pp_ops := pp_ops s @ [?x] @ ops\<rparr>)" "\<not> list_ex opens ops"
    using Cons [of "s\<lparr>pp_ops := pp_ops s @ [?x]\<rparr>"] by auto
  ultimately show ?case by (intro exI [of _ "?x # ops"]) auto
qed

lemma save_no_changes:
  assumes "get_task (os_db st) (t_id t) = Inr row" and "t_pr_urls row = []"
  shows "\<exists>row'. get_task (os_db (save_metadata t [] st)) (t_id t) = Inr row' \<and> t_pr_urls row' = []"
proof (cases "metadata_update t []")
  case (Some u)
  then have u: "ui_pr_urls u = None" by (auto simp: metadata_update_def no_update_def split: if_splits)
  obtain d where w: "repo_Update (os_db st) (t_id t) u = (Inr (apply_update u row), d)"
    using assms(1) by (simp add: repo_Update_def)
  have f: "find_row (db_tasks (os_db st)) (t_id t) = Some row" using assms(1) by (simp add: get_task_Inr)
  from find_after_update [OF w] have "get_task d (t_id t) = Inr (apply_update u row)"
    by (simp add: get_task_Inr f)
  moreover have "t_pr_urls (apply_update u row) = []" using u assms(2) by (simp add: apply_update_def)
  ultimately show ?thesis using Some w by (simp add: save_metadata_def write_task_def)
qed (use assms in \<open>simp add: save_metadata_def\<close>)

lemma status_write_keeps_urls:
  assumes "write_status now st i s = (Inr t', st')" and "get_task (os_db st) i = Inr row"
  shows "get_task (os_db st') i = Inr t' \<and> t_pr_urls t' = t_pr_urls row"
proof -
  have f: "find_row (db_tasks (os_db st)) i = Some row" using assms(2) by (simp add: get_task_Inr)
  have "t_pr_urls (apply_update ((fst (applyGuardrails now (os_db st) row s))\<lparr>ui_status := x\<rparr>) row) = t_pr_urls row" for x
    by (simp add: applyGuardrails_def Let_def apply_update_def no_update_def)
  with write_status_cases [OF f, of now s] write_status_row [OF assms(1)] assms(1) show ?thesis
    by (auto simp: Let_def get_task_Inr split: option.splits)
qed


section \<open>Who wrote and who reviewed\<close>

definition cli_step_ids :: "string list" where
  "cli_step_ids =
     [StepCLIAnalyze, StepCLISpec, StepCLIImplement, StepCLIImplementBackend, StepCLIImplementFrontend, StepMerge,
      StepCrossReview, StepCLIMR]"

lemma cli_step_ids_pipelines:
  "set (map step_id (wf_steps (CLISpecFirstWorkflow runners b))) \<union>
   set (map step_id (wf_steps (CLISpecFirstParallelWorkflow runners b))) \<subseteq> set cli_step_ids"
  by (auto simp: CLISpecFirstWorkflow_def CLISpecFirstParallelWorkflow_def cli_step_ids_def pipeline_step_def Let_def
      split: if_splits)

definition only_cli_steps :: "orch_state \<Rightarrow> task \<Rightarrow> bool" where
  "only_cli_steps st t =
     list_all (\<lambda>cp. cp_step cp \<in> set (''pr_rejection'' # cli_step_ids)) (ListCheckpoints st (t_id t))"

lemma no_review_outputs:
  assumes "only_cli_steps st t"
  shows "review_outputs (ListCheckpoints st (t_id t)) = []"
proof -
  have "\<forall>cp \<in> set (ListCheckpoints st (t_id t)). cp_step cp \<noteq> ''review''"
    using assms by (auto simp: only_cli_steps_def list_all_iff cli_step_ids_def)
  then show ?thesis unfolding review_outputs_def
    by (simp add: List.map_filter_def filter_empty_conv)
qed

lemma nobody_named:
  assumes "only_cli_steps st t"
  shows "si_coded_by (pr_sign_input c st t jobID r h d) = nobody" and "si_reviewed_by (pr_sign_input c st t jobID r h d) = None"
  using no_review_outputs [OF assms]
  by (simp_all add: pr_sign_input_def structuredCodedByReviewedBy_def Let_def split: prod.split)

definition unnamed_but :: "attestation set \<Rightarrow> attest_state \<Rightarrow> bool" where
  "unnamed_but old ats \<longleftrightarrow> (\<forall>r\<in>set (as_rows ats). r \<in> old \<or> at_coded_by r = nobody \<and> at_reviewed_by r = None)"

lemma SignCommit_unnamed:
  assumes "unnamed_but old ats" and "si_coded_by i = nobody" and "si_reviewed_by i = None"
  shows "unnamed_but old (snd (SignCommit c fr now i ats))"
  using assms EnsureActiveKey_rows [of c fr ats]
  by (auto simp: SignCommit_def attest_Create_def unnamed_but_def row_of_def split: option.split prod.split sum.split)

lemma attest_repo_unnamed:
  "only_cli_steps st t \<Longrightarrow> unnamed_but old ats \<Longrightarrow> attest_repo env st t jobID r p d ops ats = (ats', ops') \<Longrightarrow> unnamed_but old ats'"
  by (auto simp: attest_repo_def Let_def nobody_named intro!: SignCommit_unnamed split: option.splits if_splits)

definition unnamed_state :: "orch_state \<Rightarrow> attestation set \<Rightarrow> pr_state \<Rightarrow> bool" where
  "unnamed_state st old s \<longleftrightarrow> pp_st s = st \<and> unnamed_but old (pp_attest s)"

lemma open_request_unnamed:
  assumes "only_cli_steps st t" and "open_request env t jobID arts r p base files spec s = (res, s')" and "unnamed_state st old s"
  shows "unnamed_state st old s'"
  using assms
  by (auto simp: open_request_def unnamed_state_def Let_def intro: attest_repo_unnamed
      split: if_splits option.splits prod.splits)

lemma pr_repo_unnamed:
  assumes "only_cli_steps st t" and "pr_repo env t jobID arts ws r s = (res, s')" and "unnamed_state st old s"
  shows "unnamed_state st old s'"
proof -
  have "unnamed_state st old (x\<lparr>pp_ops := ops\<rparr>) = unnamed_state st old x"
    "unnamed_state st old (x\<lparr>pp_ops := ops, pp_disk := d\<rparr>) = unnamed_state st old x" for x ops d
    by (simp_all add: unnamed_state_def)
  then show ?thesis
    using assms
    by (auto simp: pr_repo_def push_repo_def Let_def split: option.splits if_splits dest!: open_request_unnamed [OF assms(1)])
qed

lemma pr_repos_unnamed:
  "pr_repos env t jobID arts ws rs s = (res, s') \<Longrightarrow> only_cli_steps st t \<Longrightarrow> unnamed_state st old s \<Longrightarrow> unnamed_state st old s'"
proof (induction env t jobID arts ws rs s arbitrary: res s' rule: pr_repos.induct)
  case (2 env t jobID arts ws r rs s)
  obtain x s1 where x: "pr_repo env t jobID arts ws r s = (x, s1)" by fastforce
  from pr_repo_unnamed [OF "2.prems"(2) this "2.prems"(3)] 2 x show ?case
    by (cases x) (auto split: prod.splits sum.splits)
qed simp

text \<open>
  The attestations of the CLI pipelines name nobody. The actors are read from the checkpoints of a
  step called review, which no pipeline has: every record the step signs has an empty coder and no
  reviewer, whatever the cross review has stored.
\<close>
theorem cli_attestations_unnamed:
  assumes "pr_Execute env t jobID stepID s = Some (res, s')" and "only_cli_steps (pp_st s) t"
    and "r \<in> set (as_rows (pp_attest s'))" and "r \<notin> set (as_rows (pp_attest s))"
  shows "at_coded_by r = nobody \<and> at_reviewed_by r = None"
proof -
  let ?old = "set (as_rows (pp_attest s))"
  obtain ws d where w: "load_workspace (pe_wk env) t (pp_disk s) = (ws, d)" by fastforce
  have start: "unnamed_state (pp_st s) ?old (s\<lparr>pp_disk := d\<rparr>)" by (simp add: unnamed_state_def unnamed_but_def)
  have keep: "pp_attest (save_diff env t jobID stepID x) = pp_attest x" for x
    by (simp add: save_diff_def split: option.split)
  have "unnamed_but ?old (pp_attest s1)"
    if "pr_repos env t jobID (artifact_ListByJobID (pp_arts s) jobID) ws rs (s\<lparr>pp_disk := d\<rparr>) = (x, s1)" for rs x s1
    using pr_repos_unnamed [OF that assms(2) start] by (simp add: unnamed_state_def)
  moreover have "unnamed_but ?old (pp_attest s)" by (simp add: unnamed_but_def)
  ultimately have "unnamed_but ?old (pp_attest s')"
    using assms(1) w
    by (auto simp: pr_Execute_def Let_def keep split: if_splits sum.splits prod.splits option.splits)
  with assms(3,4) show ?thesis by (auto simp: unnamed_but_def)
qed

section \<open>A step to try it on\<close>

definition light_crypto :: crypto where
  "light_crypto =
     \<lparr>cy_public = (\<lambda>k. k), cy_sign = (\<lambda>k m. ''s''), cy_verify = (\<lambda>p m s. s = ''s''), cy_sha256 = (\<lambda>_. ''h''),
      cy_nonce_size = 1, cy_seal = (\<lambda>n p. p), cy_open = (\<lambda>n s. Some s), cy_marshal = (\<lambda>s. ''{}''),
      cy_unmarshal = (\<lambda>_. None)\<rparr>"

definition demo_pr :: "string list \<Rightarrow> pr_env" where
  "demo_pr files =
     \<lparr>pe_update = updateTaskStatus (Suc 0) silent_env, pe_wk = demo_wk [repo_at ''r'' ''https://git/a.git''],
      pe_container = (\<lambda>p. p), pe_gitops = True, pe_agent = (''coder'', ''large''), pe_tests = None,
      pe_changed = (\<lambda>_ _. Some files), pe_checkout = (\<lambda>_ _ _. True), pe_push = (\<lambda>_ _ _. True),
      pe_diff = (\<lambda>_ _. ''d''), pe_open = (\<lambda>_ _ _ _ _. Some ''https://git/a/pull/1''),
      pe_head = (\<lambda>_ _. Some ''c1''), pe_spec = (\<lambda>_ _. ''''), pe_all_diff = (\<lambda>_. None),
      pe_crypto = Some light_crypto, pe_fresh = (\<lambda>_. bytes_of ''k''), pe_now = 0\<rparr>"

definition pr_task_row :: task where
  "pr_task_row = (demo_task ''task-001'' TaskStatusHumanReview)\<lparr>t_title := ''T'', t_description := ''d''\<rparr>"

definition easy_pr_task :: task where
  "easy_pr_task = pr_task_row\<lparr>t_complexity := TaskComplexityEasy\<rparr>"

definition before_pr :: "task \<Rightarrow> pr_state" where
  "before_pr t =
     \<lparr>pp_st = orch_of [t], pp_disk = empty_disk, pp_arts = [], pp_attest = no_attestations, pp_ops = []\<rparr>"

definition after_pr :: "string list \<Rightarrow> task \<Rightarrow> pr_state" where
  "after_pr files t = snd (the (pr_Execute (demo_pr files) t ''j'' StepCLIMR (before_pr t)))"

definition waits :: "(pr_state \<Rightarrow> bool) \<Rightarrow> ((step_error \<times> gomap) \<times> pr_state) option \<Rightarrow> bool" where
  "waits P r = (case r of Some ((ErrWaitingApproval, _), s) \<Rightarrow> P s | _ \<Rightarrow> False)"

lemma waitsE:
  assumes "waits P (pr_Execute (demo_pr files) t ''j'' StepCLIMR (before_pr t))"
  obtains out where "pr_Execute (demo_pr files) t ''j'' StepCLIMR (before_pr t) = Some ((ErrWaitingApproval, out), after_pr files t)"
    and "P (after_pr files t)"
  using assms by (auto simp: waits_def after_pr_def split: option.splits step_error.splits)

lemma changed_run_waits:
  "waits (\<lambda>s. list_ex opens (pp_ops s) \<and> as_rows (pp_attest s) \<noteq> [])
     (pr_Execute (demo_pr [''m'']) pr_task_row ''j'' StepCLIMR (before_pr pr_task_row))"
  by code_simp

lemma easy_run_waits: "waits (\<lambda>_. True) (pr_Execute (demo_pr []) easy_pr_task ''j'' StepCLIMR (before_pr easy_pr_task))"
  by code_simp

theorem opened_after_push_witness:
  "pushed_first (demo_pr [''m'']) (pp_ops (after_pr [''m''] pr_task_row)) \<and>
   list_ex opens (pp_ops (after_pr [''m''] pr_task_row))"
proof -
  obtain out where run: "pr_Execute (demo_pr [''m'']) pr_task_row ''j'' StepCLIMR (before_pr pr_task_row) =
      Some ((ErrWaitingApproval, out), after_pr [''m''] pr_task_row)" "list_ex opens (pp_ops (after_pr [''m''] pr_task_row))"
    using waitsE [OF changed_run_waits] by metis
  with opened_after_push [OF run(1)] show ?thesis by (simp add: before_pr_def)
qed


theorem cli_attestations_unnamed_witness:
  "\<exists>r \<in> set (as_rows (pp_attest (after_pr [''m''] pr_task_row))). at_coded_by r = nobody \<and> at_reviewed_by r = None"
proof -
  obtain out where run: "pr_Execute (demo_pr [''m'']) pr_task_row ''j'' StepCLIMR (before_pr pr_task_row) =
      Some ((ErrWaitingApproval, out), after_pr [''m''] pr_task_row)" "as_rows (pp_attest (after_pr [''m''] pr_task_row)) \<noteq> []"
    using waitsE [OF changed_run_waits] by metis
  from run(2) have r: "hd (as_rows (pp_attest (after_pr [''m''] pr_task_row))) \<in> set (as_rows (pp_attest (after_pr [''m''] pr_task_row)))"
    by simp
  have "only_cli_steps (pp_st (before_pr pr_task_row)) pr_task_row" by code_simp
  from cli_attestations_unnamed [OF run(1) this r] r show ?thesis by (auto simp: before_pr_def no_attestations_def)
qed

end
