(* ===== verification/Delivery.thy ===== *)
theory Delivery
  imports PR_Step
begin

text \<open>
  The steps at the end of a pipeline one after the other: what the status a step leaves behind means for
  the next one. The statuses are written by the real writer, against the table of transitions.
\<close>

section \<open>A write the table does not allow\<close>

lemma forbidden_write:
  assumes "get_task (os_db st) i = Inr row" and "ValidateTaskTransition (t_status row) s \<noteq> None" and "\<not> terminal_status s"
    and "updateTaskStatus (Suc n) env st i s = Some (r, st')"
  shows "\<exists>row'. get_task (os_db st') i = Inr row' \<and>
    (t_status row' = TaskStatusBlocked \<or> t_status row' = t_status row \<and> (\<exists>e. r = Inl e))"
proof -
  have f: "find_row (db_tasks (os_db st)) i = Some row" using assms(1) by (simp add: get_task_Inr)
  have w: "write_status (oe_now env) st i s = (r, st')" using assms(3,4) nonterminal_write_eq by simp
  from write_status_cases [OF f, of "oe_now env" s] assms(1,2) w show ?thesis
    by (auto simp: Let_def get_task_Inr guard_fields split: option.splits if_splits)
qed

lemma reviewing_leads_nowhere:
  "ValidateTaskTransition TaskStatusReviewing TaskStatusHumanReview \<noteq> None"
  "ValidateTaskTransition TaskStatusReviewing TaskStatusPrReady \<noteq> None"
  "ValidateTaskTransition TaskStatusReviewing TaskStatusCoding \<noteq> None"
  "ValidateTaskTransition TaskStatusCoding TaskStatusPrReady \<noteq> None"
  by code_simp+

lemma not_terminal [simp]:
  "\<not> terminal_status TaskStatusHumanReview" "\<not> terminal_status TaskStatusPrReady"
  "\<not> terminal_status TaskStatusCoding" "\<not> terminal_status TaskStatusReviewing"
  by (simp_all add: terminal_status_def)

text \<open>A merge that is not skipped leaves its task in review, unless a guardrail has blocked it.\<close>

lemma merged_status:
  assumes "merge_Execute env t jobID s = Some (Inr out, s')" and "\<not> is_easy t s" and "me_update env = updateTaskStatus (Suc n) oenv"
  shows "\<exists>row. get_task (os_db (mg_st s')) (t_id t) = Inr row \<and> t_status row \<in> {TaskStatusReviewing, TaskStatusBlocked}"
proof -
  obtain st u where w: "write_status (oe_now oenv) st (t_id t) TaskStatusReviewing = (Inr u, mg_st s')"
    using assms
    by (auto simp: merge_Execute_def Let_def reconciled_def nonterminal_write_eq simp del: updateTaskStatus.simps
        split: option.splits if_splits prod.splits sum.splits)
  from write_status_row [OF this] show ?thesis by (auto simp: get_task_Inr)
qed

section \<open>After a merge\<close>

definition stuck_in_review :: "db \<Rightarrow> string \<Rightarrow> bool \<Rightarrow> bool" where
  "stuck_in_review d i failed =
     (case get_task d i of
        Inl _ \<Rightarrow> False
      | Inr row \<Rightarrow> t_status row = TaskStatusBlocked \<or> t_status row = TaskStatusReviewing \<and> failed)"

lemma set_review_status_stuck:
  assumes "set_review_status env st t s r = Some (res, st')" and "xe_update env = updateTaskStatus (Suc n) oenv"
    and "get_task (os_db st) (t_id t) = Inr row" and "t_status row = TaskStatusReviewing"
    and "s \<in> {TaskStatusHumanReview, TaskStatusCoding}"
  shows "stuck_in_review (os_db st') (t_id t) (is_err res)"
proof -
  obtain x st1 where u: "updateTaskStatus (Suc n) oenv st (t_id t) s = Some (x, st1)" and e: "st1 = st'"
    and x: "(\<exists>e. x = Inl e) \<Longrightarrow> is_err res"
    using assms(1,2)
    by (auto simp: set_review_status_def simp del: updateTaskStatus.simps split: option.splits sum.splits prod.splits)
  have "ValidateTaskTransition (t_status row) s \<noteq> None" "\<not> terminal_status s"
    using assms(4,5) reviewing_leads_nowhere by auto
  from forbidden_write [OF assms(3) this u] e x show ?thesis
    using assms(4) by (auto simp: stuck_in_review_def)
qed

text \<open>
  C15: The review after a merge of parallel tracks cannot succeed. The merge leaves the task in
  review, from where the table allows neither of the statuses the review ends with: whatever the reviewer
  answers, the step fails, or a guardrail has blocked the task.
\<close>
theorem merged_tracks_fail_review:
  assumes "merge_Execute menv t jobID ms = Some (Inr out, ms')" and "\<not> is_easy t ms"
    and "me_update menv = updateTaskStatus (Suc n) oenv" and "xe_update xenv = updateTaskStatus (Suc m) oenv'"
    and "oe_events (xe_orch xenv) = (\<lambda>_ _. None)"
    and "get_task (os_db (mg_st ms')) (t_id t) = Inr row" and "t_status row \<noteq> TaskStatusBlocked"
    and "cross_Execute xenv runner (mg_st ms') t = Some (res, st')"
  shows "stuck_in_review (os_db st') (t_id t) (is_err res)"
proof -
  have r: "t_status row = TaskStatusReviewing"
    using merged_status [OF assms(1,2,3)] assms(6,7) by auto
  have quiet: "review_logs xenv i k st = st" for i k st
    by (induction k) (simp_all add: review_logs_def o_log_silent [OF assms(5)])
  note s = set_review_status_stuck [OF _ assms(4,6) r]
  show ?thesis
  proof (cases "runner (review_policy xenv (mg_st ms') t = ''same'')")
    case NoSecondHarness
    with assms(8) s show ?thesis by (auto simp: cross_Execute_def Let_def quiet)
  next
    case (ReviewError e)
    with assms(6,8) r show ?thesis by (auto simp: cross_Execute_def Let_def stuck_in_review_def)
  next
    case (Reviewed raw reviewer coder)
    with assms(8) s show ?thesis
      by (auto simp: cross_Execute_def Let_def judge_def quiet split: if_splits)
  qed
qed

text \<open>Writing the metadata of the requests does not touch the status.\<close>

lemma save_metadata_status:
  assumes "get_task (os_db st) (t_id t) = Inr row"
  shows "\<exists>row'. get_task (os_db (save_metadata t sms st)) (t_id t) = Inr row' \<and> t_status row' = t_status row"
proof (cases "metadata_update t sms")
  case (Some u)
  then have u: "ui_status u = None" by (auto simp: metadata_update_def no_update_def split: if_splits)
  obtain d where w: "repo_Update (os_db st) (t_id t) u = (Inr (apply_update u row), d)"
    using assms by (simp add: repo_Update_def)
  have f: "find_row (db_tasks (os_db st)) (t_id t) = Some row" using assms by (simp add: get_task_Inr)
  from find_after_update [OF w] have "get_task d (t_id t) = Inr (apply_update u row)" by (simp add: get_task_Inr f)
  moreover have "t_status (apply_update u row) = t_status row" using u by (simp add: apply_update_def)
  ultimately show ?thesis using Some w by (simp add: save_metadata_def write_task_def)
qed (use assms in \<open>simp add: save_metadata_def\<close>)

lemma open_request_state: "pp_st (snd (open_request env t jobID arts r p base files spec s)) = pp_st s"
  by (simp add: open_request_def Let_def split: option.split prod.split)

lemma push_repo_state: "pp_st (snd (push_repo env t jobID arts ws r files s)) = pp_st s"
  by (simp add: push_repo_def Let_def open_request_state)

lemma pr_repo_state: "pp_st (snd (pr_repo env t jobID arts ws r s)) = pp_st s"
  by (simp add: pr_repo_def Let_def push_repo_state split: option.split)

lemma pr_repos_snd: "pp_st (snd (pr_repos env t jobID arts ws rs s)) = pp_st s"
proof (induction rs arbitrary: s)
  case (Cons r rs)
  obtain x s1 where x: "pr_repo env t jobID arts ws r s = (x, s1)" by fastforce
  obtain y s2 where y: "pr_repos env t jobID arts ws rs s1 = (y, s2)" by fastforce
  have "pp_st s1 = pp_st s" using x pr_repo_state by (metis snd_conv)
  moreover have "pp_st s2 = pp_st s1" using y Cons by (metis snd_conv)
  ultimately show ?case using x y by (simp split: pr_result.split sum.split)
qed simp

lemma pr_repos_state: "pr_repos env t jobID arts ws rs s = (res, s') \<Longrightarrow> pp_st s' = pp_st s"
  using pr_repos_snd by (metis snd_conv)

text \<open>
  A request can be open while its task never becomes ready. When the status the task has does
  not lead to pr_ready in the table (in review after a merge, coding after an approved specification),
  the step opens the requests, saves their addresses and then fails on its last write, or a
  guardrail has blocked the task.
\<close>
theorem request_open_task_stuck:
  assumes "pr_Execute env t jobID stepID s = Some ((e, out), s')" and "\<not> pr_already_created t"
    and "pe_update env = updateTaskStatus (Suc n) oenv"
    and "get_task (os_db (pp_st s)) (t_id t) = Inr row" and "ValidateTaskTransition (t_status row) TaskStatusPrReady \<noteq> None"
  shows "\<exists>row'. get_task (os_db (pp_st s')) (t_id t) = Inr row' \<and>
    (t_status row' = TaskStatusBlocked \<or> t_status row' = t_status row \<and> e \<noteq> ErrWaitingApproval)"
proof -
  obtain ws d where w: "load_workspace (pe_wk env) t (pp_disk s) = (ws, d)" by fastforce
  have keep: "pp_st (save_diff env t jobID stepID x) = pp_st x" for x
    by (simp add: save_diff_def split: option.split)
  show ?thesis
  proof (cases "pp_st s' = pp_st s \<and> e \<noteq> ErrWaitingApproval")
    case True
    with assms(4) show ?thesis by auto
  next
    case False
    then obtain sms x st' where u: "updateTaskStatus (Suc n) oenv (save_metadata t sms (pp_st s)) (t_id t) TaskStatusPrReady = Some (x, st')"
      and p: "pp_st s' = st'" "(\<exists>y. x = Inl y) \<longrightarrow> e \<noteq> ErrWaitingApproval"
      using assms(1,2,3) w
      by (auto simp: pr_Execute_def Let_def keep simp del: updateTaskStatus.simps
          split: if_splits sum.splits prod.splits option.splits dest!: pr_repos_state)
    obtain row1 where r: "get_task (os_db (save_metadata t sms (pp_st s))) (t_id t) = Inr row1" "t_status row1 = t_status row"
      using save_metadata_status [OF assms(4)] by metis
    from forbidden_write [OF r(1) _ _ u] assms(5) r(2) p show ?thesis by auto
  qed
qed

section \<open>Runs to try it on\<close>

definition reviewing_pr_task :: task where
  "reviewing_pr_task = pr_task_row\<lparr>t_status := TaskStatusReviewing\<rparr>"

theorem request_open_task_stuck_witness:
  "\<exists>row. get_task (os_db (pp_st (after_pr [''m''] reviewing_pr_task))) ''task-001'' = Inr row \<and>
     t_status row \<in> {TaskStatusBlocked, TaskStatusReviewing} \<and>
     list_ex opens (pp_ops (after_pr [''m''] reviewing_pr_task))"
proof -
  let ?r = "pr_Execute (demo_pr [''m'']) reviewing_pr_task ''j'' StepCLIMR (before_pr reviewing_pr_task)"
  have "case ?r of Some (_, s) \<Rightarrow> list_ex opens (pp_ops s) | None \<Rightarrow> False" by code_simp
  then obtain e out where run: "?r = Some ((e, out), after_pr [''m''] reviewing_pr_task)"
    and ops: "list_ex opens (pp_ops (after_pr [''m''] reviewing_pr_task))"
    by (auto simp: after_pr_def split: option.splits)
  have row: "\<not> pr_already_created reviewing_pr_task" "t_id reviewing_pr_task = ''task-001''"
    "t_status reviewing_pr_task = TaskStatusReviewing"
    "get_task (os_db (pp_st (before_pr reviewing_pr_task))) (t_id reviewing_pr_task) = Inr reviewing_pr_task" by code_simp+
  have w: "pe_update (demo_pr [''m'']) = updateTaskStatus (Suc 0) silent_env" by (simp add: demo_pr_def)
  have "ValidateTaskTransition (t_status reviewing_pr_task) TaskStatusPrReady \<noteq> None"
    unfolding row(3) by (rule reviewing_leads_nowhere)
  from request_open_task_stuck [OF run row(1) w row(4) this] ops row(2,3) show ?thesis by auto
qed

definition merge_to_review :: merge_env where
  "merge_to_review = demo_merge\<lparr>me_update := updateTaskStatus (Suc 0) silent_env\<rparr>"

definition tracks_done :: merge_state where
  "tracks_done = \<lparr>mg_st = orch_of [(demo_task ''child-01'' TaskStatusAnalyzing)\<lparr>t_complexity := TaskComplexityHard\<rparr>], mg_disk = empty_disk, mg_arts = [], mg_ops = []\<rparr>"

definition tracks_merged :: merge_state where
  "tracks_merged = snd (the (merge_Execute merge_to_review split_task ''j'' tracks_done))"

definition plain_review :: review_env where
  "plain_review =
     \<lparr>xe_update = updateTaskStatus (Suc 0) silent_env, xe_orch = silent_env, xe_config = (\<lambda>_. None), xe_parse = (\<lambda>_. None)\<rparr>"

theorem merged_tracks_fail_review_witness:
  "\<exists>res st'. cross_Execute plain_review (\<lambda>_. Reviewed None ''r'' ''c'') (mg_st tracks_merged) split_task = Some (res, st') \<and>
     stuck_in_review (os_db st') ''child-01'' (is_err res)"
proof -
  let ?m = "merge_Execute merge_to_review split_task ''j'' tracks_done"
  have m: "case ?m of Some (Inr _, s) \<Rightarrow>
      (case get_task (os_db (mg_st s)) ''child-01'' of Inr row \<Rightarrow> t_status row = TaskStatusReviewing | _ \<Rightarrow> False) | _ \<Rightarrow> False"
    by code_simp
  then obtain out where run: "?m = Some (Inr out, tracks_merged)"
    by (auto simp: tracks_merged_def split: option.splits prod.splits sum.splits)
  with m obtain row where row: "get_task (os_db (mg_st tracks_merged)) (t_id split_task) = Inr row" "t_status row = TaskStatusReviewing"
    by (auto simp: split_task_def split: sum.splits)
  have "\<not> is_easy split_task tracks_done" by code_simp
  moreover obtain res st' where c: "cross_Execute plain_review (\<lambda>_. Reviewed None ''r'' ''c'') (mg_st tracks_merged) split_task = Some (res, st')"
    by (cases "cross_Execute plain_review (\<lambda>_. Reviewed None ''r'' ''c'') (mg_st tracks_merged) split_task")
      (auto simp: cross_Execute_def judge_def set_review_status_def plain_review_def review_parsed_def
        nonterminal_write_eq Let_def simp del: updateTaskStatus.simps split: option.splits prod.splits sum.splits)
  moreover have "me_update merge_to_review = updateTaskStatus (Suc 0) silent_env"
    "xe_update plain_review = updateTaskStatus (Suc 0) silent_env" "oe_events (xe_orch plain_review) = (\<lambda>_ _. None)"
    by (simp_all add: merge_to_review_def plain_review_def)
  ultimately have "stuck_in_review (os_db st') (t_id split_task) (is_err res)"
    using merged_tracks_fail_review [OF run _ _ _ _ row(1) _ c] row(2) by simp
  with c show ?thesis by (auto simp: split_task_def)
qed

end
