(* ===== verification/CLI_Context.thy ===== *)
theory CLI_Context
  imports CLI_Runner Workspaces Path_Properties
begin

text \<open>
  What a CLI step is given beside its instruction: the role and step prompts
  (\<^verbatim>\<open>prompts/rolepolicy.go\<close>, \<^verbatim>\<open>LoadRolePrompt\<close> and \<^verbatim>\<open>LoadStepPrompt\<close> of \<^verbatim>\<open>prompts/builder.go\<close>), the choice
  of skills (\<^verbatim>\<open>resolveSkills\<close>) and the context files (\<^verbatim>\<open>prompts/cli_context.go\<close>). The files on disk, the
  search for learned skills and the printing of JSON are arguments; a skill is its name and its content.
\<close>

section \<open>Roles and prompts\<close>

definition stepRequiresEditCaps :: "string \<Rightarrow> bool" where
  "stepRequiresEditCaps stepID = has_prefix stepID StepCLIImplement"

definition CoderRoleForTask :: "task \<Rightarrow> string" where
  "CoderRoleForTask t =
     (case t_analysis t of
        Json a \<Rightarrow> if to_lower (an_primary_category a) \<in> {''frontend'', ''ui'', ''ux''} then ''frontend'' else ''backend''
      | _ \<Rightarrow> ''backend'')"

definition EffectiveRoleForStep :: "string \<Rightarrow> string \<Rightarrow> task \<Rightarrow> string" where
  "EffectiveRoleForStep stepID role t =
     (if \<not> stepRequiresEditCaps stepID then role
      else if role = ''backend'' \<or> role = ''frontend'' then role
      else CoderRoleForTask t)"

text \<open>The role prompt of an agent, given by its role; a missing file is the empty prompt.\<close>

definition LoadRolePrompt :: "(string \<Rightarrow> string option) \<Rightarrow> string option \<Rightarrow> task \<Rightarrow> string \<Rightarrow> string" where
  "LoadRolePrompt files agent t stepID =
     (case agent of
        None \<Rightarrow> ''''
      | Some agentRole \<Rightarrow>
          (let role = EffectiveRoleForStep stepID agentRole t
           in or_zero '''' (files (if role = ''backend'' \<or> role = ''frontend'' then ''coder'' else role))))"

definition LoadStepPrompt :: "(string \<Rightarrow> string option) \<Rightarrow> string \<Rightarrow> string option" where
  "LoadStepPrompt files stepID =
     (case files stepID of
        Some c \<Rightarrow> Some c
      | None \<Rightarrow> if CHR ''_'' \<in> set stepID then files (hd (split_char CHR ''_'' stepID)) else None)"

section \<open>Skills\<close>

record parsed_skill =
  sk_name :: string
  sk_content :: string

definition skill_score :: "string option \<Rightarrow> task \<Rightarrow> string \<Rightarrow> parsed_skill \<Rightarrow> nat" where
  "skill_score agent t stepID sk =
     (let name = to_lower (sk_name sk); role = to_lower (or_zero '''' agent);
          a = snd (unmarshal zero_analysis (t_analysis t));
          required = (if role \<noteq> '''' then or_zero [] (map_of (an_required_skills_map a) role) else [])
      in 15 * length (filter (\<lambda>r. to_lower r = name) required) +
         (if str_contains (to_lower (t_title t)) name then 5 else 0) +
         (if str_contains (to_lower (t_description t)) name then 3 else 0) +
         (if stepID \<noteq> '''' \<and> str_contains (to_lower stepID) name then 2 else 0))"

text \<open>The best five, the higher score first and equal scores by name (the names are distinct).\<close>

definition resolveSkills :: "parsed_skill list \<Rightarrow> string option \<Rightarrow> task \<Rightarrow> string \<Rightarrow> parsed_skill list" where
  "resolveSkills skills agent t stepID =
     take 5 (sort_key (\<lambda>sk. - int (skill_score agent t stepID sk))
       (sort_key sk_name (filter (\<lambda>sk. 0 < skill_score agent t stepID sk) skills)))"

definition learned_header :: string where
  "learned_header = ''## Learned skills (from past tasks in this project)'' @ NL"

fun learned_sections :: "nat \<Rightarrow> (string \<times> string) list \<Rightarrow> string" where
  "learned_sections used [] = ''''"
| "learned_sections used ((title, content) # sks) =
     (let part = ''### '' @ title @ NL @ content @ NL @ NL
      in if used + length part > 8000 then '''' else part @ learned_sections (used + length part) sks)"

definition RenderLearnedSkillsSection :: "(string \<times> string) list \<Rightarrow> string" where
  "RenderLearnedSkillsSection sks =
     (if sks = [] then '''' else learned_header @ learned_sections (length learned_header) sks)"

section \<open>The context files\<close>

record context_env =
  xc_step_prompts :: "string \<Rightarrow> string option"
  xc_role_prompts :: "string \<Rightarrow> string option"
  xc_skills :: "string \<Rightarrow> string \<Rightarrow> parsed_skill list option"
  xc_learned :: "string \<Rightarrow> string \<Rightarrow> (string \<times> string) list option"
  xc_rules :: "string list \<Rightarrow> string"
  xc_manifest :: "string \<Rightarrow> string \<Rightarrow> nat \<Rightarrow> bool \<Rightarrow> nat \<Rightarrow> string list \<Rightarrow> string"

definition learnedSkillsText :: "context_env \<Rightarrow> task \<Rightarrow> string" where
  "learnedSkillsText env t =
     (case xc_learned env (t_project_id t) (t_title t @ NL @ t_description t) of
        None \<Rightarrow> ''''
      | Some sks \<Rightarrow> RenderLearnedSkillsSection sks)"

definition slugifySkillName :: "string \<Rightarrow> string" where
  "slugifySkillName name =
     (let s = trim_dashes (slug_from False (to_lower name)) in if s = '''' then ''skill'' else s)"

definition skill_path :: "string \<Rightarrow> string" where
  "skill_path slug = ''relevant/skills/'' @ slug @ ''.md''"

definition numbered_slug :: "string list \<Rightarrow> string \<Rightarrow> string" where
  "numbered_slug used base =
     (let n = count_list used base + 1 in if n > 1 then base @ ''-'' @ itoa (int n) else base)"

text \<open>
  The skills in order, until one does not fit: the files, what is left of the budget, and how many were
  included. A name that was seen before gets a number.
\<close>

fun place_skills ::
  "parsed_skill list \<Rightarrow> string list \<Rightarrow> int \<Rightarrow> (string \<times> string) list \<Rightarrow> (string \<times> string) list \<times> int \<times> nat" where
  "place_skills [] used budget files = (files, budget, 0)"
| "place_skills (sk # sks) used budget files =
     (if sk_content sk = '''' then place_skills sks used budget files
      else (let base = slugifySkillName (sk_name sk); left = budget - int (length (sk_content sk))
            in if left < 0 then (files, budget, 0)
               else (case place_skills sks (base # used) left
                            (put_pair (skill_path (numbered_slug used base)) (sk_content sk) files) of
                       (fs, b, n) \<Rightarrow> (fs, b, Suc n))))"

definition context_budget :: int where "context_budget = 12000"

definition learned_path :: string where "learned_path = ''relevant/learned_skills.md''"

definition readme_text :: string where
  "readme_text =
     ''Platform context has been materialized for this task.'' @ NL @ NL @
     ''Inspect `manifest.json` for what's available, then read whatever under `relevant/` is useful for the '' @
     ''current step. You decide what to use '' @ [CHR 0xE2, CHR 0x80, CHR 0x94] @ '' nothing here is mandatory.'' @ NL"

definition place_learned :: "string \<Rightarrow> int \<Rightarrow> (string \<times> string) list \<Rightarrow> (string \<times> string) list" where
  "place_learned learned budget files =
     (if learned \<noteq> '''' \<and> budget - int (length learned) \<ge> 0 then put_pair learned_path learned files else files)"

definition place_rules :: "context_env \<Rightarrow> string list \<Rightarrow> (string \<times> string) list \<Rightarrow> (string \<times> string) list" where
  "place_rules env rules files =
     (if rules \<noteq> [] then put_pair ''relevant/task_rules.md'' (xc_rules env rules) files else files)"

definition place_manifest ::
  "context_env \<Rightarrow> task \<Rightarrow> string \<Rightarrow> nat \<Rightarrow> nat \<Rightarrow> (string \<times> string) list \<Rightarrow> (string \<times> string) list" where
  "place_manifest env t stepID included rules files =
     (if files = [] then []
      else put_pair ''README.md'' readme_text
             (put_pair ''manifest.json''
               (xc_manifest env (t_id t) stepID included (or_zero '''' (map_of files learned_path) \<noteq> '''') rules
                 (sorted_names (map fst files))) files))"

definition MaterializeCLIContext :: "context_env \<Rightarrow> task \<Rightarrow> string option \<Rightarrow> string \<Rightarrow> (string \<times> string) list" where
  "MaterializeCLIContext env t agent stepID =
     (let skills = (case xc_skills env (t_id t) (t_project_id t) of
                      None \<Rightarrow> [] | Some all \<Rightarrow> resolveSkills all agent t stepID);
          rules = an_task_rules (snd (unmarshal zero_analysis (t_analysis t)))
      in case place_skills skills [] context_budget [] of
           (files, budget, included) \<Rightarrow>
             place_manifest env t stepID included (length rules)
               (place_rules env rules (place_learned (learnedSkillsText env t) budget files)))"

section \<open>A skill cannot name a file elsewhere\<close>

text \<open>
  The names of skills come from third-party repositories. The names of the files made of them are
  fixed or a slug between a fixed directory and a fixed extension.
\<close>

definition context_name :: "string \<Rightarrow> bool" where
  "context_name p \<longleftrightarrow>
     p \<in> {''manifest.json'', ''README.md'', learned_path, ''relevant/task_rules.md''} \<or>
     (\<exists>s. p = skill_path s \<and> slug_text s \<and> s \<noteq> '''')"

lemma slug_text_simps [simp]:
  "slug_text []" "slug_text (c # cs) \<longleftrightarrow> (slug_char c \<or> c = CHR ''-'') \<and> slug_text cs"
  "slug_text (a @ b) \<longleftrightarrow> slug_text a \<and> slug_text b"
  by (simp_all add: slug_text_def)

lemma digit_slug: "n < 10 \<Longrightarrow> slug_char (digit_char n)"
  by (simp add: slug_char_def digit_char_def Let_def)

lemma nat_string_slug: "slug_text (nat_to_string n)"
proof (induction n rule: nat_to_string.induct)
  case (1 n)
  then show ?case by (subst nat_to_string.simps) (auto simp: digit_slug)
qed

lemma itoa_slug: "0 \<le> i \<Longrightarrow> slug_text (itoa i)"
  by (simp add: itoa_def nat_string_slug)

lemma slugify_slug: "slug_text (slugifySkillName n) \<and> slugifySkillName n \<noteq> ''''"
proof -
  have "slug_text (trim_dashes (slug_from False (to_lower n)))"
    using sublist_slug [OF _ slug_from_text slug_from_single] trim_dashes_sublist by blast
  then show ?thesis by (auto simp: slugifySkillName_def Let_def slug_char_def)
qed

lemma numbered_slug: "slug_text (numbered_slug used (slugifySkillName n)) \<and> numbered_slug used (slugifySkillName n) \<noteq> ''''"
  using slugify_slug [of n] by (auto simp: numbered_slug_def Let_def itoa_slug)

lemma context_name_fixed [simp]:
  "context_name ''manifest.json''" "context_name ''README.md''" "context_name learned_path"
  "context_name ''relevant/task_rules.md''"
  by (simp_all add: context_name_def)

lemma context_name_skill: "context_name (skill_path (numbered_slug used (slugifySkillName n)))"
  using numbered_slug by (auto simp: context_name_def)

definition named_ok :: "(string \<times> string) list \<Rightarrow> bool" where
  "named_ok files \<longleftrightarrow> (\<forall>f \<in> set files. context_name (fst f))"

lemma put_pair_names: "named_ok files \<Longrightarrow> context_name k \<Longrightarrow> named_ok (put_pair k v files)"
  by (auto simp: put_pair_def named_ok_def)

lemma no_files_named [simp]: "named_ok []"
  by (simp add: named_ok_def)

lemma place_skills_names:
  "place_skills sks used budget files = (fs, b, n) \<Longrightarrow> named_ok files \<Longrightarrow> named_ok fs"
proof (induction sks used budget files arbitrary: fs b n rule: place_skills.induct)
  case (2 sk sks used budget files)
  then show ?case
    using put_pair_names [OF "2.prems"(2) context_name_skill]
    by (auto simp: Let_def split: if_splits prod.splits)
qed auto

lemma place_manifest_names:
  assumes "named_ok files"
  shows "named_ok (place_manifest env t stepID n r files)"
  unfolding place_manifest_def
  by (cases "files = []") (simp_all add: put_pair_names assms)

theorem context_files_named:
  "list_all (\<lambda>f. context_name (fst f)) (MaterializeCLIContext env t agent stepID)"
proof -
  obtain fs b n where p: "place_skills (case xc_skills env (t_id t) (t_project_id t) of
      None \<Rightarrow> [] | Some all \<Rightarrow> resolveSkills all agent t stepID) [] context_budget [] = (fs, b, n)"
    by (metis surj_pair)
  have "named_ok fs" using place_skills_names [OF p] by simp
  then have "named_ok (place_rules env rules (place_learned l b fs))" for rules l
    by (auto simp: place_rules_def place_learned_def put_pair_names)
  then have "named_ok (MaterializeCLIContext env t agent stepID)"
    by (simp add: MaterializeCLIContext_def Let_def p place_manifest_names)
  then show ?thesis by (simp add: named_ok_def list_all_iff)
qed

text \<open>
  Two names with one slug get different files, but a third name may be the numbered slug itself: then
  the file of the second skill is overwritten.
\<close>

lemma numbered_names_collide:
  "fst (place_skills [\<lparr>sk_name = ''api'', sk_content = ''a''\<rparr>, \<lparr>sk_name = ''api!'', sk_content = ''b''\<rparr>,
                      \<lparr>sk_name = ''api 2'', sk_content = ''c''\<rparr>] [] context_budget []) =
   [(''relevant/skills/api.md'', ''a''), (''relevant/skills/api-2.md'', ''c'')]"
  by code_simp

section \<open>The budget\<close>

definition outside_budget :: "string list" where
  "outside_budget = [''manifest.json'', ''README.md'', ''relevant/task_rules.md'']"

definition context_cost :: "(string \<times> string) list \<Rightarrow> int" where
  "context_cost files =
     sum_list (map (\<lambda>f. int (length (snd f))) (filter (\<lambda>f. fst f \<notin> set outside_budget) files))"

lemma context_cost_Nil [simp]: "context_cost [] = 0"
  by (simp add: context_cost_def)

lemma cost_filter: "context_cost (filter P fs) \<le> context_cost fs"
  by (induction fs) (auto simp: context_cost_def)

lemma cost_put: "context_cost (put_pair k v fs) \<le> context_cost fs + int (length v)"
  using cost_filter [of "\<lambda>f. fst f \<noteq> k" fs] by (auto simp: context_cost_def put_pair_def)

lemma cost_put_outside: "k \<in> set outside_budget \<Longrightarrow> context_cost (put_pair k v fs) \<le> context_cost fs"
  using cost_filter [of "\<lambda>f. fst f \<noteq> k" fs] by (auto simp: context_cost_def put_pair_def)

lemma place_skills_cost:
  "place_skills sks used budget files = (fs, b, n) \<Longrightarrow> 0 \<le> budget \<Longrightarrow>
   context_cost fs + b \<le> context_cost files + budget \<and> 0 \<le> b"
proof (induction sks used budget files arbitrary: fs b n rule: place_skills.induct)
  case (2 sk sks used budget files)
  then show ?case
    using cost_put [of "skill_path (numbered_slug used (slugifySkillName (sk_name sk)))" "sk_content sk" files]
    by (force simp: Let_def split: if_splits prod.splits)
qed auto

lemma place_learned_cost:
  "context_cost fs + b \<le> context_budget \<Longrightarrow> 0 \<le> b \<Longrightarrow> context_cost (place_learned l b fs) \<le> context_budget"
  using cost_put [of learned_path l fs] by (auto simp: place_learned_def)

lemma place_rules_cost: "context_cost (place_rules env rules fs) \<le> context_cost fs"
  by (simp add: place_rules_def cost_put_outside outside_budget_def)

lemma place_manifest_cost: "context_cost (place_manifest env t stepID n r fs) \<le> context_cost fs"
proof -
  have "context_cost (put_pair ''README.md'' x (put_pair ''manifest.json'' y fs)) \<le> context_cost fs" for x y
    by (rule order_trans [OF cost_put_outside cost_put_outside]) (simp_all add: outside_budget_def)
  then show ?thesis by (simp add: place_manifest_def)
qed

text \<open>
  C37: The skills and the learned text together stay within the budget. The rules of the task, the manifest
  and the explanation are not counted.
\<close>

theorem context_within_budget:
  "context_cost (MaterializeCLIContext env t agent stepID) \<le> context_budget"
proof -
  obtain fs b n where p: "place_skills (case xc_skills env (t_id t) (t_project_id t) of
      None \<Rightarrow> [] | Some all \<Rightarrow> resolveSkills all agent t stepID) [] context_budget [] = (fs, b, n)"
    by (metis surj_pair)
  have "context_cost fs + b \<le> context_budget \<and> 0 \<le> b"
    using place_skills_cost [OF p] by (simp add: context_budget_def)
  then have "context_cost (place_rules env rules (place_learned l b fs)) \<le> context_budget" for rules l
    using place_learned_cost place_rules_cost order_trans by blast
  then show ?thesis
    by (auto simp: MaterializeCLIContext_def Let_def p intro: order_trans [OF place_manifest_cost])
qed

text \<open>What is materialized does not depend on the questions and answers recorded on the task.\<close>

lemma skill_score_cong:
  "t_title t = t_title u \<Longrightarrow> t_description t = t_description u \<Longrightarrow> t_analysis t = t_analysis u \<Longrightarrow>
   skill_score agent t stepID = skill_score agent u stepID"
  by (simp add: skill_score_def fun_eq_iff)

lemma context_cong:
  assumes "t_id t = t_id u" "t_project_id t = t_project_id u" "t_title t = t_title u"
    "t_description t = t_description u" "t_analysis t = t_analysis u"
  shows "MaterializeCLIContext env t agent stepID = MaterializeCLIContext env u agent stepID"
proof -
  have "resolveSkills all agent t stepID = resolveSkills all agent u stepID" for all
    using skill_score_cong [OF assms(3-5)] by (simp add: resolveSkills_def)
  moreover have "learnedSkillsText env t = learnedSkillsText env u" using assms by (simp add: learnedSkillsText_def)
  moreover have "place_manifest env t stepID n r fs = place_manifest env u stepID n r fs" for n r fs
    using assms by (simp add: place_manifest_def)
  ultimately show ?thesis unfolding MaterializeCLIContext_def assms by (simp only:)
qed

end
