(* ===== verification/Role_Worktrees.thy ===== *)
theory Role_Worktrees
  imports Workspaces Merge_Step
begin

text \<open>
  The branches and worktrees of the two parallel tracks, and the git checkpoints of a step
  (\<^verbatim>\<open>orchestrator/repoutil/worktrees.go\<close>). Each operation builds a shell script and has the sandbox run
  it; what the sandbox answers is a parameter that may depend on all the scripts run before. The state is
  the metadata on disk, which the search for a worktree may extend, and the list of the scripts run. That
  the sandbox looks the worktree up once more to change to it, and may note it in the metadata then, is
  not modelled.
\<close>

section \<open>Scripts\<close>

record git_agent =
  sa_id :: string
  sa_name :: string
  sa_role :: string

record sandbox_call =
  sc_step :: string
  sc_script :: string
  sc_suffix :: string

text \<open>A step of the sandbox fails, or answers with its output, which may be missing.\<close>

datatype sandbox_answer = SandboxFailed | SandboxDone "string option"

record git_env =
  ge_wk :: wk_env
  ge_container :: "string \<Rightarrow> string"
  ge_run :: "sandbox_call list \<Rightarrow> sandbox_call \<Rightarrow> sandbox_answer"
  ge_agent_name :: string
  ge_agent_email :: string
  ge_stamp :: "sandbox_call list \<Rightarrow> int"

type_synonym git_state = "wk_disk \<times> sandbox_call list"

definition run_script :: "git_env \<Rightarrow> string \<Rightarrow> string \<Rightarrow> string \<Rightarrow> git_state \<Rightarrow> sandbox_answer \<times> git_state" where
  "run_script env step script sfx s =
     (let c = \<lparr>sc_step = step, sc_script = script, sc_suffix = sfx\<rparr>
      in (ge_run env (snd s) c, (fst s, snd s @ [c])))"

abbreviation quoted :: "string \<Rightarrow> string" where "quoted \<equiv> QuoteShellArg"

definition git_in :: "string \<Rightarrow> string \<Rightarrow> string" where
  "git_in p rest = ''git -C '' @ p @ '' '' @ rest"

definition ensure_branch :: "string \<Rightarrow> string \<Rightarrow> string \<Rightarrow> string" where
  "ensure_branch p b from =
     git_in p (''show-ref --verify --quiet refs/heads/'' @ b @ '' || '' @ git_in p (''branch '' @ b @ from)) @ NL"

definition role_branches_script :: "bool \<Rightarrow> string \<Rightarrow> string \<Rightarrow> string \<Rightarrow> string \<Rightarrow> string" where
  "role_branches_script skipFE p i be fe =
     NL @ ''set -e'' @ NL @ ensure_branch p i '''' @ ensure_branch p be ('' '' @ i) @
     (if skipFE then '''' else ensure_branch p fe ('' '' @ i))"

definition worktree_script :: "string \<Rightarrow> string \<Rightarrow> string \<Rightarrow> string \<Rightarrow> string" where
  \<open>worktree_script wt p b i =
     NL @ ''set -e'' @ NL @ ''exec 9> '' @ p @ ''/.git/worktree_setup.lock'' @ NL @ ''flock -w 60 9'' @ NL @
     ensure_branch p i '''' @ ensure_branch p b ('' '' @ i) @
     ''if [ -d '' @ wt @ '' ] && grep -q '^gitdir:' '' @ wt @ ''/.git 2>/dev/null; then'' @ NL @
     tab # ''echo 'worktree valid'' @ quote @ NL @ ''else'' @ NL @
     tab # ''rm -r -f '' @ wt @ NL @
     tab # git_in p ''worktree prune'' @ NL @
     tab # git_in p (''worktree add '' @ wt @ '' '' @ b) @ NL @
     ''fi'' @ NL @ ''flock -u 9'' @ NL\<close>

definition git_identity_script :: "git_env \<Rightarrow> string \<Rightarrow> git_agent option \<Rightarrow> string" where
  "git_identity_script env p agent =
     (let name = (case agent of Some a \<Rightarrow> if sa_name a \<noteq> '''' then sa_name a else ge_agent_name env
                              | None \<Rightarrow> ge_agent_name env);
          email = (case agent of Some a \<Rightarrow> if sa_id a \<noteq> '''' then sa_id a @ ''@autocode.os'' else ge_agent_email env
                               | None \<Rightarrow> ge_agent_email env)
      in git_in (quoted p) (''config user.name '' @ quoted name) @ NL @
         git_in (quoted p) (''config user.email '' @ quoted email))"

definition commit_script :: "string \<Rightarrow> string \<Rightarrow> string \<Rightarrow> string" where
  \<open>commit_script wt msg identity =
     ''set -e'' @ NL @ identity @ NL @
     ''if [ -n "$('' @ git_in wt ''status --porcelain)" ]; then'' @ NL @
     ''    '' @ git_in wt ''add .'' @ NL @
     ''    '' @ git_in wt (''commit -m '' @ msg) @ NL @ ''fi''\<close>

definition reset_script :: "string \<Rightarrow> string" where
  "reset_script wt = ''set -e'' @ NL @ git_in wt ''reset --hard HEAD'' @ NL @ git_in wt ''clean -fd''"

definition validate_script :: "string \<Rightarrow> string \<Rightarrow> string \<Rightarrow> string \<Rightarrow> string" where
  \<open>validate_script wt p b i =
     ''set -e'' @ NL @
     ''if [ ! -d '' @ wt @ '' ] || ! grep -q '^gitdir:' '' @ wt @ ''/.git 2>/dev/null; then'' @ NL @
     ''  echo "WORKTREE_INVALID"'' @ NL @ ''  rm -r -f '' @ wt @ NL @
     ''  '' @ git_in p ''worktree prune'' @ NL @
     ''  '' @ ensure_branch p b ('' '' @ i) @
     ''  '' @ git_in p (''worktree add '' @ wt @ '' '' @ b) @ NL @
     ''  echo "WORKTREE_RECREATED"'' @ NL @ ''else'' @ NL @ ''  echo "WORKTREE_VALID"'' @ NL @ ''fi''\<close>

definition checkpoint_script :: "string \<Rightarrow> string \<Rightarrow> string \<Rightarrow> string" where
  \<open>checkpoint_script wt msg identity =
     ''set -e'' @ NL @ ''if [ ! -d '' @ wt @ '' ]; then'' @ NL @
     ''  echo "checkpoint aborted: worktree directory '' @ wt @ '' does not exist" >&2'' @ NL @
     ''  exit 1'' @ NL @ ''fi'' @ NL @ identity @ NL @
     git_in wt ''add -A'' @ NL @
     ''staged_count=$('' @ git_in wt ''diff --cached --name-only | wc -l | tr -d ' ')'' @ NL @
     git_in wt (''commit -q -m '' @ msg @ '' --allow-empty'') @ NL @
     ''echo "STAGED_COUNT=$staged_count"'' @ NL @ git_in wt ''rev-parse HEAD''\<close>

definition restore_script ::
  "string \<Rightarrow> string \<Rightarrow> string \<Rightarrow> string \<Rightarrow> string \<Rightarrow> string \<Rightarrow> string \<Rightarrow> string" where
  \<open>restore_script wt h rescue identity b p sfx =
     ''set -e'' @ NL @ identity @ NL @
     ''if [ -n "'' @ sfx @ ''" ]; then'' @ NL @
     ''  if [ ! -d '' @ wt @ '' ] || ! grep -q '^gitdir:' '' @ wt @ ''/.git 2>/dev/null; then'' @ NL @
     ''    echo "Recreating missing or invalid worktree directory..."'' @ NL @
     ''    rm -r -f '' @ wt @ NL @ ''    roleBranch='' @ b @ NL @
     ''    '' @ git_in p ''worktree prune'' @ NL @
     ''    '' @ ensure_branch p ''$roleBranch'' ('' '' @ h) @
     ''    '' @ git_in p (''worktree add '' @ wt @ '' $roleBranch'') @ NL @
     ''  fi'' @ NL @ ''fi'' @ NL @ NL @
     ''if '' @ git_in wt (''merge-base --is-ancestor '' @ h @ '' HEAD 2>/dev/null; then'') @ NL @
     ''  echo "SKIP_RESTORE: worktree already at or ahead of checkpoint '' @ h @ ''"'' @ NL @ ''else'' @ NL @
     ''  if [ -n "$('' @ git_in wt ''status --porcelain)" ]; then'' @ NL @
     ''    '' @ git_in wt ''add -A'' @ NL @
     ''    '' @ git_in wt ''commit -m "AutoCodeOS: rescue snapshot before checkpoint restore" -q --allow-empty'' @ NL @
     ''    '' @ git_in wt (''branch '' @ rescue) @ NL @
     ''    '' @ git_in wt ''reset --hard HEAD~1'' @ NL @ ''  fi'' @ NL @
     ''  roleBranch='' @ b @ NL @
     ''  '' @ git_in wt ''checkout $roleBranch'' @ NL @
     ''  '' @ git_in wt (''reset --hard '' @ h) @ NL @
     ''  '' @ git_in wt ''clean -fd'' @ NL @ ''fi''\<close>

section \<open>Branches and worktrees\<close>

text \<open>Where a repository and its worktree lie, on the host and in the container.\<close>

definition place ::
  "git_env \<Rightarrow> task \<Rightarrow> task_workspace option \<Rightarrow> string \<Rightarrow> git_repo \<Rightarrow> git_state \<Rightarrow> (string \<times> string) \<times> git_state" where
  "place env t ws sfx r s =
     (let local = RepoHostPath (ge_wk env) t ws r
      in case HostWorktreePath (ge_wk env) t local sfx (fst s) of
           (wt, d) \<Rightarrow> ((ge_container env wt, ge_container env local), (d, snd s)))"

text \<open>An error of a script is only logged.\<close>

fun SetupRoleBranches ::
  "git_env \<Rightarrow> task \<Rightarrow> task_workspace option \<Rightarrow> bool \<Rightarrow> git_repo list \<Rightarrow> git_state \<Rightarrow> git_state" where
  "SetupRoleBranches env t ws skipFE [] s = s"
| "SetupRoleBranches env t ws skipFE (r # rs) s =
     SetupRoleBranches env t ws skipFE rs
       (snd (run_script env ''create_role_branches''
          (role_branches_script skipFE (quoted (ge_container env (RepoHostPath (ge_wk env) t ws r)))
             (quoted (integration_branch t)) (quoted (role_branch t ''be'')) (quoted (role_branch t ''fe''))) '''' s))"

fun SetupRoleWorktrees ::
  "git_env \<Rightarrow> task \<Rightarrow> task_workspace option \<Rightarrow> string \<Rightarrow> string \<Rightarrow> string \<Rightarrow> git_repo list \<Rightarrow> git_state \<Rightarrow>
   string option \<times> git_state" where
  "SetupRoleWorktrees env t ws roleName label sfx [] s = (None, s)"
| "SetupRoleWorktrees env t ws roleName label sfx (r # rs) s =
     (case place env t ws sfx r s of
        ((wt, p), s1) \<Rightarrow>
          (case run_script env (''worktree_'' @ roleName)
                  (worktree_script (quoted wt) (quoted p) (quoted (role_branch t roleName)) (quoted (integration_branch t)))
                  '''' s1 of
             (SandboxFailed, s2) \<Rightarrow> (Some (''failed to setup '' @ label @ '' worktree for repo '' @ gr_url r), s2)
           | (SandboxDone out, s2) \<Rightarrow> SetupRoleWorktrees env t ws roleName label sfx rs s2))"

text \<open>The same script again until it succeeds, at most the given number of times.\<close>

fun try_script :: "nat \<Rightarrow> git_env \<Rightarrow> string \<Rightarrow> string \<Rightarrow> string \<Rightarrow> git_state \<Rightarrow> bool \<times> git_state" where
  "try_script 0 env step script sfx s = (False, s)"
| "try_script (Suc n) env step script sfx s =
     (case run_script env step script sfx s of
        (SandboxFailed, s1) \<Rightarrow> try_script n env step script sfx s1
      | (SandboxDone out, s1) \<Rightarrow> (True, s1))"

definition maxCommitAttempts :: nat where "maxCommitAttempts = 3"

fun CommitRoleWorktrees ::
  "git_env \<Rightarrow> task \<Rightarrow> git_agent option \<Rightarrow> task_workspace option \<Rightarrow> string \<Rightarrow> string \<Rightarrow> string \<Rightarrow> git_repo list \<Rightarrow>
   git_state \<Rightarrow> string option \<times> git_state" where
  "CommitRoleWorktrees env t agent ws roleName label sfx [] s = (None, s)"
| "CommitRoleWorktrees env t agent ws roleName label sfx (r # rs) s =
     (case place env t ws sfx r s of
        ((wt, p), s1) \<Rightarrow>
          (case try_script maxCommitAttempts env (''commit_'' @ roleName)
                  (commit_script (quoted wt) (quoted (''AutoCodeOS ['' @ label @ '']: '' @ t_title t))
                     (git_identity_script env wt agent)) sfx s1 of
             (False, s2) \<Rightarrow> (Some (''failed to commit changes for repo '' @ gr_url r @ '' after 3 attempts''), s2)
           | (True, s2) \<Rightarrow> CommitRoleWorktrees env t agent ws roleName label sfx rs s2))"

section \<open>Checkpoints\<close>

text \<open>\<^verbatim>\<open>strconv.Atoi\<close> in the range of 64 bits.\<close>

definition dec_value :: "string \<Rightarrow> int option" where
  "dec_value s =
     (if s \<noteq> '''' \<and> list_all (\<lambda>c. CHR ''0'' \<le> c \<and> c \<le> CHR ''9'') s
      then Some (fold (\<lambda>c n. 10 * n + int (of_char c) - 48) s 0) else None)"

definition atoi :: "string \<Rightarrow> int option" where
  "atoi s =
     (case (case s of
              CHR ''-'' # r \<Rightarrow> map_option uminus (dec_value r)
            | CHR ''+'' # r \<Rightarrow> dec_value r
            | _ \<Rightarrow> dec_value s) of
        Some n \<Rightarrow> if - 9223372036854775808 \<le> n \<and> n < 9223372036854775808 then Some n else None
      | None \<Rightarrow> None)"

record checkpoint_result =
  kr_hash :: string
  kr_staged :: int
  kr_empty :: bool

definition role_of_suffix :: "string \<Rightarrow> string" where
  "role_of_suffix sfx =
     (if sfx = ''-be-worktree'' then ''be'' else if sfx = ''-fe-worktree'' then ''fe'' else '''')"

definition staged_of :: "string \<Rightarrow> int" where
  "staged_of line =
     (case cut_prefix (trim_space line) ''STAGED_COUNT='' of
        None \<Rightarrow> 0
      | Some n \<Rightarrow> or_zero 0 (atoi n))"

text \<open>The last line of the output is the commit, and the line of the count is added up.\<close>

definition read_commit :: "string option \<Rightarrow> string \<times> int \<Rightarrow> string \<times> int" where
  "read_commit out acc =
     (case out of
        None \<Rightarrow> acc
      | Some text \<Rightarrow>
          (let lines = split_lines (trim_space text)
           in (trim_space (last lines), snd acc + sum_list (map staged_of lines))))"

text \<open>The check of the worktree is run first; what it answers is only logged.\<close>

definition validate_worktree ::
  "git_env \<Rightarrow> task \<Rightarrow> string \<Rightarrow> string \<Rightarrow> string \<Rightarrow> string \<Rightarrow> git_state \<Rightarrow> git_state" where
  "validate_worktree env t stepID sfx wt p s =
     (if sfx = '''' then s
      else snd (run_script env (''validate_worktree_'' @ stepID)
                  (validate_script (quoted wt) (quoted p) (quoted (role_branch t (role_of_suffix sfx)))
                     (quoted (integration_branch t))) sfx s))"

definition commit_call ::
  "git_env \<Rightarrow> git_agent option \<Rightarrow> string \<Rightarrow> string \<Rightarrow> string \<Rightarrow> git_state \<Rightarrow> sandbox_answer \<times> git_state" where
  "commit_call env agent stepID sfx wt s =
     run_script env (''checkpoint_'' @ stepID)
       (checkpoint_script (quoted wt) (quoted (''chore(auto-code-os): checkpoint '' @ stepID))
          (git_identity_script env wt agent)) sfx s"

fun checkpoint_repos ::
  "git_env \<Rightarrow> task \<Rightarrow> git_agent option \<Rightarrow> task_workspace option \<Rightarrow> string \<Rightarrow> string \<Rightarrow> git_repo list \<Rightarrow>
   string \<times> int \<Rightarrow> git_state \<Rightarrow> (string + string \<times> int) \<times> git_state" where
  "checkpoint_repos env t agent ws stepID sfx [] acc s = (Inr acc, s)"
| "checkpoint_repos env t agent ws stepID sfx (r # rs) acc s =
     (case place env t ws sfx r s of
        ((wt, p), s1) \<Rightarrow>
          (case commit_call env agent stepID sfx wt (validate_worktree env t stepID sfx wt p s1) of
             (SandboxFailed, s2) \<Rightarrow> (Inl (''failed to create checkpoint commit for repo '' @ gr_url r), s2)
           | (SandboxDone out, s2) \<Rightarrow> checkpoint_repos env t agent ws stepID sfx rs (read_commit out acc) s2))"

text \<open>\<^verbatim>\<open>GetTaskWorkspace\<close> knows the root of the workspace only: the repositories lie where their addresses say.\<close>

definition CreateGitCheckpoint ::
  "git_env \<Rightarrow> task \<Rightarrow> git_agent option \<Rightarrow> string \<Rightarrow> string \<Rightarrow> git_state \<Rightarrow> (string + checkpoint_result) \<times> git_state" where
  "CreateGitCheckpoint env t agent stepID sfx s =
     (case LoadTargetRepositories (ge_wk env) t of
        Inl _ \<Rightarrow> (Inl ''load repositories'', s)
      | Inr rs \<Rightarrow>
          (case checkpoint_repos env t agent (Some (GetTaskWorkspace (ge_wk env) t)) stepID sfx rs ('''', 0) s of
             (Inl e, s1) \<Rightarrow> (Inl e, s1)
           | (Inr (h, n), s1) \<Rightarrow> (Inr \<lparr>kr_hash = h, kr_staged = n, kr_empty = (n = 0)\<rparr>, s1)))"

definition restore_call ::
  "git_env \<Rightarrow> task \<Rightarrow> git_agent option \<Rightarrow> string \<Rightarrow> string \<Rightarrow> string \<Rightarrow> string \<Rightarrow> git_state \<Rightarrow> sandbox_answer \<times> git_state" where
  "restore_call env t agent h sfx wt p s =
     run_script env ''restore_checkpoint''
       (restore_script (quoted wt) (quoted h) (quoted (''rescue/'' @ t_id t @ ''-'' @ itoa (ge_stamp env (snd s))))
          (git_identity_script env wt agent) (quoted (role_branch t (role_of_suffix sfx))) (quoted p) sfx) sfx s"

fun restore_repos ::
  "git_env \<Rightarrow> task \<Rightarrow> git_agent option \<Rightarrow> task_workspace option \<Rightarrow> string \<Rightarrow> string \<Rightarrow> git_repo list \<Rightarrow> git_state \<Rightarrow>
   string option \<times> git_state" where
  "restore_repos env t agent ws h sfx [] s = (None, s)"
| "restore_repos env t agent ws h sfx (r # rs) s =
     (case place env t ws sfx r s of
        ((wt, p), s1) \<Rightarrow>
          (case restore_call env t agent h sfx wt p s1 of
             (SandboxFailed, s2) \<Rightarrow> (Some (''failed to restore checkpoint to '' @ h @ '' for repo '' @ gr_url r), s2)
           | (SandboxDone out, s2) \<Rightarrow> restore_repos env t agent ws h sfx rs s2))"

definition RestoreGitCheckpoint ::
  "git_env \<Rightarrow> task \<Rightarrow> git_agent option \<Rightarrow> string \<Rightarrow> string \<Rightarrow> git_state \<Rightarrow> string option \<times> git_state" where
  "RestoreGitCheckpoint env t agent h sfx s =
     (case LoadTargetRepositories (ge_wk env) t of
        Inl _ \<Rightarrow> (Some ''load repositories'', s)
      | Inr rs \<Rightarrow> restore_repos env t agent (Some (GetTaskWorkspace (ge_wk env) t)) h sfx rs s)"

fun reset_repos ::
  "git_env \<Rightarrow> task \<Rightarrow> task_workspace option \<Rightarrow> string \<Rightarrow> git_repo list \<Rightarrow> git_state \<Rightarrow> string option \<times> git_state" where
  "reset_repos env t ws sfx [] s = (None, s)"
| "reset_repos env t ws sfx (r # rs) s =
     (case place env t ws sfx r s of
        ((wt, p), s1) \<Rightarrow>
          (case run_script env ''reset_worktree'' (reset_script (quoted wt)) sfx s1 of
             (SandboxFailed, s2) \<Rightarrow> (Some (''failed to reset worktree for repo '' @ gr_url r), s2)
           | (SandboxDone out, s2) \<Rightarrow> reset_repos env t ws sfx rs s2))"

definition ResetRoleWorktrees :: "git_env \<Rightarrow> task \<Rightarrow> string \<Rightarrow> git_state \<Rightarrow> string option \<times> git_state" where
  "ResetRoleWorktrees env t sfx s =
     (case LoadTargetRepositories (ge_wk env) t of
        Inl _ \<Rightarrow> (Some ''load repositories'', s)
      | Inr rs \<Rightarrow> reset_repos env t (Some (GetTaskWorkspace (ge_wk env) t)) sfx rs s)"

section \<open>What was run\<close>

definition ran_ok :: "git_env \<Rightarrow> sandbox_call list \<Rightarrow> sandbox_call \<Rightarrow> bool" where
  "ran_ok env calls c \<longleftrightarrow> (\<exists>pre out. prefix (pre @ [c]) calls \<and> ge_run env pre c = SandboxDone out)"

lemma ran_ok_more: "ran_ok env calls c \<Longrightarrow> prefix calls calls' \<Longrightarrow> ran_ok env calls' c"
  by (auto simp: ran_ok_def intro: prefix_order.order_trans)

lemma run_script_calls:
  "run_script env step script sfx s = (x, s') \<Longrightarrow>
   fst s' = fst s \<and> snd s' = snd s @ [\<lparr>sc_step = step, sc_script = script, sc_suffix = sfx\<rparr>] \<and>
   x = ge_run env (snd s) \<lparr>sc_step = step, sc_script = script, sc_suffix = sfx\<rparr>"
  by (auto simp: run_script_def Let_def)

lemma place_calls: "place env t ws sfx r s = (p, s') \<Longrightarrow> snd s' = snd s"
  by (auto simp: place_def Let_def split: prod.splits)

text \<open>Where the worktree of a repository lies, as the disk knows it at some time.\<close>

definition worktree_of :: "git_env \<Rightarrow> task \<Rightarrow> task_workspace option \<Rightarrow> string \<Rightarrow> git_repo \<Rightarrow> wk_disk \<Rightarrow> string" where
  "worktree_of env t ws sfx r d =
     ge_container env (fst (HostWorktreePath (ge_wk env) t (RepoHostPath (ge_wk env) t ws r) sfx d))"

lemma place_worktree: "place env t ws sfx r s = ((wt, p), s') \<Longrightarrow> wt = worktree_of env t ws sfx r (fst s)"
  by (auto simp: place_def worktree_of_def Let_def split: prod.splits)

text \<open>At most the given number of tries, all of them the same script, and the last one succeeded.\<close>

lemma try_script_runs:
  "try_script n env step script sfx s = (ok, s') \<Longrightarrow>
   \<exists>k \<le> n. snd s' = snd s @ replicate k \<lparr>sc_step = step, sc_script = script, sc_suffix = sfx\<rparr> \<and>
     (ok \<longrightarrow> ran_ok env (snd s') \<lparr>sc_step = step, sc_script = script, sc_suffix = sfx\<rparr>)"
proof (induction n env step script sfx s arbitrary: ok s' rule: try_script.induct)
  case (2 n env step script sfx s)
  let ?c = "\<lparr>sc_step = step, sc_script = script, sc_suffix = sfx\<rparr>"
  obtain x s1 where r: "run_script env step script sfx s = (x, s1)" by (rule prod.exhaust)
  note r' = run_script_calls [OF r]
  show ?case
  proof (cases x)
    case SandboxFailed
    then have "try_script n env step script sfx s1 = (ok, s')" using "2.prems" r by simp
    from "2.IH" [OF r [symmetric, unfolded SandboxFailed] refl this] obtain k where
      "k \<le> n" "snd s' = snd s1 @ replicate k ?c" "ok \<longrightarrow> ran_ok env (snd s') ?c" by blast
    then show ?thesis using r' by (intro exI [of _ "Suc k"]) simp
  next
    case (SandboxDone out)
    then have "s' = s1" using "2.prems" r by simp
    moreover have "ran_ok env (snd s1) ?c"
      unfolding ran_ok_def by (intro exI [of _ "snd s"] exI [of _ out]) (use r' SandboxDone in simp)
    ultimately show ?thesis using r' by (intro exI [of _ 1]) simp
  qed
qed simp

definition commit_of :: "git_env \<Rightarrow> task \<Rightarrow> git_agent option \<Rightarrow> string \<Rightarrow> string \<Rightarrow> string \<Rightarrow> string \<Rightarrow> sandbox_call" where
  "commit_of env t agent roleName label sfx wt =
     \<lparr>sc_step = ''commit_'' @ roleName,
      sc_script = commit_script (quoted wt) (quoted (''AutoCodeOS ['' @ label @ '']: '' @ t_title t))
                    (git_identity_script env wt agent), sc_suffix = sfx\<rparr>"

lemma CommitRoleWorktrees_calls:
  "CommitRoleWorktrees env t agent ws roleName label sfx rs s = (e, s') \<Longrightarrow>
   prefix (snd s) (snd s') \<and> length (snd s') \<le> length (snd s) + 3 * length rs \<and>
   (e = None \<longrightarrow> (\<forall>r \<in> set rs. \<exists>d. ran_ok env (snd s') (commit_of env t agent roleName label sfx (worktree_of env t ws sfx r d))))"
proof (induction rs arbitrary: s)
  case (Cons r rs)
  obtain wt p s1 where pl: "place env t ws sfx r s = ((wt, p), s1)" by (metis surj_pair)
  let ?c = "commit_of env t agent roleName label sfx wt"
  obtain ok s2 where tr: "try_script maxCommitAttempts env (sc_step ?c) (sc_script ?c) sfx s1 = (ok, s2)" by (rule prod.exhaust)
  from try_script_runs [OF this] obtain k where k: "k \<le> 3" "snd s2 = snd s @ replicate k ?c" "ok \<longrightarrow> ran_ok env (snd s2) ?c"
    using place_calls [OF pl] by (auto simp: commit_of_def maxCommitAttempts_def)
  show ?case
  proof (cases ok)
    case True
    with Cons.prems pl tr have rest: "CommitRoleWorktrees env t agent ws roleName label sfx rs s2 = (e, s')"
      by (simp add: commit_of_def)
    from Cons.IH [OF rest] have p2: "prefix (snd s2) (snd s')" by simp
    moreover have "prefix (snd s) (snd s2)" using k(2) by simp
    ultimately have "prefix (snd s) (snd s')" by (metis prefix_order.order_trans)
    moreover have "ran_ok env (snd s') (commit_of env t agent roleName label sfx (worktree_of env t ws sfx r (fst s)))"
      using ran_ok_more [OF _ p2] k(3) True place_worktree [OF pl] by simp
    ultimately show ?thesis using Cons.IH [OF rest] k(1,2) by auto
  next
    case False
    with Cons.prems pl tr have "e \<noteq> None" "s' = s2" by (auto simp: commit_of_def)
    then show ?thesis using k by auto
  qed
qed simp

text \<open>
  The worktrees of the repositories one after the other: looking for one may extend the metadata that the
  next search reads.
\<close>

fun worktrees_from ::
  "git_env \<Rightarrow> task \<Rightarrow> task_workspace option \<Rightarrow> string \<Rightarrow> git_repo list \<Rightarrow> wk_disk \<Rightarrow> string list" where
  "worktrees_from env t ws sfx [] d = []"
| "worktrees_from env t ws sfx (r # rs) d =
     (case HostWorktreePath (ge_wk env) t (RepoHostPath (ge_wk env) t ws r) sfx d of
        (wt, d') \<Rightarrow> ge_container env wt # worktrees_from env t ws sfx rs d')"

lemma length_worktrees_from [simp]: "length (worktrees_from env t ws sfx rs d) = length rs"
  by (induction rs arbitrary: d) (simp_all split: prod.split)

lemma try_script_disk: "try_script n env step script sfx s = (ok, s') \<Longrightarrow> fst s' = fst s"
  by (induction n env step script sfx s rule: try_script.induct)
     (auto simp: run_script_def Let_def split: sandbox_answer.splits)

lemma CommitRoleWorktrees_commits:
  "CommitRoleWorktrees env t agent ws roleName label sfx rs s = (None, s') \<Longrightarrow>
   list_all (\<lambda>wt. ran_ok env (snd s') (commit_of env t agent roleName label sfx wt))
     (worktrees_from env t ws sfx rs (fst s))"
proof (induction rs arbitrary: s)
  case (Cons r rs)
  obtain wt d' where h: "HostWorktreePath (ge_wk env) t (RepoHostPath (ge_wk env) t ws r) sfx (fst s) = (wt, d')"
    by (rule prod.exhaust)
  let ?c = "commit_of env t agent roleName label sfx (ge_container env wt)"
  obtain ok s2 where tr: "try_script maxCommitAttempts env (sc_step ?c) (sc_script ?c) sfx (d', snd s) = (ok, s2)"
    by (rule prod.exhaust)
  have ok: "ok" and rest: "CommitRoleWorktrees env t agent ws roleName label sfx rs s2 = (None, s')"
    using Cons.prems h tr by (auto simp: place_def commit_of_def Let_def split: bool.splits)
  have "ran_ok env (snd s2) ?c" using try_script_runs [OF tr] ok by (auto simp: commit_of_def)
  moreover have "prefix (snd s2) (snd s')" using CommitRoleWorktrees_calls [OF rest] by blast
  ultimately have "ran_ok env (snd s') ?c" by (rule ran_ok_more)
  moreover have "fst s2 = d'" using try_script_disk [OF tr] by simp
  ultimately show ?case using Cons.IH [OF rest] h by simp
qed simp

section \<open>Several repositories\<close>

text \<open>
  The checkpoint of a step over several repositories names one commit, that of the last repository; the
  restoration then asks for this commit in every repository.
\<close>

definition answers_with :: "git_env \<Rightarrow> git_agent option \<Rightarrow> string \<Rightarrow> string \<Rightarrow> string \<Rightarrow> string \<Rightarrow> bool" where
  "answers_with env agent stepID sfx wt h \<longleftrightarrow>
     (\<exists>s out s'. commit_call env agent stepID sfx wt s = (SandboxDone (Some out), s') \<and>
        h = trim_space (last (split_lines (trim_space out))))"

lemma commit_call_answer: "commit_call env agent stepID sfx wt s = (x, s') \<Longrightarrow> \<exists>calls c. x = ge_run env calls c"
  by (auto simp: commit_call_def run_script_def Let_def)

lemma checkpoint_repos_last:
  assumes "\<And>calls c. ge_run env calls c \<noteq> SandboxDone None"
  shows "checkpoint_repos env t agent ws stepID sfx (rs @ [r]) acc s = (Inr (h, n), s') \<Longrightarrow>
    \<exists>d. answers_with env agent stepID sfx (worktree_of env t ws sfx r d) h"
proof (induction rs arbitrary: acc s)
  case Nil
  obtain wt p s1 where pl: "place env t ws sfx r s = ((wt, p), s1)" by (metis surj_pair)
  obtain x s2 where c: "commit_call env agent stepID sfx wt (validate_worktree env t stepID sfx wt p s1) = (x, s2)"
    by (rule prod.exhaust)
  have "x \<noteq> SandboxDone None" using commit_call_answer [OF c] assms by metis
  with Nil pl c obtain out where x: "x = SandboxDone (Some out)" and h: "h = trim_space (last (split_lines (trim_space out)))"
    by (cases x) (auto simp: read_commit_def Let_def split: option.splits)
  from c have "answers_with env agent stepID sfx wt h" unfolding x h answers_with_def by blast
  then show ?case using place_worktree [OF pl] by blast
next
  case (Cons a rs)
  obtain wt p s1 where pl: "place env t ws sfx a s = ((wt, p), s1)" by (metis surj_pair)
  obtain x s2 where c: "commit_call env agent stepID sfx wt (validate_worktree env t stepID sfx wt p s1) = (x, s2)"
    by (rule prod.exhaust)
  with Cons.prems pl obtain out where
    "checkpoint_repos env t agent ws stepID sfx (rs @ [r]) (read_commit out acc) s2 = (Inr (h, n), s')"
    by (cases x) auto
  then show ?case by (rule Cons.IH)
qed

lemma checkpoint_names_last_repository:
  assumes "CreateGitCheckpoint env t agent stepID sfx s = (Inr k, s')"
    and "LoadTargetRepositories (ge_wk env) t = Inr (rs @ [r])" and "\<And>calls c. ge_run env calls c \<noteq> SandboxDone None"
  shows "\<exists>d. answers_with env agent stepID sfx
    (worktree_of env t (Some (GetTaskWorkspace (ge_wk env) t)) sfx r d) (kr_hash k)"
proof -
  obtain x s1 where c: "checkpoint_repos env t agent (Some (GetTaskWorkspace (ge_wk env) t)) stepID sfx (rs @ [r])
      ('''', 0) s = (x, s1)" by (rule prod.exhaust)
  with assms(1,2) obtain h n where x: "x = Inr (h, n)" and "kr_hash k = h"
    by (cases x) (auto simp: CreateGitCheckpoint_def)
  then show ?thesis using checkpoint_repos_last [OF assms(3) c [unfolded x]] by simp
qed

text \<open>No repository, and no worktree of one, contains the path.\<close>

definition outside_repos :: "wk_env \<Rightarrow> task \<Rightarrow> task_workspace \<Rightarrow> string \<Rightarrow> bool" where
  "outside_repos env t ws p \<longleftrightarrow>
     list_all (\<lambda>w. \<not> same_tree (path_join [tw_root ws, rw_main w]) p \<and>
       list_all (\<lambda>rel. \<not> same_tree (path_join [tw_root ws, rel]) p) (map snd (rw_worktrees w)) \<and>
       \<not> same_tree (dir_path (RepoRoot (ke_base env) (WorkspaceOwnerID t) (rw_name w))) p) (tw_repos ws)"

text \<open>
  C13: over several repositories the tracks have no worktrees of their own to work in: the harness of
  either track runs in the directory of the whole workspace, beside the other's.
\<close>

theorem tracks_share_directory:
  assumes "t_repository_id t = None" and "LoadTaskWorkspace env t d = (Inr ws, d)"
    and "1 < length (filter (\<lambda>w. rw_main w \<noteq> '''') (tw_repos ws))"
    and "outside_repos env t ws
           (or_zero (path_join [ke_base env, WorkspaceOwnerID t]) (path_abs (ke_cwd env) (path_join [ke_base env, WorkspaceOwnerID t])))"
  shows "\<exists>p. GetTaskRepoHostPath env t d = (Inr p, d) \<and>
    HostWorktreePath env t p ''-be-worktree'' d = (p, d) \<and> HostWorktreePath env t p ''-fe-worktree'' d = (p, d)"
proof -
  let ?p = "path_join [ke_base env, WorkspaceOwnerID t]"
  have "GetTaskRepoHostPath env t d = (Inr ?p, d)"
    using assms(1-3) by (auto simp: GetTaskRepoHostPath_def Let_def split: list.splits)
  moreover have "fst (FindRepoWorkspaceByPath env t ?p d) = Inl (NoRepoAtPath ?p)"
  proof -
    let ?abs = "or_zero ?p (path_abs (ke_cwd env) ?p)"
    have "find (\<lambda>w. same_tree (path_join [tw_root ws, rw_main w]) ?abs \<or>
        list_ex (\<lambda>rel. same_tree (path_join [tw_root ws, rel]) ?abs) (map snd (rw_worktrees w)) \<or>
        same_tree (dir_path (RepoRoot (ke_base env) (WorkspaceOwnerID t) (rw_name w))) ?abs) (tw_repos ws) = None"
      using assms(4) unfolding find_None_iff outside_repos_def list_all_iff list_ex_iff by blast
    moreover have "length (tw_repos ws) > 1" using assms(3) length_filter_le less_le_trans by blast
    then have "(case tw_repos ws of [w] \<Rightarrow> Inr (ws, w) | _ \<Rightarrow> Inl (NoRepoAtPath ?p)) = Inl (NoRepoAtPath ?p)"
      by (auto split: list.splits)
    ultimately show ?thesis using assms(2) by (simp add: FindRepoWorkspaceByPath_def Let_def)
  qed
  moreover have "snd (FindRepoWorkspaceByPath env t ?p d) = d"
    using assms(2) by (simp add: FindRepoWorkspaceByPath_def Let_def)
  ultimately have "FindRepoWorkspaceByPath env t ?p d = (Inl (NoRepoAtPath ?p), d)" by (metis prod.collapse)
  then have "HostWorktreePath env t ?p sfx d = (?p, d)" for sfx
    using assms(1) by (simp add: HostWorktreePath_def Let_def)
  with \<open>GetTaskRepoHostPath env t d = (Inr ?p, d)\<close> show ?thesis by blast
qed

end
