(* ===== verification/CLI_Steps.thy ===== *)
theory CLI_Steps
  imports CLI_Context Role_Worktrees Cross_Review Agents Policy Workflow_Parser
begin

text \<open>
  The first steps of the CLI pipelines: analysis, specification, implementation and its two parallel
  tracks, and the pause in which a person is asked (\<^verbatim>\<open>orchestrator/steps/cli_analyze.go\<close>,
  \<^verbatim>\<open>cli_spec.go\<close>, \<^verbatim>\<open>cli_clarification.go\<close>, \<^verbatim>\<open>cli_implement.go\<close>, \<^verbatim>\<open>cli_implement_track.go\<close>,
  \<^verbatim>\<open>sandbox.go\<close>). The harness is run by the runner of \<open>CLI_Runner\<close>; the files of the checkout are read
  as they are before and after that run, both arguments. The analysis column is one text that is read in
  two ways: as the analysis of a task, and as the report of the analysis step, which is kept beside the
  task.
\<close>

section \<open>Surroundings\<close>

record analysis_report =
  ar_markdown :: string
  ar_tech_stack :: string
  ar_files :: "string list"
  ar_risks :: "string list"

record step_env =
  se_cli :: cli_env
  se_ctx :: context_env
  se_git :: git_env
  se_dir :: agent_dir
  se_names :: "string \<Rightarrow> string"
  se_agent :: "git_agent option"
  se_job :: string
  se_session :: "string option"
  se_files :: "bool \<Rightarrow> string \<Rightarrow> string option"
  se_yaml_type :: "string \<Rightarrow> string option"
  se_err :: "cli_error \<Rightarrow> string"

record step_world =
  sw_cli :: cli_state
  sw_task :: task
  sw_report :: "analysis_report option"
  sw_git :: git_state

type_synonym step_outcome = "(step_error + gomap) \<times> step_world"

abbreviation sw_orch :: "step_world \<Rightarrow> orch_state" where "sw_orch w \<equiv> ls_orch (sw_cli w)"

definition with_orch :: "orch_state \<Rightarrow> step_world \<Rightarrow> step_world" where
  "with_orch st w = w\<lparr>sw_cli := (sw_cli w)\<lparr>ls_orch := st\<rparr>\<rparr>"

text \<open>The steps write to the row of the task themselves; the object in memory follows when they say so.\<close>

definition update_row :: "update_task_input \<Rightarrow> step_world \<Rightarrow> repo_error option \<times> step_world" where
  "update_row u w = (case write_task (sw_orch w) (t_id (sw_task w)) u of (e, st) \<Rightarrow> (e, with_orch st w))"

definition step_log :: "step_env \<Rightarrow> step_world \<Rightarrow> step_world" where
  "step_log env w = w\<lparr>sw_cli := cli_log (se_cli env) (t_id (sw_task w)) (sw_cli w)\<rparr>"

definition start_analyzing :: "step_world \<Rightarrow> step_world" where
  "start_analyzing w =
     (if t_status (sw_task w) \<in> {TaskStatusContextLoading, TaskStatusTodo, ''''}
      then (case update_row (no_update\<lparr>ui_status := Some TaskStatusAnalyzing\<rparr>) w of
              (Some e, w1) \<Rightarrow> w1
            | (None, w1) \<Rightarrow> w1\<lparr>sw_task := (sw_task w)\<lparr>t_status := TaskStatusAnalyzing\<rparr>\<rparr>)
      else w)"

definition TaskSpecSlug :: "task \<Rightarrow> string" where
  "TaskSpecSlug t = DeriveTaskSlug (t_id t) (t_title t)"

definition ResolveHostWorktreeRoot :: "step_env \<Rightarrow> string \<Rightarrow> step_world \<Rightarrow> (wk_error + string) \<times> step_world" where
  "ResolveHostWorktreeRoot env sfx w =
     (let wk = ge_wk (se_git env); t = sw_task w
      in case GetTaskRepoHostPath wk t (fst (sw_git w)) of
           (Inl e, d) \<Rightarrow> (Inl e, w\<lparr>sw_git := (d, snd (sw_git w))\<rparr>)
         | (Inr p, d) \<Rightarrow>
             (case HostWorktreePath wk t p sfx d of
                (rootp, d') \<Rightarrow> (Inr rootp, w\<lparr>sw_git := (d', snd (sw_git w))\<rparr>)))"

section \<open>Asking a person\<close>

definition lastNonEmptyLine :: "string \<Rightarrow> string" where
  "lastNonEmptyLine s =
     (case filter (\<lambda>l. l \<noteq> '''') (map trim_space (split_lines s)) of [] \<Rightarrow> '''' | ls \<Rightarrow> last ls)"

definition add_round :: "int \<Rightarrow> string \<Rightarrow> string \<Rightarrow> task \<Rightarrow> clarification_round list" where
  "add_round now output response t =
     (let rounds = prior_rounds t
      in rounds @ [\<lparr>cr_round = int (length rounds) + 1, cr_timestamp = now,
                    cr_questions = [lastNonEmptyLine output], cr_response = response\<rparr>])"

definition pauseForClarification :: "step_env \<Rightarrow> string \<Rightarrow> string \<Rightarrow> step_world \<Rightarrow> step_outcome" where
  "pauseForClarification env stepID output w =
     (let u = no_update\<lparr>ui_clarifications := Some (Json (add_round (oe_now (le_orch (se_cli env))) output '''' (sw_task w))),
                        ui_spec_status := Some TaskSpecStatusClarificationRequired,
                        ui_paused_step := Some stepID\<rparr>
      in case update_row u w of
           (Some e, w1) \<Rightarrow> (Inl (StepFailed (stepID @ '': persist clarification'')), w1)
         | (None, w1) \<Rightarrow>
             (Inl (PauseError stepID ''workflow paused for human task clarification (cli)''),
              w1\<lparr>sw_task := apply_update u (sw_task w)\<rparr>))"

section \<open>Running the harness\<close>

definition dash :: string where "dash = [CHR 0xE2, CHR 0x80, CHR 0x94]"

definition cliPlatformContextPointer :: string where
  "cliPlatformContextPointer =
     ''## Platform Context'' @ NL @ NL @
     ''Platform context has been materialized for this task at `$AUTOCODE_CONTEXT_DIR`. Inspect `manifest.json` '' @
     ''and `README.md` there, then read whatever is relevant before starting. Nothing there is mandatory '' @ dash @
     '' use your judgment.''"

definition cliWorkingDirNotice :: string where
  "cliWorkingDirNotice =
     ''## Working Directory'' @ NL @ NL @
     ''Your current working directory is already the root of the target repository. Always write file paths '' @
     ''relative to this directory (e.g. `src/main.py`, `README.md`) '' @ dash @
     '' never re-prefix paths with your working directory's own absolute path (e.g. anything resembling '' @
     ''`code/repos/<name>/...`), even if you observe that prefix while exploring your environment.''"

definition task_text :: "string \<Rightarrow> task \<Rightarrow> string list \<Rightarrow> string" where
  "task_text base t rest =
     join (NL @ NL) ([base, ''## Task'', ''### '' @ t_title t, t_description t] @ rest) @ NL"

text \<open>What the harness is given: the instruction with its notices, and the context files.\<close>

definition step_input :: "step_env \<Rightarrow> git_agent option \<Rightarrow> string \<Rightarrow> string \<Rightarrow> task \<Rightarrow> string \<times> (string \<times> string) list" where
  "step_input env agent stepID instruction t =
     (let files = MaterializeCLIContext (se_ctx env) t (map_option sa_role agent) stepID
      in (instruction @ NL @ cliWorkingDirNotice @ NL @
          (if files \<noteq> [] then NL @ cliPlatformContextPointer @ NL else ''''), files))"

definition run_step ::
  "step_env \<Rightarrow> git_agent option \<Rightarrow> string \<Rightarrow> string \<Rightarrow> string list \<Rightarrow> string \<Rightarrow> step_world \<Rightarrow>
   (step_error + cli_step_output) \<times> step_world" where
  "run_step env agent stepID instruction capture sfx w =
     (case step_input env agent stepID instruction (sw_task w) of
        (text, files) \<Rightarrow>
          (case RunCLIStep (se_cli env) (sw_task w) (se_job env) stepID text capture files sfx (se_session env) (sw_cli w) of
             (Inl e, s) \<Rightarrow> (Inl (StepFailed (stepID @ '': '' @ se_err env e)), w\<lparr>sw_cli := s\<rparr>)
           | (Inr out, s) \<Rightarrow> (Inr out, w\<lparr>sw_cli := s\<rparr>)))"

section \<open>Analysis\<close>

definition extractMDSection :: "string \<Rightarrow> string \<Rightarrow> string" where
  "extractMDSection md heading =
     (let marker = ''## '' @ heading
      in case index_of md marker of
           None \<Rightarrow> ''''
         | Some i \<Rightarrow>
             (let rest = drop (i + length marker) md
              in trim_space (case index_of rest (NL @ ''## '') of None \<Rightarrow> rest | Some j \<Rightarrow> take j rest)))"

definition extractMDListItems :: "string \<Rightarrow> string \<Rightarrow> string list" where
  "extractMDListItems md heading =
     (let sec = extractMDSection md heading
      in if sec = '''' then []
         else filter (\<lambda>l. l \<noteq> '''')
                (map (\<lambda>l. trim_prefix (trim_prefix (trim_space l) ''- '') ''* '') (split_lines sec)))"

definition read_report :: "string \<Rightarrow> analysis_report" where
  "read_report raw =
     \<lparr>ar_markdown = raw, ar_tech_stack = extractMDSection raw ''Tech Stack'',
      ar_files = extractMDListItems raw ''Affected Files'', ar_risks = extractMDListItems raw ''Risks''\<rparr>"

text \<open>Of the fields of a report only the risks are fields of an analysis too.\<close>

definition report_json :: "analysis_report \<Rightarrow> task_analysis raw_json" where
  "report_json r = Json (zero_analysis\<lparr>an_risks := ar_risks r\<rparr>)"

definition cliAnalysisCapturePath :: string where
  "cliAnalysisCapturePath = ''.autocode/analysis.md''"

definition save_analysis :: "analysis_report \<Rightarrow> step_world \<Rightarrow> step_outcome" where
  "save_analysis r w =
     (let u = no_update\<lparr>ui_analysis := Some (report_json r)\<rparr>
      in case update_row u w of
           (Some e, w1) \<Rightarrow> (Inl (StepFailed ''cli_analyze: save analysis''), w1)
         | (None, w1) \<Rightarrow>
             (Inr [(''status'', VString ''success'')],
              w1\<lparr>sw_task := apply_update u (sw_task w), sw_report := Some r\<rparr>))"

definition analyze_Execute :: "step_env \<Rightarrow> step_world \<Rightarrow> step_outcome" where
  "analyze_Execute env w0 =
     (let w = start_analyzing w0
      in case LoadStepPrompt (xc_step_prompts (se_ctx env)) StepCLIAnalyze of
           None \<Rightarrow> (Inl (StepFailed ''cli_analyze: load prompt''), w)
         | Some base \<Rightarrow>
             (case run_step env (se_agent env) StepCLIAnalyze (task_text base (sw_task w) [])
                     [cliAnalysisCapturePath] '''' w of
                (Inl e, w1) \<Rightarrow> (Inl e, w1)
              | (Inr out, w1) \<Rightarrow>
                  (if co_awaiting out then pauseForClarification env StepCLIAnalyze (co_output out) w1
                   else (let raw = or_zero '''' (map_of (co_files out) cliAnalysisCapturePath)
                         in if trim_space raw = ''''
                            then (Inl (StepFailed (''cli_analyze: expected '' @ cliAnalysisCapturePath @
                                    '' to be written by the CLI agent, but it was missing or empty'')), w1)
                            else save_analysis (read_report raw) w1))))"

section \<open>Specification\<close>

definition cliSpecRequiredFiles :: "string list" where
  "cliSpecRequiredFiles = [''proposal.md'', ''specs.md'', ''design.md'', ''tasks.md'']"

definition spec_dir_of :: "string \<Rightarrow> string \<Rightarrow> string" where
  "spec_dir_of rootp slug = path_join [rootp, ''docs'', ''openspecs'', slug]"

definition missing_files :: "(string \<Rightarrow> string option) \<Rightarrow> string \<Rightarrow> string list" where
  "missing_files files specDir = filter (\<lambda>n. files (path_join [specDir, n]) = None) cliSpecRequiredFiles"

definition validateSpecFiles :: "(string \<Rightarrow> string option) \<Rightarrow> string \<Rightarrow> string \<Rightarrow> string + nat" where
  "validateSpecFiles files specDir slug =
     (if missing_files files specDir \<noteq> []
      then Inl (''cli_spec: missing required spec file(s) in docs/openspecs/'' @ slug @ ''/: '' @
                join '', '' (sorted_names (missing_files files specDir)))
      else (let tot = snd (ParseCheckboxes (or_zero '''' (files (path_join [specDir, ''tasks.md'']))))
            in if tot = 0 then Inl ''cli_spec: tasks.md must contain at least one checkbox item'' else Inr tot))"

definition spec_result :: "string \<Rightarrow> nat \<Rightarrow> gomap" where
  "spec_result specDir tot =
     [(''status'', VString ''success''), (''spec_dir'', VString specDir), (''task_count'', VInt (int tot))]"

definition spec_instruction :: "string \<Rightarrow> task \<Rightarrow> analysis_report option \<Rightarrow> string" where
  "spec_instruction base t report =
     task_text base t [''## Task Slug'', TaskSpecSlug t, ''## Analysis (from the previous step)'',
                       (case report of None \<Rightarrow> '''' | Some r \<Rightarrow> ar_markdown r)] @
     (if t_spec_status t = TaskSpecStatusChangesRequested
      then NL @ ''## Reviewer feedback'' @ NL @ NL @ t_description t @ NL @ NL @
           ''Address this feedback and rewrite the 4 spec files accordingly.'' @ NL
      else '''')"

definition clarificationRoundCount :: "task \<Rightarrow> nat" where
  "clarificationRoundCount t =
     (case unmarshal [] (t_clarifications t) of (True, _) \<Rightarrow> 0 | (False, rounds) \<Rightarrow> length rounds)"

text \<open>The status is written to the row and to the object in memory, and the step succeeds.\<close>

definition finish_spec ::
  "string \<Rightarrow> update_task_input \<Rightarrow> string \<Rightarrow> nat \<Rightarrow> step_world \<Rightarrow> step_outcome" where
  "finish_spec err u specDir tot w =
     (case update_row u w of
        (Some e, w1) \<Rightarrow> (Inl (StepFailed err), w1)
      | (None, w1) \<Rightarrow> (Inr (spec_result specDir tot), w1\<lparr>sw_task := apply_update u (sw_task w)\<rparr>))"

definition recordReadyWithWarnings :: "step_env \<Rightarrow> string \<Rightarrow> nat \<Rightarrow> string \<Rightarrow> step_world \<Rightarrow> step_outcome" where
  "recordReadyWithWarnings env specDir tot output w =
     finish_spec ''cli_spec: persist ready-with-warnings''
       (no_update\<lparr>ui_clarifications := Some (Json (add_round (oe_now (le_orch (se_cli env))) output
                    ''bypassed: definition-of-ready gate exhausted, proceeding with warnings'' (sw_task w))),
                  ui_spec_status := Some TaskSpecStatusReadyWithWarnings\<rparr>)
       specDir tot w"

definition spec_project :: "step_world \<Rightarrow> project option" where
  "spec_project w =
     (case get_project (os_db (sw_orch w)) (t_project_id (sw_task w)) of Inl _ \<Rightarrow> None | Inr p \<Rightarrow> Some p)"

definition review_pause :: "step_world \<Rightarrow> step_outcome" where
  "review_pause w =
     (let u = no_update\<lparr>ui_spec_status := Some TaskSpecStatusPendingReview, ui_status := Some TaskStatusSpecReview\<rparr>
      in case update_row u w of
           (Some e, w1) \<Rightarrow> (Inl (StepFailed ''cli_spec: persist pending review''), w1)
         | (None, w1) \<Rightarrow>
             (Inl (PauseError StepCLISpec ''workflow paused for human spec review''),
              w1\<lparr>sw_task := apply_update u (sw_task w)\<rparr>))"

text \<open>What is done with the output: a question, missing files, no review needed, or a review.\<close>

definition judge_spec :: "step_env \<Rightarrow> string \<Rightarrow> cli_step_output \<Rightarrow> step_world \<Rightarrow> step_outcome" where
  "judge_spec env specDir out w =
     (let t = sw_task w; valid = validateSpecFiles (se_files env True) specDir (TaskSpecSlug t)
      in if co_awaiting out then
           (if fst (ResolveSpecGate (Some t) (spec_project w) True (int (clarificationRoundCount t))) \<noteq>
               TaskSpecStatusClarificationRequired
            then (case valid of
                    Inr tot \<Rightarrow> recordReadyWithWarnings env specDir tot (co_output out) w
                  | Inl _ \<Rightarrow> pauseForClarification env StepCLISpec (co_output out) w)
            else pauseForClarification env StepCLISpec (co_output out) w)
         else (case valid of
                 Inl e \<Rightarrow> (Inl (StepFailed e), w)
               | Inr tot \<Rightarrow>
                   if \<not> RequiresSpecReview (Some t) (spec_project w)
                   then finish_spec ''cli_spec: persist auto-approval''
                          (no_update\<lparr>ui_spec_status := Some TaskSpecStatusAutoApproved\<rparr>) specDir tot w
                   else review_pause w))"

definition spec_Execute :: "step_env \<Rightarrow> step_world \<Rightarrow> step_outcome" where
  "spec_Execute env w0 =
     (case ResolveHostWorktreeRoot env '''' (start_analyzing w0) of
        (Inl _, w) \<Rightarrow> (Inl (StepFailed ''cli_spec: resolve worktree''), w)
      | (Inr rootp, w) \<Rightarrow>
          (let specDir = spec_dir_of rootp (TaskSpecSlug (sw_task w))
           in if t_spec_status (sw_task w) = TaskSpecStatusApproved
              then (case validateSpecFiles (se_files env False) specDir (TaskSpecSlug (sw_task w)) of
                      Inl e \<Rightarrow> (Inl (StepFailed e), w)
                    | Inr tot \<Rightarrow> (Inr (spec_result specDir tot), w))
              else (case LoadStepPrompt (xc_step_prompts (se_ctx env)) StepCLISpec of
                      None \<Rightarrow> (Inl (StepFailed ''cli_spec: load prompt''), w)
                    | Some base \<Rightarrow>
                        (case run_step env (se_agent env) StepCLISpec
                                (spec_instruction base (sw_task w) (sw_report w)) [] '''' w of
                           (Inl e, w1) \<Rightarrow> (Inl e, w1)
                         | (Inr out, w1) \<Rightarrow> judge_spec env specDir out w1))))"

section \<open>Implementation\<close>

definition isDocsOnlyTask :: "task \<Rightarrow> bool" where
  "isDocsOnlyTask t = list_ex (\<lambda>l. equal_fold (trim_space l) ''docs-only'') (t_labels t)"

definition hasChangeOutsideOpenspecs :: "string list \<Rightarrow> bool" where
  "hasChangeOutsideOpenspecs changed = list_ex (\<lambda>f. \<not> str_contains f ''docs/openspecs/'') changed"

text \<open>The type in the front matter is read by the YAML package, an argument.\<close>

definition proposalDeclaresDocumentationOnly ::
  "(string \<Rightarrow> string option) \<Rightarrow> (string \<Rightarrow> string option) \<Rightarrow> string \<Rightarrow> string \<Rightarrow> bool" where
  "proposalDeclaresDocumentationOnly files yaml rootp slug =
     (case files (path_join [rootp, ''docs'', ''openspecs'', slug, ''proposal.md'']) of
        None \<Rightarrow> False
      | Some text \<Rightarrow>
          has_prefix (trim_space text) ''---'' \<and>
          (case split_on ''---'' text of
             _ # front # _ # _ \<Rightarrow>
               (case yaml front of None \<Rightarrow> False | Some ty \<Rightarrow> equal_fold (trim_space ty) ''documentation'')
           | _ \<Rightarrow> False))"

definition implement_text :: "string \<Rightarrow> string \<Rightarrow> task \<Rightarrow> string list \<Rightarrow> string \<Rightarrow> string" where
  "implement_text rolePrompt base t rest feedback =
     task_text (if rolePrompt \<noteq> '''' then rolePrompt @ NL @ NL @ base else base) t
       ([''## Spec set location'', ''docs/openspecs/'' @ TaskSpecSlug t @ ''/''] @ rest) @
     (if feedback \<noteq> '''' then NL @ NL @ ''## Reviewer feedback'' @ NL @ NL @ feedback else '''')"

text \<open>What a finished run must have changed; the root of the checkout is then known.\<close>

definition check_changes ::
  "step_env \<Rightarrow> string \<Rightarrow> string \<Rightarrow> string list \<Rightarrow> step_world \<Rightarrow> (step_error + string) \<times> step_world" where
  "check_changes env stepID sfx changed w =
     (if changed = [] then (Inl (StepFailed (stepID @ '': run completed but produced no file changes'')), w)
      else (case ResolveHostWorktreeRoot env sfx w of
              (Inl _, w1) \<Rightarrow> (Inl (StepFailed (stepID @ '': resolve worktree'')), w1)
            | (Inr rootp, w1) \<Rightarrow>
                if \<not> (isDocsOnlyTask (sw_task w1) \<or>
                       proposalDeclaresDocumentationOnly (se_files env True) (se_yaml_type env) rootp (TaskSpecSlug (sw_task w1))) \<and>
                   \<not> hasChangeOutsideOpenspecs changed
                then (Inl (StepFailed (stepID @ '': implement produced no code changes (only docs/openspecs/ was touched)'')), w1)
                else (Inr rootp, w1)))"

text \<open>A checkpoint that fails is only logged.\<close>

definition git_checkpoint :: "step_env \<Rightarrow> git_agent option \<Rightarrow> string \<Rightarrow> string \<Rightarrow> step_world \<Rightarrow> step_world" where
  "git_checkpoint env agent stepID sfx w =
     (case CreateGitCheckpoint (se_git env) (sw_task w) agent stepID sfx (sw_git w) of
        (Inl _, g) \<Rightarrow> step_log env (w\<lparr>sw_git := g\<rparr>)
      | (Inr _, g) \<Rightarrow> w\<lparr>sw_git := g\<rparr>)"

definition implement_result :: "step_env \<Rightarrow> string \<Rightarrow> step_world \<Rightarrow> gomap" where
  "implement_result env rootp w =
     (case ParseCheckboxes (or_zero '''' (se_files env True
              (path_join [rootp, ''docs'', ''openspecs'', TaskSpecSlug (sw_task w), ''tasks.md'']))) of
        (checked, tot) \<Rightarrow>
          [(''status'', VString ''success''), (''checked_tasks'', VInt (int checked)), (''total_tasks'', VInt (int tot))])"

definition role_prompt :: "step_env \<Rightarrow> git_agent option \<Rightarrow> string \<Rightarrow> step_world \<Rightarrow> string" where
  "role_prompt env agent stepID w =
     LoadRolePrompt (xc_role_prompts (se_ctx env)) (map_option sa_role agent) (sw_task w) stepID"

definition review_feedback :: "step_world \<Rightarrow> string" where
  "review_feedback w = crossReviewFeedback itoa (sw_orch w) (t_id (sw_task w))"

definition implement_Execute :: "step_env \<Rightarrow> step_world \<Rightarrow> step_outcome" where
  "implement_Execute env w =
     (case LoadStepPrompt (xc_step_prompts (se_ctx env)) StepCLIImplement of
        None \<Rightarrow> (Inl (StepFailed ''cli_implement: load prompt''), w)
      | Some base \<Rightarrow>
          (case run_step env (se_agent env) StepCLIImplement
                  (implement_text (role_prompt env (se_agent env) StepCLIImplement w) base (sw_task w) [] (review_feedback w))
                  [] '''' w of
             (Inl e, w1) \<Rightarrow> (Inl e, w1)
           | (Inr out, w1) \<Rightarrow>
               if co_awaiting out then pauseForClarification env StepCLIImplement (co_output out) w1
               else (case check_changes env StepCLIImplement '''' (co_changed out) w1 of
                       (Inl e, w2) \<Rightarrow> (Inl e, w2)
                     | (Inr rootp, w2) \<Rightarrow>
                         (let w3 = git_checkpoint env (se_agent env) StepCLIImplement '''' w2
                          in (Inr (implement_result env rootp w3), w3)))))"

end
