(* ===== verification/CLI_Step_Props.thy ===== *)
theory CLI_Step_Props
  imports CLI_Steps Task_Properties
begin

text \<open>
  What the first steps of the CLI pipelines guarantee, and where they fail: a specification passes only
  with its four files and a decision at the gate, an implementation only with a change outside the
  specification; the answer of a person is never given to the harness, and one answered question is
  enough to exhaust the gate.
\<close>

section \<open>What the steps keep\<close>

lemma update_row_task: "update_row u w = (r, w') \<Longrightarrow> sw_task w' = sw_task w"
  by (auto simp: update_row_def with_orch_def split: prod.splits)

lemma start_analyzing_task:
  "\<exists>st. sw_task (start_analyzing w) = (sw_task w)\<lparr>t_status := st\<rparr>"
proof -
  obtain r w1 where u: "update_row (no_update\<lparr>ui_status := Some TaskStatusAnalyzing\<rparr>) w = (r, w1)" by fastforce
  have "sw_task w1 = sw_task w" by (rule update_row_task [OF u])
  then have "sw_task (start_analyzing w) \<in> {sw_task w, (sw_task w)\<lparr>t_status := TaskStatusAnalyzing\<rparr>}"
    unfolding start_analyzing_def u by (cases r) simp_all
  then show ?thesis
  proof (cases "sw_task (start_analyzing w) = sw_task w")
    case True
    show ?thesis by (rule exI [of _ "t_status (sw_task w)"]) (simp add: True)
  qed blast
qed

lemma resolve_task: "ResolveHostWorktreeRoot env sfx w = (r, w') \<Longrightarrow> sw_task w' = sw_task w \<and> sw_cli w' = sw_cli w"
  by (auto simp: ResolveHostWorktreeRoot_def Let_def split: prod.splits sum.splits)

lemma run_step_task: "run_step env agent stepID i c sfx w = (r, w') \<Longrightarrow> sw_task w' = sw_task w"
  by (auto simp: run_step_def split: prod.splits sum.splits)

lemma write_task_projects: "write_task st i u = (r, st') \<Longrightarrow> get_project (os_db st') p = get_project (os_db st) p"
  by (auto simp: write_task_def repo_Update_def get_project_def split: sum.splits prod.splits)

lemma update_row_project: "update_row u w = (r, w') \<Longrightarrow> spec_project w' = spec_project w"
proof -
  obtain e st where wt: "write_task (sw_orch w) (t_id (sw_task w)) u = (e, st)" by fastforce
  show "update_row u w = (r, w') \<Longrightarrow> spec_project w' = spec_project w"
    unfolding update_row_def wt by (auto simp: spec_project_def with_orch_def write_task_projects [OF wt])
qed

section \<open>The gate of the specification\<close>

definition has_spec :: "(string \<Rightarrow> string option) \<Rightarrow> string \<Rightarrow> nat \<Rightarrow> bool" where
  "has_spec files specDir n \<longleftrightarrow>
     (\<forall>name \<in> {''proposal.md'', ''specs.md'', ''design.md'', ''tasks.md''}. files (path_join [specDir, name]) \<noteq> None) \<and>
     n = snd (ParseCheckboxes (or_zero '''' (files (path_join [specDir, ''tasks.md'']))))"

lemma validate_Inr:
  "validateSpecFiles files d slug = Inr n \<Longrightarrow> has_spec files d n \<and> 0 < n"
  by (auto simp: validateSpecFiles_def missing_files_def cliSpecRequiredFiles_def has_spec_def Let_def
      split: if_splits)

definition gate_passed :: "task \<Rightarrow> step_world \<Rightarrow> bool" where
  "gate_passed before w \<longleftrightarrow>
     t_spec_status (sw_task w) = TaskSpecStatusApproved \<and> t_spec_status before = TaskSpecStatusApproved \<or>
     t_spec_status (sw_task w) = TaskSpecStatusAutoApproved \<and> \<not> RequiresSpecReview (Some before) (spec_project w) \<or>
     t_spec_status (sw_task w) = TaskSpecStatusReadyWithWarnings \<and>
       IsDefinitionOfReadyBypassed (t_labels before) (int (clarificationRoundCount before))"

lemma finish_spec_Inr:
  assumes "finish_spec err u d n w = (Inr out, w')"
  shows "out = spec_result d n \<and> sw_task w' = apply_update u (sw_task w) \<and> spec_project w' = spec_project w"
proof -
  obtain w1 where u: "update_row u w = (None, w1)" and w': "w' = w1\<lparr>sw_task := apply_update u (sw_task w)\<rparr>"
    and "out = spec_result d n"
    using assms by (auto simp: finish_spec_def split: prod.splits option.splits)
  moreover have "spec_project w' = spec_project w1"
    by (simp add: w' spec_project_def apply_update_def update_row_task [OF u])
  ultimately show ?thesis using update_row_project [OF u] by simp
qed

lemma valid_Inr:
  "(case v of Inl e \<Rightarrow> (Inl (f e), a) | Inr x \<Rightarrow> (Inr (g x), b)) = (Inr y, c) \<Longrightarrow> \<exists>n. v = Inr n \<and> y = g n \<and> c = b"
  by (cases v) auto

lemma judge_spec_sound:
  assumes "judge_spec env d out w = (Inr res, w')"
  shows "\<exists>n. res = spec_result d n \<and> 0 < n \<and> has_spec (se_files env True) d n \<and> gate_passed (sw_task w) w'"
proof -
  have pause: "pauseForClarification env s q w \<noteq> (Inr res, w')" for s q
    by (auto simp: pauseForClarification_def Let_def split: prod.splits option.splits)
  have rev: "review_pause w \<noteq> (Inr res, w')"
    by (auto simp: review_pause_def Let_def split: prod.splits option.splits)
  obtain n where v: "validateSpecFiles (se_files env True) d (TaskSpecSlug (sw_task w)) = Inr n"
    using assms pause by (auto simp: judge_spec_def Let_def split: if_splits sum.splits)
  note ok = validate_Inr [OF v]
  show ?thesis
  proof (cases "co_awaiting out")
    case True
    with assms v pause have "recordReadyWithWarnings env d n (co_output out) w = (Inr res, w')"
      and "IsDefinitionOfReadyBypassed (t_labels (sw_task w)) (int (clarificationRoundCount (sw_task w)))"
      by (auto simp: judge_spec_def ResolveSpecGate_def Let_def split: if_splits)
    with ok show ?thesis
      by (auto simp: recordReadyWithWarnings_def gate_passed_def apply_update_def no_update_def dest!: finish_spec_Inr)
  next
    case False
    with assms v rev have "\<not> RequiresSpecReview (Some (sw_task w)) (spec_project w)"
      and "finish_spec ''cli_spec: persist auto-approval'' (no_update\<lparr>ui_spec_status := Some TaskSpecStatusAutoApproved\<rparr>)
             d n w = (Inr res, w')"
      by (auto simp: judge_spec_def Let_def split: if_splits)
    with ok show ?thesis
      by (auto simp: gate_passed_def apply_update_def no_update_def dest!: finish_spec_Inr)
  qed
qed

text \<open>
  C9: the specification step succeeds only with the four files and at least one checkbox in the task
  list, counted in its output. The files are those of the task's own directory, below the root of its
  main checkout, and they are read after the harness ran, or, when the specification had been approved
  and the harness is not run again, as they are then. And it succeeds only when the specification was
  approved before, needs no review, or the gate is exhausted (a hotfix, or two recorded rounds).
\<close>

theorem spec_step_sound:
  assumes "spec_Execute env w = (Inr res, w')"
  shows "\<exists>rootp n. fst (ResolveHostWorktreeRoot env '''' (start_analyzing w)) = Inr rootp \<and> 0 < n \<and>
    (let d = path_join [rootp, ''docs'', ''openspecs'', DeriveTaskSlug (t_id (sw_task w)) (t_title (sw_task w))];
         afterwards = (t_spec_status (sw_task w) \<noteq> TaskSpecStatusApproved)
     in res = [(''status'', VString ''success''), (''spec_dir'', VString d), (''task_count'', VInt (int n))] \<and>
        has_spec (se_files env afterwards) d n) \<and>
    gate_passed (sw_task w) w'"
proof -
  obtain st where st: "sw_task (start_analyzing w) = (sw_task w)\<lparr>t_status := st\<rparr>" using start_analyzing_task by blast
  obtain r w1 where r: "ResolveHostWorktreeRoot env '''' (start_analyzing w) = (r, w1)" by fastforce
  then have t1: "sw_task w1 = (sw_task w)\<lparr>t_status := st\<rparr>" using resolve_task [OF r] st by simp
  from assms r obtain rp where r': "r = Inr rp" by (cases r) (auto simp: spec_Execute_def)
  let ?d = "spec_dir_of rp (TaskSpecSlug (sw_task w1))"
  have d: "?d = path_join [rp, ''docs'', ''openspecs'', DeriveTaskSlug (t_id (sw_task w)) (t_title (sw_task w))]"
    by (simp add: spec_dir_of_def TaskSpecSlug_def t1)
  have same: "t_spec_status (sw_task w1) = t_spec_status (sw_task w)" by (simp add: t1)
  let ?valid = "validateSpecFiles (se_files env False) ?d (TaskSpecSlug (sw_task w1))"
  have "\<exists>n. res = spec_result ?d n \<and> 0 < n \<and>
    has_spec (se_files env (t_spec_status (sw_task w1) \<noteq> TaskSpecStatusApproved)) ?d n \<and> gate_passed (sw_task w) w'"
  proof (cases "t_spec_status (sw_task w1) = TaskSpecStatusApproved")
    case True
    have "spec_Execute env w =
        (case ?valid of Inl e \<Rightarrow> (Inl (StepFailed e), w1) | Inr tot \<Rightarrow> (Inr (spec_result ?d tot), w1))"
      unfolding spec_Execute_def r r' by (simp only: prod.case sum.case Let_def True if_True simp_thms)
    with assms have eq: "(case ?valid of Inl e \<Rightarrow> (Inl (StepFailed e), w1) | Inr tot \<Rightarrow> (Inr (spec_result ?d tot), w1)) = (Inr res, w')"
      by (simp only:)
    obtain n where v: "?valid = Inr n" and "res = spec_result ?d n" "w' = w1" using valid_Inr [OF eq] by (elim exE conjE)
    moreover from True t1 have "gate_passed (sw_task w) w1" by (simp add: gate_passed_def)
    ultimately show ?thesis using validate_Inr [OF v] True by auto
  next
    case False
    obtain base where b: "LoadStepPrompt (xc_step_prompts (se_ctx env)) StepCLISpec = Some base"
      using assms False by (cases "LoadStepPrompt (xc_step_prompts (se_ctx env)) StepCLISpec") (simp_all add: spec_Execute_def r r' Let_def)
    obtain x w2 where run: "run_step env (se_agent env) StepCLISpec
        (spec_instruction base (sw_task w1) (sw_report w1)) [] '''' w1 = (x, w2)" by fastforce
    then obtain out where j: "judge_spec env ?d out w2 = (Inr res, w')"
      using assms False b by (cases x) (simp_all add: spec_Execute_def r r' Let_def)
    have "sw_task w2 = (sw_task w)\<lparr>t_status := st\<rparr>" using run_step_task [OF run] t1 by simp
    moreover have "gate_passed ((sw_task w)\<lparr>t_status := st\<rparr>) w' = gate_passed (sw_task w) w'"
      by (simp add: gate_passed_def RequiresSpecReview_def clarificationRoundCount_def)
    ultimately show ?thesis using judge_spec_sound [OF j] False by auto
  qed
  then show ?thesis using r r' unfolding d same spec_result_def Let_def by (metis fst_conv)
qed

section \<open>A question and its answer\<close>

lemma apply_pause [simp]:
  "apply_update (no_update\<lparr>ui_clarifications := Some c, ui_spec_status := Some s, ui_paused_step := Some p\<rparr>) t =
   t\<lparr>t_clarifications := c, t_spec_status := s, t_paused_step := p\<rparr>"
  by (cases t) (simp add: apply_update_def no_update_def)

lemma apply_clarify [simp]:
  "apply_update (no_update\<lparr>ui_spec_status := Some s, ui_status := Some st, ui_clarifications := Some c, ui_paused_step := Some p\<rparr>) t =
   t\<lparr>t_spec_status := s, t_status := st, t_clarifications := c, t_paused_step := p\<rparr>"
  by (cases t) (simp add: apply_update_def no_update_def)

lemma update_row_ok:
  assumes "update_row u w = (None, w1)" "get_task (os_db (sw_orch w)) (t_id (sw_task w)) = Inr t"
  shows "get_task (os_db (sw_orch w1)) (t_id (sw_task w)) = Inr (apply_update u t) \<and>
    w1 = with_orch (sw_orch w1) w"
proof -
  let ?d = "os_db (sw_orch w)" and ?i = "t_id (sw_task w)"
  have f: "find_row (db_tasks ?d) ?i = Some t" using assms(2) by (simp add: get_task_Inr)
  have "same_id ?i (apply_update u)" by (simp add: same_id_def apply_update_def)
  then have "find_row (map_row (db_tasks ?d) ?i (apply_update u)) ?i = Some (apply_update u t)"
    by (simp add: find_map_row f)
  moreover have "w1 = with_orch ((sw_orch w)\<lparr>os_db := ?d\<lparr>db_tasks := map_row (db_tasks ?d) ?i (apply_update u)\<rparr>\<rparr>) w"
    using assms by (auto simp: update_row_def write_task_def repo_Update_def)
  ultimately show ?thesis by (simp add: get_task_Inr with_orch_def)
qed

text \<open>The row after a question and its answer: two more rounds, and the marks of the pause gone.\<close>

definition answered :: "task \<Rightarrow> task \<Rightarrow> bool" where
  "answered t t' \<longleftrightarrow>
     (\<exists>r1 r2 st. cr_round r1 = int (length (prior_rounds t)) + 1 \<and> cr_round r2 = int (length (prior_rounds t)) + 2 \<and>
        t' = t\<lparr>t_clarifications := Json (prior_rounds t @ [r1, r2]), t_spec_status := TaskSpecStatusNone,
               t_paused_step := '''', t_status := st\<rparr>)"

lemma pause_then_clarify:
  assumes "get_task (os_db (sw_orch w)) (t_id (sw_task w)) = Inr (sw_task w)"
    and "pauseForClarification env stepID out w = (Inl (PauseError s m), w1)"
    and "svc_Clarify now (os_db (sw_orch w1)) (t_id (sw_task w)) answer = (Inr t', d)"
  shows "answered (sw_task w) t'"
proof -
  let ?t = "sw_task w"
  let ?c = "Json (add_round (oe_now (le_orch (se_cli env))) out '''' ?t)"
  let ?u = "no_update\<lparr>ui_clarifications := Some ?c, ui_spec_status := Some TaskSpecStatusClarificationRequired,
                     ui_paused_step := Some stepID\<rparr>"
  obtain x w2 where u: "update_row ?u w = (x, w2)" by fastforce
  with assms(2) have x: "x = None" and w1: "w1 = w2\<lparr>sw_task := apply_update ?u ?t\<rparr>"
    by (auto simp: pauseForClarification_def split: option.splits)
  let ?p = "?t\<lparr>t_clarifications := ?c, t_spec_status := TaskSpecStatusClarificationRequired, t_paused_step := stepID\<rparr>"
  have g: "get_task (os_db (sw_orch w1)) (t_id ?t) = Inr ?p"
    using update_row_ok [OF u [unfolded x] assms(1)] by (simp add: w1)
  have rs: "prior_rounds ?p = add_round (oe_now (le_orch (se_cli env))) out '''' ?t" by (simp add: prior_rounds_def)
  obtain st r2 where t': "t' = apply_update (no_update\<lparr>ui_spec_status := Some TaskSpecStatusNone, ui_status := Some st,
      ui_clarifications := Some (Json (prior_rounds ?p @ [r2])), ui_paused_step := Some ''''\<rparr>) ?p"
    and r2: "cr_round r2 = int (length (prior_rounds ?p)) + 1"
    using assms(3) unfolding svc_Clarify_def g
    by (auto simp: write_back_def repo_Update_def g lift_repo_def Let_def split: if_splits)
  let ?r1 = "\<lparr>cr_round = int (length (prior_rounds ?t)) + 1, cr_timestamp = oe_now (le_orch (se_cli env)),
      cr_questions = [lastNonEmptyLine out], cr_response = ''''\<rparr>"
  have pr: "prior_rounds ?p = prior_rounds ?t @ [?r1]" by (simp add: prior_rounds_def add_round_def Let_def)
  have r2': "cr_round r2 = int (length (prior_rounds ?t)) + 2" using r2 unfolding pr by simp
  have "t' = ?t\<lparr>t_clarifications := Json (prior_rounds ?t @ [?r1, r2]), t_spec_status := TaskSpecStatusNone,
      t_paused_step := '''', t_status := st\<rparr>" unfolding t' pr by simp
  then show ?thesis unfolding answered_def using r2' by (intro exI [of _ ?r1] exI [of _ r2] exI [of _ st]) simp
qed


text \<open>
  C11: one question and its answer exhaust the gate of the specification, because they count as two rounds:
  when the harness asks again and has written the files, the step records its question as bypassed and
  succeeds without asking anyone.
\<close>

theorem second_question_bypassed:
  assumes "get_task (os_db (sw_orch w)) (t_id (sw_task w)) = Inr (sw_task w)"
    and "pauseForClarification env stepID out w = (Inl (PauseError s m), w1)"
    and "svc_Clarify now (os_db (sw_orch w1)) (t_id (sw_task w)) answer = (Inr (sw_task w2), d)"
    and "get_task (os_db (sw_orch w2)) (t_id (sw_task w2)) = Inr (sw_task w2)" and "co_awaiting q"
    and "validateSpecFiles (se_files env True) specDir (TaskSpecSlug (sw_task w2)) = Inr n"
  shows "\<exists>w3. judge_spec env specDir q w2 = (Inr (spec_result specDir n), w3) \<and>
    t_spec_status (sw_task w3) = TaskSpecStatusReadyWithWarnings"
proof -
  have "answered (sw_task w) (sw_task w2)" by (rule pause_then_clarify [OF assms(1-3)])
  then have "clarificationRoundCount (sw_task w2) \<ge> 2" by (auto simp: answered_def clarificationRoundCount_def)
  then have "IsDefinitionOfReadyBypassed (t_labels (sw_task w2)) (int (clarificationRoundCount (sw_task w2)))"
    by (simp add: IsDefinitionOfReadyBypassed_def MaxClarificationRounds_def)
  then have j: "judge_spec env specDir q w2 = recordReadyWithWarnings env specDir n (co_output q) w2"
    by (simp add: judge_spec_def ResolveSpecGate_def Let_def assms(5,6))
  have "\<exists>w3. finish_spec e u specDir n w2 = (Inr (spec_result specDir n), w3) \<and> sw_task w3 = apply_update u (sw_task w2)" for e u
    using assms(4) by (auto simp: finish_spec_def update_row_def write_task_def repo_Update_def with_orch_def)
  then show ?thesis unfolding j recordReadyWithWarnings_def by (force simp: no_update_def)
qed

end
