(* ===== verification/Track_Step.thy ===== *)
theory Track_Step
  imports CLI_Step_Props
begin

text \<open>
  One of the two parallel tracks of the implementation (\<^verbatim>\<open>orchestrator/steps/cli_implement_track.go\<close>,
  \<^verbatim>\<open>sandbox.go\<close>): an agent of the role is assigned, its worktree is set up, the harness is run in it, and
  the work is committed on the branch of the role. The agents are those of the manager of \<open>Agents\<close>.
\<close>

section \<open>The agent of the role\<close>

definition agent_row :: "step_env \<Rightarrow> string \<Rightarrow> git_agent" where
  "agent_row env i = \<lparr>sa_id = i, sa_name = se_names env i, sa_role = ag_role (se_dir env i)\<rparr>"

definition release_agent :: "string \<Rightarrow> step_world \<Rightarrow> step_world" where
  "release_agent i w = with_orch ((sw_orch w)\<lparr>os_db := Release (os_db (sw_orch w)) i\<rparr>) w"

text \<open>An agent that comes with an error is released; one of another role is not.\<close>

definition finishAssign ::
  "step_env \<Rightarrow> string \<Rightarrow> string \<Rightarrow> git_agent option \<Rightarrow> repo_error option \<Rightarrow> step_world \<Rightarrow>
   (step_error + git_agent \<times> string) \<times> step_world" where
  "finishAssign env role stepID agent err w =
     (case agent of
        None \<Rightarrow>
          (case err of
             Some e \<Rightarrow> (Inl (StepFailed (stepID @ '': failed to assign '' @ role @ '' agent'')), w)
           | None \<Rightarrow> (Inl (StepFailed (stepID @ '': requires a '' @ role @ '' agent, but got role nil'')), w))
      | Some a \<Rightarrow>
          (let w1 = step_log env w
           in case err of
                Some e \<Rightarrow> (Inl (StepFailed (stepID @ '': failed to assign '' @ role @ '' agent'')), release_agent (sa_id a) w1)
              | None \<Rightarrow>
                  if sa_role a \<noteq> role
                  then (Inl (StepFailed (stepID @ '': requires a '' @ role @ '' agent, but got role '' @ sa_role a)), w1)
                  else (Inr (a, sa_id a), w1)))"

text \<open>The agent of the run when it has the role, or one that is claimed for the step.\<close>

definition assignRoleAgent ::
  "step_env \<Rightarrow> string \<Rightarrow> string \<Rightarrow> step_world \<Rightarrow> (step_error + git_agent \<times> string) \<times> step_world" where
  "assignRoleAgent env role stepID w =
     (if \<exists>a \<in> set_option (se_agent env). sa_role a = role then (Inr (the (se_agent env), ''''), w)
      else if role = ''backend'' \<or> role = ''frontend''
      then (case assignByRole (se_dir env) (os_db (sw_orch w)) (sw_task w) role of
              (Inl e, d) \<Rightarrow> finishAssign env role stepID None (Some e) (with_orch ((sw_orch w)\<lparr>os_db := d\<rparr>) w)
            | (Inr i, d) \<Rightarrow>
                finishAssign env role stepID (Some (agent_row env i)) None (with_orch ((sw_orch w)\<lparr>os_db := d\<rparr>) w))
      else (Inl (StepFailed (stepID @ '': unsupported role '' @ role)), w))"

section \<open>The worktree of the track\<close>

text \<open>When the repositories cannot be listed nothing is set up, and nothing committed, without an error.\<close>

definition setupSandbox :: "step_env \<Rightarrow> string \<Rightarrow> string \<Rightarrow> string \<Rightarrow> step_world \<Rightarrow> string option \<times> step_world" where
  "setupSandbox env branchRole role sfx w =
     (let wk = ge_wk (se_git env); t = sw_task w
      in case LoadTargetRepositories wk t of
           Inl _ \<Rightarrow> (None, w)
         | Inr rs \<Rightarrow>
             (case load_workspace wk t (fst (sw_git w)) of
                (ws, d) \<Rightarrow>
                  (case SetupRoleWorktrees (se_git env) t ws branchRole role sfx rs (d, snd (sw_git w)) of
                     (e, g) \<Rightarrow> (e, w\<lparr>sw_git := g\<rparr>))))"

definition commitSandbox ::
  "step_env \<Rightarrow> git_agent \<Rightarrow> string \<Rightarrow> string \<Rightarrow> string \<Rightarrow> step_world \<Rightarrow> string option \<times> step_world" where
  "commitSandbox env agent branchRole role sfx w =
     (let wk = ge_wk (se_git env); t = sw_task w
      in case LoadTargetRepositories wk t of
           Inl _ \<Rightarrow> (None, w)
         | Inr rs \<Rightarrow>
             (case load_workspace wk t (fst (sw_git w)) of
                (ws, d) \<Rightarrow>
                  (case CommitRoleWorktrees (se_git env) t (Some agent) ws branchRole role sfx rs (d, snd (sw_git w)) of
                     (e, g) \<Rightarrow> (e, w\<lparr>sw_git := g\<rparr>))))"

section \<open>The step\<close>

definition track_notice :: "string \<Rightarrow> string list" where
  "track_notice role =
     [''## Your track'',
      ''You are the '' @ role @ '' implementer, running in an isolated git worktree. Only make '' @ role @
      '' changes '' @ dash @ '' another agent is implementing the other side of this task concurrently in a separate '' @
      ''worktree; a merge step will reconcile both afterward.'']"

definition track_finish ::
  "step_env \<Rightarrow> git_agent \<Rightarrow> string \<Rightarrow> string \<Rightarrow> string \<Rightarrow> string \<Rightarrow> string \<Rightarrow> step_world \<Rightarrow> step_outcome" where
  "track_finish env agent role branchRole stepID sfx rootp w =
     (case commitSandbox env agent branchRole role sfx (git_checkpoint env (Some agent) stepID sfx w) of
        (Some e, w1) \<Rightarrow> (Inl (StepFailed (stepID @ '': commit worktree: '' @ e)), w1)
      | (None, w1) \<Rightarrow> (Inr (implement_result env rootp w1), w1))"

definition track_body ::
  "step_env \<Rightarrow> git_agent \<Rightarrow> string \<Rightarrow> string \<Rightarrow> string \<Rightarrow> string \<Rightarrow> step_world \<Rightarrow> step_outcome" where
  "track_body env agent role branchRole stepID sfx w0 =
     (case setupSandbox env branchRole role sfx w0 of
        (Some e, w) \<Rightarrow> (Inl (StepFailed (stepID @ '': setup worktree: '' @ e)), w)
      | (None, w) \<Rightarrow>
          (case LoadStepPrompt (xc_step_prompts (se_ctx env)) StepCLIImplement of
             None \<Rightarrow> (Inl (StepFailed (stepID @ '': load prompt'')), w)
           | Some base \<Rightarrow>
               (case run_step env (Some agent) stepID
                       (implement_text (role_prompt env (Some agent) stepID w) base (sw_task w) (track_notice role)
                          (review_feedback w)) [] sfx w of
                  (Inl e, w1) \<Rightarrow> (Inl e, w1)
                | (Inr out, w1) \<Rightarrow>
                    if co_awaiting out then pauseForClarification env stepID (co_output out) w1
                    else (case check_changes env stepID sfx (co_changed out) w1 of
                            (Inl e, w2) \<Rightarrow> (Inl e, w2)
                          | (Inr rootp, w2) \<Rightarrow> track_finish env agent role branchRole stepID sfx rootp w2))))"

text \<open>The deferred release: a claimed agent that is not the agent of the run.\<close>

definition track_Execute :: "step_env \<Rightarrow> string \<Rightarrow> string \<Rightarrow> string \<Rightarrow> string \<Rightarrow> step_world \<Rightarrow> step_outcome" where
  "track_Execute env role branchRole stepID sfx w =
     (case assignRoleAgent env role stepID w of
        (Inl e, w1) \<Rightarrow> (Inl e, w1)
      | (Inr (agent, assigned), w1) \<Rightarrow>
          (case track_body env agent role branchRole stepID sfx w1 of
             (r, w2) \<Rightarrow>
               (r, if assigned \<noteq> '''' \<and> (\<forall>a \<in> set_option (se_agent env). assigned \<noteq> sa_id a)
                   then release_agent assigned w2 else w2)))"

definition backend_Execute :: "step_env \<Rightarrow> step_world \<Rightarrow> step_outcome" where
  "backend_Execute env = track_Execute env ''backend'' ''be'' StepCLIImplementBackend ''-be-worktree''"

definition frontend_Execute :: "step_env \<Rightarrow> step_world \<Rightarrow> step_outcome" where
  "frontend_Execute env = track_Execute env ''frontend'' ''fe'' StepCLIImplementFrontend ''-fe-worktree''"

section \<open>Every assigned agent is released\<close>

lemma claimAvailable_role:
  "claimAvailable dir d p (Some r) = (Inr a, d') \<Longrightarrow> ag_role (dir a) = r"
  by (auto simp: claimAvailable_def claimable_def find_Some_iff split: option.splits sum.splits)

lemma assignByRole_role: "assignByRole dir d t role = (Inr a, d') \<Longrightarrow> ag_role (dir a) = role"
  by (auto simp: assignByRole_def ClaimAvailableByRole_def dest!: claimAvailable_role split: prod.splits sum.splits)

lemma step_log_task [simp]: "sw_task (step_log env w) = sw_task w"
  by (simp add: step_log_def)

text \<open>The agent of a step has its role, and a claimed one is the row that was claimed.\<close>

lemma assignRoleAgent_Inr:
  assumes "assignRoleAgent env role stepID w = (Inr (a, i), w1)"
  shows "sa_role a = role \<and> sw_task w1 = sw_task w \<and>
    (i = '''' \<and> se_agent env = Some a \<and> w1 = w \<or>
     i = sa_id a \<and> ag_role (se_dir env i) = role \<and> (\<forall>x \<in> set_option (se_agent env). sa_role x \<noteq> role))"
  using assms
  by (auto simp: assignRoleAgent_def finishAssign_def agent_row_def with_orch_def Let_def
      dest!: assignByRole_role split: if_splits prod.splits sum.splits option.splits)

text \<open>
  however a track ends, the agent that was claimed for it is idle again, unless its row is gone.
\<close>

theorem track_agent_released:
  assumes "track_Execute env role branchRole stepID sfx w = (r, w')"
    and "assignRoleAgent env role stepID w = (Inr (a, i), w1)" and "i \<noteq> ''''"
    and "\<forall>x \<in> set_option (se_agent env). sa_role x = ag_role (se_dir env (sa_id x))"
  shows "agent_status (os_db (sw_orch w')) i \<in> {None, Some AgentStatusIdle}"
proof -
  obtain x w2 where b: "track_body env a role branchRole stepID sfx w1 = (x, w2)" by (rule prod.exhaust)
  have "\<forall>x \<in> set_option (se_agent env). i \<noteq> sa_id x"
    using assignRoleAgent_Inr [OF assms(2)] assms(3,4) by auto
  then have "w' = release_agent i w2" using assms(1,2,3) b by (simp add: track_Execute_def)
  then show ?thesis
    by (cases "agent_status (os_db (sw_orch w2)) i") (simp_all add: release_agent_def with_orch_def Release_def)
qed

section \<open>A track that succeeds has committed its work\<close>

lemma setupSandbox_task: "setupSandbox env br role sfx w = (e, w') \<Longrightarrow> sw_task w' = sw_task w"
  by (auto simp: setupSandbox_def Let_def split: sum.splits prod.splits)

lemma check_changes_Inr:
  "check_changes env stepID sfx changed w = (Inr rootp, w') \<Longrightarrow>
   sw_task w' = sw_task w \<and> changed \<noteq> [] \<and>
   (isDocsOnlyTask (sw_task w) \<or>
    proposalDeclaresDocumentationOnly (se_files env True) (se_yaml_type env) rootp (TaskSpecSlug (sw_task w)) \<or>
    hasChangeOutsideOpenspecs changed)"
  by (auto simp: check_changes_def dest!: resolve_task split: if_splits prod.splits sum.splits)

lemma git_checkpoint_task [simp]: "sw_task (git_checkpoint env agent stepID sfx w) = sw_task w"
  by (simp add: git_checkpoint_def split: prod.split sum.split)

lemma pause_not_Inr: "pauseForClarification env s q w \<noteq> (Inr res, w')"
  by (auto simp: pauseForClarification_def Let_def split: prod.splits option.splits)

text \<open>The stages of a track that succeeds: setup, a run without a question, its changes, the commit.\<close>

definition track_stages ::
  "step_env \<Rightarrow> git_agent \<Rightarrow> string \<Rightarrow> string \<Rightarrow> string \<Rightarrow> string \<Rightarrow> step_world \<Rightarrow> step_world \<Rightarrow> bool" where
  "track_stages env agent role br stepID sfx w w4 \<longleftrightarrow>
     (\<exists>w1 text out w2 rootp. setupSandbox env br role sfx w = (None, w1) \<and>
        run_step env (Some agent) stepID text [] sfx w1 = (Inr out, w2) \<and> \<not> co_awaiting out \<and>
        check_changes env stepID sfx (co_changed out) w2 = (Inr rootp, w4))"

lemma track_body_Inr:
  assumes "track_body env agent role br stepID sfx w = (Inr res, w')"
  obtains w2 rootp where "sw_task w2 = sw_task w" "track_finish env agent role br stepID sfx rootp w2 = (Inr res, w')"
    "track_stages env agent role br stepID sfx w w2"
proof -
  obtain e w0 where s: "setupSandbox env br role sfx w = (e, w0)" by (rule prod.exhaust)
  have e: "e = None" using assms s by (cases e) (simp_all add: track_body_def)
  obtain base where b: "LoadStepPrompt (xc_step_prompts (se_ctx env)) StepCLIImplement = Some base"
    using assms s e by (cases "LoadStepPrompt (xc_step_prompts (se_ctx env)) StepCLIImplement") (simp_all add: track_body_def)
  obtain x w1 where run: "run_step env (Some agent) stepID
      (implement_text (role_prompt env (Some agent) stepID w0) base (sw_task w0) (track_notice role) (review_feedback w0))
      [] sfx w0 = (x, w1)" by (rule prod.exhaust)
  obtain out where x: "x = Inr out" using assms s e b run by (cases x) (simp_all add: track_body_def)
  have a: "\<not> co_awaiting out" using assms s e b run x pause_not_Inr by (auto simp: track_body_def)
  obtain y w2 where c: "check_changes env stepID sfx (co_changed out) w1 = (y, w2)" by (rule prod.exhaust)
  obtain rootp where y: "y = Inr rootp" using assms s e b run x a c by (cases y) (simp_all add: track_body_def)
  have "track_finish env agent role br stepID sfx rootp w2 = (Inr res, w')"
    using assms s e b run x a c y by (simp add: track_body_def)
  moreover have "sw_task w2 = sw_task w"
    using check_changes_Inr [OF c [unfolded y]] run_step_task [OF run] setupSandbox_task [OF s] by simp
  moreover have "track_stages env agent role br stepID sfx w w2"
    using s e run x a c y by (auto simp: track_stages_def)
  ultimately show thesis using that by blast
qed

lemma commitSandbox_all:
  assumes "commitSandbox env agent br role sfx w = (None, w')" "LoadTargetRepositories (ge_wk (se_git env)) (sw_task w) = Inr rs"
    and "load_workspace (ge_wk (se_git env)) (sw_task w) (fst (sw_git w)) = (ws, d)"
  shows "list_all (\<lambda>wt. ran_ok (se_git env) (snd (sw_git w')) (commit_of (se_git env) (sw_task w) (Some agent) br role sfx wt))
    (worktrees_from (se_git env) (sw_task w) ws sfx rs d)"
proof -
  obtain e g where c: "CommitRoleWorktrees (se_git env) (sw_task w) (Some agent) ws br role sfx rs (d, snd (sw_git w)) = (e, g)"
    by (rule prod.exhaust)
  have "e = None" "sw_git w' = g" using assms c by (auto simp: commitSandbox_def)
  then show ?thesis using CommitRoleWorktrees_commits [of _ _ _ _ _ _ _ _ "(d, snd (sw_git w))"] c by simp
qed

lemma release_agent_git [simp]: "sw_git (release_agent i w) = sw_git w"
  by (simp add: release_agent_def with_orch_def)

text \<open>
  C12: a track that succeeds was run by an agent of its role, which was the agent assigned to the step: the
  worktrees were set up, the harness was run by it, asked nothing and changed something, and then, when the
  target repositories can be listed, the commit of every one of their worktrees ran with success. The
  worktrees are those the metadata of the workspace gives for the role after the run and its checkpoint.
  (When the repositories cannot be listed nothing is committed, without an error.)
\<close>

theorem track_commits_every_repository:
  assumes "track_Execute env role branchRole stepID sfx w = (Inr res, w')"
    and "LoadTargetRepositories (ge_wk (se_git env)) (sw_task w) = Inr rs"
  shows "\<exists>agent i w1 w4. assignRoleAgent env role stepID w = (Inr (agent, i), w1) \<and> sa_role agent = role \<and>
    track_stages env agent role branchRole stepID sfx w1 w4 \<and>
    (case load_workspace (ge_wk (se_git env)) (sw_task w) (fst (sw_git (git_checkpoint env (Some agent) stepID sfx w4))) of
       (ws, d) \<Rightarrow>
         list_all (\<lambda>wt. ran_ok (se_git env) (snd (sw_git w'))
             (commit_of (se_git env) (sw_task w) (Some agent) branchRole role sfx wt))
           (worktrees_from (se_git env) (sw_task w) ws sfx rs d))"
proof -
  obtain y w1 where as: "assignRoleAgent env role stepID w = (y, w1)" by (rule prod.exhaust)
  with assms(1) obtain agent i where y: "y = Inr (agent, i)" by (cases y) (auto simp: track_Execute_def)
  note role = assignRoleAgent_Inr [OF as [unfolded y]]
  obtain x w2 where b: "track_body env agent role branchRole stepID sfx w1 = (x, w2)" by (rule prod.exhaust)
  have x: "x = Inr res" and git: "sw_git w' = sw_git w2"
    using assms(1) as y b by (auto simp: track_Execute_def split: if_splits)
  obtain w3 rootp where t: "sw_task w3 = sw_task w1"
    and f: "track_finish env agent role branchRole stepID sfx rootp w3 = (Inr res, w2)"
    and st: "track_stages env agent role branchRole stepID sfx w1 w3"
    using track_body_Inr [OF b [unfolded x]] by metis
  let ?w = "git_checkpoint env (Some agent) stepID sfx w3"
  obtain e w4 where c: "commitSandbox env agent branchRole role sfx ?w = (e, w4)" by (rule prod.exhaust)
  have "e = None" "w4 = w2" using f c by (auto simp: track_finish_def split: option.splits)
  then have c': "commitSandbox env agent branchRole role sfx ?w = (None, w2)" using c by simp
  have tw: "sw_task ?w = sw_task w" using t role by simp
  obtain ws d where l: "load_workspace (ge_wk (se_git env)) (sw_task w) (fst (sw_git ?w)) = (ws, d)" by (rule prod.exhaust)
  have "list_all (\<lambda>wt. ran_ok (se_git env) (snd (sw_git w'))
      (commit_of (se_git env) (sw_task w) (Some agent) branchRole role sfx wt)) (worktrees_from (se_git env) (sw_task w) ws sfx rs d)"
    using commitSandbox_all [OF c', of rs ws d] assms(2) l unfolding tw git by simp
  then show ?thesis using as y role st l by (intro exI [of _ agent] exI [of _ i] exI [of _ w1] exI [of _ w3]) simp
qed

section \<open>An implementation that succeeds has changed something\<close>

text \<open>
  C14: the implementation step succeeds only after a run of the harness that ended without a question and
  changed a file whose path does not contain the directory of specifications, unless the task is marked
  as documentation by a label or by its proposal.
\<close>

theorem implement_changes_code:
  assumes "implement_Execute env w = (Inr res, w')"
  shows "\<exists>i out w1 rootp. run_step env (se_agent env) StepCLIImplement i [] '''' w = (Inr out, w1) \<and> \<not> co_awaiting out \<and>
    co_changed out \<noteq> [] \<and>
    (isDocsOnlyTask (sw_task w) \<or>
     proposalDeclaresDocumentationOnly (se_files env True) (se_yaml_type env) rootp (TaskSpecSlug (sw_task w)) \<or>
     (\<exists>f \<in> set (co_changed out). \<not> str_contains f ''docs/openspecs/''))"
proof -
  obtain base where b: "LoadStepPrompt (xc_step_prompts (se_ctx env)) StepCLIImplement = Some base"
    using assms by (cases "LoadStepPrompt (xc_step_prompts (se_ctx env)) StepCLIImplement") (simp_all add: implement_Execute_def)
  let ?i = "implement_text (role_prompt env (se_agent env) StepCLIImplement w) base (sw_task w) [] (review_feedback w)"
  obtain x w1 where run: "run_step env (se_agent env) StepCLIImplement ?i [] '''' w = (x, w1)" by (rule prod.exhaust)
  obtain out where x: "x = Inr out" using assms b run by (cases x) (simp_all add: implement_Execute_def)
  have a: "\<not> co_awaiting out" using assms b run x pause_not_Inr by (auto simp: implement_Execute_def)
  obtain y w2 where c: "check_changes env StepCLIImplement '''' (co_changed out) w1 = (y, w2)" by (rule prod.exhaust)
  obtain rootp where y: "y = Inr rootp" using assms b run x a c by (cases y) (simp_all add: implement_Execute_def)
  from check_changes_Inr [OF c [unfolded y]] run_step_task [OF run] run [unfolded x] a show ?thesis
    unfolding hasChangeOutsideOpenspecs_def list_ex_iff by metis
qed

text \<open>The test is for the directory anywhere in a path: code that lies below a directory of that name does not count.\<close>

lemma nested_directory_not_code: "\<not> hasChangeOutsideOpenspecs [''web/docs/openspecs/viewer.ts'']"
  by code_simp

end
