(* ===== verification/Track_Examples.thy ===== *)
theory Track_Examples
  imports Harness_Properties Track_Step
begin

text \<open>
  Runs of the first steps on a small project: one repository, one task, a harness that succeeds or asks.
\<close>

section \<open>A project with one repository\<close>

definition idle_context :: context_env where
  "idle_context =
     \<lparr>xc_step_prompts = (\<lambda>_. Some ''Do it.''), xc_role_prompts = (\<lambda>_. None), xc_skills = (\<lambda>_ _. None),
      xc_learned = (\<lambda>_ _. None), xc_rules = concat, xc_manifest = (\<lambda>_ _ _ _ _ _. '''')\<rparr>"

definition obedient_git :: "git_repo list \<Rightarrow> git_env" where
  "obedient_git rs =
     \<lparr>ge_wk = demo_wk rs, ge_container = (\<lambda>p. p), ge_run = (\<lambda>_ _. SandboxDone (Some ''abc'')),
      ge_agent_name = ''bot'', ge_agent_email = ''bot@autocode.os'', ge_stamp = (\<lambda>_. 0)\<rparr>"

definition one_repo :: "git_repo list" where
  "one_repo = [repo_at ''r'' ''https://git/a.git'']"

definition coding_cli :: cli_env where
  "coding_cli = demo_cli\<lparr>le_changed := (\<lambda>_ _. Some [''main.go''])\<rparr>"

definition demo_step :: step_env where
  "demo_step =
     \<lparr>se_cli = coding_cli, se_ctx = idle_context, se_git = obedient_git one_repo,
      se_dir = (\<lambda>i. \<lparr>ag_org = ''o'', ag_role = (if i = ''a'' then ''planner'' else ''backend''),
                       ag_auto_join = True, ag_projects = []\<rparr>),
      se_names = (\<lambda>i. i), se_agent = Some \<lparr>sa_id = ''a'', sa_name = ''a'', sa_role = ''planner''\<rparr>,
      se_job = ''j'', se_session = None,
      se_files = (\<lambda>_ p. if has_prefix p ''/w/t/code/'' then Some ''- [ ] one'' else None),
      se_yaml_type = (\<lambda>_. None), se_err = (\<lambda>_. '''')\<rparr>"

definition world_of :: "task \<Rightarrow> step_world" where
  "world_of t =
     \<lparr>sw_cli = fresh_cli\<lparr>ls_orch := (ls_orch fresh_cli)\<lparr>os_db := (os_db (ls_orch fresh_cli))\<lparr>
          db_tasks := [t], db_agents := [(''a'', AgentStatusRunning), (''b'', AgentStatusIdle)]\<rparr>\<rparr>\<rparr>,
      sw_task = t, sw_report = None, sw_git = (used_disk, [])\<rparr>"

lemma world_row: "get_task (os_db (sw_orch (world_of t))) (t_id (sw_task (world_of t))) = Inr (sw_task (world_of t))"
  by (simp add: get_task_def find_row_def world_of_def)

lemma pairE: "fst p = x \<Longrightarrow> p = (x, snd p)"
  by (cases p) simp

section \<open>The specification\<close>

definition approved_task :: task where
  "approved_task = (demo_task ''t'' TaskStatusAnalyzing)\<lparr>t_spec_status := TaskSpecStatusApproved\<rparr>"

lemma approved_run:
  "fst (spec_Execute demo_step (world_of approved_task)) =
   Inr (spec_result ''/w/t/code/repos/a/main/docs/openspecs/fix-typo-t'' 1)"
  by code_simp

theorem spec_step_sound_witness:
  "\<exists>rootp n. fst (ResolveHostWorktreeRoot demo_step '''' (start_analyzing (world_of approved_task))) = Inr rootp \<and> 0 < n \<and>
     has_spec (se_files demo_step False)
       (path_join [rootp, ''docs'', ''openspecs'', DeriveTaskSlug (t_id approved_task) (t_title approved_task)]) n"
proof -
  have "t_spec_status (sw_task (world_of approved_task)) = TaskSpecStatusApproved"
    "sw_task (world_of approved_task) = approved_task"
    by code_simp (simp add: world_of_def)
  with spec_step_sound [OF pairE [OF approved_run]] show ?thesis by (auto simp: Let_def)
qed

section \<open>A question and its answer\<close>

abbreviation asking :: step_world where "asking \<equiv> world_of (demo_task ''t'' TaskStatusAnalyzing)"

abbreviation asked :: "(step_error + gomap) \<times> step_world" where
  "asked \<equiv> pauseForClarification demo_step StepCLISpec ''Which port?'' asking"

definition answer_to :: "step_world \<Rightarrow> task result" where
  "answer_to w = svc_Clarify 1 (os_db (sw_orch w)) ''t'' ''8080''"

definition answered_task :: task where
  "answered_task = (case fst (answer_to (snd asked)) of Inr t \<Rightarrow> t | Inl _ \<Rightarrow> demo_task ''t'' '''')"

lemma asked_run: "fst asked = Inl (PauseError StepCLISpec ''workflow paused for human task clarification (cli)'')"
  by code_simp

lemma answer_run: "(case fst (answer_to (snd asked)) of Inr _ \<Rightarrow> True | Inl _ \<Rightarrow> False)"
  by code_simp

lemma answered_run: "answer_to (snd asked) = (Inr answered_task, snd (answer_to (snd asked)))"
  using answer_run by (intro pairE) (auto simp: answered_task_def split: sum.splits)

lemma asking_id: "t_id (sw_task asking) = ''t''"
  by code_simp

lemma clarify_run:
  "svc_Clarify 1 (os_db (sw_orch (snd asked))) (t_id (sw_task asking)) ''8080'' =
   (Inr answered_task, snd (answer_to (snd asked)))"
  using answered_run by (simp only: asking_id answer_to_def)


text \<open>The second question of the harness, after it has written the files.\<close>

definition second_question :: cli_step_output where
  "second_question = \<lparr>co_output = ''Which host?'', co_files = [], co_awaiting = True, co_changed = []\<rparr>"

lemma second_valid:
  "validateSpecFiles (se_files demo_step True) ''/w/t/code/spec'' (TaskSpecSlug answered_task) = Inr 1"
  by code_simp

lemma sw_task_world [simp]: "sw_task (world_of t) = t"
  by (simp add: world_of_def)

theorem second_question_bypassed_witness:
  "\<exists>w3. judge_spec demo_step ''/w/t/code/spec'' second_question (world_of answered_task) = (Inr (spec_result ''/w/t/code/spec'' 1), w3) \<and>
    t_spec_status (sw_task w3) = TaskSpecStatusReadyWithWarnings"
proof (rule second_question_bypassed [OF world_row asked_run [THEN pairE]])
  show "svc_Clarify 1 (os_db (sw_orch (snd asked))) (t_id (sw_task asking)) ''8080'' =
      (Inr (sw_task (world_of answered_task)), snd (answer_to (snd asked)))"
    unfolding sw_task_world [of answered_task] by (rule clarify_run)
  show "get_task (os_db (sw_orch (world_of answered_task))) (t_id (sw_task (world_of answered_task))) =
      Inr (sw_task (world_of answered_task))" by (rule world_row)
  show "co_awaiting second_question" by (simp add: second_question_def)
  show "validateSpecFiles (se_files demo_step True) ''/w/t/code/spec'' (TaskSpecSlug (sw_task (world_of answered_task))) = Inr 1"
    unfolding sw_task_world by (rule second_valid)
qed

section \<open>The implementation\<close>

abbreviation coding :: step_world where "coding \<equiv> world_of (demo_task ''t'' TaskStatusCoding)"

lemma implement_runs: "(case fst (implement_Execute demo_step coding) of Inr _ \<Rightarrow> True | Inl _ \<Rightarrow> False)"
  by code_simp

theorem implement_changes_code_witness:
  "\<exists>i out w1 rootp. run_step demo_step (se_agent demo_step) StepCLIImplement i [] '''' coding = (Inr out, w1) \<and>
    \<not> co_awaiting out \<and> co_changed out \<noteq> [] \<and>
    (isDocsOnlyTask (sw_task coding) \<or>
     proposalDeclaresDocumentationOnly (se_files demo_step True) (se_yaml_type demo_step) rootp (TaskSpecSlug (sw_task coding)) \<or>
     (\<exists>f \<in> set (co_changed out). \<not> str_contains f ''docs/openspecs/''))"
proof -
  obtain res where "fst (implement_Execute demo_step coding) = Inr res" using implement_runs by (auto split: sum.splits)
  from implement_changes_code [OF pairE [OF this]] show ?thesis .
qed

section \<open>The tracks\<close>

lemma track_runs: "(case fst (backend_Execute demo_step coding) of Inr _ \<Rightarrow> True | Inl _ \<Rightarrow> False)"
  by code_simp

lemma track_result: obtains res where "backend_Execute demo_step coding = (Inr res, snd (backend_Execute demo_step coding))"
proof -
  obtain res where "fst (backend_Execute demo_step coding) = Inr res" using track_runs by (auto split: sum.splits)
  from pairE [OF this] show thesis by (rule that)
qed

lemma track_assigned_id:
  "fst (assignByRole (se_dir demo_step) (os_db (sw_orch coding)) (sw_task coding) ''backend'') = Inr ''b''"
  by code_simp

lemma track_assigned:
  obtains a w1 where "assignRoleAgent demo_step ''backend'' StepCLIImplementBackend coding = (Inr (a, ''b''), w1)"
proof -
  obtain d where d: "assignByRole (se_dir demo_step) (os_db (sw_orch coding)) (sw_task coding) ''backend'' = (Inr ''b'', d)"
    using track_assigned_id by (metis prod.collapse)
  have other: "\<not> (\<exists>a \<in> set_option (se_agent demo_step). sa_role a = ''backend'')"
    and row: "sa_role (agent_row demo_step ''b'') = ''backend''" "sa_id (agent_row demo_step ''b'') = ''b''"
    by (simp_all add: demo_step_def agent_row_def)
  have "\<exists>a w1. assignRoleAgent demo_step ''backend'' StepCLIImplementBackend coding = (Inr (a, ''b''), w1)"
    using other row d unfolding assignRoleAgent_def finishAssign_def by (simp add: Let_def)
  with that show thesis by blast
qed

theorem track_agent_released_witness:
  "agent_status (os_db (sw_orch (snd (backend_Execute demo_step coding)))) ''b'' \<in> {None, Some AgentStatusIdle}"
proof -
  obtain a w1 where a: "assignRoleAgent demo_step ''backend'' StepCLIImplementBackend coding = (Inr (a, ''b''), w1)"
    by (rule track_assigned)
  have e: "track_Execute demo_step ''backend'' ''be'' StepCLIImplementBackend ''-be-worktree'' coding =
      (fst (backend_Execute demo_step coding), snd (backend_Execute demo_step coding))"
    by (simp add: backend_Execute_def)
  have r: "\<forall>x \<in> set_option (se_agent demo_step). sa_role x = ag_role (se_dir demo_step (sa_id x))"
    by (simp add: demo_step_def)
  show ?thesis by (rule track_agent_released [OF e a _ r]) simp
qed

theorem track_commits_every_repository_witness:
  "\<exists>agent i w1. assignRoleAgent demo_step ''backend'' StepCLIImplementBackend coding = (Inr (agent, i), w1) \<and>
     sa_role agent = ''backend''"
proof -
  obtain res where "backend_Execute demo_step coding = (Inr res, snd (backend_Execute demo_step coding))" by (rule track_result)
  moreover have "LoadTargetRepositories (ge_wk (se_git demo_step)) (sw_task coding) = Inr one_repo" by code_simp
  ultimately show ?thesis using track_commits_every_repository unfolding backend_Execute_def by blast
qed

section \<open>Two repositories\<close>

definition two_repos :: "git_repo list" where
  "two_repos = [repo_at ''r'' ''https://git/a.git'', repo_at ''s'' ''https://git/b.git'']"

definition two_disk :: wk_disk where
  "two_disk = snd (EnsureWorkspaceCloned (demo_wk two_repos) (demo_task ''t'' ''todo'') ''j'' (Some []) None empty_disk)"

definition two_workspace :: task_workspace where
  "two_workspace = (GetTaskWorkspace (demo_wk two_repos) (demo_task ''t'' ''todo''))\<lparr>tw_repos :=
     map (new_repo_workspace (demo_task ''t'' ''todo'')) two_repos\<rparr>"

lemma two_loaded: "LoadTaskWorkspace (demo_wk two_repos) (demo_task ''t'' ''todo'') two_disk = (Inr two_workspace, two_disk)"
  by code_simp

theorem tracks_share_directory_witness:
  "\<exists>p. GetTaskRepoHostPath (demo_wk two_repos) (demo_task ''t'' ''todo'') two_disk = (Inr p, two_disk) \<and>
    HostWorktreePath (demo_wk two_repos) (demo_task ''t'' ''todo'') p ''-be-worktree'' two_disk = (p, two_disk) \<and>
    HostWorktreePath (demo_wk two_repos) (demo_task ''t'' ''todo'') p ''-fe-worktree'' two_disk = (p, two_disk)"
  by (rule tracks_share_directory [OF _ two_loaded]) code_simp+

end
