(* ===== verification/Spec2Isabelle.thy ===== *)
theory Spec2Isabelle
  imports Workflow_Properties Governance Policy Task_Split Control_Properties
    Path_Properties Patch_Properties Policy_Gate Routing_Properties
    Agents Cross_Review Review_Loop Harness_Properties Worker_Pool Workspace_Runs Merge_Step
    Delivery CLI_Context Role_Worktrees CLI_Steps CLI_Step_Props Track_Step Track_Examples
begin

text \<open>
  A verification development for the server of Auto Code OS. Paths are below
  \<^verbatim>\<open>src/server/internal\<close> unless they begin with \<^verbatim>\<open>pkg/\<close>, which is \<^verbatim>\<open>src/server/pkg\<close>.

  \<^bold>\<open>The program.\<close> A person gives the server a task in a project. A job is queued for the task; a worker
  claims the job, an agent and the workspace of the task, and runs a pipeline: analysis,
  specification, implementation (alone or as a backend and a frontend track), merge, review by another
  harness, pull request. A step runs a coding CLI (a harness) in a container over the clones of the
  workspace. Every success is a checkpoint, so that a later run resumes behind it. The status of the
  task follows a table of transitions; guardrails may block it, a person may approve, answer, reject or
  retry. A large task is split into children that run one after another. Patches of a model are
  validated and checked against a policy before they touch a file, and commits are attested.

  \<^bold>\<open>Values.\<close> \<open>Go_Prelude\<close> has what every component shares: a Go string is a list of bytes, errors are
  sums, a JSON document is a tree, a Go map that is only looked up is a partial function and one that is
  ranged over is an association list with the order of the range as an argument. \<open>Go_Path\<close> is
  \<^verbatim>\<open>path/filepath\<close>, \<open>Base64\<close> is \<^verbatim>\<open>encoding/base64\<close>. Integers are unbounded except where the code can leave
  the range of its type; there the wrap-around is written out (\<open>calculateBackoff\<close>). Costs are
  rationals. Times are integers; the clock is an argument.
\<close>

section \<open>Theories and sources\<close>

text \<open>
  \<^bold>\<open>Workflow engine\<close> (\<^verbatim>\<open>workflow/\<close>). \<open>Graph_Search\<close> and \<open>Graph_Reach\<close> hold the dependency graphs and their
  searches. \<open>Workflow_Defs\<close> is \<^verbatim>\<open>schema.go\<close> and the run of one step; \<open>Workflow_Graph\<close> is \<^verbatim>\<open>graph.go\<close>;
  \<open>Workflow_Engine\<close> is \<^verbatim>\<open>engine.go\<close>, with the outputs, events and checkpoints of a run as its state;
  \<open>Workflow_Steps\<close> are the pipelines of \<^verbatim>\<open>step.go\<close>; \<open>Workflow_Parser\<close> is \<^verbatim>\<open>parser.go\<close>. The lemmas of
  \<open>Workflow_Engine_Props\<close> and \<open>Workflow_Properties\<close> show that a step starts only behind its successful
  dependencies, that an accepted definition never gets stuck, and what the pipelines enforce.

  \<^bold>\<open>Statuses, configuration and policy.\<close> \<open>Task_Model\<close> has the records of \<^verbatim>\<open>pkg/models\<close>; \<open>Status_Machines\<close>
  the two tables of transitions (\<^verbatim>\<open>pkg/models/task.go\<close>, \<^verbatim>\<open>workflow/state_machine.go\<close>) with their step
  relations; \<open>Governance\<close> is \<^verbatim>\<open>governance/\<close>; \<open>Policy\<close> is \<^verbatim>\<open>policy/\<close>.

  \<^bold>\<open>Task service.\<close> \<open>Task_Store\<close> and \<open>Job_Store\<close> are the rows of \<^verbatim>\<open>repository/\<close>; \<open>Task_Service\<close>,
  \<open>Task_Actions\<close> and \<open>Guardrails\<close> are \<^verbatim>\<open>service/task.go\<close>, \<^verbatim>\<open>service/task_action.go\<close> and
  \<^verbatim>\<open>service/task_guardrail.go\<close>; \<open>Task_Handlers\<close> are the operations of \<^verbatim>\<open>handler/\<close> that change tasks.
  \<open>Task_Properties\<close>, \<open>Task_Split\<close> and \<open>Control_Properties\<close> show which statuses, retry counts and jobs
  these operations can produce.

  \<^bold>\<open>Orchestrator\<close> (\<^verbatim>\<open>orchestrator/\<close>). \<open>Decomposition\<close> is the status write of \<^verbatim>\<open>tracker.go\<close> with the hooks
  of \<^verbatim>\<open>decomposition.go\<close>, \<open>Reduce\<close> the aggregation of the children, \<open>Job_Control\<close> the operations of
  \<^verbatim>\<open>orchestrator.go\<close> on jobs, \<open>Agents\<close> the manager and watchdog of agents, \<open>Checkpoint_Store\<close> is
  \<^verbatim>\<open>checkpoint/\<close>, \<open>Worker\<close> is \<^verbatim>\<open>worker.go\<close> with \<^verbatim>\<open>recovery.go\<close>, and \<open>Worker_Pool\<close> the loop of \<^verbatim>\<open>queue.go\<close>.
  A run of the worker calls the engine with the event handler of the code; the handler is a
  function of the events, and its effects on the database are replayed from them.

  \<^bold>\<open>Harnesses.\<close> \<open>Credentials\<close> and \<open>Credential_Pool\<close> are \<^verbatim>\<open>service/credential_pool.go\<close> and
  \<^verbatim>\<open>service/credential_router.go\<close> over their rows; \<open>Execution_Router\<close> is \<^verbatim>\<open>execution_router.go\<close>;
  \<open>CLI_Runner\<close> is \<^verbatim>\<open>cli_spec_step.go\<close> and \<^verbatim>\<open>cli_engine_step.go\<close>; \<open>CLI_Context\<close> is what a step is given to
  read (\<^verbatim>\<open>prompts/cli_context.go\<close>, \<^verbatim>\<open>prompts/rolepolicy.go\<close>).

  \<^bold>\<open>Steps\<close> (\<^verbatim>\<open>orchestrator/steps/\<close>). \<open>CLI_Steps\<close> are analysis, specification, clarification and
  implementation; \<open>Track_Step\<close> the parallel tracks over \<open>Role_Worktrees\<close> (\<^verbatim>\<open>repoutil/worktrees.go\<close>);
  \<open>Merge_Step\<close>, \<open>Cross_Review\<close> with \<open>Review_Verdict\<close>, and \<open>PR_Step\<close> with \<open>PR_Summary\<close> the steps behind them.
  \<open>Delivery\<close>, \<open>Review_Loop\<close>, \<open>Harness_Properties\<close> and \<open>Workspace_Runs\<close> are about several parts at once: what
  one step leaves behind for the next, and one run for the next.

  \<^bold>\<open>Files.\<close> \<open>Paths\<close> is \<^verbatim>\<open>pkg/paths/\<close>; \<open>Workspaces\<close> and \<open>Workspace_Lock\<close> are \<^verbatim>\<open>orchestrator/wkspace/\<close> with
  \<^verbatim>\<open>repoutil/paths.go\<close> and \<^verbatim>\<open>repoutil/repos.go\<close>. \<open>Patch_Blocks\<close>, \<open>Patch_Fuzzy\<close>, \<open>Patch_Apply\<close>,
  \<open>Patch_Hunks\<close> and \<open>Patch_Policy\<close> are \<^verbatim>\<open>orchestrator/patch/\<close>. \<open>Path_Properties\<close>, \<open>Patch_Properties\<close> and
  \<open>Policy_Gate\<close> show what is contained in what, and which cases escape.

  \<^bold>\<open>Attestations.\<close> \<open>Attestation\<close> and \<open>Attestation_Props\<close> are \<^verbatim>\<open>pkg/attest/\<close>, \<^verbatim>\<open>service/attestation.go\<close> and
  \<^verbatim>\<open>repository/attestation.go\<close>: what was signed verifies for good, through every rotation of the key.
\<close>

section \<open>Interfaces\<close>

text \<open>
  \<open>row_store\<close> (a table addressed by id) is interpreted on the tasks, the jobs and the credentials;
  \<open>cycle_checker\<close> (a check that accepts exactly the acyclic closed graphs) on the sort of the engine, on
  the validation of governance and on the check of execution plans; \<open>dep_graph\<close> (a finite graph closed
  under prerequisites) on the two pipelines.
\<close>

section \<open>Parameters and bounds\<close>

text \<open>
  What is not code of the server answers through arguments. Git, the container, the git host and the
  check of a harness are functions of the calls made before, so no answer is fixed in advance.
  Where the symbolic links on a path lead is a function of the path.
  Third-party primitives (JSON and YAML decoding, the JSON schema check, Ed25519, SHA-256, AES-GCM) are
  functions, with the documented law named as a hypothesis where a theorem needs it: a signature made
  with a key verifies with its public half, decryption undoes encryption. The clock, random choices,
  generated ids, the order of a range over a map, the order in which goroutines deliver results, and
  the moves of other requests and workers between two steps of a run are arguments too, and the theorems
  hold for all of them.

  Loops end for a reason that is proved: the engine because every round that starts a step shrinks
  the steps left, the graph searches because the unvisited nodes shrink, the scanners because the text
  gets shorter. A status write whose hooks climb from child to parent has fuel; no result means that
  the chain was longer. \<open>updateTaskStatus_returns\<close> shows that fuel above the rank of the task is enough,
  and for a task that is its own parent no fuel is (\<open>Decomposition_Props\<close>). The bounds of the code are
  kept: fifteen tries for the lock, three tries for the commit of a worktree, the number of tries of the
  compare-and-swap, the attempts of a job, the slots of the pool.
\<close>

section \<open>Not modelled\<close>

text \<open>
  Four parts are left out as a whole. The adapters of git and of the hosts (\<^verbatim>\<open>gitops/\<close>, \<^verbatim>\<open>engine/cli.go\<close>)
  run external programs and are the parameters above. The index and search of the context (\<^verbatim>\<open>context/\<close>,
  \<^verbatim>\<open>mcpcontext/\<close>) rank files by floating point scores over a database of their own, and no other part
  decides by their answer. The assembly of prompts (\<^verbatim>\<open>prompts/builder.go\<close>) concatenates instruction text;
  apart from the role prompts and the skills, nothing calls it any more. Wiring, routes and construction
  of objects (\<^verbatim>\<open>cmd/api/main.go\<close>, \<^verbatim>\<open>handler/router.go\<close>, \<^verbatim>\<open>orchestrator/setup.go\<close>) have no logic of their
  own. The chat, the learning engine, the skills and rules stores, authentication and the audit log are
  stores of rows that the workflow reads at most as text.

  Within the modelled parts: log lines, the time line file, subscriptions to logs and the time stamps of
  rows leave no trace in the state; connection errors of the database appear only where the code
  treats them differently from a missing row; reading files from disk is an argument. Each theory says
  at its head what it leaves out.
\<close>

end
